(* ===== verification/Prelude.thy ===== *)
theory Prelude
  imports
    Complex_Main
    "HOL-Library.Product_Lexorder"
    "HOL-Library.List_Lexorder"
    "HOL-Library.Char_ord"
    "HOL-Library.Option_ord"
    "HOL-Library.Multiset"
    "HOL-Library.AList"
begin

text \<open>
  Shared vocabulary of the development: the exceptions the Python code raises, the
  result type in which every raise is a value, sequencing and loops over that type,
  and the list facts the components share.  Python's \<open>sorted(xs, key=f)\<close> is the
  library's stable \<open>sort_key f xs\<close>; tuple keys are compared lexicographically
  (Product\_Lexorder) and strings by code point (List\_Lexorder over Char\_ord).
\<close>

section \<open>Exceptions and results\<close>

text \<open>
  The exceptions of \<open>core/exceptions.py\<close> and \<open>accounting_errors.py\<close> the modelled code
  raises, and the standard ones its arithmetic can raise.  A message built by an
  f-string is represented by its constant part.
\<close>

datatype py_error =
    ValidationError string
  | AccountingValidationError string string
  | NotFoundError string
  | AuthorizationError string
  | ValueError string
  | InsufficientCreditsError
  | RuntimeError string
  | IntegrityError
  | DataError
  | NoResultFound
  | MultipleResultsFound
  | TypeError
  | KeyError
  | InvalidOperation
  | DivisionByZero
  | OverflowError

type_synonym 'a result = "py_error + 'a"

text \<open>A UUID is its 128-bit value: the 36 character text has fixed width, so ordering
  by \<open>str(uuid)\<close> and ordering by value agree.\<close>

type_synonym uuid = nat

named_theorems result_simps \<open>how the result combinators succeed and fail\<close>

definition bindE :: "'e + 'a \<Rightarrow> ('a \<Rightarrow> 'e + 'b) \<Rightarrow> 'e + 'b" where
  "bindE m f = (case m of Inl e \<Rightarrow> Inl e | Inr a \<Rightarrow> f a)"

definition raise_if :: "bool \<Rightarrow> 'e \<Rightarrow> 'e + unit" where
  "raise_if b e = (if b then Inl e else Inr ())"

primrec mapE :: "('a \<Rightarrow> 'e + 'b) \<Rightarrow> 'a list \<Rightarrow> 'e + 'b list" where
  "mapE f [] = Inr []"
| "mapE f (x # xs) = bindE (f x) (\<lambda>y. bindE (mapE f xs) (\<lambda>ys. Inr (y # ys)))"

primrec foldE :: "('s \<Rightarrow> 'a \<Rightarrow> 'e + 's) \<Rightarrow> 's \<Rightarrow> 'a list \<Rightarrow> 'e + 's" where
  "foldE f s [] = Inr s"
| "foldE f s (x # xs) = bindE (f s x) (\<lambda>s'. foldE f s' xs)"

lemma bindE_simps [simp]:
  "bindE (Inl e) f = Inl e"
  "bindE (Inr a) f = f a"
  by (simp_all add: bindE_def)

lemma bindE_Inr_iff [result_simps]:
  "bindE m f = Inr b \<longleftrightarrow> (\<exists>a. m = Inr a \<and> f a = Inr b)"
  by (cases m) auto

lemma bindE_Inl_iff:
  "bindE m f = Inl e \<longleftrightarrow> m = Inl e \<or> (\<exists>a. m = Inr a \<and> f a = Inl e)"
  by (cases m) auto

lemma bindE_cong [fundef_cong]:
  "m = m' \<Longrightarrow> (\<And>a. m' = Inr a \<Longrightarrow> f a = g a) \<Longrightarrow> bindE m f = bindE m' g"
  by (cases m') auto

lemma raise_if_simps [simp]:
  "raise_if True e = Inl e"
  "raise_if False e = Inr ()"
  by (simp_all add: raise_if_def)

lemma raise_if_Inr_iff [result_simps]: "raise_if b e = Inr u \<longleftrightarrow> \<not> b"
  by (simp add: raise_if_def)

lemma raise_if_Inl_iff: "raise_if b e = Inl e' \<longleftrightarrow> b \<and> e' = e"
  by (auto simp: raise_if_def)

lemma mapE_Inr_iff: "mapE f xs = Inr ys \<longleftrightarrow> list_all2 (\<lambda>x y. f x = Inr y) xs ys"
  by (induction xs arbitrary: ys) (auto simp: result_simps list_all2_Cons1)

lemma mapE_length: "mapE f xs = Inr ys \<Longrightarrow> length ys = length xs"
  by (auto simp: mapE_Inr_iff dest: list_all2_lengthD)

lemma mapE_nth: "mapE f xs = Inr ys \<Longrightarrow> i < length xs \<Longrightarrow> f (xs ! i) = Inr (ys ! i)"
  by (auto simp: mapE_Inr_iff list_all2_conv_all_nth)

lemma mapE_set:
  assumes "mapE f xs = Inr ys" and "y \<in> set ys"
  obtains x where "x \<in> set xs" and "f x = Inr y"
  using assms by (metis in_set_conv_nth mapE_length mapE_nth)

lemma mapE_total: "(\<And>x. x \<in> set xs \<Longrightarrow> f x = Inr (g x)) \<Longrightarrow> mapE f xs = Inr (map g xs)"
  by (induction xs) auto

lemma mapE_exists: "(\<And>x. x \<in> set xs \<Longrightarrow> \<exists>y. f x = Inr y) \<Longrightarrow> \<exists>ys. mapE f xs = Inr ys"
  by (induction xs) fastforce+

lemma mapE_map_eq: "mapE f xs = Inr ys \<Longrightarrow> (\<And>x y. f x = Inr y \<Longrightarrow> h y = k x) \<Longrightarrow> map h ys = map k xs"
  by (induction xs arbitrary: ys) (auto simp: result_simps)

lemma foldE_invariant:
  assumes "foldE f s xs = Inr s'" and "P s"
    and "\<And>s x s'. x \<in> set xs \<Longrightarrow> P s \<Longrightarrow> f s x = Inr s' \<Longrightarrow> P s'"
  shows "P s'"
  using assms
  by (induction xs arbitrary: s) (auto simp: result_simps)

lemma foldE_append:
  "foldE f s (xs @ ys) = bindE (foldE f s xs) (\<lambda>s'. foldE f s' ys)"
proof (induction xs arbitrary: s)
  case (Cons x xs)
  then show ?case by (cases "f s x") auto
qed simp

lemma foldE_total:
  assumes "P s" and "\<And>s x. x \<in> set xs \<Longrightarrow> P s \<Longrightarrow> \<exists>s'. f s x = Inr s' \<and> P s'"
  shows "\<exists>s'. foldE f s xs = Inr s' \<and> P s'"
  using assms
proof (induction xs arbitrary: s)
  case (Cons x xs)
  obtain s1 where "f s x = Inr s1" and "P s1"
    using Cons.prems(1) Cons.prems(2) [of x s] by auto
  moreover obtain s' where "foldE f s1 xs = Inr s'" and "P s'"
    using Cons.IH [OF \<open>P s1\<close>] Cons.prems(2) by auto
  ultimately show ?case by simp
qed simp

text \<open>A loop that extends one output list by what each item produces.\<close>

lemma foldE_extend:
  "foldE (\<lambda>acc x. bindE (f x) (\<lambda>ys. Inr (acc @ ys))) acc xs =
     bindE (mapE f xs) (\<lambda>yss. Inr (acc @ concat yss))"
proof (induction xs arbitrary: acc)
  case (Cons x xs)
  show ?case
  proof (cases "f x")
    case (Inr ys)
    then show ?thesis by (cases "mapE f xs") (simp_all add: Cons.IH)
  qed simp
qed simp

lemma mapE_concat_group:
  assumes "mapE f xs = Inr yss" and "distinct (map k xs)" and "x \<in> set xs"
    and "\<And>x ys y. x \<in> set xs \<Longrightarrow> f x = Inr ys \<Longrightarrow> y \<in> set ys \<Longrightarrow> key y = k x"
  shows "f x = Inr (filter (\<lambda>y. key y = k x) (concat yss))"
  using assms
proof (induction xs arbitrary: yss)
  case (Cons z zs)
  then obtain ys yss' where ys: "f z = Inr ys" "mapE f zs = Inr yss'" "yss = ys # yss'"
    by (auto simp: result_simps)
  have none: "filter (\<lambda>y. key y = k z) (concat yss') = []"
  proof (rule filter_False, rule ballI)
    fix y assume "y \<in> set (concat yss')"
    then obtain l where l: "l \<in> set yss'" "y \<in> set l" by auto
    obtain w where "w \<in> set zs" "f w = Inr l" by (rule mapE_set [OF ys(2) l(1)])
    then show "key y \<noteq> k z" using Cons.prems(2) Cons.prems(4) [of w l y] l(2) by force
  qed
  have all: "\<forall>y \<in> set ys. key y = k z" using Cons.prems(4) [of z ys] ys(1) by auto
  show ?case
  proof (cases "x = z")
    case True
    then show ?thesis using ys none all by (simp add: filter_id_conv)
  next
    case False
    then have xz: "x \<in> set zs" "k z \<noteq> k x" using Cons.prems(2,3) by (auto simp: image_iff)
    then have "filter (\<lambda>y. key y = k x) ys = []" using all by (auto simp: filter_empty_conv)
    moreover have "f x = Inr (filter (\<lambda>y. key y = k x) (concat yss'))"
      using Cons.prems xz by (intro Cons.IH ys) auto
    ultimately show ?thesis using ys by simp
  qed
qed simp

section \<open>Lists\<close>

text \<open>\<open>dict.setdefault(k, []).append(v)\<close> over an insertion-ordered dict only ever feeds
  a lookup by key: the group of a key is the sublist of items with that key.\<close>

definition group_of :: "('a \<Rightarrow> 'k) \<Rightarrow> 'k \<Rightarrow> 'a list \<Rightarrow> 'a list" where
  "group_of key k xs = filter (\<lambda>x. key x = k) xs"

lemma group_of_simps:
  "group_of key k [] = []"
  "group_of key k (x # xs) = (if key x = k then x # group_of key k xs else group_of key k xs)"
  by (simp_all add: group_of_def)

text \<open>\<open>{key(x): x for x in xs}\<close> keeps the last binding of a key.\<close>

definition dict_by :: "('a \<Rightarrow> 'k) \<Rightarrow> 'a list \<Rightarrow> 'k \<Rightarrow> 'a option" where
  "dict_by key xs k = find (\<lambda>x. key x = k) (rev xs)"

lemma dict_by_Some: "dict_by key xs k = Some x \<Longrightarrow> x \<in> set xs \<and> key x = k"
  by (auto simp: dict_by_def find_Some_iff dest: nth_mem)
    (metis length_rev nth_mem set_rev)

lemma dict_by_None: "dict_by key xs k = None \<longleftrightarrow> k \<notin> key ` set xs"
  by (auto simp: dict_by_def find_None_iff)

lemma dict_by_distinct:
  assumes "distinct (map key xs)" and "x \<in> set xs"
  shows "dict_by key xs (key x) = Some x"
proof -
  obtain y where y: "dict_by key xs (key x) = Some y"
    using assms(2) dict_by_None [of key xs "key x"] by (cases "dict_by key xs (key x)") auto
  then have "y \<in> set xs" and "key y = key x"
    by (auto dest: dict_by_Some)
  with assms have "y = x"
    by (auto simp: distinct_map dest: inj_onD)
  with y show ?thesis by simp
qed

text \<open>A dict comprehension \<open>{k: v for ...}\<close>: insertion order, a repeated key keeps its
  place and takes the new value.\<close>

definition py_dict :: "('k \<times> 'v) list \<Rightarrow> ('k \<times> 'v) list" where
  "py_dict kvs = foldl (\<lambda>d kv. AList.update (fst kv) (snd kv) d) [] kvs"

lemma update_fresh: "k \<notin> fst ` set d \<Longrightarrow> AList.update k v d = d @ [(k, v)]"
  by (induction d) auto

lemma foldl_update_fresh:
  "distinct (map fst (d @ kvs)) \<Longrightarrow>
     foldl (\<lambda>d kv. AList.update (fst kv) (snd kv) d) d kvs = d @ kvs"
proof (induction kvs arbitrary: d)
  case (Cons kv kvs)
  then have "AList.update (fst kv) (snd kv) d = d @ [kv]" by (simp add: update_fresh)
  moreover have "distinct (map fst ((d @ [kv]) @ kvs))" using Cons.prems by simp
  ultimately show ?case using Cons.IH [of "d @ [kv]"] by simp
qed simp

lemma py_dict_distinct: "distinct (map fst kvs) \<Longrightarrow> py_dict kvs = kvs"
  using foldl_update_fresh [of "[]" kvs] by (simp add: py_dict_def)

lemma map_of_foldl_update:
  "map_of (foldl (\<lambda>d kv. AList.update (fst kv) (snd kv) d) d kvs) = map_of (rev kvs @ d)"
  by (induction kvs arbitrary: d) (auto simp: fun_eq_iff update_conv' map_of_append map_add_def split: option.splits)

lemma map_of_py_dict: "map_of (py_dict kvs) = map_of (rev kvs)"
  by (simp add: py_dict_def map_of_foldl_update)

lemma map_of_py_dict_Some: "map_of (py_dict kvs) k = Some v \<Longrightarrow> (k, v) \<in> set kvs"
  by (metis map_of_SomeD map_of_py_dict set_rev)

lemma keys_py_dict: "fst ` set (py_dict kvs) = fst ` set kvs"
  by (metis dom_map_of_conv_image_fst map_of_py_dict set_rev)

lemma sum_list_AList_update:
  assumes "distinct (map fst d)" and "map_of d k = Some v"
  shows "sum_list (map snd (AList.update k w d)) = sum_list (map snd d) + (w - v :: 'a::ab_group_add)"
  using assms by (induction d) (auto split: if_splits)

lemma map_fst_AList_update: "k \<in> fst ` set d \<Longrightarrow> map fst (AList.update k w d) = map fst d"
  by (induction d) auto

lemma sum_list_butlast_last:
  "xs \<noteq> [] \<Longrightarrow> sum_list (map f xs) = sum_list (map f (butlast xs)) + (f (last xs) :: 'a::comm_monoid_add)"
  by (cases xs rule: rev_cases) auto

lemma snd_AList_update: "snd ` set (AList.update k w d) \<subseteq> insert w (snd ` set d)"
  by (induction d) auto

text \<open>The running total of a list of increments: the prefix sums.\<close>

fun prefix_sums :: "'a::comm_monoid_add \<Rightarrow> 'a list \<Rightarrow> 'a list" where
  "prefix_sums s [] = []"
| "prefix_sums s (x # xs) = (s + x) # prefix_sums (s + x) xs"

lemma prefix_sums_Nil_iff [simp]: "prefix_sums s xs = [] \<longleftrightarrow> xs = []"
  by (cases xs) auto

lemma last_prefix_sums: "xs \<noteq> [] \<Longrightarrow> last (prefix_sums s xs) = s + sum_list xs"
proof (induction xs arbitrary: s)
  case (Cons x xs)
  then show ?case by (cases "xs = []") (auto simp: add.assoc)
qed simp

lemma sum_list_update_head:
  "sum_list ((y::'a::ab_group_add) # xs) = sum_list (x # xs) + (y - x)"
  by simp

lemma find_Some_in: "find P xs = Some x \<Longrightarrow> x \<in> set xs \<and> P x"
  by (auto simp: find_Some_iff)

text \<open>Facts that survive reordering.\<close>

lemma distinct_map_mset: "mset xs = mset ys \<Longrightarrow> distinct (map f xs) \<longleftrightarrow> distinct (map f ys)"
  by (rule mset_eq_imp_distinct_iff) simp

lemma distinct_map_sort_key [simp]: "distinct (map f (sort_key k xs)) \<longleftrightarrow> distinct (map f xs)"
  by (rule distinct_map_mset) simp

lemma sort_key_Nil_iff [simp]: "sort_key k xs = [] \<longleftrightarrow> xs = []"
  by (metis length_0_conv length_sort)

lemma sum_list_sort_key [simp]:
  "sum_list (map f (sort_key k xs)) = (sum_list (map f xs) :: 'a::comm_monoid_add)"
  by (metis mset_map mset_sort sum_mset_sum_list)

lemma map_sort_key_self: "map k (sort_key k xs) = sort (map k xs)"
  by (rule properties_for_sort [symmetric]) simp_all

text \<open>\<open>ORDER BY key DESC LIMIT 1\<close>: the last row of the ascending order.\<close>

definition latest_by :: "('a \<Rightarrow> 'k::linorder) \<Rightarrow> 'a list \<Rightarrow> 'a option" where
  "latest_by key xs = (case rev (sort_key key xs) of [] \<Rightarrow> None | x # _ \<Rightarrow> Some x)"

lemma sort_key_snoc_max: "\<forall>y \<in> set xs. key y \<le> key x \<Longrightarrow> sort_key key (xs @ [x]) = sort_key key xs @ [x]"
proof (induction xs)
  case (Cons y ys)
  have "insort_key key y (zs @ [x]) = insort_key key y zs @ [x]" if "key y \<le> key x" for zs
    using that by (induction zs) auto
  with Cons show ?case by simp
qed simp

lemma latest_by_snoc: "\<forall>y \<in> set xs. key y \<le> key x \<Longrightarrow> latest_by key (xs @ [x]) = Some x"
  by (simp add: latest_by_def sort_key_snoc_max)

lemma latest_by_None [simp]: "latest_by key xs = None \<longleftrightarrow> xs = []"
  by (auto simp: latest_by_def split: list.splits)

lemma latest_by_Nil [simp]: "latest_by key [] = None"
  by simp

lemma latest_by_Some:
  assumes "latest_by key xs = Some x"
  shows "x \<in> set xs" and "\<forall>y \<in> set xs. key y \<le> key x"
proof -
  obtain ys where ys: "sort_key key xs = ys @ [x]"
    using assms by (auto simp: latest_by_def rev_eq_Cons_iff split: list.splits)
  then have s: "set xs = set (ys @ [x])" by (metis set_sort)
  then show "x \<in> set xs" by simp
  have "sorted (map key (ys @ [x]))" by (metis sorted_sort_key ys)
  then show "\<forall>y \<in> set xs. key y \<le> key x" unfolding s by (auto simp: sorted_append)
qed

lemma latest_by_sorted:
  assumes "sorted_wrt (<) (map key xs)"
  shows "latest_by key xs = (if xs = [] then None else Some (last xs))"
proof -
  have "sorted (map key xs)" using assms by (simp add: strict_sorted_iff)
  then have "sort_key key xs = xs" by (rule sort_key_id_if_sorted)
  then show ?thesis by (cases xs rule: rev_cases) (simp_all add: latest_by_def)
qed

text \<open>\<open>ORDER BY key LIMIT 1\<close>.\<close>

definition earliest_by :: "('a \<Rightarrow> 'k::linorder) \<Rightarrow> 'a list \<Rightarrow> 'a option" where
  "earliest_by key xs = (case sort_key key xs of [] \<Rightarrow> None | x # _ \<Rightarrow> Some x)"

lemma earliest_by_Nil [simp]: "earliest_by key [] = None"
  by (simp add: earliest_by_def)

lemma earliest_by_None [simp]: "earliest_by key xs = None \<longleftrightarrow> xs = []"
  by (auto simp: earliest_by_def split: list.splits)

lemma earliest_by_snoc:
  assumes "\<forall>y \<in> set xs. key y \<le> key x"
  shows "earliest_by key (xs @ [x]) = (case earliest_by key xs of None \<Rightarrow> Some x | Some y \<Rightarrow> Some y)"
  by (auto simp: earliest_by_def sort_key_snoc_max [OF assms] split: list.splits)

lemma earliest_by_in: "earliest_by key xs = Some x \<Longrightarrow> x \<in> set xs"
  by (auto simp: earliest_by_def split: list.splits) (metis list.set_intros(1) set_sort)

section \<open>ASCII text\<close>

definition ascii_space :: "char \<Rightarrow> bool" where
  "ascii_space c \<longleftrightarrow> (let n = of_char c :: nat in n = 32 \<or> 9 \<le> n \<and> n \<le> 13 \<or> 28 \<le> n \<and> n \<le> 31)"

definition py_strip :: "string \<Rightarrow> string" where
  "py_strip s = rev (dropWhile ascii_space (rev (dropWhile ascii_space s)))"

definition upper_char :: "char \<Rightarrow> char" where
  "upper_char c = (let n = of_char c :: nat in if 97 \<le> n \<and> n \<le> 122 then char_of (n - 32) else c)"

definition lower_char :: "char \<Rightarrow> char" where
  "lower_char c = (let n = of_char c :: nat in if 65 \<le> n \<and> n \<le> 90 then char_of (n + 32) else c)"

definition py_upper :: "string \<Rightarrow> string" where "py_upper s = map upper_char s"
definition py_lower :: "string \<Rightarrow> string" where "py_lower s = map lower_char s"

definition is_upper_letter :: "char \<Rightarrow> bool" where
  "is_upper_letter c \<longleftrightarrow> (let n = of_char c :: nat in 65 \<le> n \<and> n \<le> 90)"

lemma upper_letter_fix: "is_upper_letter c \<Longrightarrow> upper_char c = c \<and> \<not> ascii_space c"
  by (auto simp: is_upper_letter_def upper_char_def ascii_space_def Let_def)

lemma strip_upper_fix: "list_all is_upper_letter s \<Longrightarrow> py_upper (py_strip s) = s"
proof -
  assume a: "list_all is_upper_letter s"
  have d: "dropWhile ascii_space t = t" if "list_all is_upper_letter t" for t
    using that upper_letter_fix by (cases t) auto
  have "py_strip s = s" using a by (simp add: py_strip_def d)
  then show ?thesis using a upper_letter_fix by (simp add: py_upper_def list_all_iff map_idI)
qed

end
