(* ===== verification/Canonical_Json.thy ===== *)
theory Canonical_Json
  imports Prelude
begin

text \<open>
  \<open>utils/determinism.py\<close>, \<open>canonical_json_dumps\<close>: JSON values as the hashing code
  builds them, dictionaries brought into key order and printed by \<open>json.dumps\<close> with
  \<open>separators=(",", ":")\<close> and \<open>ensure_ascii=False\<close>.  A \<open>string\<close> stands for the UTF-8
  encoding of a Python string, whose byte order is code point order.  The lemmas show
  that the text does not depend on insertion order and that it determines the value:
  two payloads with the same text are the same payload.
\<close>

section \<open>The code\<close>

datatype json =
    JNull
  | JBool bool
  | JInt int
  | JStr string
  | JList "json list"
  | JDict "(string \<times> json) list"

text \<open>\<open>_canonicalize\<close>; the dictionary is rebuilt in key order, so \<open>sort_keys=True\<close> finds
  it sorted already.\<close>

fun canonicalize :: "json \<Rightarrow> json" where
  "canonicalize (JDict kvs) = JDict (sort_key fst (map (\<lambda>(k, v). (k, canonicalize v)) kvs))"
| "canonicalize (JList xs) = JList (map canonicalize xs)"
| "canonicalize v = v"

definition digit_char :: "nat \<Rightarrow> char" where
  "digit_char n = char_of (n + 48)"

fun nat_text :: "nat \<Rightarrow> string" where
  "nat_text n = (if n < 10 then [digit_char n] else nat_text (n div 10) @ [digit_char (n mod 10)])"

declare nat_text.simps [simp del]

definition int_text :: "int \<Rightarrow> string" where
  "int_text k = (if k < 0 then CHR ''-'' # nat_text (nat (- k)) else nat_text (nat k))"

definition hex_char :: "nat \<Rightarrow> char" where
  "hex_char n = (if n < 10 then char_of (n + 48) else char_of (n + 87))"

definition escape_char :: "char \<Rightarrow> string" where
  "escape_char c =
     (let n = of_char c :: nat in
      if n = 34 then [CHR 0x5C, CHR 0x22]
      else if n = 92 then [CHR 0x5C, CHR 0x5C]
      else if n = 10 then [CHR 0x5C, CHR ''n'']
      else if n = 13 then [CHR 0x5C, CHR ''r'']
      else if n = 9 then [CHR 0x5C, CHR ''t'']
      else if n = 8 then [CHR 0x5C, CHR ''b'']
      else if n = 12 then [CHR 0x5C, CHR ''f'']
      else if n < 32 then [CHR 0x5C, CHR ''u'', CHR ''0'', CHR ''0'', hex_char (n div 16), hex_char (n mod 16)]
      else [c])"

definition quote_text :: "string \<Rightarrow> string" where
  "quote_text s = CHR 0x22 # concat (map escape_char s) @ [CHR 0x22]"

fun json_text :: "json \<Rightarrow> string"
  and items_text :: "json list \<Rightarrow> string"
  and members_text :: "(string \<times> json) list \<Rightarrow> string" where
  "json_text JNull = ''null''"
| "json_text (JBool b) = (if b then ''true'' else ''false'')"
| "json_text (JInt k) = int_text k"
| "json_text (JStr s) = quote_text s"
| "json_text (JList xs) = CHR ''['' # items_text xs @ '']''"
| "json_text (JDict kvs) = CHR 0x7B # members_text kvs @ [CHR 0x7D]"
| "items_text [] = []"
| "items_text (x # xs) = json_text x @ (if xs = [] then [] else CHR '','' # items_text xs)"
| "members_text [] = []"
| "members_text ((k, v) # kvs) =
     quote_text k @ CHR '':'' # json_text v @ (if kvs = [] then [] else CHR '','' # members_text kvs)"

definition canonical_json_dumps :: "json \<Rightarrow> string" where
  "canonical_json_dumps value = json_text (canonicalize value)"

section \<open>Insertion order does not matter\<close>

text \<open>Two values are the same up to the order of dictionary entries; keys of a Python
  dictionary are distinct.\<close>

inductive same_json :: "json \<Rightarrow> json \<Rightarrow> bool" where
  same_atom: "same_json v v"
| same_list: "list_all2 same_json xs ys \<Longrightarrow> same_json (JList xs) (JList ys)"
| same_dict: "list_all2 (\<lambda>kv lw. fst kv = fst lw \<and> same_json (snd kv) (snd lw)) kvs lws
     \<Longrightarrow> mset lws = mset mws \<Longrightarrow> distinct (map fst kvs)
     \<Longrightarrow> same_json (JDict kvs) (JDict mws)"

lemma sort_key_fst_eq:
  assumes "mset xs = mset ys" and "distinct (map fst xs)"
  shows "sort_key fst xs = (sort_key fst ys :: (string \<times> 'b) list)"
  by (rule sort_key_inj_key_eq) (use assms in \<open>simp_all add: distinct_map\<close>)

theorem canonicalize_order_free: "same_json v w \<Longrightarrow> canonicalize v = canonicalize w"
proof (induction rule: same_json.induct)
  case (same_list xs ys)
  then show ?case by (auto simp: list_all2_conv_all_nth intro!: nth_equalityI)
next
  case (same_dict kvs lws mws)
  define c where "c = (\<lambda>kv :: string \<times> json. (fst kv, canonicalize (snd kv)))"
  have c: "(\<lambda>(k, v). (k, canonicalize v)) = c" by (auto simp: c_def)
  have "map c kvs = map c lws"
    using same_dict(1) by (auto simp: list_all2_conv_all_nth c_def intro!: nth_equalityI)
  moreover have "map fst (map c kvs) = map fst kvs" by (simp add: c_def)
  ultimately have "sort_key fst (map c lws) = sort_key fst (map c mws)"
    using same_dict(2,3) by (intro sort_key_fst_eq) simp_all
  then show ?case using \<open>map c kvs = map c lws\<close> by (simp add: c)
qed simp

section \<open>The text determines the value\<close>

text \<open>Decimal numerals.\<close>

definition is_digit :: "char \<Rightarrow> bool" where
  "is_digit c \<longleftrightarrow> 48 \<le> (of_char c :: nat) \<and> (of_char c :: nat) < 58"

lemma of_char_char_of [simp]: "n < 256 \<Longrightarrow> of_char (char_of n) = (n :: nat)"
  by (simp only: of_char_of) simp

lemma digit_char_digit [simp]: "n < 10 \<Longrightarrow> is_digit (digit_char n)"
  by (simp add: is_digit_def digit_char_def del: of_char_of)

lemma digit_char_inj:
  assumes "m < 10" "n < 10"
  shows "digit_char m = digit_char n \<longleftrightarrow> m = n"
proof
  assume "digit_char m = digit_char n"
  then have "(of_char (digit_char m) :: nat) = of_char (digit_char n)" by simp
  then show "m = n" using assms by (simp add: digit_char_def del: of_char_of)
qed simp

lemma nat_text_small: "n < 10 \<Longrightarrow> nat_text n = [digit_char n]"
  and nat_text_large: "\<not> n < 10 \<Longrightarrow> nat_text n = nat_text (n div 10) @ [digit_char (n mod 10)]"
  by (subst nat_text.simps, simp)+

lemma nat_text_digits: "c \<in> set (nat_text n) \<Longrightarrow> is_digit c"
proof (induction n rule: nat_text.induct)
  case (1 n)
  then show ?case by (cases "n < 10") (auto simp: nat_text_small nat_text_large)
qed

lemma nat_text_not_Nil [simp]: "nat_text n \<noteq> []" "[] \<noteq> nat_text n"
  by (cases "n < 10"; simp add: nat_text_small nat_text_large)+

lemma nat_text_inj: "nat_text m = nat_text n \<Longrightarrow> m = n"
proof (induction m arbitrary: n rule: nat_text.induct)
  case (1 m)
  consider "m < 10" "n < 10" | "m < 10" "\<not> n < 10" | "\<not> m < 10" "n < 10" | "\<not> m < 10" "\<not> n < 10"
    by blast
  then show ?case
  proof cases
    case 4
    then have "nat_text (m div 10) = nat_text (n div 10)" "digit_char (m mod 10) = digit_char (n mod 10)"
      using 1(2) by (simp_all add: nat_text_large)
    then have "m div 10 = n div 10" "m mod 10 = n mod 10"
      using 1(1) 4 by (auto simp: digit_char_inj)
    then show ?thesis by (metis div_mult_mod_eq)
  qed (use 1(2) in \<open>simp_all add: nat_text_small nat_text_large digit_char_inj\<close>)
qed

definition ends_number :: "string \<Rightarrow> bool" where
  "ends_number s \<longleftrightarrow> (case s of [] \<Rightarrow> True | c # _ \<Rightarrow> \<not> is_digit c)"

lemma nat_text_prefix:
  assumes "nat_text m @ s = nat_text n @ t" "ends_number s" "ends_number t"
  shows "m = n \<and> s = t"
proof -
  have tw: "takeWhile is_digit (nat_text k @ r) = nat_text k" if "ends_number r" for k r
    using that nat_text_digits [of _ k]
    by (subst takeWhile_append2) (auto simp: ends_number_def split: list.splits)
  have "nat_text m = nat_text n" using tw [OF assms(2), of m] tw [OF assms(3), of n] assms(1) by simp
  with assms(1) show ?thesis by (auto dest: nat_text_inj)
qed

lemma minus_not_nat_text: "CHR ''-'' # s \<noteq> nat_text n @ t"
proof
  assume "CHR ''-'' # s = nat_text n @ t"
  then have "hd (nat_text n) = CHR ''-''" by (cases "nat_text n") auto
  then have "is_digit (CHR ''-'')" by (metis hd_in_set nat_text_digits nat_text_not_Nil(1))
  then show False by (simp add: is_digit_def)
qed

lemma int_text_prefix:
  assumes "int_text a @ s = int_text b @ t" "ends_number s" "ends_number t"
  shows "a = b \<and> s = t"
proof (cases "a < 0 \<longleftrightarrow> b < 0")
  case True
  then have "nat_text (nat \<bar>a\<bar>) @ s = nat_text (nat \<bar>b\<bar>) @ t"
    using assms(1) by (auto simp: int_text_def split: if_splits)
  from nat_text_prefix [OF this assms(2,3)] True show ?thesis by (auto simp: abs_if split: if_splits)
next
  case False
  then show ?thesis using assms(1) minus_not_nat_text minus_not_nat_text [symmetric]
    by (auto simp: int_text_def split: if_splits)
qed

text \<open>Strings: no escape is a prefix of another, and none starts with the quote.\<close>

fun unescape :: "string \<Rightarrow> (char \<times> string) option" where
  "unescape (c # d # s) =
     (if c \<noteq> CHR 0x5C then Some (c, d # s)
      else if d = CHR 0x22 then Some (CHR 0x22, s)
      else if d = CHR 0x5C then Some (CHR 0x5C, s)
      else if d = CHR ''n'' then Some (CHR 10, s)
      else if d = CHR ''r'' then Some (CHR 13, s)
      else if d = CHR ''t'' then Some (CHR 9, s)
      else if d = CHR ''b'' then Some (CHR 8, s)
      else if d = CHR ''f'' then Some (CHR 12, s)
      else Some (char_of ((of_char (s ! 2) - 48 :: nat) * 16
                + (if of_char (s ! 3) < (58 :: nat) then of_char (s ! 3) - 48 else of_char (s ! 3) - 87)), drop 4 s))"
| "unescape s = None"

lemma special_chars:
  "char_of (34 :: nat) = CHR 0x22" "char_of (92 :: nat) = CHR 0x5C" "char_of (10 :: nat) = CHR 10"
  "char_of (13 :: nat) = CHR 13" "char_of (9 :: nat) = CHR 9" "char_of (8 :: nat) = CHR 8"
  "char_of (12 :: nat) = CHR 12"
  by code_simp+

lemma unescape_escape: "unescape (escape_char c @ d # s) = Some (c, d # s)"
proof -
  define n where "n = (of_char c :: nat)"
  have c: "c = char_of n" by (simp add: n_def)
  consider "n \<in> {34, 92, 10, 13, 9, 8, 12}" | "n < 32" "n \<notin> {34, 92, 10, 13, 9, 8, 12}"
    | "32 \<le> n" "n \<noteq> 34" "n \<noteq> 92" by fastforce
  then show ?thesis
  proof cases
    case 1
    then show ?thesis by (auto simp: escape_char_def c special_chars)
  next
    case 2
    have "n < 256" using 2 by simp
    have e: "escape_char c = [CHR 0x5C, CHR ''u'', CHR ''0'', CHR ''0'', hex_char (n div 16), hex_char (n mod 16)]"
      using 2 by (simp add: escape_char_def n_def [symmetric])
    have h: "of_char (hex_char k) = (if k < 10 then k + 48 else k + 87)" if "k < 16" for k
      using that by (simp add: hex_char_def del: of_char_of)
    have "n div 16 < 2" using 2 by simp
    then have "(of_char (hex_char (n div 16)) - 48) * 16
        + (if of_char (hex_char (n mod 16)) < (58 :: nat) then of_char (hex_char (n mod 16)) - 48
           else of_char (hex_char (n mod 16)) - 87) = n"
      by (simp add: h)
    then have "unescape (escape_char c @ d # s) = Some (char_of n, d # s)"
      unfolding e by (simp split: if_splits)
    then show ?thesis by (simp add: n_def)
  next
    case 3
    then have "escape_char c = [c]" by (simp add: escape_char_def n_def [symmetric])
    moreover have "c \<noteq> CHR 0x5C" using 3 by (auto simp: n_def)
    ultimately show ?thesis by simp
  qed
qed

lemma escape_prefix: "escape_char c @ d # s = escape_char c' @ d' # s' \<Longrightarrow> c = c' \<and> d # s = d' # s'"
  by (metis Pair_inject option.inject unescape_escape)

lemma escape_not_quote: "CHR 0x22 # s \<noteq> escape_char c @ t"
  by (auto simp: escape_char_def Let_def)

lemma chars_prefix:
  "concat (map escape_char a) @ CHR 0x22 # s = concat (map escape_char b) @ CHR 0x22 # t \<Longrightarrow> a = b \<and> s = t"
proof (induction a arbitrary: b)
  case Nil
  then show ?case by (cases b) (auto simp: escape_not_quote)
next
  case (Cons c a)
  then obtain c' b' where b: "b = c' # b'"
    by (cases b) (auto simp: escape_not_quote [symmetric])
  have ex: "\<exists>d u. concat (map escape_char z) @ CHR 0x22 # r = d # u" for z r
    by (metis Nil_is_append_conv list.distinct(1) neq_Nil_conv)
  obtain d u where u: "concat (map escape_char a) @ CHR 0x22 # s = d # u" using ex by blast
  obtain d' u' where u': "concat (map escape_char b') @ CHR 0x22 # t = d' # u'" using ex by blast
  have "escape_char c @ d # u = escape_char c' @ d' # u'"
    using Cons.prems by (simp add: b u [symmetric] u' [symmetric])
  then have "c = c'" "d # u = d' # u'" by (auto dest: escape_prefix)
  with Cons.IH [of b'] show ?case by (simp add: b u [symmetric] u' [symmetric])
qed

lemma quote_prefix: "quote_text a @ s = quote_text b @ t \<Longrightarrow> a = b \<and> s = t"
  using chars_prefix [of a s b t] by (simp add: quote_text_def)

text \<open>The first character tells the kind of a value.\<close>

definition char_kind :: "char \<Rightarrow> nat" where
  "char_kind c =
     (if c = CHR ''n'' then 0 else if c = CHR ''t'' \<or> c = CHR ''f'' then 1
      else if c = CHR 0x22 then 3 else if c = CHR ''['' then 4 else if c = CHR 0x7B then 5
      else if c = CHR ''-'' \<or> is_digit c then 2 else 6)"

fun json_kind :: "json \<Rightarrow> nat" where
  "json_kind JNull = 0"
| "json_kind (JBool b) = 1"
| "json_kind (JInt k) = 2"
| "json_kind (JStr t) = 3"
| "json_kind (JList xs) = 4"
| "json_kind (JDict kvs) = 5"

lemma digit_kind: "is_digit c \<Longrightarrow> char_kind c = 2"
  by (auto simp: char_kind_def is_digit_def)

lemma nat_text_Cons: "\<exists>c r. nat_text n = c # r \<and> is_digit c"
  by (metis list.exhaust list.set_intros(1) nat_text_digits nat_text_not_Nil(1))

lemma int_text_Cons: "\<exists>c r. int_text k = c # r \<and> char_kind c = 2"
proof (cases "k < 0")
  case True
  then show ?thesis by (simp add: int_text_def char_kind_def)
next
  case False
  then show ?thesis using nat_text_Cons [of "nat k"] by (auto simp: int_text_def digit_kind)
qed

lemma json_text_Cons: "\<exists>c r. json_text v = c # r \<and> char_kind c = json_kind v"
  using int_text_Cons by (cases v) (auto simp: quote_text_def char_kind_def)

lemma json_kind_eq: "json_text v @ s = json_text w @ t \<Longrightarrow> json_kind v = json_kind w"
  using json_text_Cons [of v] json_text_Cons [of w] by auto

lemma json_text_closing:
  "CHR '']'' # s \<noteq> json_text v @ t" "json_text v @ t \<noteq> CHR '']'' # s"
  using json_text_Cons [of v] by (cases v; auto simp: char_kind_def is_digit_def)+

lemma items_text_closing:
  "CHR '']'' # s = items_text xs @ CHR '']'' # t \<Longrightarrow> xs = [] \<and> s = t"
  "items_text xs @ CHR '']'' # t = CHR '']'' # s \<Longrightarrow> xs = [] \<and> s = t"
  using json_text_closing by (cases xs; simp; fail)+

lemma members_text_closing:
  "CHR 0x7D # s = members_text kvs @ CHR 0x7D # t \<Longrightarrow> kvs = [] \<and> s = t"
  "members_text kvs @ CHR 0x7D # t = CHR 0x7D # s \<Longrightarrow> kvs = [] \<and> s = t"
  by (cases kvs; auto simp: quote_text_def)+

lemma ends_number_simps [simp]:
  "ends_number (CHR '','' # s)" "ends_number (CHR '']'' # s)" "ends_number (CHR 0x7D # s)" "ends_number []"
  by (simp_all add: ends_number_def is_digit_def)

text \<open>A text is never a proper prefix of another.\<close>

lemma json_prefix:
  "json_text v @ s = json_text w @ t \<Longrightarrow> ends_number s \<Longrightarrow> ends_number t \<Longrightarrow> v = w \<and> s = t"
  "items_text xs @ CHR '']'' # s = items_text ys @ CHR '']'' # t \<Longrightarrow> xs = ys \<and> s = t"
  "members_text kvs @ CHR 0x7D # s = members_text lws @ CHR 0x7D # t \<Longrightarrow> kvs = lws \<and> s = t"
proof (induction v and xs and kvs arbitrary: w s t and ys s t and lws s t
    rule: json_text_items_text_members_text.induct)
  case 1
  then show ?case using json_kind_eq [OF 1(1)] by (cases w) auto
next
  case (2 b)
  then show ?case using json_kind_eq [OF 2(1)] by (cases w) (auto split: if_splits)
next
  case (3 k)
  then show ?case using json_kind_eq [OF 3(1)] by (cases w) (auto dest: int_text_prefix)
next
  case (4 q)
  then show ?case using json_kind_eq [OF 4(1)] by (cases w) (auto dest: quote_prefix)
next
  case (5 xs)
  obtain ys where w: "w = JList ys" using json_kind_eq [OF 5(2)] by (cases w) simp_all
  from 5(2) have "items_text xs @ CHR '']'' # s = items_text ys @ CHR '']'' # t" by (simp add: w)
  then have "xs = ys \<and> s = t" by (rule 5(1))
  then show ?case by (simp add: w)
next
  case (6 kvs)
  obtain lws where w: "w = JDict lws" using json_kind_eq [OF 6(2)] by (cases w) simp_all
  from 6(2) have "members_text kvs @ CHR 0x7D # s = members_text lws @ CHR 0x7D # t" by (simp add: w)
  then have "kvs = lws \<and> s = t" by (rule 6(1))
  then show ?case by (simp add: w)
next
  case 7
  then show ?case using items_text_closing(1) [of s ys t] by simp
next
  case (8 x xs)
  have "ys \<noteq> []"
  proof
    assume Nil: "ys = []"
    have "items_text (x # xs) @ CHR '']'' # s = CHR '']'' # t"
      using 8(3) unfolding Nil items_text.simps(1) append_Nil .
    from items_text_closing(2) [OF this] show False by blast
  qed
  then obtain y ys' where ys: "ys = y # ys'" by (cases ys) blast+
  define rest where "rest zs r = (if zs = [] then CHR '']'' # r else CHR '','' # items_text zs @ CHR '']'' # r)"
    for zs and r :: string
  have unfold: "items_text (z # zs) @ CHR '']'' # r = json_text z @ rest zs r" for z zs r
    by (simp add: rest_def)
  have en: "ends_number (rest zs r)" for zs r by (simp add: rest_def)
  have "x = y \<and> rest xs s = rest ys' t"
    using 8(3) unfolding ys unfold by (rule 8(1) [OF _ en en])
  then have "x = y" and r: "rest xs s = rest ys' t" by simp_all
  have "xs = ys' \<and> s = t"
  proof (cases "xs = [] \<or> ys' = []")
    case True
    then show ?thesis using r unfolding rest_def by (auto split: if_splits)
  next
    case False
    then have "items_text xs @ CHR '']'' # s = items_text ys' @ CHR '']'' # t"
      using r unfolding rest_def by simp
    then show ?thesis using False by (intro 8(2)) simp_all
  qed
  with \<open>x = y\<close> ys show ?case by simp
next
  case 9
  then show ?case using members_text_closing(1) [of s lws t] by simp
next
  case (10 k v kvs)
  have "lws \<noteq> []"
  proof
    assume Nil: "lws = []"
    have "members_text ((k, v) # kvs) @ CHR 0x7D # s = CHR 0x7D # t"
      using 10(3) unfolding Nil members_text.simps(1) append_Nil .
    from members_text_closing(2) [OF this] show False by blast
  qed
  then obtain l w lws' where lws: "lws = (l, w) # lws'" by (cases lws) (blast, metis surj_pair)
  define rest where "rest zs r = (if zs = [] then CHR 0x7D # r else CHR '','' # members_text zs @ CHR 0x7D # r)"
    for zs and r :: string
  have unfold: "members_text ((m, z) # zs) @ CHR 0x7D # r = quote_text m @ CHR '':'' # json_text z @ rest zs r"
    for m z zs r by (simp add: rest_def)
  have en: "ends_number (rest zs r)" for zs r by (simp add: rest_def)
  have "quote_text k @ CHR '':'' # json_text v @ rest kvs s = quote_text l @ CHR '':'' # json_text w @ rest lws' t"
    using 10(3) unfolding lws unfold .
  then have "k = l" and "json_text v @ rest kvs s = json_text w @ rest lws' t"
    using quote_prefix by blast+
  then have "v = w \<and> rest kvs s = rest lws' t" by (intro 10(1) [OF _ en en])
  then have "v = w" and r: "rest kvs s = rest lws' t" by simp_all
  have "kvs = lws' \<and> s = t"
  proof (cases "kvs = [] \<or> lws' = []")
    case True
    then show ?thesis using r unfolding rest_def by (auto split: if_splits)
  next
    case False
    then have "members_text kvs @ CHR 0x7D # s = members_text lws' @ CHR 0x7D # t"
      using r unfolding rest_def by simp
    then show ?thesis using False by (intro 10(2)) simp_all
  qed
  with \<open>v = w\<close> \<open>k = l\<close> lws show ?case by simp
qed

lemma json_dict_prefix:
  "json_text (JDict kvs) @ s = json_text (JDict lws) @ t \<Longrightarrow> kvs = lws \<and> s = t"
  using json_prefix(3) [of kvs s lws t] by simp

section \<open>The canonical text decides equality\<close>

text \<open>Keys of a Python dictionary are distinct, at every level of a value.\<close>

fun json_wf :: "json \<Rightarrow> bool" where
  "json_wf (JList xs) = (\<forall>x \<in> set xs. json_wf x)"
| "json_wf (JDict kvs) = (distinct (map fst kvs) \<and> (\<forall>kv \<in> set kvs. json_wf (snd kv)))"
| "json_wf v = True"

lemma dumps_eq_iff: "canonical_json_dumps v = canonical_json_dumps w \<longleftrightarrow> canonicalize v = canonicalize w"
  using json_prefix(1) [of "canonicalize v" "[]" "canonicalize w" "[]"] by (auto simp: canonical_json_dumps_def)

lemma perm_of_image:
  assumes "mset (map f xs) = mset (map g ys)"
  obtains zs where "mset zs = mset ys" and "map g zs = map f xs"
proof -
  have "\<exists>zs. mset zs = mset ys \<and> map g zs = map f xs"
    using assms
  proof (induction xs arbitrary: ys)
    case (Cons x xs)
    then have "f x \<in># mset (map g ys)" by (metis list.set_intros(1) list.simps(9) set_mset_mset)
    then obtain y where y: "y \<in> set ys" "g y = f x" by auto
    have "mset (map f xs) = mset (map g (remove1 y ys))"
      using Cons.prems y by (simp add: image_mset_Diff) (metis add_mset_remove_trivial)
    then obtain zs where "mset zs = mset (remove1 y ys)" "map g zs = map f xs"
      using Cons.IH by blast
    then have "mset (y # zs) = mset ys" "map g (y # zs) = map f (x # xs)"
      using y by simp_all
    then show ?case by blast
  qed simp
  then show ?thesis using that by blast
qed

lemma same_json_complete:
  "canonicalize v = canonicalize w \<Longrightarrow> json_wf v \<Longrightarrow> json_wf w \<Longrightarrow> same_json v w"
proof (induction v arbitrary: w rule: canonicalize.induct)
  case (1 kvs)
  from 1(2) obtain mws where w: "w = JDict mws" by (cases w) simp_all
  define c where "c = (\<lambda>kv :: string \<times> json. (fst kv, canonicalize (snd kv)))"
  have c: "(\<lambda>(k, v). (k, canonicalize v)) = c" by (auto simp: c_def)
  have "mset (map c kvs) = mset (map c mws)"
    using 1(2) by (simp add: w c) (metis mset_map mset_sort)
  then obtain lws where lws: "mset lws = mset mws" "map c lws = map c kvs" by (rule perm_of_image)
  have "list_all2 (\<lambda>kv lw. fst kv = fst lw \<and> same_json (snd kv) (snd lw)) kvs lws"
  proof (rule list_all2_all_nthI)
    show len: "length kvs = length lws" using lws(2) by (metis length_map)
    fix i assume i: "i < length kvs"
    then have e: "c (lws ! i) = c (kvs ! i)" using lws(2) len by (metis nth_map)
    have mem: "kvs ! i \<in> set kvs" "lws ! i \<in> set mws"
      using i len mset_eq_setD [OF lws(1)] nth_mem [of i lws] by auto
    have "same_json (snd (kvs ! i)) (snd (lws ! i))"
      by (rule 1(1) [OF mem(1), of "fst (kvs ! i)"]) (use e mem 1(3,4) w in \<open>auto simp: c_def\<close>)
    then show "fst (kvs ! i) = fst (lws ! i) \<and> same_json (snd (kvs ! i)) (snd (lws ! i))"
      using e by (simp add: c_def)
  qed
  then show ?case unfolding w by (rule same_dict [OF _ lws(1)]) (use 1(3) in simp)
next
  case (2 xs)
  from 2(2) obtain ys where w: "w = JList ys" by (cases w) simp_all
  then have e: "map canonicalize xs = map canonicalize ys" using 2(2) by simp
  have "list_all2 same_json xs ys"
  proof (rule list_all2_all_nthI)
    show len: "length xs = length ys" using e by (metis length_map)
    fix i assume i: "i < length xs"
    show "same_json (xs ! i) (ys ! i)"
      using 2(1) [of "xs ! i" "ys ! i"] i len e 2(3,4) w by (metis json_wf.simps(1) nth_map nth_mem)
  qed
  then show ?case unfolding w by (rule same_list)
qed (use same_atom in \<open>(case_tac w, auto)+\<close>)

text \<open>(C25) The canonical text is a faithful image of a value: two values whose dictionaries have
  distinct keys print to the same text exactly when they are equal up to the order of
  dictionary entries.  Every hash and every request signature is taken of this text.\<close>

theorem canonical_text_faithful:
  assumes "json_wf v" and "json_wf w"
  shows "canonical_json_dumps v = canonical_json_dumps w \<longleftrightarrow> same_json v w"
  unfolding dumps_eq_iff using assms same_json_complete canonicalize_order_free by blast

lemma canonical_text_faithful_witness:
  "canonical_json_dumps (JDict [(''b'', JInt 1), (''a'', JNull)]) = canonical_json_dumps (JDict [(''a'', JNull), (''b'', JInt 1)])
   \<and> \<not> same_json (JDict [(''a'', JList [JStr ''x'', JStr ''y''])]) (JDict [(''a'', JList [JStr ''x,y''])])"
proof
  have "same_json (JDict [(''b'', JInt 1), (''a'', JNull)]) (JDict [(''a'', JNull), (''b'', JInt 1)])"
    by (rule same_dict [of _ "[(''b'', JInt 1), (''a'', JNull)]"]) (simp_all add: same_atom)
  then show "canonical_json_dumps (JDict [(''b'', JInt 1), (''a'', JNull)]) = canonical_json_dumps (JDict [(''a'', JNull), (''b'', JInt 1)])"
    by (subst canonical_text_faithful) simp_all
  have "canonical_json_dumps (JDict [(''a'', JList [JStr ''x'', JStr ''y''])]) \<noteq> canonical_json_dumps (JDict [(''a'', JList [JStr ''x,y''])])"
    by code_simp
  then show "\<not> same_json (JDict [(''a'', JList [JStr ''x'', JStr ''y''])]) (JDict [(''a'', JList [JStr ''x,y''])])"
    by (subst (asm) canonical_text_faithful) simp_all
qed

end
