(* ===== verification/Decimals.thy ===== *)
theory Decimals
  imports Prelude "HOL-Library.Log_Nat"
begin

text \<open>
  Python's \<open>decimal.Decimal\<close> under the default context (28 significant digits,
  ROUND\_HALF\_EVEN), which no code of the repository changes, and the quantization policy
  of \<open>services/accounting_common/quantization_policy.py\<close>.  A Decimal is represented by
  its numeric value; every operation rounds to the context precision as the library does.
  Exponents stay far from the limits of the context (999999), so Overflow and subnormal
  results are not represented.  The central facts are that quantized amounts are exact
  multiples of a millionth, and that a quantized sum or difference of amounts is exact.
\<close>

section \<open>Context arithmetic\<close>

definition prec :: nat where "prec = 28"

text \<open>The decimal exponent of the leading digit of a positive number.\<close>

lemma prec_pos [simp]: "0 < prec"
  by (simp add: prec_def)

definition ilog10 :: "rat \<Rightarrow> int" where
  "ilog10 x =
     (if 1 \<le> x then int (floorlog 10 (nat \<lfloor>x\<rfloor>)) - 1
      else - int (floorlog 10 (nat (\<lceil>1 / x\<rceil> - 1))))"

text \<open>The digit count over binary integers, for evaluation.\<close>

function int_digits :: "int \<Rightarrow> int" where
  "int_digits n = (if n < 1 then 0 else 1 + int_digits (n div 10))"
  by auto
termination by (relation "measure nat") auto

declare int_digits.simps [simp del]

lemma int_digits_floorlog: "int_digits n = int (floorlog 10 (nat n))"
proof (induction n rule: int_digits.induct)
  case (1 n)
  show ?case
  proof (cases "n < 1")
    case False
    then have "nat n div 10 = nat (n div 10)" by (simp add: nat_div_distrib)
    moreover have "floorlog 10 (nat n) = Suc (floorlog 10 (nat n div 10))"
      using False by (subst compute_floorlog) simp
    ultimately show ?thesis using 1 False by (subst int_digits.simps) simp
  qed (simp add: int_digits.simps floorlog_def)
qed

lemma ilog10_code [code]:
  "ilog10 x = (if 1 \<le> x then int_digits \<lfloor>x\<rfloor> - 1 else - int_digits (\<lceil>1 / x\<rceil> - 1))"
  by (simp add: ilog10_def int_digits_floorlog)

definition round_half_even :: "rat \<Rightarrow> int" where
  "round_half_even x =
     (let f = \<lfloor>x\<rfloor>; d = x - of_int f in
      if d < 1 / 2 then f else if 1 / 2 < d then f + 1 else if even f then f else f + 1)"

definition round_half_up :: "rat \<Rightarrow> int" where
  "round_half_up x = (if x < 0 then - \<lfloor>- x + 1 / 2\<rfloor> else \<lfloor>x + 1 / 2\<rfloor>)"

definition dec_round :: "nat \<Rightarrow> rat \<Rightarrow> rat" where
  "dec_round p x =
     (if x = 0 then 0
      else let ex = ilog10 \<bar>x\<bar> - int p + 1
           in sgn x * of_int (round_half_even (\<bar>x\<bar> / 10 powi ex)) * 10 powi ex)"

definition dadd :: "rat \<Rightarrow> rat \<Rightarrow> rat" where "dadd x y = dec_round prec (x + y)"
definition dsub :: "rat \<Rightarrow> rat \<Rightarrow> rat" where "dsub x y = dec_round prec (x - y)"
definition dmul :: "rat \<Rightarrow> rat \<Rightarrow> rat" where "dmul x y = dec_round prec (x * y)"

definition ddiv :: "rat \<Rightarrow> rat \<Rightarrow> rat result" where
  "ddiv x y =
     (if y = 0 then Inl (if x = 0 then InvalidOperation else DivisionByZero)
      else Inr (dec_round prec (x / y)))"

definition dsum :: "rat list \<Rightarrow> rat" where
  "dsum xs = foldl dadd 0 xs"

definition quantize_at :: "nat \<Rightarrow> rat \<Rightarrow> rat result" where
  "quantize_at d x =
     (let k = round_half_up (x * 10 ^ d)
      in if \<bar>k\<bar> < 10 ^ prec then Inr (of_int k / 10 ^ d) else Inl InvalidOperation)"

text \<open>\<open>quantize\<close> with the context's own rounding, half to even.\<close>

definition quantize_even_at :: "nat \<Rightarrow> rat \<Rightarrow> rat result" where
  "quantize_even_at d x =
     (let k = round_half_even (x * 10 ^ d)
      in if \<bar>k\<bar> < 10 ^ prec then Inr (of_int k / 10 ^ d) else Inl InvalidOperation)"

section \<open>The quantization policy\<close>

definition quantize_rate :: "rat \<Rightarrow> rat result" where
  "quantize_rate value = quantize_at 6 value"

definition quantize_persisted_amount :: "rat \<Rightarrow> rat result" where
  "quantize_persisted_amount value = quantize_at 6 value"

definition quantize_output_amount :: "rat \<Rightarrow> rat result" where
  "quantize_output_amount value = quantize_at 2 value"

section \<open>Rounding to an integer\<close>

lemma round_half_even_of_int [simp]: "round_half_even (of_int k) = k"
  by (simp add: round_half_even_def)

lemma round_half_up_of_int [simp]: "round_half_up (of_int k) = k"
proof -
  have "\<lfloor>rat_of_int j + 1 / 2\<rfloor> = j" for j
    by (simp add: floor_unique)
  from this [of k] this [of "- k"] show ?thesis by (simp add: round_half_up_def)
qed

lemma round_half_even_err: "\<bar>of_int (round_half_even x) - x\<bar> \<le> 1 / 2"
proof -
  have f: "of_int \<lfloor>x\<rfloor> \<le> x" "x < of_int \<lfloor>x\<rfloor> + 1" by linarith+
  consider "round_half_even x = \<lfloor>x\<rfloor>" "x - of_int \<lfloor>x\<rfloor> \<le> 1 / 2"
    | "round_half_even x = \<lfloor>x\<rfloor> + 1" "1 / 2 \<le> x - of_int \<lfloor>x\<rfloor>"
    by (fastforce simp: round_half_even_def Let_def not_less split: if_splits)
  then show ?thesis
    by cases (use f in \<open>simp_all add: abs_le_iff algebra_simps\<close>)
qed

lemma round_half_up_err: "\<bar>of_int (round_half_up x) - x\<bar> \<le> 1 / 2"
proof -
  have f: "of_int \<lfloor>z + 1 / 2\<rfloor> \<le> z + 1 / 2" "z + 1 / 2 < of_int \<lfloor>z + 1 / 2\<rfloor> + 1" for z :: rat
    by linarith+
  show ?thesis
  proof (cases "x < 0")
    case True
    then have "rat_of_int (round_half_up x) = - of_int \<lfloor>- x + 1 / 2\<rfloor>"
      unfolding round_half_up_def by (simp only: if_True of_int_minus)
    with f [of "- x"] show ?thesis unfolding abs_le_iff by linarith
  next
    case False
    then have "rat_of_int (round_half_up x) = of_int \<lfloor>x + 1 / 2\<rfloor>"
      unfolding round_half_up_def by (simp only: if_False)
    with f [of x] show ?thesis unfolding abs_le_iff by linarith
  qed
qed

lemma round_half_up_mono:
  assumes "x \<le> y"
  shows "round_half_up x \<le> round_half_up y"
proof (cases "x < 0 \<longleftrightarrow> y < 0")
  case True
  then show ?thesis using assms
    by (auto simp: round_half_up_def intro!: floor_mono)
next
  case False
  with assms have xy: "x < 0" "0 \<le> y" by auto
  have "- \<lfloor>- x + 1 / 2\<rfloor> \<le> \<lfloor>y + 1 / 2\<rfloor>"
    using xy by linarith
  with xy show ?thesis by (simp add: round_half_up_def)
qed

lemma round_half_up_minus: "round_half_up (- x) = - round_half_up x"
proof -
  have "\<lfloor>1 / 2 :: rat\<rfloor> = 0" by (simp add: floor_unique)
  then show ?thesis by (auto simp: round_half_up_def)
qed

lemma round_half_even_ge:
  assumes "of_int k \<le> x"
  shows "k \<le> round_half_even x"
proof -
  have "k \<le> \<lfloor>x\<rfloor>" using assms by (simp add: le_floor_iff)
  then show ?thesis by (simp add: round_half_even_def Let_def)
qed

lemma round_half_even_le: "x \<le> of_int k \<Longrightarrow> round_half_even x \<le> k"
proof -
  assume x: "x \<le> of_int k"
  show ?thesis
  proof (cases "x = of_int k")
    case False
    with x have "\<lfloor>x\<rfloor> < k" by (simp add: floor_less_iff)
    then show ?thesis by (simp add: round_half_even_def Let_def)
  qed simp
qed

lemma round_half_even_mono:
  assumes "x \<le> y"
  shows "round_half_even x \<le> round_half_even y"
proof (cases "\<lfloor>x\<rfloor> = \<lfloor>y\<rfloor>")
  case True
  with assms show ?thesis by (auto simp: round_half_even_def Let_def)
next
  case False
  with floor_mono [OF assms] have "\<lfloor>x\<rfloor> + 1 \<le> \<lfloor>y\<rfloor>" by simp
  moreover have "round_half_even x \<le> \<lfloor>x\<rfloor> + 1" and "\<lfloor>y\<rfloor> \<le> round_half_even y"
    by (simp_all add: round_half_even_def Let_def)
  ultimately show ?thesis by simp
qed

section \<open>Rounding to the context precision\<close>

lemma pow10_pos [simp]: "0 < (10::rat) powi e"
  by simp

lemma pow10_less_iff: "(10::rat) powi a < 10 powi b \<longleftrightarrow> a < b"
  by (metis not_less_iff_gr_or_eq numeral_One one_less_numeral_iff power_int_strict_increasing
      semiring_norm(76))

lemma pow10_le_iff: "(10::rat) powi a \<le> 10 powi b \<longleftrightarrow> a \<le> b"
  by (simp add: pow10_less_iff flip: not_less)

lemma pow10_le_of_nat: "10 ^ k \<le> n \<Longrightarrow> (10::rat) ^ k \<le> of_nat n"
proof -
  assume "10 ^ k \<le> n"
  then have "rat_of_nat (10 ^ k) \<le> of_nat n" by (simp only: of_nat_le_iff)
  then show ?thesis by (simp only: of_nat_power of_nat_numeral)
qed

lemma pow10_ge_of_int: "r \<le> 10 ^ k \<Longrightarrow> of_int r \<le> (10::rat) ^ k"
proof -
  assume "r \<le> 10 ^ k"
  then have "of_int r \<le> rat_of_int (10 ^ k)" by (simp only: of_int_le_iff)
  then show ?thesis by (simp only: of_int_power of_int_numeral)
qed

lemma pow10_le_of_int: "10 ^ k \<le> r \<Longrightarrow> (10::rat) ^ k \<le> of_int r"
proof -
  assume "10 ^ k \<le> r"
  then have "rat_of_int (10 ^ k) \<le> of_int r" by (simp only: of_int_le_iff)
  then show ?thesis by (simp only: of_int_power of_int_numeral)
qed

lemma ilog10_bounds:
  assumes "0 < x"
  shows "10 powi ilog10 x \<le> x" and "x < 10 powi (ilog10 x + 1)"
proof -
  have "10 powi ilog10 x \<le> x \<and> x < 10 powi (ilog10 x + 1)"
  proof (cases "1 \<le> x")
    case True
    define n where "n = nat \<lfloor>x\<rfloor>"
    have "rat_of_int \<lfloor>x\<rfloor> \<le> x" "x < of_int \<lfloor>x\<rfloor> + 1" "1 \<le> \<lfloor>x\<rfloor>"
      using True by linarith+
    moreover have "(of_nat n :: rat) = of_int \<lfloor>x\<rfloor>"
      using True by (simp add: n_def of_nat_nat)
    ultimately have n: "0 < n" "of_nat n \<le> x" "x < of_nat n + 1"
      by (auto simp: n_def)
    have "10 ^ (floorlog 10 n - 1) \<le> n \<and> n < 10 ^ floorlog 10 n"
      by (rule floorlog_bounds [OF n(1)]) simp
    then have b: "10 ^ (floorlog 10 n - 1) \<le> n" "n < 10 ^ floorlog 10 n" by blast+
    have "floorlog 10 n \<noteq> 0" using n(1) by (simp add: floorlog_eq_zero_iff)
    then have f: "0 < floorlog 10 n" by simp
    have "(10::rat) ^ (floorlog 10 n - 1) \<le> of_nat n"
      using b(1) by (rule pow10_le_of_nat)
    moreover have "(of_nat n :: rat) + 1 \<le> 10 ^ floorlog 10 n"
    proof -
      have "of_nat (Suc n) \<le> (of_nat (10 ^ floorlog 10 n) :: rat)"
        using b(2) by (intro of_nat_mono) simp
      then show ?thesis by simp
    qed
    moreover have "ilog10 x = int (floorlog 10 n - 1)" "ilog10 x + 1 = int (floorlog 10 n)"
      using True f by (simp_all add: ilog10_def n_def of_nat_diff)
    ultimately show ?thesis using n
      by (simp only: power_int_of_nat) linarith
  next
    case False
    define m where "m = nat (\<lceil>1 / x\<rceil> - 1)"
    have x1: "1 < 1 / x" using False assms by simp
    have c: "1 / x \<le> of_int \<lceil>1 / x\<rceil>" "of_int \<lceil>1 / x\<rceil> < 1 / x + 1" by linarith+
    then have z: "0 \<le> \<lceil>1 / x\<rceil> - 1" using x1 by linarith
    have "(of_nat m :: rat) = of_int (\<lceil>1 / x\<rceil> - 1)"
      unfolding m_def by (rule of_nat_nat [OF z])
    with c x1 have m': "of_nat m < 1 / x" "1 / x \<le> of_nat m + 1" by simp_all
    with x1 have "0 < (of_nat m :: rat)" by linarith
    with m' have m: "0 < m" "of_nat m < 1 / x" "1 / x \<le> of_nat m + 1" by simp_all
    have "10 ^ (floorlog 10 m - 1) \<le> m \<and> m < 10 ^ floorlog 10 m"
      by (rule floorlog_bounds [OF m(1)]) simp
    then have b: "10 ^ (floorlog 10 m - 1) \<le> m" "m < 10 ^ floorlog 10 m" by blast+
    have "floorlog 10 m \<noteq> 0" using m(1) by (simp add: floorlog_eq_zero_iff)
    then have f: "0 < floorlog 10 m" by simp
    have lo: "(10::rat) ^ (floorlog 10 m - 1) < 1 / x"
      using pow10_le_of_nat [OF b(1)] m(2) by (rule le_less_trans)
    have hi: "1 / x \<le> 10 ^ floorlog 10 m"
    proof -
      have "of_nat (Suc m) \<le> (of_nat (10 ^ floorlog 10 m) :: rat)"
        using b(2) by (intro of_nat_mono) simp
      with m(3) show ?thesis by simp
    qed
    have "ilog10 x = - int (floorlog 10 m)" "ilog10 x + 1 = - int (floorlog 10 m - 1)"
      using False f by (simp_all add: ilog10_def m_def of_nat_diff)
    then have "10 powi ilog10 x = 1 / (10::rat) ^ floorlog 10 m"
      and "10 powi (ilog10 x + 1) = 1 / (10::rat) ^ (floorlog 10 m - 1)"
      by (simp_all only: power_int_minus_divide power_int_of_nat)
    moreover have "1 / 10 ^ floorlog 10 m \<le> x" "x < 1 / 10 ^ (floorlog 10 m - 1)"
      using lo hi assms by (simp_all add: field_simps)
    ultimately show ?thesis by simp
  qed
  then show "10 powi ilog10 x \<le> x" and "x < 10 powi (ilog10 x + 1)" by auto
qed

lemma dec_round_0 [simp]: "dec_round p 0 = 0"
  by (simp add: dec_round_def)

text \<open>The scaled coefficient of a positive number has exactly the precision's digits.\<close>

lemma scaled_bounds:
  assumes "0 < x" and "ex = ilog10 x - int p + 1"
  shows "10 powi (int p - 1) \<le> x / 10 powi ex" and "x / 10 powi ex < 10 powi int p"
proof -
  have "10 powi (int p - 1) * 10 powi ex = (10::rat) powi ilog10 x"
    and "10 powi int p * 10 powi ex = (10::rat) powi (ilog10 x + 1)"
    by (simp_all add: assms(2) del: power_int_of_nat flip: power_int_add)
  with ilog10_bounds [OF assms(1)]
  show "10 powi (int p - 1) \<le> x / 10 powi ex" and "x / 10 powi ex < 10 powi int p"
    by (simp_all add: field_simps)
qed

lemma dec_round_pos:
  "0 < x \<Longrightarrow> dec_round p x =
     of_int (round_half_even (x / 10 powi (ilog10 x - int p + 1))) * 10 powi (ilog10 x - int p + 1)"
  by (simp add: dec_round_def Let_def)

lemma dec_round_minus: "dec_round p (- x) = - dec_round p x"
  by (simp add: dec_round_def Let_def sgn_minus)

text \<open>Rounding stays within the decade of its argument.\<close>

lemma dec_round_decade:
  assumes "0 < x" and "0 < p"
  shows "10 powi ilog10 x \<le> dec_round p x" and "dec_round p x \<le> 10 powi (ilog10 x + 1)"
proof -
  define ex where "ex = ilog10 x - int p + 1"
  define r where "r = round_half_even (x / 10 powi ex)"
  have lo: "of_int (10 ^ (p - 1)) \<le> x / 10 powi ex"
    using scaled_bounds(1) [OF assms(1) ex_def] assms(2)
    by (simp add: power_int_nonneg_exp nat_diff_distrib)
  have hi: "x / 10 powi ex \<le> of_int (10 ^ p)"
    using scaled_bounds(2) [OF assms(1) ex_def] by simp
  have r: "10 ^ (p - 1) \<le> r" "r \<le> 10 ^ p"
    using round_half_even_ge [OF lo] round_half_even_le [OF hi] by (simp_all add: r_def)
  have "int (p - 1) + ex = ilog10 x" and "int p + ex = ilog10 x + 1"
    using assms(2) by (simp_all add: ex_def of_nat_diff)
  then have e: "(10::rat) ^ (p - 1) * 10 powi ex = 10 powi ilog10 x"
    "(10::rat) ^ p * 10 powi ex = 10 powi (ilog10 x + 1)"
    by (metis power_int_add power_int_of_nat zero_neq_numeral)+
  have "(10::rat) ^ (p - 1) * 10 powi ex \<le> of_int r * 10 powi ex"
    using pow10_le_of_int [OF r(1)] by (rule mult_right_mono) simp
  moreover have "of_int r * 10 powi ex \<le> (10::rat) ^ p * 10 powi ex"
    using pow10_ge_of_int [OF r(2)] by (rule mult_right_mono) simp
  ultimately show "10 powi ilog10 x \<le> dec_round p x" and "dec_round p x \<le> 10 powi (ilog10 x + 1)"
    by (simp_all only: dec_round_pos [OF assms(1)] e flip: ex_def r_def)
qed

lemma dec_round_nonneg: "0 \<le> x \<Longrightarrow> 0 < p \<Longrightarrow> 0 \<le> dec_round p x"
  using dec_round_decade(1) [of x p] by (cases "x = 0") (auto intro: order_trans [OF less_imp_le [OF pow10_pos]])

lemma dec_round_nonpos: "x \<le> 0 \<Longrightarrow> 0 < p \<Longrightarrow> dec_round p x \<le> 0"
  using dec_round_nonneg [of "- x" p] by (simp add: dec_round_minus)

lemma dec_round_mono_pos:
  assumes "0 < x" and "x \<le> y" and "0 < p"
  shows "dec_round p x \<le> dec_round p y"
proof (cases "ilog10 x = ilog10 y")
  case True
  then show ?thesis using assms
    by (auto simp: dec_round_pos intro!: mult_right_mono round_half_even_mono divide_right_mono)
next
  case False
  have "10 powi ilog10 x < (10::rat) powi (ilog10 y + 1)"
    using ilog10_bounds(1) [of x] ilog10_bounds(2) [of y] assms by linarith
  with False have "ilog10 x + 1 \<le> ilog10 y" by (simp add: pow10_less_iff)
  then have "10 powi (ilog10 x + 1) \<le> (10::rat) powi ilog10 y" by (simp only: pow10_le_iff)
  then show ?thesis
    using dec_round_decade(2) [of x p] dec_round_decade(1) [of y p] assms by linarith
qed

lemma dec_round_mono:
  assumes "x \<le> y" and "0 < p"
  shows "dec_round p x \<le> dec_round p y"
proof -
  consider "0 < x" | "y < 0" | "x \<le> 0" "0 \<le> y" by linarith
  then show ?thesis
  proof cases
    case 1
    with assms show ?thesis by (rule_tac dec_round_mono_pos)
  next
    case 2
    then have "dec_round p (- y) \<le> dec_round p (- x)"
      using assms by (intro dec_round_mono_pos) auto
    then show ?thesis by (simp add: dec_round_minus)
  next
    case 3
    then show ?thesis
      using dec_round_nonneg [of y p] dec_round_nonpos [of x p] assms by linarith
  qed
qed

text \<open>A number with at most as many significant digits as the precision is kept.\<close>

lemma dec_round_exact:
  assumes x: "x = of_int c * 10 powi e" and c: "\<bar>c\<bar> < 10 ^ p"
  shows "dec_round p x = x"
proof -
  have pos: "dec_round p z = z" if z: "z = of_int d * 10 powi e" "0 < d" "d < 10 ^ p" for z d
  proof -
    have z0: "0 < z" using z by simp
    have "rat_of_int d < 10 ^ p" using z(3) by (metis of_int_less_iff of_int_numeral of_int_power)
    then have "z < 10 ^ p * 10 powi e" using z(1) by simp
    also have "\<dots> = 10 powi (int p + e)" by (simp add: power_int_add)
    finally have "10 powi ilog10 z < (10::rat) powi (int p + e)"
      using ilog10_bounds(1) [OF z0] by linarith
    then have "ilog10 z < int p + e" by (simp only: pow10_less_iff)
    define ex where "ex = ilog10 z - int p + 1"
    then have "ex \<le> e" using \<open>ilog10 z < int p + e\<close> by simp
    then have split_e: "(10::rat) powi e = 10 powi ex * 10 ^ nat (e - ex)"
      by (simp add: power_int_add [symmetric] flip: power_int_of_nat)
    then have "z / 10 powi ex = of_int (d * 10 ^ nat (e - ex))"
      using z(1) by simp
    then have "of_int (round_half_even (z / 10 powi ex)) * 10 powi ex = z"
      by (simp only: round_half_even_of_int) (simp add: z(1) split_e)
    then show ?thesis using z0
      by (simp only: dec_round_pos flip: ex_def)
  qed
  consider "c = 0" | "0 < c" | "c < 0" by linarith
  then show ?thesis
  proof cases
    case 3
    have "dec_round p (- x) = - x" using pos [of "- x" "- c"] 3 assms by simp
    then show ?thesis by (simp add: dec_round_minus)
  qed (use pos [of x c] assms in auto)
qed

text \<open>The relative error of one operation is at most half a unit in the last place.\<close>

lemma dec_round_err:
  assumes "0 < p"
  shows "\<bar>dec_round p x - x\<bar> \<le> \<bar>x\<bar> * 10 powi (1 - int p) / 2"
proof -
  have pos: "\<bar>dec_round p z - z\<bar> \<le> z * 10 powi (1 - int p) / 2" if z: "0 < z" for z
  proof -
    define ex where "ex = ilog10 z - int p + 1"
    define m where "m = z / 10 powi ex"
    have zm: "z = m * 10 powi ex" by (simp add: m_def)
    have "dec_round p z - z = (of_int (round_half_even m) - m) * 10 powi ex"
      by (simp only: dec_round_pos [OF z] left_diff_distrib flip: ex_def m_def zm)
    then have "\<bar>dec_round p z - z\<bar> \<le> 1 / 2 * 10 powi ex"
      using mult_right_mono [OF round_half_even_err [of m], of "10 powi ex"]
      by (simp add: abs_mult)
    also have "10 powi ex = (10::rat) powi ilog10 z * 10 powi (1 - int p)"
      by (simp add: ex_def algebra_simps flip: power_int_add)
    also have "1 / 2 * (10 powi ilog10 z * 10 powi (1 - int p)) \<le> z * 10 powi (1 - int p) / 2"
      using mult_right_mono [OF ilog10_bounds(1) [OF z], of "10 powi (1 - int p)"] by simp
    finally show ?thesis .
  qed
  consider "x = 0" | "0 < x" | "x < 0" by linarith
  then show ?thesis
  proof cases
    case 3
    then show ?thesis using pos [of "- x"] by (simp add: dec_round_minus abs_minus_commute)
  qed (use pos [of x] in auto)
qed

section \<open>Amounts: multiples of a millionth below the quantization limit\<close>

definition micro :: "rat \<Rightarrow> bool" where
  "micro x \<longleftrightarrow> of_int \<lfloor>x * 10 ^ 6\<rfloor> = x * 10 ^ 6"

definition money :: "rat \<Rightarrow> bool" where
  "money x \<longleftrightarrow> micro x \<and> \<bar>x\<bar> < 10 ^ 22"

lemma micro_iff: "micro x \<longleftrightarrow> (\<exists>k. x = of_int k / 10 ^ 6)"
proof
  assume "micro x"
  then have fl: "x * 10 ^ 6 = of_int \<lfloor>x * 10 ^ 6\<rfloor>" by (simp only: micro_def)
  have "x = x * 10 ^ 6 / 10 ^ 6" by simp
  then have "x = of_int \<lfloor>x * 10 ^ 6\<rfloor> / 10 ^ 6" by (simp only: fl [symmetric])
  then show "\<exists>k. x = of_int k / 10 ^ 6" by (rule exI)
next
  assume "\<exists>k. x = of_int k / 10 ^ 6"
  then obtain k where "x = of_int k / 10 ^ 6" by (rule exE)
  then have "x * 10 ^ 6 = of_int k" by simp
  then show "micro x" unfolding micro_def by (simp only: floor_of_int)
qed

lemma micro_of_int_div: "micro (of_int k / 10 ^ 6)"
  unfolding micro_iff by blast

lemma micro_0 [simp]: "micro 0" and micro_1 [simp]: "micro 1"
  by (simp_all add: micro_def)

lemma micro_add [intro]: "micro x \<Longrightarrow> micro y \<Longrightarrow> micro (x + y)"
  unfolding micro_iff by (metis add_divide_distrib of_int_add)

lemma micro_diff [intro]: "micro x \<Longrightarrow> micro y \<Longrightarrow> micro (x - y)"
  unfolding micro_iff by (metis diff_divide_distrib of_int_diff)

lemma micro_minus [intro]: "micro x \<Longrightarrow> micro (- x)"
  using micro_diff [of 0 x] by simp

lemma micro_sum_list [intro]: "(\<And>x. x \<in> set xs \<Longrightarrow> micro x) \<Longrightarrow> micro (sum_list xs)"
  by (induction xs) auto

lemma money_micro: "money x \<Longrightarrow> micro x"
  by (simp add: money_def)

lemma money_0 [simp]: "money 0" and money_1 [simp]: "money 1"
  by (simp_all add: money_def)

lemma money_minus: "money x \<Longrightarrow> money (- x)"
  by (auto simp: money_def)

lemma micro_dec_round:
  assumes "micro x" and "\<bar>x\<bar> < 10 ^ 22"
  shows "dec_round prec x = x"
proof -
  obtain k where k: "x = of_int k / 10 ^ 6" using assms(1) by (auto simp: micro_iff)
  have "\<bar>rat_of_int k\<bar> < 10 ^ 28" using assms(2) by (simp add: k field_simps)
  then have "\<bar>k\<bar> < 10 ^ prec" by (simp add: prec_def flip: of_int_abs)
  moreover have "x = of_int k * 10 powi (- 6)" by (simp add: k power_int_minus field_simps)
  ultimately show ?thesis by (rule_tac dec_round_exact)
qed

lemma dec_round_ge_limit: "10 ^ 22 \<le> \<bar>x\<bar> \<Longrightarrow> 10 ^ 22 \<le> \<bar>dec_round prec x\<bar>"
proof -
  define l where "l = (10 ^ 22 :: rat)"
  have fix22: "dec_round prec l = l"
    by (rule dec_round_exact [where c = 1 and e = 22]) (simp_all add: prec_def l_def)
  assume "10 ^ 22 \<le> \<bar>x\<bar>"
  then have "l \<le> \<bar>x\<bar>" by (simp only: l_def)
  then consider "l \<le> x" | "l \<le> - x" by linarith
  then have "l \<le> \<bar>dec_round prec x\<bar>"
  proof cases
    case 1
    then show ?thesis using dec_round_mono [OF 1, of prec] by (simp add: fix22)
  next
    case 2
    then show ?thesis using dec_round_mono [OF 2, of prec] by (simp add: fix22 dec_round_minus)
  qed
  then show ?thesis by (simp only: l_def)
qed

section \<open>Facts about quantization\<close>

lemma quantize_amount_unfold:
  "quantize_persisted_amount x = Inr y \<longleftrightarrow>
     y = of_int (round_half_up (x * 10 ^ 6)) / 10 ^ 6 \<and> \<bar>y\<bar> < 10 ^ 22"
proof -
  define k where "k = round_half_up (x * 10 ^ 6)"
  have "\<bar>k\<bar> < 10 ^ 28 \<longleftrightarrow> \<bar>rat_of_int k\<bar> < 10 ^ 28"
    by (simp flip: of_int_abs)
  also have "\<dots> \<longleftrightarrow> \<bar>rat_of_int k / 10 ^ 6\<bar> < 10 ^ 22"
    by (simp add: abs_divide field_simps)
  finally show ?thesis
    by (auto simp: quantize_persisted_amount_def quantize_at_def Let_def prec_def k_def)
qed

lemma quantize_rate_eq: "quantize_rate x = quantize_persisted_amount x"
  by (simp add: quantize_rate_def quantize_persisted_amount_def)

lemma quantize_money: "quantize_persisted_amount x = Inr y \<Longrightarrow> money y"
  unfolding quantize_amount_unfold money_def using micro_of_int_div by blast

lemma quantize_id: "money x \<Longrightarrow> quantize_persisted_amount x = Inr x"
  by (auto simp: quantize_amount_unfold money_def micro_iff)

lemma quantize_0 [simp]: "quantize_persisted_amount 0 = Inr 0"
  by (rule quantize_id) simp

lemma quantize_err:
  assumes "quantize_persisted_amount x = Inr y"
  shows "\<bar>y - x\<bar> \<le> 1 / (2 * 10 ^ 6)"
proof -
  have "y - x = (of_int (round_half_up (x * 10 ^ 6)) - x * 10 ^ 6) / 10 ^ 6"
    using assms by (simp add: quantize_amount_unfold diff_divide_distrib)
  then have "\<bar>y - x\<bar> = \<bar>of_int (round_half_up (x * 10 ^ 6)) - x * 10 ^ 6\<bar> / 10 ^ 6"
    by (simp only: abs_divide) simp
  with divide_right_mono [OF round_half_up_err [of "x * 10 ^ 6"], of "10 ^ 6"] show ?thesis
    by (simp only:) simp
qed

lemma quantize_mono:
  assumes "x \<le> x'" and "quantize_persisted_amount x = Inr y" and "quantize_persisted_amount x' = Inr y'"
  shows "y \<le> y'"
proof -
  have "round_half_up (x * 10 ^ 6) \<le> round_half_up (x' * 10 ^ 6)"
    using assms(1) by (intro round_half_up_mono) simp
  with assms(2,3) show ?thesis by (simp add: quantize_amount_unfold divide_right_mono)
qed

lemma quantize_le: "quantize_persisted_amount x = Inr y \<Longrightarrow> x \<le> b \<Longrightarrow> money b \<Longrightarrow> y \<le> b"
  by (rule quantize_mono [OF _ _ quantize_id])

lemma quantize_ge: "quantize_persisted_amount x = Inr y \<Longrightarrow> b \<le> x \<Longrightarrow> money b \<Longrightarrow> b \<le> y"
  by (rule quantize_mono [OF _ quantize_id])

lemma quantize_nonneg: "quantize_persisted_amount x = Inr y \<Longrightarrow> 0 \<le> x \<Longrightarrow> 0 \<le> y"
  by (rule quantize_ge) simp_all

text \<open>Quantizing a rounded value that was a multiple of a millionth loses nothing.\<close>

lemma quantize_exact:
  assumes "micro z" and "quantize_persisted_amount (dec_round prec z) = Inr y"
  shows "y = z"
proof (cases "\<bar>z\<bar> < 10 ^ 22")
  case True
  with assms show ?thesis
    using quantize_id [of z] by (simp add: micro_dec_round money_def)
next
  case False
  then have lim: "10 ^ 22 \<le> \<bar>dec_round prec z\<bar>" by (intro dec_round_ge_limit) simp
  define w where "w = dec_round prec z"
  have m: "rat_of_int (10 ^ 28) / 10 ^ 6 = 10 ^ 22" by simp
  consider "10 ^ 28 \<le> round_half_up (w * 10 ^ 6)" | "round_half_up (w * 10 ^ 6) \<le> - (10 ^ 28)"
  proof (cases "10 ^ 22 \<le> w")
    case True
    then have "round_half_up (of_int (10 ^ 28)) \<le> round_half_up (w * 10 ^ 6)"
      by (intro round_half_up_mono) simp
    then show ?thesis using that(1) by (simp only: round_half_up_of_int)
  next
    case False
    with lim have "w \<le> - (10 ^ 22)" by (simp add: w_def abs_if split: if_splits)
    then have "round_half_up (w * 10 ^ 6) \<le> round_half_up (of_int (- (10 ^ 28)))"
      by (intro round_half_up_mono) simp
    then show ?thesis using that(2) by (simp only: round_half_up_of_int)
  qed
  then have "10 ^ 28 \<le> \<bar>round_half_up (w * 10 ^ 6)\<bar>" by cases simp_all
  then have "10 ^ 28 \<le> rat_of_int \<bar>round_half_up (w * 10 ^ 6)\<bar>" by (rule pow10_le_of_int)
  moreover have "\<bar>y\<bar> = rat_of_int \<bar>round_half_up (w * 10 ^ 6)\<bar> / 10 ^ 6"
    using assms(2) unfolding quantize_amount_unfold w_def by (auto simp only: abs_divide of_int_abs) simp
  ultimately have "10 ^ 22 \<le> \<bar>y\<bar>" by (simp add: field_simps)
  with assms(2) show ?thesis by (auto simp: quantize_amount_unfold)
qed

text \<open>Sums and differences of amounts are exact once they have been quantized.\<close>

lemma quantize_dadd:
  "quantize_persisted_amount (dadd x y) = Inr z \<Longrightarrow> money x \<Longrightarrow> money y \<Longrightarrow> z = x + y"
  unfolding dadd_def by (auto intro: quantize_exact money_micro)

lemma quantize_dsub:
  "quantize_persisted_amount (dsub x y) = Inr z \<Longrightarrow> money x \<Longrightarrow> money y \<Longrightarrow> z = x - y"
  unfolding dsub_def by (auto intro: quantize_exact money_micro)

lemma money_bounded: "micro x \<Longrightarrow> \<bar>x\<bar> \<le> y \<Longrightarrow> y < 10 ^ 22 \<Longrightarrow> money x"
  by (auto simp: money_def)

lemma dadd_exact: "micro x \<Longrightarrow> micro y \<Longrightarrow> \<bar>x + y\<bar> < 10 ^ 22 \<Longrightarrow> dadd x y = x + y"
  unfolding dadd_def by (rule micro_dec_round) auto

lemma dsub_exact: "micro x \<Longrightarrow> micro y \<Longrightarrow> \<bar>x - y\<bar> < 10 ^ 22 \<Longrightarrow> dsub x y = x - y"
  unfolding dsub_def by (rule micro_dec_round) auto

lemma foldl_dadd_exact:
  assumes "micro s" and "\<forall>x \<in> set xs. micro x" and "\<bar>s\<bar> + sum_list (map abs xs) < 10 ^ 22"
  shows "foldl dadd s xs = s + sum_list xs"
  using assms
proof (induction xs arbitrary: s)
  case (Cons x xs)
  have nn: "0 \<le> sum_list (map abs xs)" by (rule sum_list_nonneg) auto
  have "\<bar>s + x\<bar> \<le> \<bar>s\<bar> + \<bar>x\<bar>" by (rule abs_triangle_ineq)
  moreover have "\<bar>s\<bar> + (\<bar>x\<bar> + sum_list (map abs xs)) < 10 ^ 22" using Cons.prems(3) by simp
  ultimately have b: "\<bar>s + x\<bar> < 10 ^ 22" "\<bar>s + x\<bar> + sum_list (map abs xs) < 10 ^ 22"
    using nn by linarith+
  then have "dadd s x = s + x" using Cons.prems by (intro dadd_exact) auto
  moreover have "foldl dadd (s + x) xs = (s + x) + sum_list xs"
    using Cons.prems b by (intro Cons.IH) auto
  ultimately show ?case by simp
qed simp

lemma dsum_exact:
  "\<forall>x \<in> set xs. micro x \<Longrightarrow> sum_list (map abs xs) < 10 ^ 22 \<Longrightarrow> dsum xs = sum_list xs"
  using foldl_dadd_exact [of 0 xs] by (simp add: dsum_def)

lemma foldl_dadd_large:
  assumes "10 ^ 22 \<le> s" and "\<forall>x \<in> set xs. 0 \<le> x"
  shows "10 ^ 22 \<le> foldl dadd s xs"
  using assms
proof (induction xs arbitrary: s)
  case (Cons x xs)
  then have le: "10 ^ 22 \<le> s + x" and nn: "0 \<le> s + x" by simp_all
  have "10 ^ 22 \<le> \<bar>dadd s x\<bar>"
    unfolding dadd_def by (rule dec_round_ge_limit) (use le in linarith)
  moreover have "0 \<le> dadd s x" unfolding dadd_def by (intro dec_round_nonneg nn) simp
  ultimately have "10 ^ 22 \<le> dadd s x" by linarith
  with Cons show ?case by simp
qed simp

lemma money_less: "money x \<Longrightarrow> x < 10 ^ 22"
  by (simp add: money_def abs_less_iff)

lemma quantize_less:
  assumes "quantize_persisted_amount x = Inr y"
  shows "x < 10 ^ 22"
proof (rule ccontr)
  assume "\<not> x < 10 ^ 22"
  then have "of_int (10 ^ 28) \<le> x * 10 ^ 6" by simp
  then have "round_half_up (of_int (10 ^ 28)) \<le> round_half_up (x * 10 ^ 6)"
    by (rule round_half_up_mono)
  then have "10 ^ 28 \<le> round_half_up (x * 10 ^ 6)" by (simp only: round_half_up_of_int)
  then have "10 ^ 28 \<le> rat_of_int (round_half_up (x * 10 ^ 6))" by (rule pow10_le_of_int)
  with assms show False by (auto simp: quantize_amount_unfold abs_less_iff)
qed

text \<open>A quantized running total of non-negative amounts is their exact sum.\<close>

lemma foldl_dadd_nonneg:
  assumes "micro s" "0 \<le> s" "\<forall>x \<in> set xs. micro x \<and> 0 \<le> x"
    and "foldl dadd s xs < 10 ^ 22"
  shows "foldl dadd s xs = s + sum_list xs"
  using assms
proof (induction xs arbitrary: s)
  case (Cons x xs)
  show ?case
  proof (cases "s + x < 10 ^ 22")
    case True
    then have "dadd s x = s + x" using Cons.prems by (intro dadd_exact) auto
    moreover have "foldl dadd (s + x) xs = (s + x) + sum_list xs"
      using Cons.prems calculation by (intro Cons.IH) auto
    ultimately show ?thesis by simp
  next
    case False
    have "10 ^ 22 \<le> \<bar>dadd s x\<bar>"
      unfolding dadd_def by (rule dec_round_ge_limit) (use False in linarith)
    moreover have "0 \<le> dadd s x"
      unfolding dadd_def using Cons.prems by (intro dec_round_nonneg) simp_all
    ultimately have "10 ^ 22 \<le> dadd s x" by linarith
    then have "10 ^ 22 \<le> foldl dadd (dadd s x) xs"
      using Cons.prems(3) by (intro foldl_dadd_large) auto
    with Cons.prems(4) show ?thesis by simp
  qed
qed simp

lemma quantize_dsum:
  assumes "quantize_persisted_amount (dsum xs) = Inr y" and "\<forall>x \<in> set xs. money x \<and> 0 \<le> x"
  shows "y = sum_list xs"
proof -
  have "dsum xs = sum_list xs"
    using foldl_dadd_nonneg [of 0 xs] quantize_less [OF assms(1)] assms(2)
    by (auto simp: dsum_def money_micro)
  moreover have "micro (sum_list xs)" using assms(2) by (auto intro: money_micro)
  moreover have "\<bar>sum_list xs\<bar> < 10 ^ 22"
    using quantize_less [OF assms(1)] calculation(1) assms(2) by (simp add: sum_list_nonneg abs_of_nonneg)
  ultimately show ?thesis using assms(1) quantize_id [of "sum_list xs"] by (simp add: money_def)
qed

lemma quantize_total:
  assumes "a \<le> x" "x \<le> b" "money a" "money b"
  shows "\<exists>y. quantize_persisted_amount x = Inr y \<and> a \<le> y \<and> y \<le> b"
proof -
  define y where "y = rat_of_int (round_half_up (x * 10 ^ 6)) / 10 ^ 6"
  have "round_half_up (a * 10 ^ 6) \<le> round_half_up (x * 10 ^ 6)"
    and "round_half_up (x * 10 ^ 6) \<le> round_half_up (b * 10 ^ 6)"
    using assms(1,2) by (auto intro!: round_half_up_mono)
  moreover have "a = rat_of_int (round_half_up (a * 10 ^ 6)) / 10 ^ 6"
    and "b = rat_of_int (round_half_up (b * 10 ^ 6)) / 10 ^ 6"
    using quantize_id [OF assms(3)] quantize_id [OF assms(4)] unfolding quantize_amount_unfold by blast+
  ultimately have le: "a \<le> y" "y \<le> b"
    unfolding y_def by (metis divide_right_mono of_int_le_iff zero_le_numeral zero_le_power)+
  define l where "l = (10 ^ 22 :: rat)"
  have "\<bar>a\<bar> < l" "\<bar>b\<bar> < l" using assms(3,4) by (simp_all only: money_def l_def)
  then have "\<bar>y\<bar> < l" using le by linarith
  then have "quantize_persisted_amount x = Inr y"
    by (simp only: quantize_amount_unfold y_def l_def)
  with le show ?thesis by blast
qed

text \<open>The same for amounts of one sign.\<close>

definition same_sign :: "rat list \<Rightarrow> bool" where
  "same_sign xs \<longleftrightarrow> (\<forall>x \<in> set xs. 0 \<le> x) \<or> (\<forall>x \<in> set xs. x \<le> 0)"

lemma foldl_dadd_minus: "foldl dadd (- s) (map uminus xs) = - foldl dadd s xs"
proof (induction xs arbitrary: s)
  case (Cons x xs)
  have "dadd (- s) (- x) = - dadd s x"
    using dec_round_minus [of prec "s + x"] by (simp add: dadd_def)
  then show ?case using Cons [of "dadd s x"] by simp
qed simp

lemma quantize_minus: "quantize_persisted_amount x = Inr y \<Longrightarrow> quantize_persisted_amount (- x) = Inr (- y)"
proof -
  assume "quantize_persisted_amount x = Inr y"
  then have y: "y = of_int (round_half_up (x * 10 ^ 6)) / 10 ^ 6 \<and> \<bar>y\<bar> < 10 ^ 22"
    unfolding quantize_amount_unfold .
  have "round_half_up (- x * 10 ^ 6) = - round_half_up (x * 10 ^ 6)"
    using round_half_up_minus [of "x * 10 ^ 6"] by simp
  then have "- y = of_int (round_half_up (- x * 10 ^ 6)) / 10 ^ 6" using y by (metis minus_divide_left of_int_minus)
  moreover have "\<bar>- y\<bar> < 10 ^ 22" using y by (metis abs_minus_cancel)
  ultimately show ?thesis unfolding quantize_amount_unfold by blast
qed

lemma quantize_dsum_signed:
  assumes "quantize_persisted_amount (dsum xs) = Inr y" and "\<forall>x \<in> set xs. money x" and "same_sign xs"
  shows "y = sum_list xs"
proof (cases "\<forall>x \<in> set xs. 0 \<le> x")
  case True
  then show ?thesis using assms(1,2) by (intro quantize_dsum) auto
next
  case False
  then have neg: "\<forall>x \<in> set xs. x \<le> 0" using assms(3) by (auto simp: same_sign_def)
  have "dsum (map uminus xs) = - dsum xs" using foldl_dadd_minus [of 0 xs] by (simp add: dsum_def)
  then have "quantize_persisted_amount (dsum (map uminus xs)) = Inr (- y)"
    using quantize_minus [OF assms(1)] by simp
  then have "- y = sum_list (map uminus xs)"
    by (rule quantize_dsum) (use neg assms(2) in \<open>auto intro: money_minus\<close>)
  moreover have "sum_list (map uminus xs) = - sum_list xs" by (induction xs) auto
  ultimately show ?thesis by simp
qed

lemma quantize_nonpos: "quantize_persisted_amount x = Inr y \<Longrightarrow> x \<le> 0 \<Longrightarrow> y \<le> 0"
  by (rule quantize_le) simp_all

text \<open>Scaling by a non-negative factor keeps the sign.\<close>

lemma dmul_sign:
  assumes "quantize_persisted_amount (dmul b r) = Inr x" "0 \<le> r"
  shows "0 \<le> b \<Longrightarrow> 0 \<le> x" and "b \<le> 0 \<Longrightarrow> x \<le> 0"
proof -
  show "0 \<le> x" if "0 \<le> b"
    by (rule quantize_nonneg [OF assms(1)]) (use that assms(2) in \<open>simp add: dmul_def dec_round_nonneg\<close>)
  show "x \<le> 0" if "b \<le> 0"
    by (rule quantize_nonpos [OF assms(1)])
      (use that assms(2) in \<open>simp add: dmul_def dec_round_nonpos mult_nonpos_nonneg\<close>)
qed

section \<open>Numeric columns\<close>

text \<open>A \<open>Numeric(20, 6)\<close> column rounds to six places and refuses fifteen integer digits.\<close>

definition numeric_20_6 :: "rat \<Rightarrow> rat result" where
  "numeric_20_6 x =
     (let k = round_half_up (x * 10 ^ 6)
      in if \<bar>k\<bar> < 10 ^ 20 then Inr (of_int k / 10 ^ 6) else Inl DataError)"

lemma numeric_quantize: "numeric_20_6 x = Inr y \<Longrightarrow> quantize_persisted_amount x = Inr y"
  by (auto simp: numeric_20_6_def quantize_amount_unfold Let_def abs_less_iff split: if_splits)

lemma numeric_id: "micro x \<Longrightarrow> \<bar>x\<bar> < 10 ^ 14 \<Longrightarrow> numeric_20_6 x = Inr x"
  by (auto simp: numeric_20_6_def micro_iff abs_less_iff)

lemma numeric_of_quantized:
  "quantize_persisted_amount x = Inr y \<Longrightarrow> numeric_20_6 y = Inr z \<Longrightarrow> z = y"
  using numeric_quantize [of y z] quantize_id [OF quantize_money [of x y]] by auto

lemma stored_money: "numeric_20_6 y = Inr z \<Longrightarrow> quantize_persisted_amount x = Inr y \<Longrightarrow> money z"
  using numeric_of_quantized quantize_money by blast

lemma stored_nonneg: "numeric_20_6 y = Inr z \<Longrightarrow> quantize_persisted_amount x = Inr y \<Longrightarrow> 0 \<le> x \<Longrightarrow> 0 \<le> z"
  using numeric_of_quantized quantize_nonneg by blast

lemma stored_pos: "numeric_20_6 y = Inr z \<Longrightarrow> quantize_persisted_amount x = Inr y \<Longrightarrow> \<not> y \<le> 0 \<Longrightarrow> 0 < z"
  using numeric_of_quantized by fastforce

end
