(* ===== verification/Dates.thy ===== *)
theory Dates
  imports Prelude
begin

text \<open>
  The part of Python's \<open>datetime.date\<close> and \<open>calendar\<close> the schedule engines use:
  validity, order, ordinals and day differences, the next and previous day, and the month
  arithmetic helpers \<open>\_month\_end\<close>, \<open>\_month\_start\<close> and \<open>\_add\_months\<close> that
  the engines define for themselves.  Years run from 1 to 9999; leaving that range
  raises, as in Python.
\<close>

section \<open>Calendar dates\<close>

datatype date = Date (dt_year: int) (dt_month: int) (dt_day: int)

definition is_leap :: "int \<Rightarrow> bool" where
  "is_leap y \<longleftrightarrow> y mod 4 = 0 \<and> (y mod 100 \<noteq> 0 \<or> y mod 400 = 0)"

text \<open>\<open>calendar.monthrange(y, m)[1]\<close>\<close>

definition days_in_month :: "int \<Rightarrow> int \<Rightarrow> int" where
  "days_in_month y m =
     (if m = 2 then (if is_leap y then 29 else 28)
      else if m = 4 \<or> m = 6 \<or> m = 9 \<or> m = 11 then 30 else 31)"

definition valid_date :: "date \<Rightarrow> bool" where
  "valid_date d \<longleftrightarrow> 1 \<le> dt_year d \<and> dt_year d \<le> 9999 \<and> 1 \<le> dt_month d \<and> dt_month d \<le> 12
     \<and> 1 \<le> dt_day d \<and> dt_day d \<le> days_in_month (dt_year d) (dt_month d)"

text \<open>\<open>date(y, m, d)\<close>\<close>

definition mk_date :: "int \<Rightarrow> int \<Rightarrow> int \<Rightarrow> date result" where
  "mk_date y m d =
     (if valid_date (Date y m d) then Inr (Date y m d) else Inl (ValueError ''date out of range''))"

instantiation date :: linorder
begin

definition less_eq_date :: "date \<Rightarrow> date \<Rightarrow> bool" where
  "less_eq_date a b \<longleftrightarrow>
     (dt_year a, dt_month a, dt_day a) \<le> (dt_year b, dt_month b, dt_day b)"

definition less_date :: "date \<Rightarrow> date \<Rightarrow> bool" where
  "less_date a b \<longleftrightarrow> (dt_year a, dt_month a, dt_day a) < (dt_year b, dt_month b, dt_day b)"

instance
  by standard (auto simp: less_eq_date_def less_date_def date.expand)

end

section \<open>Ordinals\<close>

definition days_before_year :: "int \<Rightarrow> int" where
  "days_before_year y = (y - 1) * 365 + (y - 1) div 4 - (y - 1) div 100 + (y - 1) div 400"

definition days_before_month :: "int \<Rightarrow> int \<Rightarrow> int" where
  "days_before_month y m = sum_list (map (days_in_month y) [1..m - 1])"

definition to_ordinal :: "date \<Rightarrow> int" where
  "to_ordinal d =
     days_before_year (dt_year d) + days_before_month (dt_year d) (dt_month d) + dt_day d"

text \<open>\<open>(a - b).days\<close>\<close>

definition days_between :: "date \<Rightarrow> date \<Rightarrow> int" where
  "days_between a b = to_ordinal a - to_ordinal b"

definition max_date :: date where "max_date = Date 9999 12 31"
definition min_date :: date where "min_date = Date 1 1 1"

text \<open>\<open>d + timedelta(days=1)\<close> and \<open>d - timedelta(days=1)\<close>\<close>

definition next_day :: "date \<Rightarrow> date result" where
  "next_day d =
     (if d = max_date then Inl OverflowError
      else if dt_day d < days_in_month (dt_year d) (dt_month d)
        then Inr (Date (dt_year d) (dt_month d) (dt_day d + 1))
      else if dt_month d < 12 then Inr (Date (dt_year d) (dt_month d + 1) 1)
      else Inr (Date (dt_year d + 1) 1 1))"

definition prev_day :: "date \<Rightarrow> date result" where
  "prev_day d =
     (if d = min_date then Inl OverflowError
      else if 1 < dt_day d then Inr (Date (dt_year d) (dt_month d) (dt_day d - 1))
      else if 1 < dt_month d
        then Inr (Date (dt_year d) (dt_month d - 1) (days_in_month (dt_year d) (dt_month d - 1)))
      else Inr (Date (dt_year d - 1) 12 31))"

section \<open>The engines' month helpers\<close>

definition month_end :: "date \<Rightarrow> date" where
  "month_end value = Date (dt_year value) (dt_month value) (days_in_month (dt_year value) (dt_month value))"

definition month_start :: "date \<Rightarrow> date" where
  "month_start value = Date (dt_year value) (dt_month value) 1"

definition add_months :: "date \<Rightarrow> int \<Rightarrow> date result" where
  "add_months value months =
     (let t = dt_year value * 12 + (dt_month value - 1) + months;
          y = t div 12; m = t mod 12 + 1
      in mk_date y m (min (dt_day value) (days_in_month y m)))"

section \<open>Order and ordinals\<close>

lemma days_in_month_bounds: "28 \<le> days_in_month y m" "days_in_month y m \<le> 31"
  by (simp_all add: days_in_month_def)

lemma days_in_month_pos [simp]: "1 \<le> days_in_month y m" "0 < days_in_month y m"
  using days_in_month_bounds(1) [of y m] by simp_all

lemma date_le_iff:
  "a \<le> b \<longleftrightarrow> dt_year a < dt_year b \<or> dt_year a = dt_year b \<and>
     (dt_month a < dt_month b \<or> dt_month a = dt_month b \<and> dt_day a \<le> dt_day b)"
  by (auto simp: less_eq_date_def)

lemma date_less_iff:
  "a < b \<longleftrightarrow> dt_year a < dt_year b \<or> dt_year a = dt_year b \<and>
     (dt_month a < dt_month b \<or> dt_month a = dt_month b \<and> dt_day a < dt_day b)"
  by (auto simp: less_date_def)

lemma days_before_month_Suc:
  "1 \<le> m \<Longrightarrow> days_before_month y (m + 1) = days_before_month y m + days_in_month y m"
  by (simp add: days_before_month_def upto_rec2)

lemma days_before_month_1 [simp]: "days_before_month y 1 = 0"
  by (simp add: days_before_month_def)

lemma days_before_month_less:
  assumes "1 \<le> m" and "m < m'"
  shows "days_before_month y m + days_in_month y m \<le> days_before_month y m'"
  using assms(2)
proof (induction rule: int_gr_induct)
  case base
  then show ?case using assms(1) by (simp add: days_before_month_Suc)
next
  case (step i)
  then show ?case
    using assms(1) days_before_month_Suc [of i y] days_in_month_bounds(1) [of y i] by simp
qed

lemma leap_arith:
  fixes n :: int
  assumes "n = y * 365 + q4 - q100 + q400" and "b = y * 365 - 365 + p4 - p100 + p400"
    and "q4 = p4 + (if m4 then 1 else 0)" and "q100 = p100 + (if m100 then 1 else 0)"
    and "q400 = p400 + (if m400 then 1 else 0)"
    and "m400 \<Longrightarrow> m100" and "m100 \<Longrightarrow> m4"
  shows "n = b + (if m4 \<and> (\<not> m100 \<or> m400) then 366 else 365)"
  using assms by (cases m4; cases m100; cases m400) auto

lemma days_before_year_Suc:
  "days_before_year (y + 1) = days_before_year y + (if is_leap y then 366 else 365)"
proof -
  have d: "y div k = (y - 1) div k + (if y mod k = 0 then 1 else 0)" if "0 < k" for k
  proof -
    have y: "y = k * (y div k) + y mod k" by simp
    have b: "0 \<le> y mod k" "y mod k < k" using that by simp_all
    show ?thesis
    proof (cases "y mod k = 0")
      case True
      then have "(y - 1) div k = y div k - 1"
        using that y by (intro int_div_pos_eq [where r = "k - 1"]) (auto simp: algebra_simps)
      with True show ?thesis by simp
    next
      case False
      then have "(y - 1) div k = y div k"
        using that y b by (intro int_div_pos_eq [where r = "y mod k - 1"]) auto
      with False show ?thesis by simp
    qed
  qed
  have c: "y mod 400 mod 100 = y mod 100" "y mod 100 mod 4 = y mod 4"
    by (rule mod_mod_cancel, simp)+
  have m: "y mod 400 = 0 \<Longrightarrow> y mod 100 = 0" "y mod 100 = 0 \<Longrightarrow> y mod 4 = 0"
    by (simp_all flip: c)
  have e: "days_before_year (y + 1) = y * 365 + y div 4 - y div 100 + y div 400"
    "days_before_year y = y * 365 - 365 + (y - 1) div 4 - (y - 1) div 100 + (y - 1) div 400"
    by (simp_all add: days_before_year_def)
  have d4: "y div 4 = (y - 1) div 4 + (if y mod 4 = 0 then 1 else 0)"
    and d100: "y div 100 = (y - 1) div 100 + (if y mod 100 = 0 then 1 else 0)"
    and d400: "y div 400 = (y - 1) div 400 + (if y mod 400 = 0 then 1 else 0)"
    by (rule d, simp)+
  show ?thesis
    unfolding is_leap_def by (rule leap_arith [OF e d4 d100 d400 m])
qed

lemma days_in_year:
  "1 \<le> m \<Longrightarrow> m \<le> 12 \<Longrightarrow>
     days_before_month y m + days_in_month y m \<le> (if is_leap y then 366 else 365)"
proof -
  assume m: "1 \<le> m" "m \<le> 12"
  have "days_before_month y 12 + days_in_month y 12 = (if is_leap y then 366 else 365)"
    by (simp add: days_before_month_def days_in_month_def upto.simps)
  then show ?thesis
    using m days_before_month_less [of m 12 y] days_in_month_bounds(1) [of y 12]
    by (cases "m = 12") auto
qed

lemma days_before_month_nonneg: "0 \<le> days_before_month y m"
  unfolding days_before_month_def
  by (rule sum_list_nonneg) (auto intro: order_trans [OF _ days_in_month_bounds(1)])

lemma days_before_year_mono:
  assumes "y < y'"
  shows "days_before_year y + (if is_leap y then 366 else 365) \<le> days_before_year y'"
  using assms
proof (induction rule: int_gr_induct)
  case base
  then show ?case by (simp add: days_before_year_Suc)
next
  case (step i)
  then show ?case using days_before_year_Suc [of i] by (simp split: if_splits)
qed

lemma to_ordinal_less:
  assumes "valid_date a" and "valid_date b" and "a < b"
  shows "to_ordinal a < to_ordinal b"
proof -
  have va: "1 \<le> dt_month a" "dt_month a \<le> 12" "dt_day a \<le> days_in_month (dt_year a) (dt_month a)"
    and vb: "1 \<le> dt_month b" "1 \<le> dt_day b"
    using assms by (simp_all add: valid_date_def)
  consider (year) "dt_year a < dt_year b"
    | (month) "dt_year a = dt_year b" "dt_month a < dt_month b"
    | (day) "dt_year a = dt_year b" "dt_month a = dt_month b" "dt_day a < dt_day b"
    using assms(3) by (auto simp: date_less_iff)
  then show ?thesis
  proof cases
    case year
    then show ?thesis
      using days_before_year_mono [OF year] days_in_year [OF va(1,2), of "dt_year a"] va(3) vb(2)
        days_before_month_nonneg [of "dt_year b" "dt_month b"]
      by (simp add: to_ordinal_def)
  next
    case month
    then show ?thesis
      using days_before_month_less [OF va(1) month(2), of "dt_year a"] va(3) vb(2)
      by (simp add: to_ordinal_def)
  next
    case day
    then show ?thesis by (simp add: to_ordinal_def)
  qed
qed

lemma to_ordinal_le_iff:
  "valid_date a \<Longrightarrow> valid_date b \<Longrightarrow> to_ordinal a \<le> to_ordinal b \<longleftrightarrow> a \<le> b"
  by (metis linorder_not_le order_le_imp_less_or_eq order_less_le to_ordinal_less)

lemma to_ordinal_less_iff:
  "valid_date a \<Longrightarrow> valid_date b \<Longrightarrow> to_ordinal a < to_ordinal b \<longleftrightarrow> a < b"
  by (metis linorder_not_le to_ordinal_le_iff)

lemma to_ordinal_inj: "valid_date a \<Longrightarrow> valid_date b \<Longrightarrow> to_ordinal a = to_ordinal b \<Longrightarrow> a = b"
  by (metis order_antisym order_refl to_ordinal_le_iff)

section \<open>The next and previous day\<close>

lemma valid_max_date [simp]: "valid_date max_date" and valid_min_date [simp]: "valid_date min_date"
  by (simp_all add: valid_date_def max_date_def min_date_def days_in_month_def)

lemma next_day_cases:
  assumes "next_day (Date y m k) = Inr d'" and "valid_date (Date y m k)"
  obtains "k < days_in_month y m" "d' = Date y m (k + 1)"
    | "k = days_in_month y m" "m < 12" "d' = Date y (m + 1) 1"
    | "k = days_in_month y m" "m = 12" "y < 9999" "d' = Date (y + 1) 1 1"
proof (cases "k < days_in_month y m")
  case True
  then show ?thesis using assms(1) that(1) by (simp add: next_day_def split: if_splits)
next
  case False
  with assms(2) have k: "k = days_in_month y m" by (simp add: valid_date_def)
  show ?thesis
  proof (cases "m < 12")
    case True
    then show ?thesis using assms(1) k that(2) by (simp add: next_day_def split: if_splits)
  next
    case False
    with assms(2) have m: "m = 12" and "y \<le> 9999" by (simp_all add: valid_date_def)
    moreover have "y \<noteq> 9999"
      using assms(1) k m by (auto simp: next_day_def max_date_def days_in_month_def)
    ultimately show ?thesis using assms(1) k that(3) by (simp add: next_day_def split: if_splits)
  qed
qed

lemma valid_first_day: "1 \<le> y \<Longrightarrow> y \<le> 9999 \<Longrightarrow> 1 \<le> m \<Longrightarrow> m \<le> 12 \<Longrightarrow> valid_date (Date y m 1)"
  using days_in_month_bounds(1) [of y m] by (simp add: valid_date_def)

lemma next_day_valid:
  assumes "next_day d = Inr d'" and v: "valid_date d"
  shows "valid_date d'"
proof -
  obtain y m k where d: "d = Date y m k" by (cases d)
  show ?thesis using next_day_cases [OF assms [unfolded d]]
    by cases (use v in \<open>auto simp: d valid_date_def intro!: valid_first_day\<close>)
qed

lemma next_day_ordinal:
  assumes "next_day d = Inr d'" and "valid_date d"
  shows "to_ordinal d' = to_ordinal d + 1"
proof -
  obtain y m k where d: "d = Date y m k" by (cases d)
  have v: "1 \<le> m" "m \<le> 12" "1 \<le> k" "k \<le> days_in_month y m"
    using assms(2) by (simp_all add: d valid_date_def)
  have y12: "days_before_month y 12 + days_in_month y 12 = (if is_leap y then 366 else 365)"
    by (simp add: days_before_month_def days_in_month_def upto.simps)
  show ?thesis using next_day_cases [OF assms [unfolded d]]
    by cases (use v(1) y12 in
      \<open>simp_all add: d to_ordinal_def days_before_month_Suc days_before_year_Suc\<close>)
qed

lemma next_day_less: "next_day d = Inr d' \<Longrightarrow> valid_date d \<Longrightarrow> d < d'"
  using next_day_ordinal [of d d'] next_day_valid [of d d'] to_ordinal_less_iff [of d d'] by simp

lemma next_day_le_iff:
  "next_day d = Inr d' \<Longrightarrow> valid_date d \<Longrightarrow> valid_date e \<Longrightarrow> d' \<le> e \<longleftrightarrow> d < e"
  using next_day_ordinal [of d d'] next_day_valid [of d d']
  by (auto simp flip: to_ordinal_le_iff to_ordinal_less_iff)

lemma next_day_total:
  assumes "valid_date d" and "d < e" and "valid_date e"
  shows "\<exists>d'. next_day d = Inr d'"
proof -
  have "e \<le> max_date"
    using assms(3) by (auto simp: date_le_iff valid_date_def max_date_def days_in_month_def
        split: if_splits)
  with assms(2) have "d \<noteq> max_date" by auto
  then show ?thesis by (simp add: next_day_def)
qed

lemma prev_day_next_day:
  assumes "prev_day d = Inr d'" and "valid_date d"
  shows "next_day d' = Inr d" and "valid_date d'"
proof -
  obtain y m k where d: "d = Date y m k" by (cases d)
  have dec: "days_in_month y' 12 = 31" for y' by (simp add: days_in_month_def)
  consider "1 < k" "d' = Date y m (k - 1)"
    | "k = 1" "1 < m" "d' = Date y (m - 1) (days_in_month y (m - 1))"
    | "k = 1" "m = 1" "1 < y" "d' = Date (y - 1) 12 31"
  proof (cases "1 < k")
    case True
    then show ?thesis using assms(1) that(1) by (simp add: d prev_day_def split: if_splits)
  next
    case False
    with assms(2) have k: "k = 1" by (simp add: d valid_date_def)
    show ?thesis
    proof (cases "1 < m")
      case True
      then show ?thesis using assms(1) k that(2) by (simp add: d prev_day_def split: if_splits)
    next
      case False
      with assms(2) have m: "m = 1" "1 \<le> y" by (simp_all add: d valid_date_def)
      moreover have "y \<noteq> 1" using assms(1) k m by (auto simp: d prev_day_def min_date_def)
      ultimately show ?thesis using assms(1) k that(3) by (simp add: d prev_day_def split: if_splits)
    qed
  qed
  then have "valid_date d' \<and> next_day d' = Inr d"
  proof cases
    case 1
    then show ?thesis using assms(2) by (auto simp: d valid_date_def next_day_def max_date_def days_in_month_def)
  next
    case 2
    then show ?thesis using assms(2) by (auto simp: d valid_date_def next_day_def max_date_def)
  next
    case 3
    then show ?thesis using assms(2) by (auto simp: d valid_date_def next_day_def max_date_def dec)
  qed
  then show "next_day d' = Inr d" and "valid_date d'" by auto
qed

section \<open>Month ends\<close>

lemma month_end_valid: "valid_date d \<Longrightarrow> valid_date (month_end d)"
  using days_in_month_bounds(1) [of "dt_year d" "dt_month d"]
  by (simp add: valid_date_def month_end_def)

lemma month_end_ge: "valid_date d \<Longrightarrow> d \<le> month_end d"
  by (simp add: date_le_iff month_end_def valid_date_def)

lemma month_end_month [simp]:
  "dt_year (month_end d) = dt_year d" "dt_month (month_end d) = dt_month d"
  by (simp_all add: month_end_def)

lemma month_end_idem [simp]: "month_end (month_end d) = month_end d"
  by (simp add: month_end_def)

lemma same_month_between:
  assumes "valid_date d" "d \<le> e" "e \<le> month_end d"
  shows "dt_year e = dt_year d" and "dt_month e = dt_month d"
  using assms by (auto simp: date_le_iff month_end_def)

lemma mk_date_Inr: "mk_date y m d = Inr r \<longleftrightarrow> r = Date y m d \<and> valid_date r"
  by (auto simp: mk_date_def)

lemma add_months_valid: "add_months d k = Inr d' \<Longrightarrow> valid_date d'"
  by (auto simp: add_months_def mk_date_Inr Let_def)

lemma add_months_index:
  "add_months d k = Inr d' \<Longrightarrow>
     dt_year d' * 12 + (dt_month d' - 1) = dt_year d * 12 + (dt_month d - 1) + k"
  by (auto simp: add_months_def mk_date_Inr Let_def)

end
