(* ===== verification/Audit_Chain.thy ===== *)
theory Audit_Chain
  imports Canonical_Json Decimals Dates
begin

text \<open>
  \<open>utils/chain_hash.py\<close>, \<open>services/audit_writer.py\<close> and \<open>services/audit_service.py\<close>:
  every financial table and the audit trail are insert-only and hash-chained per tenant.
  SHA-256 is the parameter \<open>sha\<close>; what is assumed of it is stated where it is used, as
  the absence of a collision among the payloads at hand.  An insert reads the clock and
  draws an id: the environment carries both, and the clock advances between inserts.
  The advisory lock of \<open>get_previous_hash_locked\<close> serialises the writers of a table, so
  an insert is one step.
\<close>

section \<open>The code\<close>

type_synonym sha = "string \<Rightarrow> string"

definition GENESIS_HASH :: string where
  "GENESIS_HASH = replicate 64 (CHR ''0'')"

definition compute_chain_hash :: "sha \<Rightarrow> json \<Rightarrow> string \<Rightarrow> string" where
  "compute_chain_hash sha record_data previous_hash = sha (canonical_json_dumps record_data @ previous_hash)"

text \<open>A record given to \<open>verify_chain\<close>: the two hash fields and the remaining fields.\<close>

record chain_record =
  cr_data :: json
  cr_chain_hash :: string
  cr_previous_hash :: string

record chain_verification_result =
  is_valid :: bool
  total_records :: nat
  first_broken_at :: "nat option"

text \<open>The loop of \<open>verify_chain\<close> at index \<open>i\<close>: \<open>expected\<close> is \<open>GENESIS_HASH\<close> for the
  first record and the chain hash of the record before it afterwards.\<close>

fun verify_from :: "sha \<Rightarrow> nat \<Rightarrow> nat \<Rightarrow> string \<Rightarrow> chain_record list \<Rightarrow> chain_verification_result" where
  "verify_from sha n i expected [] = \<lparr>is_valid = True, total_records = n, first_broken_at = None\<rparr>"
| "verify_from sha n i expected (r # rs) =
     (if cr_previous_hash r \<noteq> expected
        then \<lparr>is_valid = False, total_records = n, first_broken_at = Some i\<rparr>
      else if compute_chain_hash sha (cr_data r) (cr_previous_hash r) \<noteq> cr_chain_hash r
        then \<lparr>is_valid = False, total_records = n, first_broken_at = Some i\<rparr>
      else verify_from sha n (Suc i) (cr_chain_hash r) rs)"

definition verify_chain :: "sha \<Rightarrow> chain_record list \<Rightarrow> chain_verification_result" where
  "verify_chain sha records = verify_from sha (length records) 0 GENESIS_HASH records"

text \<open>A row of a \<open>FinancialBase\<close> table.\<close>

record 'v row =
  row_id :: uuid
  row_tenant :: uuid
  row_created_at :: nat
  row_chain_hash :: string
  row_previous_hash :: string
  row_values :: 'v

definition chain_tails :: "uuid \<Rightarrow> 'v row list \<Rightarrow> 'v row list" where
  "chain_tails tenant_id rows =
     filter (\<lambda>tail. row_tenant tail = tenant_id
       \<and> \<not> list_ex (\<lambda>child. row_tenant child = tenant_id \<and> row_previous_hash child = row_chain_hash tail) rows) rows"

definition get_previous_hash_locked :: "uuid \<Rightarrow> 'v row list \<Rightarrow> string" where
  "get_previous_hash_locked tenant_id rows =
     (case rev (sort_key (\<lambda>r. (row_created_at r, row_chain_hash r)) (chain_tails tenant_id rows)) of
        [] \<Rightarrow> GENESIS_HASH
      | tail # _ \<Rightarrow> row_chain_hash tail)"

record audit_entry =
  at_user_id :: "uuid option"
  at_action :: string
  at_resource_type :: string
  at_resource_id :: "string option"
  at_resource_name :: "string option"
  at_old_value_hash :: "string option"
  at_new_value_hash :: "string option"
  at_ip_address :: "string option"
  at_user_agent :: "string option"

text \<open>What an insert sees beside its own table: the audit trail, the clock, the next id.\<close>

record env =
  env_trail :: "audit_entry row list"
  env_now :: nat
  env_next_id :: uuid

record audit_event =
  ae_tenant_id :: uuid
  ae_action :: string
  ae_resource_type :: string
  ae_user_id :: "uuid option"
  ae_resource_id :: "string option"
  ae_resource_name :: "string option"
  ae_old_value :: "json option"
  ae_new_value :: "json option"
  ae_ip_address :: "string option"
  ae_user_agent :: "string option"

definition json_opt :: "string option \<Rightarrow> json" where
  "json_opt s = (case s of None \<Rightarrow> JNull | Some t \<Rightarrow> JStr t)"

text \<open>\<open>str(uuid)\<close>: the 32 hexadecimal digits in groups of 8, 4, 4, 4 and 12.\<close>

definition uuid_text :: "uuid \<Rightarrow> string" where
  "uuid_text u =
     (let h = map (\<lambda>i. hex_char (u div 16 ^ (31 - i) mod 16)) [0..<32] in
      take 8 h @ ''-'' @ take 4 (drop 8 h) @ ''-'' @ take 4 (drop 12 h) @ ''-''
        @ take 4 (drop 16 h) @ ''-'' @ drop 20 h)"

text \<open>The text of an amount or rate with six places, and of a date, as they enter a payload.\<close>

definition pad_left :: "nat \<Rightarrow> string \<Rightarrow> string" where
  "pad_left n s = replicate (n - length s) (CHR ''0'') @ s"

definition amount_text :: "rat \<Rightarrow> string" where
  "amount_text x =
     (let k = nat \<lfloor>\<bar>x\<bar> * 10 ^ 6\<rfloor> in
      (if x < 0 then ''-'' else []) @ nat_text (k div 1000000) @ ''.'' @ pad_left 6 (nat_text (k mod 1000000)))"

definition date_text :: "date \<Rightarrow> string" where
  "date_text d = pad_left 4 (int_text (dt_year d)) @ ''-'' @ pad_left 2 (int_text (dt_month d)) @ ''-''
     @ pad_left 2 (int_text (dt_day d))"

definition trail_record_data :: "uuid \<Rightarrow> audit_entry \<Rightarrow> json" where
  "trail_record_data tenant_id e = JDict
     [(''tenant_id'', JStr (uuid_text tenant_id)),
      (''user_id'', json_opt (map_option uuid_text (at_user_id e))),
      (''action'', JStr (at_action e)),
      (''resource_type'', JStr (at_resource_type e)),
      (''resource_id'', json_opt (at_resource_id e)),
      (''resource_name'', json_opt (at_resource_name e)),
      (''old_value_hash'', json_opt (at_old_value_hash e)),
      (''new_value_hash'', json_opt (at_new_value_hash e)),
      (''ip_address'', json_opt (at_ip_address e))]"

definition append_row :: "uuid \<Rightarrow> string \<Rightarrow> string \<Rightarrow> 'v \<Rightarrow> env \<Rightarrow> 'v row" where
  "append_row tenant_id chain_hash previous_hash v env =
     \<lparr>row_id = env_next_id env, row_tenant = tenant_id, row_created_at = env_now env,
      row_chain_hash = chain_hash, row_previous_hash = previous_hash, row_values = v\<rparr>"

definition tick :: "env \<Rightarrow> env" where
  "tick env = env\<lparr>env_now := env_now env + 1, env_next_id := env_next_id env + 1\<rparr>"

definition log_action :: "sha \<Rightarrow> audit_event \<Rightarrow> env \<Rightarrow> env" where
  "log_action sha ev env =
     (let hash_of = map_option (\<lambda>v. sha (canonical_json_dumps v));
          entry = \<lparr>at_user_id = ae_user_id ev, at_action = ae_action ev,
            at_resource_type = ae_resource_type ev, at_resource_id = ae_resource_id ev,
            at_resource_name = ae_resource_name ev, at_old_value_hash = hash_of (ae_old_value ev),
            at_new_value_hash = hash_of (ae_new_value ev), at_ip_address = ae_ip_address ev,
            at_user_agent = ae_user_agent ev\<rparr>;
          previous_hash = get_previous_hash_locked (ae_tenant_id ev) (env_trail env);
          chain_hash = compute_chain_hash sha (trail_record_data (ae_tenant_id ev) entry) previous_hash
      in tick (env\<lparr>env_trail := env_trail env @
                 [append_row (ae_tenant_id ev) chain_hash previous_hash entry env]\<rparr>))"

text \<open>\<open>AuditWriter.insert_record\<close>: the mutation context stamps the record (\<open>stamp\<close>),
  the row is added, and the audit entry names the row when it has no resource id.\<close>

definition insert_record :: "sha \<Rightarrow> ('v \<Rightarrow> 'v) \<Rightarrow> 'v row \<Rightarrow> audit_event option \<Rightarrow> 'v row list \<times> env
    \<Rightarrow> 'v row \<times> 'v row list \<times> env" where
  "insert_record sha stamp record audit st =
     (let stored = record\<lparr>row_values := stamp (row_values record)\<rparr>;
          env = tick (snd st);
          env = (case audit of None \<Rightarrow> env
                 | Some ev \<Rightarrow>
                     log_action sha (ev\<lparr>ae_resource_id :=
                        (case ae_resource_id ev of
                           Some i \<Rightarrow> (if i = '''' then Some (uuid_text (row_id stored)) else Some i)
                         | None \<Rightarrow> Some (uuid_text (row_id stored)))\<rparr>) env)
      in (stored, fst st @ [stored], env))"

definition insert_financial_record :: "sha \<Rightarrow> ('v \<Rightarrow> 'v) \<Rightarrow> uuid \<Rightarrow> json \<Rightarrow> 'v \<Rightarrow> audit_event option
    \<Rightarrow> 'v row list \<times> env \<Rightarrow> 'v row \<times> 'v row list \<times> env" where
  "insert_financial_record sha stamp tenant_id record_data v audit st =
     (let previous_hash = get_previous_hash_locked tenant_id (fst st);
          chain_hash = compute_chain_hash sha record_data previous_hash
      in insert_record sha stamp (append_row tenant_id chain_hash previous_hash v (snd st)) audit st)"

text \<open>\<open>verify_tenant_chain\<close>: rows come back in no particular order and are chained by
  their previous hash.  Each round consumes one row, so the number of rows bounds the loop.\<close>

definition trail_record :: "audit_entry row \<Rightarrow> chain_record" where
  "trail_record r = \<lparr>cr_data = trail_record_data (row_tenant r) (row_values r),
     cr_chain_hash = row_chain_hash r, cr_previous_hash = row_previous_hash r\<rparr>"

fun order_chain :: "nat \<Rightarrow> chain_record list \<Rightarrow> string \<Rightarrow> string list \<Rightarrow> chain_record list
    \<Rightarrow> nat + chain_record list" where
  "order_chain 0 records current visited ordered = Inr ordered"
| "order_chain (Suc n) records current visited ordered =
     (case group_of cr_previous_hash current records of
        [node] \<Rightarrow>
          if cr_chain_hash node \<in> set visited then Inl (length ordered)
          else order_chain n records (cr_chain_hash node) (cr_chain_hash node # visited) (ordered @ [node])
      | _ \<Rightarrow> Inl (length ordered))"

definition verify_tenant_chain :: "sha \<Rightarrow> uuid \<Rightarrow> audit_entry row list \<Rightarrow> chain_verification_result" where
  "verify_tenant_chain sha tenant_id trail =
     (let rows = filter (\<lambda>r. row_tenant r = tenant_id) trail; n = length rows in
      if rows = [] then \<lparr>is_valid = True, total_records = 0, first_broken_at = None\<rparr>
      else case order_chain n (map trail_record rows) GENESIS_HASH [] [] of
          Inl i \<Rightarrow> \<lparr>is_valid = False, total_records = n, first_broken_at = Some i\<rparr>
        | Inr ordered \<Rightarrow> verify_chain sha ordered)"

section \<open>What inserts do\<close>

lemma log_action_env [simp]:
  "env_next_id (log_action sha ev env) = env_next_id env + 1"
  "env_now (log_action sha ev env) = env_now env + 1"
  by (simp_all add: log_action_def tick_def Let_def)

lemma insert_record_facts:
  assumes "insert_record sha stamp r audit (rows, env) = (stored, rows', env')"
  shows "rows' = rows @ [stored]" "stored = r\<lparr>row_values := stamp (row_values r)\<rparr>"
    "env_now env < env_now env'" "env_next_id env < env_next_id env'"
  using assms by (auto simp: insert_record_def tick_def Let_def split: option.splits)

lemma insert_financial_record_facts:
  assumes "insert_financial_record sha stamp tenant_id data v audit (rows, env) = (record, rows', env')"
  shows "rows' = rows @ [record]" "row_tenant record = tenant_id" "row_values record = stamp v"
    "row_created_at record = env_now env" "row_id record = env_next_id env" "env_now env < env_now env'"
    "env_next_id env < env_next_id env'"
    "row_previous_hash record = get_previous_hash_locked tenant_id rows"
  using assms
  by (auto simp: insert_financial_record_def insert_record_def append_row_def tick_def log_action_def Let_def
      split: option.splits)

section \<open>\<open>verify_chain\<close> accepts exactly the linked chains\<close>

text \<open>Pairs of previous hash and chain hash, linked from a given hash.\<close>

fun hash_linked :: "string \<Rightarrow> (string \<times> string) list \<Rightarrow> bool" where
  "hash_linked h [] \<longleftrightarrow> True"
| "hash_linked h ((p, c) # ls) \<longleftrightarrow> p = h \<and> hash_linked c ls"

definition record_link :: "chain_record \<Rightarrow> string \<times> string" where
  "record_link r = (cr_previous_hash r, cr_chain_hash r)"

definition row_link :: "'v row \<Rightarrow> string \<times> string" where
  "row_link r = (row_previous_hash r, row_chain_hash r)"

definition hashed :: "sha \<Rightarrow> chain_record \<Rightarrow> bool" where
  "hashed sha r \<longleftrightarrow> cr_chain_hash r = compute_chain_hash sha (cr_data r) (cr_previous_hash r)"

lemma hash_linked_append:
  "hash_linked h (ls @ ms) \<longleftrightarrow> hash_linked h ls \<and> hash_linked (last (h # map snd ls)) ms"
  by (induction h ls rule: hash_linked.induct) auto

lemma hash_linked_previous: "hash_linked h ls \<Longrightarrow> map fst ls = butlast (h # map snd ls)"
  by (induction h ls rule: hash_linked.induct) auto

lemma verify_from_valid:
  "is_valid (verify_from sha n i h rs) \<longleftrightarrow> hash_linked h (map record_link rs) \<and> list_all (hashed sha) rs"
  by (induction sha n i h rs rule: verify_from.induct)
    (auto simp: record_link_def hashed_def)

lemma verify_from_total: "total_records (verify_from sha n i h rs) = n"
  by (induction sha n i h rs rule: verify_from.induct) auto

lemma verify_from_broken:
  "first_broken_at (verify_from sha n i h rs) = Some k \<Longrightarrow>
     i \<le> k \<and> k < i + length rs \<and> hash_linked h (map record_link (take (k - i) rs))
     \<and> list_all (hashed sha) (take (k - i) rs)
     \<and> \<not> (hash_linked h (map record_link (take (Suc k - i) rs)) \<and> list_all (hashed sha) (take (Suc k - i) rs))"
proof (induction sha n i h rs rule: verify_from.induct)
  case (2 sha n i expected r rs)
  show ?case
  proof (cases "cr_previous_hash r = expected \<and> hashed sha r")
    case True
    then have "first_broken_at (verify_from sha n (Suc i) (cr_chain_hash r) rs) = Some k"
      using 2(2) by (simp add: hashed_def)
    then have ih: "Suc i \<le> k" "k < Suc i + length rs" "hash_linked (cr_chain_hash r) (map record_link (take (k - Suc i) rs))"
      "list_all (hashed sha) (take (k - Suc i) rs)"
      "\<not> (hash_linked (cr_chain_hash r) (map record_link (take (Suc k - Suc i) rs))
          \<and> list_all (hashed sha) (take (Suc k - Suc i) rs))"
      using 2(1) True by (simp_all add: hashed_def [of sha r])
    then have "k - i = Suc (k - Suc i)" "Suc k - i = Suc (Suc k - Suc i)" by auto
    then show ?thesis using ih True by (auto simp: record_link_def [of r])
  next
    case False
    then have "k = i" using 2(2) by (auto simp: hashed_def split: if_splits)
    then show ?thesis using False by (auto simp: record_link_def)
  qed
qed simp

section \<open>The tail of a chain\<close>

definition tenant_rows :: "uuid \<Rightarrow> 'v row list \<Rightarrow> 'v row list" where
  "tenant_rows tenant_id rows = filter (\<lambda>r. row_tenant r = tenant_id) rows"

text \<open>A tenant's rows, in the order of insertion, form one chain without repeated hashes.\<close>

definition chain_ok :: "uuid \<Rightarrow> 'v row list \<Rightarrow> bool" where
  "chain_ok tenant_id rows \<longleftrightarrow>
     hash_linked GENESIS_HASH (map row_link (tenant_rows tenant_id rows))
     \<and> distinct (GENESIS_HASH # map row_chain_hash (tenant_rows tenant_id rows))"

definition chain_head :: "uuid \<Rightarrow> 'v row list \<Rightarrow> string" where
  "chain_head tenant_id rows = last (GENESIS_HASH # map row_chain_hash (tenant_rows tenant_id rows))"

lemma map_link [simp]:
  "map fst (map row_link rs) = map row_previous_hash rs"
  "map snd (map row_link rs) = map row_chain_hash rs"
  by (simp_all add: row_link_def)

lemma chain_tails_tenant:
  "chain_tails tenant_id rows =
     filter (\<lambda>r. row_chain_hash r \<notin> set (map row_previous_hash (tenant_rows tenant_id rows))) (tenant_rows tenant_id rows)"
proof -
  have "list_ex (\<lambda>child. row_tenant child = tenant_id \<and> row_previous_hash child = h) rows
      \<longleftrightarrow> h \<in> set (map row_previous_hash (tenant_rows tenant_id rows))" for h
    by (force simp: list_ex_iff tenant_rows_def)
  then show ?thesis unfolding chain_tails_def by (auto simp: tenant_rows_def intro!: filter_cong)
qed

lemma chain_tails_last:
  assumes "chain_ok tenant_id rows"
  shows "chain_tails tenant_id rows =
    (if tenant_rows tenant_id rows = [] then [] else [last (tenant_rows tenant_id rows)])"
proof (cases "tenant_rows tenant_id rows" rule: rev_cases)
  case (snoc rs r)
  have prev: "map row_previous_hash (rs @ [r]) = butlast (GENESIS_HASH # map row_chain_hash (rs @ [r]))"
    using hash_linked_previous [of GENESIS_HASH "map row_link (rs @ [r])"] assms snoc
    by (simp only: chain_ok_def map_link)
  then have set_prev: "set (map row_previous_hash (rs @ [r])) = insert GENESIS_HASH (set (map row_chain_hash rs))"
    by (simp add: butlast_append split: if_splits)
  have d: "distinct (GENESIS_HASH # map row_chain_hash (rs @ [r]))"
    using assms snoc by (simp add: chain_ok_def)
  have "filter (\<lambda>x. row_chain_hash x \<notin> set (map row_previous_hash (rs @ [r]))) (rs @ [r]) = [r]"
    unfolding set_prev using d by (auto simp: filter_empty_conv)
  then show ?thesis by (simp add: chain_tails_tenant snoc)
qed (simp add: chain_tails_tenant)

lemma get_previous_hash_head:
  assumes "chain_ok tenant_id rows"
  shows "get_previous_hash_locked tenant_id rows = chain_head tenant_id rows"
  using chain_tails_last [OF assms]
  by (auto simp: get_previous_hash_locked_def chain_head_def last_map split: list.splits)

lemma chain_ok_append:
  assumes "chain_ok tenant_id rows" and "row_tenant r = tenant_id"
    and "row_previous_hash r = get_previous_hash_locked tenant_id rows"
    and "row_chain_hash r \<notin> set (GENESIS_HASH # map row_chain_hash (tenant_rows tenant_id rows))"
  shows "chain_ok tenant_id (rows @ [r])"
proof -
  have "tenant_rows tenant_id (rows @ [r]) = tenant_rows tenant_id rows @ [r]"
    using assms(2) by (simp add: tenant_rows_def)
  moreover have "hash_linked GENESIS_HASH (map row_link (tenant_rows tenant_id rows) @ [row_link r])"
    using assms(1,3) get_previous_hash_head [OF assms(1)]
    unfolding hash_linked_append map_link by (simp add: chain_ok_def row_link_def chain_head_def)
  ultimately show ?thesis using assms(1,4) by (auto simp: chain_ok_def)
qed

lemma chain_ok_other: "row_tenant r \<noteq> tenant_id \<Longrightarrow> chain_ok tenant_id (rows @ [r]) \<longleftrightarrow> chain_ok tenant_id rows"
  by (simp add: chain_ok_def tenant_rows_def)

lemma chain_ok_Nil [simp]: "chain_ok tenant_id []"
  by (simp add: chain_ok_def tenant_rows_def)

section \<open>The audit trail\<close>

text \<open>Rows that carry the hash of their own content.\<close>

definition trail_ok :: "sha \<Rightarrow> uuid \<Rightarrow> env \<Rightarrow> bool" where
  "trail_ok sha tenant_id env \<longleftrightarrow>
     chain_ok tenant_id (env_trail env) \<and> list_all (\<lambda>r. hashed sha (trail_record r)) (tenant_rows tenant_id (env_trail env))"

text \<open>What one call of \<open>log_action\<close> appends.\<close>

definition logged_row :: "sha \<Rightarrow> audit_event \<Rightarrow> env \<Rightarrow> audit_entry row" where
  "logged_row sha ev env = last (env_trail (log_action sha ev env))"

text \<open>The hash of the new row differs from the tenant's earlier ones and from the genesis value.\<close>

definition no_collision :: "sha \<Rightarrow> audit_event \<Rightarrow> env \<Rightarrow> bool" where
  "no_collision sha ev env \<longleftrightarrow>
     row_chain_hash (logged_row sha ev env)
       \<notin> set (GENESIS_HASH # map row_chain_hash (tenant_rows (ae_tenant_id ev) (env_trail env)))"

lemma log_action_appends:
  "env_trail (log_action sha ev env) = env_trail env @ [logged_row sha ev env]"
  "row_tenant (logged_row sha ev env) = ae_tenant_id ev"
  "row_previous_hash (logged_row sha ev env) = get_previous_hash_locked (ae_tenant_id ev) (env_trail env)"
  "hashed sha (trail_record (logged_row sha ev env))"
  by (simp_all add: logged_row_def log_action_def Let_def tick_def append_row_def hashed_def trail_record_def)

lemma log_action_trail_ok:
  assumes "trail_ok sha tenant_id env" and "no_collision sha ev env"
  shows "trail_ok sha tenant_id (log_action sha ev env)"
proof (cases "ae_tenant_id ev = tenant_id")
  case True
  have "chain_ok tenant_id (env_trail env @ [logged_row sha ev env])"
    using assms True by (intro chain_ok_append) (simp_all add: trail_ok_def no_collision_def log_action_appends)
  then show ?thesis
    using assms(1) True by (simp add: trail_ok_def log_action_appends tenant_rows_def)
next
  case False
  then show ?thesis
    using assms(1) by (simp add: trail_ok_def log_action_appends chain_ok_other tenant_rows_def)
qed

text \<open>Reachable audit trails: any interleaving of log calls of any tenants.\<close>

inductive audit_reach :: "sha \<Rightarrow> env \<Rightarrow> bool" for sha where
  empty: "env_trail env = [] \<Longrightarrow> audit_reach sha env"
| log: "audit_reach sha env \<Longrightarrow> no_collision sha ev env \<Longrightarrow> audit_reach sha (log_action sha ev env)"

lemma audit_reach_ok: "audit_reach sha env \<Longrightarrow> trail_ok sha tenant_id env"
proof (induction rule: audit_reach.induct)
  case (empty env)
  then show ?case by (simp add: trail_ok_def tenant_rows_def)
qed (rule log_action_trail_ok)

section \<open>Reordering a tenant's chain\<close>

text \<open>Rows of a linked chain are found one by one, whatever order the query returns.\<close>

lemma order_chain_linked:
  assumes "mset records = mset (done @ rest)"
    and "hash_linked GENESIS_HASH (map record_link (done @ rest))"
    and "distinct (GENESIS_HASH # map cr_chain_hash (done @ rest))"
    and "visited = rev (map cr_chain_hash done)"
    and "current = last (GENESIS_HASH # map cr_chain_hash done)"
  shows "order_chain (length rest) records current visited done = Inr (done @ rest)"
  using assms
proof (induction rest arbitrary: "done" visited current)
  case (Cons r rest)
  define chain where "chain = done @ r # rest"
  have "map cr_previous_hash chain = butlast (GENESIS_HASH # map cr_chain_hash chain)"
    using hash_linked_previous [OF Cons.prems(2)] by (simp add: record_link_def chain_def comp_def)
  then have "distinct (map cr_previous_hash chain)"
    using Cons.prems(3) by (simp add: chain_def distinct_butlast del: butlast.simps)
  moreover have cur: "cr_previous_hash r = current"
    using Cons.prems(2,5) by (simp add: hash_linked_append record_link_def comp_def)
  ultimately have "filter (\<lambda>x. cr_previous_hash x = current) done = []"
    "filter (\<lambda>x. cr_previous_hash x = current) rest = []"
    by (simp_all add: chain_def filter_empty_conv image_iff) metis+
  then have one: "filter (\<lambda>x. cr_previous_hash x = current) chain = [r]"
    by (simp add: chain_def cur)
  have "mset (filter (\<lambda>x. cr_previous_hash x = current) records) = mset [r]"
    unfolding mset_filter Cons.prems(1) one [symmetric] chain_def ..
  then have g: "group_of cr_previous_hash current records = [r]"
    unfolding group_of_def by (simp only: mset_single_iff mset.simps add_mset_add_single [symmetric])
  have "order_chain (length rest) records (cr_chain_hash r) (cr_chain_hash r # visited) (done @ [r])
      = Inr ((done @ [r]) @ rest)"
    using Cons.prems by (intro Cons.IH) simp_all
  then show ?case using g Cons.prems(3,4) by auto
qed simp

lemma map_trail_record [simp]:
  "map record_link (map trail_record rows) = map row_link rows"
  "map cr_chain_hash (map trail_record rows) = map row_chain_hash rows"
  by (simp_all add: record_link_def row_link_def trail_record_def)

lemma verify_tenant_chain_complete:
  assumes "trail_ok sha tenant_id env" and "mset trail = mset (env_trail env)"
  shows "verify_tenant_chain sha tenant_id trail =
    \<lparr>is_valid = True, total_records = length (tenant_rows tenant_id (env_trail env)), first_broken_at = None\<rparr>"
proof -
  let ?chain = "tenant_rows tenant_id (env_trail env)"
  have m: "mset (tenant_rows tenant_id trail) = mset ?chain"
    using assms(2) by (simp add: tenant_rows_def)
  then have len: "length (tenant_rows tenant_id trail) = length ?chain" by (metis size_mset)
  have "order_chain (length (map trail_record ?chain)) (map trail_record (tenant_rows tenant_id trail))
      GENESIS_HASH [] [] = Inr ([] @ map trail_record ?chain)"
    using assms(1) m by (intro order_chain_linked) (simp_all add: trail_ok_def chain_ok_def del: map_map)
  moreover have "is_valid (verify_chain sha (map trail_record ?chain))"
    using assms(1) unfolding verify_chain_def verify_from_valid map_trail_record
    by (simp add: trail_ok_def chain_ok_def list_all_iff)
  moreover have "is_valid (verify_from sha n i h rs) \<Longrightarrow>
      verify_from sha n i h rs = \<lparr>is_valid = True, total_records = n, first_broken_at = None\<rparr>" for n i h rs
    by (induction sha n i h rs rule: verify_from.induct) (auto split: if_splits)
  ultimately show ?thesis
    using len by (auto simp: verify_tenant_chain_def Let_def tenant_rows_def verify_chain_def)
qed

lemma order_chain_sound:
  assumes "order_chain n records current visited ordered = Inr chain"
    and "set ordered \<subseteq> set records" and "distinct (map cr_chain_hash ordered)"
    and "visited = rev (map cr_chain_hash ordered)"
  shows "length chain = length ordered + n \<and> set chain \<subseteq> set records \<and> distinct (map cr_chain_hash chain)"
  using assms
proof (induction n records current visited ordered rule: order_chain.induct)
  case (2 n records current visited ordered)
  then obtain node where node: "group_of cr_previous_hash current records = [node]"
    and new: "cr_chain_hash node \<notin> set visited"
    and rec: "order_chain n records (cr_chain_hash node) (cr_chain_hash node # visited) (ordered @ [node]) = Inr chain"
    by (auto split: list.splits if_splits)
  have "node \<in> set records" using node unfolding group_of_def by (metis filter_is_subset list.set_intros(1) subsetD)
  then show ?case using 2(1) [OF node refl new rec] 2(3-5) new by auto
qed simp

lemma verify_tenant_chain_sound:
  assumes "is_valid (verify_tenant_chain sha tenant_id trail)"
  shows "\<exists>chain. mset chain = mset (map trail_record (tenant_rows tenant_id trail))
    \<and> hash_linked GENESIS_HASH (map record_link chain) \<and> list_all (hashed sha) chain"
proof (cases "tenant_rows tenant_id trail = []")
  case False
  let ?recs = "map trail_record (tenant_rows tenant_id trail)"
  obtain chain where oc: "order_chain (length ?recs) ?recs GENESIS_HASH [] [] = Inr chain"
    and ok: "is_valid (verify_chain sha chain)"
    using assms False by (auto simp: verify_tenant_chain_def tenant_rows_def Let_def split: sum.splits)
  note props = order_chain_sound [OF oc, simplified]
  have d: "distinct chain" using props by (simp add: distinct_map)
  then have c: "card (set chain) = length ?recs" using props by (simp add: distinct_card)
  moreover have sub: "set chain \<subseteq> set ?recs" using props by simp
  ultimately have "length ?recs \<le> card (set ?recs)" by (metis List.finite_set card_mono)
  then have d': "distinct ?recs" by (metis card_distinct card_length le_antisym)
  have "set chain = set ?recs"
    using card_subset_eq [OF _ sub] c d' by (metis List.finite_set distinct_card)
  then have "mset chain = mset ?recs" using set_eq_iff_mset_eq_distinct [OF d d'] by blast
  moreover have "hash_linked GENESIS_HASH (map record_link chain) \<and> list_all (hashed sha) chain"
    using ok by (simp only: verify_chain_def verify_from_valid)
  ultimately show ?thesis by blast
qed auto

section \<open>A verified chain binds its records\<close>

definition hash_payload :: "chain_record \<Rightarrow> string" where
  "hash_payload r = canonical_json_dumps (cr_data r) @ cr_previous_hash r"

definition is_dict :: "json \<Rightarrow> bool" where
  "is_dict v \<longleftrightarrow> (case v of JDict _ \<Rightarrow> True | _ \<Rightarrow> False)"

lemma payload_determines:
  assumes "hash_payload r = hash_payload s" "is_dict (cr_data r)" "is_dict (cr_data s)"
  shows "canonicalize (cr_data r) = canonicalize (cr_data s) \<and> cr_previous_hash r = cr_previous_hash s"
proof -
  obtain kvs lws where d: "cr_data r = JDict kvs" "cr_data s = JDict lws"
    using assms(2,3) by (auto simp: is_dict_def split: json.splits)
  show ?thesis
    using assms(1) json_dict_prefix unfolding hash_payload_def canonical_json_dumps_def d canonicalize.simps(1)
    by blast
qed

lemma hash_linked_snoc:
  "hash_linked h (map record_link (rs @ [r])) \<longleftrightarrow>
     hash_linked h (map record_link rs) \<and> cr_previous_hash r = last (h # map cr_chain_hash rs)"
  by (simp add: hash_linked_append record_link_def comp_def)

lemma chain_binding:
  assumes "hash_linked GENESIS_HASH (map record_link a)" "hash_linked GENESIS_HASH (map record_link b)"
    and "\<forall>r \<in> set a \<union> set b. hashed sha r \<and> is_dict (cr_data r) \<and> cr_chain_hash r \<noteq> GENESIS_HASH"
    and "inj_on sha (hash_payload ` (set a \<union> set b))"
    and "last (GENESIS_HASH # map cr_chain_hash a) = last (GENESIS_HASH # map cr_chain_hash b)"
  shows "map (\<lambda>r. canonicalize (cr_data r)) a = map (\<lambda>r. canonicalize (cr_data r)) b"
  using assms
proof (induction a arbitrary: b rule: rev_induct)
  case Nil
  then show ?case by (cases b rule: rev_cases) auto
next
  case (snoc r a)
  from snoc.prems(3,5) obtain b' s where b: "b = b' @ [s]" by (cases b rule: rev_cases) auto
  have h: "sha (hash_payload x) = cr_chain_hash x" if "x \<in> {r, s}" for x
    using snoc.prems(3) that by (auto simp: b hashed_def compute_chain_hash_def hash_payload_def)
  have "sha (hash_payload r) = sha (hash_payload s)" using snoc.prems(5) h by (simp add: b)
  then have "hash_payload r = hash_payload s"
    by (rule inj_onD [OF snoc.prems(4)]) (auto simp: b)
  then have same: "canonicalize (cr_data r) = canonicalize (cr_data s)" "cr_previous_hash r = cr_previous_hash s"
    using payload_determines [of r s] snoc.prems(3) by (auto simp: b)
  have "map (\<lambda>r. canonicalize (cr_data r)) a = map (\<lambda>r. canonicalize (cr_data r)) b'"
  proof (rule snoc.IH)
    show "hash_linked GENESIS_HASH (map record_link a)" "hash_linked GENESIS_HASH (map record_link b')"
      using snoc.prems(1,2) by (simp_all only: b hash_linked_snoc)
    show "last (GENESIS_HASH # map cr_chain_hash a) = last (GENESIS_HASH # map cr_chain_hash b')"
      using snoc.prems(1,2) same(2) by (simp only: b hash_linked_snoc)
    show "inj_on sha (hash_payload ` (set a \<union> set b'))"
      by (rule inj_on_subset [OF snoc.prems(4)]) (auto simp: b)
  qed (use snoc.prems(3) b in auto)
  with same(1) show ?case by (simp add: b)
qed

section \<open>What the audit trail promises\<close>

text \<open>(C14) Every audit trail the log calls can produce verifies, for every tenant and in
  whatever order the query returns its rows: interleaved writers of other tenants do not
  disturb a tenant's chain.\<close>

theorem audit_trail_verifies:
  assumes "audit_reach sha env" and "mset trail = mset (env_trail env)"
  shows "verify_tenant_chain sha tenant_id trail =
    \<lparr>is_valid = True, total_records = length (tenant_rows tenant_id (env_trail env)), first_broken_at = None\<rparr>"
  by (rule verify_tenant_chain_complete [OF audit_reach_ok [OF assms(1)] assms(2)])

definition ex_event :: "uuid \<Rightarrow> string \<Rightarrow> audit_event" where
  "ex_event t act = \<lparr>ae_tenant_id = t, ae_action = act, ae_resource_type = ''r'', ae_user_id = None,
     ae_resource_id = None, ae_resource_name = None, ae_old_value = None, ae_new_value = Some (JInt 5),
     ae_ip_address = None, ae_user_agent = None\<rparr>"

definition ex_env :: env where "ex_env = \<lparr>env_trail = [], env_now = 100, env_next_id = 17\<rparr>"

text \<open>Without hashing at all a longer payload is a new hash.\<close>

lemma identity_longer: "length h < length (compute_chain_hash (\<lambda>s. s) (JDict kvs) h)"
  by (simp add: compute_chain_hash_def canonical_json_dumps_def)

lemma logged_hash_longer:
  "length (get_previous_hash_locked (ae_tenant_id ev) (env_trail env))
     < length (row_chain_hash (logged_row (\<lambda>s. s) ev env))"
  using identity_longer by (simp add: logged_row_def log_action_def Let_def tick_def append_row_def trail_record_data_def)

lemma ex_no_collision:
  defines "env \<equiv> log_action (\<lambda>s. s) (ex_event 3 ''a'') ex_env"
  shows "no_collision (\<lambda>s. s) (ex_event 3 ''a'') ex_env" "no_collision (\<lambda>s. s) (ex_event 3 ''b'') env"
proof -
  have g: "get_previous_hash_locked t ([] :: audit_entry row list) = GENESIS_HASH" for t
    by (simp add: get_previous_hash_locked_def chain_tails_def)
  have 1: "length GENESIS_HASH < length (row_chain_hash (logged_row (\<lambda>s. s) (ex_event 3 ''a'') ex_env))"
    using logged_hash_longer [of "ex_event 3 ''a''" ex_env] by (simp add: ex_env_def g)
  then show nc: "no_collision (\<lambda>s. s) (ex_event 3 ''a'') ex_env"
    by (auto simp: no_collision_def ex_env_def tenant_rows_def)
  have "audit_reach (\<lambda>s. s) env"
    unfolding env_def by (intro audit_reach.intros nc) (simp add: ex_env_def)
  then have ok: "chain_ok 3 (env_trail env)" using audit_reach_ok by (simp add: trail_ok_def)
  have t: "tenant_rows 3 (env_trail env) = [logged_row (\<lambda>s. s) (ex_event 3 ''a'') ex_env]"
    by (simp add: env_def log_action_appends tenant_rows_def ex_env_def ex_event_def)
  have "get_previous_hash_locked 3 (env_trail env) = row_chain_hash (logged_row (\<lambda>s. s) (ex_event 3 ''a'') ex_env)"
    unfolding get_previous_hash_head [OF ok] chain_head_def t by simp
  then show "no_collision (\<lambda>s. s) (ex_event 3 ''b'') env"
    using 1 logged_hash_longer [of "ex_event 3 ''b''" env] t
    by (auto simp: no_collision_def ex_event_def)
qed

lemma audit_trail_verifies_witness:
  "verify_tenant_chain (\<lambda>s. s) 3
     (rev (env_trail (log_action (\<lambda>s. s) (ex_event 3 ''b'') (log_action (\<lambda>s. s) (ex_event 3 ''a'') ex_env)))) =
    \<lparr>is_valid = True, total_records = 2, first_broken_at = None\<rparr>"
proof -
  have "audit_reach (\<lambda>s. s) (log_action (\<lambda>s. s) (ex_event 3 ''b'') (log_action (\<lambda>s. s) (ex_event 3 ''a'') ex_env))"
    by (intro audit_reach.intros ex_no_collision) (simp add: ex_env_def)
  from audit_trail_verifies [OF this mset_rev, of 3] show ?thesis
    by (simp add: log_action_appends tenant_rows_def ex_env_def ex_event_def)
qed

text \<open>An accepted audit trail really is one chain: its rows can be put in an order that
  starts at the genesis hash, links every row to the hash before it, and in which every row
  carries the hash of its own content.\<close>

theorem accepted_trail_is_chained:
  assumes "is_valid (verify_tenant_chain sha tenant_id trail)"
  shows "\<exists>chain. mset chain = mset (map trail_record (tenant_rows tenant_id trail))
    \<and> hash_linked GENESIS_HASH (map record_link chain) \<and> list_all (hashed sha) chain"
  by (rule verify_tenant_chain_sound [OF assms])

lemma accepted_trail_is_chained_witness:
  "\<exists>chain. mset chain = mset (map trail_record (tenant_rows 3
      (rev (env_trail (log_action (\<lambda>s. s) (ex_event 3 ''b'') (log_action (\<lambda>s. s) (ex_event 3 ''a'') ex_env))))))
    \<and> hash_linked GENESIS_HASH (map record_link chain) \<and> list_all (hashed (\<lambda>s. s)) chain"
proof (rule accepted_trail_is_chained)
  have "audit_reach (\<lambda>s. s) (log_action (\<lambda>s. s) (ex_event 3 ''b'') (log_action (\<lambda>s. s) (ex_event 3 ''a'') ex_env))"
    by (intro audit_reach.intros ex_no_collision) (simp add: ex_env_def)
  from verify_tenant_chain_complete [OF audit_reach_ok [OF this] mset_rev, of 3]
  show "is_valid (verify_tenant_chain (\<lambda>s. s) 3
      (rev (env_trail (log_action (\<lambda>s. s) (ex_event 3 ''b'') (log_action (\<lambda>s. s) (ex_event 3 ''a'') ex_env)))))"
    by simp
qed

text \<open>(C15) Tamper evidence: two record lists that both pass \<open>verify_chain\<close> and end in the
  same hash hold the same data, record by record, provided SHA-256 has no collision among
  their payloads and none of them hashes to the genesis value.  The payload's JSON text
  determines the record, so nothing can be shifted between a record and its link.\<close>

theorem same_head_same_records:
  assumes "is_valid (verify_chain sha a)" and "is_valid (verify_chain sha b)"
    and "last (GENESIS_HASH # map cr_chain_hash a) = last (GENESIS_HASH # map cr_chain_hash b)"
    and "\<forall>r \<in> set a \<union> set b. is_dict (cr_data r) \<and> cr_chain_hash r \<noteq> GENESIS_HASH"
    and "inj_on sha (hash_payload ` (set a \<union> set b))"
  shows "map (\<lambda>r. canonicalize (cr_data r)) a = map (\<lambda>r. canonicalize (cr_data r)) b"
  using assms by (intro chain_binding [of a b sha]) (auto simp: verify_chain_def verify_from_valid list_all_iff)

lemma same_head_same_records_witness:
  defines "d1 \<equiv> JDict [(''a'', JInt 4), (''b'', JNull)]" and "d2 \<equiv> JDict [(''b'', JNull), (''a'', JInt 4)]"
  defines "h \<equiv> compute_chain_hash (\<lambda>s. s) d1 GENESIS_HASH"
  shows "map (\<lambda>r. canonicalize (cr_data r)) [\<lparr>cr_data = d1, cr_chain_hash = h, cr_previous_hash = GENESIS_HASH\<rparr>]
       = map (\<lambda>r. canonicalize (cr_data r)) [\<lparr>cr_data = d2, cr_chain_hash = h, cr_previous_hash = GENESIS_HASH\<rparr>]"
proof -
  have c: "canonicalize d2 = canonicalize d1" by (simp add: d1_def d2_def)
  have h: "compute_chain_hash (\<lambda>s. s) d2 GENESIS_HASH = h"
    by (simp add: h_def compute_chain_hash_def canonical_json_dumps_def c)
  have "h \<noteq> GENESIS_HASH" using identity_longer [of GENESIS_HASH] unfolding h_def d1_def by (metis less_irrefl)
  then show ?thesis
    by (intro same_head_same_records [of "\<lambda>s. s"])
      (simp_all add: verify_chain_def h_def [symmetric] h is_dict_def, simp_all add: d1_def d2_def)
qed

end
