(* ===== verification/Run_Lifecycle.thy ===== *)
theory Run_Lifecycle
  imports Audit_Chain
begin

text \<open>
  \<open>services/accounting_common\<close>: \<open>run_signature.py\<close>, \<open>run_validation.py\<close> and
  \<open>run_lifecycle.py\<close>, the append-only life of an accounting run shared by the revenue, lease,
  prepaid and fixed-asset engines, with \<open>mark_run_running\<close> and \<open>finalize_run\<close> of their facades.
  A run header is found again by the signature of its request; its state is the last event of
  its log.  Sessions interleave: a handler reads a snapshot (\<open>seen\<close>) that may lag behind the
  table it inserts into, and the unique constraints of the tables decide.  An operation that
  raises is rolled back, so an error carries no state, except where the code itself records
  a failure before it raises.
\<close>

section \<open>Request signatures\<close>

text \<open>\<open>_canonicalize_for_signature\<close>: dictionaries in key order, lists sorted by their text.\<close>

fun canonicalize_for_signature :: "json \<Rightarrow> json" where
  "canonicalize_for_signature (JDict kvs) =
     JDict (sort_key fst (map (\<lambda>(k, v). (k, canonicalize_for_signature v)) kvs))"
| "canonicalize_for_signature (JList xs) = JList (sort_key canonical_json_dumps (map canonicalize_for_signature xs))"
| "canonicalize_for_signature v = v"

definition build_request_signature :: "sha \<Rightarrow> json \<Rightarrow> string" where
  "build_request_signature sha payload = sha (canonical_json_dumps (canonicalize_for_signature payload))"

section \<open>Tables\<close>

text \<open>What the generic code asks of a model class: its attributes and its table's name.\<close>

record model_class =
  mc_attributes :: "string list"
  mc_tablename :: string

definition has_attr :: "model_class \<Rightarrow> string \<Rightarrow> bool" where
  "has_attr m a \<longleftrightarrow> a \<in> set (mc_attributes m)"

definition ensure_model_columns :: "model_class \<Rightarrow> string list \<Rightarrow> unit result" where
  "ensure_model_columns m required =
     raise_if (filter (\<lambda>c. \<not> has_attr m c) required \<noteq> []) (ValidationError ''Model missing required columns'')"

definition required_run_columns :: "string list" where
  "required_run_columns = [''id'', ''tenant_id'', ''request_signature'']"

definition required_event_columns :: "string list" where
  "required_event_columns =
     [''id'', ''tenant_id'', ''run_id'', ''event_seq'', ''event_type'', ''event_time'', ''idempotency_key'']"

record run_header =
  rh_request_signature :: string
  rh_workflow_id :: string
  rh_correlation_id :: "string option"
  rh_configuration_json :: "json option"
  rh_initiated_by :: "uuid option"

record run_event =
  re_run_id :: uuid
  re_event_seq :: nat
  re_event_type :: string
  re_event_time :: nat
  re_idempotency_key :: string
  re_metadata_json :: "json option"
  re_correlation_id :: "string option"

record run_db =
  rd_runs :: "run_header row list"
  rd_events :: "run_event row list"
  rd_env :: env

record run_create_result =
  rr_run_id :: uuid
  rr_workflow_id :: string
  rr_request_signature :: string
  rr_status :: string
  rr_created_new :: bool

record run_status_snapshot =
  rs_run_id :: uuid
  rs_status :: string
  rs_event_seq :: nat
  rs_event_time :: nat
  rs_metadata :: "json option"

section \<open>Events\<close>

definition RUN_EVENT_ACCEPTED :: string where "RUN_EVENT_ACCEPTED = ''accepted''"
definition RUN_EVENT_RUNNING :: string where "RUN_EVENT_RUNNING = ''running''"
definition RUN_EVENT_COMPLETED :: string where "RUN_EVENT_COMPLETED = ''completed''"
definition RUN_EVENT_COMPLETED_WITH_WARNINGS :: string where
  "RUN_EVENT_COMPLETED_WITH_WARNINGS = ''completed_with_warnings''"
definition RUN_EVENT_FAILED :: string where "RUN_EVENT_FAILED = ''failed''"

definition TERMINAL_EVENT_TYPES :: "string list" where
  "TERMINAL_EVENT_TYPES = [RUN_EVENT_COMPLETED, RUN_EVENT_COMPLETED_WITH_WARNINGS, RUN_EVENT_FAILED]"

definition run_events :: "uuid \<Rightarrow> run_db \<Rightarrow> run_event row list" where
  "run_events run_id db = group_of (re_run_id \<circ> row_values) run_id (rd_events db)"

definition ensure_idempotent_event :: "model_class \<Rightarrow> uuid \<Rightarrow> string \<Rightarrow> string \<Rightarrow> run_db
    \<Rightarrow> run_event row option result" where
  "ensure_idempotent_event m run_id event_type idempotency_key db =
     bindE (ensure_model_columns m required_event_columns) (\<lambda>_.
     Inr (find (\<lambda>r. re_event_type (row_values r) = event_type \<and> re_idempotency_key (row_values r) = idempotency_key)
            (run_events run_id db)))"

text \<open>\<open>max(event_seq)\<close> of a run, 0 when it has no event.\<close>

definition max_event_seq :: "uuid \<Rightarrow> run_db \<Rightarrow> nat" where
  "max_event_seq run_id db = foldr max (map (re_event_seq \<circ> row_values) (run_events run_id db)) 0"

text \<open>The unique constraints of an event table: \<open>(run_id, event_seq)\<close> and
  \<open>(run_id, event_type, idempotency_key)\<close>.\<close>

definition event_conflict :: "run_event \<Rightarrow> run_db \<Rightarrow> bool" where
  "event_conflict e db \<longleftrightarrow>
     list_ex (\<lambda>r. re_event_seq (row_values r) = re_event_seq e
         \<or> re_event_type (row_values r) = re_event_type e
           \<and> re_idempotency_key (row_values r) = re_idempotency_key e) (run_events (re_run_id e) db)"

definition run_audit :: "uuid \<Rightarrow> uuid option \<Rightarrow> string \<Rightarrow> string \<Rightarrow> (string \<times> json) list \<Rightarrow> audit_event" where
  "run_audit tenant_id user_id action resource_type new_value =
     \<lparr>ae_tenant_id = tenant_id, ae_action = action, ae_resource_type = resource_type, ae_user_id = user_id,
      ae_resource_id = None, ae_resource_name = None, ae_old_value = None, ae_new_value = Some (JDict new_value),
      ae_ip_address = None, ae_user_agent = None\<rparr>"

definition insert_event :: "sha \<Rightarrow> model_class \<Rightarrow> uuid \<Rightarrow> uuid option \<Rightarrow> string \<Rightarrow> string option \<Rightarrow> run_event \<Rightarrow> run_db
    \<Rightarrow> run_event row \<times> run_db" where
  "insert_event sha m tenant_id user_id audit_namespace correlation_id e db =
     (let (r, events, env) = insert_financial_record sha (\<lambda>v. v) tenant_id
            (JDict [(''run_id'', JStr (uuid_text (re_run_id e))), (''event_seq'', JInt (int (re_event_seq e))),
                    (''event_type'', JStr (re_event_type e)), (''idempotency_key'', JStr (re_idempotency_key e)),
                    (''correlation_id'', json_opt correlation_id)])
            e
            (Some (run_audit tenant_id user_id (audit_namespace @ ''.run.event.created'') (mc_tablename m)
              [(''run_id'', JStr (uuid_text (re_run_id e))), (''event_type'', JStr (re_event_type e)),
               (''event_seq'', JInt (int (re_event_seq e))), (''correlation_id'', json_opt correlation_id)]))
            (rd_events db, rd_env db)
      in (r, db\<lparr>rd_events := events, rd_env := env\<rparr>))"

definition append_event :: "sha \<Rightarrow> model_class \<Rightarrow> uuid \<Rightarrow> uuid \<Rightarrow> uuid option \<Rightarrow> string \<Rightarrow> string \<Rightarrow> json option
    \<Rightarrow> string option \<Rightarrow> string \<Rightarrow> run_db \<Rightarrow> run_db \<Rightarrow> (run_event row \<times> run_db) result" where
  "append_event sha m tenant_id run_id user_id event_type idempotency_key metadata_json correlation_id
     audit_namespace seen db =
     bindE (ensure_idempotent_event m run_id event_type idempotency_key seen) (\<lambda>existing.
     case existing of
       Some r \<Rightarrow> Inr (r, db)
     | None \<Rightarrow>
         let e = \<lparr>re_run_id = run_id, re_event_seq = max_event_seq run_id seen + 1, re_event_type = event_type,
                  re_event_time = env_now (rd_env db), re_idempotency_key = idempotency_key,
                  re_metadata_json = (if has_attr m ''metadata_json'' then metadata_json else None),
                  re_correlation_id = (if has_attr m ''correlation_id'' then correlation_id else None)\<rparr>
         in if event_conflict e db then
              bindE (ensure_idempotent_event m run_id event_type idempotency_key db) (\<lambda>existing_retry.
              case existing_retry of None \<Rightarrow> Inl IntegrityError | Some r \<Rightarrow> Inr (r, db))
            else Inr (insert_event sha m tenant_id user_id audit_namespace correlation_id e db))"

definition derive_latest_status :: "model_class \<Rightarrow> model_class \<Rightarrow> uuid \<Rightarrow> uuid \<Rightarrow> run_db \<Rightarrow> run_status_snapshot result" where
  "derive_latest_status run_m event_m tenant_id run_id db =
     bindE (ensure_model_columns run_m required_run_columns) (\<lambda>_.
     bindE (ensure_model_columns event_m required_event_columns) (\<lambda>_.
     case find (\<lambda>r. row_tenant r = tenant_id \<and> row_id r = run_id) (rd_runs db) of
       None \<Rightarrow> Inl (NotFoundError ''Run not found'')
     | Some _ \<Rightarrow>
         (case latest_by (re_event_seq \<circ> row_values)
             (filter (\<lambda>r. row_tenant r = tenant_id) (run_events run_id db)) of
            None \<Rightarrow> Inl (NotFoundError ''Run has no lifecycle events'')
          | Some latest \<Rightarrow> Inr \<lparr>rs_run_id = run_id, rs_status = re_event_type (row_values latest),
              rs_event_seq = re_event_seq (row_values latest), rs_event_time = re_event_time (row_values latest),
              rs_metadata = re_metadata_json (row_values latest)\<rparr>)))"

section \<open>Runs\<close>

definition insert_run :: "sha \<Rightarrow> model_class \<Rightarrow> uuid \<Rightarrow> uuid option \<Rightarrow> string \<Rightarrow> string option \<Rightarrow> run_header \<Rightarrow> run_db
    \<Rightarrow> run_header row \<times> run_db" where
  "insert_run sha m tenant_id initiated_by audit_namespace correlation_id h db =
     (let data = [(''request_signature'', JStr (rh_request_signature h)), (''workflow_id'', JStr (rh_workflow_id h)),
                  (''correlation_id'', json_opt correlation_id)];
          (r, runs, env) = insert_financial_record sha (\<lambda>v. v) tenant_id (JDict data) h
            (Some (run_audit tenant_id initiated_by (audit_namespace @ ''.run.created'') (mc_tablename m) data))
            (rd_runs db, rd_env db)
      in (r, db\<lparr>rd_runs := runs, rd_env := env\<rparr>))"

definition run_of_signature :: "uuid \<Rightarrow> string \<Rightarrow> run_db \<Rightarrow> run_header row option" where
  "run_of_signature tenant_id signature db =
     find (\<lambda>r. row_tenant r = tenant_id \<and> rh_request_signature (row_values r) = signature) (rd_runs db)"

definition create_run_header :: "sha \<Rightarrow> model_class \<Rightarrow> model_class \<Rightarrow> uuid \<Rightarrow> uuid option \<Rightarrow> json \<Rightarrow> string
    \<Rightarrow> string option \<Rightarrow> string \<Rightarrow> string \<Rightarrow> run_db \<Rightarrow> run_db \<Rightarrow> (run_create_result \<times> run_db) result" where
  "create_run_header sha run_m event_m tenant_id initiated_by request_payload workflow_id correlation_id
     audit_namespace accepted_event_type seen db =
     bindE (ensure_model_columns run_m required_run_columns) (\<lambda>_.
     bindE (ensure_model_columns event_m required_event_columns) (\<lambda>_.
     let signature = build_request_signature sha request_payload in
     case run_of_signature tenant_id signature seen of
       Some existing \<Rightarrow>
         bindE (derive_latest_status run_m event_m tenant_id (row_id existing) seen) (\<lambda>latest_status.
         Inr (\<lparr>rr_run_id = row_id existing, rr_workflow_id = rh_workflow_id (row_values existing),
               rr_request_signature = signature, rr_status = rs_status latest_status, rr_created_new = False\<rparr>, db))
     | None \<Rightarrow>
         if run_of_signature tenant_id signature db \<noteq> None then Inl IntegrityError
         else
           let h = \<lparr>rh_request_signature = signature, rh_workflow_id = workflow_id,
                 rh_correlation_id = (if has_attr run_m ''correlation_id'' then correlation_id else None),
                 rh_configuration_json = (if has_attr run_m ''configuration_json'' then Some request_payload else None),
                 rh_initiated_by = (if has_attr run_m ''initiated_by'' then initiated_by else None)\<rparr>;
               (run, db) = insert_run sha run_m tenant_id initiated_by audit_namespace correlation_id h db
           in bindE (append_event sha event_m tenant_id (row_id run) initiated_by accepted_event_type ''run-created''
                      (Some (JDict [(''workflow_id'', JStr workflow_id)])) correlation_id audit_namespace db db) (\<lambda>(_, db).
              Inr (\<lparr>rr_run_id = row_id run, rr_workflow_id = workflow_id, rr_request_signature = signature,
                    rr_status = accepted_event_type, rr_created_new = True\<rparr>, db))))"

section \<open>Lineage and the end of a run\<close>

record lineage_validation_result =
  lv_is_complete :: bool
  lv_error_code :: string
  lv_details :: "(string \<times> json) list"

definition as_metadata :: "lineage_validation_result \<Rightarrow> json" where
  "as_metadata r = JDict [(''error_code'', JStr (lv_error_code r)), (''lineage_is_complete'', JBool (lv_is_complete r)),
     (''details'', JDict (lv_details r))]"

definition ensure_lineage_complete :: "lineage_validation_result \<Rightarrow> unit result" where
  "ensure_lineage_complete r =
     (if lv_is_complete r then Inr () else Inl (AccountingValidationError (lv_error_code r) (lv_error_code r)))"

text \<open>The failure is recorded before the error is raised, so the table comes back either way.
  \<open>seen\<close> is what the append reads.\<close>

definition validate_lineage_before_finalize :: "sha \<Rightarrow> model_class \<Rightarrow> uuid \<Rightarrow> uuid \<Rightarrow> uuid option \<Rightarrow> string option
    \<Rightarrow> string \<Rightarrow> lineage_validation_result \<Rightarrow> run_db \<Rightarrow> run_db \<Rightarrow> lineage_validation_result result \<times> run_db" where
  "validate_lineage_before_finalize sha m tenant_id run_id user_id correlation_id audit_namespace outcome seen db =
     (case ensure_lineage_complete outcome of
        Inr _ \<Rightarrow> (Inr outcome, db)
      | Inl e \<Rightarrow>
          (case append_event sha m tenant_id run_id user_id RUN_EVENT_FAILED ''terminal:failed:lineage_incomplete''
                  (Some (as_metadata outcome)) correlation_id audit_namespace seen db of
             Inl e' \<Rightarrow> (Inl e', db)
           | Inr (_, db') \<Rightarrow> (Inl e, db')))"

definition mark_run_running :: "sha \<Rightarrow> model_class \<Rightarrow> string \<Rightarrow> uuid \<Rightarrow> uuid \<Rightarrow> uuid \<Rightarrow> string \<Rightarrow> run_db \<Rightarrow> run_db
    \<Rightarrow> (run_event row \<times> run_db) result" where
  "mark_run_running sha m audit_namespace tenant_id run_id user_id correlation_id seen db =
     append_event sha m tenant_id run_id (Some user_id) RUN_EVENT_RUNNING ''stage-running'' None (Some correlation_id)
       audit_namespace seen db"

definition terminal_event :: "uuid \<Rightarrow> uuid \<Rightarrow> run_db \<Rightarrow> run_event row option" where
  "terminal_event tenant_id run_id db =
     latest_by (re_event_seq \<circ> row_values)
       (filter (\<lambda>r. row_tenant r = tenant_id \<and> re_event_type (row_values r) \<in> set TERMINAL_EVENT_TYPES)
          (run_events run_id db))"

text \<open>\<open>finalize_run\<close> of a facade: \<open>seen\<close> is what the query for a terminal event reads, \<open>seen'\<close>
  what the later statements of the append read.\<close>

definition finalize_run :: "sha \<Rightarrow> model_class \<Rightarrow> string \<Rightarrow> uuid \<Rightarrow> uuid \<Rightarrow> uuid \<Rightarrow> string \<Rightarrow> string \<Rightarrow> json option
    \<Rightarrow> lineage_validation_result \<Rightarrow> run_db \<Rightarrow> run_db \<Rightarrow> run_db \<Rightarrow> run_event row result \<times> run_db" where
  "finalize_run sha m audit_namespace tenant_id run_id user_id correlation_id event_type metadata_json outcome
     seen seen' db =
     (if event_type \<notin> set TERMINAL_EVENT_TYPES
        then (Inl (AccountingValidationError ''INVALID_EVENT_SEQUENCE'' ''Invalid terminal run event type''), db)
      else
        case (if event_type \<in> {RUN_EVENT_COMPLETED, RUN_EVENT_COMPLETED_WITH_WARNINGS}
              then validate_lineage_before_finalize sha m tenant_id run_id (Some user_id) (Some correlation_id)
                     audit_namespace outcome seen db
              else (Inr outcome, db)) of
          (Inl e, db) \<Rightarrow> (Inl e, db)
        | (Inr _, db) \<Rightarrow>
            (case terminal_event tenant_id run_id seen of
               Some terminal \<Rightarrow> (Inr terminal, db)
             | None \<Rightarrow>
                 (case append_event sha m tenant_id run_id (Some user_id) event_type (''terminal:'' @ event_type)
                         metadata_json (Some correlation_id) audit_namespace seen' db of
                    Inl e \<Rightarrow> (Inl e, db)
                  | Inr (r, db) \<Rightarrow> (Inr r, db))))"

section \<open>Signatures identify requests\<close>

text \<open>Two requests are the same up to the order of dictionary entries and of list items.\<close>

inductive same_request :: "json \<Rightarrow> json \<Rightarrow> bool" where
  req_atom: "same_request v v"
| req_list: "list_all2 same_request xs zs \<Longrightarrow> mset zs = mset ys \<Longrightarrow> same_request (JList xs) (JList ys)"
| req_dict: "list_all2 (\<lambda>kv lw. fst kv = fst lw \<and> same_request (snd kv) (snd lw)) kvs lws
     \<Longrightarrow> mset lws = mset mws \<Longrightarrow> distinct (map fst kvs) \<Longrightarrow> same_request (JDict kvs) (JDict mws)"

abbreviation canon_entry :: "string \<times> json \<Rightarrow> string \<times> json" where
  "canon_entry kv \<equiv> (fst kv, canonicalize_for_signature (snd kv))"

lemma canon_entries: "(\<lambda>(k, v). (k, canonicalize_for_signature v)) = canon_entry"
  by auto

text \<open>A signature form is canonical already, so its text determines it.\<close>

lemma canonicalize_signature_form: "canonicalize (canonicalize_for_signature v) = canonicalize_for_signature v"
proof (induction v rule: canonicalize_for_signature.induct)
  case (1 kvs)
  let ?s = "sort_key fst (map canon_entry kvs)"
  have "map (\<lambda>(k, v). (k, canonicalize v)) ?s = ?s"
    by (rule map_idI) (use 1 in force)
  then show ?case by (simp add: canon_entries sort_key_id_if_sorted)
next
  case (2 xs)
  then show ?case by (auto intro!: map_idI)
qed simp_all

lemma signature_text_inj:
  "canonical_json_dumps (canonicalize_for_signature v) = canonical_json_dumps (canonicalize_for_signature w)
     \<longleftrightarrow> canonicalize_for_signature v = canonicalize_for_signature w"
  by (simp add: dumps_eq_iff canonicalize_signature_form)

lemma signature_items_inj: "inj_on canonical_json_dumps (range canonicalize_for_signature)"
  by (auto intro!: inj_onI simp: signature_text_inj)

lemma same_request_canon: "same_request v w \<Longrightarrow> canonicalize_for_signature v = canonicalize_for_signature w"
proof (induction rule: same_request.induct)
  case (req_list xs zs ys)
  have e: "map canonicalize_for_signature xs = map canonicalize_for_signature zs"
    using req_list(1) by (auto simp: list_all2_conv_all_nth intro!: nth_equalityI)
  have "sort_key canonical_json_dumps (map canonicalize_for_signature zs)
      = sort_key canonical_json_dumps (map canonicalize_for_signature ys)"
    by (rule sort_key_inj_key_eq) (use req_list(2) in \<open>auto intro: inj_on_subset [OF signature_items_inj]\<close>)
  then show ?case by (simp add: e)
next
  case (req_dict kvs lws mws)
  have e: "map canon_entry kvs = map canon_entry lws"
    using req_dict(1) by (auto simp: list_all2_conv_all_nth intro!: nth_equalityI)
  moreover have "distinct (map fst (map canon_entry lws))"
    unfolding e [symmetric] using req_dict(3) by (simp add: comp_def)
  ultimately have "sort_key fst (map canon_entry lws) = sort_key fst (map canon_entry mws)"
    using req_dict(2) by (intro sort_key_fst_eq) simp_all
  then show ?case by (simp add: canon_entries e)
qed simp

lemma mset_sort_key_eqD: "sort_key f xs = sort_key f ys \<Longrightarrow> mset xs = mset ys"
  by (metis mset_sort)

lemma same_request_complete:
  "canonicalize_for_signature v = canonicalize_for_signature w \<Longrightarrow> json_wf v \<Longrightarrow> json_wf w \<Longrightarrow> same_request v w"
proof (induction v arbitrary: w rule: canonicalize_for_signature.induct)
  case (1 kvs)
  from 1(2) obtain mws where w: "w = JDict mws" by (cases w) simp_all
  have "mset (map canon_entry kvs) = mset (map canon_entry mws)"
    using 1(2) by (intro mset_sort_key_eqD [of fst]) (simp add: w canon_entries)
  then obtain lws where lws: "mset lws = mset mws" "map canon_entry lws = map canon_entry kvs" by (rule perm_of_image)
  have "list_all2 (\<lambda>kv lw. fst kv = fst lw \<and> same_request (snd kv) (snd lw)) kvs lws"
  proof (rule list_all2_all_nthI)
    show len: "length kvs = length lws" using lws(2) by (metis length_map)
    fix i assume i: "i < length kvs"
    have e: "canon_entry (lws ! i) = canon_entry (kvs ! i)" using arg_cong [OF lws(2), of "\<lambda>l. l ! i"] i len by simp
    have mem: "kvs ! i \<in> set kvs" "lws ! i \<in> set mws"
      using i len mset_eq_setD [OF lws(1)] nth_mem [of i lws] by auto
    have "same_request (snd (kvs ! i)) (snd (lws ! i))"
      by (rule 1(1) [OF mem(1), of "fst (kvs ! i)"]) (use e mem 1(3,4) w in auto)
    then show "fst (kvs ! i) = fst (lws ! i) \<and> same_request (snd (kvs ! i)) (snd (lws ! i))"
      using e by simp
  qed
  then show ?case unfolding w by (rule req_dict [OF _ lws(1)]) (use 1(3) in simp)
next
  case (2 xs)
  from 2(2) obtain ys where w: "w = JList ys" by (cases w) simp_all
  have "mset (map canonicalize_for_signature xs) = mset (map canonicalize_for_signature ys)"
    using 2(2) by (intro mset_sort_key_eqD [of canonical_json_dumps]) (simp add: w)
  then obtain zs where zs: "mset zs = mset ys" "map canonicalize_for_signature zs = map canonicalize_for_signature xs"
    by (rule perm_of_image)
  have "list_all2 same_request xs zs"
  proof (rule list_all2_all_nthI)
    show len: "length xs = length zs" using zs(2) by (metis length_map)
    fix i assume i: "i < length xs"
    have "zs ! i \<in> set ys" using i len mset_eq_setD [OF zs(1)] nth_mem [of i zs] by auto
    then show "same_request (xs ! i) (zs ! i)"
      using 2(1) [of "xs ! i" "zs ! i"] i len zs(2) 2(3,4) w by (metis json_wf.simps(1) nth_map nth_mem)
  qed
  then show ?case unfolding w by (rule req_list [OF _ zs(1)])
qed (use req_atom in \<open>(case_tac w, auto)+\<close>)

text \<open>(C24) A signature identifies a request: absent a SHA-256 collision of the two texts, two
  request payloads have the same signature exactly when they are equal up to the order of
  dictionary entries and of list items, at every depth.\<close>

theorem signature_identifies_request:
  assumes "json_wf p" and "json_wf q"
    and "inj_on sha {canonical_json_dumps (canonicalize_for_signature p), canonical_json_dumps (canonicalize_for_signature q)}"
  shows "build_request_signature sha p = build_request_signature sha q \<longleftrightarrow> same_request p q"
proof -
  have "build_request_signature sha p = build_request_signature sha q
      \<longleftrightarrow> canonicalize_for_signature p = canonicalize_for_signature q"
    unfolding build_request_signature_def
    by (subst inj_on_eq_iff [OF assms(3)]) (simp_all add: signature_text_inj)
  then show ?thesis using assms(1,2) same_request_canon same_request_complete by blast
qed

lemma signature_identifies_request_witness:
  "same_request (JDict [(''a'', JList [JInt 2, JInt 1])]) (JDict [(''a'', JList [JInt 1, JInt 2])])
   \<and> \<not> same_request (JDict [(''a'', JInt 1)]) (JDict [(''a'', JInt 2)])"
proof
  let ?p = "JDict [(''a'', JList [JInt 2, JInt 1])]" and ?q = "JDict [(''a'', JList [JInt 1, JInt 2])]"
  have "build_request_signature (\<lambda>s. s) ?p = build_request_signature (\<lambda>s. s) ?q" by code_simp
  then show "same_request ?p ?q" by (subst (asm) signature_identifies_request) simp_all
  let ?p = "JDict [(''a'', JInt 1)]" and ?q = "JDict [(''a'', JInt 2)]"
  have "build_request_signature (\<lambda>s. s) ?p \<noteq> build_request_signature (\<lambda>s. s) ?q" by code_simp
  then show "\<not> same_request ?p ?q" by (subst (asm) signature_identifies_request) simp_all
qed

section \<open>The event log under interleaving\<close>

lemma run_events_append: "rd_events db' = rd_events db @ es \<Longrightarrow>
    run_events i db' = run_events i db @ group_of (re_run_id \<circ> row_values) i es"
  by (simp add: run_events_def group_of_def)

lemma insert_event_facts:
  assumes "insert_event sha m t u ns c e db = (r, db')"
  shows "rd_events db' = rd_events db @ [r]" "row_values r = e" "row_tenant r = t" "rd_runs db' = rd_runs db"
    "env_next_id (rd_env db) < env_next_id (rd_env db')"
  using assms by (auto simp: insert_event_def split: prod.splits dest: insert_financial_record_facts)

lemma insert_run_facts:
  assumes "insert_run sha m t u ns c h db = (r, db')"
  shows "rd_runs db' = rd_runs db @ [r]" "row_values r = h" "row_tenant r = t" "rd_events db' = rd_events db"
    "row_id r = env_next_id (rd_env db)" "env_next_id (rd_env db) < env_next_id (rd_env db')"
  using assms by (auto simp: insert_run_def Let_def split: prod.splits dest: insert_financial_record_facts)

text \<open>A snapshot is an earlier state of the insert-only tables.\<close>

definition seen_by :: "run_db \<Rightarrow> run_db \<Rightarrow> bool" where
  "seen_by seen db \<longleftrightarrow> (\<exists>es rs. rd_events db = rd_events seen @ es \<and> rd_runs db = rd_runs seen @ rs)"

lemma seen_by_refl [simp]: "seen_by db db"
  by (simp add: seen_by_def)

lemma seen_by_trans: "seen_by a b \<Longrightarrow> seen_by b c \<Longrightarrow> seen_by a c"
  by (auto simp: seen_by_def)

text \<open>The log of a run: its events carry the numbers 1, 2, ... in the order of insertion, and
  no event type and idempotency key occur twice.\<close>

definition event_key :: "run_event row \<Rightarrow> string \<times> string" where
  "event_key r = (re_event_type (row_values r), re_idempotency_key (row_values r))"

definition log_ok :: "run_db \<Rightarrow> bool" where
  "log_ok db \<longleftrightarrow> (\<forall>i. map (re_event_seq \<circ> row_values) (run_events i db) = [1..<Suc (length (run_events i db))]
     \<and> distinct (map event_key (run_events i db)))"

lemma map_prefix_upt: "map f (xs @ ys) = [1..<Suc (length (xs @ ys))] \<Longrightarrow> map f xs = [1..<Suc (length xs)]"
proof -
  assume "map f (xs @ ys) = [1..<Suc (length (xs @ ys))]"
  then have "take (length xs) (map f (xs @ ys)) = take (length xs) [1..<Suc (length (xs @ ys))]" by simp
  then show ?thesis by (simp add: take_map del: upt_Suc)
qed

lemma log_ok_seen:
  assumes "log_ok db" and "seen_by seen db"
  shows "log_ok seen"
proof -
  obtain es where es: "rd_events db = rd_events seen @ es" using assms(2) by (auto simp: seen_by_def)
  show ?thesis
    unfolding log_ok_def
  proof (intro allI conjI)
    fix i
    note ok = assms(1) [unfolded log_ok_def run_events_append [OF es], rule_format, of i]
    show "map (re_event_seq \<circ> row_values) (run_events i seen) = [1..<Suc (length (run_events i seen))]"
      by (rule map_prefix_upt [OF conjunct1 [OF ok]])
    show "distinct (map event_key (run_events i seen))" using conjunct2 [OF ok] by simp
  qed
qed

lemma foldr_max_upt: "foldr max [1..<Suc n] (0 :: nat) = n"
proof (rule antisym)
  have "(\<forall>x \<in> set xs. x \<le> n) \<longrightarrow> foldr max xs 0 \<le> n" for xs :: "nat list"
    by (induction xs) auto
  from this [of "[1..<Suc n]"] show "foldr max [1..<Suc n] 0 \<le> n" by (auto simp del: upt_Suc)
  have "\<forall>x \<in> set xs. x \<le> foldr max xs 0" for xs :: "nat list"
    by (induction xs) (auto simp: le_max_iff_disj)
  from this [of "[1..<Suc n]"] show "n \<le> foldr max [1..<Suc n] 0" by (cases n) (auto simp del: upt_Suc)
qed

lemma max_event_seq_length: "log_ok db \<Longrightarrow> max_event_seq i db = length (run_events i db)"
  unfolding max_event_seq_def log_ok_def by (simp only: foldr_max_upt)

text \<open>What a call of \<open>append_event\<close> can do.\<close>

lemma append_event_cases:
  assumes "append_event sha m t i u ty k md c ns seen db = Inr (r, db')" and "seen_by seen db"
  obtains (found) "db' = db" "r \<in> set (run_events i db)" "event_key r = (ty, k)"
    | (stored) e where "insert_event sha m t u ns c e db = (r, db')" "\<not> event_conflict e db" "re_run_id e = i"
        "re_event_seq e = max_event_seq i seen + 1" "re_event_type e = ty" "re_idempotency_key e = k"
proof -
  have sub: "set (run_events i seen) \<subseteq> set (run_events i db)"
    using assms(2) run_events_append by (fastforce simp: seen_by_def)
  define e where "e = \<lparr>re_run_id = i, re_event_seq = max_event_seq i seen + 1, re_event_type = ty,
      re_event_time = env_now (rd_env db), re_idempotency_key = k,
      re_metadata_json = (if has_attr m ''metadata_json'' then md else None),
      re_correlation_id = (if has_attr m ''correlation_id'' then c else None)\<rparr>"
  let ?P = "\<lambda>r. re_event_type (row_values r) = ty \<and> re_idempotency_key (row_values r) = k"
  have run: "(case find ?P (run_events i seen) of Some r \<Rightarrow> Inr (r, db)
      | None \<Rightarrow> if event_conflict e db
          then (case find ?P (run_events i db) of None \<Rightarrow> Inl IntegrityError | Some r \<Rightarrow> Inr (r, db))
          else Inr (insert_event sha m t u ns c e db)) = Inr (r, db')"
    using assms(1) unfolding append_event_def ensure_idempotent_event_def Let_def e_def [symmetric]
    by (cases "ensure_model_columns m required_event_columns"; cases "find ?P (run_events i seen)";
        cases "event_conflict e db") simp_all
  show ?thesis
  proof (cases "find ?P (run_events i seen)")
    case (Some x)
    then show ?thesis using run sub by (intro found) (auto simp: event_key_def dest: find_Some_in)
  next
    case None
    show ?thesis
    proof (cases "event_conflict e db")
      case True
      then show ?thesis using run None
        by (intro found) (auto simp: event_key_def dest: find_Some_in split: option.splits)
    next
      case False
      then show ?thesis using run None by (intro stored [of e]) (simp_all add: e_def)
    qed
  qed
qed

text \<open>An insert from a stale snapshot collides with the number it would reuse, so only an
  up-to-date one gets through.\<close>

lemma append_event_ok:
  assumes "append_event sha m t i u ty k md c ns seen db = Inr (r, db')" and seen: "seen_by seen db" and ok: "log_ok db"
  shows "log_ok db'" "seen_by db db'" "r \<in> set (run_events i db')" "event_key r = (ty, k)"
    "rd_runs db' = rd_runs db" "env_next_id (rd_env db) \<le> env_next_id (rd_env db')"
    "db' = db \<or> rd_events db' = rd_events db @ [r] \<and> row_tenant r = t \<and> re_run_id (row_values r) = i"
proof -
  have "log_ok db' \<and> seen_by db db' \<and> r \<in> set (run_events i db') \<and> event_key r = (ty, k)
      \<and> rd_runs db' = rd_runs db \<and> env_next_id (rd_env db) \<le> env_next_id (rd_env db')
      \<and> (db' = db \<or> rd_events db' = rd_events db @ [r] \<and> row_tenant r = t \<and> re_run_id (row_values r) = i)"
    using assms(1,2)
  proof (cases rule: append_event_cases)
    case found
    then show ?thesis using ok by simp
  next
    case (stored e)
    note f = insert_event_facts [OF stored(1)]
    have ev: "run_events j db' = run_events j db @ (if j = i then [r] else [])" for j
      using f(1,2) stored(3) by (simp add: run_events_append [OF f(1)] group_of_simps)
    have new: "re_event_seq e \<notin> set (map (re_event_seq \<circ> row_values) (run_events i db))"
      "event_key r \<notin> set (map event_key (run_events i db))"
      using stored(2,3) f(2) by (auto simp: event_conflict_def list_ex_iff event_key_def)
    obtain es where es: "rd_events db = rd_events seen @ es" using seen by (auto simp: seen_by_def)
    have "length (run_events i seen) \<le> length (run_events i db)" by (simp add: run_events_append [OF es])
    moreover have "re_event_seq e = Suc (length (run_events i seen))"
      using stored(4) max_event_seq_length [OF log_ok_seen [OF ok seen]] by simp
    moreover have nums: "map (re_event_seq \<circ> row_values) (run_events i db) = [1..<Suc (length (run_events i db))]"
      using ok by (simp add: log_ok_def)
    ultimately have seq: "re_event_seq e = Suc (length (run_events i db))"
      using new(1) unfolding nums by (auto simp del: upt_Suc)
    have "log_ok db'"
      using ok new(2) seq f(2) by (simp add: log_ok_def ev upt_Suc_append)
    moreover have "r \<in> set (run_events i db')" by (simp add: ev)
    ultimately show ?thesis
      using f stored(3,5,6) by (auto simp: seen_by_def event_key_def)
  qed
  then show "log_ok db'" "seen_by db db'" "r \<in> set (run_events i db')" "event_key r = (ty, k)"
    "rd_runs db' = rd_runs db" "env_next_id (rd_env db) \<le> env_next_id (rd_env db')"
    "db' = db \<or> rd_events db' = rd_events db @ [r] \<and> row_tenant r = t \<and> re_run_id (row_values r) = i"
    by simp_all
qed

section \<open>Histories\<close>

text \<open>Committed handlers of any tenants with any snapshots; an event's run exists (foreign key).\<close>

inductive run_step :: "sha \<Rightarrow> run_db \<Rightarrow> run_db \<Rightarrow> bool" for sha where
  step_create: "seen_by seen db \<Longrightarrow>
    create_run_header sha rm em t u payload wid c ns ty seen db = Inr (res, db') \<Longrightarrow> run_step sha db db'"
| step_append: "i \<in> row_id ` set (rd_runs db) \<Longrightarrow> seen_by seen db \<Longrightarrow>
    append_event sha em t i u ty k md c ns seen db = Inr (r, db') \<Longrightarrow> run_step sha db db'"
| step_running: "i \<in> row_id ` set (rd_runs db) \<Longrightarrow> seen_by seen db \<Longrightarrow>
    mark_run_running sha em ns t i v cc seen db = Inr (r, db') \<Longrightarrow> run_step sha db db'"
| step_finalize: "i \<in> row_id ` set (rd_runs db) \<Longrightarrow> seen_by seen db \<Longrightarrow> seen_by seen' db \<Longrightarrow>
    finalize_run sha em ns t i v cc ty md outcome seen seen' db = (res, db') \<Longrightarrow> run_step sha db db'"

inductive_cases run_stepE: "run_step sha db db'"

definition run_db_ok :: "run_db \<Rightarrow> bool" where
  "run_db_ok db \<longleftrightarrow> log_ok db \<and> (\<forall>r \<in> set (rd_runs db). row_id r < env_next_id (rd_env db))
     \<and> (\<forall>e \<in> set (rd_events db). re_run_id (row_values e) \<in> row_id ` set (rd_runs db))"

lemma append_event_run_ok:
  assumes "append_event sha m t i u ty k md c ns seen db = Inr (r, db')" and "seen_by seen db"
    and ok: "run_db_ok db" and i: "i \<in> row_id ` set (rd_runs db)"
  shows "run_db_ok db' \<and> seen_by db db'"
proof -
  have "log_ok db" using ok by (simp add: run_db_ok_def)
  note f = append_event_ok [OF assms(1,2) this]
  have "re_run_id (row_values e) \<in> row_id ` set (rd_runs db')" if "e \<in> set (rd_events db')" for e
    using f(5,7) that ok i by (auto simp: run_db_ok_def)
  then show ?thesis using f(1,2,5,6) ok by (fastforce simp: run_db_ok_def)
qed

lemma create_run_cases:
  assumes "create_run_header sha rm em t u payload wid c ns ty seen db = Inr (res, db')"
  obtains (found) r s where "run_of_signature t (build_request_signature sha payload) seen = Some r"
      "derive_latest_status rm em t (row_id r) seen = Inr s" "db' = db"
      "res = \<lparr>rr_run_id = row_id r, rr_workflow_id = rh_workflow_id (row_values r),
         rr_request_signature = build_request_signature sha payload, rr_status = rs_status s, rr_created_new = False\<rparr>"
    | (stored) h run db1 ev where "run_of_signature t (build_request_signature sha payload) db = None"
      "insert_run sha rm t u ns c h db = (run, db1)" "rh_request_signature h = build_request_signature sha payload"
      "rh_workflow_id h = wid"
      "append_event sha em t (row_id run) u ty ''run-created'' (Some (JDict [(''workflow_id'', JStr wid)])) c ns db1 db1
         = Inr (ev, db')"
      "res = \<lparr>rr_run_id = row_id run, rr_workflow_id = wid,
         rr_request_signature = build_request_signature sha payload, rr_status = ty, rr_created_new = True\<rparr>"
proof -
  let ?sig = "build_request_signature sha payload"
  have cols: "ensure_model_columns rm required_run_columns = Inr ()" "ensure_model_columns em required_event_columns = Inr ()"
    using assms by (auto simp: create_run_header_def result_simps)
  show ?thesis
  proof (cases "run_of_signature t ?sig seen")
    case (Some r)
    then obtain s where "derive_latest_status rm em t (row_id r) seen = Inr s" and "db' = db"
      "res = \<lparr>rr_run_id = row_id r, rr_workflow_id = rh_workflow_id (row_values r), rr_request_signature = ?sig,
         rr_status = rs_status s, rr_created_new = False\<rparr>"
      using assms by (auto simp: create_run_header_def cols Let_def result_simps)
    then show ?thesis using Some by (intro found)
  next
    case None
    then show ?thesis using assms stored
      by (force simp: create_run_header_def cols Let_def result_simps split: prod.splits if_splits)
  qed
qed

lemma create_run_ok:
  assumes "create_run_header sha rm em t u payload wid c ns ty seen db = Inr (res, db')"
    and ok: "run_db_ok db"
  shows "run_db_ok db' \<and> seen_by db db'"
  using assms(1)
proof (cases rule: create_run_cases)
  case found
  then show ?thesis using ok by simp
next
  case (stored h run db1 ev)
  note f = insert_run_facts [OF stored(2)]
  have ok1: "run_db_ok db1" using ok f by (fastforce simp: run_db_ok_def log_ok_def run_events_def)
  moreover have "row_id run \<in> row_id ` set (rd_runs db1)" using f(1) by simp
  ultimately have "run_db_ok db' \<and> seen_by db1 db'" by (intro append_event_run_ok [OF stored(5)]) simp_all
  moreover have "seen_by db db1" using f by (simp add: seen_by_def)
  ultimately show ?thesis using seen_by_trans by blast
qed

lemma finalize_run_cases:
  assumes "finalize_run sha em ns t i v cc ty md outcome seen seen' db = (res, db')"
    and "seen_by seen db" "seen_by seen' db"
  obtains "db' = db"
    | s ty' k md' r where "seen_by s db" "append_event sha em t i (Some v) ty' k md' (Some cc) ns s db = Inr (r, db')"
proof -
  from assms(1) have "db' = db \<or> (\<exists>s ty' k md' r. (s = seen \<or> s = seen')
      \<and> append_event sha em t i (Some v) ty' k md' (Some cc) ns s db = Inr (r, db'))"
    unfolding finalize_run_def validate_lineage_before_finalize_def
    by (force split: if_splits sum.splits option.splits prod.splits)
  then show ?thesis using that assms(2,3) by blast
qed

lemma run_step_ok:
  assumes "run_step sha db db'" and ok: "run_db_ok db"
  shows "run_db_ok db' \<and> seen_by db db'"
proof -
  note append = append_event_run_ok [OF _ _ ok]
  from assms(1) show ?thesis
  proof cases
    case step_create
    then show ?thesis using create_run_ok ok by blast
  next
    case step_append
    show ?thesis by (rule append [OF step_append(3,2,1)])
  next
    case step_running
    show ?thesis by (rule append [OF step_running(3) [unfolded mark_run_running_def] step_running(2,1)])
  next
    case step_finalize
    from step_finalize(4,2,3) show ?thesis
      by (rule finalize_run_cases) (use ok append step_finalize(1) in auto)
  qed
qed

definition no_runs :: "run_db \<Rightarrow> bool" where
  "no_runs db \<longleftrightarrow> rd_runs db = [] \<and> rd_events db = []"

lemma run_history_ok:
  assumes "(run_step sha)\<^sup>*\<^sup>* db0 db" and "no_runs db0"
  shows "run_db_ok db"
  using assms
proof (induction rule: rtranclp_induct)
  case base
  then show ?case by (simp add: no_runs_def run_db_ok_def log_ok_def run_events_def group_of_def)
qed (simp add: run_step_ok)

text \<open>(C22) The event log of a run is gapless under interleaving: over every history of handlers that
  read snapshots of any age, the events of a run are numbered 1, 2, ... in the order they were
  stored, and no event type and idempotency key is stored twice.\<close>

theorem event_log_gapless:
  assumes "(run_step sha)\<^sup>*\<^sup>* db0 db" and "no_runs db0"
  shows "map (re_event_seq \<circ> row_values) (run_events i db) = [1..<Suc (length (run_events i db))]
    \<and> distinct (map (\<lambda>r. (re_event_type (row_values r), re_idempotency_key (row_values r))) (run_events i db))"
  using run_history_ok [OF assms] by (simp add: run_db_ok_def log_ok_def event_key_def [abs_def])

section \<open>Retries\<close>

lemma seen_by_events: "seen_by a b \<Longrightarrow> set (run_events i a) \<subseteq> set (run_events i b)"
  using run_events_append by (fastforce simp: seen_by_def)

lemma seen_by_runs: "seen_by a b \<Longrightarrow> run_of_signature t s a = Some r \<Longrightarrow> run_of_signature t s b = Some r"
proof -
  have "find P xs = Some r \<Longrightarrow> find P (xs @ ys) = Some r" for P :: "run_header row \<Rightarrow> bool" and xs ys
    by (induction xs) (auto split: if_splits)
  then show "seen_by a b \<Longrightarrow> run_of_signature t s a = Some r \<Longrightarrow> run_of_signature t s b = Some r"
    by (auto simp: seen_by_def run_of_signature_def)
qed

lemma find_event_key:
  assumes "log_ok db" and "r \<in> set (run_events i db)" and "event_key r = (ty, k)"
  shows "find (\<lambda>r. re_event_type (row_values r) = ty \<and> re_idempotency_key (row_values r) = k) (run_events i db) = Some r"
proof -
  let ?P = "\<lambda>r. re_event_type (row_values r) = ty \<and> re_idempotency_key (row_values r) = k"
  obtain x where x: "find ?P (run_events i db) = Some x"
    using assms(2,3) by (cases "find ?P (run_events i db)") (auto simp: find_None_iff event_key_def)
  then have "x \<in> set (run_events i db)" "event_key x = (ty, k)" by (auto simp: event_key_def dest: find_Some_in)
  moreover have "distinct (map event_key (run_events i db))" using assms(1) by (simp add: log_ok_def)
  ultimately have "x = r" using assms(2,3) by (metis distinct_map inj_onD)
  with x show ?thesis by simp
qed

text \<open>Appending an event is idempotent across sessions: once a call has returned, every later
  call with the same run, type and key, by anyone, whatever its other arguments and from
  any snapshot taken since, returns the same event and writes nothing.\<close>

theorem append_event_idempotent:
  assumes "append_event sha m t i u ty k md c ns seen db = Inr (r, db')" and "seen_by seen db"
    and "(run_step sha)\<^sup>*\<^sup>* db0 db2" and "no_runs db0" and "seen_by db' seen2" and "seen_by seen2 db2"
  shows "append_event sha m t' i u' ty k md' c' ns' seen2 db2 = Inr (r, db2)"
proof -
  have "log_ok db2" using run_history_ok [OF assms(3,4)] by (simp add: run_db_ok_def)
  then have log: "log_ok seen2" "log_ok db'" using log_ok_seen assms(5,6) by blast+
  have "r \<in> set (run_events i db') \<and> event_key r = (ty, k)"
    using assms(1,2)
  proof (cases rule: append_event_cases)
    case found
    then show ?thesis by simp
  next
    case (stored e)
    then show ?thesis using insert_event_facts [OF stored(1)]
      by (simp add: run_events_def group_of_def event_key_def)
  qed
  then have "find (\<lambda>r. re_event_type (row_values r) = ty \<and> re_idempotency_key (row_values r) = k) (run_events i seen2) = Some r"
    using find_event_key [OF log(1)] seen_by_events [OF assms(5)] by blast
  moreover have "ensure_model_columns m required_event_columns = Inr ()"
    using assms(1) by (auto simp: append_event_def ensure_idempotent_event_def result_simps)
  ultimately show ?thesis by (simp add: append_event_def ensure_idempotent_event_def)
qed

lemma derive_status_later:
  assumes "derive_latest_status rm em t i a = Inr s" and "seen_by a b"
  shows "\<exists>s'. derive_latest_status rm em t i b = Inr s'"
proof -
  obtain rs where rs: "rd_runs b = rd_runs a @ rs" using assms(2) by (auto simp: seen_by_def)
  have cols: "ensure_model_columns rm required_run_columns = Inr ()" "ensure_model_columns em required_event_columns = Inr ()"
    using assms(1) by (auto simp: derive_latest_status_def result_simps)
  have "find (\<lambda>r. row_tenant r = t \<and> row_id r = i) (rd_runs a) \<noteq> None"
    and "filter (\<lambda>r. row_tenant r = t) (run_events i a) \<noteq> []"
    using assms(1) by (auto simp: derive_latest_status_def result_simps split: option.splits)
  then have "find (\<lambda>r. row_tenant r = t \<and> row_id r = i) (rd_runs b) \<noteq> None"
    and "filter (\<lambda>r. row_tenant r = t) (run_events i b) \<noteq> []"
    using seen_by_events [OF assms(2), of i] by (auto simp: find_None_iff filter_empty_conv rs)
  then show ?thesis
    by (auto simp: derive_latest_status_def cols split: option.splits)
qed

text \<open>(C23) Creating a run is idempotent across sessions: once a request has a run, submitting it again
  with its lists and dictionaries in any order, under any workflow or correlation id and
  from any snapshot taken since, returns the same run and workflow and writes nothing.\<close>

theorem create_run_idempotent:
  assumes "(run_step sha)\<^sup>*\<^sup>* db0 db" and "no_runs db0"
    and first: "create_run_header sha rm em t u payload wid c ns ty seen db = Inr (res, db')"
    and "same_request payload payload'" and snap: "seen_by seen db" "seen_by db' seen2"
  shows "\<exists>status. create_run_header sha rm em t u' payload' wid' c' ns ty' seen2 db2 =
    Inr (\<lparr>rr_run_id = rr_run_id res, rr_workflow_id = rr_workflow_id res,
          rr_request_signature = rr_request_signature res, rr_status = status, rr_created_new = False\<rparr>, db2)"
proof -
  let ?sig = "build_request_signature sha payload"
  have sig: "build_request_signature sha payload' = ?sig"
    using same_request_canon [OF assms(4)] by (simp add: build_request_signature_def)
  have ok: "run_db_ok db" by (rule run_history_ok [OF assms(1,2)])
  have cols: "ensure_model_columns rm required_run_columns = Inr ()" "ensure_model_columns em required_event_columns = Inr ()"
    using first by (auto simp: create_run_header_def result_simps)
  have "\<exists>r s. run_of_signature t ?sig db' = Some r \<and> row_id r = rr_run_id res
      \<and> rh_workflow_id (row_values r) = rr_workflow_id res \<and> derive_latest_status rm em t (row_id r) db' = Inr s
      \<and> rr_request_signature res = ?sig"
    using first
  proof (cases rule: create_run_cases)
    case (found r s)
    then show ?thesis using seen_by_runs [OF snap(1)] derive_status_later [OF found(2) snap(1)] by auto
  next
    case (stored h run db1 ev)
    note f = insert_run_facts [OF stored(2)]
    have log1: "log_ok db1" using ok f by (simp add: run_db_ok_def log_ok_def run_events_def)
    note a = append_event_ok [OF stored(5) seen_by_refl log1]
    have none: "find P (rd_runs db) = None \<Longrightarrow> P run \<Longrightarrow> find P (rd_runs db1) = Some run" for P
    proof -
      have "find P (xs @ [x]) = Some x" if "find P xs = None" "P x" for xs :: "run_header row list" and x
        using that by (induction xs) (auto split: if_splits)
      then show "find P (rd_runs db) = None \<Longrightarrow> P run \<Longrightarrow> find P (rd_runs db1) = Some run" by (simp add: f(1))
    qed
    have run: "run_of_signature t ?sig db' = Some run"
      using none [of "\<lambda>r. row_tenant r = t \<and> rh_request_signature (row_values r) = ?sig"] stored(1,3) f(2,3)
      by (simp add: run_of_signature_def a(5))
    have "run_events (row_id run) db = []"
      using ok f(4,5) by (fastforce simp: run_db_ok_def run_events_def group_of_def filter_empty_conv)
    then have "run_events (row_id run) db1 = []" by (simp add: run_events_def f(4))
    then have "row_tenant ev = t" using a(3,7) by auto
    then have "ev \<in> set (filter (\<lambda>r. row_tenant r = t) (run_events (row_id run) db'))" using a(3) by simp
    then have "filter (\<lambda>r. row_tenant r = t) (run_events (row_id run) db') \<noteq> []" by (metis empty_iff empty_set)
    moreover have "find (\<lambda>r. row_tenant r = t \<and> row_id r = row_id run) (rd_runs db') \<noteq> None"
      using f(1,3) by (auto simp: a(5) find_None_iff)
    ultimately have "\<exists>s. derive_latest_status rm em t (row_id run) db' = Inr s"
      by (auto simp: derive_latest_status_def cols split: option.splits)
    then show ?thesis using run stored(4,6) f(2) by auto
  qed
  then obtain r s where r: "run_of_signature t ?sig db' = Some r" "row_id r = rr_run_id res"
    "rh_workflow_id (row_values r) = rr_workflow_id res" "rr_request_signature res = ?sig"
    and s: "derive_latest_status rm em t (row_id r) db' = Inr s" by blast
  have "run_of_signature t ?sig seen2 = Some r" by (rule seen_by_runs [OF snap(2) r(1)])
  moreover obtain s' where "derive_latest_status rm em t (row_id r) seen2 = Inr s'"
    using derive_status_later [OF s snap(2)] by blast
  ultimately show ?thesis using r(2-4) by (simp add: create_run_header_def cols sig)
qed

text \<open>An up-to-date append of a new event succeeds.\<close>

lemma append_event_fresh:
  assumes "log_ok db" and "ensure_model_columns m required_event_columns = Inr ()"
    and "(ty, k) \<notin> event_key ` set (run_events i db)"
  obtains r db' where "append_event sha m t i u ty k md c ns db db = Inr (r, db')"
    "run_events i db' = run_events i db @ [r]" "re_event_type (row_values r) = ty" "event_key r = (ty, k)" "row_tenant r = t"
    "log_ok db'" "rd_runs db' = rd_runs db"
proof -
  define e where "e = \<lparr>re_run_id = i, re_event_seq = max_event_seq i db + 1, re_event_type = ty,
      re_event_time = env_now (rd_env db), re_idempotency_key = k,
      re_metadata_json = (if has_attr m ''metadata_json'' then md else None),
      re_correlation_id = (if has_attr m ''correlation_id'' then c else None)\<rparr>"
  obtain r db' where ins: "insert_event sha m t u ns c e db = (r, db')" by fastforce
  note f = insert_event_facts [OF ins]
  have key: "event_key x \<noteq> (ty, k)" if "x \<in> set (run_events i db)" for x
    using assms(3) that by (metis image_eqI)
  then have none: "find (\<lambda>r. re_event_type (row_values r) = ty \<and> re_idempotency_key (row_values r) = k) (run_events i db) = None"
    by (auto simp: find_None_iff event_key_def)
  have "re_event_seq (row_values x) \<le> length (run_events i db)" if "x \<in> set (run_events i db)" for x
  proof -
    have "re_event_seq (row_values x) \<in> set (map (re_event_seq \<circ> row_values) (run_events i db))" using that by simp
    then show ?thesis using assms(1) by (auto simp: log_ok_def simp del: upt_Suc set_map)
  qed
  then have "\<not> event_conflict e db"
    using key max_event_seq_length [OF assms(1), of i]
    by (fastforce simp: event_conflict_def list_ex_iff e_def event_key_def)
  then have run: "append_event sha m t i u ty k md c ns db db = Inr (r, db')"
    unfolding append_event_def ensure_idempotent_event_def Let_def e_def [symmetric]
    by (simp add: assms(2) none ins)
  have ev: "run_events i db' = run_events i db @ [r]"
    using f(1,2) by (simp add: run_events_append [OF f(1)] group_of_simps e_def)
  have r: "re_event_type (row_values r) = ty" "event_key r = (ty, k)"
    using f(2) by (simp_all add: e_def event_key_def)
  show ?thesis
    by (rule that [OF run ev r f(3) append_event_ok(1) [OF run seen_by_refl assms(1)] f(4)])
qed

text \<open>Finishing a run is not serialised: when two finalizers read the log before either has
  finished the run, and the second one's append only starts after the first committed, both
  succeed, and the log ends in a completed event followed by a failed one.\<close>

theorem finalizers_can_race:
  assumes "(run_step sha)\<^sup>*\<^sup>* db0 db" and "no_runs db0"
    and "ensure_model_columns m required_event_columns = Inr ()" and "lv_is_complete outcome"
    and "\<forall>r \<in> set (run_events i db). re_event_type (row_values r) \<notin> set TERMINAL_EVENT_TYPES"
  shows "\<exists>r1 db1 r2 db2.
    finalize_run sha m ns t i v cc RUN_EVENT_COMPLETED md outcome db db db = (Inr r1, db1)
    \<and> finalize_run sha m ns t i v cc RUN_EVENT_FAILED md outcome db db1 db1 = (Inr r2, db2)
    \<and> map (re_event_type \<circ> row_values) (run_events i db2)
      = map (re_event_type \<circ> row_values) (run_events i db) @ [RUN_EVENT_COMPLETED, RUN_EVENT_FAILED]"
proof -
  have log: "log_ok db" using run_history_ok [OF assms(1,2)] by (simp add: run_db_ok_def)
  have terminal: "RUN_EVENT_COMPLETED \<in> set TERMINAL_EVENT_TYPES" "RUN_EVENT_FAILED \<in> set TERMINAL_EVENT_TYPES"
    and names: "RUN_EVENT_COMPLETED \<noteq> RUN_EVENT_FAILED" "RUN_EVENT_FAILED \<noteq> RUN_EVENT_COMPLETED_WITH_WARNINGS"
    by (simp_all add: TERMINAL_EVENT_TYPES_def RUN_EVENT_COMPLETED_def RUN_EVENT_FAILED_def
        RUN_EVENT_COMPLETED_WITH_WARNINGS_def)
  have new: "(ty, k) \<notin> event_key ` set (run_events i db)" if "ty \<in> set TERMINAL_EVENT_TYPES" for ty k
    using assms(5) that by (auto simp: event_key_def)
  have none: "terminal_event t i db = None"
    using assms(5) by (simp add: terminal_event_def filter_empty_conv)
  obtain r1 db1 where one: "append_event sha m t i (Some v) RUN_EVENT_COMPLETED (''terminal:'' @ RUN_EVENT_COMPLETED) md (Some cc) ns db db = Inr (r1, db1)"
    "run_events i db1 = run_events i db @ [r1]" "re_event_type (row_values r1) = RUN_EVENT_COMPLETED" "log_ok db1"
    by (rule append_event_fresh [OF log assms(3) new [OF terminal(1)]])
  have "(RUN_EVENT_FAILED, ''terminal:'' @ RUN_EVENT_FAILED) \<notin> event_key ` set (run_events i db1)"
    using new [OF terminal(2)] one(3) names by (auto simp: one(2) event_key_def)
  then obtain r2 db2 where two: "append_event sha m t i (Some v) RUN_EVENT_FAILED (''terminal:'' @ RUN_EVENT_FAILED) md (Some cc) ns db1 db1 = Inr (r2, db2)"
    "run_events i db2 = run_events i db1 @ [r2]" "re_event_type (row_values r2) = RUN_EVENT_FAILED"
    by (rule append_event_fresh [OF one(4) assms(3)])
  have "finalize_run sha m ns t i v cc RUN_EVENT_COMPLETED md outcome db db db = (Inr r1, db1)"
    using terminal assms(4) none one(1)
    by (simp add: finalize_run_def validate_lineage_before_finalize_def ensure_lineage_complete_def)
  moreover have "finalize_run sha m ns t i v cc RUN_EVENT_FAILED md outcome db db1 db1 = (Inr r2, db2)"
    using terminal names none two(1) by (simp add: finalize_run_def)
  ultimately show ?thesis using one(2,3) two(2,3) by fastforce
qed

section \<open>Witnesses\<close>

definition ex_model :: model_class where
  "ex_model = \<lparr>mc_attributes = required_run_columns @ required_event_columns, mc_tablename = ''revenue_runs''\<rparr>"

definition ex_run_db :: run_db where
  "ex_run_db = \<lparr>rd_runs = [], rd_events = [], rd_env = \<lparr>env_trail = [], env_now = 5, env_next_id = 1\<rparr>\<rparr>"

definition ex_payload :: json where
  "ex_payload = JDict [(''contracts'', JList [JStr ''C-1'', JStr ''C-2''])]"

lemma ex_cols: "ensure_model_columns ex_model required_run_columns = Inr ()"
  "ensure_model_columns ex_model required_event_columns = Inr ()"
  by code_simp+

lemma ex_no_runs: "no_runs ex_run_db"
  by (simp add: no_runs_def ex_run_db_def)

abbreviation ex_create :: "json \<Rightarrow> run_db \<Rightarrow> run_db \<Rightarrow> (run_create_result \<times> run_db) result" where
  "ex_create p seen db \<equiv> create_run_header (\<lambda>s. s) ex_model ex_model 7 (Some 3) p ''revenue-1'' None ''revenue''
     RUN_EVENT_ACCEPTED seen db"

lemma ex_created:
  obtains res db' r where "ex_create ex_payload ex_run_db ex_run_db = Inr (res, db')" "rr_created_new res"
    "run_events (rr_run_id res) db' = [r]" "event_key r = (RUN_EVENT_ACCEPTED, ''run-created'')"
    "(run_step (\<lambda>s. s))\<^sup>*\<^sup>* ex_run_db db'" "rr_run_id res \<in> row_id ` set (rd_runs db')"
proof -
  define h where "h = \<lparr>rh_request_signature = build_request_signature (\<lambda>s. s) ex_payload, rh_workflow_id = ''revenue-1'',
     rh_correlation_id = None, rh_configuration_json = None, rh_initiated_by = None :: uuid option\<rparr>"
  have attr: "\<not> has_attr ex_model ''correlation_id''" "\<not> has_attr ex_model ''configuration_json''"
    "\<not> has_attr ex_model ''initiated_by''" by code_simp+
  obtain run db1 where ins: "insert_run (\<lambda>s. s) ex_model 7 (Some 3) ''revenue'' None h ex_run_db = (run, db1)" by fastforce
  note f = insert_run_facts [OF ins]
  have ev: "run_events i db1 = []" for i using f(4) by (simp add: run_events_def ex_run_db_def group_of_def)
  then have "log_ok db1" by (simp add: log_ok_def)
  then obtain r db' where app: "append_event (\<lambda>s. s) ex_model 7 (row_id run) (Some 3) RUN_EVENT_ACCEPTED ''run-created''
      (Some (JDict [(''workflow_id'', JStr ''revenue-1'')])) None ''revenue'' db1 db1 = Inr (r, db')"
    "run_events (row_id run) db' = run_events (row_id run) db1 @ [r]" "event_key r = (RUN_EVENT_ACCEPTED, ''run-created'')"
    "rd_runs db' = rd_runs db1"
    by (rule append_event_fresh [OF _ ex_cols(2)]) (simp add: ev)
  define res where "res = \<lparr>rr_run_id = row_id run, rr_workflow_id = ''revenue-1'',
     rr_request_signature = build_request_signature (\<lambda>s. s) ex_payload, rr_status = RUN_EVENT_ACCEPTED, rr_created_new = True\<rparr>"
  have "run_of_signature 7 s ex_run_db = None" for s by (simp add: run_of_signature_def ex_run_db_def)
  then have c: "ex_create ex_payload ex_run_db ex_run_db = Inr (res, db')"
    using ins app(1) by (simp add: create_run_header_def ex_cols attr h_def res_def)
  then have "run_step (\<lambda>s. s) ex_run_db db'" by (intro step_create [OF seen_by_refl])
  with c show ?thesis using app(2,3,4) ev f(1) by (intro that) (auto simp: res_def)
qed

lemma event_log_gapless_witness:
  "\<exists>(db :: run_db) i. map (re_event_seq \<circ> row_values) (run_events i db) = [1]"
proof (rule ex_created)
  fix res db' r assume e: "run_events (rr_run_id res) db' = [r]" and reach: "(run_step (\<lambda>s. s))\<^sup>*\<^sup>* ex_run_db db'"
  show ?thesis
    using event_log_gapless [OF reach ex_no_runs, of "rr_run_id res"]
    by (intro exI [where x = db'] exI [where x = "rr_run_id res"]) (simp add: e)
qed

lemma append_event_idempotent_witness:
  "\<exists>db i r db1. mark_run_running (\<lambda>s. s) ex_model ''revenue'' 7 i 3 ''c'' db db = Inr (r, db1)
     \<and> mark_run_running (\<lambda>s. s) ex_model ''revenue'' 7 i 4 ''d'' db1 db1 = Inr (r, db1)"
proof (rule ex_created)
  fix res db r0
  assume e: "run_events (rr_run_id res) db = [r0]" "event_key r0 = (RUN_EVENT_ACCEPTED, ''run-created'')"
    and reach: "(run_step (\<lambda>s. s))\<^sup>*\<^sup>* ex_run_db db" and i: "rr_run_id res \<in> row_id ` set (rd_runs db)"
  have fresh: "(RUN_EVENT_RUNNING, ''stage-running'') \<notin> event_key ` set (run_events (rr_run_id res) db)"
    unfolding e(1) by (simp add: e(2) RUN_EVENT_ACCEPTED_def RUN_EVENT_RUNNING_def)
  have "log_ok db" using run_history_ok [OF reach ex_no_runs] by (simp add: run_db_ok_def)
  then obtain r db1 where run: "append_event (\<lambda>s. s) ex_model 7 (rr_run_id res) (Some 3) RUN_EVENT_RUNNING ''stage-running''
      None (Some ''c'') ''revenue'' db db = Inr (r, db1)"
    using append_event_fresh [OF _ ex_cols(2) fresh] by blast
  have "run_step (\<lambda>s. s) db db1" by (rule step_append [OF i seen_by_refl run])
  then have reach1: "(run_step (\<lambda>s. s))\<^sup>*\<^sup>* ex_run_db db1" using reach by (rule rtranclp.rtrancl_into_rtrancl [rotated])
  show ?thesis
    using run append_event_idempotent [OF run seen_by_refl reach1 ex_no_runs seen_by_refl seen_by_refl]
    unfolding mark_run_running_def by blast
qed

lemma create_run_idempotent_witness:
  "\<exists>res db' status. ex_create ex_payload ex_run_db ex_run_db = Inr (res, db') \<and> rr_created_new res
     \<and> ex_create (JDict [(''contracts'', JList [JStr ''C-2'', JStr ''C-1''])]) db' db' =
         Inr (res\<lparr>rr_status := status, rr_created_new := False\<rparr>, db')"
proof (rule ex_created)
  fix res db' assume c: "ex_create ex_payload ex_run_db ex_run_db = Inr (res, db')" and new: "rr_created_new res"
  have same: "same_request ex_payload (JDict [(''contracts'', JList [JStr ''C-2'', JStr ''C-1''])])"
    unfolding ex_payload_def
    by (rule req_dict [where lws = "[(''contracts'', JList [JStr ''C-2'', JStr ''C-1''])]"])
      (auto intro!: req_list [where zs = "[JStr ''C-1'', JStr ''C-2'']"] req_atom)
  have "\<exists>status. ex_create (JDict [(''contracts'', JList [JStr ''C-2'', JStr ''C-1''])]) db' db' =
    Inr (\<lparr>rr_run_id = rr_run_id res, rr_workflow_id = rr_workflow_id res,
          rr_request_signature = rr_request_signature res, rr_status = status, rr_created_new = False\<rparr>, db')"
    by (rule create_run_idempotent [OF _ ex_no_runs c same seen_by_refl seen_by_refl]) simp
  with c new show ?thesis by (cases res) auto
qed

lemma finalizers_can_race_witness:
  "\<exists>(db :: run_db) i. map (re_event_type \<circ> row_values) (run_events i db)
     = [RUN_EVENT_ACCEPTED, RUN_EVENT_COMPLETED, RUN_EVENT_FAILED]"
proof (rule ex_created)
  fix res db r assume e: "run_events (rr_run_id res) db = [r]" "event_key r = (RUN_EVENT_ACCEPTED, ''run-created'')"
    and reach: "(run_step (\<lambda>s. s))\<^sup>*\<^sup>* ex_run_db db"
  have ty: "re_event_type (row_values r) = RUN_EVENT_ACCEPTED" using e(2) by (simp add: event_key_def)
  have "RUN_EVENT_ACCEPTED \<notin> set TERMINAL_EVENT_TYPES" by code_simp
  then have "\<forall>x \<in> set (run_events (rr_run_id res) db). re_event_type (row_values x) \<notin> set TERMINAL_EVENT_TYPES"
    by (simp add: e(1) ty)
  from finalizers_can_race [OF reach ex_no_runs ex_cols(2) _ this,
      of "\<lparr>lv_is_complete = True, lv_error_code = ''LINEAGE_INCOMPLETE'', lv_details = []\<rparr>" "''revenue''" 7 3 "''c''" None]
  show ?thesis by (fastforce simp: e(1) ty)
qed

end
