(* ===== verification/Credits.thy ===== *)
theory Credits
  imports Audit_Chain
begin

text \<open>
  \<open>services/credit_service.py\<close> and \<open>db/models/credits.py\<close>: prepaid credits of a tenant.
  A task reserves credits before it runs and confirms or releases the reservation
  afterwards; every movement leaves an immutable transaction and audit entries.
  The row locks (\<open>SELECT ... FOR UPDATE\<close>) serialise the operations on one tenant, so an
  operation is one step; an operation that raises is rolled back, so an error carries no
  state.  \<open>dec_str\<close> stands for \<open>str\<close> of a \<open>Decimal\<close>, whose trailing zeros depend on what the
  session has cached; it only enters hashed payloads.
\<close>

section \<open>State\<close>

datatype credit_direction = debit | credit
datatype credit_transaction_status = tx_pending | tx_confirmed | tx_released | tx_failed
datatype reservation_status = pending | confirmed | released

record credit_balance =
  cb_id :: uuid
  cb_created_at :: nat
  cb_tenant_id :: uuid
  cb_balance :: rat
  cb_reserved :: rat
  cb_updated_at :: nat

definition available :: "credit_balance \<Rightarrow> rat" where
  "available b = dsub (cb_balance b) (cb_reserved b)"

record credit_transaction =
  ct_user_id :: "uuid option"
  ct_task_type :: string
  ct_amount :: rat
  ct_direction :: credit_direction
  ct_balance_before :: rat
  ct_balance_after :: rat
  ct_reservation_id :: "uuid option"
  ct_status :: credit_transaction_status

record credit_reservation =
  cv_id :: uuid
  cv_created_at :: nat
  cv_tenant_id :: uuid
  cv_amount :: rat
  cv_task_type :: string
  cv_status :: reservation_status
  cv_expires_at :: nat

record credit_db =
  cd_balances :: "credit_balance list"
  cd_reservations :: "credit_reservation list"
  cd_transactions :: "credit_transaction row list"
  cd_env :: env

definition store_balance :: "credit_balance \<Rightarrow> credit_balance result" where
  "store_balance b =
     bindE (numeric_20_6 (cb_balance b)) (\<lambda>balance.
     bindE (numeric_20_6 (cb_reserved b)) (\<lambda>reserved.
     Inr (b\<lparr>cb_balance := balance, cb_reserved := reserved\<rparr>)))"

definition store_reservation :: "credit_reservation \<Rightarrow> credit_reservation result" where
  "store_reservation r =
     bindE (numeric_20_6 (cv_amount r)) (\<lambda>amount. Inr (r\<lparr>cv_amount := amount\<rparr>))"

definition store_transaction :: "credit_transaction \<Rightarrow> credit_transaction result" where
  "store_transaction tx =
     bindE (numeric_20_6 (ct_amount tx)) (\<lambda>amount.
     bindE (numeric_20_6 (ct_balance_before tx)) (\<lambda>before.
     bindE (numeric_20_6 (ct_balance_after tx)) (\<lambda>after.
     Inr (tx\<lparr>ct_amount := amount, ct_balance_before := before, ct_balance_after := after\<rparr>))))"

section \<open>Operations\<close>

definition reservation_ttl_minutes :: nat where "reservation_ttl_minutes = 30"

definition credit_event :: "uuid \<Rightarrow> uuid option \<Rightarrow> string \<Rightarrow> string \<Rightarrow> string option \<Rightarrow> json option \<Rightarrow> json option
    \<Rightarrow> audit_event" where
  "credit_event tenant_id user_id action resource_type resource_id old new =
     \<lparr>ae_tenant_id = tenant_id, ae_action = action, ae_resource_type = resource_type, ae_user_id = user_id,
      ae_resource_id = resource_id, ae_resource_name = None, ae_old_value = old, ae_new_value = new,
      ae_ip_address = None, ae_user_agent = None\<rparr>"

definition direction_value :: "credit_direction \<Rightarrow> string" where
  "direction_value d = (case d of debit \<Rightarrow> ''debit'' | credit \<Rightarrow> ''credit'')"

definition reservation_status_value :: "reservation_status \<Rightarrow> string" where
  "reservation_status_value s =
     (case s of pending \<Rightarrow> ''pending'' | confirmed \<Rightarrow> ''confirmed'' | released \<Rightarrow> ''released'')"

definition balance_state :: "(rat \<Rightarrow> string) \<Rightarrow> credit_balance \<Rightarrow> (string \<times> json) list" where
  "balance_state dec_str b =
     [(''balance'', JStr (dec_str (cb_balance b))), (''reserved'', JStr (dec_str (cb_reserved b))),
      (''available'', JStr (dec_str (available b)))]"

text \<open>\<open>AuditWriter.insert_record\<close> for a row without hash chain: the row takes the next id,
  which is also the resource id of its audit entry.\<close>

definition audit_insert :: "sha \<Rightarrow> audit_event \<Rightarrow> env \<Rightarrow> env" where
  "audit_insert sha ev env =
     log_action sha (ev\<lparr>ae_resource_id := Some (uuid_text (env_next_id env))\<rparr>) (tick env)"

definition balance_of :: "uuid \<Rightarrow> credit_db \<Rightarrow> credit_balance option" where
  "balance_of tenant_id db = find (\<lambda>b. cb_tenant_id b = tenant_id) (cd_balances db)"

definition get_balance :: "sha \<Rightarrow> uuid \<Rightarrow> credit_db \<Rightarrow> credit_balance \<times> credit_db" where
  "get_balance sha tenant_id db =
     (case balance_of tenant_id db of
        Some b \<Rightarrow> (b, db)
      | None \<Rightarrow>
          let b = \<lparr>cb_id = env_next_id (cd_env db), cb_created_at = env_now (cd_env db), cb_tenant_id = tenant_id,
                   cb_balance = 0, cb_reserved = 0, cb_updated_at = env_now (cd_env db)\<rparr>;
              ev = credit_event tenant_id None ''credits.balance.created'' ''credit_balance'' None None
                     (Some (JDict [(''balance'', JStr ''0''), (''reserved'', JStr ''0'')]))
          in (b, db\<lparr>cd_balances := cd_balances db @ [b], cd_env := audit_insert sha ev (cd_env db)\<rparr>))"

definition check_balance :: "sha \<Rightarrow> uuid \<Rightarrow> rat \<Rightarrow> credit_db \<Rightarrow> bool \<times> credit_db" where
  "check_balance sha tenant_id required_credits db =
     (let (b, db') = get_balance sha tenant_id db in (required_credits \<le> available b, db'))"

text \<open>The flushed update of a balance row and of a reservation row.\<close>

definition put_balance :: "credit_balance \<Rightarrow> credit_balance list \<Rightarrow> credit_balance list" where
  "put_balance b bs = map (\<lambda>x. if cb_id x = cb_id b then b else x) bs"

definition put_reservation :: "credit_reservation \<Rightarrow> credit_reservation list \<Rightarrow> credit_reservation list" where
  "put_reservation r rs = map (\<lambda>x. if cv_id x = cv_id r then r else x) rs"

definition new_reservation :: "uuid \<Rightarrow> string \<Rightarrow> rat \<Rightarrow> env \<Rightarrow> credit_reservation" where
  "new_reservation tenant_id task_type amount env =
     \<lparr>cv_id = env_next_id env, cv_created_at = env_now env, cv_tenant_id = tenant_id, cv_amount = amount,
      cv_task_type = task_type, cv_status = pending,
      cv_expires_at = env_now env + reservation_ttl_minutes * 60 * 1000000\<rparr>"

definition reserve_credits :: "sha \<Rightarrow> (rat \<Rightarrow> string) \<Rightarrow> uuid \<Rightarrow> string \<Rightarrow> rat \<Rightarrow> credit_db
    \<Rightarrow> (uuid \<times> credit_db) result" where
  "reserve_credits sha dec_str tenant_id task_type amount db =
     (let (b, db) = get_balance sha tenant_id db; now = env_now (cd_env db) in
      if available b < amount then Inl InsufficientCreditsError
      else
        let b' = b\<lparr>cb_reserved := dadd (cb_reserved b) amount, cb_updated_at := now\<rparr>;
            reservation = new_reservation tenant_id task_type amount (cd_env db);
            env = audit_insert sha (credit_event tenant_id None ''credits.reservation.created''
              ''credit_reservation'' None None
              (Some (JDict [(''task_type'', JStr task_type), (''amount'', JStr (dec_str amount))]))) (cd_env db);
            env = log_action sha (credit_event tenant_id None ''credits.balance.reserved'' ''credit_balance''
              (Some (uuid_text (cb_id b))) (Some (JDict (balance_state dec_str b)))
              (Some (JDict (balance_state dec_str b')))) env
        in bindE (store_balance b') (\<lambda>sb.
           bindE (store_reservation reservation) (\<lambda>sr.
           Inr (cv_id reservation,
                db\<lparr>cd_balances := put_balance sb (cd_balances db),
                   cd_reservations := cd_reservations db @ [sr], cd_env := env\<rparr>))))"

definition pending_reservation :: "uuid \<Rightarrow> uuid \<Rightarrow> credit_db \<Rightarrow> credit_reservation option" where
  "pending_reservation tenant_id reservation_id db =
     find (\<lambda>r. cv_id r = reservation_id \<and> cv_tenant_id r = tenant_id \<and> cv_status r = pending) (cd_reservations db)"

definition transaction_data :: "(rat \<Rightarrow> string) \<Rightarrow> uuid \<Rightarrow> credit_transaction \<Rightarrow> json" where
  "transaction_data dec_str tenant_id tx = JDict
     ([(''tenant_id'', JStr (uuid_text tenant_id)), (''task_type'', JStr (ct_task_type tx)),
       (''amount'', JStr (dec_str (ct_amount tx))), (''direction'', JStr (direction_value (ct_direction tx))),
       (''balance_before'', JStr (dec_str (ct_balance_before tx))),
       (''balance_after'', JStr (dec_str (ct_balance_after tx)))]
      @ (case ct_reservation_id tx of None \<Rightarrow> [] | Some r \<Rightarrow> [(''reservation_id'', JStr (uuid_text r))]))"

definition insert_transaction :: "sha \<Rightarrow> (rat \<Rightarrow> string) \<Rightarrow> uuid \<Rightarrow> string \<Rightarrow> credit_transaction
    \<Rightarrow> credit_transaction row list \<times> env
    \<Rightarrow> (credit_transaction row \<times> credit_transaction row list \<times> env) result" where
  "insert_transaction sha dec_str tenant_id action tx st =
     bindE (store_transaction tx) (\<lambda>stored.
     let previous_hash = get_previous_hash_locked tenant_id (fst st);
         chain_hash = compute_chain_hash sha (transaction_data dec_str tenant_id tx) previous_hash;
         ev = credit_event tenant_id (ct_user_id tx) action ''credit_transaction'' None None
           (Some (JDict [(''task_type'', JStr (ct_task_type tx)), (''amount'', JStr (dec_str (ct_amount tx))),
                         (''direction'', JStr (direction_value (ct_direction tx)))]))
     in Inr (insert_record sha (\<lambda>v. v) (append_row tenant_id chain_hash previous_hash stored (snd st)) (Some ev) st))"

text \<open>\<open>confirm_credits\<close> and \<open>release_credits\<close> run through the same steps with another
  target status, direction and balance: \<open>deduct\<close> is what the balance loses.\<close>

definition settle_reservation :: "sha \<Rightarrow> (rat \<Rightarrow> string) \<Rightarrow> reservation_status \<Rightarrow> credit_direction
    \<Rightarrow> credit_transaction_status \<Rightarrow> string \<Rightarrow> (rat \<Rightarrow> rat \<Rightarrow> rat) \<Rightarrow> uuid \<Rightarrow> uuid \<Rightarrow> uuid option \<Rightarrow> credit_db
    \<Rightarrow> (credit_transaction row \<times> credit_db) result" where
  "settle_reservation sha dec_str status direction tx_status verb new_balance tenant_id reservation_id user_id db =
     (case pending_reservation tenant_id reservation_id db of
        None \<Rightarrow> Inl (ValueError ''Reservation not found or already processed'')
      | Some r \<Rightarrow>
       (case balance_of tenant_id db of
          None \<Rightarrow> Inl NoResultFound
        | Some b \<Rightarrow>
            let b' = b\<lparr>cb_balance := new_balance (cb_balance b) (cv_amount r),
                       cb_reserved := dsub (cb_reserved b) (cv_amount r), cb_updated_at := env_now (cd_env db)\<rparr>;
                r' = r\<lparr>cv_status := status\<rparr>;
                tx = \<lparr>ct_user_id = user_id, ct_task_type = cv_task_type r, ct_amount = cv_amount r,
                  ct_direction = direction, ct_balance_before = cb_balance b, ct_balance_after = cb_balance b',
                  ct_reservation_id = Some reservation_id, ct_status = tx_status\<rparr>
            in bindE (store_balance b') (\<lambda>sb.
               bindE (insert_transaction sha dec_str tenant_id (''credits.transaction.'' @ verb) tx
                        (cd_transactions db, cd_env db)) (\<lambda>(row, txs, env).
               let env = log_action sha (credit_event tenant_id user_id (''credits.reservation.'' @ verb)
                     ''credit_reservation'' (Some (uuid_text (cv_id r)))
                     (Some (JDict ((''status'', JStr (reservation_status_value (cv_status r)))
                                    # balance_state dec_str b)))
                     (Some (JDict ((''status'', JStr (reservation_status_value (cv_status r')))
                                    # balance_state dec_str b')))) env
               in Inr (row, db\<lparr>cd_balances := put_balance sb (cd_balances db),
                      cd_reservations := put_reservation r' (cd_reservations db),
                      cd_transactions := txs, cd_env := env\<rparr>)))))"

definition confirm_credits :: "sha \<Rightarrow> (rat \<Rightarrow> string) \<Rightarrow> uuid \<Rightarrow> uuid \<Rightarrow> uuid option \<Rightarrow> credit_db
    \<Rightarrow> (credit_transaction row \<times> credit_db) result" where
  "confirm_credits sha dec_str = settle_reservation sha dec_str confirmed debit tx_confirmed ''confirmed'' dsub"

definition release_credits :: "sha \<Rightarrow> (rat \<Rightarrow> string) \<Rightarrow> uuid \<Rightarrow> uuid \<Rightarrow> uuid option \<Rightarrow> credit_db
    \<Rightarrow> (credit_transaction row \<times> credit_db) result" where
  "release_credits sha dec_str = settle_reservation sha dec_str released credit tx_released ''released'' (\<lambda>balance _. balance)"

definition add_credits :: "sha \<Rightarrow> (rat \<Rightarrow> string) \<Rightarrow> uuid \<Rightarrow> rat \<Rightarrow> string \<Rightarrow> uuid option \<Rightarrow> credit_db
    \<Rightarrow> (credit_transaction row \<times> credit_db) result" where
  "add_credits sha dec_str tenant_id amount reason user_id db =
     (let (b, db) = get_balance sha tenant_id db;
          b' = b\<lparr>cb_balance := dadd (cb_balance b) amount, cb_updated_at := env_now (cd_env db)\<rparr>;
          tx = \<lparr>ct_user_id = user_id, ct_task_type = reason, ct_amount = amount, ct_direction = credit,
            ct_balance_before = cb_balance b, ct_balance_after = cb_balance b', ct_reservation_id = None,
            ct_status = tx_confirmed\<rparr>
      in bindE (store_balance b') (\<lambda>sb.
         bindE (insert_transaction sha dec_str tenant_id ''credits.transaction.created'' tx
                  (cd_transactions db, cd_env db)) (\<lambda>(row, txs, env).
         let env = log_action sha (credit_event tenant_id user_id ''credits.balance.added'' ''credit_balance''
               (Some (uuid_text (cb_id b))) (Some (JDict (balance_state dec_str b)))
               (Some (JDict (balance_state dec_str b')))) env
         in Inr (row, db\<lparr>cd_balances := put_balance sb (cd_balances db), cd_transactions := txs, cd_env := env\<rparr>))))"

section \<open>Columns and rows\<close>

lemma numeric_Inr:
  assumes "numeric_20_6 x = Inr y"
  shows "micro y" and "\<bar>y\<bar> < 10 ^ 14"
  using assms micro_of_int_div [of "round_half_up (x * 10 ^ 6)"]
  by (auto simp: numeric_20_6_def Let_def abs_less_iff split: if_splits)

lemma store_balance_Inr:
  "store_balance b = Inr sb \<longleftrightarrow> (\<exists>x y. numeric_20_6 (cb_balance b) = Inr x \<and> numeric_20_6 (cb_reserved b) = Inr y
     \<and> sb = b\<lparr>cb_balance := x, cb_reserved := y\<rparr>)"
  by (auto simp: store_balance_def result_simps)

lemma store_balance_exact:
  assumes "store_balance b = Inr sb" and "micro (cb_balance b)" "micro (cb_reserved b)"
    and "0 \<le> cb_reserved b" "cb_reserved b \<le> cb_balance b" "cb_balance b < 10 ^ 14"
  shows "sb = b"
  using assms numeric_id [of "cb_balance b"] numeric_id [of "cb_reserved b"]
  by (auto simp: store_balance_Inr)

lemma store_transaction_Inr:
  "store_transaction tx = Inr stx \<longleftrightarrow> (\<exists>x y z. numeric_20_6 (ct_amount tx) = Inr x
     \<and> numeric_20_6 (ct_balance_before tx) = Inr y \<and> numeric_20_6 (ct_balance_after tx) = Inr z
     \<and> stx = tx\<lparr>ct_amount := x, ct_balance_before := y, ct_balance_after := z\<rparr>)"
  by (auto simp: store_transaction_def result_simps)

lemma insert_transaction_facts:
  assumes "insert_transaction sha dec_str t verb tx (txs, env) = Inr (r, txs', env')"
  shows "txs' = txs @ [r]" "row_tenant r = t" "store_transaction tx = Inr (row_values r)"
    "env_next_id env < env_next_id env'"
proof -
  obtain stored h ph ev where s: "store_transaction tx = Inr stored"
    and i: "insert_record sha (\<lambda>v. v) (append_row t h ph stored env) (Some ev) (txs, env) = (r, txs', env')"
    using assms by (auto simp: insert_transaction_def result_simps Let_def)
  show "txs' = txs @ [r]" "row_tenant r = t" "store_transaction tx = Inr (row_values r)"
    "env_next_id env < env_next_id env'"
    using insert_record_facts [OF i] s by (simp_all add: append_row_def)
qed

lemma audit_insert_env [simp]: "env_next_id (audit_insert sha ev env) = env_next_id env + 2"
  by (simp add: audit_insert_def tick_def)

lemma put_reservation_ids [simp]: "map cv_id (put_reservation r rs) = map cv_id rs"
  by (auto simp: put_reservation_def)

lemma put_balance_ids: "map cb_id (put_balance b bs) = map cb_id bs"
  by (auto simp: put_balance_def)

section \<open>The balance invariant\<close>

definition pending_amounts :: "uuid \<Rightarrow> credit_reservation list \<Rightarrow> rat list" where
  "pending_amounts t rs = map cv_amount (filter (\<lambda>r. cv_tenant_id r = t \<and> cv_status r = pending) rs)"

definition balance_ok :: "credit_reservation list \<Rightarrow> credit_balance \<Rightarrow> bool" where
  "balance_ok rs b \<longleftrightarrow> micro (cb_balance b) \<and> cb_balance b < 10 ^ 14
     \<and> 0 \<le> cb_reserved b \<and> cb_reserved b \<le> cb_balance b
     \<and> cb_reserved b = sum_list (pending_amounts (cb_tenant_id b) rs)"

definition reservation_ok :: "uuid set \<Rightarrow> uuid \<Rightarrow> credit_reservation \<Rightarrow> bool" where
  "reservation_ok tenants next_id r \<longleftrightarrow> micro (cv_amount r) \<and> 0 \<le> cv_amount r \<and> cv_amount r < 10 ^ 14
     \<and> cv_id r < next_id \<and> cv_tenant_id r \<in> tenants"

lemma reservation_ok_mono:
  "reservation_ok T n r \<Longrightarrow> T \<subseteq> T' \<Longrightarrow> n \<le> n' \<Longrightarrow> reservation_ok T' n' r"
  by (auto simp: reservation_ok_def)

abbreviation balance_tenants :: "credit_db \<Rightarrow> uuid set" where
  "balance_tenants db \<equiv> cb_tenant_id ` set (cd_balances db)"

definition credits_ok :: "credit_db \<Rightarrow> bool" where
  "credits_ok db \<longleftrightarrow>
     distinct (map cb_tenant_id (cd_balances db)) \<and> distinct (map cb_id (cd_balances db))
     \<and> (\<forall>b \<in> set (cd_balances db). balance_ok (cd_reservations db) b \<and> cb_id b < env_next_id (cd_env db))
     \<and> distinct (map cv_id (cd_reservations db)) \<and> (\<forall>r \<in> set (cd_reservations db). reservation_ok (balance_tenants db) (env_next_id (cd_env db)) r)"

lemma micro_pending: "credits_ok db \<Longrightarrow> micro (sum_list (pending_amounts t (cd_reservations db)))"
  by (rule micro_sum_list) (auto simp: pending_amounts_def credits_ok_def reservation_ok_def)

lemma balance_of_Some: "balance_of t db = Some b \<Longrightarrow> b \<in> set (cd_balances db) \<and> cb_tenant_id b = t"
  by (auto simp: balance_of_def dest: find_Some_in)

lemma balance_of_iff:
  assumes "credits_ok db"
  shows "balance_of t db = Some b \<longleftrightarrow> b \<in> set (cd_balances db) \<and> cb_tenant_id b = t"
proof
  assume b: "b \<in> set (cd_balances db) \<and> cb_tenant_id b = t"
  then obtain c where c: "balance_of t db = Some c"
    by (cases "balance_of t db") (auto simp: balance_of_def find_None_iff)
  with b assms show "balance_of t db = Some b"
    by (auto simp: credits_ok_def distinct_map dest!: balance_of_Some dest: inj_onD)
qed (rule balance_of_Some)

lemma balance_facts:
  assumes "credits_ok db" and "balance_of t db = Some b"
  shows "b \<in> set (cd_balances db)" "cb_tenant_id b = t" "micro (cb_balance b)" "micro (cb_reserved b)"
    "cb_balance b < 10 ^ 14" "0 \<le> cb_reserved b" "cb_reserved b \<le> cb_balance b"
    "cb_reserved b = sum_list (pending_amounts t (cd_reservations db))"
    "available b = cb_balance b - cb_reserved b"
proof -
  show m: "b \<in> set (cd_balances db)" "cb_tenant_id b = t" using assms(2) balance_of_Some by auto
  have ok: "balance_ok (cd_reservations db) b" using assms(1) m by (auto simp: credits_ok_def)
  then show a: "micro (cb_balance b)" "cb_balance b < 10 ^ 14" "0 \<le> cb_reserved b" "cb_reserved b \<le> cb_balance b"
    and s: "cb_reserved b = sum_list (pending_amounts t (cd_reservations db))"
    using m by (auto simp: balance_ok_def)
  show "micro (cb_reserved b)" unfolding s by (rule micro_pending [OF assms(1)])
  then show "available b = cb_balance b - cb_reserved b"
    unfolding available_def using a by (intro dsub_exact) auto
qed

text \<open>An operation rewrites the balance row of its tenant and leaves the others.\<close>

lemma put_balance_tenants:
  assumes "credits_ok db" and "balance_of t db = Some b" and "cb_id sb = cb_id b" and "cb_tenant_id sb = t"
  shows "map cb_tenant_id (put_balance sb (cd_balances db)) = map cb_tenant_id (cd_balances db)"
    and "\<forall>x \<in> set (put_balance sb (cd_balances db)). x = sb \<or> x \<in> set (cd_balances db) \<and> cb_tenant_id x \<noteq> t"
    and "sb \<in> set (put_balance sb (cd_balances db))"
proof -
  have b: "b \<in> set (cd_balances db)" "cb_tenant_id b = t" using assms(2) balance_of_Some by auto
  have same: "cb_id x = cb_id b \<longleftrightarrow> x = b" "cb_tenant_id x = t \<longleftrightarrow> x = b" if "x \<in> set (cd_balances db)" for x
    using assms(1) b that by (auto simp: credits_ok_def distinct_map dest: inj_onD)
  show "map cb_tenant_id (put_balance sb (cd_balances db)) = map cb_tenant_id (cd_balances db)"
    and "\<forall>x \<in> set (put_balance sb (cd_balances db)). x = sb \<or> x \<in> set (cd_balances db) \<and> cb_tenant_id x \<noteq> t"
    and "sb \<in> set (put_balance sb (cd_balances db))"
    using same assms(3,4) b(1) b(2) [symmetric] by (auto simp: put_balance_def)
qed

lemma credits_ok_put:
  assumes ok: "credits_ok db" and b: "balance_of t db = Some b"
    and sb: "cb_id sb = cb_id b" "cb_tenant_id sb = t" "balance_ok (cd_reservations db') sb"
    and db': "cd_balances db' = put_balance sb (cd_balances db)"
      "env_next_id (cd_env db) \<le> env_next_id (cd_env db')"
    and others: "\<And>t'. t' \<noteq> t \<Longrightarrow> pending_amounts t' (cd_reservations db') = pending_amounts t' (cd_reservations db)"
    and rs: "distinct (map cv_id (cd_reservations db'))"
      "\<And>r. r \<in> set (cd_reservations db') \<Longrightarrow> reservation_ok (balance_tenants db) (env_next_id (cd_env db')) r"
  shows "credits_ok db'" "balance_of t db' = Some sb"
    "\<And>t'. t' \<noteq> t \<Longrightarrow> balance_of t' db' = balance_of t' db"
proof -
  note put = put_balance_tenants [OF ok b sb(1,2)]
  have tenants: "balance_tenants db' = balance_tenants db"
    using put(1) db'(1) by (metis list.set_map)
  have old: "balance_ok (cd_reservations db) x \<and> cb_id x < env_next_id (cd_env db)" if "x \<in> set (cd_balances db)" for x
    using ok that by (simp add: credits_ok_def)
  have "balance_ok (cd_reservations db') x \<and> cb_id x < env_next_id (cd_env db')" if "x \<in> set (cd_balances db')" for x
  proof (cases "x = sb")
    case True
    then show ?thesis using sb old [of b] balance_of_Some [OF b] db'(2) by auto
  next
    case False
    then have "x \<in> set (cd_balances db)" "cb_tenant_id x \<noteq> t" using put(2) that db'(1) by auto
    then show ?thesis using old [of x] others [of "cb_tenant_id x"] db'(2) by (auto simp: balance_ok_def)
  qed
  then show ok': "credits_ok db'"
    using ok rs put(1) db'(1) tenants by (simp add: credits_ok_def put_balance_ids)
  show "balance_of t db' = Some sb" using put(3) sb(2) db'(1) by (simp add: balance_of_iff [OF ok'])
  show "balance_of t' db' = balance_of t' db" if t': "t' \<noteq> t" for t'
  proof -
    have "find (\<lambda>x. cb_tenant_id x = t') (put_balance sb bs) = find (\<lambda>x. cb_tenant_id x = t') bs"
      if "\<forall>x \<in> set bs. cb_id x = cb_id sb \<longrightarrow> cb_tenant_id x = t" for bs
      using that t' sb(2) by (induction bs) (auto simp: put_balance_def)
    moreover have "\<forall>x \<in> set (cd_balances db). cb_id x = cb_id sb \<longrightarrow> cb_tenant_id x = t"
      using ok balance_of_Some [OF b] sb(1) by (auto simp: credits_ok_def distinct_map dest: inj_onD)
    ultimately show ?thesis by (simp add: balance_of_def db'(1))
  qed
qed

lemma find_snoc: "find P (xs @ [x]) = (case find P xs of None \<Rightarrow> if P x then Some x else None | Some y \<Rightarrow> Some y)"
  by (induction xs) auto

lemma get_balance_facts:
  assumes ok: "credits_ok db" and g: "get_balance sha t db = (b, db1)"
  shows "credits_ok db1" "balance_of t db1 = Some b" "cd_reservations db1 = cd_reservations db"
    "cd_transactions db1 = cd_transactions db" "env_next_id (cd_env db) \<le> env_next_id (cd_env db1)"
    "\<And>t'. t' \<noteq> t \<Longrightarrow> balance_of t' db1 = balance_of t' db"
    "balance_of t db = None \<Longrightarrow> cb_balance b = 0 \<and> cb_reserved b = 0"
    "balance_of t db \<noteq> None \<Longrightarrow> db1 = db"
proof -
  have all: "credits_ok db1 \<and> balance_of t db1 = Some b \<and> cd_reservations db1 = cd_reservations db
     \<and> cd_transactions db1 = cd_transactions db \<and> env_next_id (cd_env db) \<le> env_next_id (cd_env db1)
     \<and> (\<forall>t'. t' \<noteq> t \<longrightarrow> balance_of t' db1 = balance_of t' db)
     \<and> (balance_of t db = None \<longrightarrow> cb_balance b = 0 \<and> cb_reserved b = 0)
     \<and> (balance_of t db \<noteq> None \<longrightarrow> db1 = db)"
  proof (cases "balance_of t db")
    case None
    then have no_t: "t \<notin> balance_tenants db"
      by (auto simp: balance_of_def find_None_iff)
    have ids: "\<And>x. x \<in> set (cd_balances db) \<Longrightarrow> cb_id x < env_next_id (cd_env db)"
      "\<And>r. r \<in> set (cd_reservations db) \<Longrightarrow> reservation_ok (balance_tenants db) (env_next_id (cd_env db)) r"
      using ok by (auto simp: credits_ok_def)
    then have fresh: "env_next_id (cd_env db) \<notin> cb_id ` set (cd_balances db)" by force
    have rok: "reservation_ok (insert t (balance_tenants db)) (Suc (Suc (env_next_id (cd_env db)))) r"
      if "r \<in> set (cd_reservations db)" for r
      using ids(2) [OF that] by (rule reservation_ok_mono) auto
    from no_t have none: "pending_amounts t (cd_reservations db) = []"
      using ok by (auto simp: pending_amounts_def credits_ok_def reservation_ok_def filter_empty_conv)
    show ?thesis
      using g None ok no_t none fresh rok
      by (auto simp: get_balance_def Let_def credits_ok_def balance_ok_def balance_of_def
          find_snoc ids(1) less_SucI split: option.splits)
  qed (use g ok in \<open>simp add: get_balance_def\<close>)
  show "credits_ok db1" "balance_of t db1 = Some b" "cd_reservations db1 = cd_reservations db"
    "cd_transactions db1 = cd_transactions db" "env_next_id (cd_env db) \<le> env_next_id (cd_env db1)"
    "\<And>t'. t' \<noteq> t \<Longrightarrow> balance_of t' db1 = balance_of t' db"
    "balance_of t db = None \<Longrightarrow> cb_balance b = 0 \<and> cb_reserved b = 0"
    "balance_of t db \<noteq> None \<Longrightarrow> db1 = db"
    using all by simp_all
qed

section \<open>The ledger\<close>

text \<open>Each transaction starts from the balance the one before it left; the first starts
  from zero and the last leaves the current balance.\<close>

fun ledger_links :: "rat \<Rightarrow> (rat \<times> rat) list \<Rightarrow> rat \<Rightarrow> bool" where
  "ledger_links x [] y \<longleftrightarrow> x = y"
| "ledger_links x ((a, b) # ls) y \<longleftrightarrow> a = x \<and> ledger_links b ls y"

definition ledger :: "uuid \<Rightarrow> credit_db \<Rightarrow> (rat \<times> rat) list" where
  "ledger t db = map (\<lambda>r. (ct_balance_before (row_values r), ct_balance_after (row_values r)))
     (tenant_rows t (cd_transactions db))"

definition balance_value :: "uuid \<Rightarrow> credit_db \<Rightarrow> rat" where
  "balance_value t db = (case balance_of t db of None \<Rightarrow> 0 | Some b \<Rightarrow> cb_balance b)"

definition ledger_ok :: "credit_db \<Rightarrow> bool" where
  "ledger_ok db \<longleftrightarrow> (\<forall>t. ledger_links 0 (ledger t db) (balance_value t db))"

lemma ledger_links_snoc: "ledger_links x ls y \<Longrightarrow> ledger_links x (ls @ [(y, z)]) z"
  by (induction x ls y rule: ledger_links.induct) auto

lemma ledger_ok_keep:
  "ledger_ok db \<Longrightarrow> cd_transactions db' = cd_transactions db \<Longrightarrow> (\<And>t. balance_value t db' = balance_value t db)
     \<Longrightarrow> ledger_ok db'"
  by (simp add: ledger_ok_def ledger_def)

lemma ledger_ok_add:
  assumes ok: "ledger_ok db" and r: "cd_transactions db' = cd_transactions db @ [r]" "row_tenant r = t"
    "ct_balance_before (row_values r) = balance_value t db" "ct_balance_after (row_values r) = balance_value t db'"
    and others: "\<And>t'. t' \<noteq> t \<Longrightarrow> balance_value t' db' = balance_value t' db"
  shows "ledger_ok db'"
  unfolding ledger_ok_def
proof
  fix u
  have old: "ledger_links 0 (ledger u db) (balance_value u db)" using ok by (simp add: ledger_ok_def)
  show "ledger_links 0 (ledger u db') (balance_value u db')"
  proof (cases "u = t")
    case True
    have "ledger t db' = ledger t db @ [(balance_value t db, balance_value t db')]"
      using r by (simp add: ledger_def tenant_rows_def)
    then show ?thesis using ledger_links_snoc [OF old] True by simp
  next
    case False
    then show ?thesis using old others r by (simp add: ledger_def tenant_rows_def)
  qed
qed

section \<open>Every operation keeps the invariant\<close>

lemma pending_amounts_snoc:
  "pending_amounts t (rs @ [r]) =
     pending_amounts t rs @ (if cv_tenant_id r = t \<and> cv_status r = pending then [cv_amount r] else [])"
  by (simp add: pending_amounts_def)

lemma pending_amounts_settle:
  assumes "distinct (map cv_id rs)" and "r \<in> set rs" and "cv_status r = pending" and "s \<noteq> pending"
  shows "sum_list (pending_amounts (cv_tenant_id r) (put_reservation (r\<lparr>cv_status := s\<rparr>) rs))
           = sum_list (pending_amounts (cv_tenant_id r) rs) - cv_amount r"
    and "t' \<noteq> cv_tenant_id r \<Longrightarrow> pending_amounts t' (put_reservation (r\<lparr>cv_status := s\<rparr>) rs) = pending_amounts t' rs"
proof -
  have other: "put_reservation (r\<lparr>cv_status := s\<rparr>) xs = xs" if "cv_id r \<notin> cv_id ` set xs" for xs
    using that by (auto simp: put_reservation_def intro!: map_idI) (metis imageI)
  obtain xs ys where rs: "rs = xs @ r # ys" using assms(2) by (auto simp: in_set_conv_decomp)
  then have "put_reservation (r\<lparr>cv_status := s\<rparr>) rs = xs @ r\<lparr>cv_status := s\<rparr> # ys"
    using other [of xs] other [of ys] assms(1) by (simp add: put_reservation_def)
  then show "sum_list (pending_amounts (cv_tenant_id r) (put_reservation (r\<lparr>cv_status := s\<rparr>) rs))
           = sum_list (pending_amounts (cv_tenant_id r) rs) - cv_amount r"
    and "t' \<noteq> cv_tenant_id r \<Longrightarrow> pending_amounts t' (put_reservation (r\<lparr>cv_status := s\<rparr>) rs) = pending_amounts t' rs"
    using assms(3,4) by (simp_all add: rs pending_amounts_def)
qed

lemma balance_value_get:
  assumes "credits_ok db" and "get_balance sha t db = (b, db1)"
  shows "balance_value u db1 = balance_value u db" and "balance_value t db1 = cb_balance b"
proof -
  note g = get_balance_facts [OF assms]
  show "balance_value t db1 = cb_balance b" using g(2) by (simp add: balance_value_def)
  show "balance_value u db1 = balance_value u db"
    using g(2,6,7,8) by (cases "u = t"; cases "balance_of t db") (auto simp: balance_value_def)
qed

lemma reserve_facts:
  assumes ok: "credits_ok db" and a: "micro a" "0 \<le> a"
    and run: "reserve_credits sha dec_str t task a db = Inr (rid, db')"
  shows "credits_ok db'" "cd_transactions db' = cd_transactions db"
    "\<And>u. balance_value u db' = balance_value u db"
    "\<exists>r. cd_reservations db' = cd_reservations db @ [r] \<and> cv_id r = rid \<and> cv_tenant_id r = t
       \<and> cv_amount r = a \<and> cv_status r = pending"
proof -
  obtain b db1 where g: "get_balance sha t db = (b, db1)" by fastforce
  note gf = get_balance_facts [OF ok g]
  note bf = balance_facts [OF gf(1,2)]
  obtain sb sr env where le: "a \<le> available b"
    and sb: "store_balance (b\<lparr>cb_reserved := dadd (cb_reserved b) a, cb_updated_at := env_now (cd_env db1)\<rparr>) = Inr sb"
    and sr: "store_reservation (new_reservation t task a (cd_env db1)) = Inr sr"
    and rid: "rid = env_next_id (cd_env db1)" and env: "env_next_id (cd_env db1) < env_next_id env"
    and db': "db' = db1\<lparr>cd_balances := put_balance sb (cd_balances db1),
        cd_reservations := cd_reservations db1 @ [sr], cd_env := env\<rparr>"
    using run by (force simp: reserve_credits_def g Let_def result_simps new_reservation_def split: if_splits)
  have a14: "\<bar>a\<bar> < 10 ^ 14" using le a bf(5-7,9) by simp
  have sr': "cv_id sr = rid" "cv_tenant_id sr = t" "cv_amount sr = a" "cv_status sr = pending"
    using sr numeric_id [OF a(1) a14] rid by (auto simp: store_reservation_def new_reservation_def)
  have sum: "dadd (cb_reserved b) a = cb_reserved b + a" using bf(4-7,9) a le by (intro dadd_exact) auto
  have "sb = b\<lparr>cb_reserved := cb_reserved b + a, cb_updated_at := env_now (cd_env db1)\<rparr>"
    by (rule store_balance_exact) (use sb bf(3-7,9) a le in \<open>auto simp: sum\<close>)
  then have sb': "cb_id sb = cb_id b" "cb_tenant_id sb = t" "cb_balance sb = cb_balance b" "cb_reserved sb = cb_reserved b + a"
    using bf(2) by simp_all
  have rs: "cd_reservations db' = cd_reservations db1 @ [sr]" using db' by simp
  have rok: "\<forall>r \<in> set (cd_reservations db1). reservation_ok (balance_tenants db1) (env_next_id (cd_env db1)) r"
    and dist: "distinct (map cv_id (cd_reservations db1))"
    using gf(1) by (simp_all add: credits_ok_def)
  have "t \<in> balance_tenants db1" using bf(1,2) by auto
  then have "reservation_ok (balance_tenants db1) (env_next_id (cd_env db')) sr"
    using sr' a a14 env rid db' by (simp add: reservation_ok_def)
  then have p: "distinct (map cv_id (cd_reservations db'))"
    "\<And>r. r \<in> set (cd_reservations db') \<Longrightarrow> reservation_ok (balance_tenants db1) (env_next_id (cd_env db')) r"
    using rok dist sr'(1) rid env db' by (auto simp: rs reservation_ok_def dest: less_trans)
  have sok: "balance_ok (cd_reservations db') sb"
    using sb' sr' bf(2-7,9) bf(8) le a by (simp add: balance_ok_def rs pending_amounts_snoc)
  have nid: "cd_balances db' = put_balance sb (cd_balances db1)" "env_next_id (cd_env db1) \<le> env_next_id (cd_env db')"
    and oth: "\<And>t'. t' \<noteq> t \<Longrightarrow> pending_amounts t' (cd_reservations db') = pending_amounts t' (cd_reservations db1)"
    using env sr'(2) by (simp_all add: db' pending_amounts_snoc)
  note ok' = credits_ok_put [OF gf(1,2) sb'(1,2) sok nid oth p]
  show "credits_ok db'" by (rule ok'(1))
  show "cd_transactions db' = cd_transactions db" using gf(4) by (simp add: db')
  show "balance_value u db' = balance_value u db" for u
    using balance_value_get(1) [OF ok g, of u] ok'(2) ok'(3) [of u] gf(2) sb'(3)
    by (cases "u = t") (auto simp: balance_value_def)
  show "\<exists>r. cd_reservations db' = cd_reservations db @ [r] \<and> cv_id r = rid \<and> cv_tenant_id r = t
       \<and> cv_amount r = a \<and> cv_status r = pending"
    using sr' gf(3) by (simp add: db')
qed

lemma pending_reservation_Some:
  "pending_reservation t i db = Some r \<Longrightarrow>
     r \<in> set (cd_reservations db) \<and> cv_id r = i \<and> cv_tenant_id r = t \<and> cv_status r = pending"
  by (auto simp: pending_reservation_def dest: find_Some_in)

text \<open>A pending reservation is covered by its tenant's reserved amount.\<close>

lemma pending_covered:
  assumes ok: "credits_ok db" and r: "pending_reservation t i db = Some r"
  obtains b where "balance_of t db = Some b" "micro (cv_amount r)" "0 \<le> cv_amount r" "cv_amount r \<le> cb_reserved b"
proof -
  note r = pending_reservation_Some [OF r]
  have rok: "\<forall>x \<in> set (cd_reservations db). reservation_ok (balance_tenants db) (env_next_id (cd_env db)) x"
    and dist: "distinct (map cv_id (cd_reservations db))" using ok by (simp_all add: credits_ok_def)
  then have "t \<in> balance_tenants db" and a: "micro (cv_amount r)" "0 \<le> cv_amount r"
    using r by (auto simp: reservation_ok_def)
  then obtain b where b: "balance_of t db = Some b" using balance_of_iff [OF ok] by blast
  have "0 \<le> sum_list (pending_amounts t (put_reservation (r\<lparr>cv_status := released\<rparr>) (cd_reservations db)))"
    using rok by (intro sum_list_nonneg) (auto simp: pending_amounts_def put_reservation_def reservation_ok_def split: if_splits)
  then have "cv_amount r \<le> cb_reserved b"
    using pending_amounts_settle(1) [OF dist, of r released] r balance_facts(8) [OF ok b] by auto
  then show ?thesis by (rule that [OF b a])
qed

lemma store_transaction_exact:
  assumes "store_transaction tx = Inr stx" and "micro (ct_amount tx)" "\<bar>ct_amount tx\<bar> < 10 ^ 14"
    and "micro (ct_balance_before tx)" "\<bar>ct_balance_before tx\<bar> < 10 ^ 14"
    and "micro (ct_balance_after tx)" "\<bar>ct_balance_after tx\<bar> < 10 ^ 14"
  shows "stx = tx"
  using assms numeric_id [of "ct_amount tx"] numeric_id [of "ct_balance_before tx"] numeric_id [of "ct_balance_after tx"]
  by (auto simp: store_transaction_Inr)

text \<open>What the new balance of a settlement is: the old one, less the amount if it is charged.\<close>

definition charges :: "(rat \<Rightarrow> rat \<Rightarrow> rat) \<Rightarrow> bool \<Rightarrow> bool" where
  "charges nb charge \<longleftrightarrow> (\<forall>x y. micro x \<and> micro y \<and> 0 \<le> y \<and> y \<le> x \<and> x < 10 ^ 14
     \<longrightarrow> nb x y = x - (if charge then y else 0))"

lemma settle_facts:
  assumes ok: "credits_ok db" and s: "s \<noteq> pending"
    and nb: "charges nb charge"
    and run: "settle_reservation sha dec_str s dir txs verb nb t i u db = Inr (row, db')"
  obtains r b sb where "pending_reservation t i db = Some r" "balance_of t db = Some b"
    "cd_reservations db' = put_reservation (r\<lparr>cv_status := s\<rparr>) (cd_reservations db)"
    "credits_ok db'" "balance_of t db' = Some sb" "\<And>t'. t' \<noteq> t \<Longrightarrow> balance_of t' db' = balance_of t' db"
    "cb_balance sb = cb_balance b - (if charge then cv_amount r else 0)" "cb_reserved sb = cb_reserved b - cv_amount r"
    "cd_transactions db' = cd_transactions db @ [row]" "row_tenant row = t"
    "ct_balance_before (row_values row) = cb_balance b" "ct_balance_after (row_values row) = cb_balance sb"
proof -
  obtain r b where r: "pending_reservation t i db = Some r" and b: "balance_of t db = Some b"
    using run by (auto simp: settle_reservation_def split: option.splits)
  define b' where "b' = b\<lparr>cb_balance := nb (cb_balance b) (cv_amount r),
    cb_reserved := dsub (cb_reserved b) (cv_amount r), cb_updated_at := env_now (cd_env db)\<rparr>"
  define tx where "tx = \<lparr>ct_user_id = u, ct_task_type = cv_task_type r, ct_amount = cv_amount r,
    ct_direction = dir, ct_balance_before = cb_balance b, ct_balance_after = cb_balance b',
    ct_reservation_id = Some i, ct_status = txs\<rparr>"
  obtain sb xs env0 env where sb: "store_balance b' = Inr sb"
    and it: "insert_transaction sha dec_str t (''credits.transaction.'' @ verb) tx
               (cd_transactions db, cd_env db) = Inr (row, xs, env0)"
    and env: "env_next_id env0 < env_next_id env"
    and db': "db' = db\<lparr>cd_balances := put_balance sb (cd_balances db),
      cd_reservations := put_reservation (r\<lparr>cv_status := s\<rparr>) (cd_reservations db),
      cd_transactions := xs, cd_env := env\<rparr>"
    using run unfolding settle_reservation_def r b option.case Let_def b'_def [symmetric] tx_def
    by (force simp: result_simps split: prod.splits)
  note bf = balance_facts [OF ok b] and rf = pending_reservation_Some [OF r] and itf = insert_transaction_facts [OF it]
  have a: "micro (cv_amount r)" "0 \<le> cv_amount r" "cv_amount r \<le> cb_reserved b"
    using pending_covered [OF ok r] b by auto
  have nb': "nb (cb_balance b) (cv_amount r) = cb_balance b - (if charge then cv_amount r else 0)"
    using bf a nb by (simp add: charges_def)
  have d: "dsub (cb_reserved b) (cv_amount r) = cb_reserved b - cv_amount r"
    using bf(4-7) a by (intro dsub_exact) auto
  have "sb = b'"
    by (rule store_balance_exact) (use sb bf(3-7) a in \<open>auto simp: b'_def nb' d\<close>)
  then have sb': "cb_id sb = cb_id b" "cb_tenant_id sb = t"
    "cb_balance sb = cb_balance b - (if charge then cv_amount r else 0)" "cb_reserved sb = cb_reserved b - cv_amount r"
    using bf(2) by (simp_all add: b'_def nb' d)
  have "row_values row = tx"
    by (rule store_transaction_exact [OF itf(3)]) (use bf(3-7) a in \<open>auto simp: tx_def b'_def nb' d\<close>)
  then have row: "ct_balance_before (row_values row) = cb_balance b" "ct_balance_after (row_values row) = cb_balance sb"
    by (simp_all add: tx_def \<open>sb = b'\<close>)
  have dist: "distinct (map cv_id (cd_reservations db))"
    and rok: "\<forall>x \<in> set (cd_reservations db). reservation_ok (balance_tenants db) (env_next_id (cd_env db)) x"
    using ok by (simp_all add: credits_ok_def)
  have rs': "cd_reservations db' = put_reservation (r\<lparr>cv_status := s\<rparr>) (cd_reservations db)" by (simp add: db')
  have le: "env_next_id (cd_env db) \<le> env_next_id (cd_env db')" using env itf(4) by (simp add: db')
  have p: "distinct (map cv_id (cd_reservations db'))" using dist by (simp add: rs')
  have p': "reservation_ok (balance_tenants db) (env_next_id (cd_env db')) x"
    if x: "x \<in> set (cd_reservations db')" for x
  proof -
    obtain y where y: "y \<in> set (cd_reservations db)" "x = y \<or> x = r\<lparr>cv_status := s\<rparr> \<and> y = r"
      using x rf by (auto simp: rs' put_reservation_def split: if_splits)
    then have "reservation_ok (balance_tenants db) (env_next_id (cd_env db')) y"
      using rok le by (blast intro: reservation_ok_mono)
    then show ?thesis using y(2) by (auto simp: reservation_ok_def)
  qed
  have sum: "sum_list (pending_amounts t (cd_reservations db')) = cb_reserved b - cv_amount r"
    using pending_amounts_settle(1) [OF dist, of r s] rf s bf(8) by (simp add: rs')
  then have sok: "balance_ok (cd_reservations db') sb"
    using sb' bf(3-7) a by (auto simp: balance_ok_def)
  have bal: "cd_balances db' = put_balance sb (cd_balances db)" by (simp add: db')
  have oth: "\<And>t'. t' \<noteq> t \<Longrightarrow> pending_amounts t' (cd_reservations db') = pending_amounts t' (cd_reservations db)"
    using pending_amounts_settle(2) [OF dist, of r s] rf s by (auto simp: rs')
  note ok' = credits_ok_put [OF ok b sb'(1,2) sok bal le oth p p']
  have "cd_transactions db' = cd_transactions db @ [row]" using itf(1) by (simp add: db')
  from that [OF r b rs' ok'(1,2) _ sb'(3,4) this itf(2) row] ok'(3) show ?thesis by blast
qed

lemma settle_total:
  assumes ok: "credits_ok db" and r: "pending_reservation t i db = Some r"
    and nb: "charges nb charge"
  shows "\<exists>row db'. settle_reservation sha dec_str s dir txs verb nb t i u db = Inr (row, db')"
proof -
  obtain b where b: "balance_of t db = Some b" and a: "micro (cv_amount r)" "0 \<le> cv_amount r" "cv_amount r \<le> cb_reserved b"
    by (rule pending_covered [OF ok r])
  note bf = balance_facts [OF ok b]
  have nb': "nb (cb_balance b) (cv_amount r) = cb_balance b - (if charge then cv_amount r else 0)"
    using bf a nb by (simp add: charges_def)
  have d: "dsub (cb_reserved b) (cv_amount r) = cb_reserved b - cv_amount r"
    using bf(4-7) a by (intro dsub_exact) auto
  have num: "numeric_20_6 x = Inr x" if "micro x" "0 \<le> x" "x \<le> cb_balance b" for x
    using that bf(5) by (intro numeric_id) auto
  have "numeric_20_6 (cb_balance b - (if charge then cv_amount r else 0)) = Inr (cb_balance b - (if charge then cv_amount r else 0))"
    "numeric_20_6 (cb_reserved b - cv_amount r) = Inr (cb_reserved b - cv_amount r)"
    "numeric_20_6 (cv_amount r) = Inr (cv_amount r)" "numeric_20_6 (cb_balance b) = Inr (cb_balance b)"
    using bf(3-7) a by (auto intro!: num)
  then show ?thesis
    by (auto simp: settle_reservation_def r b Let_def nb' d store_balance_def insert_transaction_def
        store_transaction_def split: prod.splits)
qed

lemma confirm_charge: "charges dsub True" and release_charge: "charges (\<lambda>balance _. balance) False"
  by (simp_all add: charges_def dsub_exact)

lemmas confirm_facts = settle_facts [where charge = True, OF _ _ confirm_charge, unfolded if_True]
lemmas release_facts = settle_facts [where charge = False, OF _ _ release_charge, unfolded if_False]

lemma add_facts:
  assumes ok: "credits_ok db" and a: "money a" "0 \<le> a"
    and run: "add_credits sha dec_str t a reason u db = Inr (row, db')"
  shows "credits_ok db'" "cd_reservations db' = cd_reservations db"
    "cd_transactions db' = cd_transactions db @ [row]" "row_tenant row = t"
    "balance_value t db' = balance_value t db + a" "\<And>t'. t' \<noteq> t \<Longrightarrow> balance_value t' db' = balance_value t' db"
    "ct_balance_before (row_values row) = balance_value t db" "ct_balance_after (row_values row) = balance_value t db'"
proof -
  obtain b db1 where g: "get_balance sha t db = (b, db1)" by fastforce
  note gf = get_balance_facts [OF ok g]
  note bf = balance_facts [OF gf(1,2)]
  define b' where "b' = b\<lparr>cb_balance := dadd (cb_balance b) a, cb_updated_at := env_now (cd_env db1)\<rparr>"
  define tx where "tx = \<lparr>ct_user_id = u, ct_task_type = reason, ct_amount = a, ct_direction = credit,
    ct_balance_before = cb_balance b, ct_balance_after = cb_balance b', ct_reservation_id = None,
    ct_status = tx_confirmed\<rparr>"
  obtain sb xs env0 env where sb: "store_balance b' = Inr sb"
    and it: "insert_transaction sha dec_str t ''credits.transaction.created'' tx
               (cd_transactions db1, cd_env db1) = Inr (row, xs, env0)"
    and env: "env_next_id env0 < env_next_id env"
    and db': "db' = db1\<lparr>cd_balances := put_balance sb (cd_balances db1), cd_transactions := xs, cd_env := env\<rparr>"
    using run unfolding add_credits_def g Let_def prod.case b'_def [symmetric] tx_def
    by (force simp: result_simps split: prod.splits)
  note itf = insert_transaction_facts [OF it]
  obtain x where x: "numeric_20_6 (dadd (cb_balance b) a) = Inr x" using sb by (auto simp: store_balance_Inr b'_def)
  have bmoney: "money (cb_balance b)" using bf(3,5-7) by (auto simp: money_def)
  have xs: "x = cb_balance b + a" by (rule quantize_dadd [OF numeric_quantize [OF x] bmoney a(1)])
  have x14: "micro x" "x < 10 ^ 14" using numeric_Inr [OF x] by auto
  have am: "micro a" "a < 10 ^ 14" using a x14 xs bf(6,7) money_micro by auto
  have sum: "dadd (cb_balance b) a = cb_balance b + a"
    using bf(3,6,7) am x14 xs a by (intro dadd_exact) auto
  have "sb = b'"
    by (rule store_balance_exact) (use sb bf(3-7) x14 xs a in \<open>auto simp: b'_def sum\<close>)
  then have sb': "cb_id sb = cb_id b" "cb_tenant_id sb = t" "cb_balance sb = cb_balance b + a" "cb_reserved sb = cb_reserved b"
    using bf(2) by (simp_all add: b'_def sum)
  have "row_values row = tx"
    by (rule store_transaction_exact [OF itf(3)]) (use bf(3-7) x14 xs am a in \<open>auto simp: tx_def b'_def sum\<close>)
  then have row: "ct_balance_before (row_values row) = cb_balance b" "ct_balance_after (row_values row) = cb_balance sb"
    by (simp_all add: tx_def \<open>sb = b'\<close>)
  have le: "env_next_id (cd_env db1) \<le> env_next_id (cd_env db')" using env itf(4) by (simp add: db')
  have rs: "cd_reservations db' = cd_reservations db1" by (simp add: db')
  have sok: "balance_ok (cd_reservations db') sb"
    using sb' bf(2-7) bf(8) a x14 xs by (simp add: balance_ok_def rs)
  have bal: "cd_balances db' = put_balance sb (cd_balances db1)" by (simp add: db')
  have p: "distinct (map cv_id (cd_reservations db'))"
    "\<And>r. r \<in> set (cd_reservations db') \<Longrightarrow> reservation_ok (balance_tenants db1) (env_next_id (cd_env db')) r"
    using gf(1) le by (auto simp: credits_ok_def rs intro: reservation_ok_mono)
  have oth: "\<And>t'. t' \<noteq> t \<Longrightarrow> pending_amounts t' (cd_reservations db') = pending_amounts t' (cd_reservations db1)"
    by (simp add: rs)
  note ok' = credits_ok_put [OF gf(1,2) sb'(1,2) sok bal le oth p]
  note bv = balance_value_get [OF ok g]
  show "credits_ok db'" by (rule ok'(1))
  show "cd_reservations db' = cd_reservations db" using gf(3) rs by simp
  show "cd_transactions db' = cd_transactions db @ [row]" "row_tenant row = t" using itf(1,2) gf(4) by (simp_all add: db')
  have bt: "balance_value t db = cb_balance b" using bv(1) [of t] bv(2) by simp
  then show "balance_value t db' = balance_value t db + a"
    "ct_balance_before (row_values row) = balance_value t db" "ct_balance_after (row_values row) = balance_value t db'"
    using ok'(2) sb'(3) row by (simp_all add: balance_value_def [of t db'])
  show "balance_value t' db' = balance_value t' db" if "t' \<noteq> t" for t'
    using ok'(3) that bv(1) [of t'] by (simp add: balance_value_def)
qed

lemma reserve_iff:
  assumes ok: "credits_ok db" and a: "micro a" "0 \<le> a"
  shows "(\<exists>rid db'. reserve_credits sha dec_str t task a db = Inr (rid, db'))
    \<longleftrightarrow> a \<le> balance_value t db - sum_list (pending_amounts t (cd_reservations db))"
proof -
  obtain b db1 where g: "get_balance sha t db = (b, db1)" by fastforce
  note gf = get_balance_facts [OF ok g]
  note bf = balance_facts [OF gf(1,2)]
  have av: "available b = balance_value t db - sum_list (pending_amounts t (cd_reservations db))"
    using bf(8,9) gf(3) balance_value_get(1) [OF ok g, of t] balance_value_get(2) [OF ok g] by simp
  have "\<exists>rid db'. reserve_credits sha dec_str t task a db = Inr (rid, db')" if le: "a \<le> available b"
  proof -
    have sum: "dadd (cb_reserved b) a = cb_reserved b + a" using bf(4-7,9) a le by (intro dadd_exact) auto
    have "numeric_20_6 (cb_balance b) = Inr (cb_balance b)" "numeric_20_6 a = Inr a"
      "numeric_20_6 (cb_reserved b + a) = Inr (cb_reserved b + a)"
      using bf(3-7,9) a le by (auto intro!: numeric_id)
    then show ?thesis using le
      by (simp add: reserve_credits_def g Let_def store_balance_def store_reservation_def new_reservation_def sum)
  qed
  moreover have "a \<le> available b" if "reserve_credits sha dec_str t task a db = Inr (rid, db')" for rid db'
    using that by (simp add: reserve_credits_def g Let_def split: if_splits)
  ultimately show ?thesis unfolding av [symmetric] by blast
qed

section \<open>Histories\<close>

text \<open>Committed operations of any tenants, in any order.  Amounts have six places and are
  not negative, as the callers' literals and the amounts of invoices are.\<close>

inductive credit_step :: "sha \<Rightarrow> (rat \<Rightarrow> string) \<Rightarrow> credit_db \<Rightarrow> credit_db \<Rightarrow> bool" for sha dec_str where
  step_get: "get_balance sha t db = (b, db') \<Longrightarrow> credit_step sha dec_str db db'"
| step_reserve: "money a \<Longrightarrow> 0 \<le> a \<Longrightarrow> reserve_credits sha dec_str t task a db = Inr (rid, db')
    \<Longrightarrow> credit_step sha dec_str db db'"
| step_confirm: "confirm_credits sha dec_str t rid u db = Inr (row, db') \<Longrightarrow> credit_step sha dec_str db db'"
| step_release: "release_credits sha dec_str t rid u db = Inr (row, db') \<Longrightarrow> credit_step sha dec_str db db'"
| step_add: "money a \<Longrightarrow> 0 \<le> a \<Longrightarrow> add_credits sha dec_str t a reason u db = Inr (row, db')
    \<Longrightarrow> credit_step sha dec_str db db'"

inductive_cases credit_stepE: "credit_step sha dec_str db db'"

definition no_credits :: "credit_db \<Rightarrow> bool" where
  "no_credits db \<longleftrightarrow> cd_balances db = [] \<and> cd_reservations db = [] \<and> cd_transactions db = []"

lemma settled_ledger:
  assumes "ledger_ok db" and "balance_of t db = Some b" and "balance_of t db' = Some sb"
    and "\<And>t'. t' \<noteq> t \<Longrightarrow> balance_of t' db' = balance_of t' db"
    and "cd_transactions db' = cd_transactions db @ [row]" and "row_tenant row = t"
    and "ct_balance_before (row_values row) = cb_balance b" "ct_balance_after (row_values row) = cb_balance sb"
  shows "ledger_ok db'"
  by (rule ledger_ok_add [OF assms(1,5,6)]) (use assms in \<open>simp_all add: balance_value_def\<close>)

text \<open>Settled reservations stay settled, and ids are never reused.\<close>

definition settled_in :: "uuid \<Rightarrow> credit_db \<Rightarrow> bool" where
  "settled_in i db \<longleftrightarrow> (\<exists>r \<in> set (cd_reservations db). cv_id r = i \<and> cv_status r \<noteq> pending)"

lemma settled_put: "settled_in i db \<Longrightarrow> s \<noteq> pending \<Longrightarrow>
    cd_reservations db' = put_reservation (r\<lparr>cv_status := s\<rparr>) (cd_reservations db) \<Longrightarrow> settled_in i db'"
  unfolding settled_in_def put_reservation_def
  by (elim bexE conjE) (rule_tac x = "if cv_id ra = cv_id r then r\<lparr>cv_status := s\<rparr> else ra" in bexI, auto)

lemma credit_step_ok:
  assumes "credit_step sha dec_str db db'" and ok: "credits_ok db" and led: "ledger_ok db"
  shows "credits_ok db' \<and> ledger_ok db' \<and> (\<forall>i. settled_in i db \<longrightarrow> settled_in i db')"
  using assms(1)
proof cases
  case (step_get t b)
  note g = get_balance_facts [OF ok step_get]
  show ?thesis using g(1,3) ledger_ok_keep [OF led g(4)] balance_value_get(1) [OF ok step_get]
    by (simp add: settled_in_def)
next
  case (step_reserve a t task rid)
  note f = reserve_facts [OF ok money_micro [OF step_reserve(1)] step_reserve(2,3)]
  show ?thesis using f(1,4) ledger_ok_keep [OF led f(2,3)] by (auto simp: settled_in_def)
next
  case (step_confirm t rid u row)
  show ?thesis
    by (rule confirm_facts [OF ok _ step_confirm [unfolded confirm_credits_def]]) (auto intro: settled_ledger [OF led] settled_put)
next
  case (step_release t rid u row)
  show ?thesis
    by (rule release_facts [OF ok _ step_release [unfolded release_credits_def]]) (auto intro: settled_ledger [OF led] settled_put)
next
  case (step_add a t reason u row)
  note f = add_facts [OF ok step_add]
  have "ledger_ok db'" by (rule ledger_ok_add [OF led f(3,4,7,8,6)])
  then show ?thesis using f(1,2) by (simp add: settled_in_def)
qed

lemma credit_history_ok:
  assumes "(credit_step sha dec_str)\<^sup>*\<^sup>* db0 db" and "credits_ok db0 \<and> ledger_ok db0"
  shows "credits_ok db \<and> ledger_ok db \<and> (\<forall>i. settled_in i db0 \<longrightarrow> settled_in i db)"
  using assms
proof (induction rule: rtranclp_induct)
  case (step db1 db2)
  then show ?case using credit_step_ok by blast
qed simp

lemma no_credits_ok: "no_credits db \<Longrightarrow> credits_ok db \<and> ledger_ok db"
  by (simp add: no_credits_def credits_ok_def ledger_ok_def ledger_def balance_value_def balance_of_def tenant_rows_def)

lemmas reachable_credits_ok = credit_history_ok [OF _ no_credits_ok]

lemma settled_None: "credits_ok db \<Longrightarrow> settled_in i db \<Longrightarrow> pending_reservation t i db = None"
  by (auto simp: pending_reservation_def find_None_iff settled_in_def credits_ok_def distinct_map dest: inj_onD)

lemma settle_settles:
  assumes "credits_ok db" and "s \<noteq> pending" and "pending_reservation t i db = Some r"
    and "cd_reservations db' = put_reservation (r\<lparr>cv_status := s\<rparr>) (cd_reservations db)"
  shows "settled_in i db'"
  using assms(2,4) pending_reservation_Some [OF assms(3)]
  by (auto simp: settled_in_def put_reservation_def intro!: bexI [where x = "r\<lparr>cv_status := s\<rparr>"] image_eqI [where x = r])

lemma confirm_settles:
  assumes ok: "credits_ok db"
  shows "confirm_credits sha dec_str t i u db = Inr (row, db') \<Longrightarrow> settled_in i db'"
    and "release_credits sha dec_str t i u db = Inr (row, db') \<Longrightarrow> settled_in i db'"
proof -
  show "settled_in i db'" if "confirm_credits sha dec_str t i u db = Inr (row, db')"
    by (rule confirm_facts [OF ok _ that [unfolded confirm_credits_def]])
      (auto intro: settle_settles [OF ok, of confirmed])
  show "settled_in i db'" if "release_credits sha dec_str t i u db = Inr (row, db')"
    by (rule release_facts [OF ok _ that [unfolded release_credits_def]])
      (auto intro: settle_settles [OF ok, of released])
qed

section \<open>Properties\<close>

text \<open>(C18) No tenant is ever overdrawn: over every history of top-ups, reservations, confirmations
  and releases by any tenants, a tenant's reserved amount is exactly the sum of its pending
  reservations and never exceeds its balance, so what is available is never negative.\<close>

theorem credits_never_overdrawn:
  assumes "(credit_step sha dec_str)\<^sup>*\<^sup>* db0 db" and "no_credits db0" and "b \<in> set (cd_balances db)"
  shows "cb_reserved b = sum_list (map cv_amount
      (filter (\<lambda>r. cv_tenant_id r = cb_tenant_id b \<and> cv_status r = pending) (cd_reservations db)))
    \<and> 0 \<le> cb_reserved b \<and> cb_reserved b \<le> cb_balance b \<and> 0 \<le> available b"
proof -
  have ok: "credits_ok db" using reachable_credits_ok [OF assms(1,2)] by simp
  then have b: "balance_of (cb_tenant_id b) db = Some b" using assms(3) by (simp add: balance_of_iff)
  show ?thesis using balance_facts(6-9) [OF ok b] by (simp add: pending_amounts_def)
qed

text \<open>(C21) The ledger replays to the balance: over every history the transactions of a tenant,
  in order, each start from the balance the one before left, the first from zero, and the
  last leaves the balance on record.\<close>

theorem credit_ledger_replays:
  assumes "(credit_step sha dec_str)\<^sup>*\<^sup>* db0 db" and "no_credits db0"
  shows "ledger_links 0 (ledger t db) (balance_value t db)"
  using reachable_credits_ok [OF assms] by (simp add: ledger_ok_def)

text \<open>(C19) A pending reservation can always be settled, either way and whatever happened since
  it was made: neither confirmation nor release can fail, and after either, at any later
  time, both are refused with a ValueError.\<close>

theorem reservations_settle_once:
  assumes "(credit_step sha dec_str)\<^sup>*\<^sup>* db0 db" and "no_credits db0"
    and "pending_reservation t i db = Some r"
  shows "(\<exists>row db'. confirm_credits sha dec_str t i u db = Inr (row, db'))
    \<and> (\<exists>row db'. release_credits sha dec_str t i u db = Inr (row, db'))
    \<and> (\<forall>row db1 db2 t' u'. (confirm_credits sha dec_str t i u db = Inr (row, db1)
            \<or> release_credits sha dec_str t i u db = Inr (row, db1))
          \<and> (credit_step sha dec_str)\<^sup>*\<^sup>* db1 db2
        \<longrightarrow> confirm_credits sha dec_str t' i u' db2 = Inl (ValueError ''Reservation not found or already processed'')
          \<and> release_credits sha dec_str t' i u' db2 = Inl (ValueError ''Reservation not found or already processed''))"
proof (intro conjI allI impI)
  have ok: "credits_ok db" "ledger_ok db" using reachable_credits_ok [OF assms(1,2)] by simp_all
  show "\<exists>row db'. confirm_credits sha dec_str t i u db = Inr (row, db')"
    unfolding confirm_credits_def by (rule settle_total [OF ok(1) assms(3) confirm_charge])
  show "\<exists>row db'. release_credits sha dec_str t i u db = Inr (row, db')"
    unfolding release_credits_def by (rule settle_total [OF ok(1) assms(3) release_charge])
  fix row db1 db2 t' u'
  assume run: "(confirm_credits sha dec_str t i u db = Inr (row, db1)
      \<or> release_credits sha dec_str t i u db = Inr (row, db1)) \<and> (credit_step sha dec_str)\<^sup>*\<^sup>* db1 db2"
  then have "settled_in i db1" using confirm_settles [OF ok(1)] by blast
  moreover have "credit_step sha dec_str db db1"
    using run by (blast intro: step_confirm step_release)
  then have "credits_ok db1 \<and> ledger_ok db1" using credit_step_ok ok by blast
  ultimately have "pending_reservation t' i db2 = None"
    using credit_history_ok run settled_None by blast
  then show "confirm_credits sha dec_str t' i u' db2 = Inl (ValueError ''Reservation not found or already processed'')"
    and "release_credits sha dec_str t' i u' db2 = Inl (ValueError ''Reservation not found or already processed'')"
    by (simp_all add: confirm_credits_def release_credits_def settle_reservation_def)
qed

text \<open>What a reservation made by \<open>reserve_credits\<close> looks like when it is settled.\<close>

lemma reserved_pending:
  assumes ok: "credits_ok db" and a: "money a" "0 \<le> a"
    and run: "reserve_credits sha dec_str t task a db = Inr (i, db1)"
  obtains r where "pending_reservation t i db1 = Some r" "cv_amount r = a" "cv_tenant_id r = t" "credits_ok db1"
    "sum_list (pending_amounts t (cd_reservations db1)) = sum_list (pending_amounts t (cd_reservations db)) + a"
    "balance_value t db1 = balance_value t db"
proof -
  note f = reserve_facts [OF ok money_micro [OF a(1)] a(2) run]
  obtain r where r: "cd_reservations db1 = cd_reservations db @ [r]" "cv_id r = i" "cv_tenant_id r = t"
    "cv_amount r = a" "cv_status r = pending" using f(4) by blast
  have "i \<notin> cv_id ` set (cd_reservations db)"
    using f(1) r(1,2) by (auto simp: credits_ok_def)
  then have "find (\<lambda>r. cv_id r = i \<and> cv_tenant_id r = t \<and> cv_status r = pending) (cd_reservations db) = None"
    by (auto simp: find_None_iff)
  then have "pending_reservation t i db1 = Some r"
    using r by (simp add: pending_reservation_def find_snoc)
  then show ?thesis by (rule that) (use r f(1,3) in \<open>simp_all add: pending_amounts_snoc\<close>)
qed

lemma settled_sums:
  assumes "credits_ok db" and "pending_reservation t i db = Some r" and "s \<noteq> pending"
    and "cd_reservations db' = put_reservation (r\<lparr>cv_status := s\<rparr>) (cd_reservations db)"
  shows "sum_list (pending_amounts t (cd_reservations db')) = sum_list (pending_amounts t (cd_reservations db)) - cv_amount r"
  using pending_amounts_settle(1) [of "cd_reservations db" r s] assms pending_reservation_Some [OF assms(2)]
  by (auto simp: credits_ok_def)

text \<open>(C20) A reservation is accepted just when the amount is available.  Releasing it restores
  the balance and the reserved amount; confirming it lowers the balance by exactly the
  reserved amount and leaves the other reservations covered.\<close>

theorem reserve_then_settle:
  assumes reach: "(credit_step sha dec_str)\<^sup>*\<^sup>* db0 db" "no_credits db0" and a: "money a" "0 \<le> a"
  shows "((\<exists>i db1. reserve_credits sha dec_str t task a db = Inr (i, db1))
      \<longleftrightarrow> a \<le> balance_value t db - sum_list (pending_amounts t (cd_reservations db)))
    \<and> (\<forall>i db1 row db2. reserve_credits sha dec_str t task a db = Inr (i, db1) \<longrightarrow>
        (release_credits sha dec_str t i u db1 = Inr (row, db2) \<longrightarrow> balance_value t db2 = balance_value t db
           \<and> sum_list (pending_amounts t (cd_reservations db2)) = sum_list (pending_amounts t (cd_reservations db)))
      \<and> (confirm_credits sha dec_str t i u db1 = Inr (row, db2) \<longrightarrow> balance_value t db2 = balance_value t db - a
           \<and> sum_list (pending_amounts t (cd_reservations db2)) = sum_list (pending_amounts t (cd_reservations db))))"
proof (intro conjI [OF reserve_iff] allI impI)
  show ok: "credits_ok db" using reachable_credits_ok [OF reach] by simp
  show "micro a" "0 \<le> a" using a money_micro by auto
  fix i db1 row db2 assume run: "reserve_credits sha dec_str t task a db = Inr (i, db1)"
  obtain r where r: "pending_reservation t i db1 = Some r" "cv_amount r = a" "cv_tenant_id r = t" and ok1: "credits_ok db1"
    and eq: "sum_list (pending_amounts t (cd_reservations db1)) = sum_list (pending_amounts t (cd_reservations db)) + a"
      "balance_value t db1 = balance_value t db"
    by (rule reserved_pending [OF ok a run])
  show "(release_credits sha dec_str t i u db1 = Inr (row, db2) \<longrightarrow> balance_value t db2 = balance_value t db
           \<and> sum_list (pending_amounts t (cd_reservations db2)) = sum_list (pending_amounts t (cd_reservations db)))
      \<and> (confirm_credits sha dec_str t i u db1 = Inr (row, db2) \<longrightarrow> balance_value t db2 = balance_value t db - a
           \<and> sum_list (pending_amounts t (cd_reservations db2)) = sum_list (pending_amounts t (cd_reservations db)))"
  proof (intro conjI impI)
    assume "release_credits sha dec_str t i u db1 = Inr (row, db2)"
    note rel = this [unfolded release_credits_def]
    show "balance_value t db2 = balance_value t db"
      by (rule release_facts [OF ok1 _ rel]) (use eq r in \<open>auto simp: balance_value_def\<close>)
    show "sum_list (pending_amounts t (cd_reservations db2)) = sum_list (pending_amounts t (cd_reservations db))"
      by (rule release_facts [OF ok1 _ rel]) (use eq r settled_sums [OF ok1 r(1), of released db2] in auto)
  next
    assume "confirm_credits sha dec_str t i u db1 = Inr (row, db2)"
    note con = this [unfolded confirm_credits_def]
    show "balance_value t db2 = balance_value t db - a"
      by (rule confirm_facts [OF ok1 _ con]) (use eq r in \<open>auto simp: balance_value_def\<close>)
    show "sum_list (pending_amounts t (cd_reservations db2)) = sum_list (pending_amounts t (cd_reservations db))"
      by (rule confirm_facts [OF ok1 _ con]) (use eq r settled_sums [OF ok1 r(1), of confirmed db2] in auto)
  qed
qed

section \<open>Witnesses\<close>

definition ex_credit_db :: credit_db where
  "ex_credit_db = \<lparr>cd_balances = [], cd_reservations = [], cd_transactions = [],
     cd_env = \<lparr>env_trail = [], env_now = 1, env_next_id = 1\<rparr>\<rparr>"

lemma ex_no_credits: "no_credits ex_credit_db"
  by (simp add: no_credits_def ex_credit_db_def)

lemma ex_credit_amounts: "money 100" "money 30" "numeric_20_6 100 = Inr 100" "numeric_20_6 0 = Inr 0" "dadd 0 100 = 100"
  by code_simp+

lemma ex_top_up:
  "\<exists>row db. add_credits (\<lambda>s. s) (\<lambda>_. ''100'') 7 100 ''top-up'' None ex_credit_db = Inr (row, db)"
  by (auto simp: add_credits_def get_balance_def balance_of_def ex_credit_db_def Let_def store_balance_def ex_credit_amounts
      insert_transaction_def store_transaction_def split: prod.splits)

abbreviation ex_credit_step :: "credit_db \<Rightarrow> credit_db \<Rightarrow> bool" where
  "ex_credit_step \<equiv> credit_step (\<lambda>s. s) (\<lambda>_. ''100'')"

lemma ex_topped_up: "\<exists>db. ex_credit_step\<^sup>*\<^sup>* ex_credit_db db \<and> balance_value 7 db = 100 \<and> cd_reservations db = []"
proof -
  obtain row db where run: "add_credits (\<lambda>s. s) (\<lambda>_. ''100'') 7 100 ''top-up'' None ex_credit_db = Inr (row, db)"
    using ex_top_up by blast
  have "credits_ok ex_credit_db" using no_credits_ok [OF ex_no_credits] by simp
  note f = add_facts [OF this ex_credit_amounts(1) _ run]
  have "balance_value 7 ex_credit_db = 0" by (simp add: balance_value_def balance_of_def ex_credit_db_def)
  moreover have "ex_credit_step ex_credit_db db" by (rule step_add [OF ex_credit_amounts(1) _ run]) simp
  ultimately show ?thesis using f(2,5) by (auto simp: ex_credit_db_def)
qed

lemma ex_reserved:
  obtains db i r where "ex_credit_step\<^sup>*\<^sup>* ex_credit_db db" "pending_reservation 7 i db = Some r"
    "sum_list (pending_amounts 7 (cd_reservations db)) = 30" "balance_value 7 db = 100"
proof -
  obtain db where db: "ex_credit_step\<^sup>*\<^sup>* ex_credit_db db" "balance_value 7 db = 100" "cd_reservations db = []"
    using ex_topped_up by blast
  have ok: "credits_ok db" using reachable_credits_ok [OF db(1) ex_no_credits] by simp
  obtain i db1 where run: "reserve_credits (\<lambda>s. s) (\<lambda>_. ''100'') 7 ''report'' 30 db = Inr (i, db1)"
    using reserve_iff [OF ok money_micro [OF ex_credit_amounts(2)], of "\<lambda>s. s" "\<lambda>_. ''100''" 7 "''report''"] db
    by (auto simp: pending_amounts_def)
  have "ex_credit_step db db1" by (rule step_reserve [OF ex_credit_amounts(2) _ run]) simp
  then have reach: "ex_credit_step\<^sup>*\<^sup>* ex_credit_db db1" by (rule rtranclp.rtrancl_into_rtrancl [OF db(1)])
  show ?thesis
    by (rule reserved_pending [OF ok ex_credit_amounts(2) _ run]) (use that reach db in \<open>auto simp: pending_amounts_def\<close>)
qed

lemma credits_never_overdrawn_witness:
  "\<exists>(db :: credit_db) b. b \<in> set (cd_balances db) \<and> cb_tenant_id b = 7 \<and> cb_reserved b = 30 \<and> 30 \<le> cb_balance b"
proof (rule ex_reserved)
  fix db i r assume db: "ex_credit_step\<^sup>*\<^sup>* ex_credit_db db" "pending_reservation 7 i db = Some r"
    "sum_list (pending_amounts 7 (cd_reservations db)) = 30"
  have ok: "credits_ok db" using reachable_credits_ok [OF db(1) ex_no_credits] by simp
  obtain b where b: "b \<in> set (cd_balances db)" "cb_tenant_id b = 7"
    by (rule pending_covered [OF ok db(2)]) (use balance_of_Some in blast)
  then have "cb_reserved b = 30 \<and> 30 \<le> cb_balance b"
    using credits_never_overdrawn [OF db(1) ex_no_credits b(1)] db(3) by (simp add: pending_amounts_def)
  with b show ?thesis by blast
qed

lemma credit_ledger_replays_witness:
  "\<exists>db. no_credits ex_credit_db \<and> ex_credit_step\<^sup>*\<^sup>* ex_credit_db db \<and> ledger_links 0 (ledger 7 db) 100"
proof -
  obtain db where db: "ex_credit_step\<^sup>*\<^sup>* ex_credit_db db" "balance_value 7 db = 100" using ex_topped_up by blast
  then show ?thesis using credit_ledger_replays [OF db(1) ex_no_credits, of 7] ex_no_credits by auto
qed

lemma reservations_settle_once_witness:
  "\<exists>db i row db1. confirm_credits (\<lambda>s. s) (\<lambda>_. ''100'') 7 i None db = Inr (row, db1)
    \<and> confirm_credits (\<lambda>s. s) (\<lambda>_. ''100'') 7 i None db1 = Inl (ValueError ''Reservation not found or already processed'')"
proof (rule ex_reserved)
  fix db i r assume db: "ex_credit_step\<^sup>*\<^sup>* ex_credit_db db" "pending_reservation 7 i db = Some r"
  note once = reservations_settle_once [OF db(1) ex_no_credits db(2), of None]
  then obtain row db1 where run: "confirm_credits (\<lambda>s. s) (\<lambda>_. ''100'') 7 i None db = Inr (row, db1)" by blast
  then have "confirm_credits (\<lambda>s. s) (\<lambda>_. ''100'') 7 i None db1 = Inl (ValueError ''Reservation not found or already processed'')"
    using once by blast
  with run show ?thesis by blast
qed

lemma reserve_then_settle_witness:
  "\<exists>db. balance_value 7 db = 100 \<and> (\<exists>i db1. reserve_credits (\<lambda>s. s) (\<lambda>_. ''100'') 7 ''report'' 30 db = Inr (i, db1))"
proof -
  obtain db where db: "ex_credit_step\<^sup>*\<^sup>* ex_credit_db db" "balance_value 7 db = 100" "cd_reservations db = []"
    using ex_topped_up by blast
  have "\<exists>i db1. reserve_credits (\<lambda>s. s) (\<lambda>_. ''100'') 7 ''report'' 30 db = Inr (i, db1)"
    using reserve_then_settle [OF db(1) ex_no_credits ex_credit_amounts(2), of 7 "''report''"] db(2,3)
    by (simp add: pending_amounts_def)
  with db(2) show ?thesis by blast
qed

end
