(* ===== verification/Revenue_Allocation.thy ===== *)
theory Revenue_Allocation
  imports Decimals Dates
begin

text \<open>
  \<open>services/revenue/allocation_engine.py\<close>: the transaction price of a contract is
  allocated to its performance obligations in proportion to their standalone selling
  prices; the rounding residual goes to the first obligation.  The lemmas show that the
  engine's "failed to reconcile" error cannot occur for amounts of the database's range, and that
  the allocations add up to the contract value and are in proportion up to a millionth.
\<close>

section \<open>The code\<close>

record registered_contract =
  rc_contract_id :: uuid
  rc_contract_number :: string
  rc_contract_currency :: string
  rc_contract_start_date :: date
  rc_contract_end_date :: date
  rc_total_contract_value :: rat
  rc_source_contract_reference :: string

datatype recognition_method =
  percentage_of_completion | completed_service | milestone_based | straight_line | usage_based

record registered_obligation =
  ro_obligation_id :: uuid
  ro_contract_id :: uuid
  ro_contract_number :: string
  ro_obligation_code :: string
  ro_recognition_method :: recognition_method
  ro_standalone_selling_price :: rat

record obligation_allocation =
  oa_contract_id :: uuid
  oa_obligation_id :: uuid
  oa_obligation_code :: string
  oa_allocated_amount :: rat

definition allocate_obligation :: "registered_contract \<Rightarrow> rat \<Rightarrow> registered_obligation \<Rightarrow> obligation_allocation result" where
  "allocate_obligation contract ssp_total obligation =
     bindE (ddiv (ro_standalone_selling_price obligation) ssp_total) (\<lambda>ratio.
     bindE (quantize_persisted_amount (dmul (rc_total_contract_value contract) ratio)) (\<lambda>allocated.
     Inr \<lparr>oa_contract_id = rc_contract_id contract,
          oa_obligation_id = ro_obligation_id obligation,
          oa_obligation_code = ro_obligation_code obligation,
          oa_allocated_amount = allocated\<rparr>))"

definition adjust_anchor :: "rat \<Rightarrow> obligation_allocation list \<Rightarrow> obligation_allocation list result" where
  "adjust_anchor residual provisional =
     (if residual = 0 then Inr provisional
      else case provisional of
          [] \<Rightarrow> Inr []
        | anchor # rest \<Rightarrow>
            bindE (quantize_persisted_amount (dadd (oa_allocated_amount anchor) residual)) (\<lambda>a.
            Inr (anchor\<lparr>oa_allocated_amount := a\<rparr> # rest)))"

definition allocate_contract :: "registered_obligation list \<Rightarrow> registered_contract \<Rightarrow> obligation_allocation list result" where
  "allocate_contract obligations contract =
     (let contract_obligations = sort_key ro_obligation_code
            (group_of ro_contract_id (rc_contract_id contract) obligations) in
      if contract_obligations = []
        then Inl (ValidationError ''Contract has no registered performance obligations'')
      else
        bindE (quantize_persisted_amount (dsum (map ro_standalone_selling_price contract_obligations))) (\<lambda>ssp_total.
        bindE (raise_if (ssp_total \<le> 0)
                (ValidationError ''Standalone selling price total must be positive'')) (\<lambda>_.
        bindE (mapE (allocate_obligation contract ssp_total) contract_obligations) (\<lambda>provisional.
        bindE (quantize_persisted_amount (dsum (map oa_allocated_amount provisional))) (\<lambda>provisional_sum.
        bindE (quantize_persisted_amount (dsub (rc_total_contract_value contract) provisional_sum)) (\<lambda>residual.
        bindE (adjust_anchor residual provisional) (\<lambda>provisional.
        bindE (quantize_persisted_amount (dsum (map oa_allocated_amount provisional))) (\<lambda>reconciled.
        bindE (quantize_persisted_amount (rc_total_contract_value contract)) (\<lambda>expected.
        bindE (raise_if (reconciled \<noteq> expected)
                (ValidationError ''Allocation failed to reconcile exactly to contract total'')) (\<lambda>_.
        Inr provisional))))))))))"

definition allocate_contract_values :: "registered_contract list \<Rightarrow> registered_obligation list
    \<Rightarrow> obligation_allocation list result" where
  "allocate_contract_values contracts obligations =
     bindE (foldE (\<lambda>allocations contract.
              bindE (allocate_contract obligations contract) (\<lambda>provisional.
              Inr (allocations @ provisional)))
            [] (sort_key rc_contract_number contracts)) (\<lambda>allocations.
     Inr (sort_key (\<lambda>a. (oa_contract_id a, oa_obligation_code a)) allocations))"

section \<open>One obligation's share\<close>

text \<open>A contract and its obligations hold amounts as the database stores them.\<close>

definition amounts_ok :: "registered_contract \<Rightarrow> registered_obligation list \<Rightarrow> bool" where
  "amounts_ok contract obligations \<longleftrightarrow>
     money (rc_total_contract_value contract) \<and> 0 \<le> rc_total_contract_value contract \<and>
     list_all (\<lambda>ob. money (ro_standalone_selling_price ob) \<and> 0 \<le> ro_standalone_selling_price ob) obligations"

lemma ddiv_Inr: "ddiv x y = Inr z \<longleftrightarrow> y \<noteq> 0 \<and> z = dec_round prec (x / y)"
  by (auto simp: ddiv_def)

lemma dec_round_int_fix: "\<bar>k\<bar> < 10 ^ prec \<Longrightarrow> dec_round prec (of_int k) = of_int k"
  by (rule dec_round_exact [where c = k and e = 0]) simp_all

lemma dec_round_1 [simp]: "dec_round prec 1 = 1"
  using dec_round_int_fix [of 1] by (simp add: prec_def)

lemma ratio_bounds:
  assumes "0 \<le> x" "x \<le> y" "0 < y"
  shows "0 \<le> dec_round prec (x / y)" "dec_round prec (x / y) \<le> 1"
  using assms dec_round_mono [of "x / y" 1 prec] by (simp_all add: dec_round_nonneg)

lemma dmul_bounds:
  assumes "0 \<le> t" "money t" "0 \<le> r" "r \<le> 1"
  shows "0 \<le> dmul t r" "dmul t r \<le> t"
proof -
  show "0 \<le> dmul t r" using assms by (simp add: dmul_def dec_round_nonneg)
  have "t * r \<le> t" using assms by (simp add: mult_left_le)
  then have "dmul t r \<le> dec_round prec t" unfolding dmul_def by (rule dec_round_mono) simp
  then show "dmul t r \<le> t" using assms(2) by (simp add: micro_dec_round money_def)
qed

lemma allocate_obligation_bounds:
  assumes "allocate_obligation contract ssp_total ob = Inr a"
    and "0 \<le> rc_total_contract_value contract" "money (rc_total_contract_value contract)"
    and "0 \<le> ro_standalone_selling_price ob" "ro_standalone_selling_price ob \<le> ssp_total" "0 < ssp_total"
  shows "money (oa_allocated_amount a)" "0 \<le> oa_allocated_amount a"
    "oa_allocated_amount a \<le> rc_total_contract_value contract"
proof -
  from assms(1) obtain q where a: "oa_allocated_amount a = q"
    and q: "quantize_persisted_amount (dmul (rc_total_contract_value contract)
      (dec_round prec (ro_standalone_selling_price ob / ssp_total))) = Inr q"
    by (auto simp: allocate_obligation_def result_simps ddiv_Inr)
  note b = dmul_bounds [OF assms(2,3) ratio_bounds [OF assms(4,5,6)]]
  show "money (oa_allocated_amount a)" using q a by (simp add: quantize_money)
  show "0 \<le> oa_allocated_amount a" using quantize_nonneg [OF q b(1)] a by simp
  show "oa_allocated_amount a \<le> rc_total_contract_value contract"
    using quantize_le [OF q b(2) assms(3)] a by simp
qed

section \<open>One contract\<close>

lemma member_le_sum_list_map:
  fixes f :: "'a \<Rightarrow> rat"
  shows "x \<in> set xs \<Longrightarrow> (\<And>y. y \<in> set xs \<Longrightarrow> 0 \<le> f y) \<Longrightarrow> f x \<le> sum_list (map f xs)"
proof (induction xs)
  case (Cons z zs)
  have "0 \<le> sum_list (map f zs)" using Cons.prems(2) by (intro sum_list_nonneg) auto
  moreover have "0 \<le> f z" using Cons.prems(2) by simp
  ultimately show ?case using Cons by (cases "x = z") fastforce+
qed simp

definition contract_obligations :: "registered_obligation list \<Rightarrow> registered_contract \<Rightarrow> registered_obligation list" where
  "contract_obligations obligations contract =
     sort_key ro_obligation_code (group_of ro_contract_id (rc_contract_id contract) obligations)"

lemma provisional_shares:
  assumes am: "amounts_ok contract obs"
    and ssp: "quantize_persisted_amount (dsum (map ro_standalone_selling_price obs)) = Inr ssp" "0 < ssp"
    and prov: "mapE (allocate_obligation contract ssp) obs = Inr prov"
  shows "\<forall>a \<in> set prov. money (oa_allocated_amount a) \<and> 0 \<le> oa_allocated_amount a
           \<and> oa_allocated_amount a \<le> rc_total_contract_value contract"
proof
  fix a assume "a \<in> set prov"
  then obtain ob where ob: "ob \<in> set obs" "allocate_obligation contract ssp ob = Inr a"
    by (rule mapE_set [OF prov])
  have all: "\<forall>x \<in> set (map ro_standalone_selling_price obs). money x \<and> 0 \<le> x"
    using am by (auto simp: amounts_ok_def list_all_iff)
  have "ssp = sum_list (map ro_standalone_selling_price obs)"
    by (rule quantize_dsum [OF ssp(1) all])
  then have "ro_standalone_selling_price ob \<le> ssp"
    using all ob(1) by (auto intro: member_le_sum_list_map)
  then show "money (oa_allocated_amount a) \<and> 0 \<le> oa_allocated_amount a
      \<and> oa_allocated_amount a \<le> rc_total_contract_value contract"
    using allocate_obligation_bounds [OF ob(2)] am ob(1) ssp(2)
    by (auto simp: amounts_ok_def list_all_iff)
qed

lemma adjust_anchor_sum:
  assumes "adjust_anchor residual prov = Inr final" "prov \<noteq> []" "money residual"
    and "\<forall>a \<in> set prov. money (oa_allocated_amount a)"
  shows "sum_list (map oa_allocated_amount final) = sum_list (map oa_allocated_amount prov) + residual"
    and "map oa_obligation_code final = map oa_obligation_code prov"
    and "map oa_contract_id final = map oa_contract_id prov"
    and "map oa_allocated_amount (tl final) = map oa_allocated_amount (tl prov)"
proof -
  obtain a rest where p: "prov = a # rest" using assms(2) by (cases prov) auto
  have "sum_list (map oa_allocated_amount final) = sum_list (map oa_allocated_amount prov) + residual
      \<and> map oa_obligation_code final = map oa_obligation_code prov
      \<and> map oa_contract_id final = map oa_contract_id prov
      \<and> map oa_allocated_amount (tl final) = map oa_allocated_amount (tl prov)"
    using assms p by (auto simp: adjust_anchor_def result_simps dest!: quantize_dadd split: if_splits)
  then show "sum_list (map oa_allocated_amount final) = sum_list (map oa_allocated_amount prov) + residual"
    and "map oa_obligation_code final = map oa_obligation_code prov"
    and "map oa_contract_id final = map oa_contract_id prov"
    and "map oa_allocated_amount (tl final) = map oa_allocated_amount (tl prov)" by blast+
qed

lemma allocate_contract_sum:
  assumes ok: "allocate_contract obligations contract = Inr allocs"
    and am: "amounts_ok contract (contract_obligations obligations contract)"
  shows "sum_list (map oa_allocated_amount allocs) = rc_total_contract_value contract"
    and "map oa_obligation_code allocs = map ro_obligation_code (contract_obligations obligations contract)"
    and "\<forall>a \<in> set allocs. oa_contract_id a = rc_contract_id contract"
proof -
  let ?obs = "contract_obligations obligations contract"
  from ok obtain ssp prov psum residual where ne: "?obs \<noteq> []"
    and ssp: "quantize_persisted_amount (dsum (map ro_standalone_selling_price ?obs)) = Inr ssp" "0 < ssp"
    and prov: "mapE (allocate_obligation contract ssp) ?obs = Inr prov"
    and psum: "quantize_persisted_amount (dsum (map oa_allocated_amount prov)) = Inr psum"
    and res: "quantize_persisted_amount (dsub (rc_total_contract_value contract) psum) = Inr residual"
    and adj: "adjust_anchor residual prov = Inr allocs"
    by (auto simp: allocate_contract_def contract_obligations_def Let_def result_simps not_le split: if_splits)
  note shares = provisional_shares [OF am ssp prov]
  have "prov \<noteq> []" using mapE_length [OF prov] ne by auto
  have all: "\<forall>x \<in> set (map oa_allocated_amount prov). money x \<and> 0 \<le> x" using shares by auto
  have 1: "psum = sum_list (map oa_allocated_amount prov)" by (rule quantize_dsum [OF psum all])
  have 2: "residual = rc_total_contract_value contract - psum"
    using quantize_dsub [OF res] am quantize_money [OF psum] by (simp add: amounts_ok_def)
  note adj' = adjust_anchor_sum [OF adj \<open>prov \<noteq> []\<close> quantize_money [OF res]]
  show "sum_list (map oa_allocated_amount allocs) = rc_total_contract_value contract"
    using adj'(1) shares 1 2 by simp
  have c: "map oa_obligation_code prov = map ro_obligation_code ?obs"
    by (rule mapE_map_eq [OF prov]) (auto simp: allocate_obligation_def result_simps)
  show "map oa_obligation_code allocs = map ro_obligation_code ?obs"
    using adj'(2) shares c by simp
  have i: "map oa_contract_id prov = map (\<lambda>_. rc_contract_id contract) ?obs"
    by (rule mapE_map_eq [OF prov]) (auto simp: allocate_obligation_def result_simps)
  then have "map oa_contract_id allocs = map (\<lambda>_. rc_contract_id contract) ?obs"
    using adj'(3) shares by simp
  then show "\<forall>a \<in> set allocs. oa_contract_id a = rc_contract_id contract"
    by (metis (no_types, lifting) ex_map_conv in_set_conv_nth length_map nth_map)
qed

lemma allocate_contract_money:
  assumes "allocate_contract obligations contract = Inr allocs" and "a \<in> set allocs"
  shows "money (oa_allocated_amount a)"
proof -
  from assms(1) obtain ssp prov residual where
    prov: "mapE (allocate_obligation contract ssp) (contract_obligations obligations contract) = Inr prov"
    and adj: "adjust_anchor residual prov = Inr allocs"
    by (auto simp: allocate_contract_def contract_obligations_def Let_def result_simps split: if_splits)
  have p: "money (oa_allocated_amount x)" if x: "x \<in> set prov" for x
  proof -
    obtain ob where "allocate_obligation contract ssp ob = Inr x" by (rule mapE_set [OF prov x])
    then show ?thesis by (auto simp: allocate_obligation_def result_simps intro: quantize_money)
  qed
  show ?thesis
    using adj assms(2) p quantize_money [of "dadd (oa_allocated_amount (hd prov)) residual"]
    by (auto simp: adjust_anchor_def result_simps split: if_splits list.splits)
qed

section \<open>Every contract\<close>

lemma allocations_reconcile_raw:
  assumes "allocate_contract_values contracts obligations = Inr allocations"
    and "distinct (map rc_contract_id contracts)" and "c \<in> set contracts"
    and "\<forall>c \<in> set contracts. amounts_ok c (contract_obligations obligations c)"
  shows "sum_list (map oa_allocated_amount (group_of oa_contract_id (rc_contract_id c) allocations))
           = rc_total_contract_value c"
proof -
  from assms(1) obtain yss where
    yss: "mapE (allocate_contract obligations) (sort_key rc_contract_number contracts) = Inr yss"
    and al: "allocations = sort_key (\<lambda>a. (oa_contract_id a, oa_obligation_code a)) (concat yss)"
    by (auto simp: allocate_contract_values_def foldE_extend result_simps)
  have "allocate_contract obligations c = Inr (filter (\<lambda>a. oa_contract_id a = rc_contract_id c) (concat yss))"
    using assms(2-4)
    by (intro mapE_concat_group [OF yss]) (auto dest: allocate_contract_sum(3))
  then have "sum_list (map oa_allocated_amount (filter (\<lambda>a. oa_contract_id a = rc_contract_id c) (concat yss)))
      = rc_total_contract_value c"
    by (rule allocate_contract_sum(1)) (use assms(3,4) in blast)
  then show ?thesis
    by (simp add: al group_of_def filter_sort)
qed

lemma allocations_money:
  assumes "allocate_contract_values contracts obligations = Inr allocations" and "a \<in> set allocations"
  shows "money (oa_allocated_amount a)"
proof -
  from assms obtain yss ys where
    yss: "mapE (allocate_contract obligations) (sort_key rc_contract_number contracts) = Inr yss"
    and y: "ys \<in> set yss" "a \<in> set ys"
    by (auto simp: allocate_contract_values_def foldE_extend result_simps)
  obtain c where "allocate_contract obligations c = Inr ys" by (rule mapE_set [OF yss y(1)])
  then show ?thesis using y(2) by (rule allocate_contract_money)
qed

text \<open>A concrete contract of three millionths over two obligations of equal price: both
  shares round up and the residual takes one back from the first.\<close>

definition ex_contract :: registered_contract where
  "ex_contract = \<lparr>rc_contract_id = 7, rc_contract_number = ''C-7'', rc_contract_currency = ''USD'',
     rc_contract_start_date = Date 2024 1 1, rc_contract_end_date = Date 2024 2 29,
     rc_total_contract_value = 3 / 1000000, rc_source_contract_reference = ''S''\<rparr>"

definition ex_obligation :: "uuid \<Rightarrow> string \<Rightarrow> registered_obligation" where
  "ex_obligation i code = \<lparr>ro_obligation_id = i, ro_contract_id = 7, ro_contract_number = ''C-7'',
     ro_obligation_code = code, ro_recognition_method = straight_line, ro_standalone_selling_price = 50\<rparr>"

lemma ex_values:
  "dsum [50, 50] = 100" "quantize_persisted_amount 100 = Inr 100"
  "ddiv 50 100 = Inr (1 / 2)"
  "dmul (3 / 1000000) (1 / 2) = 3 / 2000000"
  "quantize_persisted_amount (3 / 2000000) = Inr (1 / 500000)"
  "dsum [1 / 500000, 1 / 500000] = 1 / 250000"
  "quantize_persisted_amount (1 / 250000) = Inr (1 / 250000)"
  "dsub (3 / 1000000) (1 / 250000) = - (1 / 1000000)"
  "quantize_persisted_amount (- (1 / 1000000)) = Inr (- (1 / 1000000))"
  "dadd (1 / 500000) (- (1 / 1000000)) = 1 / 1000000"
  "quantize_persisted_amount (1 / 1000000) = Inr (1 / 1000000)"
  "dsum [1 / 1000000, 1 / 500000] = 3 / 1000000"
  "quantize_persisted_amount (3 / 1000000) = Inr (3 / 1000000)"
  by code_simp+

lemma ex_allocation:
  "allocate_contract_values [ex_contract] [ex_obligation 12 ''B'', ex_obligation 11 ''A''] =
   Inr [\<lparr>oa_contract_id = 7, oa_obligation_id = 11, oa_obligation_code = ''A'', oa_allocated_amount = 1 / 1000000\<rparr>,
        \<lparr>oa_contract_id = 7, oa_obligation_id = 12, oa_obligation_code = ''B'', oa_allocated_amount = 1 / 500000\<rparr>]"
  by (simp add: allocate_contract_values_def allocate_contract_def ex_obligation_def ex_contract_def
      group_of_def allocate_obligation_def adjust_anchor_def ex_values)

lemma ex_amounts: "money (3 / 1000000)" "money 50"
  by code_simp+

lemma ex_amounts_ok:
  "amounts_ok ex_contract (contract_obligations [ex_obligation 12 ''B'', ex_obligation 11 ''A''] ex_contract)"
  by (simp add: amounts_ok_def contract_obligations_def group_of_def ex_obligation_def ex_contract_def ex_amounts)

section \<open>The engine succeeds\<close>

lemma dsum_total:
  assumes "\<forall>x \<in> set xs. money x \<and> 0 \<le> x" and "sum_list xs < 10 ^ 22"
  shows "quantize_persisted_amount (dsum xs) = Inr (sum_list xs)"
proof -
  have "map abs xs = xs" using assms(1) by (simp add: map_idI)
  then have "dsum xs = sum_list xs" using assms by (intro dsum_exact) (auto simp: money_micro)
  moreover have "money (sum_list xs)"
    using assms by (auto intro!: money_bounded [of _ "sum_list xs"] simp: money_micro sum_list_nonneg)
  ultimately show ?thesis by (simp add: quantize_id)
qed

lemma allocate_obligation_total:
  assumes "0 \<le> rc_total_contract_value contract" "money (rc_total_contract_value contract)"
    and "0 \<le> ro_standalone_selling_price ob" "ro_standalone_selling_price ob \<le> ssp_total" "0 < ssp_total"
  shows "\<exists>a. allocate_obligation contract ssp_total ob = Inr a"
  using quantize_total [OF dmul_bounds [OF assms(1,2) ratio_bounds [OF assms(3,4,5)]] money_0 assms(2)] assms(5)
  by (auto simp: allocate_obligation_def ddiv_def)

text \<open>Non-negative shares of at most the total, one of which absorbs the residual, stay
  far below the limit of the arithmetic context.\<close>

lemma adjusted_bound:
  fixes t :: rat
  assumes "\<forall>x \<in> set (y # ys). 0 \<le> x \<and> x \<le> t" and "0 \<le> t"
    and "t * (2 * of_nat (length (y # ys)) + 1) < 10 ^ 22"
  shows "sum_list (y # ys) < 10 ^ 22" "\<bar>t - sum_list (y # ys)\<bar> < 10 ^ 22"
    and "\<bar>t - sum_list ys\<bar> + sum_list ys < 10 ^ 22"
proof -
  define l where "l = (10 ^ 22 :: rat)"
  define n where "n = rat_of_nat (length ys)"
  have l: "t * (2 * (n + 1) + 1) < l"
    using assms(3) by (simp add: l_def n_def add.commute)
  have "sum_list zs \<le> of_nat (length zs) * t" if "\<forall>x \<in> set zs. x \<le> t" for zs
    using that by (induction zs) (auto simp: algebra_simps)
  from this [of ys] have s: "sum_list ys \<le> n * t" using assms(1) by (simp add: n_def)
  have nn: "0 \<le> sum_list ys" "0 \<le> y" "y \<le> t" using assms(1) by (auto intro: sum_list_nonneg)
  have e: "t * (2 * (n + 1) + 1) = 2 * (n * t) + 3 * t" by (simp add: algebra_simps)
  show "sum_list (y # ys) < 10 ^ 22" "\<bar>t - sum_list (y # ys)\<bar> < 10 ^ 22"
    "\<bar>t - sum_list ys\<bar> + sum_list ys < 10 ^ 22"
    unfolding sum_list.Cons l_def [symmetric] using s nn l assms(2) unfolding e by linarith+
qed

lemma residual_absorbed:
  fixes t :: rat
  assumes sh: "\<forall>x \<in> set (y # ys). money x \<and> 0 \<le> x \<and> x \<le> t" and t: "money t" "0 \<le> t"
    and lim: "t * (2 * of_nat (length (y # ys)) + 1) < 10 ^ 22"
  shows "quantize_persisted_amount (dsum (y # ys)) = Inr (sum_list (y # ys))"
    and "quantize_persisted_amount (dsub t (sum_list (y # ys))) = Inr (t - sum_list (y # ys))"
    and "quantize_persisted_amount (dadd y (t - sum_list (y # ys))) = Inr (t - sum_list ys)"
    and "dsum ((t - sum_list ys) # ys) = t"
proof -
  have b: "sum_list (y # ys) < 10 ^ 22" "\<bar>t - sum_list (y # ys)\<bar> < 10 ^ 22"
    "\<bar>t - sum_list ys\<bar> + sum_list ys < 10 ^ 22"
    by (rule adjusted_bound [OF _ t(2) lim]; use sh in blast)+
  have mic: "micro t" "micro y" "\<forall>x \<in> set ys. micro x" using t sh by (auto simp: money_micro)
  have mics: "micro (sum_list ys)" by (rule micro_sum_list) (use mic(3) in blast)
  show "quantize_persisted_amount (dsum (y # ys)) = Inr (sum_list (y # ys))"
    using sh b(1) by (intro dsum_total) auto
  have "money (t - sum_list (y # ys))" unfolding money_def using mic mics b(2) by auto
  then show "quantize_persisted_amount (dsub t (sum_list (y # ys))) = Inr (t - sum_list (y # ys))"
    by (simp add: dsub_def micro_dec_round money_def quantize_id)
  have nn: "0 \<le> sum_list ys" using sh by (intro sum_list_nonneg) auto
  have my': "money (t - sum_list ys)" unfolding money_def using mic mics b(3) nn by auto
  have "y + (t - sum_list (y # ys)) = t - sum_list ys" by simp
  then show "quantize_persisted_amount (dadd y (t - sum_list (y # ys))) = Inr (t - sum_list ys)"
    using my' by (simp only: dadd_def micro_dec_round money_def quantize_id)
  have "map abs ys = ys" by (rule map_idI) (use sh in auto)
  then have "dsum ((t - sum_list ys) # ys) = sum_list ((t - sum_list ys) # ys)"
    using b(3) my' mic(3) by (intro dsum_exact) (auto simp: money_micro)
  then show "dsum ((t - sum_list ys) # ys) = t" by simp
qed

text \<open>One run: the shares of the obligations, of which the first is replaced by what the others leave.\<close>

lemma allocate_contract_run:
  assumes am: "amounts_ok contract (contract_obligations obligations contract)"
    and ne: "contract_obligations obligations contract \<noteq> []"
    and pos: "0 < sum_list (map ro_standalone_selling_price (contract_obligations obligations contract))"
    and ssp_lim: "sum_list (map ro_standalone_selling_price (contract_obligations obligations contract)) < 10 ^ 22"
    and lim: "rc_total_contract_value contract
      * (2 * of_nat (length (contract_obligations obligations contract)) + 1) < 10 ^ 22"
  shows "\<exists>a rest a'. mapE (allocate_obligation contract (sum_list (map ro_standalone_selling_price (contract_obligations obligations contract))))
        (contract_obligations obligations contract) = Inr (a # rest)
    \<and> allocate_contract obligations contract = Inr (a' # rest)
    \<and> oa_allocated_amount a' = rc_total_contract_value contract - sum_list (map oa_allocated_amount rest)
    \<and> oa_obligation_id a' = oa_obligation_id a"
proof -
  let ?obs = "contract_obligations obligations contract"
  define ssp where "ssp = sum_list (map ro_standalone_selling_price ?obs)"
  define t where "t = rc_total_contract_value contract"
  have all: "\<forall>x \<in> set (map ro_standalone_selling_price ?obs). money x \<and> 0 \<le> x"
    using am by (auto simp: amounts_ok_def list_all_iff)
  have q: "quantize_persisted_amount (dsum (map ro_standalone_selling_price ?obs)) = Inr ssp"
    unfolding ssp_def by (rule dsum_total [OF all ssp_lim])
  have t: "money t" "0 \<le> t" using am by (auto simp: amounts_ok_def t_def)
  have "\<exists>prov. mapE (allocate_obligation contract ssp) ?obs = Inr prov"
    using am pos all by (intro mapE_exists allocate_obligation_total)
      (auto simp: amounts_ok_def list_all_iff ssp_def intro: member_le_sum_list_map)
  then obtain prov where prov: "mapE (allocate_obligation contract ssp) ?obs = Inr prov" ..
  note shares = provisional_shares [OF am q _ prov]
  obtain a rest where p: "prov = a # rest" using mapE_length [OF prov] ne by (cases prov) auto
  let ?y = "oa_allocated_amount a" and ?ys = "map oa_allocated_amount rest"
  have sh: "\<forall>x \<in> set (?y # ?ys). money x \<and> 0 \<le> x \<and> x \<le> t"
    using shares pos by (auto simp: p ssp_def t_def)
  have "t * (2 * of_nat (length (?y # ?ys)) + 1) < 10 ^ 22"
    using lim mapE_length [OF prov] by (simp add: t_def p)
  note steps = residual_absorbed [OF sh t this]
  obtain a' where adj: "adjust_anchor (t - sum_list (?y # ?ys)) prov = Inr (a' # rest)"
    and a': "oa_allocated_amount a' = t - sum_list ?ys" "oa_obligation_id a' = oa_obligation_id a"
    using steps(3) by (cases "t - sum_list (?y # ?ys) = 0") (auto simp: adjust_anchor_def p)
  then have fin: "dsum (map oa_allocated_amount (a' # rest)) = t" using steps(4) by simp
  have "allocate_contract obligations contract = Inr (a' # rest)"
    using q pos prov steps(1,2) adj fin quantize_id [OF t(1)] ne
    by (auto simp: allocate_contract_def contract_obligations_def [symmetric] Let_def ssp_def t_def p)
  then show ?thesis using prov a' by (auto simp: ssp_def t_def p)
qed

text \<open>(C17) The engine allocates every contract that has an obligation and a positive
  standalone price: for amounts within the column range neither "failed to reconcile"
  nor an arithmetic error can be raised, so the two input checks are its only errors.\<close>

theorem allocate_contract_succeeds:
  assumes am: "amounts_ok contract (contract_obligations obligations contract)"
    and ne: "contract_obligations obligations contract \<noteq> []"
    and pos: "0 < sum_list (map ro_standalone_selling_price (contract_obligations obligations contract))"
    and ssp_lim: "sum_list (map ro_standalone_selling_price (contract_obligations obligations contract)) < 10 ^ 22"
    and lim: "rc_total_contract_value contract
      * (2 * of_nat (length (contract_obligations obligations contract)) + 1) < 10 ^ 22"
  shows "\<exists>allocations. allocate_contract obligations contract = Inr allocations"
  using allocate_contract_run [OF assms] by blast

lemma allocate_contract_succeeds_witness:
  "\<exists>allocations. allocate_contract [ex_obligation 12 ''B'', ex_obligation 11 ''A''] ex_contract = Inr allocations"
  by (rule allocate_contract_succeeds [OF ex_amounts_ok])
    (simp_all add: contract_obligations_def group_of_def ex_obligation_def ex_contract_def)

section \<open>Every contract gets its shares\<close>

text \<open>What the columns of the two tables allow.\<close>

definition within_columns :: "registered_contract \<Rightarrow> registered_obligation list \<Rightarrow> bool" where
  "within_columns contract obs \<longleftrightarrow> amounts_ok contract obs \<and> rc_total_contract_value contract < 10 ^ 14
     \<and> list_all (\<lambda>ob. ro_standalone_selling_price ob < 10 ^ 14) obs \<and> length obs < 10 ^ 6
     \<and> obs \<noteq> [] \<and> 0 < sum_list (map ro_standalone_selling_price obs)"

definition exact_share :: "registered_contract \<Rightarrow> registered_obligation list \<Rightarrow> registered_obligation \<Rightarrow> rat" where
  "exact_share contract obs ob =
     rc_total_contract_value contract * ro_standalone_selling_price ob / sum_list (map ro_standalone_selling_price obs)"

lemma sum_le_length_mult:
  fixes f :: "'a \<Rightarrow> rat"
  shows "\<forall>x \<in> set xs. f x \<le> m \<Longrightarrow> sum_list (map f xs) \<le> of_nat (length xs) * m"
  by (induction xs) (auto simp: algebra_simps)

lemma within_limits:
  assumes "within_columns contract obs"
  shows "sum_list (map ro_standalone_selling_price obs) < 10 ^ 22"
    and "rc_total_contract_value contract * (2 * of_nat (length obs) + 1) < 10 ^ 22"
proof -
  have n: "rat_of_nat (length obs) \<le> 10 ^ 6"
    using assms by (simp add: within_columns_def)
  have "\<forall>ob \<in> set obs. ro_standalone_selling_price ob \<le> 10 ^ 14"
    using assms by (auto simp: within_columns_def list_all_iff)
  then have "sum_list (map ro_standalone_selling_price obs) \<le> of_nat (length obs) * 10 ^ 14"
    by (rule sum_le_length_mult)
  also have "\<dots> \<le> 10 ^ 6 * 10 ^ 14" using n by (intro mult_right_mono) simp_all
  finally show "sum_list (map ro_standalone_selling_price obs) < 10 ^ 22" by simp
  have t: "0 \<le> rc_total_contract_value contract" "rc_total_contract_value contract \<le> 10 ^ 14"
    using assms by (simp_all add: within_columns_def amounts_ok_def)
  have "rc_total_contract_value contract * (2 * of_nat (length obs) + 1) \<le> 10 ^ 14 * (2 * 10 ^ 6 + 1)"
    using t n by (intro mult_mono) simp_all
  then show "rc_total_contract_value contract * (2 * of_nat (length obs) + 1) < 10 ^ 22" by simp
qed

text \<open>A share that was divided, multiplied and rounded is off by less than a millionth.\<close>

lemma share_err:
  assumes w: "within_columns contract obs" and ob: "ob \<in> set obs"
    and a: "allocate_obligation contract (sum_list (map ro_standalone_selling_price obs)) ob = Inr a"
  shows "\<bar>oa_allocated_amount a - exact_share contract obs ob\<bar> \<le> 1 / 10 ^ 6"
proof -
  let ?S = "sum_list (map ro_standalone_selling_price obs)" and ?t = "rc_total_contract_value contract"
  define x where "x = ro_standalone_selling_price ob / ?S"
  have s: "0 \<le> ro_standalone_selling_price ob" "ro_standalone_selling_price ob \<le> ?S" "0 < ?S"
    using w ob by (auto simp: within_columns_def amounts_ok_def list_all_iff intro: member_le_sum_list_map)
  have t: "0 \<le> ?t" "?t \<le> 10 ^ 14" using w by (simp_all add: within_columns_def amounts_ok_def)
  have x: "0 \<le> x" "x \<le> 1" using s by (simp_all add: x_def)
  have rel: "\<bar>dec_round prec z - z\<bar> \<le> \<bar>z\<bar> / 10 ^ 27" for z
    using dec_round_err [of prec z] by (simp add: prec_def power_int_def field_simps)
  define r where "r = dec_round prec x"
  have r: "0 \<le> r" "r \<le> 1" using ratio_bounds [OF s] by (simp_all add: r_def x_def)
  have "\<bar>r - x\<bar> \<le> 1 / 10 ^ 27" using rel [of x] x by (simp add: r_def divide_right_mono order_trans)
  then have "?t * \<bar>r - x\<bar> \<le> 10 ^ 14 * (1 / 10 ^ 27)" using t by (intro mult_mono) simp_all
  then have 1: "\<bar>?t * r - ?t * x\<bar> \<le> 1 / 10 ^ 13" using t(1) by (simp add: abs_mult flip: right_diff_distrib)
  have "?t * r \<le> 10 ^ 14 * 1" using t r by (intro mult_mono) simp_all
  then have "\<bar>?t * r\<bar> / 10 ^ 27 \<le> 10 ^ 14 / 10 ^ 27" using t(1) r(1) by (intro divide_right_mono) simp_all
  then have 2: "\<bar>dmul ?t r - ?t * r\<bar> \<le> 1 / 10 ^ 13" using rel [of "?t * r"] by (simp add: dmul_def)
  have "quantize_persisted_amount (dmul ?t r) = Inr (oa_allocated_amount a)"
    using a by (auto simp: allocate_obligation_def result_simps ddiv_Inr r_def x_def)
  from quantize_err [OF this] have 3: "\<bar>oa_allocated_amount a - dmul ?t r\<bar> \<le> 1 / (2 * 10 ^ 6)" .
  have "exact_share contract obs ob = ?t * x" by (simp add: exact_share_def x_def)
  moreover have "(1::rat) / 10 ^ 13 + 1 / 10 ^ 13 + 1 / (2 * 10 ^ 6) \<le> 1 / 10 ^ 6" by simp
  ultimately show ?thesis using 1 2 3 by linarith
qed

lemma exact_shares_total:
  assumes "within_columns contract obs"
  shows "sum_list (map (exact_share contract obs) obs) = rc_total_contract_value contract"
proof -
  have "sum_list (map (\<lambda>ob. c * ro_standalone_selling_price ob / s) xs) = c * sum_list (map ro_standalone_selling_price xs) / s" for c s :: rat and xs
    by (induction xs) (simp_all add: algebra_simps add_divide_distrib)
  then have "sum_list (map (exact_share contract obs) obs) = rc_total_contract_value contract
      * sum_list (map ro_standalone_selling_price obs) / sum_list (map ro_standalone_selling_price obs)"
    unfolding exact_share_def .
  then show ?thesis using assms by (simp add: within_columns_def)
qed

lemma sum_err:
  fixes f :: "'a \<Rightarrow> rat"
  shows "list_all2 (\<lambda>x y. \<bar>g y - f x\<bar> \<le> e) xs ys \<Longrightarrow> \<bar>sum_list (map g ys) - sum_list (map f xs)\<bar> \<le> of_nat (length xs) * e"
  by (induction rule: list_all2_induct) (auto simp: algebra_simps abs_le_iff)

text \<open>What a contract is given: one amount per obligation, in the order of their codes, that add up to the price.\<close>

definition fair_shares :: "registered_contract \<Rightarrow> registered_obligation list \<Rightarrow> obligation_allocation list \<Rightarrow> bool" where
  "fair_shares contract obs mine \<longleftrightarrow> map oa_obligation_id mine = map ro_obligation_id obs
     \<and> sum_list (map oa_allocated_amount mine) = rc_total_contract_value contract
     \<and> (\<forall>i < length obs. \<bar>oa_allocated_amount (mine ! i) - exact_share contract obs (obs ! i)\<bar>
           \<le> (if i = 0 then of_nat (length obs - 1) else 1) / 10 ^ 6)"

lemma allocate_contract_fair:
  assumes w: "within_columns contract (contract_obligations obligations contract)"
  shows "\<exists>mine. allocate_contract obligations contract = Inr mine \<and> fair_shares contract (contract_obligations obligations contract) mine"
proof -
  let ?obs = "contract_obligations obligations contract"
  have c: "amounts_ok contract ?obs" "?obs \<noteq> []" "0 < sum_list (map ro_standalone_selling_price ?obs)"
    using w by (simp_all add: within_columns_def)
  obtain a rest a' where prov: "mapE (allocate_obligation contract (sum_list (map ro_standalone_selling_price ?obs))) ?obs = Inr (a # rest)"
    and run: "allocate_contract obligations contract = Inr (a' # rest)"
    and a': "oa_allocated_amount a' = rc_total_contract_value contract - sum_list (map oa_allocated_amount rest)"
      "oa_obligation_id a' = oa_obligation_id a"
    using allocate_contract_run [OF c within_limits [OF w]] by blast
  obtain ob obs where obs: "?obs = ob # obs" using c(2) by (cases ?obs) auto
  have ids: "map oa_obligation_id (a # rest) = map ro_obligation_id ?obs"
    by (rule mapE_map_eq [OF prov]) (auto simp: allocate_obligation_def result_simps)
  have err: "list_all2 (\<lambda>ob a. \<bar>oa_allocated_amount a - exact_share contract ?obs ob\<bar> \<le> 1 / 10 ^ 6) obs rest"
  proof -
    have "list_all2 (\<lambda>ob a. allocate_obligation contract (sum_list (map ro_standalone_selling_price ?obs)) ob = Inr a) (ob # obs) (a # rest)"
      using prov unfolding mapE_Inr_iff obs .
    then have "list_all2 (\<lambda>ob a. allocate_obligation contract (sum_list (map ro_standalone_selling_price ?obs)) ob = Inr a) obs rest"
      by (rule list_all2_Cons [THEN iffD1, THEN conjunct2])
    then show ?thesis by (rule list.rel_mono_strong) (rule share_err [OF w], simp_all add: obs)
  qed
  have "exact_share contract ?obs ob = rc_total_contract_value contract - sum_list (map (exact_share contract ?obs) obs)"
    using exact_shares_total [OF w] by (simp add: obs)
  then have first: "\<bar>oa_allocated_amount a' - exact_share contract ?obs ob\<bar> \<le> of_nat (length obs) / 10 ^ 6"
    using sum_err [OF err] a'(1) by (simp add: abs_minus_commute)
  have "fair_shares contract ?obs (a' # rest)"
    unfolding fair_shares_def
  proof (intro conjI allI impI)
    show "map oa_obligation_id (a' # rest) = map ro_obligation_id ?obs" using ids a'(2) by simp
    show "sum_list (map oa_allocated_amount (a' # rest)) = rc_total_contract_value contract" using a'(1) by simp
    fix i assume "i < length ?obs"
    then show "\<bar>oa_allocated_amount ((a' # rest) ! i) - exact_share contract ?obs (?obs ! i)\<bar>
        \<le> (if i = 0 then of_nat (length ?obs - 1) else 1) / 10 ^ 6"
      using first err by (cases i) (simp_all add: obs list_all2_conv_all_nth)
  qed
  then show ?thesis using run by blast
qed

lemma allocate_contract_columns:
  assumes "allocate_contract obligations c = Inr ys"
  shows "\<forall>a \<in> set ys. oa_contract_id a = rc_contract_id c" and "map oa_obligation_code ys = map ro_obligation_code (contract_obligations obligations c)"
proof -
  obtain ssp prov residual where prov: "mapE (allocate_obligation c ssp) (contract_obligations obligations c) = Inr prov"
    and adj: "adjust_anchor residual prov = Inr ys"
    using assms by (auto simp: allocate_contract_def contract_obligations_def Let_def result_simps split: if_splits)
  have kept: "map oa_contract_id ys = map oa_contract_id prov \<and> map oa_obligation_code ys = map oa_obligation_code prov"
    using adj by (auto simp: adjust_anchor_def result_simps split: if_splits list.splits)
  have "map oa_contract_id prov = map (\<lambda>_. rc_contract_id c) (contract_obligations obligations c)"
    "map oa_obligation_code prov = map ro_obligation_code (contract_obligations obligations c)"
    by (rule mapE_map_eq [OF prov], auto simp: allocate_obligation_def result_simps)+
  with kept have "map oa_contract_id ys = map (\<lambda>_. rc_contract_id c) (contract_obligations obligations c)"
    and codes: "map oa_obligation_code ys = map ro_obligation_code (contract_obligations obligations c)" by simp_all
  then show "\<forall>a \<in> set ys. oa_contract_id a = rc_contract_id c" by (metis (no_types, lifting) ex_map_conv in_set_conv_nth length_map nth_map)
  show "map oa_obligation_code ys = map ro_obligation_code (contract_obligations obligations c)" by (rule codes)
qed

lemma sorted_pairs:
  fixes f :: "'a \<Rightarrow> 'k :: linorder" and g :: "'a \<Rightarrow> 'l :: linorder"
  shows "\<forall>x \<in> set xs. f x = k \<Longrightarrow> sorted (map g xs) \<Longrightarrow> sorted (map (\<lambda>x. (f x, g x)) xs)"
  by (induction xs) (auto simp: less_eq_prod_def)

text \<open>(C2) Every contract is allocated in full and in proportion.  For contracts with distinct ids, at least one obligation each, a
  positive sum of standalone prices, amounts of the columns' range and fewer than a million
  obligations, \<open>allocate_contract_values\<close> returns, and the allocations it returns for a contract are one per obligation, in
  the order of the obligation codes; they add up to the transaction price exactly; each but the first is within a millionth
  of the share its standalone price gives it; the first absorbs the residual, and is off by at most a millionth
  per other obligation.\<close>

theorem allocations_proportional:
  assumes ids: "distinct (map rc_contract_id contracts)"
    and w: "\<forall>c \<in> set contracts. within_columns c (contract_obligations obligations c)"
  shows "\<exists>allocations. allocate_contract_values contracts obligations = Inr allocations
    \<and> (\<forall>c \<in> set contracts. fair_shares c (contract_obligations obligations c) (group_of oa_contract_id (rc_contract_id c) allocations))"
proof -
  have "\<exists>yss. mapE (allocate_contract obligations) (sort_key rc_contract_number contracts) = Inr yss"
    using w allocate_contract_fair by (intro mapE_exists) fastforce
  then obtain yss where yss: "mapE (allocate_contract obligations) (sort_key rc_contract_number contracts) = Inr yss" ..
  let ?key = "\<lambda>a. (oa_contract_id a, oa_obligation_code a)"
  have "fair_shares c (contract_obligations obligations c) (group_of oa_contract_id (rc_contract_id c) (sort_key ?key (concat yss)))"
    if c: "c \<in> set contracts" for c
  proof -
    let ?mine = "filter (\<lambda>a. oa_contract_id a = rc_contract_id c) (concat yss)"
    have run: "allocate_contract obligations c = Inr ?mine"
      using ids c by (intro mapE_concat_group [OF yss]) (auto dest: allocate_contract_columns(1))
    have "sorted (map ro_obligation_code (contract_obligations obligations c))" by (simp add: contract_obligations_def)
    then have "sorted (map oa_obligation_code ?mine)" by (simp only: allocate_contract_columns(2) [OF run])
    then have "sorted (map ?key ?mine)" by (rule sorted_pairs [OF allocate_contract_columns(1) [OF run]])
    then have "group_of oa_contract_id (rc_contract_id c) (sort_key ?key (concat yss)) = ?mine"
      by (simp add: group_of_def filter_sort sort_key_id_if_sorted)
    moreover have "within_columns c (contract_obligations obligations c)" using w c by blast
    ultimately show ?thesis using allocate_contract_fair run by fastforce
  qed
  moreover have "allocate_contract_values contracts obligations = Inr (sort_key ?key (concat yss))"
    using yss by (simp add: allocate_contract_values_def foldE_extend)
  ultimately show ?thesis by blast
qed

lemma ex_within: "within_columns ex_contract (contract_obligations [ex_obligation 12 ''B'', ex_obligation 11 ''A''] ex_contract)"
  using ex_amounts_ok by (simp add: within_columns_def contract_obligations_def group_of_def ex_obligation_def ex_contract_def)

lemma allocations_proportional_witness:
  "\<exists>allocations. allocate_contract_values [ex_contract] [ex_obligation 12 ''B'', ex_obligation 11 ''A''] = Inr allocations
     \<and> map oa_obligation_id (group_of oa_contract_id 7 allocations) = [11, 12]
     \<and> sum_list (map oa_allocated_amount (group_of oa_contract_id 7 allocations)) = 3 / 1000000"
proof -
  have o: "map ro_obligation_id (contract_obligations [ex_obligation 12 ''B'', ex_obligation 11 ''A''] ex_contract) = [11, 12]"
    by (simp add: contract_obligations_def group_of_def ex_obligation_def ex_contract_def)
  have c: "rc_contract_id ex_contract = 7" "rc_total_contract_value ex_contract = 3 / 1000000" by (simp_all add: ex_contract_def)
  show ?thesis
    using allocations_proportional [of "[ex_contract]" "[ex_obligation 12 ''B'', ex_obligation 11 ''A'']"] ex_within
    by (auto simp: fair_shares_def o c)
qed

end
