(* ===== verification/FX_Rates.thy ===== *)
theory FX_Rates
  imports Decimals Dates
begin

text \<open>
  \<open>services/fx\<close>: currency codes and rates (\<open>normalization.py\<close>), the precedence between
  manual, provider and previous rates (\<open>selector.py\<close>), conversion of amounts
  (\<open>conversion.py\<close>), variances (\<open>variance.py\<close>), the IAS 21 revaluation and translation
  arithmetic (\<open>ias21_math.py\<close>) and the rate master (\<open>rate_master_service.py\<close>).  Currency
  codes are ASCII text.  The Babel currency list is the parameter \<open>babel\<close>, \<open>None\<close> when
  the package is not importable.
\<close>

section \<open>Currency codes and rates\<close>

definition alias_map :: "string \<Rightarrow> string" where
  "alias_map code = (if code = ''NTD'' then ''TWD'' else code)"

definition fallback_iso_codes :: "string list" where
  "fallback_iso_codes = [''AED'', ''AUD'', ''BRL'', ''CAD'', ''CHF'', ''CNY'', ''EUR'', ''GBP'', ''HKD'',
     ''INR'', ''JPY'', ''KRW'', ''MXN'', ''NOK'', ''NZD'', ''SEK'', ''SGD'', ''TWD'', ''USD'', ''ZAR'']"

definition currency_pattern :: "string \<Rightarrow> bool" where
  "currency_pattern code \<longleftrightarrow> length code = 3 \<and> list_all is_upper_letter code"

definition is_valid_iso_4217_currency :: "string list option \<Rightarrow> string \<Rightarrow> bool" where
  "is_valid_iso_4217_currency babel currency_code =
     (let code = py_upper (py_strip currency_code) in
      if \<not> currency_pattern code then False
      else case babel of
          None \<Rightarrow> List.member fallback_iso_codes code
        | Some codes \<Rightarrow> List.member codes code)"

definition normalize_currency_code :: "string list option \<Rightarrow> string \<Rightarrow> string result" where
  "normalize_currency_code babel currency_code =
     (let code = alias_map (py_upper (py_strip currency_code)) in
      bindE (raise_if (\<not> currency_pattern code) (ValueError ''Invalid currency code format'')) (\<lambda>_.
      bindE (raise_if (\<not> is_valid_iso_4217_currency babel code) (ValueError ''Invalid ISO 4217 currency code'')) (\<lambda>_.
      Inr code)))"

definition normalize_rate_decimal :: "rat \<Rightarrow> rat result" where
  "normalize_rate_decimal rate =
     bindE (raise_if (rate \<le> 0) (ValueError ''FX rate must be greater than zero'')) (\<lambda>_.
     quantize_at 6 rate)"

definition normalize_currency_pair :: "string list option \<Rightarrow> string \<Rightarrow> string \<Rightarrow> (string \<times> string) result" where
  "normalize_currency_pair babel base_currency quote_currency =
     bindE (normalize_currency_code babel base_currency) (\<lambda>base.
     bindE (normalize_currency_code babel quote_currency) (\<lambda>quote.
     Inr (base, quote)))"

section \<open>Selecting a rate\<close>

record provider_quote =
  pq_provider_name :: string
  pq_base_currency :: string
  pq_quote_currency :: string
  pq_rate_date :: date
  pq_rate :: rat

record provider_fetch_result =
  pf_provider_name :: string
  pf_quote :: "provider_quote option"
  pf_error :: "string option"

record selected_rate_decision =
  sd_selected_rate :: rat
  sd_selected_source :: string
  sd_selection_method :: string
  sd_degraded :: bool

text \<open>An optional string is true when it is there and not empty.\<close>

definition truthy :: "string option \<Rightarrow> bool" where
  "truthy s = (case s of None \<Rightarrow> False | Some t \<Rightarrow> t \<noteq> '''')"

text \<open>\<open>statistics.median\<close>: the middle value, or half the sum of the two middle values.\<close>

definition py_median :: "rat list \<Rightarrow> rat result" where
  "py_median xs =
     (let s = sort xs; n = length xs in
      if n = 0 then Inl (ValueError ''no median for empty data'')
      else if n mod 2 = 1 then Inr (s ! (n div 2))
      else ddiv (dadd (s ! (n div 2 - 1)) (s ! (n div 2))) 2)"

definition select_rate_with_precedence :: "provider_quote list \<Rightarrow> provider_fetch_result list
    \<Rightarrow> rat option \<Rightarrow> rat option \<Rightarrow> selected_rate_decision result" where
  "select_rate_with_precedence provider_quotes provider_results manual_monthly_rate previous_valid_rate =
     (let degraded = list_ex (\<lambda>item. truthy (pf_error item)) provider_results in
      case manual_monthly_rate of
        Some rate \<Rightarrow>
          bindE (normalize_rate_decimal rate) (\<lambda>r.
          Inr \<lparr>sd_selected_rate = r, sd_selected_source = ''manual_monthly'',
               sd_selection_method = ''manual_monthly_override'', sd_degraded = degraded\<rparr>)
      | None \<Rightarrow>
          if provider_quotes \<noteq> [] then
            bindE (py_median (map pq_rate provider_quotes)) (\<lambda>provider_median.
            bindE (normalize_rate_decimal provider_median) (\<lambda>r.
            Inr \<lparr>sd_selected_rate = r, sd_selected_source = ''provider_consensus'',
                 sd_selection_method = ''median_of_available_provider_quotes'', sd_degraded = degraded\<rparr>))
          else case previous_valid_rate of
              Some rate \<Rightarrow>
                bindE (normalize_rate_decimal rate) (\<lambda>r.
                Inr \<lparr>sd_selected_rate = r, sd_selected_source = ''previous_valid_selected_rate'',
                     sd_selection_method = ''fallback_previous_valid_rate'', sd_degraded = True\<rparr>)
            | None \<Rightarrow> Inl (ValueError ''No selectable FX rate available from manual/provider/previous sources''))"

section \<open>Conversion, variance, revaluation\<close>

record converted_line =
  cl_reference :: "string option"
  cl_amount :: rat
  cl_converted_amount :: rat
  cl_applied_rate :: rat

definition convert_amount :: "rat \<Rightarrow> rat \<Rightarrow> rat result" where
  "convert_amount amount rate =
     bindE (normalize_rate_decimal rate) (\<lambda>normalized_rate.
     quantize_at 2 (dmul amount normalized_rate))"

definition apply_rate_to_lines :: "(string option \<times> rat) list \<Rightarrow> rat \<Rightarrow> converted_line list result" where
  "apply_rate_to_lines line_items rate =
     bindE (normalize_rate_decimal rate) (\<lambda>normalized_rate.
     mapE (\<lambda>(reference, amount).
         bindE (convert_amount amount normalized_rate) (\<lambda>converted.
         Inr \<lparr>cl_reference = reference, cl_amount = amount, cl_converted_amount = converted,
              cl_applied_rate = normalized_rate\<rparr>)) line_items)"

record fx_variance_breakdown =
  fv_expected_difference :: rat
  fv_actual_difference :: rat
  fv_fx_variance :: rat

definition compute_fx_variance :: "rat \<Rightarrow> rat \<Rightarrow> fx_variance_breakdown result" where
  "compute_fx_variance expected_difference actual_difference =
     bindE (quantize_at 6 (dsub actual_difference expected_difference)) (\<lambda>variance.
     bindE (quantize_at 6 expected_difference) (\<lambda>expected.
     bindE (quantize_at 6 actual_difference) (\<lambda>actual.
     Inr \<lparr>fv_expected_difference = expected, fv_actual_difference = actual, fv_fx_variance = variance\<rparr>)))"

definition quantize_4 :: "rat \<Rightarrow> rat result" where
  "quantize_4 value = quantize_even_at 4 value"

definition compute_revaluation_delta :: "rat \<Rightarrow> rat \<Rightarrow> rat \<Rightarrow> (rat \<times> rat) result" where
  "compute_revaluation_delta foreign_balance closing_rate historical_base_balance =
     bindE (quantize_4 (dmul foreign_balance closing_rate)) (\<lambda>revalued_base.
     bindE (quantize_4 (dsub revalued_base historical_base_balance)) (\<lambda>fx_difference.
     Inr (revalued_base, fx_difference)))"

definition compute_translated_equity_and_cta :: "rat \<Rightarrow> rat \<Rightarrow> rat \<Rightarrow> rat \<Rightarrow> rat \<Rightarrow> rat \<Rightarrow> (rat \<times> rat) result" where
  "compute_translated_equity_and_cta assets liabilities equity_total retained_earnings closing_rate average_rate =
     bindE (quantize_4 (dsub equity_total retained_earnings)) (\<lambda>equity_ex_retained.
     bindE (quantize_4 (dmul assets closing_rate)) (\<lambda>translated_assets.
     bindE (quantize_4 (dmul liabilities closing_rate)) (\<lambda>translated_liabilities.
     bindE (quantize_4 (dadd (dmul equity_ex_retained closing_rate) (dmul retained_earnings average_rate)))
       (\<lambda>translated_equity.
     bindE (quantize_4 (dsub translated_assets (dadd translated_liabilities translated_equity))) (\<lambda>cta_amount.
     Inr (translated_equity, cta_amount))))))"

section \<open>The rate master\<close>

text \<open>The \<open>fx_rates\<close> table; a row without a tenant is a platform-wide rate.\<close>

record fx_rate =
  fr_id :: uuid
  fr_tenant_id :: "uuid option"
  fr_from_currency :: string
  fr_to_currency :: string
  fr_rate :: rat
  fr_rate_type :: string
  fr_effective_date :: date
  fr_source :: string
  fr_created_by :: "uuid option"
  fr_created_at :: nat

record rate_master =
  rm_rows :: "fx_rate list"
  rm_now :: nat
  rm_next_id :: uuid

definition normalize_rate_type :: "string \<Rightarrow> string result" where
  "normalize_rate_type value =
     (let normalized = py_upper (py_strip value) in
      bindE (raise_if (\<not> List.member [''SPOT'', ''AVERAGE'', ''CLOSING''] normalized)
        (ValidationError ''Invalid rate_type'')) (\<lambda>_. Inr normalized))"

definition normalize_pair :: "string list option \<Rightarrow> string \<Rightarrow> string \<Rightarrow> (string \<times> string) result" where
  "normalize_pair babel from_currency to_currency =
     bindE (normalize_currency_code babel from_currency) (\<lambda>source.
     bindE (normalize_currency_code babel to_currency) (\<lambda>target.
     bindE (raise_if (source = target) (ValidationError ''from_currency and to_currency must differ.'')) (\<lambda>_.
     Inr (source, target))))"

definition create_fx_rate :: "string list option \<Rightarrow> uuid option \<Rightarrow> string \<Rightarrow> string \<Rightarrow> rat \<Rightarrow> string \<Rightarrow> date
    \<Rightarrow> string \<Rightarrow> uuid option \<Rightarrow> rate_master \<Rightarrow> (fx_rate \<times> rate_master) result" where
  "create_fx_rate babel tenant_id from_currency to_currency rate rate_type effective_date source created_by rm =
     bindE (normalize_pair babel from_currency to_currency) (\<lambda>(source_currency, target_currency).
     bindE (normalize_rate_decimal rate) (\<lambda>normalized_rate.
     bindE (normalize_rate_type rate_type) (\<lambda>normalized_rate_type.
     let trimmed = py_lower (py_strip (if source = '''' then ''manual'' else source));
         payload_source = (if trimmed = '''' then ''manual'' else trimmed);
         row = \<lparr>fr_id = rm_next_id rm, fr_tenant_id = tenant_id, fr_from_currency = source_currency,
                fr_to_currency = target_currency, fr_rate = normalized_rate,
                fr_rate_type = normalized_rate_type, fr_effective_date = effective_date,
                fr_source = payload_source, fr_created_by = created_by, fr_created_at = rm_now rm\<rparr>
     in Inr (row, rm\<lparr>rm_rows := rm_rows rm @ [row], rm_now := rm_now rm + 1, rm_next_id := rm_next_id rm + 1\<rparr>))))"

text \<open>\<open>ORDER BY CASE WHEN tenant_id = :t THEN 0 ELSE 1 END, effective_date DESC, created_at DESC\<close>:
  the largest key comes first.\<close>

definition rate_order :: "uuid \<Rightarrow> fx_rate \<Rightarrow> nat \<times> date \<times> nat" where
  "rate_order tenant_id r =
     ((if fr_tenant_id r = Some tenant_id then 1 else 0), fr_effective_date r, fr_created_at r)"

definition visible_to :: "uuid \<Rightarrow> fx_rate \<Rightarrow> bool" where
  "visible_to tenant_id r \<longleftrightarrow> fr_tenant_id r = Some tenant_id \<or> fr_tenant_id r = None"

definition list_fx_rates :: "string list option \<Rightarrow> uuid \<Rightarrow> string option \<Rightarrow> string option \<Rightarrow> string option
    \<Rightarrow> date option \<Rightarrow> nat \<Rightarrow> rate_master \<Rightarrow> fx_rate list result" where
  "list_fx_rates babel tenant_id from_currency to_currency rate_type effective_date limit rm =
     bindE (case (truthy from_currency, truthy to_currency) of
         (True, True) \<Rightarrow>
           bindE (normalize_pair babel (the from_currency) (the to_currency)) (\<lambda>(f, t).
           Inr (\<lambda>r. fr_from_currency r = f \<and> fr_to_currency r = t))
       | (False, False) \<Rightarrow> Inr (\<lambda>r. True)
       | _ \<Rightarrow> Inl (ValidationError ''Provide both from_currency and to_currency together.'')) (\<lambda>pair_ok.
     bindE (if truthy rate_type
            then bindE (normalize_rate_type (the rate_type)) (\<lambda>t. Inr (\<lambda>r. fr_rate_type r = t))
            else Inr (\<lambda>r. True)) (\<lambda>type_ok.
     Inr (take limit (rev (sort_key (rate_order tenant_id)
       (filter (\<lambda>r. visible_to tenant_id r \<and> pair_ok r \<and> type_ok r
           \<and> (case effective_date of None \<Rightarrow> True | Some d \<Rightarrow> fr_effective_date r = d)) (rm_rows rm)))))))"

definition get_latest_fx_rate :: "string list option \<Rightarrow> uuid \<Rightarrow> string \<Rightarrow> string \<Rightarrow> string \<Rightarrow> date
    \<Rightarrow> rate_master \<Rightarrow> fx_rate option result" where
  "get_latest_fx_rate babel tenant_id from_currency to_currency rate_type as_of_date rm =
     bindE (normalize_pair babel from_currency to_currency) (\<lambda>(source_currency, target_currency).
     bindE (normalize_rate_type rate_type) (\<lambda>normalized_rate_type.
     Inr (latest_by (rate_order tenant_id)
       (filter (\<lambda>r. visible_to tenant_id r \<and> fr_from_currency r = source_currency
            \<and> fr_to_currency r = target_currency \<and> fr_rate_type r = normalized_rate_type
            \<and> fr_effective_date r \<le> as_of_date) (rm_rows rm)))))"

definition get_required_latest_fx_rate :: "string list option \<Rightarrow> uuid \<Rightarrow> string \<Rightarrow> string \<Rightarrow> string \<Rightarrow> date
    \<Rightarrow> rate_master \<Rightarrow> fx_rate result" where
  "get_required_latest_fx_rate babel tenant_id from_currency to_currency rate_type as_of_date rm =
     bindE (get_latest_fx_rate babel tenant_id from_currency to_currency rate_type as_of_date rm) (\<lambda>row.
     case row of None \<Rightarrow> Inl (NotFoundError ''No FX rate found'') | Some r \<Rightarrow> Inr r)"

section \<open>Facts about codes and rates\<close>

lemma currency_code_pattern:
  assumes "normalize_currency_code babel c = Inr b"
  shows "currency_pattern b" and "b \<noteq> ''NTD''" and "is_valid_iso_4217_currency babel b"
  using assms by (auto simp: normalize_currency_code_def Let_def result_simps alias_map_def split: if_splits)

text \<open>A normalized code is a fixed point, so engines that normalize twice agree.\<close>

lemma normalize_currency_code_idem:
  assumes "normalize_currency_code babel c = Inr b"
  shows "normalize_currency_code babel b = Inr b"
proof -
  note b = currency_code_pattern [OF assms]
  have "py_upper (py_strip b) = b" using b(1) by (intro strip_upper_fix) (simp add: currency_pattern_def)
  then show ?thesis using b by (simp add: normalize_currency_code_def alias_map_def)
qed

lemma normalize_rate_Inr:
  "normalize_rate_decimal x = Inr r \<longleftrightarrow> 0 < x \<and> quantize_persisted_amount x = Inr r"
  by (auto simp: normalize_rate_decimal_def quantize_persisted_amount_def result_simps)

lemma normalize_rate_money: "normalize_rate_decimal x = Inr r \<Longrightarrow> money r \<and> 0 \<le> r"
  by (auto simp: normalize_rate_Inr dest: quantize_money intro: quantize_nonneg)

lemma normalize_rate_idem: "money r \<Longrightarrow> 0 < r \<Longrightarrow> normalize_rate_decimal r = Inr r"
  by (simp add: normalize_rate_Inr quantize_id)

section \<open>Provider consensus\<close>

lemma halving_bounds:
  assumes lo: "money lo" "lo \<le> x" "lo \<le> y" and hi: "money hi" "x \<le> hi" "y \<le> hi"
    and lim: "0 \<le> lo" "2 * hi < 10 ^ 22"
  shows "lo \<le> dec_round prec (dadd x y / 2)" "dec_round prec (dadd x y / 2) \<le> hi"
proof -
  define l where "l = (10 ^ 22 :: rat)"
  have l: "2 * hi < l" "lo \<le> hi" "0 \<le> hi" using lim lo(2) hi(2) by (simp_all add: l_def)
  then have b: "\<bar>lo + lo\<bar> < l" "\<bar>hi + hi\<bar> < l" "\<bar>lo\<bar> < l" "\<bar>hi\<bar> < l"
    using lim(1) by linarith+
  moreover have "micro (lo + lo)" "micro (hi + hi)" by (intro micro_add money_micro lo(1) hi(1))+
  ultimately have f: "dec_round prec (lo + lo) = lo + lo" "dec_round prec (hi + hi) = hi + hi"
    "dec_round prec lo = lo" "dec_round prec hi = hi"
    using lo(1) hi(1) unfolding l_def by (simp_all only: micro_dec_round money_micro)
  have "lo + lo \<le> dadd x y" "dadd x y \<le> hi + hi"
    using dec_round_mono [of "lo + lo" "x + y" prec] dec_round_mono [of "x + y" "hi + hi" prec]
      lo(2,3) hi(2,3) f(1,2) by (simp_all add: dadd_def)
  then have "lo \<le> dadd x y / 2" "dadd x y / 2 \<le> hi" by simp_all
  then show "lo \<le> dec_round prec (dadd x y / 2)" "dec_round prec (dadd x y / 2) \<le> hi"
    using dec_round_mono [of lo "dadd x y / 2" prec] dec_round_mono [of "dadd x y / 2" hi prec] f(3,4)
    by simp_all
qed

lemma py_median_bounds:
  assumes "xs \<noteq> []" and all: "\<forall>x \<in> set xs. lo \<le> x \<and> x \<le> hi"
    and "money lo" "money hi" "0 \<le> lo" "2 * hi < 10 ^ 22"
  shows "\<exists>m. py_median xs = Inr m \<and> lo \<le> m \<and> m \<le> hi"
proof -
  define n where "n = length xs"
  have n: "0 < n" using assms(1) by (simp add: n_def)
  have mem: "lo \<le> sort xs ! i \<and> sort xs ! i \<le> hi" if "i < n" for i
    using all that nth_mem [of i "sort xs"] by (simp add: n_def)
  show ?thesis
  proof (cases "n mod 2 = 1")
    case True
    then show ?thesis using n mem [of "n div 2"] by (simp add: py_median_def Let_def flip: n_def)
  next
    case False
    then have "n div 2 - 1 < n" "n div 2 < n" using n by simp_all
    from halving_bounds [OF assms(3) _ _ assms(4) _ _ assms(5,6)] mem [OF this(1)] mem [OF this(2)]
    show ?thesis using False n by (simp add: py_median_def Let_def ddiv_def flip: n_def)
  qed
qed

text \<open>With no manual rate, the selected rate is the provider consensus: for any number of
  quotes the median rounds to a rate between the lowest and the highest of them, so a
  single outlier cannot carry the selection outside the range of the others; the decision
  is marked degraded exactly when some provider reported an error.\<close>

theorem consensus_within_quotes:
  assumes "quotes \<noteq> []" and "\<forall>q \<in> set quotes. lo \<le> pq_rate q \<and> pq_rate q \<le> hi"
    and "money lo" "money hi" "0 < lo" "2 * hi < 10 ^ 22"
  shows "\<exists>d. select_rate_with_precedence quotes results None previous = Inr d
    \<and> lo \<le> sd_selected_rate d \<and> sd_selected_rate d \<le> hi
    \<and> sd_selected_source d = ''provider_consensus''
    \<and> sd_degraded d = list_ex (\<lambda>r. truthy (pf_error r)) results"
proof -
  obtain m where m: "py_median (map pq_rate quotes) = Inr m" "lo \<le> m" "m \<le> hi"
    using py_median_bounds [of "map pq_rate quotes" lo hi] assms by auto
  from quantize_total [OF m(2,3) assms(3,4)] obtain r where
    "quantize_persisted_amount m = Inr r" "lo \<le> r" "r \<le> hi" by blast
  then show ?thesis using m assms(1,5)
    by (simp add: select_rate_with_precedence_def normalize_rate_decimal_def quantize_persisted_amount_def)
qed

definition ex_quote :: "string \<Rightarrow> rat \<Rightarrow> provider_quote" where
  "ex_quote name r = \<lparr>pq_provider_name = name, pq_base_currency = ''USD'', pq_quote_currency = ''INR'',
     pq_rate_date = Date 2024 5 6, pq_rate = r\<rparr>"

lemma ex_rate_money: "money 83" "money 91" "money (7 / 2)"
  by code_simp+

lemma consensus_within_quotes_witness:
  "\<exists>d. select_rate_with_precedence [ex_quote ''ecb'' 91, ex_quote ''frankfurter'' 83] [] None None = Inr d
    \<and> 83 \<le> sd_selected_rate d \<and> sd_selected_rate d \<le> 91
    \<and> sd_selected_source d = ''provider_consensus'' \<and> sd_degraded d = list_ex (\<lambda>r. truthy (pf_error r)) []"
  using consensus_within_quotes [of "[ex_quote ''ecb'' 91, ex_quote ''frankfurter'' 83]" 83 91 "[]" None]
  by (simp add: ex_rate_money ex_quote_def)

section \<open>The rate master\<close>

definition rate_candidates :: "uuid \<Rightarrow> string \<Rightarrow> string \<Rightarrow> string \<Rightarrow> date \<Rightarrow> rate_master \<Rightarrow> fx_rate list" where
  "rate_candidates tenant_id f t ty as_of rm =
     filter (\<lambda>r. visible_to tenant_id r \<and> fr_from_currency r = f \<and> fr_to_currency r = t
        \<and> fr_rate_type r = ty \<and> fr_effective_date r \<le> as_of) (rm_rows rm)"

text \<open>The rate master prefers a tenant's own rate to a platform-wide one, even to a newer
  one; among rates of the same owner it returns the latest effective date not after the
  requested day; it never returns another tenant's rate, and finds a rate whenever a
  visible one exists.\<close>

theorem latest_rate_precedence:
  assumes "get_latest_fx_rate babel tenant_id f t ty as_of rm = Inr result"
    and "normalize_currency_code babel f = Inr f'" and "normalize_currency_code babel t = Inr t'"
    and "normalize_rate_type ty = Inr ty'"
  shows "case result of
      None \<Rightarrow> rate_candidates tenant_id f' t' ty' as_of rm = []
    | Some r \<Rightarrow> r \<in> set (rate_candidates tenant_id f' t' ty' as_of rm)
        \<and> (\<forall>x \<in> set (rate_candidates tenant_id f' t' ty' as_of rm).
             (fr_tenant_id x = Some tenant_id \<longrightarrow> fr_tenant_id r = Some tenant_id)
             \<and> (fr_tenant_id x = fr_tenant_id r \<longrightarrow> fr_effective_date x \<le> fr_effective_date r))"
proof -
  have res: "result = latest_by (rate_order tenant_id) (rate_candidates tenant_id f' t' ty' as_of rm)"
    using assms by (auto simp: get_latest_fx_rate_def rate_candidates_def normalize_pair_def result_simps)
  show ?thesis
  proof (cases result)
    case None
    then have "rate_candidates tenant_id f' t' ty' as_of rm = []" using res by (metis latest_by_None)
    then show ?thesis by (simp add: None)
  next
    case (Some r)
    from latest_by_Some [OF res [unfolded Some, symmetric]]
    show ?thesis by (fastforce simp: Some rate_order_def split: if_splits)
  qed
qed

definition ex_rate_row :: "uuid \<Rightarrow> uuid option \<Rightarrow> date \<Rightarrow> rat \<Rightarrow> fx_rate" where
  "ex_rate_row i owner d r = \<lparr>fr_id = i, fr_tenant_id = owner, fr_from_currency = ''USD'', fr_to_currency = ''INR'',
     fr_rate = r, fr_rate_type = ''SPOT'', fr_effective_date = d, fr_source = ''manual'', fr_created_by = None,
     fr_created_at = i\<rparr>"

definition ex_rate_master :: rate_master where
  "ex_rate_master = \<lparr>rm_rows = [ex_rate_row 5 (Some 2) (Date 2024 1 31) 83, ex_rate_row 6 None (Date 2024 3 31) 84,
     ex_rate_row 7 (Some 9) (Date 2024 4 30) 91], rm_now = 8, rm_next_id = 8\<rparr>"

lemma latest_rate_precedence_witness:
  "ex_rate_row 5 (Some 2) (Date 2024 1 31) 83
     \<in> set (rate_candidates 2 ''USD'' ''INR'' ''SPOT'' (Date 2024 6 30) ex_rate_master)"
proof -
  have "normalize_currency_code None ''USD'' = Inr ''USD''" "normalize_currency_code None ''INR'' = Inr ''INR''"
    "normalize_rate_type ''SPOT'' = Inr ''SPOT''"
    "get_latest_fx_rate None 2 ''USD'' ''INR'' ''SPOT'' (Date 2024 6 30) ex_rate_master
       = Inr (Some (ex_rate_row 5 (Some 2) (Date 2024 1 31) 83))"
    by code_simp+
  from latest_rate_precedence [OF this(4,1,2,3)] show ?thesis by simp
qed

end
