(* ===== verification/FX_Service.thy ===== *)
theory FX_Service
  imports FX_Rates Audit_Chain
begin

text \<open>
  \<open>services/fx/fx_rate_service.py\<close> and \<open>cache.py\<close>: live fetches, append-only manual
  monthly rates with month-end locking, and the resolution of the rate an engine uses.
  The answers of the four rate providers are the parameter \<open>provider_results\<close>; the log
  lines are left out, and the rendered response dictionaries are the records they print.
  Redis is an association of keys to values with an expiry time; a client that is absent
  or fails is \<open>None\<close>.
\<close>

section \<open>State\<close>

record fx_run =
  fn_rate_date :: date
  fn_base_currency :: string
  fn_quote_currency :: string
  fn_status :: string
  fn_provider_count :: nat
  fn_success_count :: nat
  fn_failure_count :: nat
  fn_selected_rate :: "rat option"
  fn_selected_source :: "string option"
  fn_selection_method :: "string option"
  fn_fallback_used :: bool
  fn_initiated_by :: "uuid option"
  fn_correlation_id :: "string option"
  fn_provider_errors :: "(string \<times> string) list"

record fx_quote_row =
  fq_fetch_run_id :: uuid
  fq_quote :: provider_quote
  fq_correlation_id :: "string option"

record fx_manual_rate =
  fm_period_year :: int
  fm_period_month :: int
  fm_base_currency :: string
  fm_quote_currency :: string
  fm_rate :: rat
  fm_entered_by :: uuid
  fm_reason :: string
  fm_supersedes_rate_id :: "uuid option"
  fm_source_type :: string
  fm_is_month_end_locked :: bool
  fm_correlation_id :: "string option"

record fx_variance_row =
  fz_period_year :: int
  fz_period_month :: int
  fz_entity_name :: "string option"
  fz_base_currency :: string
  fz_quote_currency :: string
  fz_breakdown :: fx_variance_breakdown
  fz_computed_by :: uuid
  fz_notes :: "string option"
  fz_correlation_id :: "string option"

datatype fx_cache_key =
    Selected_Rate_Key uuid date string string
  | Manual_Monthly_Key uuid int int string string

record cached_selected_rate =
  ca_rate :: rat
  ca_selected_source :: string
  ca_selection_method :: string
  ca_rate_date :: date

type_synonym redis = "(fx_cache_key \<times> nat \<times> cached_selected_rate) list"

record fx_db =
  fx_runs :: "fx_run row list"
  fx_quotes :: "fx_quote_row row list"
  fx_manual :: "fx_manual_rate row list"
  fx_variances :: "fx_variance_row row list"
  fx_redis :: "redis option"
  fx_env :: env

section \<open>The cache\<close>

text \<open>The time to live is one hour, in the clock's microseconds.\<close>

definition fx_cache_ttl :: nat where "fx_cache_ttl = 3600 * 1000000"

definition cache_selected_rate :: "uuid \<Rightarrow> date \<Rightarrow> string \<Rightarrow> string \<Rightarrow> rat \<Rightarrow> string \<Rightarrow> string \<Rightarrow> fx_db \<Rightarrow> fx_db" where
  "cache_selected_rate tenant_id rate_date base quote rate source selection db =
     db\<lparr>fx_redis := map_option (AList.update (Selected_Rate_Key tenant_id rate_date base quote)
       (env_now (fx_env db) + fx_cache_ttl,
        \<lparr>ca_rate = rate, ca_selected_source = source, ca_selection_method = selection, ca_rate_date = rate_date\<rparr>))
       (fx_redis db)\<rparr>"

definition get_cached_selected_rate :: "uuid \<Rightarrow> date \<Rightarrow> string \<Rightarrow> string \<Rightarrow> fx_db \<Rightarrow> cached_selected_rate option" where
  "get_cached_selected_rate tenant_id rate_date base quote db =
     (case fx_redis db of
        None \<Rightarrow> None
      | Some redis \<Rightarrow>
          (case map_of redis (Selected_Rate_Key tenant_id rate_date base quote) of
             None \<Rightarrow> None
           | Some (expires, v) \<Rightarrow> if env_now (fx_env db) < expires then Some v else None))"

definition invalidate_manual_monthly_cache :: "uuid \<Rightarrow> int \<Rightarrow> int \<Rightarrow> string \<Rightarrow> string \<Rightarrow> fx_db \<Rightarrow> fx_db" where
  "invalidate_manual_monthly_cache tenant_id y m base quote db =
     db\<lparr>fx_redis := map_option (AList.delete (Manual_Monthly_Key tenant_id y m base quote)) (fx_redis db)\<rparr>"

section \<open>Queries\<close>

definition manual_rows :: "uuid \<Rightarrow> int \<Rightarrow> int \<Rightarrow> string \<Rightarrow> string \<Rightarrow> fx_db \<Rightarrow> fx_manual_rate row list" where
  "manual_rows tenant_id period_year period_month base quote db =
     filter (\<lambda>r. row_tenant r = tenant_id
         \<and> fm_period_year (row_values r) = period_year \<and> fm_period_month (row_values r) = period_month
         \<and> fm_base_currency (row_values r) = base \<and> fm_quote_currency (row_values r) = quote) (fx_manual db)"

definition get_latest_manual_monthly_rate :: "uuid \<Rightarrow> int \<Rightarrow> int \<Rightarrow> string \<Rightarrow> string \<Rightarrow> fx_db
    \<Rightarrow> fx_manual_rate row option" where
  "get_latest_manual_monthly_rate tenant_id period_year period_month base quote db =
     latest_by row_created_at (manual_rows tenant_id period_year period_month base quote db)"

definition get_previous_selected_from_runs :: "uuid \<Rightarrow> string \<Rightarrow> string \<Rightarrow> date \<Rightarrow> fx_db \<Rightarrow> (rat \<times> string) option" where
  "get_previous_selected_from_runs tenant_id base quote as_of_date db =
     (case latest_by (\<lambda>r. (fn_rate_date (row_values r), row_created_at r))
         (filter (\<lambda>r. row_tenant r = tenant_id \<and> fn_base_currency (row_values r) = base
              \<and> fn_quote_currency (row_values r) = quote \<and> fn_rate_date (row_values r) \<le> as_of_date
              \<and> fn_selected_rate (row_values r) \<noteq> None) (fx_runs db)) of
        None \<Rightarrow> None
      | Some run \<Rightarrow>
          (case fn_selected_rate (row_values run) of
             None \<Rightarrow> None
           | Some rate \<Rightarrow> Some (rate,
               if truthy (fn_selected_source (row_values run)) then the (fn_selected_source (row_values run))
               else ''previous_valid_selected_rate'')))"

text \<open>\<open>_provider_errors\<close>: the last error reported under a provider's name.\<close>

definition provider_errors :: "provider_fetch_result list \<Rightarrow> (string \<times> string) list" where
  "provider_errors results =
     py_dict (concat (map (\<lambda>item. if truthy (pf_error item)
                               then [(pf_provider_name item, the (pf_error item))] else []) results))"

definition provider_names :: "string list" where
  "provider_names = [''ecb'', ''frankfurter'', ''open_exchange_rates'', ''exchange_rate_api'']"

record side_by_side_row =
  sb_provider :: string
  sb_status :: string
  sb_rate :: "rat option"
  sb_rate_date :: "date option"
  sb_error :: "string option"

definition build_side_by_side :: "provider_fetch_result list \<Rightarrow> side_by_side_row list" where
  "build_side_by_side results =
     map (\<lambda>result. \<lparr>sb_provider = pf_provider_name result,
       sb_status = (if pf_quote result \<noteq> None \<and> pf_error result = None then ''ok'' else ''error''),
       sb_rate = map_option pq_rate (pf_quote result),
       sb_rate_date = map_option pq_rate_date (pf_quote result),
       sb_error = pf_error result\<rparr>) results"

record comparison_payload =
  cp_fetch_run_id :: uuid
  cp_run :: fx_run
  cp_providers :: "side_by_side_row list"

definition build_comparison_payload :: "fx_run row \<Rightarrow> side_by_side_row list \<Rightarrow> comparison_payload" where
  "build_comparison_payload run rows =
     \<lparr>cp_fetch_run_id = row_id run, cp_run = row_values run, cp_providers = rows\<rparr>"

section \<open>Inserts\<close>

definition fx_event :: "uuid \<Rightarrow> uuid option \<Rightarrow> string \<Rightarrow> string \<Rightarrow> (string \<times> json) list \<Rightarrow> audit_event" where
  "fx_event tenant_id user_id action resource_type new_value =
     \<lparr>ae_tenant_id = tenant_id, ae_action = action, ae_resource_type = resource_type, ae_user_id = user_id,
      ae_resource_id = None, ae_resource_name = None, ae_old_value = None, ae_new_value = Some (JDict new_value),
      ae_ip_address = None, ae_user_agent = None\<rparr>"

definition persist_fetch_run :: "sha \<Rightarrow> uuid \<Rightarrow> fx_run \<Rightarrow> fx_db \<Rightarrow> fx_run row \<times> fx_db" where
  "persist_fetch_run sha tenant_id v db =
     (let (record, rows, env) = insert_financial_record sha (\<lambda>v. v) tenant_id
            (JDict [(''rate_date'', JStr (date_text (fn_rate_date v))),
                    (''base_currency'', JStr (fn_base_currency v)),
                    (''quote_currency'', JStr (fn_quote_currency v)),
                    (''status'', JStr (fn_status v)),
                    (''selected_rate'', json_opt (map_option amount_text (fn_selected_rate v))),
                    (''correlation_id'', json_opt (fn_correlation_id v))])
            v
            (Some (fx_event tenant_id (fn_initiated_by v) ''fx.fetch.run.created'' ''fx_rate_fetch_run''
              [(''base_currency'', JStr (fn_base_currency v)), (''quote_currency'', JStr (fn_quote_currency v)),
               (''rate_date'', JStr (date_text (fn_rate_date v))), (''status'', JStr (fn_status v)),
               (''correlation_id'', json_opt (fn_correlation_id v))]))
            (fx_runs db, fx_env db)
      in (record, db\<lparr>fx_runs := rows, fx_env := env\<rparr>))"

definition persist_provider_quote :: "sha \<Rightarrow> uuid \<Rightarrow> uuid option \<Rightarrow> string option \<Rightarrow> uuid \<Rightarrow> provider_quote
    \<Rightarrow> fx_db \<Rightarrow> fx_db" where
  "persist_provider_quote sha tenant_id requested_by correlation_id fetch_run_id quote db =
     (let (record, rows, env) = insert_financial_record sha (\<lambda>v. v) tenant_id
            (JDict [(''fetch_run_id'', JStr (uuid_text fetch_run_id)),
                    (''provider_name'', JStr (pq_provider_name quote)),
                    (''base_currency'', JStr (pq_base_currency quote)),
                    (''quote_currency'', JStr (pq_quote_currency quote)),
                    (''rate_date'', JStr (date_text (pq_rate_date quote))),
                    (''rate'', JStr (amount_text (pq_rate quote)))])
            \<lparr>fq_fetch_run_id = fetch_run_id, fq_quote = quote, fq_correlation_id = correlation_id\<rparr>
            (Some (fx_event tenant_id requested_by ''fx.rate.quote.ingested'' ''fx_rate_quote''
              [(''provider_name'', JStr (pq_provider_name quote)),
               (''base_currency'', JStr (pq_base_currency quote)),
               (''quote_currency'', JStr (pq_quote_currency quote)),
               (''rate_date'', JStr (date_text (pq_rate_date quote))),
               (''correlation_id'', json_opt correlation_id)]))
            (fx_quotes db, fx_env db)
      in db\<lparr>fx_quotes := rows, fx_env := env\<rparr>)"

definition insert_manual_rate :: "sha \<Rightarrow> uuid \<Rightarrow> fx_manual_rate \<Rightarrow> fx_db \<Rightarrow> fx_manual_rate row \<times> fx_db" where
  "insert_manual_rate sha tenant_id v db =
     (let (record, rows, env) = insert_financial_record sha (\<lambda>v. v) tenant_id
            (JDict [(''period_year'', JInt (fm_period_year v)), (''period_month'', JInt (fm_period_month v)),
                    (''base_currency'', JStr (fm_base_currency v)), (''quote_currency'', JStr (fm_quote_currency v)),
                    (''rate'', JStr (amount_text (fm_rate v))), (''source_type'', JStr (fm_source_type v)),
                    (''is_month_end_locked'', JBool (fm_is_month_end_locked v))])
            v
            (Some (fx_event tenant_id (Some (fm_entered_by v)) ''fx.rate.manual.created'' ''fx_manual_monthly_rate''
              [(''period_year'', JInt (fm_period_year v)), (''period_month'', JInt (fm_period_month v)),
               (''base_currency'', JStr (fm_base_currency v)), (''quote_currency'', JStr (fm_quote_currency v)),
               (''correlation_id'', json_opt (fm_correlation_id v)), (''source_type'', JStr (fm_source_type v))]))
            (fx_manual db, fx_env db)
      in (record, db\<lparr>fx_manual := rows, fx_env := env\<rparr>))"

section \<open>Manual monthly rates\<close>

definition create_manual_monthly_rate :: "sha \<Rightarrow> string list option \<Rightarrow> bool \<Rightarrow> uuid \<Rightarrow> uuid \<Rightarrow> string option \<Rightarrow> int \<Rightarrow> int
    \<Rightarrow> string \<Rightarrow> string \<Rightarrow> rat \<Rightarrow> string \<Rightarrow> uuid option \<Rightarrow> string \<Rightarrow> bool \<Rightarrow> fx_db
    \<Rightarrow> (fx_manual_rate row \<times> fx_db) result" where
  "create_manual_monthly_rate sha babel use_redis tenant_id entered_by correlation_id period_year period_month
      base_currency quote_currency rate reason supersedes_rate_id source_type is_month_end_locked db =
     bindE (normalize_currency_pair babel base_currency quote_currency) (\<lambda>(base, quote).
     bindE (normalize_rate_decimal rate) (\<lambda>normalized_rate.
     let latest = get_latest_manual_monthly_rate tenant_id period_year period_month base quote db in
     bindE (raise_if (case latest of None \<Rightarrow> False
                      | Some r \<Rightarrow> fm_is_month_end_locked (row_values r) \<and> supersedes_rate_id = None)
       (ValidationError ''Month-end rate is locked; provide supersedes_rate_id for append-only supersession'')) (\<lambda>_.
     bindE (raise_if (case (supersedes_rate_id, latest) of (Some i, Some r) \<Rightarrow> i \<noteq> row_id r | _ \<Rightarrow> False)
       (ValidationError ''supersedes_rate_id must point to the latest monthly rate'')) (\<lambda>_.
     let (record, db) = insert_manual_rate sha tenant_id
           \<lparr>fm_period_year = period_year, fm_period_month = period_month, fm_base_currency = base,
            fm_quote_currency = quote, fm_rate = normalized_rate, fm_entered_by = entered_by, fm_reason = reason,
            fm_supersedes_rate_id = supersedes_rate_id, fm_source_type = source_type,
            fm_is_month_end_locked = is_month_end_locked, fm_correlation_id = correlation_id\<rparr> db
     in Inr (record, if use_redis then invalidate_manual_monthly_cache tenant_id period_year period_month base quote db
                     else db)))))"

definition list_manual_monthly_rates :: "string list option \<Rightarrow> uuid \<Rightarrow> int option \<Rightarrow> int option \<Rightarrow> string option
    \<Rightarrow> string option \<Rightarrow> nat \<Rightarrow> nat \<Rightarrow> fx_db \<Rightarrow> fx_manual_rate row list result" where
  "list_manual_monthly_rates babel tenant_id period_year period_month base_currency quote_currency limit offset db =
     bindE (case base_currency of None \<Rightarrow> Inr (\<lambda>r. True)
            | Some c \<Rightarrow> bindE (normalize_currency_code babel c) (\<lambda>b. Inr (\<lambda>r. fm_base_currency r = b))) (\<lambda>base_ok.
     bindE (case quote_currency of None \<Rightarrow> Inr (\<lambda>r. True)
            | Some c \<Rightarrow> bindE (normalize_currency_code babel c) (\<lambda>q. Inr (\<lambda>r. fm_quote_currency r = q))) (\<lambda>quote_ok.
     Inr (take limit (drop offset (rev (sort_key row_created_at
       (filter (\<lambda>r. row_tenant r = tenant_id
           \<and> (case period_year of None \<Rightarrow> True | Some y \<Rightarrow> fm_period_year (row_values r) = y)
           \<and> (case period_month of None \<Rightarrow> True | Some m \<Rightarrow> fm_period_month (row_values r) = m)
           \<and> base_ok (row_values r) \<and> quote_ok (row_values r)) (fx_manual db))))))))"

section \<open>Resolving a rate\<close>

definition quotes_on :: "uuid \<Rightarrow> string \<Rightarrow> string \<Rightarrow> date \<Rightarrow> fx_db \<Rightarrow> provider_quote list" where
  "quotes_on tenant_id base quote as_of_date db =
     map (\<lambda>r. fq_quote (row_values r))
       (filter (\<lambda>r. row_tenant r = tenant_id \<and> pq_base_currency (fq_quote (row_values r)) = base
            \<and> pq_quote_currency (fq_quote (row_values r)) = quote
            \<and> pq_rate_date (fq_quote (row_values r)) = as_of_date) (fx_quotes db))"

text \<open>\<open>use_redis\<close> is whether the caller passes a Redis client.\<close>

definition resolve_selected_rate :: "string list option \<Rightarrow> bool \<Rightarrow> uuid \<Rightarrow> string \<Rightarrow> string \<Rightarrow> date \<Rightarrow> fx_db
    \<Rightarrow> selected_rate_decision result" where
  "resolve_selected_rate babel use_redis tenant_id base_currency quote_currency as_of_date db =
     bindE (normalize_currency_pair babel base_currency quote_currency) (\<lambda>(base, quote).
     let manual = get_latest_manual_monthly_rate tenant_id (dt_year as_of_date) (dt_month as_of_date) base quote db;
         manual_rate = map_option (\<lambda>r. fm_rate (row_values r)) manual in
     case manual_rate of
       Some rate \<Rightarrow>
         bindE (normalize_rate_decimal rate) (\<lambda>r.
         Inr \<lparr>sd_selected_rate = r, sd_selected_source = ''manual_monthly'',
              sd_selection_method = ''manual_monthly_override'', sd_degraded = False\<rparr>)
     | None \<Rightarrow>
         (let cached = (if use_redis then get_cached_selected_rate tenant_id as_of_date base quote db else None);
              previous_rate = map_option fst (get_previous_selected_from_runs tenant_id base quote as_of_date db);
              provider_quotes = quotes_on tenant_id base quote as_of_date db;
              provider_results = map (\<lambda>q. \<lparr>pf_provider_name = pq_provider_name q, pf_quote = Some q, pf_error = None\<rparr>)
                provider_quotes in
          if cached \<noteq> None \<and> provider_quotes = [] \<and> previous_rate = None then
            bindE (normalize_rate_decimal (ca_rate (the cached))) (\<lambda>r.
            Inr \<lparr>sd_selected_rate = r, sd_selected_source = ca_selected_source (the cached),
                 sd_selection_method = ca_selection_method (the cached), sd_degraded = True\<rparr>)
          else
            select_rate_with_precedence provider_quotes
              (if provider_results = []
               then map (\<lambda>n. \<lparr>pf_provider_name = n, pf_quote = None, pf_error = Some ''no_quote''\<rparr>) provider_names
               else provider_results)
              None previous_rate))"

section \<open>Live fetches\<close>

text \<open>The decision of \<open>fetch_live_rates\<close>, with the flag \<open>fallback_used\<close>; no decision when
  neither a quote, a manual rate, a cached nor an earlier selected rate exists.\<close>

definition fetch_decision :: "bool \<Rightarrow> uuid \<Rightarrow> string \<Rightarrow> string \<Rightarrow> date \<Rightarrow> provider_fetch_result list \<Rightarrow> fx_db
    \<Rightarrow> (selected_rate_decision option \<times> bool) result" where
  "fetch_decision use_redis tenant_id base quote rate_date provider_results db =
     (let successful_quotes = List.map_filter pf_quote provider_results;
          manual_rate = map_option (\<lambda>r. fm_rate (row_values r))
            (get_latest_manual_monthly_rate tenant_id (dt_year rate_date) (dt_month rate_date) base quote db) in
      if successful_quotes \<noteq> [] \<or> manual_rate \<noteq> None then
        bindE (select_rate_with_precedence successful_quotes provider_results manual_rate None) (\<lambda>d.
        Inr (Some d, False))
      else
        case (if use_redis then get_cached_selected_rate tenant_id rate_date base quote db else None) of
          Some cached \<Rightarrow>
            bindE (normalize_rate_decimal (ca_rate cached)) (\<lambda>r.
            Inr (Some \<lparr>sd_selected_rate = r, sd_selected_source = ca_selected_source cached,
                       sd_selection_method = ca_selection_method cached, sd_degraded = True\<rparr>, True))
        | None \<Rightarrow>
            (case get_previous_selected_from_runs tenant_id base quote rate_date db of
               Some (previous_rate, previous_source) \<Rightarrow>
                 bindE (normalize_rate_decimal previous_rate) (\<lambda>r.
                 Inr (Some \<lparr>sd_selected_rate = r, sd_selected_source = previous_source,
                            sd_selection_method = ''fallback_previous_valid_rate'', sd_degraded = True\<rparr>, True))
             | None \<Rightarrow> Inr (None, False)))"

text \<open>The rest of \<open>fetch_live_rates\<close>: the run row, one row per successful quote, the cache.\<close>

definition fetch_run_values :: "uuid option \<Rightarrow> string option \<Rightarrow> string \<Rightarrow> string \<Rightarrow> date
    \<Rightarrow> provider_fetch_result list \<Rightarrow> selected_rate_decision option \<Rightarrow> bool \<Rightarrow> fx_run" where
  "fetch_run_values requested_by correlation_id base quote rate_date provider_results decision fallback_used =
     (let successful_quotes = List.map_filter pf_quote provider_results;
          status = (case decision of None \<Rightarrow> ''failed''
                    | Some d \<Rightarrow> if sd_degraded d \<or> fallback_used then ''degraded'' else ''success'') in
      \<lparr>fn_rate_date = rate_date, fn_base_currency = base, fn_quote_currency = quote, fn_status = status,
       fn_provider_count = length provider_results, fn_success_count = length successful_quotes,
       fn_failure_count = length provider_results - length successful_quotes,
       fn_selected_rate = map_option sd_selected_rate decision,
       fn_selected_source = map_option sd_selected_source decision,
       fn_selection_method = map_option sd_selection_method decision,
       fn_fallback_used = fallback_used, fn_initiated_by = requested_by,
       fn_correlation_id = correlation_id, fn_provider_errors = provider_errors provider_results\<rparr>)"

definition persist_quotes :: "sha \<Rightarrow> uuid \<Rightarrow> uuid option \<Rightarrow> string option \<Rightarrow> uuid \<Rightarrow> provider_quote list \<Rightarrow> fx_db \<Rightarrow> fx_db" where
  "persist_quotes sha tenant_id requested_by correlation_id run_id quotes db =
     foldl (\<lambda>db q. persist_provider_quote sha tenant_id requested_by correlation_id run_id q db) db quotes"

definition fetch_live_rates :: "sha \<Rightarrow> string list option \<Rightarrow> bool \<Rightarrow> uuid \<Rightarrow> uuid option \<Rightarrow> string option \<Rightarrow> string
    \<Rightarrow> string \<Rightarrow> date \<Rightarrow> (string \<Rightarrow> string \<Rightarrow> date \<Rightarrow> provider_fetch_result list) \<Rightarrow> fx_db
    \<Rightarrow> (comparison_payload \<times> fx_db) result" where
  "fetch_live_rates sha babel use_redis tenant_id requested_by correlation_id base_currency quote_currency
      rate_date fetch_all_provider_quotes db =
     bindE (normalize_currency_pair babel base_currency quote_currency) (\<lambda>(base, quote).
     let provider_results = fetch_all_provider_quotes base quote rate_date in
     bindE (fetch_decision use_redis tenant_id base quote rate_date provider_results db) (\<lambda>(decision, fallback_used).
     let (run, db1) = persist_fetch_run sha tenant_id
           (fetch_run_values requested_by correlation_id base quote rate_date provider_results decision fallback_used) db;
         db2 = persist_quotes sha tenant_id requested_by correlation_id (row_id run)
           (List.map_filter pf_quote provider_results) db1;
         db3 = (case decision of None \<Rightarrow> db2
                | Some d \<Rightarrow> if use_redis
                    then cache_selected_rate tenant_id rate_date base quote (sd_selected_rate d)
                           (sd_selected_source d) (sd_selection_method d) db2
                    else db2)
     in Inr (build_comparison_payload run (build_side_by_side provider_results), db3)))"

definition get_latest_comparison :: "string list option \<Rightarrow> uuid \<Rightarrow> string \<Rightarrow> string \<Rightarrow> fx_db
    \<Rightarrow> comparison_payload option result" where
  "get_latest_comparison babel tenant_id base_currency quote_currency db =
     bindE (normalize_currency_pair babel base_currency quote_currency) (\<lambda>(base, quote).
     case latest_by row_created_at (filter (\<lambda>r. row_tenant r = tenant_id
         \<and> fn_base_currency (row_values r) = base \<and> fn_quote_currency (row_values r) = quote) (fx_runs db)) of
       None \<Rightarrow> Inr None
     | Some run \<Rightarrow>
         (let quotes_by_provider = dict_by (\<lambda>r. pq_provider_name (fq_quote (row_values r)))
                (filter (\<lambda>r. row_tenant r = tenant_id \<and> fq_fetch_run_id (row_values r) = row_id run) (fx_quotes db))
          in Inr (Some (build_comparison_payload run
               (map (\<lambda>provider_name.
                  let quote_row = quotes_by_provider provider_name in
                  \<lparr>sb_provider = provider_name,
                   sb_status = (if quote_row \<noteq> None then ''ok'' else ''error''),
                   sb_rate = map_option (\<lambda>r. pq_rate (fq_quote (row_values r))) quote_row,
                   sb_rate_date = map_option (\<lambda>r. pq_rate_date (fq_quote (row_values r))) quote_row,
                   sb_error = map_of (fn_provider_errors (row_values run)) provider_name\<rparr>) provider_names)))))"

definition get_required_latest_comparison :: "string list option \<Rightarrow> uuid \<Rightarrow> string \<Rightarrow> string \<Rightarrow> fx_db
    \<Rightarrow> comparison_payload result" where
  "get_required_latest_comparison babel tenant_id base_currency quote_currency db =
     bindE (get_latest_comparison babel tenant_id base_currency quote_currency db) (\<lambda>comparison.
     case comparison of
       None \<Rightarrow> Inl (NotFoundError ''No FX comparison available for this currency pair'')
     | Some c \<Rightarrow> Inr c)"

section \<open>Using a rate\<close>

record daily_line =
  dl_reference :: "string option"
  dl_transaction_date :: date
  dl_amount :: rat
  dl_base_currency :: string
  dl_quote_currency :: string

record daily_result =
  dr_line :: daily_line
  dr_applied_rate :: rat
  dr_selected_source :: string
  dr_converted_amount :: rat

definition convert_daily_lines :: "string list option \<Rightarrow> bool \<Rightarrow> uuid \<Rightarrow> daily_line list \<Rightarrow> fx_db
    \<Rightarrow> daily_result list result" where
  "convert_daily_lines babel use_redis tenant_id lines db =
     mapE (\<lambda>line.
       bindE (resolve_selected_rate babel use_redis tenant_id (dl_base_currency line) (dl_quote_currency line)
               (dl_transaction_date line) db) (\<lambda>decision.
       bindE (convert_amount (dl_amount line) (sd_selected_rate decision)) (\<lambda>converted_amount.
       Inr \<lparr>dr_line = line, dr_applied_rate = sd_selected_rate decision,
            dr_selected_source = sd_selected_source decision, dr_converted_amount = converted_amount\<rparr>))) lines"

record month_end_result =
  me_base_currency :: string
  me_quote_currency :: string
  me_selected_rate :: rat
  me_selected_source :: string
  me_lines :: "converted_line list"
  me_lock_rate_id :: "uuid option"

definition apply_month_end_rate :: "sha \<Rightarrow> string list option \<Rightarrow> bool \<Rightarrow> uuid \<Rightarrow> uuid \<Rightarrow> string option \<Rightarrow> int \<Rightarrow> int
    \<Rightarrow> string \<Rightarrow> string \<Rightarrow> (string option \<times> rat) list \<Rightarrow> string \<Rightarrow> fx_db \<Rightarrow> (month_end_result \<times> fx_db) result" where
  "apply_month_end_rate sha babel use_redis tenant_id user_id correlation_id period_year period_month
      base_currency quote_currency line_items approval_reason db =
     bindE (raise_if (\<not> (1 \<le> period_month \<and> period_month \<le> 12)) (ValueError ''bad month number'')) (\<lambda>_.
     bindE (mk_date period_year period_month (days_in_month period_year period_month)) (\<lambda>month_end_date.
     bindE (resolve_selected_rate babel use_redis tenant_id base_currency quote_currency month_end_date db) (\<lambda>decision.
     bindE (apply_rate_to_lines line_items (sd_selected_rate decision)) (\<lambda>converted.
     bindE (normalize_currency_pair babel base_currency quote_currency) (\<lambda>(base, quote).
     let latest = get_latest_manual_monthly_rate tenant_id period_year period_month base quote db;
         lock_needed = (case latest of None \<Rightarrow> True
           | Some r \<Rightarrow> \<not> fm_is_month_end_locked (row_values r) \<or> fm_rate (row_values r) \<noteq> sd_selected_rate decision) in
     bindE (if lock_needed then
              bindE (create_manual_monthly_rate sha babel use_redis tenant_id user_id correlation_id period_year period_month
                  base quote (sd_selected_rate decision)
                  (''month_end_lock:'' @ approval_reason @ '';selected_source='' @ sd_selected_source decision)
                  (map_option row_id latest) ''locked_selection'' True db) (\<lambda>(lock_row, db).
              Inr (Some (row_id lock_row), db))
            else Inr (None, db)) (\<lambda>(lock_rate_id, db).
     Inr (\<lparr>me_base_currency = base, me_quote_currency = quote, me_selected_rate = sd_selected_rate decision,
           me_selected_source = sd_selected_source decision, me_lines = converted,
           me_lock_rate_id = lock_rate_id\<rparr>, db)))))))"

definition insert_variance :: "sha \<Rightarrow> uuid \<Rightarrow> fx_variance_row \<Rightarrow> fx_db \<Rightarrow> fx_variance_row row \<times> fx_db" where
  "insert_variance sha tenant_id v db =
     (let (record, rows, env) = insert_financial_record sha (\<lambda>v. v) tenant_id
           (JDict [(''period_year'', JInt (fz_period_year v)), (''period_month'', JInt (fz_period_month v)),
                   (''base_currency'', JStr (fz_base_currency v)), (''quote_currency'', JStr (fz_quote_currency v)),
                   (''expected_difference'', JStr (amount_text (fv_expected_difference (fz_breakdown v)))),
                   (''actual_difference'', JStr (amount_text (fv_actual_difference (fz_breakdown v)))),
                   (''fx_variance'', JStr (amount_text (fv_fx_variance (fz_breakdown v))))])
           v
           (Some (fx_event tenant_id (Some (fz_computed_by v)) ''fx.variance.computed'' ''fx_variance_result''
             [(''period_year'', JInt (fz_period_year v)), (''period_month'', JInt (fz_period_month v)),
              (''base_currency'', JStr (fz_base_currency v)), (''quote_currency'', JStr (fz_quote_currency v)),
              (''correlation_id'', json_opt (fz_correlation_id v))]))
           (fx_variances db, fx_env db)
      in (record, db\<lparr>fx_variances := rows, fx_env := env\<rparr>))"

definition compute_and_store_variance :: "sha \<Rightarrow> string list option \<Rightarrow> uuid \<Rightarrow> uuid \<Rightarrow> string option \<Rightarrow> int \<Rightarrow> int
    \<Rightarrow> string \<Rightarrow> string \<Rightarrow> rat \<Rightarrow> rat \<Rightarrow> string option \<Rightarrow> string option \<Rightarrow> fx_db
    \<Rightarrow> (fx_variance_row row \<times> fx_db) result" where
  "compute_and_store_variance sha babel tenant_id computed_by correlation_id period_year period_month
      base_currency quote_currency expected_difference actual_difference entity_name notes db =
     bindE (normalize_currency_pair babel base_currency quote_currency) (\<lambda>(base, quote).
     bindE (compute_fx_variance expected_difference actual_difference) (\<lambda>breakdown.
     Inr (insert_variance sha tenant_id
           \<lparr>fz_period_year = period_year, fz_period_month = period_month, fz_entity_name = entity_name,
            fz_base_currency = base, fz_quote_currency = quote, fz_breakdown = breakdown,
            fz_computed_by = computed_by, fz_notes = notes, fz_correlation_id = correlation_id\<rparr> db)))"

section \<open>What inserts do\<close>

lemma insert_manual_rate_facts:
  assumes "insert_manual_rate sha tenant_id v db = (record, db')"
  shows "fx_manual db' = fx_manual db @ [record]" "row_tenant record = tenant_id" "row_values record = v"
    "row_created_at record = env_now (fx_env db)" "env_now (fx_env db) < env_now (fx_env db')"
    "fx_runs db' = fx_runs db" "fx_quotes db' = fx_quotes db" "fx_redis db' = fx_redis db"
    "row_id record = env_next_id (fx_env db)" "env_next_id (fx_env db) < env_next_id (fx_env db')"
  using assms by (auto simp: insert_manual_rate_def split: prod.splits dest: insert_financial_record_facts)

lemma persist_fetch_run_facts:
  assumes "persist_fetch_run sha tenant_id v db = (record, db')"
  shows "fx_runs db' = fx_runs db @ [record]" "row_tenant record = tenant_id" "row_values record = v"
    "fx_manual db' = fx_manual db" "fx_quotes db' = fx_quotes db" "env_now (fx_env db) < env_now (fx_env db')"
    "env_next_id (fx_env db) < env_next_id (fx_env db')"
  using assms by (auto simp: persist_fetch_run_def split: prod.splits dest: insert_financial_record_facts)

lemma persist_provider_quote_facts:
  "fx_manual (persist_provider_quote sha t u c i q db) = fx_manual db"
  "fx_runs (persist_provider_quote sha t u c i q db) = fx_runs db"
  "\<exists>r. fx_quotes (persist_provider_quote sha t u c i q db) = fx_quotes db @ [r] \<and> row_tenant r = t"
  "env_now (fx_env db) < env_now (fx_env (persist_provider_quote sha t u c i q db))"
  "env_next_id (fx_env db) < env_next_id (fx_env (persist_provider_quote sha t u c i q db))"
  by (auto simp: persist_provider_quote_def split: prod.splits dest: insert_financial_record_facts)

lemma invalidate_facts [simp]:
  "fx_manual (invalidate_manual_monthly_cache t y m b q db) = fx_manual db"
  "fx_runs (invalidate_manual_monthly_cache t y m b q db) = fx_runs db"
  "fx_quotes (invalidate_manual_monthly_cache t y m b q db) = fx_quotes db"
  "fx_env (invalidate_manual_monthly_cache t y m b q db) = fx_env db"
  by (simp_all add: invalidate_manual_monthly_cache_def)

lemma cache_facts [simp]:
  "fx_manual (cache_selected_rate t d b q r s m db) = fx_manual db"
  "fx_runs (cache_selected_rate t d b q r s m db) = fx_runs db"
  "fx_quotes (cache_selected_rate t d b q r s m db) = fx_quotes db"
  "fx_env (cache_selected_rate t d b q r s m db) = fx_env db"
  by (simp_all add: cache_selected_rate_def)

text \<open>Manual rows are in order of creation and the clock is ahead of them.\<close>

definition fx_ok :: "fx_db \<Rightarrow> bool" where
  "fx_ok db \<longleftrightarrow> sorted_wrt (<) (map row_created_at (fx_manual db))
     \<and> list_all (\<lambda>r. row_created_at r < env_now (fx_env db)) (fx_manual db)"

lemma fx_ok_append:
  assumes "fx_ok db" "fx_manual db' = fx_manual db @ [r]" "row_created_at r = env_now (fx_env db)"
    "env_now (fx_env db) < env_now (fx_env db')"
  shows "fx_ok db'"
  using assms by (auto simp: fx_ok_def list_all_iff sorted_wrt_append)

lemma fx_ok_later:
  "fx_ok db \<Longrightarrow> fx_manual db' = fx_manual db \<Longrightarrow> env_now (fx_env db) \<le> env_now (fx_env db') \<Longrightarrow> fx_ok db'"
  by (auto simp: fx_ok_def list_all_iff)

lemma latest_manual:
  assumes "fx_ok db"
  shows "get_latest_manual_monthly_rate t y m b q db =
    (let rows = manual_rows t y m b q db in if rows = [] then None else Some (last rows))"
proof -
  have "sorted_wrt (<) (map row_created_at (manual_rows t y m b q db))"
    using assms by (simp add: fx_ok_def manual_rows_def sorted_wrt_map sorted_wrt_filter)
  then show ?thesis by (simp add: get_latest_manual_monthly_rate_def latest_by_sorted Let_def)
qed

text \<open>What a successful call to \<open>create_manual_monthly_rate\<close> did.\<close>

lemma create_manual_facts:
  assumes "create_manual_monthly_rate sha babel use_redis t by_user corr y m b q rate reason sid src locked db
      = Inr (record, db')"
  obtains base quote r where "normalize_currency_pair babel b q = Inr (base, quote)"
    "normalize_rate_decimal rate = Inr r"
    "fx_manual db' = fx_manual db @ [record]" "row_tenant record = t"
    "row_created_at record = env_now (fx_env db)" "env_now (fx_env db) < env_now (fx_env db')"
    "row_id record = env_next_id (fx_env db)" "env_next_id (fx_env db) < env_next_id (fx_env db')"
    "fx_runs db' = fx_runs db" "fx_quotes db' = fx_quotes db"
    "fm_period_year (row_values record) = y" "fm_period_month (row_values record) = m"
    "fm_base_currency (row_values record) = base" "fm_quote_currency (row_values record) = quote"
    "fm_rate (row_values record) = r" "fm_is_month_end_locked (row_values record) = locked"
    "fm_supersedes_rate_id (row_values record) = sid"
    "\<forall>latest. get_latest_manual_monthly_rate t y m base quote db = Some latest \<longrightarrow>
       (fm_is_month_end_locked (row_values latest) \<longrightarrow> sid = Some (row_id latest))"
proof -
  from assms obtain base quote r where
    n: "normalize_currency_pair babel b q = Inr (base, quote)" "normalize_rate_decimal rate = Inr r"
    by (auto simp: create_manual_monthly_rate_def result_simps)
  define v where "v = \<lparr>fm_period_year = y, fm_period_month = m, fm_base_currency = base,
            fm_quote_currency = quote, fm_rate = r, fm_entered_by = by_user, fm_reason = reason,
            fm_supersedes_rate_id = sid, fm_source_type = src,
            fm_is_month_end_locked = locked, fm_correlation_id = corr\<rparr>"
  obtain rec db1 where ins: "insert_manual_rate sha t v db = (rec, db1)" by (cases "insert_manual_rate sha t v db")
  have db': "rec = record" "db' = (if use_redis then invalidate_manual_monthly_cache t y m base quote db1 else db1)"
    using assms ins by (simp_all add: create_manual_monthly_rate_def n Let_def v_def result_simps)
  have g: "\<forall>latest. get_latest_manual_monthly_rate t y m base quote db = Some latest \<longrightarrow>
       (fm_is_month_end_locked (row_values latest) \<longrightarrow> sid = Some (row_id latest))"
    using assms by (cases sid) (auto simp: create_manual_monthly_rate_def n Let_def result_simps)
  note f = insert_manual_rate_facts [OF ins [unfolded db'(1)]]
  show thesis
    by (rule that [OF n _ f(2,4) _ f(9)]) (use f db' g v_def in auto)
qed

lemma fx_ok_create:
  assumes "create_manual_monthly_rate sha babel use_redis t by_user corr y m b q rate reason sid src locked db
      = Inr (record, db')" and "fx_ok db"
  shows "fx_ok db'"
  using assms(1) by (rule create_manual_facts) (rule fx_ok_append [OF assms(2)])

text \<open>The new row is the latest of its month.\<close>

lemma latest_after_create:
  assumes "create_manual_monthly_rate sha babel use_redis t by_user corr y m b q rate reason sid src locked db
      = Inr (record, db')" and "fx_ok db" and "normalize_currency_pair babel b q = Inr (base, quote)"
  shows "get_latest_manual_monthly_rate t y m base quote db' = Some record"
proof -
  from assms(1) have "manual_rows t y m base quote db' = manual_rows t y m base quote db @ [record]"
    by (rule create_manual_facts) (use assms(3) in \<open>auto simp: manual_rows_def\<close>)
  then show ?thesis by (simp add: latest_manual [OF fx_ok_create [OF assms(1,2)]])
qed

lemma resolve_manual:
  assumes "normalize_currency_pair babel b q = Inr (base, quote)"
    and "get_latest_manual_monthly_rate t (dt_year d) (dt_month d) base quote db = Some r"
    and "normalize_rate_decimal (fm_rate (row_values r)) = Inr x"
  shows "resolve_selected_rate babel use_redis t b q d db =
    Inr \<lparr>sd_selected_rate = x, sd_selected_source = ''manual_monthly'',
         sd_selection_method = ''manual_monthly_override'', sd_degraded = False\<rparr>"
  using assms by (simp add: resolve_selected_rate_def Let_def)

text \<open>The stored rate is zero just for the rates that round down to it.\<close>

lemma normalize_rate_zero:
  assumes "normalize_rate_decimal x = Inr r"
  shows "r = 0 \<longleftrightarrow> x < 1 / 2000000"
proof -
  have x: "0 < x" and q: "quantize_persisted_amount x = Inr r" using assms by (simp_all add: normalize_rate_Inr)
  have r: "r = of_int (round_half_up (x * 10 ^ 6)) / 10 ^ 6"
    using q by (auto simp: quantize_amount_unfold Let_def split: if_splits)
  have "round_half_up (x * 10 ^ 6) = 0 \<longleftrightarrow> x * 10 ^ 6 < 1 / 2"
    using x by (simp add: round_half_up_def floor_eq_iff algebra_simps) linarith
  then show ?thesis by (simp add: r mult.commute)
qed

text \<open>(C16) A manual rate takes effect at once.  After \<open>create_manual_monthly_rate\<close> returns, every
  date of that month resolves to the rate just stored, whatever spelling of the pair the caller uses, and over any
  provider quote, cached or earlier selected rate, provided the stored rate is positive.  It need not be: the check that a rate is
  positive comes before its rounding to six places, so that a rate below half a millionth is stored as zero,
  and from then on the month of that pair has no rate at all: every resolution raises.\<close>

theorem manual_rate_takes_effect:
  assumes "create_manual_monthly_rate sha babel use_redis t by_user corr (dt_year d) (dt_month d) b q rate reason
      sid src locked db = Inr (record, db')"
    and "fx_ok db" and "normalize_currency_pair babel b' q' = normalize_currency_pair babel b q"
  shows "(fm_rate (row_values record) = 0 \<longleftrightarrow> rate < 1 / 2000000)
    \<and> resolve_selected_rate babel use_redis' t b' q' d db' =
      (if rate < 1 / 2000000 then Inl (ValueError ''FX rate must be greater than zero'')
       else Inr \<lparr>sd_selected_rate = fm_rate (row_values record), sd_selected_source = ''manual_monthly'',
         sd_selection_method = ''manual_monthly_override'', sd_degraded = False\<rparr>)"
proof -
  from assms(1) obtain base quote r where n: "normalize_currency_pair babel b q = Inr (base, quote)"
    and r: "normalize_rate_decimal rate = Inr r" "fm_rate (row_values record) = r"
    by (rule create_manual_facts)
  have latest: "get_latest_manual_monthly_rate t (dt_year d) (dt_month d) base quote db' = Some record"
    by (rule latest_after_create [OF assms(1,2) n])
  note zero = normalize_rate_zero [OF r(1)]
  show ?thesis
  proof (cases "r = 0")
    case True
    then have "normalize_rate_decimal (fm_rate (row_values record)) = Inl (ValueError ''FX rate must be greater than zero'')"
      by (simp add: r(2) normalize_rate_decimal_def raise_if_def)
    then show ?thesis using n assms(3) latest zero True r(2) by (simp add: resolve_selected_rate_def Let_def)
  next
    case False
    then have "normalize_rate_decimal (fm_rate (row_values record)) = Inr r"
      using normalize_rate_money [OF r(1)] by (intro normalize_rate_idem [of r, folded r(2)] | simp add: r(2) normalize_rate_idem)+
    from resolve_manual [OF n latest this] resolve_manual [OF _ latest this, of babel b' q' use_redis'] show ?thesis
      using n assms(3) r(2) zero False by simp
  qed
qed

lemma select_money: "select_rate_with_precedence qs rs manual previous = Inr dec \<Longrightarrow>
    money (sd_selected_rate dec) \<and> 0 \<le> sd_selected_rate dec"
  by (auto simp: select_rate_with_precedence_def Let_def result_simps
      dest: normalize_rate_money split: option.splits if_splits)

lemma resolve_money:
  assumes "resolve_selected_rate babel use_redis t b q d db = Inr dec"
  shows "money (sd_selected_rate dec)" and "0 \<le> sd_selected_rate dec"
proof -
  consider x r where "normalize_rate_decimal x = Inr r" "sd_selected_rate dec = r"
    | qs rs p where "select_rate_with_precedence qs rs None p = Inr dec"
    using assms
    by (fastforce simp: resolve_selected_rate_def Let_def result_simps split: option.splits if_splits)
  then have "money (sd_selected_rate dec) \<and> 0 \<le> sd_selected_rate dec"
    by cases (use normalize_rate_money select_money in blast)+
  then show "money (sd_selected_rate dec)" and "0 \<le> sd_selected_rate dec" by blast+
qed

lemma normalize_pair_idem:
  "normalize_currency_pair babel b q = Inr (base, quote) \<Longrightarrow> normalize_currency_pair babel base quote = Inr (base, quote)"
  by (auto simp: normalize_currency_pair_def result_simps dest: normalize_currency_code_idem)

text \<open>After a successful month-end application the month is locked at the rate it used.\<close>

lemma month_end_locked:
  assumes "apply_month_end_rate sha babel use_redis t u corr y m b q items reason db = Inr (res, db')"
    and "fx_ok db" and "0 < me_selected_rate res"
  obtains base quote r where "normalize_currency_pair babel b q = Inr (base, quote)"
    "me_base_currency res = base" "me_quote_currency res = quote"
    "get_latest_manual_monthly_rate t y m base quote db' = Some r"
    "fm_is_month_end_locked (row_values r)" "fm_rate (row_values r) = me_selected_rate res"
    "money (me_selected_rate res)" "fx_ok db'"
    "1 \<le> m \<and> m \<le> 12" "mk_date y m (days_in_month y m) = Inr (Date y m (days_in_month y m))"
    "apply_rate_to_lines items (me_selected_rate res) = Inr (me_lines res)"
proof -
  from assms(1) obtain dec base quote where
    m: "1 \<le> m \<and> m \<le> 12" "mk_date y m (days_in_month y m) = Inr (Date y m (days_in_month y m))"
    and dec: "resolve_selected_rate babel use_redis t b q (Date y m (days_in_month y m)) db = Inr dec"
    and items: "apply_rate_to_lines items (sd_selected_rate dec) = Inr (me_lines res)"
    and n: "normalize_currency_pair babel b q = Inr (base, quote)"
    and res: "me_selected_rate res = sd_selected_rate dec" "me_base_currency res = base" "me_quote_currency res = quote"
    by (auto simp: apply_month_end_rate_def Let_def result_simps mk_date_Inr)
  have x: "money (sd_selected_rate dec)" "0 < sd_selected_rate dec"
    using resolve_money(1) [OF dec] assms(3) res(1) by simp_all
  let ?latest = "get_latest_manual_monthly_rate t y m base quote db"
  define needed where "needed = (case ?latest of None \<Rightarrow> True
     | Some r \<Rightarrow> \<not> fm_is_month_end_locked (row_values r) \<or> fm_rate (row_values r) \<noteq> sd_selected_rate dec)"
  have "\<exists>r. get_latest_manual_monthly_rate t y m base quote db' = Some r
      \<and> fm_is_month_end_locked (row_values r) \<and> fm_rate (row_values r) = sd_selected_rate dec \<and> fx_ok db'"
  proof (cases needed)
    case True
    then obtain lock where lock: "create_manual_monthly_rate sha babel use_redis t u corr y m base quote
        (sd_selected_rate dec) (''month_end_lock:'' @ reason @ '';selected_source='' @ sd_selected_source dec)
        (map_option row_id ?latest) ''locked_selection'' True db = Inr (lock, db')"
      using assms(1) m dec items n
      by (auto simp: apply_month_end_rate_def Let_def result_simps needed_def split: if_splits prod.splits)
    have "fm_is_month_end_locked (row_values lock) \<and> fm_rate (row_values lock) = sd_selected_rate dec"
      using lock by (rule create_manual_facts) (use normalize_rate_idem [OF x] in auto)
    then show ?thesis
      using latest_after_create [OF lock assms(2) normalize_pair_idem [OF n]] fx_ok_create [OF lock assms(2)] by blast
  next
    case False
    then have "db' = db" using assms(1) m dec items n
      by (auto simp: apply_month_end_rate_def Let_def result_simps needed_def split: if_splits option.splits)
    then show ?thesis using False assms(2) by (auto simp: needed_def split: option.splits)
  qed
  then show thesis using that [OF n res(2,3)] m items x(1) res(1) by auto
qed

text \<open>Month-end locking is idempotent: applying the month-end rate locks the rate it
  used, and applying it again, by anyone and whatever the reason, finds the lock, converts
  the lines at the same rate and writes nothing.\<close>

theorem month_end_lock_idempotent:
  assumes "apply_month_end_rate sha babel use_redis t u corr y m b q items reason db = Inr (res, db')"
    and "fx_ok db" and "0 < me_selected_rate res"
  shows "apply_month_end_rate sha babel use_redis' t u' corr' y m b q items reason' db' =
    Inr (res\<lparr>me_selected_source := ''manual_monthly'', me_lock_rate_id := None\<rparr>, db')"
proof (rule month_end_locked [OF assms])
  fix base quote r
  assume n: "normalize_currency_pair babel b q = Inr (base, quote)"
    and c: "me_base_currency res = base" "me_quote_currency res = quote"
    and latest: "get_latest_manual_monthly_rate t y m base quote db' = Some r"
    and lock: "fm_is_month_end_locked (row_values r)" "fm_rate (row_values r) = me_selected_rate res"
    and x: "money (me_selected_rate res)"
    and m: "1 \<le> m \<and> m \<le> 12" "mk_date y m (days_in_month y m) = Inr (Date y m (days_in_month y m))"
    and items: "apply_rate_to_lines items (me_selected_rate res) = Inr (me_lines res)"
  have "normalize_rate_decimal (fm_rate (row_values r)) = Inr (me_selected_rate res)"
    using normalize_rate_idem [OF x assms(3)] lock(2) by simp
  from resolve_manual [OF n _ this, of t "Date y m (days_in_month y m)" db' use_redis'] latest
  have "resolve_selected_rate babel use_redis' t b q (Date y m (days_in_month y m)) db' =
      Inr \<lparr>sd_selected_rate = me_selected_rate res, sd_selected_source = ''manual_monthly'',
         sd_selection_method = ''manual_monthly_override'', sd_degraded = False\<rparr>" by simp
  then show ?thesis
    using m n latest lock items c by (simp add: apply_month_end_rate_def Let_def)
qed

text \<open>A database with one earlier fetch of USD/INR at 83 and no manual rate.\<close>

definition ex_run_row :: "fx_run row" where
  "ex_run_row = \<lparr>row_id = 4, row_tenant = 2, row_created_at = 10, row_chain_hash = ''h'', row_previous_hash = GENESIS_HASH,
     row_values = \<lparr>fn_rate_date = Date 2024 5 2, fn_base_currency = ''USD'', fn_quote_currency = ''INR'',
       fn_status = ''success'', fn_provider_count = 4, fn_success_count = 4, fn_failure_count = 0,
       fn_selected_rate = Some 83, fn_selected_source = Some ''provider_consensus'',
       fn_selection_method = Some ''median_of_available_provider_quotes'', fn_fallback_used = False,
       fn_initiated_by = None, fn_correlation_id = None, fn_provider_errors = []\<rparr>\<rparr>"

definition ex_fx_db :: fx_db where
  "ex_fx_db = \<lparr>fx_runs = [ex_run_row], fx_quotes = [], fx_manual = [], fx_variances = [], fx_redis = None,
     fx_env = \<lparr>env_trail = [], env_now = 20, env_next_id = 6\<rparr>\<rparr>"

lemma ex_fx_values:
  "normalize_currency_pair None ''USD'' ''INR'' = Inr (''USD'', ''INR'')"
  "normalize_currency_pair None '' usd'' ''inr'' = Inr (''USD'', ''INR'')"
  "normalize_rate_decimal 83 = Inr 83"
  "mk_date 2024 5 (days_in_month 2024 5) = Inr (Date 2024 5 31)"
  "resolve_selected_rate None False 2 ''USD'' ''INR'' (Date 2024 5 31) ex_fx_db =
     Inr \<lparr>sd_selected_rate = 83, sd_selected_source = ''previous_valid_selected_rate'',
          sd_selection_method = ''fallback_previous_valid_rate'', sd_degraded = True\<rparr>"
  "apply_rate_to_lines [(None, 100)] 83 =
     Inr [\<lparr>cl_reference = None, cl_amount = 100, cl_converted_amount = 8300, cl_applied_rate = 83\<rparr>]"
  by code_simp+

lemma ex_fx_ok: "fx_ok ex_fx_db" and ex_no_manual: "get_latest_manual_monthly_rate t y m b q ex_fx_db = None"
  by (simp_all add: fx_ok_def ex_fx_db_def get_latest_manual_monthly_rate_def manual_rows_def)

lemma ex_create:
  "\<exists>record db'. create_manual_monthly_rate (\<lambda>s. s) None False 2 3 None 2024 5 ''USD'' ''INR'' 83 reason None src locked
     ex_fx_db = Inr (record, db')"
  by (simp add: create_manual_monthly_rate_def ex_fx_values ex_no_manual split: prod.splits)

lemma manual_rate_takes_effect_witness:
  "\<exists>record db'. create_manual_monthly_rate (\<lambda>s. s) None False 2 3 None (dt_year (Date 2024 5 17))
       (dt_month (Date 2024 5 17)) ''USD'' ''INR'' 83 ''budget'' None ''manual'' False ex_fx_db = Inr (record, db')
     \<and> resolve_selected_rate None False 2 '' usd'' ''inr'' (Date 2024 5 17) db' =
        Inr \<lparr>sd_selected_rate = fm_rate (row_values record), sd_selected_source = ''manual_monthly'',
             sd_selection_method = ''manual_monthly_override'', sd_degraded = False\<rparr>"
proof -
  obtain rec db' where c: "create_manual_monthly_rate (\<lambda>s. s) None False 2 3 None (dt_year (Date 2024 5 17))
       (dt_month (Date 2024 5 17)) ''USD'' ''INR'' 83 ''budget'' None ''manual'' False ex_fx_db = Inr (rec, db')"
    using ex_create by (metis date.sel(1,2))
  from manual_rate_takes_effect [OF c ex_fx_ok, of "'' usd''" "''inr''" False] c show ?thesis
    by (simp add: ex_fx_values)
qed

lemma ex_month_end:
  "\<exists>res db'. apply_month_end_rate (\<lambda>s. s) None False 2 3 None 2024 5 ''USD'' ''INR'' [(None, 100)] ''close'' ex_fx_db
     = Inr (res, db') \<and> me_selected_rate res = 83"
proof -
  obtain rec db' where "create_manual_monthly_rate (\<lambda>s. s) None False 2 3 None 2024 5 ''USD'' ''INR'' 83
     (''month_end_lock:'' @ ''close'' @ '';selected_source='' @ ''previous_valid_selected_rate'') None
     ''locked_selection'' True ex_fx_db = Inr (rec, db')"
    using ex_create by blast
  then show ?thesis by (simp add: apply_month_end_rate_def ex_fx_values ex_no_manual)
qed

lemma month_end_lock_idempotent_witness:
  "\<exists>res db'. apply_month_end_rate (\<lambda>s. s) None False 2 3 None 2024 5 ''USD'' ''INR'' [(None, 100)] ''close'' ex_fx_db
       = Inr (res, db')
     \<and> apply_month_end_rate (\<lambda>s. s) None False 2 8 None 2024 5 ''USD'' ''INR'' [(None, 100)] ''again'' db'
       = Inr (res\<lparr>me_selected_source := ''manual_monthly'', me_lock_rate_id := None\<rparr>, db')"
proof -
  obtain res db' where r: "apply_month_end_rate (\<lambda>s. s) None False 2 3 None 2024 5 ''USD'' ''INR'' [(None, 100)]
     ''close'' ex_fx_db = Inr (res, db')" "me_selected_rate res = 83"
    using ex_month_end by blast
  from month_end_lock_idempotent [OF r(1) ex_fx_ok] r show ?thesis by auto
qed

section \<open>Tenants and locks over every history\<close>

text \<open>The operations of one tenant as steps of the database.\<close>

inductive fx_step :: "sha \<Rightarrow> string list option \<Rightarrow> uuid \<Rightarrow> fx_db \<Rightarrow> fx_db \<Rightarrow> bool" for sha babel t where
  manual: "create_manual_monthly_rate sha babel use_redis t u corr y m b q rate reason sid src locked db = Inr (record, db')
    \<Longrightarrow> fx_step sha babel t db db'"
| month_end: "apply_month_end_rate sha babel use_redis t u corr y m b q items reason db = Inr (res, db')
    \<Longrightarrow> fx_step sha babel t db db'"
| fetch: "fetch_live_rates sha babel use_redis t requested corr b q d providers db = Inr (payload, db')
    \<Longrightarrow> fx_step sha babel t db db'"
| variance: "compute_and_store_variance sha babel t u corr y m b q expected actual entity notes db = Inr (row, db')
    \<Longrightarrow> fx_step sha babel t db db'"

inductive_cases fx_stepE: "fx_step sha babel t db db'"

text \<open>What a step adds belongs to the tenant that made it.\<close>

definition extends_for :: "uuid \<Rightarrow> fx_db \<Rightarrow> fx_db \<Rightarrow> bool" where
  "extends_for t db db' \<longleftrightarrow>
     (\<exists>ms. fx_manual db' = fx_manual db @ ms \<and> (\<forall>r \<in> set ms. row_tenant r = t)) \<and>
     (\<exists>rs. fx_runs db' = fx_runs db @ rs \<and> (\<forall>r \<in> set rs. row_tenant r = t)) \<and>
     (\<exists>qs. fx_quotes db' = fx_quotes db @ qs \<and> (\<forall>r \<in> set qs. row_tenant r = t))"

lemma extends_for_same:
  "fx_manual db' = fx_manual db \<Longrightarrow> fx_runs db' = fx_runs db \<Longrightarrow> fx_quotes db' = fx_quotes db \<Longrightarrow> extends_for t db db'"
  by (simp add: extends_for_def)

lemma extends_for_create:
  assumes "create_manual_monthly_rate sha babel use_redis t u corr y m b q rate reason sid src locked db = Inr (record, db')"
  shows "extends_for t db db'"
  using assms by (rule create_manual_facts) (simp add: extends_for_def)

lemma extends_for_trans: "extends_for t a b \<Longrightarrow> extends_for t b c \<Longrightarrow> extends_for t a c"
  unfolding extends_for_def by (auto 0 4)

lemma extends_for_quotes:
  "extends_for t db (persist_quotes sha t u c i qs db)"
  unfolding persist_quotes_def
proof (induction qs rule: rev_induct)
  case (snoc q qs)
  define db1 where "db1 = foldl (\<lambda>db q. persist_provider_quote sha t u c i q db) db qs"
  have "extends_for t db1 (persist_provider_quote sha t u c i q db1)"
    using persist_provider_quote_facts(3) [of sha t u c i q db1]
    by (auto simp: extends_for_def persist_provider_quote_facts(1,2))
  then show ?case using extends_for_trans [OF snoc] by (simp add: db1_def)
qed (simp add: extends_for_same)

text \<open>The three kinds of change a step makes to the manual rates: none, one created row.\<close>

lemma month_end_cases:
  assumes "apply_month_end_rate sha babel use_redis t u corr y m b q items reason db = Inr (res, db')"
  obtains "db' = db"
    | b' q' rate reason' sid lock where
      "create_manual_monthly_rate sha babel use_redis t u corr y m b' q' rate reason' sid ''locked_selection'' True db
         = Inr (lock, db')"
  using assms by (auto simp: apply_month_end_rate_def Let_def result_simps split: if_splits prod.splits)

lemma fetch_facts:
  assumes "fetch_live_rates sha babel use_redis t requested corr b q d providers db = Inr (payload, db')"
  shows "extends_for t db db'" "fx_manual db' = fx_manual db" "env_now (fx_env db) \<le> env_now (fx_env db')"
proof -
  from assms obtain base quote decision fallback where
    n: "normalize_currency_pair babel b q = Inr (base, quote)"
    and dec: "fetch_decision use_redis t base quote d (providers base quote d) db = Inr (decision, fallback)"
    by (auto simp: fetch_live_rates_def Let_def result_simps)
  obtain run db1 where run: "persist_fetch_run sha t
      (fetch_run_values requested corr base quote d (providers base quote d) decision fallback) db = (run, db1)"
    by (rule prod.exhaust)
  define db2 where "db2 = persist_quotes sha t requested corr (row_id run)
      (List.map_filter pf_quote (providers base quote d)) db1"
  have db': "db' = (case decision of None \<Rightarrow> db2
        | Some e \<Rightarrow> if use_redis then cache_selected_rate t d base quote (sd_selected_rate e)
             (sd_selected_source e) (sd_selection_method e) db2 else db2)"
    using assms by (auto simp: fetch_live_rates_def Let_def n dec run db2_def split: option.splits)
  note r = persist_fetch_run_facts [OF run]
  have 1: "extends_for t db db1" using r by (simp add: extends_for_def)
  have 2: "extends_for t db1 db2" unfolding db2_def by (rule extends_for_quotes)
  have q: "fx_manual (persist_quotes sha t u c i qs db) = fx_manual db
      \<and> env_now (fx_env db) \<le> env_now (fx_env (persist_quotes sha t u c i qs db))" for u c i db qs
    unfolding persist_quotes_def
  proof (induction qs rule: rev_induct)
    case (snoc x xs)
    then show ?case using persist_provider_quote_facts(4) persist_provider_quote_facts(1)
      by (simp, meson less_imp_le order_trans)
  qed simp
  have 3: "fx_manual db' = fx_manual db2" "fx_runs db' = fx_runs db2" "fx_quotes db' = fx_quotes db2"
    "fx_env db' = fx_env db2"
    by (simp_all add: db' split: option.splits)
  show "extends_for t db db'"
    by (rule extends_for_trans [OF extends_for_trans [OF 1 2]]) (rule extends_for_same [OF 3(1-3)])
  show "fx_manual db' = fx_manual db" using 3 q r(4) by (simp add: db2_def)
  have "env_now (fx_env db1) \<le> env_now (fx_env db2)" using q by (simp add: db2_def)
  then show "env_now (fx_env db) \<le> env_now (fx_env db')" using 3(4) r(6) by simp
qed

lemma variance_facts:
  assumes "compute_and_store_variance sha babel t u corr y m b q expected actual entity notes db = Inr (v, db')"
  shows "fx_manual db' = fx_manual db \<and> fx_runs db' = fx_runs db \<and> fx_quotes db' = fx_quotes db
    \<and> env_now (fx_env db) \<le> env_now (fx_env db')"
proof -
  obtain w where "insert_variance sha t w db = (v, db')"
    using assms by (auto simp: compute_and_store_variance_def result_simps)
  then show ?thesis
    by (auto simp: insert_variance_def split: prod.splits dest!: insert_financial_record_facts(6))
qed

lemma fx_step_extends: "fx_step sha babel t db db' \<Longrightarrow> extends_for t db db'"
  by (erule fx_stepE; (elim month_end_cases)?)
    (auto intro: extends_for_create extends_for_same dest: fetch_facts(1) variance_facts)

lemma filter_other_tenant:
  "row_tenant ` set rs \<subseteq> {t} \<Longrightarrow> t' \<noteq> t \<Longrightarrow> filter (\<lambda>r. row_tenant r = t' \<and> P r) (xs @ rs) = filter (\<lambda>r. row_tenant r = t' \<and> P r) xs"
  by (auto simp: filter_empty_conv)

text \<open>Tenants are isolated: no operation of one tenant, fetches and month-end locks
  included, changes the rate any other tenant resolves from the database, on any day and
  for any pair.\<close>

theorem fx_tenant_isolation:
  assumes "fx_step sha babel t db db'" and "t' \<noteq> t"
  shows "resolve_selected_rate babel False t' b q d db' = resolve_selected_rate babel False t' b q d db"
proof -
  obtain ms rs qs where e: "fx_manual db' = fx_manual db @ ms" "\<forall>r \<in> set ms. row_tenant r = t"
    "fx_runs db' = fx_runs db @ rs" "\<forall>r \<in> set rs. row_tenant r = t"
    "fx_quotes db' = fx_quotes db @ qs" "\<forall>r \<in> set qs. row_tenant r = t"
    using fx_step_extends [OF assms(1)] unfolding extends_for_def by blast
  have "manual_rows t' y m base quote db' = manual_rows t' y m base quote db" for y m base quote
    unfolding manual_rows_def e(1) using e(2) assms(2) by (intro filter_other_tenant) auto
  moreover have "get_previous_selected_from_runs t' base quote d db' = get_previous_selected_from_runs t' base quote d db"
    for base quote
    unfolding get_previous_selected_from_runs_def e(3)
    using e(4) assms(2) by (subst filter_other_tenant [of _ t]) auto
  moreover have "quotes_on t' base quote d db' = quotes_on t' base quote d db" for base quote
    unfolding quotes_on_def e(5) using e(6) assms(2) by (subst filter_other_tenant [of _ t]) auto
  ultimately show ?thesis
    unfolding resolve_selected_rate_def get_latest_manual_monthly_rate_def if_False by (simp only:)
qed

lemma ex_fx_step:
  "\<exists>db'. fx_step (\<lambda>s. s) None 2 ex_fx_db db'"
  using ex_create by (blast intro: fx_step.manual)

lemma fx_tenant_isolation_witness:
  "\<exists>db'. fx_step (\<lambda>s. s) None 2 ex_fx_db db' \<and>
     resolve_selected_rate None False 5 ''USD'' ''INR'' (Date 2024 5 17) db'
       = resolve_selected_rate None False 5 ''USD'' ''INR'' (Date 2024 5 17) ex_fx_db"
proof -
  obtain db' where s: "fx_step (\<lambda>s. s) None 2 ex_fx_db db'" using ex_fx_step by blast
  then show ?thesis using fx_tenant_isolation [OF s, of 5] by auto
qed

text \<open>Locked months: every row that follows a locked row names it as superseded.\<close>

definition locks_superseded :: "fx_db \<Rightarrow> bool" where
  "locks_superseded db \<longleftrightarrow>
     (\<forall>t y m b q. successively (\<lambda>r r'. fm_is_month_end_locked (row_values r)
        \<longrightarrow> fm_supersedes_rate_id (row_values r') = Some (row_id r)) (manual_rows t y m b q db))"

lemma locks_superseded_create:
  assumes "create_manual_monthly_rate sha babel use_redis t u corr y m b q rate reason sid src locked db
      = Inr (record, db')" and "fx_ok db" and "locks_superseded db"
  shows "locks_superseded db'"
  using assms(1)
proof (rule create_manual_facts)
  fix base quote r
  assume rows: "fx_manual db' = fx_manual db @ [record]"
    and key: "row_tenant record = t" "fm_period_year (row_values record) = y"
      "fm_period_month (row_values record) = m" "fm_base_currency (row_values record) = base"
      "fm_quote_currency (row_values record) = quote"
    and sid: "fm_supersedes_rate_id (row_values record) = sid"
    and guard: "\<forall>latest. get_latest_manual_monthly_rate t y m base quote db = Some latest \<longrightarrow>
       (fm_is_month_end_locked (row_values latest) \<longrightarrow> sid = Some (row_id latest))"
  have new: "manual_rows t' y' m' b' q' db' = manual_rows t' y' m' b' q' db @
      (if (t', y', m', b', q') = (t, y, m, base, quote) then [record] else [])" for t' y' m' b' q'
    using rows key by (auto simp: manual_rows_def)
  have last: "fm_is_month_end_locked (row_values (last (manual_rows t y m base quote db))) \<longrightarrow>
      sid = Some (row_id (last (manual_rows t y m base quote db)))" if "manual_rows t y m base quote db \<noteq> []"
    using guard that by (simp add: latest_manual [OF assms(2)] Let_def)
  show ?thesis
    unfolding locks_superseded_def new
    using assms(3) last sid by (auto simp: locks_superseded_def successively_append_iff)
qed

lemma fx_step_ok:
  assumes "fx_step sha babel t db db'" "fx_ok db" "locks_superseded db"
  shows "fx_ok db' \<and> locks_superseded db'"
  using assms(1)
proof cases
  case (manual use_redis u corr y m b q rate reason sid src locked lrec)
  then show ?thesis using fx_ok_create [OF manual assms(2)] locks_superseded_create [OF manual assms(2,3)] by simp
next
  case (month_end use_redis u corr y m b q items reason res)
  then show ?thesis
  proof (rule month_end_cases)
    fix b' q' rate reason' sid lock
    assume c: "create_manual_monthly_rate sha babel use_redis t u corr y m b' q' rate reason' sid ''locked_selection''
      True db = Inr (lock, db')"
    show ?thesis using fx_ok_create [OF c assms(2)] locks_superseded_create [OF c assms(2,3)] by simp
  qed (use assms in simp)
next
  case (fetch use_redis requested corr b q d providers payload)
  note f = fetch_facts(2,3) [OF fetch]
  from fx_ok_later [OF assms(2) f] assms(3) f(1) show ?thesis
    by (simp add: locks_superseded_def manual_rows_def)
next
  case (variance u corr y m b q expected actual entity nts v)
  from variance_facts [OF this] assms(2,3) fx_ok_later show ?thesis
    by (auto simp: locks_superseded_def manual_rows_def)
qed

text \<open>(C3) Over every serial history of operations by any tenants, starting without manual rates, a month-end locked
  rate is never displaced silently: the next row of the month always names the locked row as the one it supersedes.
  The operations of the history run one after the other.  The code does not force this: it reads the latest
  rate and checks the lock before the insert takes the advisory lock of the chain, so that two overlapping
  calls can both pass the check against the same row; such overlaps are no histories here.\<close>

theorem locked_rates_are_superseded_explicitly:
  assumes "(\<lambda>db db'. \<exists>t. fx_step sha babel t db db')\<^sup>*\<^sup>* db0 db" and "fx_manual db0 = []"
  shows "locks_superseded db"
proof -
  have "fx_ok db \<and> locks_superseded db"
    using assms(1)
  proof (induction rule: rtranclp_induct)
    case base
    then show ?case using assms(2) by (simp add: fx_ok_def locks_superseded_def manual_rows_def)
  next
    case (step db db')
    then show ?case using fx_step_ok by blast
  qed
  then show ?thesis by blast
qed

text \<open>A locked rate, and a correction that names it.\<close>

lemma ex_locked_then_corrected:
  "\<exists>r db1 r' db2. create_manual_monthly_rate (\<lambda>s. s) None False 2 3 None 2024 5 ''USD'' ''INR'' 83 ''close'' None ''manual'' True ex_fx_db = Inr (r, db1)
     \<and> create_manual_monthly_rate (\<lambda>s. s) None False 2 3 None 2024 5 ''USD'' ''INR'' 83 ''fix'' (Some (row_id r)) ''manual'' False db1 = Inr (r', db2)"
proof -
  obtain r db1 where 1: "create_manual_monthly_rate (\<lambda>s. s) None False 2 3 None 2024 5 ''USD'' ''INR'' 83 ''close'' None ''manual'' True ex_fx_db = Inr (r, db1)"
    using ex_create by blast
  have "get_latest_manual_monthly_rate 2 2024 5 ''USD'' ''INR'' db1 = Some r"
    by (rule latest_after_create [OF 1 ex_fx_ok ex_fx_values(1)])
  then have "\<exists>r' db2. create_manual_monthly_rate (\<lambda>s. s) None False 2 3 None 2024 5 ''USD'' ''INR'' 83 ''fix'' (Some (row_id r)) ''manual'' False db1 = Inr (r', db2)"
    by (simp add: create_manual_monthly_rate_def ex_fx_values raise_if_def split: prod.splits)
  then show ?thesis using 1 by blast
qed

lemma locked_rates_are_superseded_explicitly_witness:
  "\<exists>db r r'. locks_superseded db \<and> manual_rows 2 2024 5 ''USD'' ''INR'' db = [r, r'] \<and> fm_is_month_end_locked (row_values r)
     \<and> fm_supersedes_rate_id (row_values r') = Some (row_id r)"
proof -
  obtain r db1 r' db2 where 1: "create_manual_monthly_rate (\<lambda>s. s) None False 2 3 None 2024 5 ''USD'' ''INR'' 83 ''close'' None ''manual'' True ex_fx_db = Inr (r, db1)"
    and 2: "create_manual_monthly_rate (\<lambda>s. s) None False 2 3 None 2024 5 ''USD'' ''INR'' 83 ''fix'' (Some (row_id r)) ''manual'' False db1 = Inr (r', db2)"
    using ex_locked_then_corrected by blast
  have "(\<lambda>db db'. \<exists>t. fx_step (\<lambda>s. s) None t db db')\<^sup>*\<^sup>* ex_fx_db db2"
    by (rule rtranclp.rtrancl_into_rtrancl [OF r_into_rtranclp], rule exI, rule fx_step.manual [OF 1], rule exI, rule fx_step.manual [OF 2])
  from locked_rates_are_superseded_explicitly [OF this] have l: "locks_superseded db2" by (simp add: ex_fx_db_def)
  have "manual_rows 2 2024 5 ''USD'' ''INR'' db1 = [r] \<and> fm_is_month_end_locked (row_values r)"
    using 1 by (rule create_manual_facts) (simp add: manual_rows_def ex_fx_values, simp add: ex_fx_db_def)
  moreover from 2 have "manual_rows 2 2024 5 ''USD'' ''INR'' db2 = manual_rows 2 2024 5 ''USD'' ''INR'' db1 @ [r']"
    by (rule create_manual_facts) (simp add: manual_rows_def ex_fx_values)
  ultimately have rows: "manual_rows 2 2024 5 ''USD'' ''INR'' db2 = [r, r']" "fm_is_month_end_locked (row_values r)" by simp_all
  have "successively (\<lambda>r r'. fm_is_month_end_locked (row_values r)
      \<longrightarrow> fm_supersedes_rate_id (row_values r') = Some (row_id r)) (manual_rows 2 2024 5 ''USD'' ''INR'' db2)"
    using l unfolding locks_superseded_def by blast
  then have "fm_supersedes_rate_id (row_values r') = Some (row_id r)" using rows by simp
  then show ?thesis using l rows by blast
qed

end
