(* ===== verification/Rate_Source.thy ===== *)
theory Rate_Source
  imports Decimals Dates
begin

text \<open>
  The interface between an accounting engine and the FX service: what the schedule
  engines rely on when they translate an amount.  A rate source answers for a currency
  pair and a day; within one currency the rate is one, and every rate is a non-negative
  six-place amount.  The engines' own resolvers provide it.
\<close>

locale rate_source =
  fixes rate_for :: "string \<Rightarrow> string \<Rightarrow> date \<Rightarrow> rat result"
  assumes same_currency: "rate_for c c d = Inr r \<Longrightarrow> r = 1"
    and rate_money: "rate_for b q d = Inr r \<Longrightarrow> money r \<and> 0 \<le> r"
begin

definition translate :: "string \<Rightarrow> string \<Rightarrow> date \<Rightarrow> rat \<Rightarrow> rat result" where
  "translate b q d amount = bindE (rate_for b q d) (\<lambda>r. quantize_persisted_amount (dmul amount r))"

lemma translate_same:
  assumes "translate c c d amount = Inr x" "money amount"
  shows "x = amount"
proof -
  have "quantize_persisted_amount (dmul amount 1) = Inr x"
    using assms(1) same_currency by (auto simp: translate_def result_simps)
  moreover have "dmul amount 1 = amount"
    using assms(2) by (simp add: dmul_def micro_dec_round money_def)
  ultimately show ?thesis using quantize_id [OF assms(2)] by simp
qed

lemma translate_money: "translate b q d amount = Inr x \<Longrightarrow> money x"
  by (auto simp: translate_def result_simps dest: quantize_money)

lemma translate_nonneg:
  assumes "translate b q d amount = Inr x" "0 \<le> amount"
  shows "0 \<le> x"
proof -
  obtain r where r: "rate_for b q d = Inr r" and x: "quantize_persisted_amount (dmul amount r) = Inr x"
    using assms(1) by (auto simp: translate_def result_simps)
  have "0 \<le> r" using rate_money [OF r] ..
  then have "0 \<le> dmul amount r" using assms(2) by (simp add: dmul_def dec_round_nonneg)
  with x show ?thesis by (rule quantize_nonneg)
qed

lemma translate_mono:
  assumes "translate b q d a = Inr x" "translate b q d a' = Inr x'" "a \<le> a'"
  shows "x \<le> x'"
proof -
  obtain r where r: "rate_for b q d = Inr r" and q: "quantize_persisted_amount (dmul a r) = Inr x"
    "quantize_persisted_amount (dmul a' r) = Inr x'"
    using assms(1,2) by (auto simp: translate_def result_simps)
  have "a * r \<le> a' * r" using rate_money [OF r] assms(3) by (simp add: mult_right_mono)
  then have "dmul a r \<le> dmul a' r" unfolding dmul_def by (rule dec_round_mono) simp
  then show ?thesis using q by (rule quantize_mono)
qed

end

end
