(* ===== verification/Revenue_Schedule.thy ===== *)
theory Revenue_Schedule
  imports Revenue_Allocation FX_Service Rate_Source
begin

text \<open>
  \<open>services/revenue/schedule_generator.py\<close>: the amount allocated to an obligation is
  split over its line items, each line is recognised at the points its method gives, and
  every recognised amount is translated into the reporting currency.  The rows of a line
  add up to its amount in contract currency, the tail row taking the rounding residual;
  rows are numbered per contract.
\<close>

section \<open>The code\<close>

datatype rate_mode = daily | month_end_locked

definition rate_mode_value :: "rate_mode \<Rightarrow> string" where
  "rate_mode_value m = (case m of daily \<Rightarrow> ''daily'' | month_end_locked \<Rightarrow> ''month_end_locked'')"

record registered_line_item =
  rl_line_item_id :: uuid
  rl_contract_id :: uuid
  rl_contract_number :: string
  rl_obligation_id :: uuid
  rl_line_code :: string
  rl_line_amount :: rat
  rl_line_currency :: string
  rl_milestone_reference :: "string option"
  rl_usage_reference :: "string option"
  rl_source_contract_reference :: string
  rl_recognition_method :: recognition_method
  rl_completion_percentage :: "rat option"
  rl_completed_flag :: "bool option"
  rl_milestone_achieved :: "bool option"
  rl_usage_quantity :: "rat option"
  rl_recognition_date :: "date option"
  rl_recognition_start_date :: "date option"
  rl_recognition_end_date :: "date option"

record generated_schedule_row =
  gs_contract_id :: uuid
  gs_obligation_id :: uuid
  gs_contract_line_item_id :: uuid
  gs_period_seq :: nat
  gs_recognition_date :: date
  gs_recognition_period_year :: int
  gs_recognition_period_month :: int
  gs_recognition_method :: recognition_method
  gs_base_amount :: rat
  gs_fx_rate_used :: rat
  gs_recognized_amount :: rat
  gs_cumulative_recognized :: rat
  gs_schedule_version_token :: string
  gs_schedule_status :: string
  gs_source_contract_reference :: string
  gs_parent_reference_id :: uuid
  gs_source_reference_id :: uuid

record schedule_generation_output =
  go_root_schedule_version_tokens :: "(uuid \<times> string) list"
  go_rows :: "generated_schedule_row list"

text \<open>\<open>_month_points\<close>: month ends from the start month to the end month.\<close>

function month_points_from :: "int \<Rightarrow> int \<Rightarrow> int \<Rightarrow> int \<Rightarrow> date list" where
  "month_points_from year month end_year end_month =
     (if 1 \<le> month \<and> month \<le> 12 \<and> 1 \<le> end_month \<and> end_month \<le> 12
         \<and> (year < end_year \<or> year = end_year \<and> month \<le> end_month)
      then month_end (Date year month 1) #
           (if month = 12 then month_points_from (year + 1) 1 end_year end_month
            else month_points_from year (month + 1) end_year end_month)
      else [])"
  by auto
termination
  by (relation "measure (\<lambda>(y, m, ey, em). nat (ey * 12 + em + 1 - (y * 12 + m)))") auto

declare month_points_from.simps [simp del]

definition month_points :: "date \<Rightarrow> date \<Rightarrow> date list" where
  "month_points start_date end_date =
     month_points_from (dt_year start_date) (dt_month start_date) (dt_year end_date) (dt_month end_date)"

definition resolve_fx_rate :: "string list option \<Rightarrow> uuid \<Rightarrow> rate_mode \<Rightarrow> fx_db \<Rightarrow> string \<Rightarrow> string \<Rightarrow> date
    \<Rightarrow> rat result" where
  "resolve_fx_rate babel tenant_id rate_mode db base_currency reporting_currency recognition_date =
     bindE (normalize_currency_code babel base_currency) (\<lambda>base.
     bindE (normalize_currency_code babel reporting_currency) (\<lambda>quote.
     if base = quote then Inr 1
     else if rate_mode = month_end_locked then
       (let month_end_date = month_end recognition_date in
        bindE (list_manual_monthly_rates babel tenant_id (Some (dt_year month_end_date)) (Some (dt_month month_end_date))
                 (Some base) (Some quote) 100 0 db) (\<lambda>rows.
        bindE (raise_if (\<not> list_ex (\<lambda>row. fm_is_month_end_locked (row_values row)) rows)
                (AccountingValidationError ''MISSING_LOCKED_RATE'' ''Missing locked month-end selected rate'')) (\<lambda>_.
        bindE (resolve_selected_rate babel False tenant_id base quote month_end_date db) (\<lambda>decision.
        quantize_rate (sd_selected_rate decision)))))
     else
       bindE (resolve_selected_rate babel False tenant_id base quote recognition_date db) (\<lambda>decision.
       quantize_rate (sd_selected_rate decision))))"

text \<open>\<open>_line_base_allocation\<close>: shares by line amount, or equal shares when the lines
  carry no amount; then the residual goes to the line with the smallest id.\<close>

definition provisional_line_shares :: "registered_line_item list \<Rightarrow> rat \<Rightarrow> rat \<Rightarrow> (uuid \<times> rat) list result" where
  "provisional_line_shares line_items obligation_allocation total_line_amount =
     (if total_line_amount \<le> 0 then
        bindE (ddiv obligation_allocation (of_nat (length line_items))) (\<lambda>share.
        bindE (quantize_persisted_amount share) (\<lambda>even_share.
        Inr (py_dict (map (\<lambda>line. (rl_line_item_id line, even_share)) line_items))))
      else
        bindE (mapE (\<lambda>line.
           bindE (ddiv (rl_line_amount line) total_line_amount) (\<lambda>ratio.
           bindE (quantize_persisted_amount (dmul obligation_allocation ratio)) (\<lambda>share.
           Inr (rl_line_item_id line, share)))) line_items) (\<lambda>shares. Inr (py_dict shares)))"

definition settle_line_shares :: "rat \<Rightarrow> (uuid \<times> rat) list \<Rightarrow> (uuid \<times> rat) list result" where
  "settle_line_shares obligation_allocation provisional =
     bindE (quantize_persisted_amount (dsum (map snd provisional))) (\<lambda>reconciled.
     bindE (quantize_persisted_amount (dsub obligation_allocation reconciled)) (\<lambda>residual.
     if residual \<noteq> 0 then
       (let anchor_line_id = Min (set (map fst provisional)) in
        bindE (case map_of provisional anchor_line_id of None \<Rightarrow> Inl KeyError | Some v \<Rightarrow> Inr v) (\<lambda>v.
        bindE (quantize_persisted_amount (dadd v residual)) (\<lambda>adjusted.
        Inr (AList.update anchor_line_id adjusted provisional))))
     else Inr provisional))"

definition line_base_allocation :: "registered_line_item list \<Rightarrow> rat \<Rightarrow> (uuid \<times> rat) list result" where
  "line_base_allocation line_items obligation_allocation =
     bindE (quantize_persisted_amount (dsum (map rl_line_amount line_items))) (\<lambda>total_line_amount.
     bindE (provisional_line_shares line_items obligation_allocation total_line_amount) (\<lambda>provisional.
     settle_line_shares obligation_allocation provisional))"

definition clamp01 :: "rat \<Rightarrow> rat" where
  "clamp01 ratio = max 0 (min 1 ratio)"

definition or_zero :: "rat option \<Rightarrow> rat" where
  "or_zero x = (case x of None \<Rightarrow> 0 | Some v \<Rightarrow> v)"

definition recognition_points_for_line :: "registered_line_item \<Rightarrow> registered_contract
    \<Rightarrow> (date \<times> rat \<times> string) list result" where
  "recognition_points_for_line line contract =
     (let recognition_date = (case rl_recognition_date line of Some d \<Rightarrow> d | None \<Rightarrow> rc_contract_end_date contract);
          single = (\<lambda>ratio. Inr [(recognition_date, ratio, if 0 < ratio then ''recognized'' else ''pending'')]) in
      case rl_recognition_method line of
        percentage_of_completion \<Rightarrow>
          bindE (quantize_persisted_amount (clamp01 (or_zero (rl_completion_percentage line)))) single
      | completed_service \<Rightarrow> single (if rl_completed_flag line = Some True then 1 else 0)
      | milestone_based \<Rightarrow> single (if rl_milestone_achieved line = Some True then 1 else 0)
      | usage_based \<Rightarrow>
          bindE (quantize_persisted_amount (clamp01 (or_zero (rl_usage_quantity line)))) single
      | straight_line \<Rightarrow>
          (let start_date = (case rl_recognition_start_date line of Some d \<Rightarrow> d | None \<Rightarrow> rc_contract_start_date contract);
               end_date = (case rl_recognition_end_date line of Some d \<Rightarrow> d | None \<Rightarrow> rc_contract_end_date contract) in
           bindE (raise_if (end_date < start_date)
             (ValidationError ''Straight-line recognition_end_date must be on or after recognition_start_date'')) (\<lambda>_.
           let points = month_points start_date end_date in
           bindE (raise_if (points = []) (ValidationError ''Straight-line recognition period produced zero points'')) (\<lambda>_.
           bindE (ddiv 1 (of_nat (length points))) (\<lambda>share.
           bindE (quantize_persisted_amount share) (\<lambda>base_ratio.
           let ratios = replicate (length points) base_ratio in
           bindE (quantize_persisted_amount (dsub 1 (dsum ratios))) (\<lambda>residual.
           bindE (quantize_persisted_amount (dadd (hd ratios) residual)) (\<lambda>first_ratio.
           Inr (map (\<lambda>(point, ratio). (point, ratio, ''recognized''))
             (zip points (first_ratio # tl ratios)))))))))))"

definition build_schedule_version_token :: "sha \<Rightarrow> uuid \<Rightarrow> json \<Rightarrow> string \<Rightarrow> string \<Rightarrow> string \<Rightarrow> string" where
  "build_schedule_version_token sha contract_id modification_payload_normalized reporting_currency rate_mode
      prior_version_token_or_root =
     sha (canonical_json_dumps (JDict
       [(''contract_id'', JStr (uuid_text contract_id)),
        (''modification_payload_normalized'', modification_payload_normalized),
        (''reporting_currency'', JStr reporting_currency),
        (''rate_mode'', JStr rate_mode),
        (''prior_version_token_or_root'', JStr prior_version_token_or_root)]))"

text \<open>The inner loop of \<open>generate_schedule_rows\<close>: one provisional row per recognition
  point, with the running total.  \<open>rate_for\<close> is the resolver with its session bound.\<close>

fun line_rows :: "(string \<Rightarrow> string \<Rightarrow> date \<Rightarrow> rat result) \<Rightarrow> registered_line_item \<Rightarrow> string \<Rightarrow> string \<Rightarrow> rat \<Rightarrow> rat
    \<Rightarrow> (date \<times> rat \<times> string) list \<Rightarrow> generated_schedule_row list result" where
  "line_rows rate_for line reporting root_token base_total cumulative [] = Inr []"
| "line_rows rate_for line reporting root_token base_total cumulative ((recognition_date, ratio, status) # points) =
     bindE (quantize_persisted_amount (dmul base_total ratio)) (\<lambda>base_amount.
     bindE (rate_for (rl_line_currency line) reporting recognition_date) (\<lambda>fx_rate.
     bindE (quantize_persisted_amount (dmul base_amount fx_rate)) (\<lambda>recognized_reporting.
     bindE (quantize_persisted_amount (dadd cumulative recognized_reporting)) (\<lambda>cumulative.
     bindE (line_rows rate_for line reporting root_token base_total cumulative points) (\<lambda>rows.
     Inr (\<lparr>gs_contract_id = rl_contract_id line, gs_obligation_id = rl_obligation_id line,
           gs_contract_line_item_id = rl_line_item_id line, gs_period_seq = 0,
           gs_recognition_date = recognition_date,
           gs_recognition_period_year = dt_year recognition_date,
           gs_recognition_period_month = dt_month recognition_date,
           gs_recognition_method = rl_recognition_method line,
           gs_base_amount = base_amount, gs_fx_rate_used = fx_rate,
           gs_recognized_amount = recognized_reporting, gs_cumulative_recognized = cumulative,
           gs_schedule_version_token = root_token, gs_schedule_status = status,
           gs_source_contract_reference = rl_source_contract_reference line,
           gs_parent_reference_id = rl_obligation_id line,
           gs_source_reference_id = rl_line_item_id line\<rparr> # rows))))))"

text \<open>The tail row takes the base residual of a fully recognised line.\<close>

definition adjust_tail :: "rat \<Rightarrow> rat \<Rightarrow> generated_schedule_row list \<Rightarrow> generated_schedule_row list result" where
  "adjust_tail ratio_total base_total rows =
     bindE (quantize_persisted_amount (dsum (map gs_recognized_amount rows))) (\<lambda>reconciled_reporting.
     if rows = [] then Inr []
     else
       bindE (quantize_persisted_amount (dsum (map gs_base_amount rows))) (\<lambda>expected_total.
       bindE (if ratio_total = 1 then quantize_persisted_amount (dsub base_total expected_total) else Inr 0)
         (\<lambda>base_residual.
       let tail = last rows in
       bindE (quantize_persisted_amount (dadd (gs_base_amount tail) base_residual)) (\<lambda>adjusted_base.
       bindE (quantize_persisted_amount (dmul adjusted_base (gs_fx_rate_used tail))) (\<lambda>adjusted_reporting.
       bindE (quantize_persisted_amount
                (dadd (dsub reconciled_reporting (gs_recognized_amount tail)) adjusted_reporting)) (\<lambda>cumulative.
       Inr (butlast rows @ [tail\<lparr>gs_period_seq := 0, gs_base_amount := adjusted_base,
              gs_recognized_amount := adjusted_reporting, gs_cumulative_recognized := cumulative\<rparr>])))))))"

definition generate_line :: "(string \<Rightarrow> string \<Rightarrow> date \<Rightarrow> rat result) \<Rightarrow> string \<Rightarrow> string \<Rightarrow> registered_contract
    \<Rightarrow> (uuid \<times> rat) list \<Rightarrow> registered_line_item \<Rightarrow> generated_schedule_row list result" where
  "generate_line rate_for reporting root_token contract base_amount_by_line line =
     bindE (recognition_points_for_line line contract) (\<lambda>points.
     bindE (quantize_persisted_amount (dsum (map (\<lambda>(_, ratio, _). ratio) points))) (\<lambda>ratio_total.
     bindE (case map_of base_amount_by_line (rl_line_item_id line) of None \<Rightarrow> Inl KeyError | Some b \<Rightarrow> Inr b) (\<lambda>base_total.
     bindE (line_rows rate_for line reporting root_token base_total 0 points) (\<lambda>rows.
     adjust_tail ratio_total base_total rows))))"

text \<open>One allocation: its lines in order of their code.\<close>

definition generate_allocation :: "(string \<Rightarrow> string \<Rightarrow> date \<Rightarrow> rat result) \<Rightarrow> string \<Rightarrow> string \<Rightarrow> registered_contract
    \<Rightarrow> registered_line_item list \<Rightarrow> obligation_allocation \<Rightarrow> generated_schedule_row list result" where
  "generate_allocation rate_for reporting root_token contract line_items allocation =
     (let obligation_lines = sort_key rl_line_code
            (group_of rl_obligation_id (oa_obligation_id allocation) line_items) in
      bindE (raise_if (obligation_lines = [])
        (ValidationError ''Obligation has no contract line items for schedule generation'')) (\<lambda>_.
      bindE (line_base_allocation obligation_lines (oa_allocated_amount allocation)) (\<lambda>base_amount_by_line.
      bindE (mapE (generate_line rate_for reporting root_token contract base_amount_by_line) obligation_lines) (\<lambda>rows.
      Inr (concat rows)))))"

text \<open>The numbering pass: \<open>period_seq_by_contract\<close> counts the rows of each contract.\<close>

fun sequence_rows :: "(uuid \<Rightarrow> nat) \<Rightarrow> generated_schedule_row list \<Rightarrow> generated_schedule_row list" where
  "sequence_rows seq [] = []"
| "sequence_rows seq (row # rows) =
     (let next_seq = seq (gs_contract_id row) + 1 in
      row\<lparr>gs_period_seq := next_seq\<rparr> # sequence_rows (seq(gs_contract_id row := next_seq)) rows)"

definition row_order :: "generated_schedule_row \<Rightarrow> uuid \<times> string \<times> uuid \<times> uuid \<times> date" where
  "row_order item = (gs_contract_id item, gs_schedule_version_token item, gs_obligation_id item,
     gs_contract_line_item_id item, gs_recognition_date item)"

definition root_token_for :: "sha \<Rightarrow> string \<Rightarrow> rate_mode \<Rightarrow> uuid \<Rightarrow> string" where
  "root_token_for sha reporting rate_mode contract_id =
     build_schedule_version_token sha contract_id (JDict [(''kind'', JStr ''root'')]) reporting
       (rate_mode_value rate_mode) ''root''"

definition generate_schedule_rows :: "sha \<Rightarrow> string list option \<Rightarrow> uuid \<Rightarrow> fx_db \<Rightarrow> registered_contract list
    \<Rightarrow> registered_line_item list \<Rightarrow> obligation_allocation list \<Rightarrow> string \<Rightarrow> rate_mode
    \<Rightarrow> schedule_generation_output result" where
  "generate_schedule_rows sha babel tenant_id db contracts line_items allocations reporting_currency rate_mode =
     bindE (normalize_currency_code babel reporting_currency) (\<lambda>reporting.
     bindE (foldE (\<lambda>(root_tokens, generated) allocation.
         case dict_by rc_contract_id contracts (oa_contract_id allocation) of
           None \<Rightarrow> Inl (ValidationError ''Allocation references unknown contract'')
         | Some contract \<Rightarrow>
             (let (root_token, root_tokens) =
                    (case map_of root_tokens (rc_contract_id contract) of
                       Some t \<Rightarrow> (t, root_tokens)
                     | None \<Rightarrow>
                         (let t = root_token_for sha reporting rate_mode (rc_contract_id contract)
                          in (t, root_tokens @ [(rc_contract_id contract, t)]))) in
              bindE (generate_allocation (resolve_fx_rate babel tenant_id rate_mode db) reporting root_token contract
                       line_items allocation) (\<lambda>rows.
              Inr (root_tokens, generated @ rows))))
       ([], []) allocations) (\<lambda>(root_tokens, generated).
     Inr \<lparr>go_root_schedule_version_tokens = root_tokens,
          go_rows = sequence_rows (\<lambda>_. 0) (sort_key row_order generated)\<rparr>))"

section \<open>The resolver is a rate source\<close>

lemma resolve_fx_rate_same: "resolve_fx_rate babel t mode db c c d = Inr r \<Longrightarrow> r = 1"
  by (auto simp: resolve_fx_rate_def result_simps)

lemma resolve_fx_rate_money:
  assumes "resolve_fx_rate babel t mode db b q d = Inr r"
  shows "money r \<and> 0 \<le> r"
proof -
  consider "r = 1" | x y e dec where "resolve_selected_rate babel False t x y e db = Inr dec"
    "quantize_rate (sd_selected_rate dec) = Inr r"
    using assms by (auto simp: resolve_fx_rate_def Let_def result_simps split: if_splits)
  then show ?thesis
  proof cases
    case 2
    from resolve_money [OF 2(1)] 2(2) show ?thesis by (simp add: quantize_rate_eq quantize_id)
  qed simp
qed

interpretation revenue_rates: rate_source "resolve_fx_rate babel tenant_id mode db"
  by unfold_locales (rule resolve_fx_rate_same resolve_fx_rate_money; assumption)+

section \<open>Month points and straight-line ratios\<close>

lemma month_points_from_step:
  "1 \<le> m \<Longrightarrow> m \<le> 12 \<Longrightarrow> 1 \<le> em \<Longrightarrow> em \<le> 12 \<Longrightarrow> y < ey \<or> y = ey \<and> m \<le> em \<Longrightarrow>
     month_points_from y m ey em = month_end (Date y m 1) #
       (if m = 12 then month_points_from (y + 1) 1 ey em else month_points_from y (m + 1) ey em)"
  by (subst month_points_from.simps) simp

text \<open>The \<open>i\<close>-th point is the last day of the \<open>i\<close>-th month after the start month.\<close>

definition month_index :: "date \<Rightarrow> int" where
  "month_index d = dt_year d * 12 + (dt_month d - 1)"

lemma month_points_from_index:
  assumes "1 \<le> m" "m \<le> 12" "1 \<le> em" "em \<le> 12"
  shows "map month_index (month_points_from y m ey em) = [y * 12 + (m - 1)..ey * 12 + (em - 1)]
    \<and> (\<forall>d \<in> set (month_points_from y m ey em). month_end d = d)"
  using assms
proof (induction y m ey em rule: month_points_from.induct)
  case (1 y m ey em)
  show ?case
  proof (cases "y < ey \<or> y = ey \<and> m \<le> em")
    case True
    then have le: "y * 12 + (m - 1) \<le> ey * 12 + (em - 1)" using 1(3-6) by auto
    have guard: "1 \<le> m \<and> m \<le> 12 \<and> 1 \<le> em \<and> em \<le> 12 \<and> (y < ey \<or> y = ey \<and> m \<le> em)"
      using True 1(3-6) by blast
    define rest where "rest = (if m = 12 then month_points_from (y + 1) 1 ey em else month_points_from y (m + 1) ey em)"
    have "map month_index rest = [y * 12 + (m - 1) + 1..ey * 12 + (em - 1)] \<and> (\<forall>d \<in> set rest. month_end d = d)"
    proof (cases "m = 12")
      case True
      from 1(1) [OF guard True] 1(5,6)
      have "map month_index (month_points_from (y + 1) 1 ey em) = [(y + 1) * 12 + (1 - 1)..ey * 12 + (em - 1)]
        \<and> (\<forall>d \<in> set (month_points_from (y + 1) 1 ey em). month_end d = d)" by simp
      moreover have "(y + 1) * 12 + (1 - 1) = y * 12 + (m - 1) + 1" using True by simp
      moreover have "rest = month_points_from (y + 1) 1 ey em" using True by (simp add: rest_def)
      ultimately show ?thesis by metis
    next
      case False
      from 1(2) [OF guard False] 1(3-6) False
      have "map month_index (month_points_from y (m + 1) ey em) = [y * 12 + (m + 1 - 1)..ey * 12 + (em - 1)]
        \<and> (\<forall>d \<in> set (month_points_from y (m + 1) ey em). month_end d = d)" by simp
      moreover have "y * 12 + (m + 1 - 1) = y * 12 + (m - 1) + 1" by simp
      moreover have "rest = month_points_from y (m + 1) ey em" using False by (simp add: rest_def)
      ultimately show ?thesis by metis
    qed
    moreover have "month_points_from y m ey em = month_end (Date y m 1) # rest"
      unfolding rest_def by (rule month_points_from_step) (use guard in blast)+
    moreover have "month_index (month_end (Date y m 1)) = y * 12 + (m - 1)"
      by (simp add: month_index_def month_end_def)
    ultimately show ?thesis by (simp only: upto_rec1 [OF le] list.map list.set) simp
  next
    case False
    then have "ey * 12 + (em - 1) < y * 12 + (m - 1)" using 1(3-6) by auto
    moreover have "month_points_from y m ey em = []"
      using False by (subst month_points_from.simps) (rule if_not_P, blast)
    ultimately show ?thesis by simp
  qed
qed

lemma month_points_index:
  assumes "valid_date a" "valid_date b"
  shows "map month_index (month_points a b) = [month_index a..month_index b]"
    and "\<forall>d \<in> set (month_points a b). month_end d = d"
  using month_points_from_index [of "dt_month a" "dt_month b" "dt_year a" "dt_year b"] assms
  by (simp_all add: month_points_def month_index_def valid_date_def)

lemma month_points_length:
  assumes "valid_date a" "valid_date b"
  shows "length (month_points a b) \<le> 120000"
proof -
  have "length (month_points a b) = length (map month_index (month_points a b))" by simp
  also have "\<dots> = nat (month_index b - month_index a + 1)"
    unfolding month_points_index(1) [OF assms] by simp
  finally have len: "length (month_points a b) = nat (month_index b - month_index a + 1)" .
  have "dt_year b \<le> 9999" "dt_month b \<le> 12" "1 \<le> dt_year a" "1 \<le> dt_month a"
    using assms by (simp_all add: valid_date_def)
  then have "month_index b - month_index a + 1 \<le> 120000" unfolding month_index_def by linarith
  then show ?thesis unfolding len by simp
qed

text \<open>Equal shares, the first one corrected by the residual, add up to one.\<close>

lemma corrected_shares:
  assumes n: "0 < n" "n \<le> 120000" and r: "quantize_persisted_amount share = Inr r" "0 \<le> share" "share \<le> 1"
    and res: "quantize_persisted_amount (dsub 1 (dsum (replicate n r))) = Inr residual"
    and first_share: "quantize_persisted_amount (dadd r residual) = Inr x"
  shows "sum_list (x # replicate (n - 1) r) = 1" "money r" "money x"
proof -
  have m: "money r" "money residual" "money x" using r res first_share by (auto dest: quantize_money)
  then show "money r" "money x" by blast+
  have r01: "0 \<le> r" "r \<le> 1" using r by (auto intro: quantize_nonneg quantize_le)
  have "of_nat n * r \<le> of_nat n * 1" by (rule mult_left_mono) (use r01 in simp_all)
  also have "\<dots> \<le> 120000" using n(2) by simp
  finally have nr: "of_nat n * r \<le> 120000" .
  have s: "sum_list (replicate k r) = of_nat k * r" for k by (simp add: sum_list_replicate)
  have "map abs (replicate n r) = replicate n r" using r01 by simp
  then have "dsum (replicate n r) = of_nat n * r"
    using m(1) nr by (subst dsum_exact) (auto simp: s money_micro)
  moreover have "money (of_nat n * r)"
  proof -
    have "micro (sum_list (replicate n r))" using m(1) by (intro micro_sum_list) (auto simp: money_micro)
    then show ?thesis using r01 nr by (simp add: money_def s)
  qed
  ultimately have "residual = 1 - of_nat n * r" using res by (auto dest: quantize_dsub)
  moreover have "x = r + residual" using first_share m by (auto dest: quantize_dadd)
  moreover have "of_nat n * r = r + of_nat (n - 1) * r"
  proof -
    obtain k where "n = Suc k" using n(1) by (cases n) auto
    then show ?thesis by (simp add: algebra_simps)
  qed
  ultimately show "sum_list (x # replicate (n - 1) r) = 1" unfolding sum_list.Cons s by linarith
qed

definition line_start :: "registered_line_item \<Rightarrow> registered_contract \<Rightarrow> date" where
  "line_start line contract =
     (case rl_recognition_start_date line of Some d \<Rightarrow> d | None \<Rightarrow> rc_contract_start_date contract)"

definition line_end :: "registered_line_item \<Rightarrow> registered_contract \<Rightarrow> date" where
  "line_end line contract =
     (case rl_recognition_end_date line of Some d \<Rightarrow> d | None \<Rightarrow> rc_contract_end_date contract)"

text \<open>A straight-line obligation is recognised at exactly one month end per calendar
  month from its start month to its end month, in order and without gaps; its first period
  absorbs the rounding of the equal shares, so the ratios add up to one exactly.\<close>

theorem straight_line_points:
  assumes "recognition_points_for_line line contract = Inr points"
    and "rl_recognition_method line = straight_line"
    and v: "valid_date (line_start line contract)" "valid_date (line_end line contract)"
  shows "map (\<lambda>(d, _, _). month_index d) points
           = [month_index (line_start line contract)..month_index (line_end line contract)]
    \<and> (\<forall>(d, ratio, status) \<in> set points. month_end d = d \<and> money ratio)
    \<and> sum_list (map (\<lambda>(_, ratio, _). ratio) points) = 1"
proof -
  let ?ds = "month_points (line_start line contract) (line_end line contract)"
  from assms(1,2) obtain share r residual x where ne: "?ds \<noteq> []"
    and share: "ddiv 1 (of_nat (length ?ds)) = Inr share"
    and r: "quantize_persisted_amount share = Inr r"
    and res: "quantize_persisted_amount (dsub 1 (dsum (replicate (length ?ds) r))) = Inr residual"
    and x: "quantize_persisted_amount (dadd (hd (replicate (length ?ds) r)) residual) = Inr x"
    and points: "points = map (\<lambda>(point, ratio). (point, ratio, ''recognized''))
         (zip ?ds (x # tl (replicate (length ?ds) r)))"
    by (auto simp: recognition_points_for_line_def line_start_def [symmetric] line_end_def [symmetric]
        Let_def result_simps)
  have n: "0 < length ?ds" using ne by simp
  have tl: "tl (replicate (length ?ds) r) = replicate (length ?ds - 1) r" by simp
  have "share = dec_round prec (1 / of_nat (length ?ds))" using share by (simp add: ddiv_Inr)
  then have s01: "0 \<le> share" "share \<le> 1"
    using ratio_bounds [of 1 "of_nat (length ?ds)"] n by simp_all
  have hd: "hd (replicate (length ?ds) r) = r" using n by (cases "length ?ds") simp_all
  note cs = corrected_shares [OF n month_points_length [OF v] r s01 res x [unfolded hd]]
  have len: "length (x # tl (replicate (length ?ds) r)) = length ?ds" using n by simp
  have fst: "map (\<lambda>(d, _, _). d) points = ?ds" unfolding points using len by (simp add: comp_def case_prod_beta)
  have ratios: "map (\<lambda>(_, ratio, _). ratio) points = x # replicate (length ?ds - 1) r"
    unfolding points using len tl by (simp add: comp_def case_prod_beta)
  have "map (\<lambda>(d, _, _). month_index d) points = map month_index ?ds"
    unfolding fst [symmetric] by (simp add: comp_def case_prod_beta)
  moreover have "\<forall>(d, ratio, status) \<in> set points. d \<in> set ?ds \<and> ratio \<in> {x, r}"
    by (auto simp: points tl dest: set_zip_leftD set_zip_rightD)
  then have "\<forall>(d, ratio, status) \<in> set points. month_end d = d \<and> money ratio"
    using month_points_index(2) [OF v] cs(2,3) by auto
  ultimately show ?thesis
    using month_points_index(1) [OF v] cs(1) unfolding ratios by simp
qed

section \<open>A line's share of its obligation\<close>

definition lines_ok :: "registered_line_item list \<Rightarrow> bool" where
  "lines_ok lines \<longleftrightarrow> distinct (map rl_line_item_id lines)
     \<and> list_all (\<lambda>l. money (rl_line_amount l) \<and> 0 \<le> rl_line_amount l) lines"

lemma provisional_line_shares_ok:
  assumes "lines_ok lines" "provisional_line_shares lines alloc tot = Inr provisional"
  shows "map fst provisional = map rl_line_item_id lines \<and> (\<forall>v \<in> snd ` set provisional. money v)
    \<and> same_sign (map snd provisional)"
proof -
  have "map fst provisional = map rl_line_item_id lines
    \<and> (\<forall>v \<in> snd ` set provisional. money v \<and> (0 \<le> alloc \<longrightarrow> 0 \<le> v) \<and> (alloc \<le> 0 \<longrightarrow> v \<le> 0))"
  proof (cases "tot \<le> 0")
    case True
    then obtain share r where r: "ddiv alloc (of_nat (length lines)) = Inr share"
      "quantize_persisted_amount share = Inr r" "provisional = py_dict (map (\<lambda>l. (rl_line_item_id l, r)) lines)"
      using assms(2) by (auto simp: provisional_line_shares_def result_simps)
    have "provisional = map (\<lambda>l. (rl_line_item_id l, r)) lines"
      using r(3) assms(1) by (simp add: py_dict_distinct lines_ok_def comp_def)
    moreover have "(0 \<le> alloc \<longrightarrow> 0 \<le> share) \<and> (alloc \<le> 0 \<longrightarrow> share \<le> 0)"
      using r(1) by (auto simp: ddiv_Inr intro!: dec_round_nonneg dec_round_nonpos divide_nonpos_nonneg)
    ultimately show ?thesis using r(2)
      by (auto intro: quantize_money quantize_nonneg quantize_nonpos simp: comp_def)
  next
    case False
    then obtain shares where shares: "mapE (\<lambda>line.
             bindE (ddiv (rl_line_amount line) tot) (\<lambda>ratio.
             bindE (quantize_persisted_amount (dmul alloc ratio)) (\<lambda>share.
             Inr (rl_line_item_id line, share)))) lines = Inr shares" and p: "provisional = py_dict shares"
      using assms(2) by (auto simp: provisional_line_shares_def result_simps)
    have ids: "map fst shares = map rl_line_item_id lines"
      by (rule mapE_map_eq [OF shares]) (auto simp: result_simps)
    then have "provisional = shares" using p assms(1) by (simp add: py_dict_distinct lines_ok_def)
    moreover have "money (snd kv) \<and> (0 \<le> alloc \<longrightarrow> 0 \<le> snd kv) \<and> (alloc \<le> 0 \<longrightarrow> snd kv \<le> 0)"
      if kv: "kv \<in> set shares" for kv
    proof -
      obtain l where l: "l \<in> set lines" and f: "bindE (ddiv (rl_line_amount l) tot) (\<lambda>ratio.
             bindE (quantize_persisted_amount (dmul alloc ratio)) (\<lambda>share. Inr (rl_line_item_id l, share))) = Inr kv"
        by (rule mapE_set [OF shares kv])
      then obtain q where q: "quantize_persisted_amount (dmul alloc (dec_round prec (rl_line_amount l / tot))) = Inr q"
        "snd kv = q" by (auto simp: result_simps ddiv_Inr)
      have "0 \<le> rl_line_amount l" using assms(1) l by (simp add: lines_ok_def list_all_iff)
      then have "0 \<le> dec_round prec (rl_line_amount l / tot)" using False by (simp add: dec_round_nonneg)
      from dmul_sign [OF q(1) this] show ?thesis using q by (auto dest: quantize_money)
    qed
    ultimately show ?thesis using ids by auto
  qed
  then show ?thesis by (cases "0 \<le> alloc") (auto simp: same_sign_def)
qed

lemma settle_line_shares_sum:
  assumes "settle_line_shares alloc provisional = Inr result" "money alloc"
    and "distinct (map fst provisional)" "\<forall>v \<in> snd ` set provisional. money v" "same_sign (map snd provisional)"
  shows "sum_list (map snd result) = alloc \<and> map fst result = map fst provisional
    \<and> (\<forall>v \<in> snd ` set result. money v)"
proof -
  from assms(1) obtain reconciled residual where
    rec: "quantize_persisted_amount (dsum (map snd provisional)) = Inr reconciled"
    and res: "quantize_persisted_amount (dsub alloc reconciled) = Inr residual"
    by (auto simp: settle_line_shares_def result_simps)
  have 1: "reconciled = sum_list (map snd provisional)"
    using quantize_dsum_signed [OF rec _ assms(5)] assms(4) by auto
  have 2: "residual = alloc - reconciled" using quantize_dsub [OF res assms(2) quantize_money [OF rec]] .
  show ?thesis
  proof (cases "residual = 0")
    case True
    then show ?thesis using assms(1,4) rec res 1 2 by (auto simp: settle_line_shares_def)
  next
    case False
    define k where "k = Min (set (map fst provisional))"
    from assms(1) rec res False obtain v adjusted where v: "map_of provisional k = Some v"
      and adj: "quantize_persisted_amount (dadd v residual) = Inr adjusted"
      and r: "result = AList.update k adjusted provisional"
      by (auto simp: settle_line_shares_def Let_def result_simps k_def split: option.splits)
    have mem: "(k, v) \<in> set provisional" using v by (rule map_of_SomeD)
    then have "money v" using assms(4) by force
    then have a: "adjusted = v + residual" using quantize_dadd [OF adj] quantize_money [OF res] by simp
    have "sum_list (map snd result) = alloc"
      unfolding r sum_list_AList_update [OF assms(3) v] using a 1 2 by simp
    moreover have "map fst result = map fst provisional"
      unfolding r by (rule map_fst_AList_update) (use mem in force)
    moreover have "\<forall>x \<in> snd ` set result. money x"
      using assms(4) quantize_money [OF adj] snd_AList_update [of k adjusted provisional]
      unfolding r by blast
    ultimately show ?thesis by blast
  qed
qed

lemma line_base_allocation_sum:
  assumes "line_base_allocation lines alloc = Inr result" "lines_ok lines" "money alloc"
  shows "sum_list (map snd result) = alloc \<and> map fst result = map rl_line_item_id lines
    \<and> (\<forall>v \<in> snd ` set result. money v)"
proof -
  obtain tot provisional where p: "provisional_line_shares lines alloc tot = Inr provisional"
    and st: "settle_line_shares alloc provisional = Inr result"
    using assms(1) by (auto simp: line_base_allocation_def result_simps)
  note ok = provisional_line_shares_ok [OF assms(2) p]
  from settle_line_shares_sum [OF st assms(3)] ok assms(2) show ?thesis by (simp add: lines_ok_def)
qed

text \<open>Looked up line by line, the shares still add up.\<close>

lemma sum_map_of:
  fixes d :: "('a \<times> 'b::comm_monoid_add) list"
  assumes "map fst d = ks" "distinct ks"
  shows "sum_list (map (\<lambda>k. the (map_of d k)) ks) = sum_list (map snd d)"
proof -
  have "map (\<lambda>k. the (map_of d k)) ks = map (\<lambda>kv. the (map_of d (fst kv))) d"
    using assms(1) by (metis (no_types, lifting) comp_apply list.map_comp map_eq_conv)
  also have "\<dots> = map snd d" using assms by (intro map_cong) auto
  finally show ?thesis by simp
qed

section \<open>The rows of a line\<close>

lemma line_rows_length: "line_rows rf l rep tok b c pts = Inr rows \<Longrightarrow> length rows = length pts"
  by (induction rf l rep tok b c pts arbitrary: rows rule: line_rows.induct) (auto simp: result_simps)

lemma line_rows_Cons:
  assumes "line_rows rf l rep tok b c ((d, ratio, st) # pts) = Inr rows"
  obtains x r y z row rest where "quantize_persisted_amount (dmul b ratio) = Inr x"
    "rf (rl_line_currency l) rep d = Inr r" "quantize_persisted_amount (dmul x r) = Inr y"
    "quantize_persisted_amount (dadd c y) = Inr z" "line_rows rf l rep tok b z pts = Inr rest"
    "rows = row # rest" "gs_base_amount row = x" "gs_fx_rate_used row = r" "gs_recognized_amount row = y"
    "gs_cumulative_recognized row = z" "gs_contract_id row = rl_contract_id l"
    "gs_obligation_id row = rl_obligation_id l" "gs_contract_line_item_id row = rl_line_item_id l"
    "gs_schedule_version_token row = tok" "gs_recognition_date row = d"
  using assms by (auto simp: result_simps)

text \<open>What holds of every provisional row.\<close>

definition row_of_line :: "(string \<Rightarrow> string \<Rightarrow> date \<Rightarrow> rat result) \<Rightarrow> registered_line_item \<Rightarrow> string \<Rightarrow> string
    \<Rightarrow> generated_schedule_row \<Rightarrow> bool" where
  "row_of_line rf l rep tok row \<longleftrightarrow>
     gs_contract_id row = rl_contract_id l \<and> gs_obligation_id row = rl_obligation_id l
     \<and> gs_contract_line_item_id row = rl_line_item_id l \<and> gs_schedule_version_token row = tok
     \<and> money (gs_base_amount row) \<and> money (gs_recognized_amount row) \<and> money (gs_cumulative_recognized row)
     \<and> rf (rl_line_currency l) rep (gs_recognition_date row) = Inr (gs_fx_rate_used row)
     \<and> quantize_persisted_amount (dmul (gs_base_amount row) (gs_fx_rate_used row)) = Inr (gs_recognized_amount row)"

lemma line_rows_fields:
  "line_rows rf l rep tok b c pts = Inr rows \<Longrightarrow> row \<in> set rows \<Longrightarrow> row_of_line rf l rep tok row"
proof (induction rf l rep tok b c pts arbitrary: rows rule: line_rows.induct)
  case (2 rf l rep tok b c d ratio st pts)
  show ?case
    by (rule line_rows_Cons [OF 2(2)])
      (use 2(1,3) in \<open>auto simp: row_of_line_def intro: quantize_money\<close>)
qed simp

lemma line_rows_dates:
  "line_rows rf l rep tok b c pts = Inr rows \<Longrightarrow> map gs_recognition_date rows = map fst pts"
  by (induction rf l rep tok b c pts arbitrary: rows rule: line_rows.induct) (auto simp: result_simps)

lemma line_rows_base_sign:
  assumes "line_rows rf l rep tok b c pts = Inr rows" "\<forall>(_, ratio, _) \<in> set pts. 0 \<le> ratio"
  shows "\<forall>row \<in> set rows. (0 \<le> b \<longrightarrow> 0 \<le> gs_base_amount row) \<and> (b \<le> 0 \<longrightarrow> gs_base_amount row \<le> 0)"
  using assms
proof (induction rf l rep tok b c pts arbitrary: rows rule: line_rows.induct)
  case (2 rf l rep tok b c d ratio st pts)
  obtain x r y z row rest where x: "quantize_persisted_amount (dmul b ratio) = Inr x"
    and steps: "rf (rl_line_currency l) rep d = Inr r" "quantize_persisted_amount (dmul x r) = Inr y"
      "quantize_persisted_amount (dadd c y) = Inr z"
    and rest: "line_rows rf l rep tok b z pts = Inr rest" "rows = row # rest" "gs_base_amount row = x"
    by (rule line_rows_Cons [OF 2(2)])
  have "0 \<le> ratio" using 2(3) by simp
  from dmul_sign [OF x this] 2(1) [OF x steps rest(1)] 2(3) rest(2,3) show ?case by auto
qed simp

text \<open>The running total is exact.\<close>

lemma line_rows_cumulative:
  assumes "line_rows rf l rep tok b c pts = Inr rows" "money c"
  shows "map gs_cumulative_recognized rows = prefix_sums c (map gs_recognized_amount rows)"
  using assms
proof (induction rf l rep tok b c pts arbitrary: rows rule: line_rows.induct)
  case (2 rf l rep tok b c d ratio st pts)
  obtain x r y z row rest where steps: "quantize_persisted_amount (dmul b ratio) = Inr x"
      "rf (rl_line_currency l) rep d = Inr r" "quantize_persisted_amount (dmul x r) = Inr y"
      "quantize_persisted_amount (dadd c y) = Inr z"
    and rest: "line_rows rf l rep tok b z pts = Inr rest" "rows = row # rest" "gs_recognized_amount row = y"
      "gs_cumulative_recognized row = z"
    by (rule line_rows_Cons [OF 2(2)])
  have "z = c + y" using quantize_dadd [OF steps(4) 2(3) quantize_money [OF steps(3)]] .
  moreover have "map gs_cumulative_recognized rest = prefix_sums z (map gs_recognized_amount rest)"
    using 2(1) [OF steps rest(1) quantize_money [OF steps(4)]] .
  ultimately show ?case using rest(2-4) by simp
qed simp

lemma adjust_tail_Nil: "adjust_tail rt b [] = Inr rows \<Longrightarrow> rows = []"
  by (auto simp: adjust_tail_def result_simps)

text \<open>What the tail adjustment yields for non-negative rows.\<close>

lemma adjust_tail_facts:
  assumes "adjust_tail rt b rows = Inr final" "rows \<noteq> []" "money b"
    and base: "\<forall>row \<in> set rows. money (gs_base_amount row)" "same_sign (map gs_base_amount rows)"
  obtains adjusted reported cumulative where
    "final = butlast rows @ [(last rows)\<lparr>gs_period_seq := 0, gs_base_amount := adjusted,
       gs_recognized_amount := reported, gs_cumulative_recognized := cumulative\<rparr>]"
    "rt = 1 \<longrightarrow> sum_list (map gs_base_amount (butlast rows)) + adjusted = b"
    "rt \<noteq> 1 \<longrightarrow> adjusted = gs_base_amount (last rows)"
    "money adjusted"
    "quantize_persisted_amount (dmul adjusted (gs_fx_rate_used (last rows))) = Inr reported"
proof -
  from assms(1,2) obtain reconciled expected residual adjusted reported cumulative where
    e: "quantize_persisted_amount (dsum (map gs_base_amount rows)) = Inr expected"
    and res: "(if rt = 1 then quantize_persisted_amount (dsub b expected) else Inr 0) = Inr residual"
    and adj: "quantize_persisted_amount (dadd (gs_base_amount (last rows)) residual) = Inr adjusted"
    and rep: "quantize_persisted_amount (dmul adjusted (gs_fx_rate_used (last rows))) = Inr reported"
    and f: "final = butlast rows @ [(last rows)\<lparr>gs_period_seq := 0, gs_base_amount := adjusted,
       gs_recognized_amount := reported, gs_cumulative_recognized := cumulative\<rparr>]"
    by (auto simp: adjust_tail_def Let_def result_simps)
  have last: "money (gs_base_amount (last rows))" using base(1) assms(2) by simp
  have sum: "expected = sum_list (map gs_base_amount rows)"
    using quantize_dsum_signed [OF e _ base(2)] base(1) by auto
  have split: "sum_list (map gs_base_amount rows) = sum_list (map gs_base_amount (butlast rows)) + gs_base_amount (last rows)"
    using assms(2) by (rule sum_list_butlast_last)
  have mres: "money residual" using res by (auto split: if_splits dest: quantize_money)
  have a: "adjusted = gs_base_amount (last rows) + residual" by (rule quantize_dadd [OF adj last mres])
  show thesis
  proof (rule that [OF f _ _ _ rep])
    show "rt = 1 \<longrightarrow> sum_list (map gs_base_amount (butlast rows)) + adjusted = b"
    proof
      assume "rt = 1"
      then have "residual = b - expected"
        using res quantize_dsub [of b expected residual] assms(3) quantize_money [OF e] by simp
      then show "sum_list (map gs_base_amount (butlast rows)) + adjusted = b" using a sum split by simp
    qed
    show "rt \<noteq> 1 \<longrightarrow> adjusted = gs_base_amount (last rows)" using a res by auto
    show "money adjusted" using adj by (rule quantize_money)
  qed
qed

lemma generate_line_sum:
  assumes gen: "generate_line rf rep tok contract bal line = Inr rows"
    and pts: "recognition_points_for_line line contract = Inr pts" "\<forall>(_, ratio, _) \<in> set pts. 0 \<le> ratio \<and> money ratio"
      "sum_list (map (\<lambda>(_, ratio, _). ratio) pts) = 1"
    and b: "map_of bal (rl_line_item_id line) = Some b" "money b"
  shows "sum_list (map gs_base_amount rows) = b
    \<and> (\<forall>row \<in> set rows. gs_contract_id row = rl_contract_id line \<and> gs_obligation_id row = rl_obligation_id line
         \<and> gs_contract_line_item_id row = rl_line_item_id line \<and> gs_schedule_version_token row = tok)"
proof -
  from gen pts(1) b(1) obtain rt lrows where
    rt: "quantize_persisted_amount (dsum (map (\<lambda>(_, ratio, _). ratio) pts)) = Inr rt"
    and lr: "line_rows rf line rep tok b 0 pts = Inr lrows"
    and adj: "adjust_tail rt b lrows = Inr rows"
    by (auto simp: generate_line_def result_simps)
  have "\<forall>x \<in> set (map (\<lambda>(_, ratio, _). ratio) pts). money x \<and> 0 \<le> x" using pts(2) by auto
  from quantize_dsum [OF rt this] have "rt = 1" using pts(3) by simp
  have "pts \<noteq> []" using pts(3) by auto
  then have ne: "lrows \<noteq> []" using line_rows_length [OF lr] by auto
  have base: "\<forall>row \<in> set lrows. money (gs_base_amount row)"
    using line_rows_fields [OF lr] by (simp add: row_of_line_def)
  have "\<forall>(_, ratio, _) \<in> set pts. 0 \<le> ratio" using pts(2) by auto
  from line_rows_base_sign [OF lr this] have sign: "same_sign (map gs_base_amount lrows)"
    by (cases "0 \<le> b") (auto simp: same_sign_def)
  from adjust_tail_facts [OF adj ne b(2) base sign] obtain adjusted reported cumulative where
    rows: "rows = butlast lrows @ [(last lrows)\<lparr>gs_period_seq := 0, gs_base_amount := adjusted,
       gs_recognized_amount := reported, gs_cumulative_recognized := cumulative\<rparr>]"
    and sum: "rt = 1 \<longrightarrow> sum_list (map gs_base_amount (butlast lrows)) + adjusted = b" by blast
  have "\<forall>row \<in> set lrows. gs_contract_id row = rl_contract_id line \<and> gs_obligation_id row = rl_obligation_id line
         \<and> gs_contract_line_item_id row = rl_line_item_id line \<and> gs_schedule_version_token row = tok"
    using line_rows_fields [OF lr] by (simp add: row_of_line_def)
  moreover have "set (butlast lrows) \<subseteq> set lrows" "last lrows \<in> set lrows"
    using ne by (auto dest: in_set_butlastD)
  ultimately show ?thesis using sum \<open>rt = 1\<close> by (auto simp: rows)
qed

section \<open>An obligation, a contract\<close>

text \<open>A line is fully recognised when its points carry non-negative ratios that add up to one.\<close>

definition fully_recognised :: "registered_contract \<Rightarrow> registered_line_item \<Rightarrow> bool" where
  "fully_recognised contract line \<longleftrightarrow>
     (case recognition_points_for_line line contract of
        Inl _ \<Rightarrow> False
      | Inr pts \<Rightarrow> list_all (\<lambda>(_, ratio, _). 0 \<le> ratio \<and> money ratio) pts
          \<and> sum_list (map (\<lambda>(_, ratio, _). ratio) pts) = 1)"

definition obligation_lines :: "registered_line_item list \<Rightarrow> uuid \<Rightarrow> registered_line_item list" where
  "obligation_lines line_items oid = sort_key rl_line_code (group_of rl_obligation_id oid line_items)"

lemma mapE_sum_concat:
  assumes "mapE f xs = Inr yss" "\<And>x ys. x \<in> set xs \<Longrightarrow> f x = Inr ys \<Longrightarrow> sum_list (map g ys) = (h x :: 'b::comm_monoid_add)"
  shows "sum_list (map g (concat yss)) = sum_list (map h xs)"
  using assms
proof (induction xs arbitrary: yss)
  case (Cons x xs)
  then obtain ys yss' where ys: "f x = Inr ys" "mapE f xs = Inr yss'" "yss = ys # yss'"
    by (auto simp: result_simps)
  have "sum_list (map g (concat yss')) = sum_list (map h xs)"
    by (rule Cons.IH [OF ys(2)]) (use Cons.prems(2) in auto)
  then show ?case using ys Cons.prems(2) [of x ys] by simp
qed simp

lemma generate_allocation_sum:
  assumes gen: "generate_allocation rf rep tok contract line_items allocation = Inr rows"
    and ok: "lines_ok (obligation_lines line_items (oa_obligation_id allocation))"
    and full: "\<forall>l \<in> set (obligation_lines line_items (oa_obligation_id allocation)).
      fully_recognised contract l \<and> rl_contract_id l = oa_contract_id allocation"
    and m: "money (oa_allocated_amount allocation)"
  shows "sum_list (map gs_base_amount rows) = oa_allocated_amount allocation
    \<and> (\<forall>row \<in> set rows. gs_contract_id row = oa_contract_id allocation)"
proof -
  let ?lines = "obligation_lines line_items (oa_obligation_id allocation)"
  from gen obtain bal rowss where
    bal: "line_base_allocation ?lines (oa_allocated_amount allocation) = Inr bal"
    and rowss: "mapE (generate_line rf rep tok contract bal) ?lines = Inr rowss" and rows: "rows = concat rowss"
    by (auto simp: generate_allocation_def obligation_lines_def Let_def result_simps)
  note b = line_base_allocation_sum [OF bal ok m]
  have d: "distinct (map rl_line_item_id ?lines)" using ok by (simp add: lines_ok_def)
  have line: "sum_list (map gs_base_amount ys) = the (map_of bal (rl_line_item_id l))
      \<and> (\<forall>row \<in> set ys. gs_contract_id row = oa_contract_id allocation)"
    if l: "l \<in> set ?lines" and g: "generate_line rf rep tok contract bal l = Inr ys" for l ys
  proof -
    obtain pts where pts: "recognition_points_for_line l contract = Inr pts"
      "\<forall>(_, ratio, _) \<in> set pts. 0 \<le> ratio \<and> money ratio" "sum_list (map (\<lambda>(_, ratio, _). ratio) pts) = 1"
      using full l by (cases "recognition_points_for_line l contract") (auto simp: fully_recognised_def list_all_iff)
    have "rl_line_item_id l \<in> fst ` set bal" using b l by (metis image_eqI list.set_map)
    then obtain v where v: "map_of bal (rl_line_item_id l) = Some v"
      by (cases "map_of bal (rl_line_item_id l)") (auto simp: map_of_eq_None_iff)
    then have "money v" using b by (force dest: map_of_SomeD)
    from generate_line_sum [OF g pts v this] v full l show ?thesis by simp
  qed
  have "sum_list (map gs_base_amount rows) = sum_list (map (\<lambda>l. the (map_of bal (rl_line_item_id l))) ?lines)"
    unfolding rows using line by (intro mapE_sum_concat [OF rowss]) blast
  also have "\<dots> = sum_list (map (\<lambda>k. the (map_of bal k)) (map rl_line_item_id ?lines))" by (simp add: comp_def)
  also have "\<dots> = sum_list (map snd bal)" using b d by (intro sum_map_of) simp_all
  finally have "sum_list (map gs_base_amount rows) = oa_allocated_amount allocation" using b by simp
  moreover have "\<forall>row \<in> set rows. gs_contract_id row = oa_contract_id allocation"
  proof
    fix row assume "row \<in> set rows"
    then obtain ys where ys: "ys \<in> set rowss" "row \<in> set ys" by (auto simp: rows)
    obtain l where "l \<in> set ?lines" "generate_line rf rep tok contract bal l = Inr ys"
      by (rule mapE_set [OF rowss ys(1)])
    then show "gs_contract_id row = oa_contract_id allocation" using line ys(2) by blast
  qed
  ultimately show ?thesis by blast
qed

section \<open>The whole schedule\<close>

lemma sequence_rows_fields:
  "map gs_base_amount (group_of gs_contract_id c (sequence_rows seq rows))
     = map gs_base_amount (group_of gs_contract_id c rows)"
  "map gs_contract_id (sequence_rows seq rows) = map gs_contract_id rows"
  by (induction seq rows rule: sequence_rows.induct) (auto simp: group_of_def Let_def)

lemma sequence_rows_numbers:
  "map gs_period_seq (group_of gs_contract_id c (sequence_rows seq rows))
     = [seq c + 1..<seq c + 1 + length (group_of gs_contract_id c rows)]"
proof (induction seq rows rule: sequence_rows.induct)
  case (2 seq row rows)
  then show ?case
    by (cases "gs_contract_id row = c") (auto simp: group_of_def Let_def upt_conv_Cons fun_upd_def simp del: upt_Suc)
qed (simp add: group_of_def)

lemma generated_numbers:
  assumes "generate_schedule_rows sha babel t db contracts lines allocations rep mode = Inr out"
  shows "map gs_period_seq (group_of gs_contract_id c (go_rows out))
    = [1..<1 + length (group_of gs_contract_id c (go_rows out))]"
proof -
  from assms obtain generated where
    rows: "go_rows out = sequence_rows (\<lambda>_. 0) (sort_key row_order generated)"
    by (auto simp: generate_schedule_rows_def result_simps)
  have "length (group_of gs_contract_id c (go_rows out)) = length (group_of gs_contract_id c (sort_key row_order generated))"
    using arg_cong [OF sequence_rows_fields(1), of length] unfolding rows by simp
  then show ?thesis unfolding rows sequence_rows_numbers by simp
qed

text \<open>The rows of a schedule are numbered one to the number of rows within each
  contract, in the order of the schedule, whatever contracts are interleaved in it.\<close>

theorem period_seq_contiguous:
  assumes "generate_schedule_rows sha babel t db contracts lines allocations rep mode = Inr out"
  shows "map gs_period_seq (group_of gs_contract_id c (go_rows out))
    = [1..<1 + length (group_of gs_contract_id c (go_rows out))]"
  by (rule generated_numbers [OF assms])

text \<open>One step of the loop over the allocations adds the allocation's rows.\<close>

definition schedule_step :: "sha \<Rightarrow> string list option \<Rightarrow> uuid \<Rightarrow> fx_db \<Rightarrow> registered_contract list
    \<Rightarrow> registered_line_item list \<Rightarrow> string \<Rightarrow> rate_mode
    \<Rightarrow> (uuid \<times> string) list \<times> generated_schedule_row list \<Rightarrow> obligation_allocation
    \<Rightarrow> ((uuid \<times> string) list \<times> generated_schedule_row list) result" where
  "schedule_step sha babel t db contracts lines reporting mode = (\<lambda>(root_tokens, generated) allocation.
         case dict_by rc_contract_id contracts (oa_contract_id allocation) of
           None \<Rightarrow> Inl (ValidationError ''Allocation references unknown contract'')
         | Some contract \<Rightarrow>
             (let (root_token, root_tokens) =
                    (case map_of root_tokens (rc_contract_id contract) of
                       Some t \<Rightarrow> (t, root_tokens)
                     | None \<Rightarrow>
                         (let t = root_token_for sha reporting mode (rc_contract_id contract)
                          in (t, root_tokens @ [(rc_contract_id contract, t)]))) in
              bindE (generate_allocation (resolve_fx_rate babel t mode db) reporting root_token contract
                       lines allocation) (\<lambda>rows.
              Inr (root_tokens, generated @ rows))))"

lemma schedule_step_rows:
  assumes "schedule_step sha babel t db contracts lines reporting mode st allocation = Inr st'"
  obtains contract tok rows where "dict_by rc_contract_id contracts (oa_contract_id allocation) = Some contract"
    "generate_allocation (resolve_fx_rate babel t mode db) reporting tok contract lines allocation = Inr rows"
    "snd st' = snd st @ rows"
  using assms
  by (cases st) (auto simp: schedule_step_def Let_def result_simps split: option.splits)

definition fully_scheduled :: "registered_contract list \<Rightarrow> registered_line_item list \<Rightarrow> obligation_allocation \<Rightarrow> bool" where
  "fully_scheduled contracts lines a \<longleftrightarrow>
     lines_ok (obligation_lines lines (oa_obligation_id a)) \<and>
     (\<forall>c \<in> set contracts. rc_contract_id c = oa_contract_id a \<longrightarrow>
        (\<forall>l \<in> set (obligation_lines lines (oa_obligation_id a)).
           fully_recognised c l \<and> rl_contract_id l = oa_contract_id a))"

lemma schedule_rows_sum:
  assumes "foldE (schedule_step sha babel t db contracts lines reporting mode) st allocations = Inr st'"
    and "\<forall>a \<in> set allocations. money (oa_allocated_amount a) \<and> fully_scheduled contracts lines a"
  shows "sum_list (map gs_base_amount (group_of gs_contract_id c (snd st')))
    = sum_list (map gs_base_amount (group_of gs_contract_id c (snd st)))
      + sum_list (map oa_allocated_amount (group_of oa_contract_id c allocations))"
  using assms
proof (induction allocations arbitrary: st)
  case (Cons a allocations)
  from Cons.prems(1) obtain st1 where step: "schedule_step sha babel t db contracts lines reporting mode st a = Inr st1"
    and rest: "foldE (schedule_step sha babel t db contracts lines reporting mode) st1 allocations = Inr st'"
    by (auto simp: result_simps)
  obtain contract tok rows where c: "dict_by rc_contract_id contracts (oa_contract_id a) = Some contract"
    and gen: "generate_allocation (resolve_fx_rate babel t mode db) reporting tok contract lines a = Inr rows"
    and st1: "snd st1 = snd st @ rows"
    by (rule schedule_step_rows [OF step])
  have "fully_scheduled contracts lines a" "money (oa_allocated_amount a)" using Cons.prems(2) by simp_all
  then have s: "sum_list (map gs_base_amount rows) = oa_allocated_amount a"
    "\<forall>row \<in> set rows. gs_contract_id row = oa_contract_id a"
    using generate_allocation_sum [OF gen] dict_by_Some [OF c] by (auto simp: fully_scheduled_def)
  have "group_of gs_contract_id c rows = (if oa_contract_id a = c then rows else [])"
    using s(2) by (auto simp: group_of_def filter_id_conv filter_empty_conv)
  then have new: "sum_list (map gs_base_amount (group_of gs_contract_id c (snd st1)))
      = sum_list (map gs_base_amount (group_of gs_contract_id c (snd st)))
        + (if oa_contract_id a = c then oa_allocated_amount a else 0)"
    using s(1) by (simp add: st1 group_of_def)
  from Cons.IH [OF rest] Cons.prems(2) show ?case by (simp add: new group_of_simps)
qed (simp add: group_of_simps)

text \<open>(C1) From contract to schedule nothing is created or lost: when every line of a contract
  is fully recognised, the base amounts of its schedule rows add up to the contract's
  transaction price exactly, through allocation to obligations, the split over lines, the
  rounding of every month and the tail correction.\<close>

theorem schedule_preserves_contract_value:
  assumes alloc: "allocate_contract_values contracts obligations = Inr allocations"
    and gen: "generate_schedule_rows sha babel t db contracts lines allocations rep mode = Inr out"
    and ids: "distinct (map rc_contract_id contracts)" "c \<in> set contracts"
    and am: "\<forall>c \<in> set contracts. amounts_ok c (contract_obligations obligations c)"
    and full: "\<forall>a \<in> set allocations. fully_scheduled contracts lines a"
  shows "sum_list (map gs_base_amount (group_of gs_contract_id (rc_contract_id c) (go_rows out)))
    = rc_total_contract_value c"
proof -
  from gen obtain reporting st where
    fold: "foldE (schedule_step sha babel t db contracts lines reporting mode) ([], []) allocations = Inr st"
    and rows: "go_rows out = sequence_rows (\<lambda>_. 0) (sort_key row_order (snd st))"
    by (auto simp: generate_schedule_rows_def schedule_step_def result_simps)
  have "sum_list (map gs_base_amount (group_of gs_contract_id (rc_contract_id c) (go_rows out)))
      = sum_list (map gs_base_amount (group_of gs_contract_id (rc_contract_id c) (snd st)))"
    unfolding rows sequence_rows_fields by (simp add: group_of_def filter_sort)
  also have "\<dots> = sum_list (map oa_allocated_amount (group_of oa_contract_id (rc_contract_id c) allocations))"
    using schedule_rows_sum [OF fold, of "rc_contract_id c"] full allocations_money [OF alloc]
    by (simp add: group_of_def)
  also have "\<dots> = rc_total_contract_value c" by (rule allocations_reconcile_raw [OF alloc ids am])
  finally show ?thesis .
qed

section \<open>A concrete schedule\<close>

definition ex_line :: "uuid \<Rightarrow> uuid \<Rightarrow> registered_line_item" where
  "ex_line i oid = \<lparr>rl_line_item_id = i, rl_contract_id = 7, rl_contract_number = ''C-7'', rl_obligation_id = oid,
     rl_line_code = ''L'', rl_line_amount = 50, rl_line_currency = ''USD'', rl_milestone_reference = None,
     rl_usage_reference = None, rl_source_contract_reference = ''S'', rl_recognition_method = straight_line,
     rl_completion_percentage = None, rl_completed_flag = None, rl_milestone_achieved = None,
     rl_usage_quantity = None, rl_recognition_date = None, rl_recognition_start_date = None,
     rl_recognition_end_date = None\<rparr>"

definition ex_allocations :: "obligation_allocation list" where
  "ex_allocations =
     [\<lparr>oa_contract_id = 7, oa_obligation_id = 11, oa_obligation_code = ''A'', oa_allocated_amount = 1 / 1000000\<rparr>,
      \<lparr>oa_contract_id = 7, oa_obligation_id = 12, oa_obligation_code = ''B'', oa_allocated_amount = 1 / 500000\<rparr>]"

lemma ex_points:
  "recognition_points_for_line (ex_line i oid) ex_contract =
     Inr [(Date 2024 1 31, 1 / 2, ''recognized''), (Date 2024 2 29, 1 / 2, ''recognized'')]"
proof -
  have "recognition_points_for_line (ex_line 21 11) ex_contract =
     Inr [(Date 2024 1 31, 1 / 2, ''recognized''), (Date 2024 2 29, 1 / 2, ''recognized'')]" by code_simp
  moreover have "recognition_points_for_line (ex_line i oid) ex_contract = recognition_points_for_line (ex_line 21 11) ex_contract"
    by (simp add: recognition_points_for_line_def ex_line_def)
  ultimately show ?thesis by simp
qed

lemma ex_schedule_values:
  "quantize_persisted_amount (dsum [1 / 2, 1 / 2]) = Inr 1"
  "quantize_persisted_amount (dmul (1 / 1000000) (1 / 2)) = Inr (1 / 1000000)"
  "quantize_persisted_amount (dmul (1 / 500000) (1 / 2)) = Inr (1 / 1000000)"
  "quantize_persisted_amount (dmul (1 / 1000000) 1) = Inr (1 / 1000000)"
  "quantize_persisted_amount (dmul 0 1) = Inr 0"
  "quantize_persisted_amount (dadd 0 (1 / 1000000)) = Inr (1 / 1000000)"
  "quantize_persisted_amount (dadd (1 / 1000000) (1 / 1000000)) = Inr (1 / 500000)"
  "quantize_persisted_amount (dsum [1 / 1000000, 1 / 1000000]) = Inr (1 / 500000)"
  "quantize_persisted_amount (dsub (1 / 1000000) (1 / 500000)) = Inr (- (1 / 1000000))"
  "quantize_persisted_amount (dsub (1 / 500000) (1 / 500000)) = Inr 0"
  "quantize_persisted_amount (dadd (1 / 1000000) (- (1 / 1000000))) = Inr 0"
  "quantize_persisted_amount (dadd (1 / 1000000) 0) = Inr (1 / 1000000)"
  "dsub (1 / 500000) (1 / 1000000) = 1 / 1000000"
  "quantize_persisted_amount (dsum [50]) = Inr 50"
  "ddiv 50 50 = Inr 1"
  "quantize_persisted_amount (dmul (1 / 500000) 1) = Inr (1 / 500000)"
  "quantize_persisted_amount (dsum [1 / 1000000]) = Inr (1 / 1000000)"
  "quantize_persisted_amount (dsum [1 / 500000]) = Inr (1 / 500000)"
  "quantize_persisted_amount (dsub (1 / 1000000) (1 / 1000000)) = Inr 0"
  by code_simp+

lemma ex_usd: "normalize_currency_code None ''USD'' = Inr ''USD''"
  by code_simp

lemma ex_rate: "resolve_fx_rate None t mode db ''USD'' ''USD'' d = Inr 1"
  by (simp add: resolve_fx_rate_def ex_usd)

lemma ex_generate_line:
  "map_of bal i = Some (1 / 1000000) \<Longrightarrow>
     \<exists>rows. generate_line (resolve_fx_rate None t mode db) ''USD'' tok ex_contract bal (ex_line i oid) = Inr rows"
  "map_of bal i = Some (1 / 500000) \<Longrightarrow>
     \<exists>rows. generate_line (resolve_fx_rate None t mode db) ''USD'' tok ex_contract bal (ex_line i oid) = Inr rows"
  by (simp_all add: generate_line_def ex_points)
    (simp_all add: ex_line_def ex_rate ex_schedule_values adjust_tail_def Let_def)

lemma ex_line_base:
  "line_base_allocation [ex_line i oid] (1 / 1000000) = Inr [(i, 1 / 1000000)]"
  "line_base_allocation [ex_line i oid] (1 / 500000) = Inr [(i, 1 / 500000)]"
  by (simp_all add: line_base_allocation_def provisional_line_shares_def settle_line_shares_def ex_line_def
      ex_schedule_values py_dict_def)

lemma ex_obligation_lines:
  "group_of rl_obligation_id 11 [ex_line 21 11, ex_line 22 12] = [ex_line 21 11]"
  "group_of rl_obligation_id 12 [ex_line 21 11, ex_line 22 12] = [ex_line 22 12]"
  by (simp_all add: group_of_simps ex_line_def)

lemma ex_generate_allocation:
  assumes "a \<in> set ex_allocations"
  shows "\<exists>rows. generate_allocation (resolve_fx_rate None t mode db) ''USD'' tok ex_contract
       [ex_line 21 11, ex_line 22 12] a = Inr rows"
proof -
  have id: "rl_line_item_id (ex_line i oid) = i" for i oid by (simp add: ex_line_def)
  obtain r1 where "generate_line (resolve_fx_rate None t mode db) ''USD'' tok ex_contract [(21, 1 / 1000000)] (ex_line 21 11) = Inr r1"
    using ex_generate_line(1) by fastforce
  moreover obtain r2 where "generate_line (resolve_fx_rate None t mode db) ''USD'' tok ex_contract [(22, 1 / 500000)] (ex_line 22 12) = Inr r2"
    using ex_generate_line(2) by fastforce
  ultimately show ?thesis
    using assms by (auto simp: ex_allocations_def generate_allocation_def ex_obligation_lines ex_line_base)
qed

lemma ex_schedule:
  "\<exists>out. generate_schedule_rows (\<lambda>s. s) None 2 ex_fx_db [ex_contract] [ex_line 21 11, ex_line 22 12] ex_allocations ''USD''
     daily = Inr out"
proof -
  define tok where "tok = root_token_for (\<lambda>s. s) ''USD'' daily 7"
  obtain r1 r2 where
    "generate_allocation (resolve_fx_rate None 2 daily ex_fx_db) ''USD'' tok ex_contract [ex_line 21 11, ex_line 22 12]
       (ex_allocations ! 0) = Inr r1"
    "generate_allocation (resolve_fx_rate None 2 daily ex_fx_db) ''USD'' tok ex_contract [ex_line 21 11, ex_line 22 12]
       (ex_allocations ! 1) = Inr r2"
    using ex_generate_allocation [of "ex_allocations ! 0"] ex_generate_allocation [of "ex_allocations ! 1"]
    by (fastforce simp: ex_allocations_def)
  moreover have "rc_contract_id ex_contract = 7" by (simp add: ex_contract_def)
  ultimately show ?thesis
    by (simp add: generate_schedule_rows_def ex_usd ex_allocations_def dict_by_def tok_def Let_def)
qed

lemma period_seq_contiguous_witness:
  "\<exists>out. generate_schedule_rows (\<lambda>s. s) None 2 ex_fx_db [ex_contract] [ex_line 21 11, ex_line 22 12] ex_allocations
       ''USD'' daily = Inr out
     \<and> map gs_period_seq (group_of gs_contract_id 7 (go_rows out))
         = [1..<1 + length (group_of gs_contract_id 7 (go_rows out))]"
  using ex_schedule period_seq_contiguous by blast

lemma ex_fully_scheduled:
  "\<forall>a \<in> set ex_allocations. fully_scheduled [ex_contract] [ex_line 21 11, ex_line 22 12] a"
proof -
  have "fully_recognised ex_contract (ex_line i oid)" for i oid
  proof -
    have "money (1 / 2)" by code_simp
    then show ?thesis by (simp add: fully_recognised_def ex_points)
  qed
  moreover have "lines_ok [ex_line i oid]" for i oid by (simp add: lines_ok_def ex_line_def ex_amounts)
  moreover have "rl_contract_id (ex_line i oid) = 7" for i oid by (simp add: ex_line_def)
  ultimately show ?thesis
    by (simp add: ex_allocations_def fully_scheduled_def obligation_lines_def ex_obligation_lines)
qed

lemma schedule_preserves_contract_value_witness:
  "\<exists>out. generate_schedule_rows (\<lambda>s. s) None 2 ex_fx_db [ex_contract] [ex_line 21 11, ex_line 22 12] ex_allocations
       ''USD'' daily = Inr out
     \<and> sum_list (map gs_base_amount (group_of gs_contract_id (rc_contract_id ex_contract) (go_rows out)))
         = rc_total_contract_value ex_contract"
proof -
  obtain out where out: "generate_schedule_rows (\<lambda>s. s) None 2 ex_fx_db [ex_contract] [ex_line 21 11, ex_line 22 12]
      ex_allocations ''USD'' daily = Inr out"
    using ex_schedule by blast
  from schedule_preserves_contract_value [OF ex_allocation [folded ex_allocations_def] out _ _ _ ex_fully_scheduled,
      of ex_contract] out
  show ?thesis by (simp add: ex_amounts_ok)
qed

lemma straight_line_points_witness:
  "map (\<lambda>(d, _, _). month_index d) [(Date 2024 1 31, 1 / 2 :: rat, ''recognized''), (Date 2024 2 29, 1 / 2, ''recognized'')]
     = [month_index (line_start (ex_line 21 11) ex_contract)..month_index (line_end (ex_line 21 11) ex_contract)]"
proof -
  have "line_start (ex_line 21 11) ex_contract = Date 2024 1 1" "line_end (ex_line 21 11) ex_contract = Date 2024 2 29"
    by (simp_all add: line_start_def line_end_def ex_line_def ex_contract_def)
  moreover have "valid_date (Date 2024 1 1)" "valid_date (Date 2024 2 29)" by code_simp+
  moreover have "rl_recognition_method (ex_line 21 11) = straight_line" by (simp add: ex_line_def)
  ultimately show ?thesis using straight_line_points [OF ex_points, of 21 11] by simp
qed

section \<open>Every row is priced at its own date\<close>

lemma adjust_tail_rows:
  assumes "adjust_tail rt b rows = Inr final" "\<forall>row \<in> set rows. row_of_line rf l rep tok row"
  shows "\<forall>row \<in> set final. row_of_line rf l rep tok row"
proof (cases "rows = []")
  case False
  from assms(1) False obtain adjusted reported cumulative x y where
    "quantize_persisted_amount x = Inr adjusted" "quantize_persisted_amount y = Inr cumulative"
    "quantize_persisted_amount (dmul adjusted (gs_fx_rate_used (last rows))) = Inr reported"
    "final = butlast rows @ [(last rows)\<lparr>gs_period_seq := 0, gs_base_amount := adjusted,
       gs_recognized_amount := reported, gs_cumulative_recognized := cumulative\<rparr>]"
    by (auto simp: adjust_tail_def Let_def result_simps)
  moreover have "row_of_line rf l rep tok (last rows)" using assms(2) False by simp
  ultimately show ?thesis
    using assms(2) quantize_money by (auto simp: row_of_line_def dest: in_set_butlastD)
qed (use assms(1) in \<open>auto dest: adjust_tail_Nil\<close>)

lemma generate_line_rows:
  assumes "generate_line rf rep tok contract bal line = Inr rows"
  shows "\<forall>row \<in> set rows. row_of_line rf line rep tok row"
  using assms adjust_tail_rows line_rows_fields
  by (auto simp: generate_line_def result_simps)

lemma generate_allocation_rows:
  assumes "generate_allocation rf rep tok contract lines a = Inr rows" "row \<in> set rows"
  shows "\<exists>l \<in> set lines. row_of_line rf l rep tok row"
proof -
  from assms obtain bal rowss ys where
    m: "mapE (generate_line rf rep tok contract bal) (obligation_lines lines (oa_obligation_id a)) = Inr rowss"
    and ys: "ys \<in> set rowss" "row \<in> set ys"
    by (auto simp: generate_allocation_def obligation_lines_def Let_def result_simps)
  obtain l where l: "l \<in> set (obligation_lines lines (oa_obligation_id a))" "generate_line rf rep tok contract bal l = Inr ys"
    by (rule mapE_set [OF m ys(1)])
  from generate_line_rows [OF l(2)] ys(2) l(1) show ?thesis
    by (auto simp: obligation_lines_def group_of_def)
qed

lemma sequence_rows_set:
  "row \<in> set (sequence_rows seq rows) \<Longrightarrow> \<exists>n r. r \<in> set rows \<and> row = r\<lparr>gs_period_seq := n\<rparr>"
  by (induction seq rows rule: sequence_rows.induct) (auto simp: Let_def)

lemma schedule_rows_of_lines:
  assumes "generate_schedule_rows sha babel t db contracts lines allocations rep mode = Inr out"
    and "row \<in> set (go_rows out)"
  obtains l reporting tok where "l \<in> set lines" "normalize_currency_code babel rep = Inr reporting"
    "row_of_line (resolve_fx_rate babel t mode db) l reporting tok row"
proof -
  let ?P = "\<lambda>reporting row. \<exists>l \<in> set lines. \<exists>tok. row_of_line (resolve_fx_rate babel t mode db) l reporting tok row"
  from assms(1) obtain reporting st where n: "normalize_currency_code babel rep = Inr reporting"
    and fold: "foldE (schedule_step sha babel t db contracts lines reporting mode) ([], []) allocations = Inr st"
    and rows: "go_rows out = sequence_rows (\<lambda>_. 0) (sort_key row_order (snd st))"
    by (auto simp: generate_schedule_rows_def schedule_step_def result_simps)
  have "\<forall>row \<in> set (snd st). ?P reporting row"
  proof (rule foldE_invariant [OF fold])
    fix s a s'
    assume "\<forall>row \<in> set (snd s). ?P reporting row" "schedule_step sha babel t db contracts lines reporting mode s a = Inr s'"
    note h = this
    show "\<forall>row \<in> set (snd s'). ?P reporting row"
    proof (rule schedule_step_rows [OF h(2)])
      fix contract tok rows
      assume "generate_allocation (resolve_fx_rate babel t mode db) reporting tok contract lines a = Inr rows"
        and "snd s' = snd s @ rows"
      then show ?thesis using h(1) generate_allocation_rows by auto blast
    qed
  qed simp
  moreover obtain m r where "r \<in> set (snd st)" "row = r\<lparr>gs_period_seq := m\<rparr>"
    using sequence_rows_set assms(2) unfolding rows by (metis set_sort)
  ultimately obtain l tok where "l \<in> set lines" "row_of_line (resolve_fx_rate babel t mode db) l reporting tok row"
    by (auto simp: row_of_line_def)
  then show thesis using that n by blast
qed

text \<open>Every row is translated at the rate of its own recognition date: its reported amount
  is its base amount times the rate the resolver gives for the line's currency on that day,
  and for a line in the reporting currency it is the base amount itself.\<close>

theorem rows_priced_at_their_date:
  assumes "generate_schedule_rows sha babel t db contracts lines allocations rep mode = Inr out"
    and "row \<in> set (go_rows out)"
  shows "\<exists>l \<in> set lines. rl_line_item_id l = gs_contract_line_item_id row
    \<and> (\<exists>reporting. normalize_currency_code babel rep = Inr reporting
        \<and> resolve_fx_rate babel t mode db (rl_line_currency l) reporting (gs_recognition_date row)
            = Inr (gs_fx_rate_used row)
        \<and> quantize_persisted_amount (dmul (gs_base_amount row) (gs_fx_rate_used row)) = Inr (gs_recognized_amount row)
        \<and> (rl_line_currency l = reporting \<longrightarrow> gs_recognized_amount row = gs_base_amount row))"
proof (rule schedule_rows_of_lines [OF assms])
  fix l reporting tok
  assume l: "l \<in> set lines" and n: "normalize_currency_code babel rep = Inr reporting"
    and r: "row_of_line (resolve_fx_rate babel t mode db) l reporting tok row"
  have "gs_recognized_amount row = gs_base_amount row" if "rl_line_currency l = reporting"
    using r that
    by (intro revenue_rates.translate_same [where c = reporting and d = "gs_recognition_date row"
        and babel = babel and tenant_id = t and mode = mode and db = db])
      (auto simp: revenue_rates.translate_def row_of_line_def)
  then show ?thesis using l n r by (auto simp: row_of_line_def)
qed

lemma rows_priced_at_their_date_witness:
  "\<exists>out. generate_schedule_rows (\<lambda>s. s) None 2 ex_fx_db [ex_contract] [ex_line 21 11, ex_line 22 12] ex_allocations
       ''USD'' daily = Inr out \<and>
     (\<forall>row \<in> set (go_rows out). \<exists>l \<in> set [ex_line 21 11, ex_line 22 12]. rl_line_item_id l = gs_contract_line_item_id row)"
  using ex_schedule rows_priced_at_their_date by meson

end
