(* ===== verification/Lease_Schedule.thy ===== *)
theory Lease_Schedule
  imports Revenue_Schedule
begin

text \<open>
  The computing core of the lease engine (\<open>services/lease\<close>): present value
  (\<open>pv_calculator.py\<close>), period interest (\<open>interest_engine.py\<close>), the payment timeline
  (\<open>payment_schedule.py\<close>), the liability schedule (\<open>liability_schedule.py\<close>) and the
  right-of-use schedule (\<open>rou_schedule.py\<close>).  The lemmas show that the liability rolls
  forward exactly, that it ends within a bound of zero that is made of roundings alone,
  and that the right-of-use asset is amortised in full.
\<close>

section \<open>Registered leases and payments\<close>

record registered_lease =
  le_lease_id :: uuid
  le_lease_number :: string
  le_lease_currency :: string
  le_commencement_date :: date
  le_end_date :: date
  le_payment_frequency :: string
  le_initial_discount_rate :: rat
  le_source_lease_reference :: string

record registered_lease_payment =
  lp_payment_id :: uuid
  lp_lease_id :: uuid
  lp_lease_number :: string
  lp_payment_date :: date
  lp_payment_amount :: rat
  lp_payment_type :: string
  lp_payment_sequence :: int
  lp_source_lease_reference :: string

text \<open>\<open>sorted\<close> over the lease's payments; the two checks of the loop compare neighbours.\<close>

fun timeline_in_order :: "registered_lease_payment list \<Rightarrow> unit result" where
  "timeline_in_order (previous # current # rest) =
     bindE (raise_if (lp_payment_sequence current < lp_payment_sequence previous)
       (ValidationError ''Lease payment timeline sequence regression detected'')) (\<lambda>_.
     bindE (raise_if (lp_payment_sequence current = lp_payment_sequence previous
              \<and> lp_payment_date current < lp_payment_date previous)
       (ValidationError ''Lease payment timeline date regression detected'')) (\<lambda>_.
     timeline_in_order (current # rest)))"
| "timeline_in_order _ = Inr ()"

definition timeline_order :: "registered_lease_payment \<Rightarrow> int \<times> date \<times> uuid" where
  "timeline_order item = (lp_payment_sequence item, lp_payment_date item, lp_payment_id item)"

definition build_payment_timeline :: "uuid \<Rightarrow> registered_lease_payment list \<Rightarrow> registered_lease_payment list result" where
  "build_payment_timeline lease_id payments =
     (let timeline = sort_key timeline_order (filter (\<lambda>item. lp_lease_id item = lease_id) payments) in
      bindE (timeline_in_order timeline) (\<lambda>_. Inr timeline))"

section \<open>Present value and interest\<close>

definition periods_per_year :: "string \<Rightarrow> nat result" where
  "periods_per_year payment_frequency =
     (case map_of [(''monthly'', 12), (''quarterly'', 4), (''annual'', 1), (''custom'', 12)] (py_lower payment_frequency) of
        None \<Rightarrow> Inl (ValidationError ''Unsupported lease payment frequency'')
      | Some periods \<Rightarrow> Inr periods)"

text \<open>\<open>Decimal ** int\<close>: the power, rounded to the context's precision.  Python documents its result as almost always correctly
  rounded; the model takes it to be so always.\<close>

definition dpow :: "rat \<Rightarrow> nat \<Rightarrow> rat" where
  "dpow x n = dec_round prec (x ^ n)"

record present_value_result =
  pv_lease_id :: uuid
  pv_payment_count :: nat
  pv_discount_rate_per_period :: rat
  pv_lease_currency :: rat
  pv_reporting_currency :: rat

text \<open>The loop over the payments: \<open>idx\<close> counts from one.\<close>

fun discounted_sum :: "rat \<Rightarrow> nat \<Rightarrow> rat \<Rightarrow> registered_lease_payment list \<Rightarrow> rat result" where
  "discounted_sum period_rate idx present_value [] = Inr present_value"
| "discounted_sum period_rate idx present_value (payment # payments) =
     (let denominator = dpow (dadd 1 period_rate) idx in
      bindE (raise_if (denominator = 0)
        (ValidationError ''Invalid discount denominator in present value calculation'')) (\<lambda>_.
      bindE (ddiv (lp_payment_amount payment) denominator) (\<lambda>discounted.
      discounted_sum period_rate (idx + 1) (dadd present_value discounted) payments)))"

definition calculate_present_value :: "uuid \<Rightarrow> registered_lease_payment list \<Rightarrow> rat \<Rightarrow> string \<Rightarrow> rat \<Rightarrow> present_value_result result" where
  "calculate_present_value lease_id payments annual_discount_rate payment_frequency conversion_rate =
     (if payments = [] then
        Inr \<lparr>pv_lease_id = lease_id, pv_payment_count = 0, pv_discount_rate_per_period = 0, pv_lease_currency = 0,
             pv_reporting_currency = 0\<rparr>
      else
        bindE (periods_per_year payment_frequency) (\<lambda>periods.
        bindE (quantize_rate annual_discount_rate) (\<lambda>discount_rate.
        bindE (ddiv discount_rate (of_nat periods)) (\<lambda>x.
        bindE (quantize_rate x) (\<lambda>period_rate.
        bindE (discounted_sum period_rate 1 0 payments) (\<lambda>present_value.
        bindE (quantize_persisted_amount present_value) (\<lambda>pv_lease_quantized.
        bindE (quantize_rate conversion_rate) (\<lambda>rate.
        bindE (quantize_persisted_amount (dmul pv_lease_quantized rate)) (\<lambda>pv_reporting.
        Inr \<lparr>pv_lease_id = lease_id, pv_payment_count = length payments, pv_discount_rate_per_period = period_rate,
             pv_lease_currency = pv_lease_quantized, pv_reporting_currency = pv_reporting\<rparr>)))))))))"

definition compute_period_interest :: "rat \<Rightarrow> rat \<Rightarrow> string \<Rightarrow> rat result" where
  "compute_period_interest opening annual_discount_rate payment_frequency =
     bindE (periods_per_year payment_frequency) (\<lambda>periods.
     bindE (ddiv annual_discount_rate (of_nat periods)) (\<lambda>x.
     bindE (quantize_rate x) (\<lambda>period_rate.
     quantize_persisted_amount (dmul opening period_rate))))"

section \<open>The liability schedule\<close>

definition resolve_lease_fx_rate :: "string list option \<Rightarrow> uuid \<Rightarrow> rate_mode \<Rightarrow> fx_db \<Rightarrow> string \<Rightarrow> string \<Rightarrow> date
    \<Rightarrow> rat result" where
  "resolve_lease_fx_rate babel tenant_id rate_mode db lease_currency reporting_currency schedule_date =
     bindE (normalize_currency_code babel lease_currency) (\<lambda>base.
     bindE (normalize_currency_code babel reporting_currency) (\<lambda>quote.
     if base = quote then Inr 1
     else if rate_mode = month_end_locked then
       (let month_end_date = month_end schedule_date in
        bindE (list_manual_monthly_rates babel tenant_id (Some (dt_year month_end_date)) (Some (dt_month month_end_date))
                 (Some base) (Some quote) 100 0 db) (\<lambda>rows.
        bindE (raise_if (\<not> list_ex (\<lambda>row. fm_is_month_end_locked (row_values row)) rows)
                (AccountingValidationError ''MISSING_LOCKED_RATE'' ''Missing locked month-end selected rate'')) (\<lambda>_.
        bindE (resolve_selected_rate babel False tenant_id base quote month_end_date db) (\<lambda>decision.
        quantize_rate (sd_selected_rate decision)))))
     else
       bindE (resolve_selected_rate babel False tenant_id base quote schedule_date db) (\<lambda>decision.
       quantize_rate (sd_selected_rate decision))))"

text \<open>It is the resolver of the revenue engine, so it is a rate source too.\<close>

lemma resolve_lease_fx_rate_eq: "resolve_lease_fx_rate = resolve_fx_rate"
  by (intro ext) (simp add: resolve_lease_fx_rate_def resolve_fx_rate_def)

interpretation lease_rates: rate_source "resolve_lease_fx_rate babel tenant_id mode db"
  unfolding resolve_lease_fx_rate_eq by unfold_locales (rule resolve_fx_rate_same resolve_fx_rate_money; assumption)+

definition build_lease_version_token :: "sha \<Rightarrow> uuid \<Rightarrow> json \<Rightarrow> string \<Rightarrow> string \<Rightarrow> string \<Rightarrow> string" where
  "build_lease_version_token sha lease_id modification_payload_normalized reporting_currency rate_mode
      prior_version_token_or_root =
     sha (canonical_json_dumps (JDict
       [(''lease_id'', JStr (uuid_text lease_id)),
        (''modification_payload_normalized'', modification_payload_normalized),
        (''reporting_currency'', JStr reporting_currency),
        (''rate_mode'', JStr rate_mode),
        (''prior_version_token_or_root'', JStr prior_version_token_or_root)]))"

record liability_row =
  lr_lease_id :: uuid
  lr_payment_id :: "uuid option"
  lr_period_seq :: nat
  lr_schedule_date :: date
  lr_period_year :: int
  lr_period_month :: int
  lr_opening :: rat
  lr_interest :: rat
  lr_payment :: rat
  lr_closing :: rat
  lr_schedule_version_token :: string
  lr_fx_rate_used :: rat
  lr_source_lease_reference :: string
  lr_parent_reference_id :: uuid
  lr_source_reference_id :: uuid

text \<open>The inner loop: one row per payment, opened by what the previous row left.\<close>

fun liability_rows :: "(string \<Rightarrow> string \<Rightarrow> date \<Rightarrow> rat result) \<Rightarrow> registered_lease \<Rightarrow> string \<Rightarrow> string \<Rightarrow> nat \<Rightarrow> rat
    \<Rightarrow> registered_lease_payment list \<Rightarrow> liability_row list result" where
  "liability_rows rate_for lease reporting root_token index opening [] = Inr []"
| "liability_rows rate_for lease reporting root_token index opening (payment # payments) =
     bindE (rate_for (le_lease_currency lease) reporting (lp_payment_date payment)) (\<lambda>fx_rate.
     bindE (compute_period_interest opening (le_initial_discount_rate lease) (le_payment_frequency lease)) (\<lambda>interest_amount.
     bindE (quantize_persisted_amount (dmul (lp_payment_amount payment) fx_rate)) (\<lambda>payment_reporting.
     bindE (quantize_persisted_amount (dsub (dadd opening interest_amount) payment_reporting)) (\<lambda>closing.
     bindE (liability_rows rate_for lease reporting root_token (index + 1) closing payments) (\<lambda>rows.
     Inr (\<lparr>lr_lease_id = le_lease_id lease, lr_payment_id = Some (lp_payment_id payment), lr_period_seq = index,
           lr_schedule_date = lp_payment_date payment, lr_period_year = dt_year (lp_payment_date payment),
           lr_period_month = dt_month (lp_payment_date payment), lr_opening = opening, lr_interest = interest_amount,
           lr_payment = payment_reporting, lr_closing = closing, lr_schedule_version_token = root_token,
           lr_fx_rate_used = fx_rate, lr_source_lease_reference = le_source_lease_reference lease,
           lr_parent_reference_id = le_lease_id lease, lr_source_reference_id = lp_payment_id payment\<rparr> # rows))))))"

text \<open>A lease without payments has one row that holds its opening.\<close>

definition empty_lease_row :: "registered_lease \<Rightarrow> string \<Rightarrow> rat \<Rightarrow> rat \<Rightarrow> liability_row" where
  "empty_lease_row lease root_token opening commencement_rate =
     \<lparr>lr_lease_id = le_lease_id lease, lr_payment_id = None, lr_period_seq = 1,
      lr_schedule_date = le_commencement_date lease, lr_period_year = dt_year (le_commencement_date lease),
      lr_period_month = dt_month (le_commencement_date lease), lr_opening = opening, lr_interest = 0, lr_payment = 0,
      lr_closing = opening, lr_schedule_version_token = root_token, lr_fx_rate_used = commencement_rate,
      lr_source_lease_reference = le_source_lease_reference lease, lr_parent_reference_id = le_lease_id lease,
      lr_source_reference_id = le_lease_id lease\<rparr>"

definition generate_lease :: "sha \<Rightarrow> (string \<Rightarrow> string \<Rightarrow> date \<Rightarrow> rat result) \<Rightarrow> string \<Rightarrow> rate_mode
    \<Rightarrow> registered_lease_payment list \<Rightarrow> registered_lease \<Rightarrow> (string \<times> present_value_result \<times> liability_row list) result" where
  "generate_lease sha rate_for reporting_currency rate_mode payments lease =
     (let root_token = build_lease_version_token sha (le_lease_id lease) (JDict [(''kind'', JStr ''root'')])
            reporting_currency (rate_mode_value rate_mode) ''root'' in
      bindE (build_payment_timeline (le_lease_id lease) payments) (\<lambda>timeline.
      bindE (rate_for (le_lease_currency lease) reporting_currency (le_commencement_date lease)) (\<lambda>commencement_rate.
      bindE (calculate_present_value (le_lease_id lease) timeline (le_initial_discount_rate lease)
               (le_payment_frequency lease) commencement_rate) (\<lambda>pv_result.
      let opening = pv_reporting_currency pv_result in
      bindE (if timeline = [] then Inr [empty_lease_row lease root_token opening commencement_rate]
             else liability_rows rate_for lease reporting_currency root_token 1 opening timeline) (\<lambda>rows.
      Inr (root_token, pv_result, rows))))))"

record liability_output =
  lg_rows :: "liability_row list"
  lg_present_values :: "(uuid \<times> present_value_result) list"
  lg_root_schedule_version_tokens :: "(uuid \<times> string) list"

definition liability_order :: "liability_row \<Rightarrow> uuid \<times> date \<times> uuid" where
  "liability_order item = (lr_lease_id item, lr_schedule_date item, lr_source_reference_id item)"

definition generate_liability_schedule_rows :: "sha \<Rightarrow> string list option \<Rightarrow> uuid \<Rightarrow> fx_db \<Rightarrow> registered_lease list
    \<Rightarrow> registered_lease_payment list \<Rightarrow> string \<Rightarrow> rate_mode \<Rightarrow> liability_output result" where
  "generate_liability_schedule_rows sha babel tenant_id db leases payments reporting_currency rate_mode =
     bindE (mapE (\<lambda>lease. bindE (generate_lease sha (resolve_lease_fx_rate babel tenant_id rate_mode db)
                reporting_currency rate_mode payments lease) (\<lambda>x. Inr (le_lease_id lease, x)))
              (sort_key le_lease_number leases)) (\<lambda>outs.
     Inr \<lparr>lg_rows = sort_key liability_order (concat (map (\<lambda>(_, _, _, rows). rows) outs)),
          lg_present_values = py_dict (map (\<lambda>(i, _, pv, _). (i, pv)) outs),
          lg_root_schedule_version_tokens = py_dict (map (\<lambda>(i, token, _). (i, token)) outs)\<rparr>)"

section \<open>The right-of-use schedule\<close>

record rou_row =
  ru_lease_id :: uuid
  ru_period_seq :: nat
  ru_schedule_date :: date
  ru_period_year :: int
  ru_period_month :: int
  ru_opening :: rat
  ru_amortization :: rat
  ru_impairment :: rat
  ru_closing :: rat
  ru_schedule_version_token :: string
  ru_fx_rate_used :: rat
  ru_source_lease_reference :: string
  ru_parent_reference_id :: uuid
  ru_source_reference_id :: uuid

text \<open>\<open>impairment_lookup.get(lease, {}).get(day, 0)\<close>; the remaining periods of a row are the
  rows from it to the last.\<close>

definition impairment_on :: "(uuid \<times> (date \<times> rat) list) list \<Rightarrow> uuid \<Rightarrow> date \<Rightarrow> rat" where
  "impairment_on impairments_by_lease lease_id day =
     (case map_of impairments_by_lease lease_id of
        None \<Rightarrow> 0
      | Some by_date \<Rightarrow> (case map_of by_date day of None \<Rightarrow> 0 | Some amount \<Rightarrow> amount))"

fun rou_rows :: "(uuid \<times> (date \<times> rat) list) list \<Rightarrow> registered_lease \<Rightarrow> rat \<Rightarrow> liability_row list \<Rightarrow> rou_row list result" where
  "rou_rows impairments lease opening [] = Inr []"
| "rou_rows impairments lease opening (liability # rest) =
     bindE (ddiv opening (of_nat (length (liability # rest)))) (\<lambda>share.
     bindE (quantize_persisted_amount share) (\<lambda>amortization.
     bindE (quantize_persisted_amount (impairment_on impairments (le_lease_id lease) (lr_schedule_date liability))) (\<lambda>impairment.
     bindE (quantize_persisted_amount (dsub (dsub opening amortization) impairment)) (\<lambda>closing.
     bindE (rou_rows impairments lease closing rest) (\<lambda>rows.
     Inr (\<lparr>ru_lease_id = le_lease_id lease, ru_period_seq = lr_period_seq liability,
           ru_schedule_date = lr_schedule_date liability, ru_period_year = lr_period_year liability,
           ru_period_month = lr_period_month liability, ru_opening = opening, ru_amortization = amortization,
           ru_impairment = impairment, ru_closing = closing,
           ru_schedule_version_token = lr_schedule_version_token liability, ru_fx_rate_used = lr_fx_rate_used liability,
           ru_source_lease_reference = le_source_lease_reference lease, ru_parent_reference_id = le_lease_id lease,
           ru_source_reference_id = lr_source_reference_id liability\<rparr> # rows))))))"

definition rows_for_lease :: "liability_row list \<Rightarrow> registered_lease \<Rightarrow> liability_row list" where
  "rows_for_lease rows lease = sort_key (\<lambda>row. (lr_schedule_date row, lr_source_reference_id row))
     (filter (\<lambda>row. lr_lease_id row = le_lease_id lease) rows)"

definition rou_for_lease :: "(uuid \<times> (date \<times> rat) list) list \<Rightarrow> liability_row list \<Rightarrow> registered_lease \<Rightarrow> rou_row list result" where
  "rou_for_lease impairments liability lease =
     (case rows_for_lease liability lease of
        [] \<Rightarrow> Inr []
      | first # rest \<Rightarrow> rou_rows impairments lease (lr_opening first) (first # rest))"

definition generate_rou_schedule_rows :: "registered_lease list \<Rightarrow> liability_row list \<Rightarrow> (uuid \<times> (date \<times> rat) list) list
    \<Rightarrow> rou_row list result" where
  "generate_rou_schedule_rows leases liability impairments_by_lease =
     bindE (mapE (rou_for_lease impairments_by_lease liability) (sort_key le_lease_number leases)) (\<lambda>rows.
     Inr (sort_key (\<lambda>item. (ru_lease_id item, ru_schedule_date item, ru_source_reference_id item)) (concat rows)))"

section \<open>The timeline's checks never fire\<close>

lemma timeline_in_order_sorted: "sorted (map timeline_order xs) \<Longrightarrow> timeline_in_order xs = Inr ()"
proof (induction xs rule: timeline_in_order.induct)
  case (1 previous current rest)
  then have o: "timeline_order previous \<le> timeline_order current" by simp
  have "\<not> lp_payment_sequence current < lp_payment_sequence previous"
    and "\<not> (lp_payment_sequence current = lp_payment_sequence previous \<and> lp_payment_date current < lp_payment_date previous)"
    using o by (auto simp: timeline_order_def less_eq_prod_def)
  then have "raise_if (lp_payment_sequence current < lp_payment_sequence previous)
      (ValidationError ''Lease payment timeline sequence regression detected'') = Inr ()"
    and "raise_if (lp_payment_sequence current = lp_payment_sequence previous \<and> lp_payment_date current < lp_payment_date previous)
      (ValidationError ''Lease payment timeline date regression detected'') = Inr ()"
    by (simp_all add: raise_if_def)
  then show ?case using 1 by simp
qed simp_all

lemma build_payment_timeline_eq:
  "build_payment_timeline lease_id payments = Inr (sort_key timeline_order (filter (\<lambda>item. lp_lease_id item = lease_id) payments))"
  by (simp add: build_payment_timeline_def timeline_in_order_sorted)

section \<open>The liability rolls forward\<close>

text \<open>Amounts that fit their columns.\<close>

definition liability_fits :: "liability_row \<Rightarrow> bool" where
  "liability_fits row \<longleftrightarrow> \<bar>lr_opening row\<bar> < 10 ^ 14 \<and> \<bar>lr_interest row\<bar> < 10 ^ 14
     \<and> \<bar>lr_payment row\<bar> < 10 ^ 14 \<and> \<bar>lr_closing row\<bar> < 10 ^ 14"

fun rolls_forward :: "rat \<Rightarrow> liability_row list \<Rightarrow> bool" where
  "rolls_forward bal [] \<longleftrightarrow> True"
| "rolls_forward bal (row # rows) \<longleftrightarrow> lr_opening row = bal
     \<and> lr_closing row = lr_opening row + lr_interest row - lr_payment row \<and> rolls_forward (lr_closing row) rows"

lemma liability_rows_Cons:
  assumes "liability_rows rf lease rep tok k bal (p # ps) = Inr rows"
  obtains row rest fx where "rows = row # rest" and "rf (le_lease_currency lease) rep (lp_payment_date p) = Inr fx"
    and "compute_period_interest bal (le_initial_discount_rate lease) (le_payment_frequency lease) = Inr (lr_interest row)"
    and "quantize_persisted_amount (dmul (lp_payment_amount p) fx) = Inr (lr_payment row)"
    and "quantize_persisted_amount (dsub (dadd bal (lr_interest row)) (lr_payment row)) = Inr (lr_closing row)"
    and "liability_rows rf lease rep tok (k + 1) (lr_closing row) ps = Inr rest"
    and "lr_opening row = bal" and "lr_period_seq row = k" and "lr_lease_id row = le_lease_id lease"
    and "lr_schedule_date row = lp_payment_date p" and "lr_payment_id row = Some (lp_payment_id p)"
  using assms by (fastforce simp: result_simps)

lemma interest_money: "compute_period_interest bal rate freq = Inr i \<Longrightarrow> money i"
  by (auto simp: compute_period_interest_def result_simps dest: quantize_money)

lemma closing_exact:
  assumes "quantize_persisted_amount (dsub (dadd a b) c) = Inr z" and "money a" "money b" "money c"
    and "\<bar>a\<bar> < 10 ^ 14" "\<bar>b\<bar> < 10 ^ 14"
  shows "z = a + b - c"
proof -
  have "\<bar>a + b\<bar> < 10 ^ 22" using assms(5,6) by (simp add: abs_less_iff)
  then have "dadd a b = a + b" using assms(2,3) by (intro dadd_exact) (auto dest: money_micro)
  moreover have "money (a + b)" using assms(2,3) \<open>\<bar>a + b\<bar> < 10 ^ 22\<close> by (auto simp: money_def)
  ultimately show ?thesis using quantize_dsub [of "a + b" c z] assms(1,4) by simp
qed

lemma liability_rows_roll:
  "liability_rows rf lease rep tok k bal ps = Inr rows \<Longrightarrow> money bal \<Longrightarrow> \<forall>row \<in> set rows. liability_fits row \<Longrightarrow>
     rolls_forward bal rows"
proof (induction ps arbitrary: k bal rows)
  case (Cons p ps)
  from Cons.prems(1) show ?case
  proof (rule liability_rows_Cons)
    fix row rest fx
    assume r: "rows = row # rest"
      and i: "compute_period_interest bal (le_initial_discount_rate lease) (le_payment_frequency lease) = Inr (lr_interest row)"
      and p: "quantize_persisted_amount (dmul (lp_payment_amount p) fx) = Inr (lr_payment row)"
      and c: "quantize_persisted_amount (dsub (dadd bal (lr_interest row)) (lr_payment row)) = Inr (lr_closing row)"
      and rest: "liability_rows rf lease rep tok (k + 1) (lr_closing row) ps = Inr rest" and o: "lr_opening row = bal"
    have "lr_closing row = bal + lr_interest row - lr_payment row"
      using Cons.prems(2,3) r o by (intro closing_exact [OF c _ interest_money [OF i] quantize_money [OF p]]) (auto simp: liability_fits_def)
    then show ?thesis using Cons.IH [OF rest quantize_money [OF c]] Cons.prems(3) r o by simp
  qed
qed simp

lemma liability_rows_fields:
  "liability_rows rf lease rep tok k bal ps = Inr rows \<Longrightarrow>
     map lr_period_seq rows = [k..<k + length ps] \<and> map lr_schedule_date rows = map lp_payment_date ps
     \<and> (\<forall>row \<in> set rows. lr_lease_id row = le_lease_id lease)"
proof (induction ps arbitrary: k bal rows)
  case (Cons p ps)
  from Cons.prems show ?case
    by (rule liability_rows_Cons) (use Cons.IH in \<open>fastforce simp: upt_conv_Cons simp del: upt_Suc\<close>)
qed simp

section \<open>Rounding in the present value\<close>

text \<open>The relative error of one operation of the 28-digit context.\<close>

definition ulp :: rat where
  "ulp = 1 / (2 * 10 ^ 27)"

lemma ulp_bounds: "0 \<le> ulp" "0 < ulp" "4 * ulp \<le> 1" "ulp \<le> 1 / 2"
  by (simp_all add: ulp_def)

lemma dec_round_rel: "\<bar>dec_round prec x - x\<bar> \<le> ulp * \<bar>x\<bar>"
proof -
  have "\<bar>dec_round prec x - x\<bar> \<le> \<bar>x\<bar> * 10 powi (1 - int prec) / 2" by (rule dec_round_err) simp
  also have "\<dots> = ulp * \<bar>x\<bar>" by (simp add: ulp_def prec_def power_int_def field_simps)
  finally show ?thesis .
qed

text \<open>Dividing by a rounded power: two roundings, so less than four units.\<close>

lemma discounted_rel:
  assumes "0 \<le> a" and "1 \<le> b"
  shows "\<bar>dec_round prec (a / dpow b n) - a / b ^ n\<bar> \<le> 4 * ulp * (a / b ^ n)" and "0 < dpow b n"
proof -
  define B where "B = b ^ n"
  define D where "D = dpow b n"
  define e where "e = a / B"
  have B: "1 \<le> B" unfolding B_def using assms(2) by (rule one_le_power)
  have D: "\<bar>D - B\<bar> \<le> ulp * B" using dec_round_rel [of "b ^ n"] B by (simp add: D_def dpow_def B_def)
  then have lo: "B * (1 - ulp) \<le> D" and hi: "D \<le> B * (1 + ulp)" by (auto simp: algebra_simps abs_le_iff)
  have "0 < B * (1 - ulp)" using B ulp_bounds(4) by simp
  with lo have D0: "0 < D" by linarith
  then show "0 < dpow b n" by (simp add: D_def)
  have e0: "0 \<le> e" using assms(1) B by (simp add: e_def)
  have q: "a / D = e * (B / D)" using B by (simp add: e_def)
  have "B \<le> (1 + 2 * ulp) * D"
  proof -
    have "1 * B \<le> ((1 + 2 * ulp) * (1 - ulp)) * B"
      using B ulp_bounds by (intro mult_right_mono) (auto simp: ulp_def)
    also have "\<dots> = (1 + 2 * ulp) * (B * (1 - ulp))" by (simp add: algebra_simps)
    also have "\<dots> \<le> (1 + 2 * ulp) * D" using lo ulp_bounds(1) by (intro mult_left_mono) auto
    finally show ?thesis by simp
  qed
  then have r1: "B / D \<le> 1 + 2 * ulp" using D0 by (simp add: field_simps)
  have "(1 - ulp) * D \<le> (1 - ulp) * (B * (1 + ulp))" using hi ulp_bounds(4) by (intro mult_left_mono) auto
  also have "\<dots> = B * ((1 - ulp) * (1 + ulp))" by (simp add: algebra_simps)
  also have "\<dots> \<le> B * 1" using B by (intro mult_left_mono) (auto simp: ulp_def)
  finally have r2: "1 - ulp \<le> B / D" using D0 by (simp add: field_simps)
  have "e * (B / D) \<le> e * (1 + 2 * ulp)" "e * (1 - ulp) \<le> e * (B / D)"
    by (rule mult_left_mono [OF r1 e0], rule mult_left_mono [OF r2 e0])
  then have "a / D \<le> e + 2 * (ulp * e)" "e - ulp * e \<le> a / D" unfolding q by (simp_all add: algebra_simps)
  moreover have "0 \<le> ulp * e" "2 * (ulp * e) \<le> e" using e0 ulp_bounds(1) by (simp, simp add: ulp_def)
  ultimately have q1: "\<bar>a / D - e\<bar> \<le> 2 * ulp * e" and q2: "a / D \<le> 2 * e" by (simp_all add: abs_le_iff)
  have q0: "0 \<le> a / D" using assms(1) D0 by simp
  have "\<bar>dec_round prec (a / D) - a / D\<bar> \<le> ulp * (a / D)" using dec_round_rel [of "a / D"] unfolding abs_of_nonneg [OF q0] .
  also have "\<dots> \<le> ulp * (2 * e)" using q2 ulp_bounds(1) by (rule mult_left_mono)
  finally have "\<bar>dec_round prec (a / D) - e\<bar> \<le> 4 * ulp * e" using q1 by (simp add: abs_le_iff algebra_simps)
  then show "\<bar>dec_round prec (a / dpow b n) - a / b ^ n\<bar> \<le> 4 * ulp * (a / b ^ n)"
    by (simp add: D_def e_def B_def)
qed

text \<open>The value without rounding, one period before the first payment.\<close>

fun exact_value :: "rat \<Rightarrow> nat \<Rightarrow> registered_lease_payment list \<Rightarrow> rat" where
  "exact_value r idx [] = 0"
| "exact_value r idx (p # ps) = lp_payment_amount p / (1 + r) ^ idx + exact_value r (idx + 1) ps"

lemma exact_value_shift: "0 \<le> r \<Longrightarrow> exact_value r (idx + 1) ps * (1 + r) = exact_value r idx ps"
proof (induction ps arbitrary: idx)
  case (Cons p ps)
  have "x / b ^ (idx + 1) * b = x / b ^ idx" if "b \<noteq> 0" for x b :: rat
    using that by (simp add: field_simps)
  from this [of "1 + r" "lp_payment_amount p"] show ?case using Cons.IH [OF Cons.prems, of "idx + 1"] Cons.prems by (simp only: exact_value.simps distrib_right)
qed simp

lemma discounted_sum_err:
  assumes "discounted_sum r idx s ps = Inr t" and r: "dadd 1 r = 1 + r" "0 \<le> r"
    and "\<forall>p \<in> set ps. 0 \<le> lp_payment_amount p" and "0 \<le> A" "A \<le> T"
    and "\<bar>s - A\<bar> \<le> 6 * ulp * (of_nat j * T)" and "6 * ulp * of_nat (j + length ps) \<le> 1"
  shows "\<bar>t - (A + exact_value r idx ps)\<bar>
    \<le> 6 * ulp * (of_nat (j + length ps) * (T + sum_list (map lp_payment_amount ps)))"
  using assms
proof (induction ps arbitrary: idx s A T j)
  case (Cons p ps)
  define x where "x = lp_payment_amount p"
  define e where "e = x / (1 + r) ^ idx"
  define d where "d = dec_round prec (x / dpow (1 + r) idx)"
  have x: "0 \<le> x" using Cons.prems(4) by (simp add: x_def)
  have b: "1 \<le> 1 + r" using r(2) by simp
  have ex: "0 \<le> e" "e \<le> x" using x one_le_power [OF b, of idx] by (auto simp: e_def divide_le_eq mult_left_le le_divide_eq mult_le_cancel_left1)
  have d: "\<bar>d - e\<bar> \<le> 4 * ulp * e" and pos: "0 < dpow (1 + r) idx"
    using discounted_rel [OF x b, of idx] by (simp_all add: d_def e_def)
  have rest: "discounted_sum r (idx + 1) (dadd s d) ps = Inr t"
    using Cons.prems(1) pos by (auto simp: r result_simps ddiv_def d_def x_def Let_def)
  have T: "0 \<le> T" using Cons.prems(5,6) by simp
  have "6 * ulp * of_nat j \<le> 6 * ulp * of_nat (j + length (p # ps))" using ulp_bounds(1) by (intro mult_left_mono) auto
  also have "\<dots> \<le> 1" by (rule Cons.prems(8))
  finally have "6 * ulp * of_nat j * T \<le> 1 * T" using T by (rule mult_right_mono)
  then have s: "\<bar>s\<bar> \<le> 2 * T" using Cons.prems(5-7) by (simp add: abs_le_iff algebra_simps)
  have "4 * ulp * e \<le> 1 * e" using ex(1) ulp_bounds(3) by (intro mult_right_mono)
  then have "\<bar>d\<bar> \<le> 2 * x" using d ex by (simp add: abs_le_iff)
  with s have "\<bar>s + d\<bar> \<le> 2 * (T + x)" by (simp add: abs_le_iff)
  then have "ulp * \<bar>s + d\<bar> \<le> ulp * (2 * (T + x))" using ulp_bounds(1) by (rule mult_left_mono)
  then have sd: "\<bar>dadd s d - (s + d)\<bar> \<le> 2 * ulp * (T + x)"
    using dec_round_rel [of "s + d"] by (simp add: dadd_def algebra_simps)
  have "4 * ulp * e \<le> 4 * ulp * x" using ex(2) ulp_bounds(1) by (intro mult_left_mono) auto
  then have "\<bar>dadd s d - (A + e)\<bar> \<le> 6 * ulp * (of_nat j * T) + 4 * ulp * x + 2 * ulp * (T + x)"
    using sd d Cons.prems(7) by (simp add: abs_le_iff algebra_simps)
  also have "\<dots> \<le> 6 * ulp * (of_nat (j + 1) * (T + x))"
  proof -
    have "0 \<le> ulp * (of_nat j * x)" "0 \<le> ulp * T" using ulp_bounds(1) x T by simp_all
    then show ?thesis by (simp add: algebra_simps)
  qed
  finally have err: "\<bar>dadd s d - (A + e)\<bar> \<le> 6 * ulp * (of_nat (j + 1) * (T + x))" .
  have "\<bar>t - (A + e + exact_value r (idx + 1) ps)\<bar>
      \<le> 6 * ulp * (of_nat (j + 1 + length ps) * (T + x + sum_list (map lp_payment_amount ps)))"
    using Cons.prems(4,5,6,8) ex x by (intro Cons.IH [OF rest r _ _ _ err]) (auto simp: add.assoc)
  then show ?case by (simp add: x_def e_def add.assoc)
qed simp

section \<open>The liability ends near zero\<close>

text \<open>What the schema and the columns guarantee of a lease and its payments.\<close>

definition lease_ok :: "registered_lease \<Rightarrow> bool" where
  "lease_ok lease \<longleftrightarrow> money (le_initial_discount_rate lease) \<and> 0 \<le> le_initial_discount_rate lease
     \<and> le_initial_discount_rate lease \<le> 1"

definition payments_ok :: "registered_lease_payment list \<Rightarrow> bool" where
  "payments_ok ps \<longleftrightarrow> (\<forall>p \<in> set ps. money (lp_payment_amount p) \<and> 0 \<le> lp_payment_amount p)"

definition period_rate :: "rat \<Rightarrow> string \<Rightarrow> rat result" where
  "period_rate annual freq =
     bindE (periods_per_year freq) (\<lambda>periods. bindE (ddiv annual (of_nat periods)) quantize_rate)"

lemma period_rate_bounds:
  assumes "period_rate annual freq = Inr r" and "0 \<le> annual" "annual \<le> 1"
  shows "money r" "0 \<le> r" "r \<le> 1"
proof -
  obtain n x where n: "periods_per_year freq = Inr n" and x: "ddiv annual (of_nat n) = Inr x" and r: "quantize_persisted_amount x = Inr r"
    using assms(1) by (auto simp: period_rate_def result_simps quantize_rate_eq)
  have x': "rat_of_nat n \<noteq> 0" "x = dec_round prec (annual / of_nat n)" using x by (auto simp: ddiv_Inr)
  then have "1 \<le> rat_of_nat n" by simp
  then have "annual / of_nat n \<le> 1" "0 \<le> annual / of_nat n" using assms(2,3) by (auto simp: divide_le_eq)
  then have "0 \<le> x" "x \<le> 1" using dec_round_mono [of "annual / of_nat n" 1 prec] by (simp_all add: x'(2) dec_round_nonneg)
  then show "money r" "0 \<le> r" "r \<le> 1" using quantize_money [OF r] quantize_nonneg [OF r] quantize_le [OF r] by simp_all
qed

lemma interest_eq:
  "compute_period_interest bal annual freq = bindE (period_rate annual freq) (\<lambda>r. quantize_persisted_amount (dmul bal r))"
  by (cases "periods_per_year freq"; cases "ddiv annual (of_nat (projr (periods_per_year freq)))")
    (simp_all add: compute_period_interest_def period_rate_def)

lemma dmul_small:
  assumes "micro a" "micro b" and "\<bar>a\<bar> < 10 ^ 14" "0 \<le> b" "b \<le> 1"
  shows "dmul a b = a * b"
proof -
  obtain k l where k: "a = of_int k / 10 ^ 6" and l: "b = of_int l / 10 ^ 6" using assms(1,2) by (auto simp: micro_iff)
  have "\<bar>rat_of_int k\<bar> < 10 ^ 20" using assms(3) by (simp add: k abs_less_iff field_simps)
  then have k': "\<bar>k\<bar> < 10 ^ 20" by (metis of_int_abs of_int_less_iff of_int_numeral of_int_power)
  have "0 \<le> rat_of_int l" "rat_of_int l \<le> 10 ^ 6" using assms(4,5) by (simp_all add: l field_simps)
  then have l': "0 \<le> l" "l \<le> 10 ^ 6" by (simp, metis of_int_le_iff of_int_numeral of_int_power)
  have "\<bar>k * l\<bar> \<le> 10 ^ 20 * 10 ^ 6" unfolding abs_mult using k' l' by (intro mult_mono) auto
  then have "\<bar>k * l\<bar> < 10 ^ prec" by (simp add: prec_def)
  moreover have "(10::rat) powi (- 12) = 1 / 10 ^ 12" by (simp add: power_int_minus inverse_eq_divide)
  then have "a * b = of_int (k * l) * 10 powi (- 12)" by (simp add: k l)
  ultimately show ?thesis unfolding dmul_def by (intro dec_round_exact)
qed

text \<open>Interest on a stored balance is rounded once.\<close>

lemma interest_err:
  assumes "compute_period_interest bal annual freq = Inr i" and "period_rate annual freq = Inr r" and "0 \<le> annual" "annual \<le> 1"
    and "money bal" "\<bar>bal\<bar> < 10 ^ 14"
  shows "\<bar>i - bal * r\<bar> \<le> 1 / (2 * 10 ^ 6)"
proof -
  note r = period_rate_bounds [OF assms(2-4)]
  have "dmul bal r = bal * r" using assms(5,6) r by (intro dmul_small) (auto dest: money_micro)
  then have "quantize_persisted_amount (bal * r) = Inr i" using assms(1,2) by (simp add: interest_eq)
  then show ?thesis by (rule quantize_err)
qed

fun last_closing :: "rat \<Rightarrow> liability_row list \<Rightarrow> rat" where
  "last_closing bal [] = bal"
| "last_closing bal (row # rows) = last_closing (lr_closing row) rows"

lemma last_closing_last: "rows \<noteq> [] \<Longrightarrow> last_closing bal rows = lr_closing (last rows)"
  by (induction rows arbitrary: bal) auto

text \<open>How far a balance off by \<open>x\<close> can end from zero after \<open>n\<close> periods.\<close>

definition drift :: "rat \<Rightarrow> rat \<Rightarrow> nat \<Rightarrow> rat" where
  "drift r x n = x * (1 + r) ^ n + 1 / (2 * 10 ^ 6) * (\<Sum>k<n. (1 + r) ^ k)"

lemma drift_Suc: "drift r x (Suc n) = drift r (x * (1 + r) + 1 / (2 * 10 ^ 6)) n"
  by (simp add: drift_def algebra_simps)

lemma liability_rows_drift:
  assumes "liability_rows rf lease (le_lease_currency lease) tok k bal ps = Inr rows" and "lease_ok lease"
    and "period_rate (le_initial_discount_rate lease) (le_payment_frequency lease) = Inr r"
    and same: "\<And>d x. rf (le_lease_currency lease) (le_lease_currency lease) d = Inr x \<Longrightarrow> x = 1"
    and "payments_ok ps" and "\<forall>row \<in> set rows. liability_fits row" and "money bal"
    and "\<bar>bal - exact_value r 1 ps\<bar> \<le> x"
  shows "\<bar>last_closing bal rows\<bar> \<le> drift r x (length ps)"
  using assms(1,5-8)
proof (induction ps arbitrary: k bal rows x)
  case Nil
  then show ?case by (simp add: drift_def)
next
  case (Cons p ps)
  have rate: "0 \<le> le_initial_discount_rate lease" "le_initial_discount_rate lease \<le> 1"
    using assms(2) by (simp_all add: lease_ok_def)
  note r = period_rate_bounds [OF assms(3) rate]
  from Cons.prems(1) obtain row rest fx where rows: "rows = row # rest"
    and fx: "rf (le_lease_currency lease) (le_lease_currency lease) (lp_payment_date p) = Inr fx"
    and i: "compute_period_interest bal (le_initial_discount_rate lease) (le_payment_frequency lease) = Inr (lr_interest row)"
    and pay: "quantize_persisted_amount (dmul (lp_payment_amount p) fx) = Inr (lr_payment row)"
    and c: "quantize_persisted_amount (dsub (dadd bal (lr_interest row)) (lr_payment row)) = Inr (lr_closing row)"
    and rest: "liability_rows rf lease (le_lease_currency lease) tok (k + 1) (lr_closing row) ps = Inr rest"
    and o: "lr_opening row = bal" by (rule liability_rows_Cons)
  have fits: "liability_fits row" using Cons.prems(3) rows by simp
  have p: "money (lp_payment_amount p)" using Cons.prems(2) by (simp add: payments_ok_def)
  have "dmul (lp_payment_amount p) 1 = lp_payment_amount p" using p by (simp add: dmul_def micro_dec_round money_def)
  then have pay': "lr_payment row = lp_payment_amount p" using pay same [OF fx] quantize_id [OF p] by simp
  have closing: "lr_closing row = bal + lr_interest row - lp_payment_amount p"
    using closing_exact [OF c Cons.prems(4) interest_money [OF i] quantize_money [OF pay]] fits o pay' by (simp add: liability_fits_def)
  have err: "\<bar>lr_interest row - bal * r\<bar> \<le> 1 / (2 * 10 ^ 6)"
    using fits o by (intro interest_err [OF i assms(3) rate Cons.prems(4)]) (simp add: liability_fits_def)
  have before: "exact_value r 1 ps = exact_value r 1 (p # ps) * (1 + r) - lp_payment_amount p"
    using exact_value_shift [OF r(2), of 1 ps] r(2) by (simp add: distrib_right)
  define v where "v = exact_value r 1 (p # ps)"
  have "\<bar>(bal - v) * (1 + r)\<bar> \<le> x * (1 + r)"
    using Cons.prems(5) r(2) by (simp add: abs_mult mult_right_mono v_def)
  moreover have "lr_closing row - exact_value r 1 ps = (bal - v) * (1 + r) + (lr_interest row - bal * r)"
    unfolding closing before v_def [symmetric] by (simp add: algebra_simps)
  ultimately have "\<bar>lr_closing row - exact_value r 1 ps\<bar> \<le> x * (1 + r) + 1 / (2 * 10 ^ 6)"
    using err by linarith
  then have "\<bar>last_closing (lr_closing row) rest\<bar> \<le> drift r (x * (1 + r) + 1 / (2 * 10 ^ 6)) (length ps)"
    using Cons.prems(2,3) rows quantize_money [OF c] by (intro Cons.IH [OF rest]) (simp_all add: payments_ok_def)
  then show ?case by (simp add: rows drift_Suc)
qed

lemma present_value_elim:
  assumes "calculate_present_value lease_id ps annual freq conversion = Inr pv" and "ps \<noteq> []" and "money annual"
  obtains r present where "period_rate annual freq = Inr r" and "discounted_sum r 1 0 ps = Inr present"
    and "pv_discount_rate_per_period pv = r" and "quantize_persisted_amount present = Inr (pv_lease_currency pv)"
    and "bindE (quantize_rate conversion) (\<lambda>rate. quantize_persisted_amount (dmul (pv_lease_currency pv) rate))
      = Inr (pv_reporting_currency pv)"
proof -
  have "quantize_rate annual = Inr annual" using assms(3) by (simp add: quantize_rate_eq quantize_id)
  then show thesis using assms(1,2) that by (auto simp: calculate_present_value_def period_rate_def result_simps)
qed

lemma present_value_err:
  assumes "calculate_present_value lease_id ps annual freq 1 = Inr pv" and "ps \<noteq> []"
    and a: "money annual" "0 \<le> annual" "annual \<le> 1" and "payments_ok ps" and "length ps \<le> 10 ^ 4"
  shows "period_rate annual freq = Inr (pv_discount_rate_per_period pv)" and "money (pv_reporting_currency pv)"
    and "\<bar>pv_reporting_currency pv - exact_value (pv_discount_rate_per_period pv) 1 ps\<bar>
      \<le> 1 / (2 * 10 ^ 6) + 3 / 10 ^ 27 * of_nat (length ps) * sum_list (map lp_payment_amount ps)"
proof -
  obtain r present where r: "period_rate annual freq = Inr r" and sum: "discounted_sum r 1 0 ps = Inr present"
    and pr: "pv_discount_rate_per_period pv = r" and q: "quantize_persisted_amount present = Inr (pv_lease_currency pv)"
    and rep: "bindE (quantize_rate 1) (\<lambda>rate. quantize_persisted_amount (dmul (pv_lease_currency pv) rate)) = Inr (pv_reporting_currency pv)"
    by (rule present_value_elim [OF assms(1,2) a(1)])
  note b = period_rate_bounds [OF r a(2,3)]
  show "period_rate annual freq = Inr (pv_discount_rate_per_period pv)" using r pr by simp
  have m: "money (pv_lease_currency pv)" by (rule quantize_money [OF q])
  then have "dmul (pv_lease_currency pv) 1 = pv_lease_currency pv" by (simp add: dmul_def micro_dec_round money_def)
  then have same: "pv_reporting_currency pv = pv_lease_currency pv"
    using rep quantize_id [OF m] quantize_id [OF money_1] by (simp add: quantize_rate_eq)
  then show "money (pv_reporting_currency pv)" using m by simp
  have "dadd 1 r = 1 + r" using b by (intro dadd_exact) (auto dest: money_micro simp: abs_less_iff)
  then have "\<bar>present - (0 + exact_value r 1 ps)\<bar>
      \<le> 6 * ulp * (of_nat (0 + length ps) * (0 + sum_list (map lp_payment_amount ps)))"
    using assms(6,7) b(2) by (intro discounted_sum_err [OF sum]) (auto simp: payments_ok_def ulp_def)
  moreover have "6 * ulp * (of_nat (0 + length ps) * (0 + sum_list (map lp_payment_amount ps)))
      = 3 / 10 ^ 27 * of_nat (length ps) * sum_list (map lp_payment_amount ps)" by (simp add: ulp_def)
  ultimately show "\<bar>pv_reporting_currency pv - exact_value (pv_discount_rate_per_period pv) 1 ps\<bar>
      \<le> 1 / (2 * 10 ^ 6) + 3 / 10 ^ 27 * of_nat (length ps) * sum_list (map lp_payment_amount ps)"
    using quantize_err [OF q] unfolding same pr by linarith
qed

lemma generate_lease_elim:
  assumes "generate_lease sha rf rep mode payments lease = Inr (tok, pv, rows)"
  obtains timeline rate where "timeline = sort_key timeline_order (filter (\<lambda>item. lp_lease_id item = le_lease_id lease) payments)"
    and "rf (le_lease_currency lease) rep (le_commencement_date lease) = Inr rate"
    and "calculate_present_value (le_lease_id lease) timeline (le_initial_discount_rate lease) (le_payment_frequency lease) rate = Inr pv"
    and "timeline = [] \<Longrightarrow> rows = [empty_lease_row lease tok (pv_reporting_currency pv) rate]"
    and "timeline \<noteq> [] \<Longrightarrow> liability_rows rf lease rep tok 1 (pv_reporting_currency pv) timeline = Inr rows"
  using assms by (auto simp: generate_lease_def build_payment_timeline_eq Let_def result_simps split: if_splits)

text \<open>(C26) A lease in the reporting currency whose payments are discounted and then rolled
  forward at the same period rate is paid off: its last balance differs from zero by the
  roundings alone, half a millionth per period and the 28-digit arithmetic of the present
  value, each grown at the period rate.\<close>

theorem liability_closes_near_zero:
  assumes gen: "generate_lease sha (resolve_lease_fx_rate babel t mode db) (le_lease_currency lease) mode payments lease
      = Inr (tok, pv, rows)"
    and "lease_ok lease" and "payments_ok payments" and "\<forall>row \<in> set rows. liability_fits row"
    and ps: "ps = filter (\<lambda>item. lp_lease_id item = le_lease_id lease) payments" "ps \<noteq> []" "length ps \<le> 10 ^ 4"
  shows "\<bar>lr_closing (last rows)\<bar> \<le> drift (pv_discount_rate_per_period pv)
      (1 / (2 * 10 ^ 6) + 3 / 10 ^ 27 * of_nat (length ps) * sum_list (map lp_payment_amount ps)) (length ps)"
proof -
  let ?tl = "sort_key timeline_order ps"
  obtain rate where rate: "resolve_lease_fx_rate babel t mode db (le_lease_currency lease) (le_lease_currency lease) (le_commencement_date lease) = Inr rate"
    and pv: "calculate_present_value (le_lease_id lease) ?tl (le_initial_discount_rate lease) (le_payment_frequency lease) rate = Inr pv"
    and rows: "liability_rows (resolve_lease_fx_rate babel t mode db) lease (le_lease_currency lease) tok 1 (pv_reporting_currency pv) ?tl = Inr rows"
    by (rule generate_lease_elim [OF gen]) (use ps in auto)
  have one: "rate = 1" by (rule lease_rates.same_currency [OF rate])
  have ok: "payments_ok ?tl" using assms(3) by (auto simp: payments_ok_def ps(1))
  have lease: "money (le_initial_discount_rate lease)" "0 \<le> le_initial_discount_rate lease" "le_initial_discount_rate lease \<le> 1"
    using assms(2) by (simp_all add: lease_ok_def)
  have tl: "?tl \<noteq> []" "length ?tl \<le> 10 ^ 4" using ps(2,3) by simp_all
  note p = present_value_err [OF pv [unfolded one] tl(1) lease ok tl(2)]
  have "\<bar>last_closing (pv_reporting_currency pv) rows\<bar> \<le> drift (pv_discount_rate_per_period pv)
      (1 / (2 * 10 ^ 6) + 3 / 10 ^ 27 * of_nat (length ?tl) * sum_list (map lp_payment_amount ?tl)) (length ?tl)"
    by (rule liability_rows_drift [OF rows assms(2) p(1) lease_rates.same_currency ok assms(4) p(2,3)])
  moreover have "rows \<noteq> []" using liability_rows_fields [OF rows] tl(1) by (cases ?tl) auto
  ultimately show ?thesis by (simp add: last_closing_last)
qed

section \<open>Whole schedules\<close>

lemma sort_key_unique:
  assumes "mset xs = mset ys" and "sorted_wrt (<) (map k ys)"
  shows "sort_key k xs = ys"
proof (rule sort_key_inj_key_eq [OF assms(1)])
  show "sorted (map k ys)" using assms(2) by (simp add: strict_sorted_iff)
  have "distinct (map k ys)" using assms(2) by (simp add: strict_sorted_iff)
  then show "inj_on k (set xs)" using mset_eq_setD [OF assms(1)] by (simp add: distinct_map)
qed

lemma generate_lease_rows:
  assumes "generate_lease sha rf rep mode payments lease = Inr (tok, pv, rows)" and "row \<in> set rows"
  shows "lr_lease_id row = le_lease_id lease"
  by (rule generate_lease_elim [OF assms(1)])
    (use assms(2) liability_rows_fields in \<open>metis (no_types, lifting) empty_lease_row_def liability_row.select_convs(1) list.set_intros(1) set_ConsD empty_iff list.set(1)\<close>)

text \<open>The output groups by lease: what one lease contributed is found under its id.\<close>

lemma liability_output_of_lease:
  assumes gen: "generate_liability_schedule_rows sha babel t db leases payments rep mode = Inr out"
    and "distinct (map le_lease_id leases)" and "lease \<in> set leases"
  obtains tok pv rows where "generate_lease sha (resolve_lease_fx_rate babel t mode db) rep mode payments lease = Inr (tok, pv, rows)"
    and "mset (filter (\<lambda>row. lr_lease_id row = le_lease_id lease) (lg_rows out)) = mset rows"
    and "map_of (lg_present_values out) (le_lease_id lease) = Some pv"
    and "map_of (lg_root_schedule_version_tokens out) (le_lease_id lease) = Some tok"
proof -
  let ?one = "\<lambda>lease. bindE (generate_lease sha (resolve_lease_fx_rate babel t mode db) rep mode payments lease)
      (\<lambda>x. Inr (le_lease_id lease, x))"
  let ?leases = "sort_key le_lease_number leases"
  obtain outs where outs: "mapE ?one ?leases = Inr outs"
    and o: "lg_rows out = sort_key liability_order (concat (map (\<lambda>(_, _, _, rows). rows) outs))"
      "lg_present_values out = py_dict (map (\<lambda>(i, _, pv, _). (i, pv)) outs)"
      "lg_root_schedule_version_tokens out = py_dict (map (\<lambda>(i, token, _). (i, token)) outs)"
    using gen by (auto simp: generate_liability_schedule_rows_def result_simps)
  have d: "distinct (map le_lease_id ?leases)" and l: "lease \<in> set ?leases" using assms(2,3) by simp_all
  have ids: "map fst outs = map le_lease_id ?leases"
    by (rule mapE_map_eq [OF outs]) (auto simp: result_simps)
  obtain i where i: "i < length ?leases" "?leases ! i = lease" using l by (metis in_set_conv_nth)
  obtain tok pv rows where g: "generate_lease sha (resolve_lease_fx_rate babel t mode db) rep mode payments lease = Inr (tok, pv, rows)"
    and oi: "outs ! i = (le_lease_id lease, tok, pv, rows)"
    using mapE_nth [OF outs i(1)] unfolding i(2) by (auto simp: result_simps)
  have mem: "(le_lease_id lease, tok, pv, rows) \<in> set outs" using oi i(1) mapE_length [OF outs] by (metis nth_mem)
  have keys: "map fst (map (\<lambda>(i, _, pv, _). (i, pv)) outs) = map fst outs" "map fst (map (\<lambda>(i, token, _). (i, token)) outs) = map fst outs"
    by (auto simp: case_prod_beta)
  have "map_of (lg_present_values out) (le_lease_id lease) = Some pv"
    unfolding o(2) using d keys(1) ids by (subst py_dict_distinct) (auto intro!: map_of_is_SomeI image_eqI [OF _ mem])
  moreover have "map_of (lg_root_schedule_version_tokens out) (le_lease_id lease) = Some tok"
    unfolding o(3) using d keys(2) ids by (subst py_dict_distinct) (auto intro!: map_of_is_SomeI image_eqI [OF _ mem])
  moreover have "mset (filter (\<lambda>row. lr_lease_id row = le_lease_id lease) (lg_rows out)) = mset rows"
  proof -
    have all: "mapE (\<lambda>lease. bindE (?one lease) (\<lambda>(_, _, _, rows). Inr rows)) ?leases = Inr (map (\<lambda>(_, _, _, rows). rows) outs)"
      unfolding mapE_Inr_iff list_all2_conv_all_nth using mapE_nth [OF outs] mapE_length [OF outs]
      by (auto simp: case_prod_beta)
    have "bindE (?one lease) (\<lambda>(_, _, _, rows). Inr rows)
        = Inr (filter (\<lambda>row. lr_lease_id row = le_lease_id lease) (concat (map (\<lambda>(_, _, _, rows). rows) outs)))"
      by (rule mapE_concat_group [OF all d l]) (auto simp: result_simps dest: generate_lease_rows)
    then show ?thesis by (simp add: o(1) g filter_sort)
  qed
  ultimately show thesis using g that by blast
qed

text \<open>A row stands for a payment: its id, its day, its amount at that day's rate, and a period's interest on the row's opening.\<close>

definition row_of_payment :: "(string \<Rightarrow> string \<Rightarrow> date \<Rightarrow> rat result) \<Rightarrow> registered_lease \<Rightarrow> string
    \<Rightarrow> registered_lease_payment \<Rightarrow> liability_row \<Rightarrow> bool" where
  "row_of_payment rf lease rep p row \<longleftrightarrow> lr_payment_id row = Some (lp_payment_id p) \<and> lr_schedule_date row = lp_payment_date p
     \<and> bindE (rf (le_lease_currency lease) rep (lp_payment_date p)) (\<lambda>fx. quantize_persisted_amount (dmul (lp_payment_amount p) fx))
         = Inr (lr_payment row)
     \<and> compute_period_interest (lr_opening row) (le_initial_discount_rate lease) (le_payment_frequency lease) = Inr (lr_interest row)"

lemma liability_rows_of_payments:
  "liability_rows rf lease rep tok k bal ps = Inr rows \<Longrightarrow> list_all2 (row_of_payment rf lease rep) ps rows"
proof (induction ps arbitrary: k bal rows)
  case (Cons p ps)
  from Cons.prems show ?case
    by (rule liability_rows_Cons) (use Cons.IH in \<open>simp add: row_of_payment_def\<close>)
qed simp

lemma row_of_payment_ids: "list_all2 (row_of_payment rf lease rep) ps rows \<Longrightarrow> map lr_payment_id rows = map (Some \<circ> lp_payment_id) ps"
  by (induction rule: list_all2_induct) (simp_all add: row_of_payment_def)

text \<open>(C27) The liability of a lease rolls forward without gaps, one row per payment.  Let a schedule be generated whose amounts
  stay below 10^14, and take a lease of it.  If the lease has payments, its rows are, numbered from one in the order of
  payment sequence and day, one for each payment: with the payment's id and day, the payment's amount at that day's rate,
  and the interest of one period on the row's opening balance.  A lease without payments has a single row at its commencement
  that carries no interest and no payment.  The first row opens with the present value, each closes at its opening plus the
  interest less the payment exactly, and opens at what the row before it left.\<close>

theorem lease_liability_rolls_forward:
  assumes gen: "generate_liability_schedule_rows sha babel t db leases payments rep mode = Inr out"
    and "distinct (map le_lease_id leases)" and "lease \<in> set leases" and fits: "\<forall>row \<in> set (lg_rows out). liability_fits row"
    and timeline: "timeline = sort_key timeline_order (filter (\<lambda>item. lp_lease_id item = le_lease_id lease) payments)"
  shows "\<exists>pv rows. map_of (lg_present_values out) (le_lease_id lease) = Some pv
    \<and> rows = sort_key lr_period_seq (filter (\<lambda>row. lr_lease_id row = le_lease_id lease) (lg_rows out))
    \<and> map lr_period_seq rows = [1..<1 + length rows]
    \<and> rolls_forward (pv_reporting_currency pv) rows
    \<and> (if timeline = []
       then map (\<lambda>row. (lr_payment_id row, lr_schedule_date row, lr_interest row, lr_payment row)) rows
              = [(None, le_commencement_date lease, 0, 0)]
       else list_all2 (row_of_payment (resolve_lease_fx_rate babel t mode db) lease rep) timeline rows)"
proof -
  obtain tok pv rows where g: "generate_lease sha (resolve_lease_fx_rate babel t mode db) rep mode payments lease = Inr (tok, pv, rows)"
    and m: "mset (filter (\<lambda>row. lr_lease_id row = le_lease_id lease) (lg_rows out)) = mset rows"
    and p: "map_of (lg_present_values out) (le_lease_id lease) = Some pv"
    by (rule liability_output_of_lease [OF gen assms(2,3)])
  have fits': "\<forall>row \<in> set rows. liability_fits row" using fits mset_eq_setD [OF m] by auto
  have rolls: "map lr_period_seq rows = [1..<1 + length rows] \<and> rolls_forward (pv_reporting_currency pv) rows
    \<and> (if timeline = []
       then map (\<lambda>row. (lr_payment_id row, lr_schedule_date row, lr_interest row, lr_payment row)) rows
              = [(None, le_commencement_date lease, 0, 0)]
       else list_all2 (row_of_payment (resolve_lease_fx_rate babel t mode db) lease rep) timeline rows)"
  proof (rule generate_lease_elim [OF g])
    fix tl rate
    assume tl: "tl = sort_key timeline_order (filter (\<lambda>item. lp_lease_id item = le_lease_id lease) payments)"
      and pv: "calculate_present_value (le_lease_id lease) tl (le_initial_discount_rate lease) (le_payment_frequency lease) rate = Inr pv"
      and e: "tl = [] \<Longrightarrow> rows = [empty_lease_row lease tok (pv_reporting_currency pv) rate]"
      and ne: "tl \<noteq> [] \<Longrightarrow> liability_rows (resolve_lease_fx_rate babel t mode db) lease rep tok 1 (pv_reporting_currency pv) tl = Inr rows"
    have same: "tl = timeline" using tl timeline by simp
    show ?thesis
    proof (cases "tl = []")
      case True
      then show ?thesis using e same by (simp add: empty_lease_row_def)
    next
      case False
      have "money (pv_reporting_currency pv)"
        using pv False by (auto simp: calculate_present_value_def result_simps dest: quantize_money)
      with liability_rows_roll [OF ne [OF False] _ fits'] have "rolls_forward (pv_reporting_currency pv) rows" .
      moreover have "map lr_period_seq rows = [1..<1 + length rows]"
        using liability_rows_fields [OF ne [OF False]] list_all2_lengthD [OF liability_rows_of_payments [OF ne [OF False]]] by simp
      ultimately show ?thesis using liability_rows_of_payments [OF ne [OF False]] False same by simp
    qed
  qed
  then have "sort_key lr_period_seq (filter (\<lambda>row. lr_lease_id row = le_lease_id lease) (lg_rows out)) = rows"
    by (intro sort_key_unique [OF m]) (simp del: upt_Suc)
  then show ?thesis using p rolls by (intro exI [of _ pv] exI [of _ rows]) simp
qed

section \<open>The right-of-use asset\<close>

definition rou_fits :: "rou_row \<Rightarrow> bool" where
  "rou_fits row \<longleftrightarrow> \<bar>ru_opening row\<bar> < 10 ^ 14 \<and> \<bar>ru_amortization row\<bar> < 10 ^ 14
     \<and> \<bar>ru_impairment row\<bar> < 10 ^ 14 \<and> \<bar>ru_closing row\<bar> < 10 ^ 14"

lemma rou_rows_Cons:
  assumes "rou_rows imp lease bal (l # ls) = Inr rows"
  obtains row rest share where "rows = row # rest" and "ddiv bal (of_nat (length (l # ls))) = Inr share"
    and "quantize_persisted_amount share = Inr (ru_amortization row)"
    and "quantize_persisted_amount (impairment_on imp (le_lease_id lease) (lr_schedule_date l)) = Inr (ru_impairment row)"
    and "quantize_persisted_amount (dsub (dsub bal (ru_amortization row)) (ru_impairment row)) = Inr (ru_closing row)"
    and "rou_rows imp lease (ru_closing row) ls = Inr rest"
    and "ru_opening row = bal" and "ru_schedule_date row = lr_schedule_date l" and "ru_lease_id row = le_lease_id lease"
    and "ru_source_reference_id row = lr_source_reference_id l"
  using assms by (fastforce simp: result_simps)

lemma rou_closing_exact:
  assumes "quantize_persisted_amount (dsub (dsub a b) c) = Inr z" and "money a" "money b" "money c"
    and "\<bar>a\<bar> < 10 ^ 14" "\<bar>b\<bar> < 10 ^ 14"
  shows "z = a - b - c"
proof -
  have lt: "\<bar>a - b\<bar> < 10 ^ 22" using assms(5,6) by (simp add: abs_less_iff)
  then have "dsub a b = a - b" using assms(2,3) by (intro dsub_exact) (auto dest: money_micro)
  moreover have "money (a - b)" using assms(2,3) lt by (auto simp: money_def)
  ultimately show ?thesis using quantize_dsub [of "a - b" c z] assms(1,4) by simp
qed

text \<open>What is opened is amortised or impaired, and the last row amortises all that is left.\<close>

lemma rou_rows_total:
  assumes "rou_rows imp lease bal ls = Inr rows" and "ls \<noteq> []" and "money bal" and "\<forall>row \<in> set rows. rou_fits row"
  shows "rows \<noteq> [] \<and> ru_opening (hd rows) = bal
    \<and> sum_list (map ru_amortization rows) + sum_list (map ru_impairment rows) = bal - ru_closing (last rows)
    \<and> ru_closing (last rows) = - ru_impairment (last rows)"
  using assms
proof (induction ls arbitrary: bal rows)
  case (Cons l ls)
  from Cons.prems(1) obtain row rest share where r: "rows = row # rest" and share: "ddiv bal (of_nat (length (l # ls))) = Inr share"
    and a: "quantize_persisted_amount share = Inr (ru_amortization row)"
    and i: "quantize_persisted_amount (impairment_on imp (le_lease_id lease) (lr_schedule_date l)) = Inr (ru_impairment row)"
    and c: "quantize_persisted_amount (dsub (dsub bal (ru_amortization row)) (ru_impairment row)) = Inr (ru_closing row)"
    and rest: "rou_rows imp lease (ru_closing row) ls = Inr rest" and o: "ru_opening row = bal"
    by (rule rou_rows_Cons)
  have fits: "rou_fits row" using Cons.prems(4) r by simp
  have closing: "ru_closing row = bal - ru_amortization row - ru_impairment row"
    using fits o by (intro rou_closing_exact [OF c Cons.prems(3) quantize_money [OF a] quantize_money [OF i]]) (simp_all add: rou_fits_def)
  show ?case
  proof (cases "ls = []")
    case True
    have "dec_round prec bal = bal" using Cons.prems(3) by (simp add: micro_dec_round money_def)
    then have "ru_amortization row = bal" using share a True quantize_id [OF Cons.prems(3)] by (simp add: ddiv_Inr)
    then show ?thesis using rest r o closing True by simp
  next
    case False
    from Cons.IH [OF rest False quantize_money [OF c]] Cons.prems(4) r
    have "rest \<noteq> []" "ru_opening (hd rest) = ru_closing row"
      "sum_list (map ru_amortization rest) + sum_list (map ru_impairment rest) = ru_closing row - ru_closing (last rest)"
      "ru_closing (last rest) = - ru_impairment (last rest)" by auto
    then show ?thesis using r o closing by simp
  qed
qed simp

lemma rou_rows_fields:
  "rou_rows imp lease bal ls = Inr rows \<Longrightarrow> map ru_schedule_date rows = map lr_schedule_date ls
     \<and> map ru_source_reference_id rows = map lr_source_reference_id ls \<and> (\<forall>row \<in> set rows. ru_lease_id row = le_lease_id lease)"
proof (induction ls arbitrary: bal rows)
  case (Cons l ls)
  from Cons.prems show ?case by (rule rou_rows_Cons) (use Cons.IH in fastforce)
qed simp

definition rou_order :: "rou_row \<Rightarrow> uuid \<times> date \<times> uuid" where
  "rou_order item = (ru_lease_id item, ru_schedule_date item, ru_source_reference_id item)"

lemma sorted_map_Pair: "sorted ks \<Longrightarrow> sorted (map (\<lambda>k. (c, k)) ks)"
  by (induction ks) auto

lemma rou_for_lease_sorted:
  assumes "rou_for_lease imp liability lease = Inr rows"
  shows "sorted (map rou_order rows)" and "\<forall>row \<in> set rows. ru_lease_id row = le_lease_id lease"
proof -
  let ?ls = "rows_for_lease liability lease"
  have f: "map ru_schedule_date rows = map lr_schedule_date ?ls \<and> map ru_source_reference_id rows = map lr_source_reference_id ?ls
    \<and> (\<forall>row \<in> set rows. ru_lease_id row = le_lease_id lease)"
    using assms rou_rows_fields by (fastforce simp: rou_for_lease_def split: list.splits simp del: rou_rows.simps)
  then show ids: "\<forall>row \<in> set rows. ru_lease_id row = le_lease_id lease" by blast
  have len: "length rows = length ?ls" using f by (metis length_map)
  have "map rou_order rows = map (\<lambda>k. (le_lease_id lease, k)) (map (\<lambda>l. (lr_schedule_date l, lr_source_reference_id l)) ?ls)"
  proof (rule nth_equalityI)
    fix i assume "i < length (map rou_order rows)"
    then show "map rou_order rows ! i = map (\<lambda>k. (le_lease_id lease, k)) (map (\<lambda>l. (lr_schedule_date l, lr_source_reference_id l)) ?ls) ! i"
      using f len by (metis (no_types, lifting) length_map nth_map nth_mem rou_order_def)
  qed (simp add: len)
  moreover have "sorted (map (\<lambda>l. (lr_schedule_date l, lr_source_reference_id l)) ?ls)"
    unfolding rows_for_lease_def by (rule sorted_sort_key)
  then have "sorted (map (\<lambda>k. (le_lease_id lease, k)) (map (\<lambda>l. (lr_schedule_date l, lr_source_reference_id l)) ?ls))"
    by (rule sorted_map_Pair)
  ultimately show "sorted (map rou_order rows)" by simp
qed

text \<open>(C28) The right-of-use asset is amortised in full.  A lease's rows open with the liability at
  commencement; what they amortise and impair adds up to that amount except for what the last
  row leaves, which is nothing unless the last day itself carries an impairment: then it is
  that impairment with its sign reversed.\<close>

theorem rou_fully_amortised:
  assumes gen: "generate_rou_schedule_rows leases liability impairments = Inr out"
    and "distinct (map le_lease_id leases)" and "lease \<in> set leases"
    and ls: "rows_for_lease liability lease = first # rest" and "money (lr_opening first)"
    and fits: "\<forall>row \<in> set out. rou_fits row" and rows: "rows = filter (\<lambda>row. ru_lease_id row = le_lease_id lease) out"
  shows "ru_opening (hd rows) = lr_opening first
    \<and> sum_list (map ru_amortization rows) + sum_list (map ru_impairment rows) = lr_opening first - ru_closing (last rows)
    \<and> ru_closing (last rows) = - ru_impairment (last rows)
    \<and> map ru_schedule_date rows = map lr_schedule_date (first # rest)"
proof -
  let ?leases = "sort_key le_lease_number leases"
  obtain yss where yss: "mapE (rou_for_lease impairments liability) ?leases = Inr yss"
    and o: "out = sort_key rou_order (concat yss)"
    using gen by (auto simp: generate_rou_schedule_rows_def result_simps rou_order_def [abs_def])
  have mine: "rou_for_lease impairments liability lease = Inr (filter (\<lambda>row. ru_lease_id row = le_lease_id lease) (concat yss))"
    using assms(2,3) by (intro mapE_concat_group [OF yss]) (auto dest: rou_for_lease_sorted(2))
  have r: "rows = filter (\<lambda>row. ru_lease_id row = le_lease_id lease) (concat yss)"
    unfolding rows o filter_sort by (rule sort_key_id_if_sorted [OF rou_for_lease_sorted(1) [OF mine]])
  have rr: "rou_rows impairments lease (lr_opening first) (first # rest) = Inr rows"
    using mine by (simp add: rou_for_lease_def ls r del: rou_rows.simps)
  have "\<forall>row \<in> set rows. rou_fits row" using fits by (simp add: rows)
  from rou_rows_total [OF rr _ assms(5) this] rou_rows_fields [OF rr] show ?thesis by simp
qed

section \<open>A lease of two annual payments\<close>

definition ex_lease :: registered_lease where
  "ex_lease = \<lparr>le_lease_id = 5, le_lease_number = ''L-1'', le_lease_currency = ''EUR'', le_commencement_date = Date 2024 1 1,
     le_end_date = Date 2025 12 31, le_payment_frequency = ''annual'', le_initial_discount_rate = 1 / 4,
     le_source_lease_reference = ''S''\<rparr>"

definition ex_payment :: "uuid \<Rightarrow> int \<Rightarrow> int \<Rightarrow> registered_lease_payment" where
  "ex_payment i k y = \<lparr>lp_payment_id = i, lp_lease_id = 5, lp_lease_number = ''L-1'', lp_payment_date = Date y 12 31,
     lp_payment_amount = 100, lp_payment_type = ''fixed'', lp_payment_sequence = k, lp_source_lease_reference = ''S''\<rparr>"

definition ex_payments :: "registered_lease_payment list" where
  "ex_payments = [ex_payment 62 2 2025, ex_payment 61 1 2024]"

definition ex_liability_row :: "string \<Rightarrow> uuid \<Rightarrow> nat \<Rightarrow> int \<Rightarrow> rat \<Rightarrow> rat \<Rightarrow> rat \<Rightarrow> liability_row" where
  "ex_liability_row tok i k y opn intr clo = \<lparr>lr_lease_id = 5, lr_payment_id = Some i, lr_period_seq = k,
     lr_schedule_date = Date y 12 31, lr_period_year = y, lr_period_month = 12, lr_opening = opn, lr_interest = intr,
     lr_payment = 100, lr_closing = clo, lr_schedule_version_token = tok, lr_fx_rate_used = 1,
     lr_source_lease_reference = ''S'', lr_parent_reference_id = 5, lr_source_reference_id = i\<rparr>"

definition ex_liability :: "string \<Rightarrow> liability_row list" where
  "ex_liability tok = [ex_liability_row tok 61 1 2024 144 36 80, ex_liability_row tok 62 2 2025 80 20 0]"

definition ex_pv :: present_value_result where
  "ex_pv = \<lparr>pv_lease_id = 5, pv_payment_count = 2, pv_discount_rate_per_period = 1 / 4, pv_lease_currency = 144,
     pv_reporting_currency = 144\<rparr>"

lemma ex_lease_numbers:
  "quantize_persisted_amount (1 / 4) = Inr (1 / 4)" "ddiv (1 / 4) 1 = Inr (1 / 4)" "dadd 1 (1 / 4) = 5 / 4"
  "dpow (5 / 4) (Suc 0) = 5 / 4" "dpow (5 / 4) 2 = 25 / 16" "ddiv 100 (5 / 4) = Inr 80" "ddiv 100 (25 / 16) = Inr 64"
  "dadd 0 80 = 80" "dadd 80 64 = 144" "quantize_persisted_amount 144 = Inr 144" "quantize_persisted_amount 1 = Inr 1"
  "quantize_persisted_amount (dmul 144 1) = Inr 144" "quantize_persisted_amount (dmul 144 (1 / 4)) = Inr 36"
  "quantize_persisted_amount (dmul 100 1) = Inr 100" "quantize_persisted_amount (dsub (dadd 144 36) 100) = Inr 80"
  "quantize_persisted_amount (dmul 80 (1 / 4)) = Inr 20" "quantize_persisted_amount (dsub (dadd 80 20) 100) = Inr 0"
  by (simp_all add: dadd_exact dsub_exact dmul_def ddiv_def dpow_def micro_dec_round quantize_id money_def micro_def power2_eq_square)

lemma ex_lease_dates [simp]: "Date 2024 12 31 < Date 2025 12 31" "Date 2024 12 31 \<le> Date 2025 12 31"
  by code_simp+

lemma ex_annual: "periods_per_year ''annual'' = Inr 1"
  by code_simp

lemma ex_lease_rate: "resolve_lease_fx_rate None t mode db ''EUR'' ''EUR'' d = Inr 1"
proof -
  have "normalize_currency_code None ''EUR'' = Inr ''EUR''" by code_simp
  then show ?thesis by (simp add: resolve_lease_fx_rate_def)
qed

lemma ex_timeline: "sort_key timeline_order (filter (\<lambda>item. lp_lease_id item = 5) ex_payments) = [ex_payment 61 1 2024, ex_payment 62 2 2025]"
  by (simp add: ex_payments_def ex_payment_def timeline_order_def)

lemma ex_generate_lease:
  "\<exists>tok. generate_lease sha (resolve_lease_fx_rate None t mode db) ''EUR'' mode ex_payments ex_lease = Inr (tok, ex_pv, ex_liability tok)"
proof -
  have "calculate_present_value 5 [ex_payment 61 1 2024, ex_payment 62 2 2025] (1 / 4) ''annual'' 1 = Inr ex_pv"
    by (simp add: calculate_present_value_def ex_annual quantize_rate_eq ex_lease_numbers ex_payment_def ex_pv_def Let_def numeral_2_eq_2 [symmetric])
  moreover have "liability_rows (resolve_lease_fx_rate None t mode db) ex_lease ''EUR'' tok 1 144
      [ex_payment 61 1 2024, ex_payment 62 2 2025] = Inr (ex_liability tok)" for tok
    by (simp add: compute_period_interest_def ex_annual quantize_rate_eq ex_lease_numbers ex_lease_rate ex_payment_def ex_lease_def
        ex_liability_def ex_liability_row_def numeral_2_eq_2 [symmetric])
  ultimately show ?thesis
    by (simp add: generate_lease_def build_payment_timeline_eq ex_timeline ex_lease_rate Let_def ex_lease_def ex_pv_def del: liability_rows.simps)
qed

lemma ex_liability_fits: "\<forall>row \<in> set (ex_liability tok). liability_fits row"
  by (simp add: ex_liability_def ex_liability_row_def liability_fits_def)

lemma liability_closes_near_zero_witness:
  "\<exists>tok pv rows. generate_lease (\<lambda>s. s) (resolve_lease_fx_rate None 2 daily ex_fx_db) ''EUR'' daily ex_payments ex_lease
       = Inr (tok, pv, rows) \<and> \<bar>lr_closing (last rows)\<bar> \<le> drift (1 / 4) (1 / (2 * 10 ^ 6) + 3 / 10 ^ 27 * 2 * 200) 2"
proof -
  obtain tok where g: "generate_lease (\<lambda>s. s) (resolve_lease_fx_rate None 2 daily ex_fx_db) (le_lease_currency ex_lease) daily ex_payments ex_lease
      = Inr (tok, ex_pv, ex_liability tok)"
    using ex_generate_lease [of "\<lambda>s. s" 2 daily ex_fx_db] by (auto simp: ex_lease_def)
  have "lease_ok ex_lease" by (simp add: lease_ok_def ex_lease_def money_def micro_def)
  moreover have "payments_ok ex_payments" by (simp add: payments_ok_def ex_payments_def ex_payment_def money_def micro_def)
  ultimately have "\<bar>lr_closing (last (ex_liability tok))\<bar> \<le> drift (pv_discount_rate_per_period ex_pv)
      (1 / (2 * 10 ^ 6) + 3 / 10 ^ 27 * of_nat (length ex_payments) * sum_list (map lp_payment_amount ex_payments)) (length ex_payments)"
    using ex_liability_fits
    by (intro liability_closes_near_zero [OF g]) (simp_all add: ex_payments_def ex_payment_def ex_lease_def)
  then show ?thesis using g by (auto simp: ex_payments_def ex_payment_def ex_pv_def ex_lease_def numeral_2_eq_2)
qed

definition ex_liability_output :: "sha \<Rightarrow> liability_output" where
  "ex_liability_output sha = (let tok = build_lease_version_token sha 5 (JDict [(''kind'', JStr ''root'')]) ''EUR'' ''daily'' ''root'' in
     \<lparr>lg_rows = ex_liability tok, lg_present_values = [(5, ex_pv)], lg_root_schedule_version_tokens = [(5, tok)]\<rparr>)"

lemma ex_liability_sorted: "sort_key liability_order (ex_liability tok) = ex_liability tok"
  by (simp add: ex_liability_def ex_liability_row_def liability_order_def)

lemma ex_liability_output:
  "\<exists>out. generate_liability_schedule_rows sha None t db [ex_lease] ex_payments ''EUR'' mode = Inr out
     \<and> (\<exists>tok. lg_rows out = ex_liability tok)"
proof -
  obtain tok where "generate_lease sha (resolve_lease_fx_rate None t mode db) ''EUR'' mode ex_payments ex_lease = Inr (tok, ex_pv, ex_liability tok)"
    using ex_generate_lease by blast
  then show ?thesis by (simp add: generate_liability_schedule_rows_def ex_liability_sorted) blast
qed

lemma lease_liability_rolls_forward_witness:
  "\<exists>out pv rows. generate_liability_schedule_rows (\<lambda>s. s) None 2 ex_fx_db [ex_lease] ex_payments ''EUR'' daily = Inr out
     \<and> map_of (lg_present_values out) 5 = Some pv
     \<and> rows = sort_key lr_period_seq (filter (\<lambda>row. lr_lease_id row = 5) (lg_rows out)) \<and> map lr_payment_id rows = [Some 61, Some 62]
     \<and> rolls_forward (pv_reporting_currency pv) rows"
proof -
  obtain out tok where out: "generate_liability_schedule_rows (\<lambda>s. s) None 2 ex_fx_db [ex_lease] ex_payments ''EUR'' daily = Inr out"
    and rows: "lg_rows out = ex_liability tok"
    using ex_liability_output by blast
  have i: "le_lease_id ex_lease = 5" by (simp add: ex_lease_def)
  have tl: "sort_key timeline_order (filter (\<lambda>item. lp_lease_id item = 5) ex_payments) = [ex_payment 61 1 2024, ex_payment 62 2 2025]"
    by (rule ex_timeline)
  obtain pv rs where r: "map_of (lg_present_values out) 5 = Some pv" "rs = sort_key lr_period_seq (filter (\<lambda>row. lr_lease_id row = 5) (lg_rows out))"
    "rolls_forward (pv_reporting_currency pv) rs"
    "list_all2 (row_of_payment (resolve_lease_fx_rate None 2 daily ex_fx_db) ex_lease ''EUR'') [ex_payment 61 1 2024, ex_payment 62 2 2025] rs"
  proof -
    have "\<forall>row \<in> set (lg_rows out). liability_fits row" unfolding rows using ex_liability_fits by blast
    note fits = this
    have d: "distinct (map le_lease_id [ex_lease])" "ex_lease \<in> set [ex_lease]" by simp_all
    have tl': "[ex_payment 61 1 2024, ex_payment 62 2 2025] = sort_key timeline_order (filter (\<lambda>item. lp_lease_id item = le_lease_id ex_lease) ex_payments)"
      unfolding i by (rule tl [symmetric])
    have f: "\<exists>pv rows. map_of (lg_present_values out) 5 = Some pv
      \<and> rows = sort_key lr_period_seq (filter (\<lambda>row. lr_lease_id row = 5) (lg_rows out)) \<and> map lr_period_seq rows = [1..<1 + length rows]
      \<and> rolls_forward (pv_reporting_currency pv) rows
      \<and> (if [ex_payment 61 1 2024, ex_payment 62 2 2025] = []
         then map (\<lambda>row. (lr_payment_id row, lr_schedule_date row, lr_interest row, lr_payment row)) rows = [(None, le_commencement_date ex_lease, 0, 0)]
         else list_all2 (row_of_payment (resolve_lease_fx_rate None 2 daily ex_fx_db) ex_lease ''EUR'') [ex_payment 61 1 2024, ex_payment 62 2 2025] rows)"
      using lease_liability_rolls_forward [OF out d fits tl'] unfolding i .
    show thesis using f unfolding if_not_P [OF list.distinct(2)] by (elim exE conjE) (rule that)
  qed
  have "map lr_payment_id rs = [Some 61, Some 62]"
    using row_of_payment_ids [OF r(4)] by (simp add: ex_payment_def)
  then show ?thesis by (intro exI conjI) (rule out r | assumption)+
qed

definition ex_rou_row :: "string \<Rightarrow> uuid \<Rightarrow> nat \<Rightarrow> int \<Rightarrow> rat \<Rightarrow> rat \<Rightarrow> rat \<Rightarrow> rou_row" where
  "ex_rou_row tok i k y opn imp clo = \<lparr>ru_lease_id = 5, ru_period_seq = k, ru_schedule_date = Date y 12 31, ru_period_year = y,
     ru_period_month = 12, ru_opening = opn, ru_amortization = 72, ru_impairment = imp, ru_closing = clo,
     ru_schedule_version_token = tok, ru_fx_rate_used = 1, ru_source_lease_reference = ''S'', ru_parent_reference_id = 5,
     ru_source_reference_id = i\<rparr>"

text \<open>An impairment on the last day leaves a negative asset.\<close>

lemma ex_rou:
  "generate_rou_schedule_rows [ex_lease] (ex_liability tok) [(5, [(Date 2025 12 31, 10)])]
     = Inr [ex_rou_row tok 61 1 2024 144 0 72, ex_rou_row tok 62 2 2025 72 10 (- 10)]"
proof -
  have "rows_for_lease (ex_liability tok) ex_lease = ex_liability tok"
    by (simp add: rows_for_lease_def ex_liability_def ex_liability_row_def ex_lease_def)
  moreover have "ddiv 144 2 = Inr 72" "quantize_persisted_amount 72 = Inr 72" "quantize_persisted_amount 10 = Inr 10"
    "quantize_persisted_amount (dsub (dsub 144 72) 0) = Inr 72" "ddiv 72 1 = Inr 72"
    "quantize_persisted_amount (dsub (dsub 72 72) 10) = Inr (- 10)"
    by (simp_all add: dsub_exact ddiv_def micro_dec_round quantize_id money_def micro_def)
  ultimately show ?thesis
    by (simp add: generate_rou_schedule_rows_def rou_for_lease_def ex_liability_def ex_liability_row_def ex_lease_def
        impairment_on_def ex_rou_row_def)
qed

lemma rou_fully_amortised_witness:
  "\<exists>rows. generate_rou_schedule_rows [ex_lease] (ex_liability ''v'') [(5, [(Date 2025 12 31, 10)])] = Inr rows
     \<and> sum_list (map ru_amortization rows) + sum_list (map ru_impairment rows) = 144 - ru_closing (last rows)
     \<and> ru_closing (last rows) = - 10"
proof -
  have first: "rows_for_lease (ex_liability ''v'') ex_lease = ex_liability_row ''v'' 61 1 2024 144 36 80 # [ex_liability_row ''v'' 62 2 2025 80 20 0]"
    by (simp add: rows_for_lease_def ex_liability_def ex_liability_row_def ex_lease_def)
  have "money (lr_opening (ex_liability_row ''v'' 61 1 2024 144 36 80))" by (simp add: ex_liability_row_def money_def micro_def)
  from rou_fully_amortised [OF ex_rou _ _ first this _ refl] show ?thesis
    using ex_rou by (simp add: ex_rou_row_def rou_fits_def ex_lease_def ex_liability_row_def)
qed

end
