(* ===== verification/Keyed_Store.thy ===== *)
theory Keyed_Store
  imports Audit_Chain
begin

text \<open>
  The look-up-or-insert discipline of the registration handlers: a row is looked up by its
  natural key and inserted when there is none, so that a retried activity registers nothing
  twice.  The locales state what a table must promise for that (a lookup finds what was
  inserted, and keeps finding what it found); inside them, activities composed of look-ups
  and inserts are shown to be no-ops the second time.
\<close>

definition get_or_create :: "('k \<Rightarrow> 'db \<Rightarrow> 'r option) \<Rightarrow> ('i \<Rightarrow> 'db \<Rightarrow> ('r \<times> 'db) result) \<Rightarrow> ('i \<Rightarrow> 'k) \<Rightarrow> 'i \<Rightarrow> 'db
    \<Rightarrow> ('r \<times> 'db) result" where
  "get_or_create lookup create key i db =
     (case lookup (key i) db of Some r \<Rightarrow> Inr (r, db) | None \<Rightarrow> create i db)"

primrec get_all :: "('i \<Rightarrow> 'db \<Rightarrow> ('r \<times> 'db) result) \<Rightarrow> 'i list \<Rightarrow> 'db \<Rightarrow> ('r list \<times> 'db) result" where
  "get_all get [] db = Inr ([], db)"
| "get_all get (i # is) db =
     bindE (get i db) (\<lambda>(r, db). bindE (get_all get is db) (\<lambda>(rs, db). Inr (r # rs, db)))"

text \<open>
  An activity is replayable when a run that succeeded, repeated on any later state, returns
  the same value and writes nothing.  \<open>ok\<close> is the invariant of the state and \<open>keeps db later\<close>
  says that what was found in \<open>db\<close> is still found in \<open>later\<close>.
\<close>

definition replayable :: "('db \<Rightarrow> bool) \<Rightarrow> ('db \<Rightarrow> 'db \<Rightarrow> bool) \<Rightarrow> ('db \<Rightarrow> ('r \<times> 'db) result) \<Rightarrow> bool" where
  "replayable ok keeps g \<longleftrightarrow> (\<forall>db r db'. ok db \<longrightarrow> g db = Inr (r, db') \<longrightarrow>
     ok db' \<and> keeps db db' \<and> (\<forall>later. keeps db' later \<longrightarrow> g later = Inr (r, later)))"

lemma replayableD:
  assumes "replayable ok keeps g" and "ok db" and "g db = Inr (r, db')"
  shows "ok db'" and "keeps db db'" and "keeps db' later \<Longrightarrow> g later = Inr (r, later)"
  using assms(1) [unfolded replayable_def, rule_format, OF assms(2,3)] by blast+

lemma get_all_each:
  assumes "\<forall>i \<in> set is. replayable ok keeps (get i)" and "ok db" and "get_all get is db = Inr (rs, db')"
  shows "list_all2 (\<lambda>i r. \<exists>db1 db2. ok db1 \<and> get i db1 = Inr (r, db2)) is rs"
  using assms
proof (induction "is" arbitrary: db rs)
  case (Cons i "is")
  from Cons.prems(3) obtain r db1 rs' where r: "get i db = Inr (r, db1)"
    and rs: "get_all get is db1 = Inr (rs', db')" "rs = r # rs'"
    by (auto simp: result_simps)
  have "replayable ok keeps (get i)" using Cons.prems(1) by simp
  then have "ok db1" using Cons.prems(2) r by (rule replayableD(1))
  then have "list_all2 (\<lambda>i r. \<exists>db1 db2. ok db1 \<and> get i db1 = Inr (r, db2)) is rs'"
    using Cons.prems(1) rs(1) by (intro Cons.IH) auto
  then show ?case using Cons.prems(2) r rs(2) by auto
qed simp

lemma get_all_exists:
  assumes "\<forall>i \<in> set is. replayable ok keeps (get i)" and "ok db"
    and "\<forall>i \<in> set is. \<forall>db. ok db \<longrightarrow> (\<exists>r db'. get i db = Inr (r, db'))"
  shows "\<exists>rs db'. get_all get is db = Inr (rs, db')"
  using assms
proof (induction "is" arbitrary: db)
  case (Cons i "is")
  then obtain r db1 where r: "get i db = Inr (r, db1)" by auto
  have "replayable ok keeps (get i)" using Cons.prems(1) by simp
  then have "ok db1" using Cons.prems(2) r by (rule replayableD(1))
  then obtain rs db' where "get_all get is db1 = Inr (rs, db')"
    using Cons.IH [of db1] Cons.prems(1,3) by auto
  then show ?case using r by simp
qed simp

locale replay_store =
  fixes ok :: "'db \<Rightarrow> bool"
    and keeps :: "'db \<Rightarrow> 'db \<Rightarrow> bool"
  assumes keeps_refl: "keeps db db"
    and keeps_trans: "keeps a b \<Longrightarrow> keeps b c \<Longrightarrow> keeps a c"
begin

lemma replayable_return: "replayable ok keeps (\<lambda>db. Inr (x, db))"
  by (simp add: replayable_def keeps_refl)

lemma replayable_raise: "replayable ok keeps (\<lambda>db. Inl e)"
  by (simp add: replayable_def)

lemma replayable_bind:
  assumes "replayable ok keeps g" and h: "\<forall>r. replayable ok keeps (h r)"
  shows "replayable ok keeps (\<lambda>db. bindE (g db) (\<lambda>(r, db). h r db))"
  unfolding replayable_def
proof (intro allI impI)
  fix db x db' assume "ok db" and "bindE (g db) (\<lambda>(r, db). h r db) = Inr (x, db')"
  then obtain r db1 where 1: "g db = Inr (r, db1)" and 2: "h r db1 = Inr (x, db')"
    by (auto simp: result_simps)
  note g = replayableD [OF assms(1) \<open>ok db\<close> 1]
  note h = replayableD [OF h [THEN spec] g(1) 2]
  show "ok db' \<and> keeps db db' \<and> (\<forall>later. keeps db' later \<longrightarrow>
      bindE (g later) (\<lambda>(r, db). h r db) = Inr (x, later))"
  proof (intro conjI allI impI)
    show "ok db'" by (rule h(1))
    show "keeps db db'" by (rule keeps_trans [OF g(2) h(2)])
    fix later assume later: "keeps db' later"
    show "bindE (g later) (\<lambda>(r, db). h r db) = Inr (x, later)"
      by (simp add: g(3) [OF keeps_trans [OF h(2) later]] h(3) [OF later])
  qed
qed

lemma replayable_pure:
  assumes "\<forall>x. replayable ok keeps (h x)"
  shows "replayable ok keeps (\<lambda>db. bindE m (\<lambda>x. h x db))"
  using assms replayable_raise by (cases m) auto

lemma replayable_get_all:
  assumes "\<forall>i \<in> set is. replayable ok keeps (get i)"
  shows "replayable ok keeps (get_all get is)"
  using assms
proof (induction "is")
  case Nil
  have "get_all get [] = (\<lambda>db. Inr ([], db))" by (rule ext) simp
  then show ?case by (simp only: replayable_return)
next
  case (Cons i "is")
  have "get_all get (i # is) = (\<lambda>db. bindE (get i db) (\<lambda>(r, db).
      bindE (get_all get is db) (\<lambda>(rs, db). Inr (r # rs, db))))" by (rule ext) simp
  moreover have "replayable ok keeps (\<lambda>db. bindE (get i db) (\<lambda>(r, db).
      bindE (get_all get is db) (\<lambda>(rs, db). Inr (r # rs, db))))"
    using Cons by (intro replayable_bind allI replayable_return) auto
  ultimately show ?case by (simp only:)
qed

end

locale keyed_store = replay_store ok keeps
  for ok :: "'db \<Rightarrow> bool" and keeps :: "'db \<Rightarrow> 'db \<Rightarrow> bool" +
  fixes lookup :: "'k \<Rightarrow> 'db \<Rightarrow> 'r option"
    and create :: "'i \<Rightarrow> 'db \<Rightarrow> ('r \<times> 'db) result"
    and key :: "'i \<Rightarrow> 'k"
    and item_ok :: "'i \<Rightarrow> bool"
  assumes create_ok: "ok db \<Longrightarrow> item_ok i \<Longrightarrow> create i db = Inr (r, db') \<Longrightarrow> ok db'"
    and create_keeps: "ok db \<Longrightarrow> item_ok i \<Longrightarrow> create i db = Inr (r, db') \<Longrightarrow> keeps db db'"
    and lookup_create: "ok db \<Longrightarrow> item_ok i \<Longrightarrow> lookup (key i) db = None \<Longrightarrow> create i db = Inr (r, db') \<Longrightarrow>
      lookup (key i) db' = Some r"
    and keeps_lookup: "keeps db db' \<Longrightarrow> lookup k db = Some x \<Longrightarrow> lookup k db' = Some x"
begin

abbreviation get :: "'i \<Rightarrow> 'db \<Rightarrow> ('r \<times> 'db) result" where
  "get \<equiv> get_or_create lookup create key"

lemma get_found:
  assumes "ok db" and "item_ok i" and "get i db = Inr (r, db')"
  shows "ok db'" and "keeps db db'" and "lookup (key i) db' = Some r"
  using assms create_ok create_keeps lookup_create keeps_refl
  by (auto simp: get_or_create_def split: option.splits)

lemma replayable_get:
  assumes "item_ok i"
  shows "replayable ok keeps (get i)"
  unfolding replayable_def
proof (intro allI impI)
  fix db r db' assume "ok db" and g: "get i db = Inr (r, db')"
  note f = get_found [OF \<open>ok db\<close> assms g]
  then show "ok db' \<and> keeps db db' \<and> (\<forall>later. keeps db' later \<longrightarrow> get i later = Inr (r, later))"
    using keeps_lookup by (auto simp: get_or_create_def)
qed

text \<open>What a list of items yields is what is found under their keys afterwards.\<close>

lemma get_all_found:
  assumes "ok db" and "\<forall>i \<in> set is. item_ok i" and "get_all get is db = Inr (rs, db')"
  shows "ok db'" and "keeps db db'" and "list_all2 (\<lambda>i r. lookup (key i) db' = Some r) is rs"
proof -
  have "ok db' \<and> keeps db db' \<and> list_all2 (\<lambda>i r. lookup (key i) db' = Some r) is rs"
    using assms
  proof (induction "is" arbitrary: db rs)
    case (Cons i "is")
    from Cons.prems(3) obtain r db1 rs' where r: "get i db = Inr (r, db1)"
      and rs: "get_all get is db1 = Inr (rs', db')" "rs = r # rs'"
      by (auto simp: result_simps)
    have g: "ok db1" "keeps db db1" "lookup (key i) db1 = Some r"
      using get_found [OF Cons.prems(1) _ r] Cons.prems(2) by auto
    have ih: "ok db' \<and> keeps db1 db' \<and> list_all2 (\<lambda>i r. lookup (key i) db' = Some r) is rs'"
      using Cons.prems(2) by (intro Cons.IH [OF g(1) _ rs(1)]) auto
    then show ?case using rs(2) keeps_lookup [OF _ g(3)] keeps_trans [OF g(2)] by auto
  qed (simp add: keeps_refl)
  then show "ok db'" and "keeps db db'" and "list_all2 (\<lambda>i r. lookup (key i) db' = Some r) is rs" by blast+
qed

end

lemma insert_then_Inr_iff [result_simps]:
  "(case X of (r, rows, env) \<Rightarrow> Inr (r, g rows env)) = Inr (r', db') \<longleftrightarrow>
     (\<exists>rows env. X = (r', rows, env) \<and> db' = g rows env)"
  by (cases X) auto

text \<open>A table whose rows carry increasing creation times, searched by a natural key for its
  earliest row.\<close>

definition rows_before :: "nat \<Rightarrow> 'v row list \<Rightarrow> bool" where
  "rows_before now rows \<longleftrightarrow> (\<forall>r \<in> set rows. row_created_at r < now)"

definition earliest_row :: "('v row \<Rightarrow> bool) \<Rightarrow> 'v row list \<Rightarrow> 'v row option" where
  "earliest_row P rows = earliest_by row_created_at (filter P rows)"

lemma earliest_row_append:
  assumes "rows_before (row_created_at r) rows"
  shows "earliest_row P (rows @ [r]) =
    (case earliest_row P rows of None \<Rightarrow> if P r then Some r else None | Some x \<Rightarrow> Some x)"
proof -
  have "\<forall>y \<in> set (filter P rows). row_created_at y \<le> row_created_at r"
    using assms by (auto simp: rows_before_def)
  then show ?thesis
    by (auto simp: earliest_row_def earliest_by_snoc split: option.splits)
qed

lemma rows_before_append:
  "rows_before now rows \<Longrightarrow> row_created_at r = now \<Longrightarrow> now < now' \<Longrightarrow> rows_before now' (rows @ [r])"
  by (auto simp: rows_before_def intro: less_trans)

lemma rows_before_mono: "rows_before now rows \<Longrightarrow> now \<le> now' \<Longrightarrow> rows_before now' rows"
  by (auto simp: rows_before_def)

lemma earliest_row_Some: "earliest_row P rows = Some r \<Longrightarrow> r \<in> set rows \<and> P r"
  by (auto simp: earliest_row_def dest: earliest_by_in)

end
