(* ===== verification/Revenue_Registry.thy ===== *)
theory Revenue_Registry
  imports Revenue_Schedule Keyed_Store
begin

text \<open>
  \<open>services/revenue/contract_registry.py\<close> and \<open>obligation_tracker.py\<close>: the contracts of a
  request and their obligations and line items are looked up by their natural keys within
  the correlation id of the request and inserted when absent.  The tables of
  \<open>db/models/revenue.py\<close> are the fields of \<open>revenue_db\<close>; the recognition method column is
  kept as the enumeration it parses to.
\<close>

section \<open>Requests and tables\<close>

record obligation_input =
  oi_obligation_code :: string
  oi_description :: string
  oi_standalone_selling_price :: rat
  oi_allocation_basis :: string
  oi_recognition_method :: recognition_method

record line_item_input =
  li_line_code :: string
  li_obligation_code :: "string option"
  li_line_amount :: rat
  li_line_currency :: string
  li_recognition_method :: "recognition_method option"
  li_milestone_reference :: "string option"
  li_usage_reference :: "string option"
  li_completion_percentage :: "rat option"
  li_completed_flag :: "bool option"
  li_milestone_achieved :: "bool option"
  li_usage_quantity :: "rat option"
  li_recognition_date :: "date option"
  li_recognition_start_date :: "date option"
  li_recognition_end_date :: "date option"

record modification_input =
  mi_effective_date :: date
  mi_adjustment_type :: string
  mi_adjustment_reason :: string
  mi_new_total_contract_value :: "rat option"
  mi_requires_catch_up :: bool

record contract_input =
  ci_contract_number :: string
  ci_customer_id :: string
  ci_contract_currency :: string
  ci_contract_start_date :: date
  ci_contract_end_date :: date
  ci_total_contract_value :: rat
  ci_source_contract_reference :: string
  ci_policy_code :: string
  ci_policy_version :: string
  ci_performance_obligations :: "obligation_input list"
  ci_contract_line_items :: "line_item_input list"
  ci_modifications :: "modification_input list"

record revenue_run_request =
  rq_reporting_currency :: string
  rq_rate_mode :: rate_mode
  rq_period_year :: "int option"
  rq_period_month :: "int option"
  rq_contracts :: "contract_input list"

text \<open>What the models of \<open>schemas/revenue.py\<close> accept.  A currency field holds the normalized code
  its validator returns.\<close>

definition sized :: "nat \<Rightarrow> nat \<Rightarrow> string \<Rightarrow> bool" where
  "sized lo hi s \<longleftrightarrow> lo \<le> length s \<and> length s \<le> hi"

definition valid_currency :: "string list option \<Rightarrow> string \<Rightarrow> bool" where
  "valid_currency babel code \<longleftrightarrow> normalize_currency_code babel code = Inr code"

definition valid_obligation_input :: "obligation_input \<Rightarrow> bool" where
  "valid_obligation_input ob \<longleftrightarrow>
     sized 1 128 (oi_obligation_code ob) \<and> sized 1 5000 (oi_description ob)
     \<and> 0 < oi_standalone_selling_price ob \<and> sized 1 64 (oi_allocation_basis ob)"

definition valid_line_item_input :: "string list option \<Rightarrow> line_item_input \<Rightarrow> bool" where
  "valid_line_item_input babel line \<longleftrightarrow>
     sized 1 128 (li_line_code line) \<and> pred_option (sized 1 128) (li_obligation_code line)
     \<and> 0 \<le> li_line_amount line \<and> valid_currency babel (li_line_currency line)
     \<and> pred_option (sized 0 255) (li_milestone_reference line) \<and> pred_option (sized 0 255) (li_usage_reference line)
     \<and> pred_option (\<lambda>x. 0 \<le> x \<and> x \<le> 1) (li_completion_percentage line)
     \<and> pred_option (\<lambda>x. 0 \<le> x) (li_usage_quantity line)
     \<and> pred_option valid_date (li_recognition_date line) \<and> pred_option valid_date (li_recognition_start_date line)
     \<and> pred_option valid_date (li_recognition_end_date line)"

definition valid_modification_input :: "modification_input \<Rightarrow> bool" where
  "valid_modification_input m \<longleftrightarrow>
     valid_date (mi_effective_date m) \<and> sized 1 64 (mi_adjustment_type m) \<and> sized 1 5000 (mi_adjustment_reason m)
     \<and> pred_option (\<lambda>x. 0 < x) (mi_new_total_contract_value m)"

definition valid_contract_input :: "string list option \<Rightarrow> contract_input \<Rightarrow> bool" where
  "valid_contract_input babel c \<longleftrightarrow>
     sized 1 128 (ci_contract_number c) \<and> sized 1 128 (ci_customer_id c) \<and> valid_currency babel (ci_contract_currency c)
     \<and> valid_date (ci_contract_start_date c) \<and> valid_date (ci_contract_end_date c)
     \<and> 0 < ci_total_contract_value c \<and> sized 1 255 (ci_source_contract_reference c)
     \<and> sized 1 64 (ci_policy_code c) \<and> sized 1 64 (ci_policy_version c)
     \<and> ci_performance_obligations c \<noteq> [] \<and> list_all valid_obligation_input (ci_performance_obligations c)
     \<and> ci_contract_line_items c \<noteq> [] \<and> list_all (valid_line_item_input babel) (ci_contract_line_items c)
     \<and> list_all valid_modification_input (ci_modifications c)
     \<and> \<not> ci_contract_end_date c < ci_contract_start_date c
     \<and> distinct (map oi_obligation_code (ci_performance_obligations c))
     \<and> distinct (map li_line_code (ci_contract_line_items c))
     \<and> list_all (\<lambda>line. case li_obligation_code line of None \<Rightarrow> True
           | Some code \<Rightarrow> code \<in> set (map oi_obligation_code (ci_performance_obligations c))) (ci_contract_line_items c)"

definition valid_revenue_request :: "string list option \<Rightarrow> revenue_run_request \<Rightarrow> bool" where
  "valid_revenue_request babel rq \<longleftrightarrow>
     valid_currency babel (rq_reporting_currency rq)
     \<and> pred_option (\<lambda>y. 2000 \<le> y \<and> y \<le> 2100) (rq_period_year rq) \<and> pred_option (\<lambda>m. 1 \<le> m \<and> m \<le> 12) (rq_period_month rq)
     \<and> 1 \<le> length (rq_contracts rq) \<and> length (rq_contracts rq) \<le> 200
     \<and> list_all (valid_contract_input babel) (rq_contracts rq)
     \<and> (rq_rate_mode rq = month_end_locked \<longrightarrow> rq_period_year rq \<noteq> None \<and> rq_period_month rq \<noteq> None)
     \<and> distinct (map ci_contract_number (rq_contracts rq))"

record revenue_contract =
  rk_contract_number :: string
  rk_customer_id :: string
  rk_contract_currency :: string
  rk_contract_start_date :: date
  rk_contract_end_date :: date
  rk_total_contract_value :: rat
  rk_source_contract_reference :: string
  rk_policy_code :: string
  rk_policy_version :: string
  rk_correlation_id :: string
  rk_supersedes_id :: "uuid option"

record revenue_obligation =
  rb_contract_id :: uuid
  rb_obligation_code :: string
  rb_description :: string
  rb_standalone_selling_price :: rat
  rb_allocation_basis :: string
  rb_recognition_method :: recognition_method
  rb_source_contract_reference :: string
  rb_parent_reference_id :: uuid
  rb_source_reference_id :: uuid
  rb_correlation_id :: string
  rb_supersedes_id :: "uuid option"

record revenue_line_item =
  rn_contract_id :: uuid
  rn_obligation_id :: uuid
  rn_line_code :: string
  rn_line_amount :: rat
  rn_line_currency :: string
  rn_milestone_reference :: "string option"
  rn_usage_reference :: "string option"
  rn_source_contract_reference :: string
  rn_parent_reference_id :: uuid
  rn_source_reference_id :: uuid
  rn_correlation_id :: string
  rn_supersedes_id :: "uuid option"

record revenue_adjustment =
  ra_run_id :: uuid
  ra_contract_id :: uuid
  ra_effective_date :: date
  ra_adjustment_type :: string
  ra_adjustment_reason :: string
  ra_idempotency_key :: string
  ra_prior_schedule_version_token :: string
  ra_new_schedule_version_token :: string
  ra_prior_schedule_reference :: "string option"
  ra_new_schedule_reference :: string
  ra_catch_up_amount_reporting_currency :: rat
  ra_source_contract_reference :: string
  ra_parent_reference_id :: uuid
  ra_source_reference_id :: uuid
  ra_correlation_id :: string
  ra_supersedes_id :: "uuid option"

record revenue_schedule =
  rd_run_id :: uuid
  rd_row :: generated_schedule_row
  rd_correlation_id :: string

record revenue_journal_entry =
  rj_run_id :: uuid
  rj_contract_id :: uuid
  rj_obligation_id :: uuid
  rj_schedule_id :: uuid
  rj_journal_reference :: string
  rj_entry_date :: date
  rj_debit_account :: string
  rj_credit_account :: string
  rj_amount_reporting_currency :: rat
  rj_source_contract_reference :: string
  rj_parent_reference_id :: uuid
  rj_source_reference_id :: uuid
  rj_correlation_id :: string

record revenue_db =
  rv_contracts :: "revenue_contract row list"
  rv_obligations :: "revenue_obligation row list"
  rv_line_items :: "revenue_line_item row list"
  rv_schedules :: "revenue_schedule row list"
  rv_adjustments :: "revenue_adjustment row list"
  rv_journals :: "revenue_journal_entry row list"
  rv_env :: env

definition revenue_event :: "uuid \<Rightarrow> uuid \<Rightarrow> string \<Rightarrow> string \<Rightarrow> (string \<times> string) list \<Rightarrow> audit_event" where
  "revenue_event tenant_id user_id action resource_type new_value =
     \<lparr>ae_tenant_id = tenant_id, ae_action = action, ae_resource_type = resource_type, ae_user_id = Some user_id,
      ae_resource_id = None, ae_resource_name = None, ae_old_value = None,
      ae_new_value = Some (JDict (map (\<lambda>(k, v). (k, JStr v)) new_value)), ae_ip_address = None, ae_user_agent = None\<rparr>"

definition str_dict :: "(string \<times> string) list \<Rightarrow> json" where
  "str_dict kvs = JDict (map (\<lambda>(k, v). (k, JStr v)) kvs)"

definition recognition_method_value :: "recognition_method \<Rightarrow> string" where
  "recognition_method_value m = (case m of
     percentage_of_completion \<Rightarrow> ''percentage_of_completion'' | completed_service \<Rightarrow> ''completed_service''
   | milestone_based \<Rightarrow> ''milestone_based'' | straight_line \<Rightarrow> ''straight_line'' | usage_based \<Rightarrow> ''usage_based'')"

section \<open>Contracts\<close>

definition contract_fingerprint :: "contract_input \<Rightarrow> string \<times> string \<times> string" where
  "contract_fingerprint contract =
     (ci_contract_number contract, ci_source_contract_reference contract, ci_policy_version contract)"

definition find_contract :: "uuid \<Rightarrow> string \<Rightarrow> string \<times> string \<times> string \<Rightarrow> revenue_db \<Rightarrow> revenue_contract row option" where
  "find_contract tenant_id correlation_id fingerprint db =
     earliest_row (\<lambda>r. row_tenant r = tenant_id \<and> rk_correlation_id (row_values r) = correlation_id
         \<and> (rk_contract_number (row_values r), rk_source_contract_reference (row_values r),
            rk_policy_version (row_values r)) = fingerprint) (rv_contracts db)"

definition create_contract :: "sha \<Rightarrow> string list option \<Rightarrow> uuid \<Rightarrow> uuid \<Rightarrow> string \<Rightarrow> contract_input \<Rightarrow> revenue_db
    \<Rightarrow> (revenue_contract row \<times> revenue_db) result" where
  "create_contract sha babel tenant_id user_id correlation_id contract db =
     bindE (quantize_persisted_amount (ci_total_contract_value contract)) (\<lambda>total_contract_value.
     bindE (raise_if (total_contract_value \<le> 0) (ValidationError ''total_contract_value must be positive'')) (\<lambda>_.
     bindE (normalize_currency_code babel (ci_contract_currency contract)) (\<lambda>currency.
     bindE (numeric_20_6 total_contract_value) (\<lambda>stored_total.
     let (r, rows, env) = insert_financial_record sha (\<lambda>v. v) tenant_id
           (str_dict [(''contract_number'', ci_contract_number contract), (''customer_id'', ci_customer_id contract),
                      (''contract_currency'', ci_contract_currency contract),
                      (''source_contract_reference'', ci_source_contract_reference contract)])
           \<lparr>rk_contract_number = ci_contract_number contract, rk_customer_id = ci_customer_id contract,
            rk_contract_currency = currency, rk_contract_start_date = ci_contract_start_date contract,
            rk_contract_end_date = ci_contract_end_date contract, rk_total_contract_value = stored_total,
            rk_source_contract_reference = ci_source_contract_reference contract,
            rk_policy_code = ci_policy_code contract, rk_policy_version = ci_policy_version contract,
            rk_correlation_id = correlation_id, rk_supersedes_id = None\<rparr>
           (Some (revenue_event tenant_id user_id ''revenue.contract.created'' ''revenue_contract''
             [(''contract_number'', ci_contract_number contract),
              (''source_contract_reference'', ci_source_contract_reference contract),
              (''correlation_id'', correlation_id)]))
           (rv_contracts db, rv_env db)
     in Inr (r, db\<lparr>rv_contracts := rows, rv_env := env\<rparr>)))))"

definition registered_of_row :: "revenue_contract row \<Rightarrow> registered_contract" where
  "registered_of_row r =
     \<lparr>rc_contract_id = row_id r, rc_contract_number = rk_contract_number (row_values r),
      rc_contract_currency = rk_contract_currency (row_values r),
      rc_contract_start_date = rk_contract_start_date (row_values r),
      rc_contract_end_date = rk_contract_end_date (row_values r),
      rc_total_contract_value = rk_total_contract_value (row_values r),
      rc_source_contract_reference = rk_source_contract_reference (row_values r)\<rparr>"

definition get_contract :: "sha \<Rightarrow> string list option \<Rightarrow> uuid \<Rightarrow> uuid \<Rightarrow> string \<Rightarrow> contract_input \<Rightarrow> revenue_db
    \<Rightarrow> (revenue_contract row \<times> revenue_db) result" where
  "get_contract sha babel tenant_id user_id correlation_id =
     get_or_create (find_contract tenant_id correlation_id)
       (create_contract sha babel tenant_id user_id correlation_id) contract_fingerprint"

fun register_loop :: "(contract_input \<Rightarrow> revenue_db \<Rightarrow> (revenue_contract row \<times> revenue_db) result)
    \<Rightarrow> (string \<times> string \<times> string) list \<Rightarrow> contract_input list \<Rightarrow> revenue_db
    \<Rightarrow> (revenue_contract row list \<times> revenue_db) result" where
  "register_loop get seen_fingerprints [] db = Inr ([], db)"
| "register_loop get seen_fingerprints (contract # contracts) db =
     bindE (raise_if (contract_fingerprint contract \<in> set seen_fingerprints)
             (ValidationError ''Duplicate contract fingerprint in request payload'')) (\<lambda>_.
     bindE (get contract db) (\<lambda>(r, db).
     bindE (register_loop get (contract_fingerprint contract # seen_fingerprints) contracts db) (\<lambda>(rs, db).
     Inr (r # rs, db))))"

definition register_contracts :: "sha \<Rightarrow> string list option \<Rightarrow> uuid \<Rightarrow> uuid \<Rightarrow> string \<Rightarrow> contract_input list \<Rightarrow> revenue_db
    \<Rightarrow> (registered_contract list \<times> revenue_db) result" where
  "register_contracts sha babel tenant_id user_id correlation_id contracts db =
     bindE (register_loop (get_contract sha babel tenant_id user_id correlation_id) [] contracts db) (\<lambda>(rows, db).
     Inr (sort_key (\<lambda>item. (rc_contract_number item, rc_contract_id item)) (map registered_of_row rows), db))"

section \<open>Obligations and line items\<close>

definition find_obligation :: "uuid \<Rightarrow> string \<Rightarrow> uuid \<times> string \<Rightarrow> revenue_db \<Rightarrow> revenue_obligation row option" where
  "find_obligation tenant_id correlation_id k db =
     earliest_row (\<lambda>r. row_tenant r = tenant_id \<and> rb_correlation_id (row_values r) = correlation_id
         \<and> (rb_contract_id (row_values r), rb_obligation_code (row_values r)) = k) (rv_obligations db)"

definition create_obligation :: "sha \<Rightarrow> uuid \<Rightarrow> uuid \<Rightarrow> string \<Rightarrow> registered_contract \<times> obligation_input \<Rightarrow> revenue_db
    \<Rightarrow> (revenue_obligation row \<times> revenue_db) result" where
  "create_obligation sha tenant_id user_id correlation_id = (\<lambda>(registered_contract, obligation) db.
     bindE (quantize_persisted_amount (oi_standalone_selling_price obligation)) (\<lambda>quantized.
     bindE (numeric_20_6 quantized) (\<lambda>standalone_selling_price.
     let contract_id = rc_contract_id registered_contract;
         (r, rows, env) = insert_financial_record sha (\<lambda>v. v) tenant_id
           (str_dict [(''contract_id'', uuid_text contract_id), (''obligation_code'', oi_obligation_code obligation),
                      (''recognition_method'', recognition_method_value (oi_recognition_method obligation))])
           \<lparr>rb_contract_id = contract_id, rb_obligation_code = oi_obligation_code obligation,
            rb_description = oi_description obligation, rb_standalone_selling_price = standalone_selling_price,
            rb_allocation_basis = oi_allocation_basis obligation, rb_recognition_method = oi_recognition_method obligation,
            rb_source_contract_reference = rc_source_contract_reference registered_contract,
            rb_parent_reference_id = contract_id, rb_source_reference_id = contract_id,
            rb_correlation_id = correlation_id, rb_supersedes_id = None\<rparr>
           (Some (revenue_event tenant_id user_id ''revenue.obligation.created'' ''revenue_performance_obligation''
             [(''contract_id'', uuid_text contract_id), (''obligation_code'', oi_obligation_code obligation),
              (''correlation_id'', correlation_id)]))
           (rv_obligations db, rv_env db)
     in Inr (r, db\<lparr>rv_obligations := rows, rv_env := env\<rparr>))))"

definition find_line_item :: "uuid \<Rightarrow> string \<Rightarrow> uuid \<times> string \<Rightarrow> revenue_db \<Rightarrow> revenue_line_item row option" where
  "find_line_item tenant_id correlation_id k db =
     earliest_row (\<lambda>r. row_tenant r = tenant_id \<and> rn_correlation_id (row_values r) = correlation_id
         \<and> (rn_contract_id (row_values r), rn_line_code (row_values r)) = k) (rv_line_items db)"

definition create_line_item :: "sha \<Rightarrow> string list option \<Rightarrow> (rat \<Rightarrow> string) \<Rightarrow> uuid \<Rightarrow> uuid \<Rightarrow> string
    \<Rightarrow> registered_contract \<times> uuid \<times> line_item_input \<Rightarrow> revenue_db
    \<Rightarrow> (revenue_line_item row \<times> revenue_db) result" where
  "create_line_item sha babel dec_str tenant_id user_id correlation_id = (\<lambda>(registered_contract, obligation_id, line_item) db.
     bindE (quantize_persisted_amount (li_line_amount line_item)) (\<lambda>quantized.
     bindE (normalize_currency_code babel (li_line_currency line_item)) (\<lambda>line_currency.
     bindE (numeric_20_6 quantized) (\<lambda>line_amount.
     let contract_id = rc_contract_id registered_contract;
         (r, rows, env) = insert_financial_record sha (\<lambda>v. v) tenant_id
           (str_dict [(''contract_id'', uuid_text contract_id), (''line_code'', li_line_code line_item),
                      (''line_amount'', dec_str (li_line_amount line_item))])
           \<lparr>rn_contract_id = contract_id, rn_obligation_id = obligation_id, rn_line_code = li_line_code line_item,
            rn_line_amount = line_amount, rn_line_currency = line_currency,
            rn_milestone_reference = li_milestone_reference line_item, rn_usage_reference = li_usage_reference line_item,
            rn_source_contract_reference = rc_source_contract_reference registered_contract,
            rn_parent_reference_id = obligation_id, rn_source_reference_id = contract_id,
            rn_correlation_id = correlation_id, rn_supersedes_id = None\<rparr>
           (Some (revenue_event tenant_id user_id ''revenue.line_item.created'' ''revenue_contract_line_item''
             [(''contract_id'', uuid_text contract_id), (''line_code'', li_line_code line_item),
              (''correlation_id'', correlation_id)]))
           (rv_line_items db, rv_env db)
     in Inr (r, db\<lparr>rv_line_items := rows, rv_env := env\<rparr>)))))"

text \<open>The dictionaries \<open>obligation_method_by_code\<close> and \<open>obligation_id_by_code\<close> have the same keys;
  both are read off one dictionary of rows.\<close>

definition registered_obligation_of_row :: "registered_contract \<Rightarrow> revenue_obligation row \<Rightarrow> registered_obligation" where
  "registered_obligation_of_row registered_contract existing =
     \<lparr>ro_obligation_id = row_id existing, ro_contract_id = rb_contract_id (row_values existing),
      ro_contract_number = rc_contract_number registered_contract,
      ro_obligation_code = rb_obligation_code (row_values existing),
      ro_recognition_method = rb_recognition_method (row_values existing),
      ro_standalone_selling_price = rb_standalone_selling_price (row_values existing)\<rparr>"

definition obligation_by_code :: "revenue_obligation row list \<Rightarrow> (string \<times> revenue_obligation row) list" where
  "obligation_by_code rows = py_dict (map (\<lambda>r. (rb_obligation_code (row_values r), r)) rows)"

definition resolve_line_obligation :: "(string \<times> revenue_obligation row) list \<Rightarrow> line_item_input
    \<Rightarrow> (uuid \<times> recognition_method) result" where
  "resolve_line_obligation by_code line_item =
     (let sorted_obligation_codes = sort (map fst by_code);
          default_obligation = (case sorted_obligation_codes of
              [] \<Rightarrow> None
            | c # _ \<Rightarrow> map_of by_code c) in
      bindE (case li_obligation_code line_item of
               Some code \<Rightarrow> Inr code
             | None \<Rightarrow> (case sorted_obligation_codes of
                   [code] \<Rightarrow> Inr code
                 | _ \<Rightarrow> Inl (ValidationError
                     ''line item obligation_code is required when a contract has multiple obligations'')))
        (\<lambda>resolved_obligation_code.
      bindE (case map_of by_code resolved_obligation_code of
               Some r \<Rightarrow> Inr (row_id r)
             | None \<Rightarrow> (case default_obligation of
                   None \<Rightarrow> Inl (ValidationError ''Contract line item has no resolvable obligation'')
                 | Some r \<Rightarrow> Inr (row_id r)))
        (\<lambda>obligation_id.
      bindE (case li_recognition_method line_item of
               Some m \<Rightarrow> Inr m
             | None \<Rightarrow> (case map_of by_code resolved_obligation_code of
                   None \<Rightarrow> Inl KeyError
                 | Some r \<Rightarrow> Inr (rb_recognition_method (row_values r))))
        (\<lambda>resolved_method. Inr (obligation_id, resolved_method)))))"

definition registered_line_of_row :: "registered_contract \<Rightarrow> uuid \<Rightarrow> recognition_method \<Rightarrow> line_item_input
    \<Rightarrow> revenue_line_item row \<Rightarrow> registered_line_item" where
  "registered_line_of_row registered_contract obligation_id resolved_method line_item existing_line =
     \<lparr>rl_line_item_id = row_id existing_line, rl_contract_id = rc_contract_id registered_contract,
      rl_contract_number = rc_contract_number registered_contract, rl_obligation_id = obligation_id,
      rl_line_code = rn_line_code (row_values existing_line), rl_line_amount = rn_line_amount (row_values existing_line),
      rl_line_currency = rn_line_currency (row_values existing_line),
      rl_milestone_reference = rn_milestone_reference (row_values existing_line),
      rl_usage_reference = rn_usage_reference (row_values existing_line),
      rl_source_contract_reference = rn_source_contract_reference (row_values existing_line),
      rl_recognition_method = resolved_method, rl_completion_percentage = li_completion_percentage line_item,
      rl_completed_flag = li_completed_flag line_item, rl_milestone_achieved = li_milestone_achieved line_item,
      rl_usage_quantity = li_usage_quantity line_item, rl_recognition_date = li_recognition_date line_item,
      rl_recognition_start_date = li_recognition_start_date line_item,
      rl_recognition_end_date = li_recognition_end_date line_item\<rparr>"

definition obligation_key :: "registered_contract \<times> obligation_input \<Rightarrow> uuid \<times> string" where
  "obligation_key = (\<lambda>(registered_contract, obligation).
     (rc_contract_id registered_contract, oi_obligation_code obligation))"

definition line_item_key :: "registered_contract \<times> uuid \<times> line_item_input \<Rightarrow> uuid \<times> string" where
  "line_item_key = (\<lambda>(registered_contract, obligation_id, line_item).
     (rc_contract_id registered_contract, li_line_code line_item))"

definition get_obligation :: "sha \<Rightarrow> uuid \<Rightarrow> uuid \<Rightarrow> string \<Rightarrow> registered_contract \<times> obligation_input \<Rightarrow> revenue_db
    \<Rightarrow> (revenue_obligation row \<times> revenue_db) result" where
  "get_obligation sha tenant_id user_id correlation_id =
     get_or_create (find_obligation tenant_id correlation_id)
       (create_obligation sha tenant_id user_id correlation_id) obligation_key"

definition get_line_item :: "sha \<Rightarrow> string list option \<Rightarrow> (rat \<Rightarrow> string) \<Rightarrow> uuid \<Rightarrow> uuid \<Rightarrow> string
    \<Rightarrow> registered_contract \<times> uuid \<times> line_item_input \<Rightarrow> revenue_db
    \<Rightarrow> (revenue_line_item row \<times> revenue_db) result" where
  "get_line_item sha babel dec_str tenant_id user_id correlation_id =
     get_or_create (find_line_item tenant_id correlation_id)
       (create_line_item sha babel dec_str tenant_id user_id correlation_id) line_item_key"

definition register_line_item :: "sha \<Rightarrow> string list option \<Rightarrow> (rat \<Rightarrow> string) \<Rightarrow> uuid \<Rightarrow> uuid \<Rightarrow> string
    \<Rightarrow> registered_contract \<Rightarrow> (string \<times> revenue_obligation row) list \<Rightarrow> line_item_input \<Rightarrow> revenue_db
    \<Rightarrow> (registered_line_item \<times> revenue_db) result" where
  "register_line_item sha babel dec_str tenant_id user_id correlation_id registered_contract by_code line_item db =
     bindE (resolve_line_obligation by_code line_item) (\<lambda>(obligation_id, resolved_method).
     bindE (get_line_item sha babel dec_str tenant_id user_id correlation_id
              (registered_contract, obligation_id, line_item) db) (\<lambda>(existing_line, db).
     Inr (registered_line_of_row registered_contract obligation_id resolved_method line_item existing_line, db)))"

definition register_contract_obligations :: "sha \<Rightarrow> string list option \<Rightarrow> (rat \<Rightarrow> string) \<Rightarrow> uuid \<Rightarrow> uuid \<Rightarrow> string
    \<Rightarrow> registered_contract list \<Rightarrow> contract_input \<Rightarrow> revenue_db
    \<Rightarrow> ((registered_obligation list \<times> registered_line_item list) \<times> revenue_db) result" where
  "register_contract_obligations sha babel dec_str tenant_id user_id correlation_id registered_contracts contract db =
     (case dict_by rc_contract_number registered_contracts (ci_contract_number contract) of
        None \<Rightarrow> Inl (ValidationError ''Contract was not registered before obligation tracking'')
      | Some registered_contract \<Rightarrow>
          bindE (get_all (get_obligation sha tenant_id user_id correlation_id)
                   (map (\<lambda>obligation. (registered_contract, obligation))
                     (sort_key oi_obligation_code (ci_performance_obligations contract))) db) (\<lambda>(rows, db).
          bindE (get_all (register_line_item sha babel dec_str tenant_id user_id correlation_id registered_contract
                            (obligation_by_code rows))
                   (sort_key li_line_code (ci_contract_line_items contract)) db) (\<lambda>(line_items, db).
          Inr ((map (registered_obligation_of_row registered_contract) rows, line_items), db))))"

record registered_obligation_set =
  os_obligations :: "registered_obligation list"
  os_line_items :: "registered_line_item list"

definition register_obligations_and_line_items :: "sha \<Rightarrow> string list option \<Rightarrow> (rat \<Rightarrow> string) \<Rightarrow> uuid \<Rightarrow> uuid \<Rightarrow> string
    \<Rightarrow> contract_input list \<Rightarrow> registered_contract list \<Rightarrow> revenue_db
    \<Rightarrow> (registered_obligation_set \<times> revenue_db) result" where
  "register_obligations_and_line_items sha babel dec_str tenant_id user_id correlation_id contracts registered_contracts db =
     bindE (get_all (register_contract_obligations sha babel dec_str tenant_id user_id correlation_id registered_contracts)
              (sort_key ci_contract_number contracts) db) (\<lambda>(sets, db).
     Inr (\<lparr>os_obligations = sort_key (\<lambda>item. (ro_contract_number item, ro_obligation_code item)) (concat (map fst sets)),
           os_line_items = sort_key (\<lambda>item. (rl_contract_number item, rl_line_code item)) (concat (map snd sets))\<rparr>, db))"

text \<open>The prefix the three engine activities share.\<close>

definition register_request :: "sha \<Rightarrow> string list option \<Rightarrow> (rat \<Rightarrow> string) \<Rightarrow> uuid \<Rightarrow> uuid \<Rightarrow> string
    \<Rightarrow> contract_input list \<Rightarrow> revenue_db
    \<Rightarrow> ((registered_contract list \<times> registered_obligation_set) \<times> revenue_db) result" where
  "register_request sha babel dec_str tenant_id user_id correlation_id inputs db =
     bindE (register_contracts sha babel tenant_id user_id correlation_id inputs db) (\<lambda>(contracts, db).
     bindE (register_obligations_and_line_items sha babel dec_str tenant_id user_id correlation_id
              inputs contracts db) (\<lambda>(obligation_set, db).
     Inr ((contracts, obligation_set), db)))"

section \<open>Look-ups survive inserts\<close>

definition tables_ok :: "revenue_db \<Rightarrow> bool" where
  "tables_ok db \<longleftrightarrow> rows_before (env_now (rv_env db)) (rv_contracts db)
     \<and> rows_before (env_now (rv_env db)) (rv_obligations db) \<and> rows_before (env_now (rv_env db)) (rv_line_items db)
     \<and> distinct (map row_id (rv_contracts db)) \<and> (\<forall>r \<in> set (rv_contracts db). row_id r < env_next_id (rv_env db)
         \<and> money (rk_total_contract_value (row_values r)) \<and> 0 < rk_total_contract_value (row_values r))
     \<and> (\<forall>r \<in> set (rv_obligations db). money (rb_standalone_selling_price (row_values r))
         \<and> 0 \<le> rb_standalone_selling_price (row_values r))"

definition priced :: "registered_contract \<times> obligation_input \<Rightarrow> bool" where
  "priced i \<longleftrightarrow> 0 \<le> oi_standalone_selling_price (snd i)"

definition requested :: "contract_input \<Rightarrow> bool" where
  "requested c \<longleftrightarrow> (\<forall>ob \<in> set (ci_performance_obligations c). 0 \<le> oi_standalone_selling_price ob)"

definition keeps_lookups :: "revenue_db \<Rightarrow> revenue_db \<Rightarrow> bool" where
  "keeps_lookups db later \<longleftrightarrow>
     (\<forall>tenant_id correlation_id k x. find_contract tenant_id correlation_id k db = Some x \<longrightarrow> find_contract tenant_id correlation_id k later = Some x)
   \<and> (\<forall>tenant_id correlation_id k x. find_obligation tenant_id correlation_id k db = Some x \<longrightarrow> find_obligation tenant_id correlation_id k later = Some x)
   \<and> (\<forall>tenant_id correlation_id k x. find_line_item tenant_id correlation_id k db = Some x \<longrightarrow> find_line_item tenant_id correlation_id k later = Some x)"

lemma create_contract_cases:
  assumes "create_contract sha babel tenant_id user_id correlation_id contract db = Inr (r, db')"
  shows "rv_contracts db' = rv_contracts db @ [r]" "rv_obligations db' = rv_obligations db"
    "rv_line_items db' = rv_line_items db" "env_now (rv_env db) < env_now (rv_env db')"
    "env_next_id (rv_env db) < env_next_id (rv_env db')" "row_id r = env_next_id (rv_env db)"
    "row_created_at r = env_now (rv_env db)" "row_tenant r = tenant_id"
    "rk_correlation_id (row_values r) = correlation_id"
    "(rk_contract_number (row_values r), rk_source_contract_reference (row_values r),
      rk_policy_version (row_values r)) = contract_fingerprint contract"
    "money (rk_total_contract_value (row_values r)) \<and> 0 < rk_total_contract_value (row_values r)"
  using assms
  by (auto simp: create_contract_def result_simps contract_fingerprint_def stored_money stored_pos
      insert_financial_record_facts)

lemma create_obligation_cases:
  assumes "create_obligation sha tenant_id user_id correlation_id i db = Inr (r, db')"
  shows "rv_obligations db' = rv_obligations db @ [r]" "rv_contracts db' = rv_contracts db"
    "rv_line_items db' = rv_line_items db" "env_now (rv_env db) < env_now (rv_env db')"
    "env_next_id (rv_env db) < env_next_id (rv_env db')" "row_id r = env_next_id (rv_env db)"
    "row_created_at r = env_now (rv_env db)" "row_tenant r = tenant_id"
    "rb_correlation_id (row_values r) = correlation_id"
    "(rb_contract_id (row_values r), rb_obligation_code (row_values r)) = obligation_key i"
    "money (rb_standalone_selling_price (row_values r))"
    "priced i \<Longrightarrow> 0 \<le> rb_standalone_selling_price (row_values r)"
  using assms
  by (auto simp: create_obligation_def result_simps obligation_key_def stored_money Let_def priced_def stored_nonneg
      insert_financial_record_facts split: prod.splits)

lemma create_line_item_cases:
  assumes "create_line_item sha babel dec_str tenant_id user_id correlation_id i db = Inr (r, db')"
  shows "rv_line_items db' = rv_line_items db @ [r]" "rv_contracts db' = rv_contracts db"
    "rv_obligations db' = rv_obligations db" "env_now (rv_env db) < env_now (rv_env db')"
    "env_next_id (rv_env db) < env_next_id (rv_env db')" "row_id r = env_next_id (rv_env db)"
    "row_created_at r = env_now (rv_env db)" "row_tenant r = tenant_id"
    "rn_correlation_id (row_values r) = correlation_id"
    "(rn_contract_id (row_values r), rn_line_code (row_values r)) = line_item_key i"
    "money (rn_line_amount (row_values r))"
  using assms
  by (auto simp: create_line_item_def result_simps line_item_key_def stored_money Let_def
      insert_financial_record_facts split: prod.splits)

lemma keeps_lookups_refl: "keeps_lookups db db"
  by (simp add: keeps_lookups_def)

lemma keeps_lookups_trans:
  "keeps_lookups a b \<Longrightarrow> keeps_lookups b c
     \<Longrightarrow> keeps_lookups a c"
  by (simp add: keeps_lookups_def)

lemma create_contract_keeps:
  assumes "create_contract sha babel tenant_id user_id correlation_id i db = Inr (r, db')" and "tables_ok db"
  shows "tables_ok db'" and "keeps_lookups db db'"
    and "find_contract tenant_id correlation_id (contract_fingerprint i) db = None \<Longrightarrow>
      find_contract tenant_id correlation_id (contract_fingerprint i) db' = Some r"
proof -
  note c = create_contract_cases [OF assms(1)]
  have b: "rows_before (row_created_at r) (rv_contracts db)" using assms(2) c(7) by (simp add: tables_ok_def)
  show "tables_ok db'"
    using assms(2) c(1-7,11) by (auto simp: tables_ok_def intro: rows_before_append rows_before_mono less_trans)
  show "keeps_lookups db db'"
    by (simp add: keeps_lookups_def find_contract_def find_obligation_def find_line_item_def c(1-3) earliest_row_append [OF b])
  show "find_contract tenant_id correlation_id (contract_fingerprint i) db' = Some r"
    if "find_contract tenant_id correlation_id (contract_fingerprint i) db = None"
    using that by (simp add: find_contract_def c(1,8-10) earliest_row_append [OF b])
qed

lemma create_obligation_keeps:
  assumes "create_obligation sha tenant_id user_id correlation_id i db = Inr (r, db')" and "tables_ok db" and "priced i"
  shows "tables_ok db'" and "keeps_lookups db db'"
    and "find_obligation tenant_id correlation_id (obligation_key i) db = None \<Longrightarrow>
      find_obligation tenant_id correlation_id (obligation_key i) db' = Some r"
proof -
  note c = create_obligation_cases [OF assms(1)]
  have b: "rows_before (row_created_at r) (rv_obligations db)" using assms(2) c(7) by (simp add: tables_ok_def)
  show "tables_ok db'"
    using assms(2,3) c(1-5,7,11,12) by (auto simp: tables_ok_def intro: rows_before_append rows_before_mono less_trans)
  show "keeps_lookups db db'"
    by (simp add: keeps_lookups_def find_contract_def find_obligation_def find_line_item_def c(1-3) earliest_row_append [OF b])
  show "find_obligation tenant_id correlation_id (obligation_key i) db' = Some r"
    if "find_obligation tenant_id correlation_id (obligation_key i) db = None"
    using that by (simp add: find_obligation_def c(1,8-10) earliest_row_append [OF b])
qed

lemma create_line_item_keeps:
  assumes "create_line_item sha babel dec_str tenant_id user_id correlation_id i db = Inr (r, db')" and "tables_ok db"
  shows "tables_ok db'" and "keeps_lookups db db'"
    and "find_line_item tenant_id correlation_id (line_item_key i) db = None \<Longrightarrow>
      find_line_item tenant_id correlation_id (line_item_key i) db' = Some r"
proof -
  note c = create_line_item_cases [OF assms(1)]
  have b: "rows_before (row_created_at r) (rv_line_items db)" using assms(2) c(7) by (simp add: tables_ok_def)
  show "tables_ok db'"
    using assms(2) c(1-7,11) by (auto simp: tables_ok_def intro: rows_before_append rows_before_mono less_trans)
  show "keeps_lookups db db'"
    by (simp add: keeps_lookups_def find_contract_def find_obligation_def find_line_item_def c(1-3) earliest_row_append [OF b])
  show "find_line_item tenant_id correlation_id (line_item_key i) db' = Some r"
    if "find_line_item tenant_id correlation_id (line_item_key i) db = None"
    using that by (simp add: find_line_item_def c(1,8-10) earliest_row_append [OF b])
qed

text \<open>The three tables keep the contract of \<open>keyed_store\<close>.\<close>

interpretation tables: replay_store tables_ok keeps_lookups
  by unfold_locales (auto intro: keeps_lookups_refl keeps_lookups_trans)

interpretation contracts: keyed_store tables_ok keeps_lookups
    "find_contract tenant_id correlation_id" "create_contract sha babel tenant_id user_id correlation_id"
    contract_fingerprint "\<lambda>_. True"
  for sha babel tenant_id user_id correlation_id
  by unfold_locales (auto dest: create_contract_keeps simp: keeps_lookups_def)

interpretation obligations: keyed_store tables_ok keeps_lookups
    "find_obligation tenant_id correlation_id" "create_obligation sha tenant_id user_id correlation_id" obligation_key priced
  for sha tenant_id user_id correlation_id
  by unfold_locales (auto dest: create_obligation_keeps simp: keeps_lookups_def)

interpretation line_items: keyed_store tables_ok keeps_lookups
    "find_line_item tenant_id correlation_id"
    "create_line_item sha babel dec_str tenant_id user_id correlation_id" line_item_key "\<lambda>_. True"
  for sha babel dec_str tenant_id user_id correlation_id
  by unfold_locales (auto dest: create_line_item_keeps simp: keeps_lookups_def)

section \<open>Registering twice\<close>

lemma replayable_register_line:
  "replayable tables_ok keeps_lookups
     (register_line_item sha babel dec_str tenant_id user_id correlation_id registered_contract by_code line_item)"
  unfolding register_line_item_def get_line_item_def case_prod_beta
  by (intro tables.replayable_pure tables.replayable_bind [unfolded case_prod_beta] allI line_items.replayable_get
      TrueI tables.replayable_return)

lemma replayable_register_contract:
  assumes "requested contract"
  shows "replayable tables_ok keeps_lookups
     (register_contract_obligations sha babel dec_str tenant_id user_id correlation_id registered_contracts contract)"
proof (cases "dict_by rc_contract_number registered_contracts (ci_contract_number contract)")
  case None
  then show ?thesis by (simp add: register_contract_obligations_def [abs_def] tables.replayable_raise)
next
  case (Some rc)
  show ?thesis
    unfolding register_contract_obligations_def Some option.case get_obligation_def
    using assms
    by (intro tables.replayable_bind allI tables.replayable_get_all ballI obligations.replayable_get
        replayable_register_line tables.replayable_return) (auto simp: priced_def requested_def)
qed

lemma replayable_register_loop:
  "replayable tables_ok keeps_lookups
     (register_loop (get_contract sha babel tenant_id user_id correlation_id) seen_fingerprints contracts)"
proof (induction contracts arbitrary: seen_fingerprints)
  case Nil
  have "register_loop (get_contract sha babel tenant_id user_id correlation_id) seen_fingerprints [] = (\<lambda>db. Inr ([], db))"
    by (rule ext) simp
  then show ?case by (simp only: tables.replayable_return)
next
  case (Cons contract contracts)
  let ?get = "get_contract sha babel tenant_id user_id correlation_id"
  have eq: "register_loop ?get seen_fingerprints (contract # contracts) = (\<lambda>db.
     bindE (raise_if (contract_fingerprint contract \<in> set seen_fingerprints)
             (ValidationError ''Duplicate contract fingerprint in request payload'')) (\<lambda>_.
     bindE (?get contract db) (\<lambda>(r, db).
     bindE (register_loop ?get (contract_fingerprint contract # seen_fingerprints) contracts db) (\<lambda>(rs, db).
     Inr (r # rs, db)))))"
    by (rule ext) simp
  show ?case
    unfolding eq unfolding get_contract_def
    by (intro tables.replayable_pure tables.replayable_bind allI contracts.replayable_get TrueI tables.replayable_return
        Cons.IH [unfolded get_contract_def])
qed

lemma replayable_register_request:
  assumes "list_all requested inputs"
  shows "replayable tables_ok keeps_lookups (register_request sha babel dec_str tenant_id user_id correlation_id inputs)"
  unfolding register_request_def register_contracts_def register_obligations_and_line_items_def
  using assms
  by (intro tables.replayable_bind allI replayable_register_loop tables.replayable_get_all ballI
      replayable_register_contract tables.replayable_return) (auto simp: list_all_iff)

inductive registrations :: "sha \<Rightarrow> string list option \<Rightarrow> (rat \<Rightarrow> string) \<Rightarrow> revenue_db \<Rightarrow> revenue_db \<Rightarrow> bool"
  for sha babel dec_str where
  none: "registrations sha babel dec_str db db"
| register: "registrations sha babel dec_str db db1
     \<Longrightarrow> list_all (valid_contract_input babel) inputs
     \<Longrightarrow> register_request sha babel dec_str tenant_id user_id correlation_id inputs db1 = Inr (x, db2)
     \<Longrightarrow> registrations sha babel dec_str db db2"

lemma valid_requested: "list_all (valid_contract_input babel) inputs \<Longrightarrow> list_all requested inputs"
  by (auto simp: list_all_iff valid_contract_input_def valid_obligation_input_def requested_def order.strict_implies_order)

lemma registrations_keep:
  "registrations sha babel dec_str db later \<Longrightarrow> tables_ok db \<Longrightarrow> tables_ok later \<and> keeps_lookups db later"
proof (induction rule: registrations.induct)
  case (register db db1 inputs tenant_id user_id correlation_id x db2)
  then show ?case
    using replayableD [OF replayable_register_request [OF valid_requested [OF register.hyps(2)]] _ register.hyps(3)] keeps_lookups_trans by blast
qed (simp add: keeps_lookups_refl)

section \<open>What a registration returns\<close>

definition row_fingerprint :: "revenue_contract row \<Rightarrow> string \<times> string \<times> string" where
  "row_fingerprint r = (rk_contract_number (row_values r), rk_source_contract_reference (row_values r),
     rk_policy_version (row_values r))"

lemma find_contract_Some:
  "find_contract tenant_id correlation_id k db = Some r \<Longrightarrow> r \<in> set (rv_contracts db) \<and> row_fingerprint r = k"
  by (auto simp: find_contract_def row_fingerprint_def dest!: earliest_row_Some)

lemma find_obligation_Some:
  "find_obligation tenant_id correlation_id k db = Some r \<Longrightarrow> r \<in> set (rv_obligations db) \<and>
     k = (rb_contract_id (row_values r), rb_obligation_code (row_values r))"
  by (auto simp: find_obligation_def dest!: earliest_row_Some)

lemma register_loop_get_all:
  "register_loop get seen contracts db = Inr (rs, db') \<Longrightarrow>
     get_all get contracts db = Inr (rs, db') \<and> distinct (map contract_fingerprint contracts)
     \<and> contract_fingerprint ` set contracts \<inter> set seen = {}"
proof (induction contracts arbitrary: seen db rs)
  case (Cons c cs)
  then obtain r db1 rs' where "contract_fingerprint c \<notin> set seen" "get c db = Inr (r, db1)"
    "register_loop get (contract_fingerprint c # seen) cs db1 = Inr (rs', db')" "rs = r # rs'"
    by (auto simp: result_simps)
  with Cons.IH [OF this(3)] show ?case by auto
qed simp

lemma register_contracts_facts:
  assumes "register_contracts sha babel tenant_id user_id correlation_id inputs db = Inr (contracts, db')" and "tables_ok db"
  shows "tables_ok db'" and "distinct (map rc_contract_id contracts)"
    and "c \<in> set contracts \<Longrightarrow> money (rc_total_contract_value c) \<and> 0 < rc_total_contract_value c"
    and "rc_contract_number ` set contracts = ci_contract_number ` set inputs"
proof -
  from assms(1) obtain rows where
    loop: "register_loop (get_contract sha babel tenant_id user_id correlation_id) [] inputs db = Inr (rows, db')"
    and contracts: "mset contracts = mset (map registered_of_row rows)"
    by (auto simp: register_contracts_def result_simps)
  note l = register_loop_get_all [OF loop]
  note f = contracts.get_all_found [OF assms(2) _ l [unfolded get_contract_def, THEN conjunct1], simplified]
  show ok: "tables_ok db'" by (rule f(1))
  have "list_all2 (\<lambda>i r. row_fingerprint r = contract_fingerprint i \<and> r \<in> set (rv_contracts db')) inputs rows"
    by (rule list_all2_mono [OF f(3)]) (drule find_contract_Some, simp)
  then have fp: "map row_fingerprint rows = map contract_fingerprint inputs"
    and sub: "set rows \<subseteq> set (rv_contracts db')"
    by (induction rule: list_all2_induct) auto
  have "distinct rows" using l fp by (metis distinct_map)
  moreover have "inj_on row_id (set rows)"
    using ok sub by (auto simp: tables_ok_def distinct_map intro: inj_on_subset)
  ultimately have "distinct (map row_id rows)" by (simp add: distinct_map)
  then show "distinct (map rc_contract_id contracts)"
    by (subst distinct_map_mset [OF contracts]) (simp add: registered_of_row_def o_def)
  have set: "set contracts = registered_of_row ` set rows" using arg_cong [OF contracts, of set_mset] by simp
  show "money (rc_total_contract_value c) \<and> 0 < rc_total_contract_value c" if "c \<in> set contracts"
    using that ok sub unfolding set by (auto simp: tables_ok_def registered_of_row_def)
  have "rc_contract_number ` set contracts = fst ` set (map row_fingerprint rows)"
    unfolding set by (simp add: image_image registered_of_row_def row_fingerprint_def)
  then show "rc_contract_number ` set contracts = ci_contract_number ` set inputs"
    unfolding fp by (simp add: image_image contract_fingerprint_def)
qed

definition obligation_of :: "registered_contract \<Rightarrow> registered_obligation \<Rightarrow> bool" where
  "obligation_of c ob \<longleftrightarrow> ro_contract_id ob = rc_contract_id c \<and> money (ro_standalone_selling_price ob)
     \<and> 0 \<le> ro_standalone_selling_price ob"

lemma resolve_line_obligation_row:
  assumes "resolve_line_obligation (obligation_by_code rows) line = Inr (i, m)"
  shows "\<exists>r \<in> set rows. row_id r = i"
proof -
  have d: "map_of (obligation_by_code rows) c = Some r \<Longrightarrow> r \<in> set rows" for c r
    by (auto simp: obligation_by_code_def dest: map_of_py_dict_Some)
  show ?thesis
    using assms d
    by (auto simp: resolve_line_obligation_def Let_def result_simps split: option.splits list.splits)
qed

lemma register_contract_facts:
  assumes "register_contract_obligations sha babel dec_str tenant_id user_id correlation_id contracts i db = Inr ((obs, lines), db')"
    and "tables_ok db" and "requested i"
  shows "\<exists>c \<in> set contracts. rc_contract_number c = ci_contract_number i
    \<and> map ro_obligation_code obs = sort (map oi_obligation_code (ci_performance_obligations i))
    \<and> (\<forall>ob \<in> set obs. obligation_of c ob)
    \<and> (\<forall>l \<in> set lines. rl_contract_id l = rc_contract_id c \<and> (\<exists>ob \<in> set obs. ro_obligation_id ob = rl_obligation_id l))"
proof -
  let ?key = "\<lambda>c. map (Pair c) (sort_key oi_obligation_code (ci_performance_obligations i))"
  from assms(1) obtain c rows db1 where c: "dict_by rc_contract_number contracts (ci_contract_number i) = Some c"
    and rows: "get_all (get_obligation sha tenant_id user_id correlation_id) (?key c) db = Inr (rows, db1)"
    and lines: "get_all (register_line_item sha babel dec_str tenant_id user_id correlation_id c (obligation_by_code rows))
                   (sort_key li_line_code (ci_contract_line_items i)) db1 = Inr (lines, db')"
    and obs: "obs = map (registered_obligation_of_row c) rows"
    by (auto simp: register_contract_obligations_def result_simps split: option.splits)
  have "\<forall>j \<in> set (?key c). priced j" using assms(3) by (auto simp: priced_def requested_def)
  note f = obligations.get_all_found [OF assms(2) this rows [unfolded get_obligation_def]]
  have all: "list_all2 (\<lambda>j r. r \<in> set (rv_obligations db1) \<and> obligation_key j = (rb_contract_id (row_values r),
      rb_obligation_code (row_values r))) (?key c) rows"
    by (rule list_all2_mono [OF f(3)]) (drule find_obligation_Some, simp)
  have "map (\<lambda>r. (rb_contract_id (row_values r), rb_obligation_code (row_values r))) rows = map obligation_key (?key c)"
    and sub: "set rows \<subseteq> set (rv_obligations db1)"
    using all by (induction rule: list_all2_induct) auto
  then have keys: "map (\<lambda>r. (rb_contract_id (row_values r), rb_obligation_code (row_values r))) rows
      = map (\<lambda>ob. (rc_contract_id c, oi_obligation_code ob)) (sort_key oi_obligation_code (ci_performance_obligations i))"
    by (simp add: obligation_key_def)
  have "map ro_obligation_code obs = map snd (map (\<lambda>r. (rb_contract_id (row_values r), rb_obligation_code (row_values r))) rows)"
    by (simp add: obs registered_obligation_of_row_def)
  also have "\<dots> = sort (map oi_obligation_code (ci_performance_obligations i))"
    unfolding keys by (simp add: map_sort_key_self o_def)
  finally have codes: "map ro_obligation_code obs = sort (map oi_obligation_code (ci_performance_obligations i))" .
  have "rb_contract_id (row_values r) = rc_contract_id c" if "r \<in> set rows" for r
  proof -
    have "(rb_contract_id (row_values r), rb_obligation_code (row_values r))
        \<in> set (map (\<lambda>r. (rb_contract_id (row_values r), rb_obligation_code (row_values r))) rows)" using that by simp
    then show ?thesis unfolding keys by auto
  qed
  then have obs_of: "\<forall>ob \<in> set obs. obligation_of c ob"
    using f(1) sub by (auto simp: obs obligation_of_def registered_obligation_of_row_def tables_ok_def)
  have "list_all2 (\<lambda>j l. \<exists>db1 db2. tables_ok db1 \<and> register_line_item sha babel dec_str tenant_id user_id correlation_id c
      (obligation_by_code rows) j db1 = Inr (l, db2)) (sort_key li_line_code (ci_contract_line_items i)) lines"
    by (rule get_all_each [where ok = tables_ok and keeps = keeps_lookups, OF _ f(1) lines])
      (simp add: replayable_register_line)
  then have "\<forall>l \<in> set lines. rl_contract_id l = rc_contract_id c \<and> (\<exists>r \<in> set rows. row_id r = rl_obligation_id l)"
    by (induction rule: list_all2_induct)
      (auto simp: register_line_item_def registered_line_of_row_def result_simps dest: resolve_line_obligation_row)
  then have "\<forall>l \<in> set lines. rl_contract_id l = rc_contract_id c \<and> (\<exists>ob \<in> set obs. ro_obligation_id ob = rl_obligation_id l)"
    by (auto simp: obs registered_obligation_of_row_def)
  with c codes obs_of dict_by_Some [OF c] show ?thesis by blast
qed

lemma register_request_facts:
  assumes "register_request sha babel dec_str tenant_id user_id correlation_id inputs db = Inr ((contracts, os), db')"
    and "tables_ok db" and "list_all requested inputs"
  shows "distinct (map rc_contract_id contracts)"
    and "c \<in> set contracts \<Longrightarrow> money (rc_total_contract_value c) \<and> 0 < rc_total_contract_value c"
    and "\<forall>ob \<in> set (os_obligations os). \<exists>c \<in> set contracts. obligation_of c ob"
    and "\<forall>l \<in> set (os_line_items os). \<exists>c \<in> set contracts. rl_contract_id l = rc_contract_id c
      \<and> (\<exists>ob \<in> set (os_obligations os). obligation_of c ob \<and> ro_obligation_id ob = rl_obligation_id l)"
proof -
  from assms(1) obtain db1 sets where
    rc: "register_contracts sha babel tenant_id user_id correlation_id inputs db = Inr (contracts, db1)"
    and sets: "get_all (register_contract_obligations sha babel dec_str tenant_id user_id correlation_id contracts)
       (sort_key ci_contract_number inputs) db1 = Inr (sets, db')"
    and os: "set (os_obligations os) = \<Union> (set ` fst ` set sets)" "set (os_line_items os) = \<Union> (set ` snd ` set sets)"
    by (auto simp: register_request_def register_obligations_and_line_items_def result_simps)
  note r = register_contracts_facts [OF rc assms(2)]
  show "distinct (map rc_contract_id contracts)" by (rule r(2))
  show "money (rc_total_contract_value c) \<and> 0 < rc_total_contract_value c" if "c \<in> set contracts"
    using that by (rule r(3))
  have req: "\<forall>i \<in> set (sort_key ci_contract_number inputs). requested i" using assms(3) by (simp add: list_all_iff)
  have "list_all2 (\<lambda>i s. \<exists>db1 db2. tables_ok db1 \<and> register_contract_obligations sha babel dec_str tenant_id user_id
      correlation_id contracts i db1 = Inr (s, db2)) (sort_key ci_contract_number inputs) sets"
    using req by (intro get_all_each [where ok = tables_ok and keeps = keeps_lookups, OF _ r(1) sets])
      (simp add: replayable_register_contract)
  then have from_input: "\<forall>s \<in> set sets. \<exists>i \<in> set (sort_key ci_contract_number inputs). \<exists>db1 db2. tables_ok db1
      \<and> register_contract_obligations sha babel dec_str tenant_id user_id correlation_id contracts i db1 = Inr (s, db2)"
    by (induction rule: list_all2_induct) auto
  have each: "\<forall>s \<in> set sets. \<exists>c \<in> set contracts. (\<forall>ob \<in> set (fst s). obligation_of c ob)
     \<and> (\<forall>l \<in> set (snd s). rl_contract_id l = rc_contract_id c \<and> (\<exists>ob \<in> set (fst s). ro_obligation_id ob = rl_obligation_id l))"
  proof
    fix s assume "s \<in> set sets"
    from bspec [OF from_input this] obtain i db1 db2 where i: "i \<in> set (sort_key ci_contract_number inputs)"
      and s: "tables_ok db1"
        "register_contract_obligations sha babel dec_str tenant_id user_id correlation_id contracts i db1 = Inr (s, db2)"
      by blast
    have s': "register_contract_obligations sha babel dec_str tenant_id user_id correlation_id contracts i db1
        = Inr ((fst s, snd s), db2)" using s(2) by simp
    from register_contract_facts [OF s' s(1) bspec [OF req i]]
    show "\<exists>c \<in> set contracts. (\<forall>ob \<in> set (fst s). obligation_of c ob)
     \<and> (\<forall>l \<in> set (snd s). rl_contract_id l = rc_contract_id c \<and> (\<exists>ob \<in> set (fst s). ro_obligation_id ob = rl_obligation_id l))"
      by blast
  qed
  show "\<forall>ob \<in> set (os_obligations os). \<exists>c \<in> set contracts. obligation_of c ob"
  proof
    fix ob assume "ob \<in> set (os_obligations os)"
    then obtain s where "s \<in> set sets" and ob: "ob \<in> set (fst s)" unfolding os by blast
    from bspec [OF each this(1)] ob show "\<exists>c \<in> set contracts. obligation_of c ob" by blast
  qed
  show "\<forall>l \<in> set (os_line_items os). \<exists>c \<in> set contracts. rl_contract_id l = rc_contract_id c
      \<and> (\<exists>ob \<in> set (os_obligations os). obligation_of c ob \<and> ro_obligation_id ob = rl_obligation_id l)"
  proof
    fix l assume "l \<in> set (os_line_items os)"
    then obtain s where s: "s \<in> set sets" and l: "l \<in> set (snd s)" unfolding os by blast
    from bspec [OF each s] obtain c where c: "c \<in> set contracts" "\<forall>ob \<in> set (fst s). obligation_of c ob"
      and "\<forall>l \<in> set (snd s). rl_contract_id l = rc_contract_id c
        \<and> (\<exists>ob \<in> set (fst s). ro_obligation_id ob = rl_obligation_id l)" by blast
    from bspec [OF this(3) l] obtain ob where ob: "ob \<in> set (fst s)" "ro_obligation_id ob = rl_obligation_id l"
      and lc: "rl_contract_id l = rc_contract_id c" by blast
    have "ob \<in> set (os_obligations os)" unfolding os using s ob(1) by blast
    with c ob lc show "\<exists>c \<in> set contracts. rl_contract_id l = rc_contract_id c
      \<and> (\<exists>ob \<in> set (os_obligations os). obligation_of c ob \<and> ro_obligation_id ob = rl_obligation_id l)" by auto
  qed
qed

section \<open>Every valid request registers\<close>

definition storable_amount :: "rat \<Rightarrow> bool" where
  "storable_amount x \<longleftrightarrow> \<not> isl (bindE (quantize_persisted_amount x) numeric_20_6)"

definition storable :: "contract_input \<Rightarrow> bool" where
  "storable c \<longleftrightarrow> (case bindE (quantize_persisted_amount (ci_total_contract_value c)) numeric_20_6 of
       Inl _ \<Rightarrow> False | Inr v \<Rightarrow> 0 < v)
     \<and> list_all (\<lambda>ob. storable_amount (oi_standalone_selling_price ob)) (ci_performance_obligations c)
     \<and> list_all (\<lambda>line. storable_amount (li_line_amount line)
         \<and> (li_obligation_code line \<noteq> None \<or> length (ci_performance_obligations c) = 1)) (ci_contract_line_items c)"

lemma storable_amount_Inr: "storable_amount x \<Longrightarrow> \<exists>v w. quantize_persisted_amount x = Inr v \<and> numeric_20_6 v = Inr w"
  by (cases "quantize_persisted_amount x"; cases "numeric_20_6 (projr (quantize_persisted_amount x))")
    (auto simp: storable_amount_def)

lemma insert_then_total: "\<exists>r db'. (case X of (r, rows, env) \<Rightarrow> Inr (r, g rows env)) = Inr (r, db')"
  by (cases X) auto

lemma get_or_create_total:
  "\<exists>r db'. create i db = Inr (r, db') \<Longrightarrow> \<exists>r db'. get_or_create lookup create key i db = Inr (r, db')"
  by (auto simp: get_or_create_def split: option.splits)

lemma get_contract_total:
  assumes "valid_contract_input babel c" and "storable c"
  shows "\<exists>r db'. get_contract sha babel tenant_id user_id correlation_id c db = Inr (r, db')"
proof -
  from assms(2) obtain w where w: "bindE (quantize_persisted_amount (ci_total_contract_value c)) numeric_20_6 = Inr w" "0 < w"
    unfolding storable_def by (auto split: sum.splits)
  then obtain v where "quantize_persisted_amount (ci_total_contract_value c) = Inr v" "numeric_20_6 v = Inr w" "\<not> v \<le> 0"
    using numeric_of_quantized by (fastforce simp: result_simps)
  then show ?thesis
    using assms(1) unfolding get_contract_def
    by (intro get_or_create_total)
      (simp add: create_contract_def valid_contract_input_def valid_currency_def Let_def insert_then_total)
qed

lemma get_obligation_total:
  assumes "storable_amount (oi_standalone_selling_price ob)"
  shows "\<exists>r db'. get_obligation sha tenant_id user_id correlation_id (c, ob) db = Inr (r, db')"
  using storable_amount_Inr [OF assms] unfolding get_obligation_def
  by (intro get_or_create_total) (auto simp: create_obligation_def Let_def insert_then_total)

lemma get_line_item_total:
  assumes "storable_amount (li_line_amount line)" and "valid_currency babel (li_line_currency line)"
  shows "\<exists>r db'. get_line_item sha babel dec_str tenant_id user_id correlation_id (c, i, line) db = Inr (r, db')"
  using storable_amount_Inr [OF assms(1)] assms(2) unfolding get_line_item_def
  by (intro get_or_create_total) (auto simp: create_line_item_def valid_currency_def Let_def insert_then_total)

lemma resolve_line_total:
  assumes codes: "map (\<lambda>r. rb_obligation_code (row_values r)) rows = sort codes" and "distinct codes"
    and line: "case li_obligation_code line of None \<Rightarrow> length codes = 1 | Some code \<Rightarrow> code \<in> set codes"
  shows "\<exists>i m. resolve_line_obligation (obligation_by_code rows) line = Inr (i, m)"
proof -
  have keys: "map fst (map (\<lambda>r. (rb_obligation_code (row_values r), r)) rows) = sort codes"
    using codes by (simp add: o_def)
  then have d: "obligation_by_code rows = map (\<lambda>r. (rb_obligation_code (row_values r), r)) rows"
    using assms(2) unfolding obligation_by_code_def by (intro py_dict_distinct) simp
  have fst: "map fst (obligation_by_code rows) = sort codes" using keys by (simp add: d)
  have known: "\<exists>r. map_of (obligation_by_code rows) c = Some r" if "c \<in> set codes" for c
  proof -
    have "c \<in> fst ` set (obligation_by_code rows)"
      using that fst by (metis set_map set_sort)
    then show ?thesis by (metis not_None_eq map_of_eq_None_iff)
  qed
  show ?thesis
  proof (cases "li_obligation_code line")
    case None
    then obtain c where "codes = [c]" using line by (auto simp: length_Suc_conv)
    then show ?thesis using None known [of c] fst
      by (auto simp: resolve_line_obligation_def Let_def split: option.splits)
  next
    case (Some c)
    then show ?thesis using line known [of c]
      by (auto simp: resolve_line_obligation_def Let_def split: option.splits)
  qed
qed

lemma register_contract_total:
  assumes v: "valid_contract_input babel i" and st: "storable i" and "tables_ok db"
    and "ci_contract_number i \<in> rc_contract_number ` set contracts"
  shows "\<exists>s db'. register_contract_obligations sha babel dec_str tenant_id user_id correlation_id contracts i db = Inr (s, db')"
proof -
  let ?obs = "sort_key oi_obligation_code (ci_performance_obligations i)"
  obtain c where c: "dict_by rc_contract_number contracts (ci_contract_number i) = Some c"
    using assms(4) dict_by_None by (metis not_None_eq)
  have req: "requested i" using valid_requested [of babel "[i]"] v by simp
  have pr: "\<forall>j \<in> set (map (Pair c) ?obs). priced j" using req by (auto simp: priced_def requested_def)
  have "\<exists>rs db'. get_all (get_obligation sha tenant_id user_id correlation_id) (map (Pair c) ?obs) db = Inr (rs, db')"
    using pr st by (intro get_all_exists [where ok = tables_ok and keeps = keeps_lookups] assms(3))
      (auto simp: get_obligation_def [symmetric] storable_def list_all_iff intro: get_obligation_total
        intro!: obligations.replayable_get [folded get_obligation_def])
  then obtain rows db1 where
    rows: "get_all (get_obligation sha tenant_id user_id correlation_id) (map (Pair c) ?obs) db = Inr (rows, db1)" by blast
  note f = obligations.get_all_found [OF assms(3) pr rows [unfolded get_obligation_def]]
  have "list_all2 (\<lambda>j r. rb_obligation_code (row_values r) = snd (obligation_key j)) (map (Pair c) ?obs) rows"
    by (rule list_all2_mono [OF f(3)]) (drule find_obligation_Some, simp)
  then have "map (\<lambda>r. rb_obligation_code (row_values r)) rows = map (\<lambda>j. snd (obligation_key j)) (map (Pair c) ?obs)"
    by (induction rule: list_all2_induct) auto
  also have "\<dots> = sort (map oi_obligation_code (ci_performance_obligations i))"
    by (simp add: obligation_key_def map_sort_key_self o_def)
  finally have codes: "map (\<lambda>r. rb_obligation_code (row_values r)) rows = \<dots>" .
  have line: "\<exists>r db'. register_line_item sha babel dec_str tenant_id user_id correlation_id c (obligation_by_code rows) l db = Inr (r, db')"
    if l: "l \<in> set (ci_contract_line_items i)" for l db
  proof -
    have l': "storable_amount (li_line_amount l)" "valid_currency babel (li_line_currency l)"
      "case li_obligation_code l of None \<Rightarrow> length (map oi_obligation_code (ci_performance_obligations i)) = 1
         | Some code \<Rightarrow> code \<in> set (map oi_obligation_code (ci_performance_obligations i))"
      "distinct (map oi_obligation_code (ci_performance_obligations i))"
      using st v l by (auto simp: storable_def valid_contract_input_def valid_line_item_input_def list_all_iff split: option.splits)
    obtain oid m where "resolve_line_obligation (obligation_by_code rows) l = Inr (oid, m)"
      using resolve_line_total [OF codes l'(4,3)] by blast
    moreover obtain r db' where "get_line_item sha babel dec_str tenant_id user_id correlation_id (c, oid, l) db = Inr (r, db')"
      using get_line_item_total [OF l'(1,2)] by blast
    ultimately show ?thesis by (simp add: register_line_item_def)
  qed
  have "\<exists>ls db'. get_all (register_line_item sha babel dec_str tenant_id user_id correlation_id c (obligation_by_code rows))
      (sort_key li_line_code (ci_contract_line_items i)) db1 = Inr (ls, db')"
    by (intro get_all_exists [where ok = tables_ok and keeps = keeps_lookups] f(1))
      (auto intro: replayable_register_line line)
  then show ?thesis using rows c by (auto simp: register_contract_obligations_def)
qed

lemma register_loop_total:
  assumes "list_all (valid_contract_input babel) inputs" and "list_all storable inputs"
    and "distinct (map contract_fingerprint inputs)" and "contract_fingerprint ` set inputs \<inter> set seen = {}"
  shows "\<exists>rs db'. register_loop (get_contract sha babel tenant_id user_id correlation_id) seen inputs db = Inr (rs, db')"
  using assms
proof (induction inputs arbitrary: seen db)
  case (Cons i inputs)
  obtain r db1 where r: "get_contract sha babel tenant_id user_id correlation_id i db = Inr (r, db1)"
    using get_contract_total Cons.prems(1,2) by fastforce
  have "\<exists>rs db'. register_loop (get_contract sha babel tenant_id user_id correlation_id)
      (contract_fingerprint i # seen) inputs db1 = Inr (rs, db')"
    using Cons.prems by (intro Cons.IH) auto
  then show ?case using r Cons.prems(4) by auto
qed simp

lemma register_request_total:
  assumes v: "list_all (valid_contract_input babel) inputs" and d: "distinct (map ci_contract_number inputs)"
    and st: "list_all storable inputs" and ok: "tables_ok db"
  shows "\<exists>x db'. register_request sha babel dec_str tenant_id user_id correlation_id inputs db = Inr (x, db')"
proof -
  have "map ci_contract_number inputs = map fst (map contract_fingerprint inputs)"
    by (simp add: contract_fingerprint_def)
  then have "distinct (map contract_fingerprint inputs)" using d by (metis distinct_map)
  from register_loop_total [OF v st this, of "[]" sha tenant_id user_id correlation_id db] obtain rs db1 where
    "register_loop (get_contract sha babel tenant_id user_id correlation_id) [] inputs db = Inr (rs, db1)" by auto
  then obtain contracts where
    rc: "register_contracts sha babel tenant_id user_id correlation_id inputs db = Inr (contracts, db1)"
    by (auto simp: register_contracts_def)
  note r = register_contracts_facts [OF rc ok]
  have one: "\<exists>s db'. register_contract_obligations sha babel dec_str tenant_id user_id correlation_id contracts i db = Inr (s, db')"
    if "i \<in> set inputs" "tables_ok db" for i db
    using that v st r(4) by (intro register_contract_total) (auto simp: list_all_iff)
  have "\<exists>sets db'. get_all (register_contract_obligations sha babel dec_str tenant_id user_id correlation_id contracts)
       (sort_key ci_contract_number inputs) db1 = Inr (sets, db')"
    using valid_requested [OF v] one
    by (intro get_all_exists [where ok = tables_ok and keeps = keeps_lookups] r(1) ballI allI impI)
      (simp_all add: list_all_iff replayable_register_contract)
  then show ?thesis using rc by (auto simp: register_request_def register_obligations_and_line_items_def)
qed

section \<open>Properties\<close>

text \<open>Every engine activity of a run registers the request anew, and a retried activity does so
  once more.  Whatever valid requests of whatever tenants are registered in between, registering
  the same request again returns the same contracts, obligations and line items and writes
  nothing, neither a row nor an audit entry.
\<close>

theorem registration_replays:
  assumes "tables_ok db" and "list_all (valid_contract_input babel) inputs"
    and "register_request sha babel dec_str tenant_id user_id correlation_id inputs db = Inr (x, db')"
    and "registrations sha babel dec_str db' later"
  shows "register_request sha babel dec_str tenant_id user_id correlation_id inputs later = Inr (x, later)"
proof -
  note r = replayableD [OF replayable_register_request [OF valid_requested [OF assms(2)]] assms(1,3)]
  show ?thesis using registrations_keep [OF assms(4) r(1)] by (intro r(3)) simp
qed

definition ex_obligation_input :: "string \<Rightarrow> obligation_input" where
  "ex_obligation_input code = \<lparr>oi_obligation_code = code, oi_description = ''support'', oi_standalone_selling_price = 40,
     oi_allocation_basis = ''ssp'', oi_recognition_method = straight_line\<rparr>"

definition ex_line_input :: "string \<Rightarrow> string \<Rightarrow> line_item_input" where
  "ex_line_input code ob = \<lparr>li_line_code = code, li_obligation_code = Some ob, li_line_amount = 60,
     li_line_currency = ''EUR'', li_recognition_method = None, li_milestone_reference = None, li_usage_reference = None,
     li_completion_percentage = None, li_completed_flag = None, li_milestone_achieved = None, li_usage_quantity = None,
     li_recognition_date = None, li_recognition_start_date = None, li_recognition_end_date = None\<rparr>"

definition ex_contract_input :: "string \<Rightarrow> contract_input" where
  "ex_contract_input n = \<lparr>ci_contract_number = n, ci_customer_id = ''C'', ci_contract_currency = ''EUR'',
     ci_contract_start_date = Date 2025 1 1, ci_contract_end_date = Date 2025 3 31, ci_total_contract_value = 120,
     ci_source_contract_reference = ''S'', ci_policy_code = ''P'', ci_policy_version = ''1'',
     ci_performance_obligations = [ex_obligation_input ''B'', ex_obligation_input ''A''],
     ci_contract_line_items = [ex_line_input ''L2'' ''B'', ex_line_input ''L1'' ''A''], ci_modifications = []\<rparr>"

definition ex_revenue_db :: revenue_db where
  "ex_revenue_db = \<lparr>rv_contracts = [], rv_obligations = [], rv_line_items = [], rv_schedules = [], rv_adjustments = [],
     rv_journals = [], rv_env = \<lparr>env_trail = [], env_now = 100, env_next_id = 17\<rparr>\<rparr>"

lemma ex_request:
  "list_all (valid_contract_input None) [ex_contract_input ''K1'', ex_contract_input ''K2'']"
  "list_all storable [ex_contract_input ''K1'', ex_contract_input ''K2'']"
  "distinct (map ci_contract_number [ex_contract_input ''K1'', ex_contract_input ''K2''])"
proof -
  have eur: "valid_currency None ''EUR''" by code_simp
  have q: "quantize_persisted_amount 40 = Inr 40" "quantize_persisted_amount 60 = Inr 60"
    "quantize_persisted_amount 120 = Inr 120" "numeric_20_6 40 = Inr 40" "numeric_20_6 60 = Inr 60"
    "numeric_20_6 120 = Inr 120" by code_simp+
  show "list_all (valid_contract_input None) [ex_contract_input ''K1'', ex_contract_input ''K2'']"
    by (simp add: valid_contract_input_def valid_obligation_input_def valid_line_item_input_def ex_contract_input_def
        ex_obligation_input_def ex_line_input_def sized_def eur) code_simp
  show "list_all storable [ex_contract_input ''K1'', ex_contract_input ''K2'']"
    by (simp add: storable_def storable_amount_def ex_contract_input_def ex_obligation_input_def ex_line_input_def q)
  show "distinct (map ci_contract_number [ex_contract_input ''K1'', ex_contract_input ''K2''])"
    by (simp add: ex_contract_input_def)
qed

lemma ex_tables_ok: "tables_ok ex_revenue_db"
  by (simp add: tables_ok_def ex_revenue_db_def rows_before_def)

definition ex_inputs :: "contract_input list" where
  "ex_inputs = [ex_contract_input ''K1'', ex_contract_input ''K2'']"

lemma registration_replays_witness:
  "\<exists>x db'. register_request (\<lambda>s. s) None (\<lambda>_. ''0'') 7 8 ''corr'' ex_inputs ex_revenue_db = Inr (x, db')
     \<and> register_request (\<lambda>s. s) None (\<lambda>_. ''0'') 7 8 ''corr'' ex_inputs db' = Inr (x, db')"
proof -
  obtain x db' where r: "register_request (\<lambda>s. s) None (\<lambda>_. ''0'') 7 8 ''corr'' ex_inputs ex_revenue_db = Inr (x, db')"
    using register_request_total [OF ex_request(1,3,2) ex_tables_ok] unfolding ex_inputs_def by blast
  from registration_replays [OF ex_tables_ok ex_request(1) r [unfolded ex_inputs_def] registrations.none]
  show ?thesis using r unfolding ex_inputs_def by blast
qed

text \<open>A request that the schema accepts registers on any tables: its currencies are known, its
  obligations resolvable and its contracts distinct, so no error of the two registries can
  occur, provided the amounts fit their columns (a positive total below half a millionth
  does not, nor does one of fifteen integer digits) and a line without an obligation code
  belongs to a contract with one obligation.
\<close>

theorem valid_requests_register:
  assumes "valid_revenue_request babel rq" and "list_all storable (rq_contracts rq)" and "tables_ok db"
  shows "\<exists>x db'. register_request sha babel dec_str tenant_id user_id correlation_id (rq_contracts rq) db = Inr (x, db')"
  using assms by (intro register_request_total) (auto simp: valid_revenue_request_def)

definition ex_revenue_request :: revenue_run_request where
  "ex_revenue_request = \<lparr>rq_reporting_currency = ''EUR'', rq_rate_mode = daily, rq_period_year = None,
     rq_period_month = None, rq_contracts = ex_inputs\<rparr>"

lemma ex_revenue_request_ok: "valid_revenue_request None ex_revenue_request"
proof -
  have "valid_currency None ''EUR''" by code_simp
  then show ?thesis using ex_request
    by (simp add: valid_revenue_request_def ex_revenue_request_def ex_inputs_def)
qed

lemma valid_requests_register_witness:
  "\<exists>x db'. register_request (\<lambda>s. s) None (\<lambda>_. ''0'') 7 8 ''corr'' (rq_contracts ex_revenue_request) ex_revenue_db = Inr (x, db')"
  by (rule valid_requests_register [OF ex_revenue_request_ok _ ex_tables_ok])
    (use ex_request(2) in \<open>simp add: ex_revenue_request_def ex_inputs_def\<close>)

text \<open>(C32) Registration and allocation compose: whatever the tables held, the allocations computed
  from the registered contracts and obligations add up, contract by contract, to the total
  of the registered contract, and every registered line item belongs to a registered
  obligation of its own contract.
\<close>

theorem registered_contracts_reconcile:
  assumes "tables_ok db" and "list_all (valid_contract_input babel) inputs"
    and "register_request sha babel dec_str tenant_id user_id correlation_id inputs db = Inr ((contracts, os), db')"
    and "allocate_contract_values contracts (os_obligations os) = Inr allocations"
  shows "(\<forall>c \<in> set contracts. sum_list (map oa_allocated_amount (group_of oa_contract_id (rc_contract_id c) allocations))
        = rc_total_contract_value c)
    \<and> (\<forall>l \<in> set (os_line_items os). \<exists>ob \<in> set (os_obligations os).
        ro_obligation_id ob = rl_obligation_id l \<and> ro_contract_id ob = rl_contract_id l)"
proof -
  note f = register_request_facts [OF assms(3,1) valid_requested [OF assms(2)]]
  have "\<forall>c \<in> set contracts. amounts_ok c (contract_obligations (os_obligations os) c)"
    using f(2,3) by (auto simp: amounts_ok_def contract_obligations_def group_of_def list_all_iff obligation_of_def
        order.strict_implies_order)
  then have "\<forall>c \<in> set contracts. sum_list (map oa_allocated_amount (group_of oa_contract_id (rc_contract_id c) allocations))
      = rc_total_contract_value c"
    using allocations_reconcile_raw [OF assms(4) f(1)] by blast
  moreover have "\<forall>l \<in> set (os_line_items os). \<exists>ob \<in> set (os_obligations os).
      ro_obligation_id ob = rl_obligation_id l \<and> ro_contract_id ob = rl_contract_id l"
    using f(4) unfolding obligation_of_def by metis
  ultimately show ?thesis by blast
qed

text \<open>Tables that hold a registered contract with two obligations and two line items.\<close>

definition stored :: "uuid \<Rightarrow> 'v \<Rightarrow> 'v row" where
  "stored i v = \<lparr>row_id = i, row_tenant = 7, row_created_at = i, row_chain_hash = ''h'', row_previous_hash = ''p'', row_values = v\<rparr>"

definition ex_stored_obligation :: "string \<Rightarrow> revenue_obligation" where
  "ex_stored_obligation code = \<lparr>rb_contract_id = 11, rb_obligation_code = code, rb_description = ''support'',
     rb_standalone_selling_price = 40, rb_allocation_basis = ''ssp'', rb_recognition_method = straight_line,
     rb_source_contract_reference = ''S'', rb_parent_reference_id = 11, rb_source_reference_id = 11,
     rb_correlation_id = ''corr'', rb_supersedes_id = None\<rparr>"

definition ex_stored_line :: "uuid \<Rightarrow> string \<Rightarrow> revenue_line_item" where
  "ex_stored_line i code = \<lparr>rn_contract_id = 11, rn_obligation_id = i, rn_line_code = code, rn_line_amount = 60,
     rn_line_currency = ''EUR'', rn_milestone_reference = None, rn_usage_reference = None,
     rn_source_contract_reference = ''S'', rn_parent_reference_id = i, rn_source_reference_id = 11,
     rn_correlation_id = ''corr'', rn_supersedes_id = None\<rparr>"

definition ex_stored_contract :: revenue_contract where
  "ex_stored_contract = \<lparr>rk_contract_number = ''K1'', rk_customer_id = ''C'', rk_contract_currency = ''EUR'',
     rk_contract_start_date = Date 2025 1 1, rk_contract_end_date = Date 2025 3 31, rk_total_contract_value = 120,
     rk_source_contract_reference = ''S'', rk_policy_code = ''P'', rk_policy_version = ''1'',
     rk_correlation_id = ''corr'', rk_supersedes_id = None\<rparr>"

definition ex_registered_db :: revenue_db where
  "ex_registered_db = \<lparr>rv_contracts = [stored 11 ex_stored_contract],
     rv_obligations = [stored 2 (ex_stored_obligation ''A''), stored 3 (ex_stored_obligation ''B'')],
     rv_line_items = [stored 4 (ex_stored_line 2 ''L1''), stored 5 (ex_stored_line 3 ''L2'')],
     rv_schedules = [], rv_adjustments = [], rv_journals = [], rv_env = \<lparr>env_trail = [], env_now = 100, env_next_id = 17\<rparr>\<rparr>"

lemma ex_registered_ok: "tables_ok ex_registered_db"
  by (simp add: tables_ok_def ex_registered_db_def rows_before_def stored_def ex_stored_contract_def ex_stored_obligation_def
     micro_iff money_def)
lemma ex_finds:
  "find_contract 7 ''corr'' (''K1'', ''S'', ''1'') ex_registered_db = Some (stored 11 ex_stored_contract)"
  "find_obligation 7 ''corr'' (11, ''A'') ex_registered_db = Some (stored 2 (ex_stored_obligation ''A''))"
  "find_obligation 7 ''corr'' (11, ''B'') ex_registered_db = Some (stored 3 (ex_stored_obligation ''B''))"
  "find_line_item 7 ''corr'' (11, ''L1'') ex_registered_db = Some (stored 4 (ex_stored_line 2 ''L1''))"
  "find_line_item 7 ''corr'' (11, ''L2'') ex_registered_db = Some (stored 5 (ex_stored_line 3 ''L2''))"
  by code_simp+

definition ex_registered :: registered_contract where
  "ex_registered = registered_of_row (stored 11 ex_stored_contract)"

lemma ex_register_contracts:
  "register_contracts sha None 7 8 ''corr'' [ex_contract_input ''K1''] ex_registered_db = Inr ([ex_registered], ex_registered_db)"
  using ex_finds(1)
  by (simp add: register_contracts_def get_contract_def get_or_create_def contract_fingerprint_def ex_contract_input_def ex_registered_def)

lemma ex_sorts:
  "sort_key oi_obligation_code [ex_obligation_input ''B'', ex_obligation_input ''A''] = [ex_obligation_input ''A'', ex_obligation_input ''B'']"
  "sort_key li_line_code [ex_line_input ''L2'' ''B'', ex_line_input ''L1'' ''A''] = [ex_line_input ''L1'' ''A'', ex_line_input ''L2'' ''B'']"
  by code_simp+

lemma ex_codes: "oi_obligation_code (ex_obligation_input c) = c" "li_line_code (ex_line_input c ob) = c"
  "rc_contract_id ex_registered = 11" "rc_contract_number ex_registered = ''K1''"
  by (simp_all add: ex_obligation_input_def ex_line_input_def ex_registered_def registered_of_row_def stored_def ex_stored_contract_def)

definition ex_by_code :: "(string \<times> revenue_obligation row) list" where
  "ex_by_code = obligation_by_code [stored 2 (ex_stored_obligation ''A''), stored 3 (ex_stored_obligation ''B'')]"

lemma ex_resolve:
  "resolve_line_obligation ex_by_code (ex_line_input ''L1'' ''A'') = Inr (2, straight_line)"
  "resolve_line_obligation ex_by_code (ex_line_input ''L2'' ''B'') = Inr (3, straight_line)"
  by code_simp+

definition ex_registered_set :: registered_obligation_set where
  "ex_registered_set = \<lparr>os_obligations = [registered_obligation_of_row ex_registered (stored 2 (ex_stored_obligation ''A'')),
       registered_obligation_of_row ex_registered (stored 3 (ex_stored_obligation ''B''))],
     os_line_items = [registered_line_of_row ex_registered 2 straight_line (ex_line_input ''L1'' ''A'') (stored 4 (ex_stored_line 2 ''L1'')),
       registered_line_of_row ex_registered 3 straight_line (ex_line_input ''L2'' ''B'') (stored 5 (ex_stored_line 3 ''L2''))]\<rparr>"

lemma ex_register_obligations:
  "register_contract_obligations sha None dec_str 7 8 ''corr'' [ex_registered] (ex_contract_input ''K1'') ex_registered_db
     = Inr ((os_obligations ex_registered_set, os_line_items ex_registered_set), ex_registered_db)"
proof -
  have c: "dict_by rc_contract_number [ex_registered] (ci_contract_number (ex_contract_input ''K1'')) = Some ex_registered"
    by (simp add: dict_by_def ex_codes ex_contract_input_def)
  have obs: "get_all (get_obligation sha 7 8 ''corr'') (map (Pair ex_registered)
      (sort_key oi_obligation_code (ci_performance_obligations (ex_contract_input ''K1'')))) ex_registered_db
    = Inr ([stored 2 (ex_stored_obligation ''A''), stored 3 (ex_stored_obligation ''B'')], ex_registered_db)"
    by (simp add: ex_contract_input_def ex_sorts get_obligation_def get_or_create_def obligation_key_def ex_codes ex_finds
        del: sort_key_simps)
  have lines: "get_all (register_line_item sha None dec_str 7 8 ''corr'' ex_registered ex_by_code)
      (sort_key li_line_code (ci_contract_line_items (ex_contract_input ''K1''))) ex_registered_db
    = Inr (os_line_items ex_registered_set, ex_registered_db)"
    by (simp add: ex_contract_input_def ex_sorts register_line_item_def get_line_item_def get_or_create_def line_item_key_def
        ex_codes ex_finds ex_resolve ex_registered_set_def del: sort_key_simps)
  show ?thesis using obs lines
    by (simp add: register_contract_obligations_def c ex_by_code_def ex_registered_set_def)
qed

lemma ex_registered_request:
  "register_request sha None dec_str 7 8 ''corr'' [ex_contract_input ''K1''] ex_registered_db
     = Inr (([ex_registered], ex_registered_set), ex_registered_db)"
proof -
  have "sort_key (\<lambda>item. (ro_contract_number item, ro_obligation_code item)) (os_obligations ex_registered_set) = os_obligations ex_registered_set"
    "sort_key (\<lambda>item. (rl_contract_number item, rl_line_code item)) (os_line_items ex_registered_set) = os_line_items ex_registered_set"
    by code_simp+
  then show ?thesis
    by (simp add: register_request_def ex_register_contracts register_obligations_and_line_items_def ex_register_obligations)
qed

lemma ex_allocates: "\<not> isl (allocate_contract_values [ex_registered] (os_obligations ex_registered_set))"
  by code_simp

lemma registered_contracts_reconcile_witness:
  "\<exists>allocations. allocate_contract_values [ex_registered] (os_obligations ex_registered_set) = Inr allocations
     \<and> sum_list (map oa_allocated_amount (group_of oa_contract_id 11 allocations)) = 120"
proof -
  obtain allocations where al: "allocate_contract_values [ex_registered] (os_obligations ex_registered_set) = Inr allocations"
    using ex_allocates by (cases "allocate_contract_values [ex_registered] (os_obligations ex_registered_set)") auto
  have "list_all (valid_contract_input None) [ex_contract_input ''K1'']" using ex_request(1) by simp
  from registered_contracts_reconcile [OF ex_registered_ok this ex_registered_request al]
  have "sum_list (map oa_allocated_amount (group_of oa_contract_id (rc_contract_id ex_registered) allocations))
      = rc_total_contract_value ex_registered" by simp
  moreover have "rc_total_contract_value ex_registered = 120"
    by (simp add: ex_registered_def registered_of_row_def stored_def ex_stored_contract_def)
  ultimately show ?thesis using al by (simp add: ex_codes)
qed

end
