(* ===== verification/Supersession.thy ===== *)
theory Supersession
  imports Prelude
begin

text \<open>
  \<open>services/accounting_common/supersession_validator.py\<close>: versioned rows form a chain in
  which each row supersedes at most one earlier row.  \<open>validate_linear_chain\<close> checks the
  chain of a tenant, \<open>resolve_terminal_node\<close> finds its current version and
  \<open>ensure_append_targets_terminal\<close> guards an append.  A validated set of rows with
  distinct ids is shown to be exactly one linear chain from its root to its terminal node.
\<close>

section \<open>The code\<close>

record supersession_node =
  sn_id :: uuid
  sn_tenant_id :: uuid
  sn_created_at :: int
  sn_supersedes_id :: "uuid option"

abbreviation chain_broken :: "string \<Rightarrow> py_error" where
  "chain_broken msg \<equiv> AccountingValidationError ''VERSION_CHAIN_BROKEN'' msg"

abbreviation invalid_sequence :: "string \<Rightarrow> py_error" where
  "invalid_sequence msg \<equiv> AccountingValidationError ''INVALID_EVENT_SEQUENCE'' msg"

text \<open>0=unseen, 1=visiting, 2=done\<close>

datatype visit_state = Unseen | Visiting | Done

function visit :: "supersession_node list \<Rightarrow> (uuid \<Rightarrow> visit_state option) \<Rightarrow> supersession_node
    \<Rightarrow> (uuid \<Rightarrow> visit_state option) result" where
  "visit ordered state node =
     (case state (sn_id node) of
        None \<Rightarrow> Inl KeyError
      | Some Visiting \<Rightarrow> Inl (chain_broken ''Supersession cycle detected'')
      | Some Done \<Rightarrow> Inr state
      | Some Unseen \<Rightarrow>
          (case sn_supersedes_id node of
             None \<Rightarrow> Inr (state(sn_id node \<mapsto> Done))
           | Some p \<Rightarrow>
               (case dict_by sn_id ordered p of
                  None \<Rightarrow> Inl KeyError
                | Some q \<Rightarrow>
                    bindE (visit ordered (state(sn_id node \<mapsto> Visiting)) q)
                      (\<lambda>state'. Inr (state'(sn_id node \<mapsto> Done))))))"
  by pat_completeness auto
termination
proof (relation "measure (\<lambda>(ordered, state, node).
    card {i \<in> insert (sn_id node) (sn_id ` set ordered). state i = Some Unseen})", goal_cases)
  case 1
  show ?case by simp
next
  case (2 ordered state node st p q)
  then have q: "sn_id q \<in> sn_id ` set ordered" by (auto dest: dict_by_Some)
  show ?case
    using 2 q by (auto intro!: psubset_card_mono)
qed

declare visit.simps [simp del]

fun count_row :: "supersession_node list \<Rightarrow> nat \<times> (uuid \<Rightarrow> nat) \<Rightarrow> supersession_node
    \<Rightarrow> (nat \<times> (uuid \<Rightarrow> nat)) result" where
  "count_row ordered (roots, child_count) row =
     (case sn_supersedes_id row of
        None \<Rightarrow> Inr (roots + 1, child_count)
      | Some p \<Rightarrow>
          if dict_by sn_id ordered p = None
            then Inl (chain_broken ''Supersession chain has orphaned predecessor reference'')
          else if child_count p + 1 > 1
            then Inl (chain_broken ''Supersession chain branching detected'')
          else Inr (roots, child_count(p := child_count p + 1)))"

definition validate_linear_chain :: "supersession_node list \<Rightarrow> uuid \<Rightarrow> supersession_node list result" where
  "validate_linear_chain nodes tenant_id =
     (let ordered = sort_key (\<lambda>row. (sn_created_at row, sn_id row)) nodes in
      if ordered = [] then Inr []
      else
        bindE (raise_if (\<exists>row \<in> set ordered. sn_tenant_id row \<noteq> tenant_id)
                (chain_broken ''Supersession chain contains cross-tenant node''))
          (\<lambda>_. bindE (foldE (count_row ordered) (0, \<lambda>_. 0) ordered)
          (\<lambda>(roots, child_count).
             bindE (raise_if (roots \<noteq> 1)
                     (chain_broken ''Supersession chain must have exactly one root''))
          (\<lambda>_. bindE (foldE (visit ordered)
                        (\<lambda>i. if i \<in> sn_id ` set ordered then Some Unseen else None) ordered)
          (\<lambda>_. Inr ordered)))))"

definition resolve_terminal_node :: "supersession_node list \<Rightarrow> uuid \<Rightarrow> supersession_node option result" where
  "resolve_terminal_node nodes tenant_id =
     bindE (validate_linear_chain nodes tenant_id)
       (\<lambda>ordered.
          if ordered = [] then Inr None
          else case filter (\<lambda>row. Some (sn_id row) \<notin> sn_supersedes_id ` set ordered) ordered of
                 [t] \<Rightarrow> Inr (Some t)
               | _ \<Rightarrow> Inl (chain_broken ''Supersession chain terminal node is ambiguous''))"

definition ensure_append_targets_terminal :: "supersession_node list \<Rightarrow> uuid \<Rightarrow> uuid option \<Rightarrow> unit result" where
  "ensure_append_targets_terminal nodes tenant_id supersedes_id =
     bindE (resolve_terminal_node nodes tenant_id)
       (\<lambda>terminal. case terminal of
          None \<Rightarrow> raise_if (supersedes_id \<noteq> None)
            (invalid_sequence ''Cannot supersede a non-existent terminal node'')
        | Some t \<Rightarrow> raise_if (supersedes_id \<noteq> Some (sn_id t))
            (invalid_sequence ''New supersession row must point to current terminal node''))"

section \<open>Linear chains\<close>

text \<open>Read from its root: every row supersedes the one before it.\<close>

fun linked :: "supersession_node list \<Rightarrow> bool" where
  "linked [] \<longleftrightarrow> True"
| "linked [x] \<longleftrightarrow> True"
| "linked (x # y # xs) \<longleftrightarrow> sn_supersedes_id y = Some (sn_id x) \<and> linked (y # xs)"

definition linear_chain :: "supersession_node list \<Rightarrow> bool" where
  "linear_chain chain \<longleftrightarrow>
     chain \<noteq> [] \<and> sn_supersedes_id (hd chain) = None \<and> linked chain \<and> distinct (map sn_id chain)"

lemma linked_append:
  "linked (xs @ ys) \<longleftrightarrow> linked xs \<and> linked ys \<and>
     (xs \<noteq> [] \<longrightarrow> ys \<noteq> [] \<longrightarrow> sn_supersedes_id (hd ys) = Some (sn_id (last xs)))"
proof (induction xs rule: linked.induct)
  case (2 x)
  then show ?case by (cases ys) auto
qed auto

lemma linked_snoc:
  "xs \<noteq> [] \<Longrightarrow> linked (xs @ [y]) \<longleftrightarrow> linked xs \<and> sn_supersedes_id y = Some (sn_id (last xs))"
  by (simp add: linked_append)

text \<open>In a chain a row's predecessor reference is the id of the row before it.\<close>

lemma linked_nth:
  "linked xs \<Longrightarrow> Suc i < length xs \<Longrightarrow> sn_supersedes_id (xs ! Suc i) = Some (sn_id (xs ! i))"
proof (induction xs arbitrary: i rule: linked.induct)
  case (3 x y xs)
  then show ?case by (cases i) auto
qed auto

text \<open>A chain row that is not the last one has a successor in the chain.\<close>

lemma linked_has_child:
  assumes "linked xs" and "z \<in> set xs" and "z \<noteq> last xs"
  obtains w where "w \<in> set xs" and "sn_supersedes_id w = Some (sn_id z)"
proof -
  obtain i where i: "i < length xs" "z = xs ! i" using assms(2) by (auto simp: in_set_conv_nth)
  have "Suc i < length xs"
  proof (rule ccontr)
    assume "\<not> Suc i < length xs"
    with i(1) have "i = length xs - 1" and "xs \<noteq> []" by auto
    with i(2) assms(3) show False by (simp add: last_conv_nth)
  qed
  with that linked_nth [OF assms(1) this] i show thesis by (metis nth_mem)
qed

text \<open>Rows from which the predecessor references lead to a root.\<close>

inductive rooted :: "supersession_node list \<Rightarrow> supersession_node \<Rightarrow> bool" for nodes where
  root: "sn_supersedes_id n = None \<Longrightarrow> rooted nodes n"
| child: "sn_supersedes_id n = Some p \<Longrightarrow> dict_by sn_id nodes p = Some q \<Longrightarrow> rooted nodes q \<Longrightarrow>
    rooted nodes n"

section \<open>What the counting pass establishes\<close>

definition children :: "uuid \<Rightarrow> supersession_node list \<Rightarrow> nat" where
  "children p rows = length (filter (\<lambda>r. sn_supersedes_id r = Some p) rows)"

lemma count_row_step:
  assumes "count_row ordered (r0, c0) row = Inr acc"
  obtains (root) "sn_supersedes_id row = None" "acc = (r0 + 1, c0)"
    | (child) p where "sn_supersedes_id row = Some p" "dict_by sn_id ordered p \<noteq> None" "c0 p = 0"
        "acc = (r0, c0(p := 1))"
  using assms by (auto split: option.splits if_splits)

lemma count_rows:
  assumes "foldE (count_row ordered) (r0, c0) rows = Inr (roots, cc)"
  shows "roots = r0 + length (filter (\<lambda>r. sn_supersedes_id r = None) rows)
    \<and> cc p = c0 p + children p rows
    \<and> (c0 p \<le> 1 \<longrightarrow> c0 p + children p rows \<le> 1)"
  using assms
proof (induction rows arbitrary: r0 c0)
  case (Cons r rows)
  then obtain acc where acc: "count_row ordered (r0, c0) r = Inr acc"
    and rest: "foldE (count_row ordered) acc rows = Inr (roots, cc)"
    by (auto simp only: foldE.simps bindE_Inr_iff)
  from acc show ?case
  proof (cases rule: count_row_step)
    case root
    with Cons.IH [OF rest [unfolded root(2)]] show ?thesis by (simp add: children_def)
  next
    case (child p')
    with Cons.IH [OF rest [unfolded child(4)]] show ?thesis
      by (cases "p = p'") (simp_all add: children_def)
  qed
qed (simp add: children_def)

lemma children_le_1_unique:
  assumes "children p rows \<le> 1" and "x \<in> set rows" "y \<in> set rows"
    and "sn_supersedes_id x = Some p" "sn_supersedes_id y = Some p"
  shows "x = y"
proof -
  let ?f = "filter (\<lambda>r. sn_supersedes_id r = Some p) rows"
  have "x \<in> set ?f" "y \<in> set ?f" using assms by auto
  moreover have "length ?f \<le> 1" using assms(1) by (simp add: children_def)
  ultimately show ?thesis by (cases ?f) (auto simp: le_Suc_eq)
qed

section \<open>What the cycle detection establishes\<close>

definition done_rooted :: "supersession_node list \<Rightarrow> (uuid \<Rightarrow> visit_state option) \<Rightarrow> bool" where
  "done_rooted nodes state \<longleftrightarrow>
     (\<forall>i n. state i = Some Done \<longrightarrow> dict_by sn_id nodes i = Some n \<longrightarrow> rooted nodes n)"

lemma visit_rooted:
  assumes "visit nodes state node = Inr state'" and "done_rooted nodes state"
    and "dict_by sn_id nodes (sn_id node) = Some node"
  shows "rooted nodes node \<and> done_rooted nodes state'"
  using assms
proof (induction nodes state node arbitrary: state' rule: visit.induct)
  case (1 ordered state node)
  from "1.prems"(1) consider
      (is_done) "state (sn_id node) = Some Done" "state' = state"
    | (is_root) "sn_supersedes_id node = None" "state' = state(sn_id node \<mapsto> Done)"
    | (is_child) p q st2 where "state (sn_id node) = Some Unseen" "sn_supersedes_id node = Some p"
        "dict_by sn_id ordered p = Some q"
        "visit ordered (state(sn_id node \<mapsto> Visiting)) q = Inr st2"
        "state' = st2(sn_id node \<mapsto> Done)"
    by (subst (asm) visit.simps)
      (auto simp: result_simps split: option.splits visit_state.splits)
  then show ?case
  proof cases
    case is_done
    with "1.prems"(2,3) show ?thesis by (auto simp: done_rooted_def)
  next
    case is_root
    with "1.prems"(2,3) show ?thesis by (auto simp: done_rooted_def intro: rooted.root)
  next
    case is_child
    then have "dict_by sn_id ordered (sn_id q) = Some q"
      by (auto dest: dict_by_Some)
    moreover have "done_rooted ordered (state(sn_id node \<mapsto> Visiting))"
      using "1.prems"(2) by (simp add: done_rooted_def)
    ultimately have "rooted ordered q \<and> done_rooted ordered st2"
      using "1.IH" [OF is_child(1) refl is_child(2,3)] is_child(4) by blast
    with is_child "1.prems"(3) show ?thesis
      by (auto simp: done_rooted_def intro: rooted.child)
  qed
qed

lemma visit_all_rooted:
  assumes "foldE (visit nodes) state rows = Inr state'" and "done_rooted nodes state"
    and "\<forall>r \<in> set rows. dict_by sn_id nodes (sn_id r) = Some r"
  shows "\<forall>r \<in> set rows. rooted nodes r"
  using assms
proof (induction rows arbitrary: state)
  case (Cons r rows)
  then obtain st1 where "visit nodes state r = Inr st1" "foldE (visit nodes) st1 rows = Inr state'"
    by (auto simp: result_simps)
  with Cons visit_rooted [of nodes state r st1] show ?case by auto
qed simp

section \<open>A validated set of rows is one linear chain\<close>

text \<open>A chain starting at a root that is not yet all rows can be extended.\<close>

lemma rooted_escape:
  assumes "rooted nodes x" and "x \<in> set nodes" and "x \<notin> C"
    and "\<forall>r \<in> set nodes. sn_supersedes_id r = None \<longrightarrow> r \<in> C"
  obtains y z where "y \<in> set nodes" "y \<notin> C" "z \<in> C" "z \<in> set nodes"
    and "sn_supersedes_id y = Some (sn_id z)"
proof -
  have "\<exists>y z. y \<in> set nodes \<and> y \<notin> C \<and> z \<in> C \<and> z \<in> set nodes \<and> sn_supersedes_id y = Some (sn_id z)"
    using assms(1-3)
  proof (induction rule: rooted.induct)
    case (root n)
    with assms(4) show ?case by blast
  next
    case (child n p q)
    then have "q \<in> set nodes" "sn_id q = p" by (auto dest: dict_by_Some)
    with child show ?case by (cases "q \<in> C") auto
  qed
  with that show thesis by blast
qed

lemma maximal_chain_covers:
  assumes chain: "linear_chain chain" "set chain \<subseteq> set nodes"
    and max: "\<And>c. linear_chain c \<Longrightarrow> set c \<subseteq> set nodes \<Longrightarrow> length c \<le> length chain"
    and ids: "distinct (map sn_id nodes)"
    and roots: "\<forall>r \<in> set nodes. sn_supersedes_id r = None \<longrightarrow> r = hd chain"
    and branch: "\<And>p. children p nodes \<le> 1"
    and rooted: "\<forall>r \<in> set nodes. rooted nodes r"
  shows "set chain = set nodes"
proof (rule ccontr)
  assume "set chain \<noteq> set nodes"
  with chain(2) obtain x where x: "x \<in> set nodes" "x \<notin> set chain" by blast
  have hd: "hd chain \<in> set chain" using chain(1) by (simp add: linear_chain_def)
  obtain y z where y: "y \<in> set nodes" "y \<notin> set chain" and z: "z \<in> set chain" "z \<in> set nodes"
    and yz: "sn_supersedes_id y = Some (sn_id z)"
    using rooted_escape [of nodes x "set chain"] x rooted roots hd by metis
  have l: "linked chain" "chain \<noteq> []" using chain(1) by (simp_all add: linear_chain_def)
  show False
  proof (cases "z = last chain")
    case False
    then obtain w where "w \<in> set chain" "sn_supersedes_id w = Some (sn_id z)"
      using linked_has_child [OF l(1) z(1)] by blast
    then have "w = y" using children_le_1_unique [OF branch] y(1) yz chain(2) by blast
    with \<open>w \<in> set chain\<close> y(2) show False by simp
  next
    case True
    have "sn_id y \<notin> sn_id ` set chain"
      using y chain(2) ids by (auto simp: distinct_map dest: inj_onD)
    then have "linear_chain (chain @ [y])"
      using chain(1) yz True by (simp add: linear_chain_def linked_snoc)
    moreover have "set (chain @ [y]) \<subseteq> set nodes" using chain(2) y(1) by simp
    ultimately show False using max by fastforce
  qed
qed

lemma one_root_chain:
  assumes ids: "distinct (map sn_id nodes)"
    and root: "r \<in> set nodes" "sn_supersedes_id r = None"
      "\<forall>x \<in> set nodes. sn_supersedes_id x = None \<longrightarrow> x = r"
    and branch: "\<And>p. children p nodes \<le> 1"
    and rooted: "\<forall>x \<in> set nodes. rooted nodes x"
  obtains chain where "linear_chain chain" and "mset chain = mset nodes"
proof -
  let ?P = "\<lambda>c. linear_chain c \<and> set c \<subseteq> set nodes"
  have start: "?P [r]" using root(1,2) by (simp add: linear_chain_def)
  have bound: "length c \<le> length nodes" if "?P c" for c
  proof -
    have "distinct c" using that by (simp add: linear_chain_def distinct_map)
    then have "length c = card (set c)" by (simp add: distinct_card)
    also have "\<dots> \<le> card (set nodes)" using that by (intro card_mono) auto
    also have "\<dots> \<le> length nodes" by (rule card_length)
    finally show ?thesis .
  qed
  have "\<forall>c. ?P c \<longrightarrow> length c < Suc (length nodes)" using bound by (simp add: less_Suc_eq_le)
  from ex_has_greatest_nat [where P = ?P and f = length, OF start this]
  obtain chain where greatest: "?P chain \<and> (\<forall>c. ?P c \<longrightarrow> length c \<le> length chain)"
    by (rule exE)
  then have chain: "?P chain" and max: "\<And>c. ?P c \<Longrightarrow> length c \<le> length chain"
    by blast+
  have "chain \<noteq> []" "sn_supersedes_id (hd chain) = None" using chain by (simp_all add: linear_chain_def)
  then have "hd chain = r" using chain root(3) hd_in_set [of chain] by blast
  then have "set chain = set nodes"
    using chain max ids root(3) branch rooted by (intro maximal_chain_covers) auto
  moreover have "distinct chain" "distinct nodes"
    using chain ids by (simp_all add: linear_chain_def distinct_map)
  ultimately have "mset chain = mset nodes" by (simp add: set_eq_iff_mset_eq_distinct)
  with chain that show thesis by blast
qed

lemma validate_facts:
  assumes "validate_linear_chain nodes tenant_id = Inr ordered" and "nodes \<noteq> []"
    and ids: "distinct (map sn_id nodes)"
  shows "mset ordered = mset nodes"
    and "\<forall>r \<in> set nodes. sn_tenant_id r = tenant_id"
    and "length (filter (\<lambda>r. sn_supersedes_id r = None) ordered) = 1"
    and "children p ordered \<le> 1"
    and "\<forall>r \<in> set ordered. rooted ordered r"
proof -
  let ?o = "sort_key (\<lambda>row. (sn_created_at row, sn_id row)) nodes"
  have ne: "?o \<noteq> []" using assms(2) by simp
  obtain cc st where o: "ordered = ?o"
    and t: "\<forall>r \<in> set ?o. sn_tenant_id r = tenant_id"
    and c: "foldE (count_row ?o) (0, \<lambda>_. 0) ?o = Inr (1, cc)"
    and v: "foldE (visit ?o) (\<lambda>i. if i \<in> sn_id ` set ?o then Some Unseen else None) ?o = Inr st"
    using assms(1) ne by (auto simp: validate_linear_chain_def result_simps Let_def split: if_splits)
  show "mset ordered = mset nodes" by (simp add: o)
  show "\<forall>r \<in> set nodes. sn_tenant_id r = tenant_id" using t by simp
  show "length (filter (\<lambda>r. sn_supersedes_id r = None) ordered) = 1"
    using count_rows [OF c] by (simp add: o)
  show "children p ordered \<le> 1" using count_rows [OF c, of p] by (simp add: o)
  have "distinct (map sn_id ?o)" using ids by simp
  then show "\<forall>r \<in> set ordered. rooted ordered r"
    unfolding o by (intro visit_all_rooted [OF v]) (auto simp: done_rooted_def dict_by_distinct)
qed

lemma validated_chain_is_linear:
  assumes "validate_linear_chain nodes tenant_id = Inr ordered" and "nodes \<noteq> []"
    and "distinct (map sn_id nodes)"
  shows "\<exists>chain. linear_chain chain \<and> mset chain = mset nodes \<and>
    (\<forall>r \<in> set chain. sn_tenant_id r = tenant_id)"
proof -
  note f = validate_facts [OF assms]
  obtain r where r: "filter (\<lambda>r. sn_supersedes_id r = None) ordered = [r]"
    using f(3) by (auto simp: length_Suc_conv)
  have root: "x \<in> set ordered \<and> sn_supersedes_id x = None \<longleftrightarrow> x = r" for x
    using arg_cong [OF r, of "\<lambda>xs. x \<in> set xs"] by simp
  have ids: "distinct (map sn_id ordered)"
    using assms(3) by (simp add: distinct_map_mset [OF f(1)])
  obtain chain where "linear_chain chain" "mset chain = mset ordered"
    using one_root_chain [OF ids, of r] root f(4,5) by blast
  with f(1,2) show ?thesis by (metis mset_eq_setD)
qed

section \<open>The terminal node\<close>

lemma filter_unique:
  assumes "distinct xs" and "a \<in> set xs" and "\<And>x. x \<in> set xs \<Longrightarrow> P x \<longleftrightarrow> x = a"
  shows "filter P xs = [a]"
proof -
  have "filter P xs = filter (\<lambda>x. x = a) xs" using assms(3) by (rule filter_cong [OF refl])
  also have "\<dots> = [a]" using assms(1,2) by (induction xs) (auto simp: filter_empty_conv)
  finally show ?thesis .
qed

lemma linear_chain_index:
  assumes "linear_chain chain" and "x \<in> set chain" and "sn_supersedes_id x = Some p"
  obtains i where "Suc i < length chain" "x = chain ! Suc i" "p = sn_id (chain ! i)"
proof -
  obtain j where j: "j < length chain" "x = chain ! j" using assms(2) by (auto simp: in_set_conv_nth)
  have "j \<noteq> 0"
  proof
    assume "j = 0"
    with j assms show False by (simp add: linear_chain_def hd_conv_nth)
  qed
  then obtain i where i: "j = Suc i" by (cases j) auto
  with j assms linked_nth [of chain i] have "p = sn_id (chain ! i)" by (simp add: linear_chain_def)
  with j i that show thesis by simp
qed

lemma linear_chain_nth_id:
  "linear_chain chain \<Longrightarrow> i < length chain \<Longrightarrow> j < length chain \<Longrightarrow>
     sn_id (chain ! i) = sn_id (chain ! j) \<longleftrightarrow> i = j"
  by (metis length_map linear_chain_def nth_eq_iff_index_eq nth_map)

lemma linear_chain_terminal:
  assumes "linear_chain chain" and "x \<in> set chain"
  shows "Some (sn_id x) \<notin> sn_supersedes_id ` set chain \<longleftrightarrow> x = last chain"
proof
  assume "Some (sn_id x) \<notin> sn_supersedes_id ` set chain"
  then show "x = last chain"
    using linked_has_child [of chain x] assms by (metis image_eqI linear_chain_def)
next
  assume x: "x = last chain"
  show "Some (sn_id x) \<notin> sn_supersedes_id ` set chain"
  proof
    assume "Some (sn_id x) \<in> sn_supersedes_id ` set chain"
    then obtain y where "y \<in> set chain" "sn_supersedes_id y = Some (sn_id x)"
      by (metis imageE)
    then obtain i where i: "Suc i < length chain" "sn_id x = sn_id (chain ! i)"
      using linear_chain_index [OF assms(1)] by metis
    have "chain \<noteq> []" using i by auto
    then have "x = chain ! (length chain - 1)" using x by (simp add: last_conv_nth)
    then have "length chain - 1 = i"
      using linear_chain_nth_id [OF assms(1), of "length chain - 1" i] i by simp
    with i show False by simp
  qed
qed

lemma chain_terminals:
  assumes "linear_chain chain" and "mset ordered = mset chain"
  shows "filter (\<lambda>row. Some (sn_id row) \<notin> sn_supersedes_id ` set ordered) ordered = [last chain]"
proof -
  have set: "set ordered = set chain" using assms(2) by (rule mset_eq_setD)
  have "chain \<noteq> []" "distinct chain" using assms(1) by (auto simp: linear_chain_def distinct_map)
  then show ?thesis
    using linear_chain_terminal [OF assms(1)] mset_eq_imp_distinct_iff [OF assms(2)]
    by (intro filter_unique) (auto simp: set)
qed

section \<open>A linear chain is accepted\<close>

lemma count_rows_total:
  assumes "\<forall>r \<in> set rows. \<forall>p. sn_supersedes_id r = Some p \<longrightarrow> dict_by sn_id ordered p \<noteq> None"
    and "\<forall>p. c0 p + children p rows \<le> 1"
  shows "\<exists>cc. foldE (count_row ordered) (r0, c0) rows
    = Inr (r0 + length (filter (\<lambda>r. sn_supersedes_id r = None) rows), cc)"
  using assms
proof (induction rows arbitrary: r0 c0)
  case (Cons r rows)
  have pr: "\<forall>r \<in> set rows. \<forall>p. sn_supersedes_id r = Some p \<longrightarrow> dict_by sn_id ordered p \<noteq> None"
    using Cons.prems(1) by simp
  show ?case
  proof (cases "sn_supersedes_id r")
    case None
    have "\<forall>p. c0 p + children p rows \<le> 1" using Cons.prems(2) None by (simp add: children_def)
    from Cons.IH [OF pr this, of "Suc r0"] None show ?thesis by simp
  next
    case (Some p)
    have c: "c0 p + Suc (children p rows) \<le> 1" using spec [OF Cons.prems(2), of p] Some
      by (simp add: children_def)
    have "\<forall>q. (c0(p := 1)) q + children q rows \<le> 1"
    proof
      fix q
      show "(c0(p := 1)) q + children q rows \<le> 1"
        using spec [OF Cons.prems(2), of q] Some c by (cases "q = p") (simp_all add: children_def)
    qed
    from Cons.IH [where ?c0.0 = "c0(p := 1)" and ?r0.0 = r0, OF pr this]
    obtain cc where "foldE (count_row ordered) (r0, c0(p := 1)) rows
      = Inr (r0 + length (filter (\<lambda>r. sn_supersedes_id r = None) rows), cc)" by (rule exE)
    with Cons.prems(1) Some c show ?thesis by auto
  qed
qed simp

lemma visit_chain:
  assumes "linear_chain chain" "i < length chain" "mset ordered = mset chain"
    and "\<forall>j < length chain. state (sn_id (chain ! j)) \<noteq> None"
    and "\<forall>j \<le> i. state (sn_id (chain ! j)) \<noteq> Some Visiting"
  shows "\<exists>state'. visit ordered state (chain ! i) = Inr state' \<and>
    (\<forall>k. state k \<noteq> None \<longrightarrow> state' k \<noteq> None) \<and> (\<forall>k. state' k = Some Visiting \<longrightarrow> state k = Some Visiting)"
  using assms
proof (induction i arbitrary: state)
  case 0
  then have "sn_supersedes_id (chain ! 0) = None" by (auto simp: linear_chain_def hd_conv_nth)
  with 0 show ?case
    by (subst visit.simps) (auto split: option.splits visit_state.splits)
next
  case (Suc i)
  let ?n = "chain ! Suc i"
  obtain c where c: "state (sn_id ?n) = Some c" using Suc.prems(2,4) by blast
  have "c \<noteq> Visiting" using Suc.prems(5) c by auto
  then consider "c = Done" | "c = Unseen" by (cases c) auto
  then show ?case
  proof cases
    case 1
    then show ?thesis using c by (subst visit.simps) simp
  next
    case 2
    have sup: "sn_supersedes_id ?n = Some (sn_id (chain ! i))"
      using Suc.prems(1,2) by (auto simp: linear_chain_def intro: linked_nth)
    have "chain ! i \<in> set ordered" using Suc.prems(2) mset_eq_setD [OF Suc.prems(3)] by simp
    moreover have "distinct (map sn_id ordered)"
      using Suc.prems(1) unfolding linear_chain_def distinct_map_mset [OF Suc.prems(3), of sn_id] by simp
    ultimately have q: "dict_by sn_id ordered (sn_id (chain ! i)) = Some (chain ! i)"
      by (simp add: dict_by_distinct)
    let ?st = "state(sn_id ?n \<mapsto> Visiting)"
    have "\<exists>st'. visit ordered ?st (chain ! i) = Inr st' \<and> (\<forall>k. ?st k \<noteq> None \<longrightarrow> st' k \<noteq> None)
      \<and> (\<forall>k. st' k = Some Visiting \<longrightarrow> ?st k = Some Visiting)"
    proof (rule Suc.IH)
      show "\<forall>j \<le> i. ?st (sn_id (chain ! j)) \<noteq> Some Visiting"
        using Suc.prems(2,5) linear_chain_nth_id [OF Suc.prems(1)] by auto
    qed (use Suc.prems in auto)
    then obtain st' where "visit ordered ?st (chain ! i) = Inr st'"
      "\<forall>k. ?st k \<noteq> None \<longrightarrow> st' k \<noteq> None" "\<forall>k. st' k = Some Visiting \<longrightarrow> ?st k = Some Visiting"
      by blast
    then show ?thesis using c 2 sup q
      by (subst visit.simps) (auto split: if_splits)
  qed
qed

lemma visit_all_chain:
  assumes "linear_chain chain" "mset ordered = mset chain" "set rows \<subseteq> set chain"
    and "\<forall>r \<in> set chain. state (sn_id r) \<noteq> None"
    and "\<forall>k. state k \<noteq> Some Visiting"
  shows "\<exists>state'. foldE (visit ordered) state rows = Inr state'"
  using assms(3-)
proof (induction rows arbitrary: state)
  case (Cons r rows)
  then obtain i where i: "i < length chain" "r = chain ! i" by (auto simp: in_set_conv_nth)
  obtain st1 where st1: "visit ordered state r = Inr st1"
    "\<forall>k. state k \<noteq> None \<longrightarrow> st1 k \<noteq> None" "\<forall>k. st1 k = Some Visiting \<longrightarrow> state k = Some Visiting"
    using visit_chain [OF assms(1) i(1) assms(2), of state] Cons.prems(2,3) i by auto
  have "\<exists>state'. foldE (visit ordered) st1 rows = Inr state'"
  proof (rule Cons.IH)
    show "set rows \<subseteq> set chain" using Cons.prems(1) by simp
    show "\<forall>r \<in> set chain. st1 (sn_id r) \<noteq> None" using Cons.prems(2) st1(2) by metis
    show "\<forall>k. st1 k \<noteq> Some Visiting" using Cons.prems(3) st1(3) by metis
  qed
  with st1(1) show ?case by simp
qed simp

lemma linear_chain_distinct: "linear_chain chain \<Longrightarrow> mset rows = mset chain \<Longrightarrow> distinct rows"
  using mset_eq_imp_distinct_iff [of rows chain] by (simp add: linear_chain_def distinct_map)

lemma linear_chain_children:
  assumes "linear_chain chain" and "mset rows = mset chain"
  shows "children p rows \<le> 1"
proof -
  have u: "x = y" if "x \<in> set chain" "y \<in> set chain" "sn_supersedes_id x = Some p" "sn_supersedes_id y = Some p"
    for x y
    using linear_chain_index [OF assms(1) that(1,3)] linear_chain_index [OF assms(1) that(2,4)]
      linear_chain_nth_id [OF assms(1)] by (metis Suc_lessD)
  have "distinct (filter (\<lambda>r. sn_supersedes_id r = Some p) rows)"
    using linear_chain_distinct [OF assms] by simp
  then have "children p rows = card (set (filter (\<lambda>r. sn_supersedes_id r = Some p) rows))"
    unfolding children_def by (rule distinct_card [symmetric])
  also have "\<dots> \<le> 1"
    using u mset_eq_setD [OF assms(2)] by (subst card_le_Suc0_iff_eq [simplified One_nat_def [symmetric]]) auto
  finally show ?thesis .
qed

lemma linear_chain_roots:
  assumes "linear_chain chain" and "mset rows = mset chain"
  shows "filter (\<lambda>r. sn_supersedes_id r = None) rows = [hd chain]"
proof (rule filter_unique)
  show "distinct rows" by (rule linear_chain_distinct [OF assms])
  have c: "chain \<noteq> []" "sn_supersedes_id (hd chain) = None" "linked chain"
    using assms(1) by (simp_all add: linear_chain_def)
  then show "hd chain \<in> set rows" using mset_eq_setD [OF assms(2)] by simp
  fix x assume "x \<in> set rows"
  then obtain j where j: "j < length chain" "x = chain ! j"
    using mset_eq_setD [OF assms(2)] by (auto simp: in_set_conv_nth)
  with c linked_nth [of chain "j - 1"] show "sn_supersedes_id x = None \<longleftrightarrow> x = hd chain"
    by (cases j) (auto simp: hd_conv_nth)
qed

lemma linear_chain_accepted:
  assumes chain: "linear_chain chain" and m: "mset chain = mset nodes"
    and tenant: "\<forall>r \<in> set nodes. sn_tenant_id r = tenant_id"
  shows "\<exists>ordered. validate_linear_chain nodes tenant_id = Inr ordered \<and> mset ordered = mset nodes"
proof -
  let ?o = "sort_key (\<lambda>row. (sn_created_at row, sn_id row)) nodes"
  have mo: "mset ?o = mset chain" using m by simp
  have set: "set ?o = set chain" using mo by (rule mset_eq_setD)
  have "chain \<noteq> []" using chain by (simp add: linear_chain_def)
  then have ne: "?o \<noteq> []" using m by auto
  have orphan: "dict_by sn_id ?o p \<noteq> None"
    if "r \<in> set ?o" "sn_supersedes_id r = Some p" for r p
  proof -
    from that(1) have "r \<in> set chain" by (simp only: set)
    from linear_chain_index [OF chain this that(2)]
    obtain i where "Suc i < length chain" "p = sn_id (chain ! i)" by blast
    then have "p \<in> sn_id ` set ?o" unfolding set by (metis Suc_lessD image_eqI nth_mem)
    then show ?thesis using dict_by_None [of sn_id ?o p] by blast
  qed
  have "\<exists>cc. foldE (count_row ?o) (0, \<lambda>_. 0) ?o
      = Inr (0 + length (filter (\<lambda>r. sn_supersedes_id r = None) ?o), cc)"
    by (rule count_rows_total) (use orphan linear_chain_children [OF chain mo] in auto)
  then obtain cc where cc: "foldE (count_row ?o) (0, \<lambda>_. 0) ?o = Inr (1, cc)"
    unfolding linear_chain_roots [OF chain mo] by auto
  have "\<exists>st. foldE (visit ?o) (\<lambda>i. if i \<in> sn_id ` set ?o then Some Unseen else None) ?o = Inr st"
    by (rule visit_all_chain [OF chain mo]) (simp_all only: set, auto)
  then obtain st where
    st: "foldE (visit ?o) (\<lambda>i. if i \<in> sn_id ` set ?o then Some Unseen else None) ?o = Inr st" ..
  have "\<not> (\<exists>row \<in> set ?o. sn_tenant_id row \<noteq> tenant_id)" using tenant by simp
  then have "validate_linear_chain nodes tenant_id = Inr ?o"
    using ne by (simp only: validate_linear_chain_def Let_def if_False raise_if_simps bindE_simps cc st
        prod.case simp_thms)
  with mo m show ?thesis by auto
qed

lemma resolve_terminal_chain:
  assumes "linear_chain chain" "mset chain = mset nodes" "\<forall>r \<in> set nodes. sn_tenant_id r = tenant_id"
  shows "resolve_terminal_node nodes tenant_id = Inr (Some (last chain))"
proof -
  obtain ordered where o: "validate_linear_chain nodes tenant_id = Inr ordered" "mset ordered = mset chain"
    using linear_chain_accepted [OF assms] assms(2) by metis
  then have "ordered \<noteq> []" using assms(1) by (auto simp: linear_chain_def)
  with o show ?thesis
    using chain_terminals [OF assms(1) o(2)] by (simp add: resolve_terminal_node_def)
qed

section \<open>Rejected sets of rows\<close>

lemma count_rows_error:
  "foldE (count_row ordered) acc rows = Inl e \<Longrightarrow> \<exists>msg. e = chain_broken msg"
proof (induction rows arbitrary: acc)
  case (Cons r rows)
  obtain r0 c0 where acc: "acc = (r0, c0)" by (cases acc)
  show ?case
  proof (cases "count_row ordered acc r")
    case (Inl e')
    then show ?thesis using Cons.prems by (auto simp: acc split: option.splits if_splits)
  next
    case (Inr acc')
    then show ?thesis using Cons by simp
  qed
qed simp

lemma count_rows_resolve:
  "foldE (count_row ordered) acc rows = Inr acc' \<Longrightarrow> r \<in> set rows \<Longrightarrow> sn_supersedes_id r = Some p
     \<Longrightarrow> p \<in> sn_id ` set ordered"
proof (induction rows arbitrary: acc)
  case (Cons x rows)
  obtain r0 c0 where acc: "acc = (r0, c0)" by (cases acc)
  obtain acc1 where x: "count_row ordered (r0, c0) x = Inr acc1" and rest: "foldE (count_row ordered) acc1 rows = Inr acc'"
    using Cons.prems(1) by (auto simp: result_simps acc)
  show ?case
  proof (cases "r = x")
    case True
    then have "dict_by sn_id ordered p \<noteq> None" using x Cons.prems(3) by (auto split: if_splits)
    then show ?thesis by (simp add: dict_by_None)
  next
    case False
    then show ?thesis using Cons rest by auto
  qed
qed simp

lemma broken_chain_rejected:
  assumes "n \<in> set nodes" and "sn_supersedes_id n = None"
    and "a \<notin> set nodes" and "case sn_supersedes_id a of None \<Rightarrow> True | Some p \<Rightarrow> p \<notin> sn_id ` set (nodes @ [a])"
  shows "\<exists>msg. validate_linear_chain (nodes @ [a]) tenant_id = Inl (chain_broken msg)"
proof -
  let ?o = "sort_key (\<lambda>row. (sn_created_at row, sn_id row)) (nodes @ [a])"
  have set: "set ?o = set (nodes @ [a])" by simp
  show ?thesis
  proof (cases "foldE (count_row ?o) (0, \<lambda>_. 0) ?o")
    case (Inl e)
    with count_rows_error [OF Inl] show ?thesis
      by (auto simp: validate_linear_chain_def Let_def raise_if_def)
  next
    case (Inr acc)
    obtain roots cc where acc: "acc = (roots, cc)" by (cases acc)
    have "p \<in> sn_id ` set (nodes @ [a])" if "sn_supersedes_id a = Some p" for p
      using count_rows_resolve [OF Inr _ that] by (simp only: set) simp
    then have a: "sn_supersedes_id a = None" using assms(4) by (cases "sn_supersedes_id a") auto
    have "roots = length (filter (\<lambda>r. sn_supersedes_id r = None) ?o)"
      using count_rows [OF Inr [unfolded acc]] by simp
    also have "\<dots> = length (filter (\<lambda>r. sn_supersedes_id r = None) (nodes @ [a]))"
      by (simp only: filter_sort length_sort)
    also have "\<dots> = Suc (length (filter (\<lambda>r. sn_supersedes_id r = None) nodes))" using a by simp
    finally have "roots \<noteq> 1" using assms(1,2) by (auto simp: filter_empty_conv)
    moreover have "nodes @ [a] \<noteq> []" by simp
    ultimately show ?thesis
      using Inr by (simp add: validate_linear_chain_def Let_def acc raise_if_def del: sort_key_simps)
  qed
qed

section \<open>Properties\<close>

text \<open>(C13) Validation decides linearity: over rows with distinct ids, the code's three
  passes (orphans and branches, root count, cycle detection) accept a non-empty set of rows
  exactly when the rows, in some order, form one linear chain of the tenant, each row
  superseding the previous one and the first superseding none.\<close>

theorem validate_linear_chain_iff:
  assumes "distinct (map sn_id nodes)" and "nodes \<noteq> []"
  shows "(\<exists>ordered. validate_linear_chain nodes tenant_id = Inr ordered) \<longleftrightarrow>
    (\<exists>chain. linear_chain chain \<and> mset chain = mset nodes \<and> list_all (\<lambda>r. sn_tenant_id r = tenant_id) nodes)"
    (is "?L \<longleftrightarrow> ?R")
proof
  assume ?L
  then obtain ordered where "validate_linear_chain nodes tenant_id = Inr ordered" ..
  from validated_chain_is_linear [OF this assms(2,1)]
  obtain chain where c: "linear_chain chain" "mset chain = mset nodes"
    "\<forall>r \<in> set chain. sn_tenant_id r = tenant_id" by blast
  moreover have "set chain = set nodes" using c(2) by (rule mset_eq_setD)
  ultimately show ?R by (auto simp: list_all_iff)
next
  assume ?R
  then show ?L using linear_chain_accepted [of _ nodes tenant_id] by (auto simp: list_all_iff)
qed

definition example_chain :: "supersession_node list" where
  "example_chain =
     [\<lparr>sn_id = 5, sn_tenant_id = 7, sn_created_at = 20, sn_supersedes_id = Some 9\<rparr>,
      \<lparr>sn_id = 9, sn_tenant_id = 7, sn_created_at = 10, sn_supersedes_id = None\<rparr>]"

lemma example_chain_valid: "validate_linear_chain example_chain 7 = Inr (rev example_chain)"
  by (simp add: example_chain_def validate_linear_chain_def Let_def dict_by_def visit.simps raise_if_def)

theorem validate_linear_chain_iff_witness:
  "\<exists>chain. linear_chain chain \<and> mset chain = mset example_chain
     \<and> list_all (\<lambda>r. sn_tenant_id r = 7) example_chain"
  using validate_linear_chain_iff [of example_chain 7] example_chain_valid
  by (simp add: example_chain_def)

text \<open>Appending keeps the history linear: when the append guard accepts the
  predecessor reference of a new row (fresh id, same tenant), the extended set of rows
  validates again and the new row is its terminal node.\<close>

theorem append_keeps_chain:
  assumes guard: "ensure_append_targets_terminal nodes tenant_id (sn_supersedes_id n) = Inr ()"
    and ids: "distinct (map sn_id (nodes @ [n]))" and tenant: "sn_tenant_id n = tenant_id"
  shows "(\<exists>ordered. validate_linear_chain (nodes @ [n]) tenant_id = Inr ordered)
    \<and> resolve_terminal_node (nodes @ [n]) tenant_id = Inr (Some n)"
proof (cases "nodes = []")
  case True
  then have "sn_supersedes_id n = None"
    using guard by (simp add: ensure_append_targets_terminal_def resolve_terminal_node_def
        validate_linear_chain_def raise_if_Inr_iff)
  then have "linear_chain [n]" by (simp add: linear_chain_def)
  with True tenant show ?thesis
    using linear_chain_accepted [of "[n]" "[n]"] resolve_terminal_chain [of "[n]" "[n]"] by auto
next
  case False
  obtain ordered where "validate_linear_chain nodes tenant_id = Inr ordered"
    using guard by (auto simp: ensure_append_targets_terminal_def resolve_terminal_node_def result_simps)
  from validated_chain_is_linear [OF this False]
  obtain chain where chain: "linear_chain chain" "mset chain = mset nodes"
    and t: "\<forall>r \<in> set chain. sn_tenant_id r = tenant_id"
    using ids by auto
  have nodes: "set chain = set nodes" using chain(2) by (rule mset_eq_setD)
  have "sn_supersedes_id n = Some (sn_id (last chain))"
    using guard resolve_terminal_chain [OF chain] t nodes
    by (simp add: ensure_append_targets_terminal_def raise_if_Inr_iff)
  moreover have "sn_id n \<notin> sn_id ` set chain" using ids by (simp add: nodes)
  ultimately have "linear_chain (chain @ [n])"
    using chain(1) by (simp add: linear_chain_def linked_snoc)
  moreover have "mset (chain @ [n]) = mset (nodes @ [n])" using chain(2) by simp
  moreover have "\<forall>r \<in> set (nodes @ [n]). sn_tenant_id r = tenant_id" using t nodes tenant by simp
  ultimately show ?thesis
    using linear_chain_accepted [of "chain @ [n]" "nodes @ [n]" tenant_id]
      resolve_terminal_chain [of "chain @ [n]" "nodes @ [n]" tenant_id] by auto
qed

definition example_row :: supersession_node where
  "example_row = \<lparr>sn_id = 12, sn_tenant_id = 7, sn_created_at = 30, sn_supersedes_id = Some 5\<rparr>"

theorem append_keeps_chain_witness:
  "resolve_terminal_node (example_chain @ [example_row]) 7 = Inr (Some example_row)"
proof -
  have "ensure_append_targets_terminal example_chain 7 (sn_supersedes_id example_row) = Inr ()"
    by (simp add: ensure_append_targets_terminal_def resolve_terminal_node_def example_chain_valid)
      (simp add: example_chain_def example_row_def)
  from append_keeps_chain [OF this] show ?thesis by (simp add: example_chain_def example_row_def)
qed

text \<open>The ambiguous-terminal error is unreachable: whenever validation succeeds on
  rows with distinct ids, resolving the terminal node succeeds too, and the terminal is
  superseded by no row.\<close>

theorem resolve_terminal_total:
  assumes "validate_linear_chain nodes tenant_id = Inr ordered" and "nodes \<noteq> []"
    and "distinct (map sn_id nodes)"
  shows "\<exists>t. resolve_terminal_node nodes tenant_id = Inr (Some t) \<and> t \<in> set nodes
    \<and> Some (sn_id t) \<notin> sn_supersedes_id ` set nodes"
proof -
  obtain chain where chain: "linear_chain chain" "mset chain = mset nodes"
    and t: "\<forall>r \<in> set chain. sn_tenant_id r = tenant_id"
    using validated_chain_is_linear [OF assms] by blast
  have nodes: "set chain = set nodes" using chain(2) by (rule mset_eq_setD)
  have "last chain \<in> set chain" using chain(1) by (simp add: linear_chain_def)
  then show ?thesis
    using resolve_terminal_chain [OF chain] linear_chain_terminal [OF chain(1), of "last chain"] t nodes
    by auto
qed

theorem resolve_terminal_total_witness:
  "\<exists>t. resolve_terminal_node example_chain 7 = Inr (Some t) \<and> t \<in> set example_chain
    \<and> Some (sn_id t) \<notin> sn_supersedes_id ` set example_chain"
  by (rule resolve_terminal_total [OF example_chain_valid]) (simp_all add: example_chain_def)

end
