(* ===== verification/Revenue_Remeasurement.thy ===== *)
theory Revenue_Remeasurement
  imports Revenue_Registry Supersession
begin

text \<open>
  \<open>services/revenue/remeasurement.py\<close>: the modifications of a contract are applied to a run.
  Each becomes an adjustment row that supersedes the previous adjustment of the run, links
  the schedule version before it to the version after it and carries the catch-up amount;
  a modification of the price inserts a contract row that supersedes the current one.
  Reads see the rows of the session, the unique constraint of the adjustments is checked
  on insert.
\<close>

section \<open>Amounts, payloads, keys\<close>

record persisted_adjustment =
  pa_adjustment_id :: uuid
  pa_contract_id :: uuid
  pa_effective_date :: date
  pa_adjustment_type :: string
  pa_idempotency_key :: string
  pa_prior_schedule_version_token :: string
  pa_new_schedule_version_token :: string
  pa_catch_up_amount_reporting_currency :: rat

record remeasurement_result =
  rr_adjustment_count :: nat
  rr_adjustments_by_contract :: "(uuid \<times> persisted_adjustment list) list"

definition expected_cumulative_ratio :: "date \<Rightarrow> date \<Rightarrow> date \<Rightarrow> rat result" where
  "expected_cumulative_ratio contract_start_date contract_end_date effective_date =
     (let total_days = max (days_between contract_end_date contract_start_date + 1) 1;
          elapsed_days = min (max (days_between effective_date contract_start_date + 1) 0) total_days
      in ddiv (of_int elapsed_days) (of_int total_days))"

definition decimal_text :: "rat option \<Rightarrow> string option result" where
  "decimal_text value =
     (case value of None \<Rightarrow> Inr None
      | Some v \<Rightarrow> bindE (quantize_persisted_amount v) (\<lambda>q. Inr (Some (amount_text q))))"

definition normalized_modification_payload :: "modification_input \<Rightarrow> json result" where
  "normalized_modification_payload modification =
     bindE (decimal_text (mi_new_total_contract_value modification)) (\<lambda>total_text.
     Inr (JDict [(''effective_date'', JStr (date_text (mi_effective_date modification))),
                 (''adjustment_type'', JStr (mi_adjustment_type modification)),
                 (''adjustment_reason'', JStr (mi_adjustment_reason modification)),
                 (''new_total_contract_value'', json_opt total_text),
                 (''requires_catch_up'', JBool (mi_requires_catch_up modification))]))"

definition modification_idempotency_key :: "sha \<Rightarrow> uuid \<Rightarrow> modification_input \<Rightarrow> string result" where
  "modification_idempotency_key sha contract_id modification =
     bindE (normalized_modification_payload modification) (\<lambda>payload.
     Inr (sha (canonical_json_dumps (JDict [(''contract_id'', JStr (uuid_text contract_id)), (''modification'', payload)]))))"

text \<open>\<open>sorted\<close> computes every key first, and comparing \<open>None\<close> with a string raises: two
  modifications that agree on date, type and reason must both carry a new total or neither.\<close>

definition modification_prefix :: "modification_input \<Rightarrow> date \<times> string \<times> string" where
  "modification_prefix m = (mi_effective_date m, mi_adjustment_type m, mi_adjustment_reason m)"

definition sort_modifications :: "modification_input list \<Rightarrow> modification_input list result" where
  "sort_modifications modifications =
     bindE (mapE (\<lambda>item. decimal_text (mi_new_total_contract_value item)) modifications) (\<lambda>texts.
     bindE (raise_if (list_ex (\<lambda>a. list_ex (\<lambda>b. modification_prefix a = modification_prefix b
              \<and> mi_new_total_contract_value a = None \<and> mi_new_total_contract_value b \<noteq> None) modifications) modifications)
             TypeError) (\<lambda>_.
     Inr (map snd (sort_key (\<lambda>(total_text, item).
            (mi_effective_date item, mi_adjustment_type item, mi_adjustment_reason item, total_text, mi_requires_catch_up item))
            (zip texts modifications)))))"

section \<open>Chains and look-ups\<close>

definition contract_node :: "revenue_contract row \<Rightarrow> supersession_node" where
  "contract_node r = \<lparr>sn_id = row_id r, sn_tenant_id = row_tenant r, sn_created_at = int (row_created_at r),
     sn_supersedes_id = rk_supersedes_id (row_values r)\<rparr>"

definition adjustment_node :: "revenue_adjustment row \<Rightarrow> supersession_node" where
  "adjustment_node r = \<lparr>sn_id = row_id r, sn_tenant_id = row_tenant r, sn_created_at = int (row_created_at r),
     sn_supersedes_id = ra_supersedes_id (row_values r)\<rparr>"

definition load_contract_chain :: "uuid \<Rightarrow> string \<Rightarrow> string \<Rightarrow> revenue_db \<Rightarrow> supersession_node list" where
  "load_contract_chain tenant_id contract_number source_contract_reference db =
     map contract_node (sort_key (\<lambda>r. (row_created_at r, row_id r))
       (filter (\<lambda>r. row_tenant r = tenant_id \<and> rk_contract_number (row_values r) = contract_number
          \<and> rk_source_contract_reference (row_values r) = source_contract_reference) (rv_contracts db)))"

definition adjustments_of :: "uuid \<Rightarrow> uuid \<Rightarrow> uuid \<Rightarrow> revenue_db \<Rightarrow> revenue_adjustment row list" where
  "adjustments_of tenant_id run_id contract_id db =
     filter (\<lambda>r. row_tenant r = tenant_id \<and> ra_run_id (row_values r) = run_id
       \<and> ra_contract_id (row_values r) = contract_id) (rv_adjustments db)"

definition resolve_latest_token_for_contract :: "uuid \<Rightarrow> uuid \<Rightarrow> uuid \<Rightarrow> string \<Rightarrow> revenue_db \<Rightarrow> string" where
  "resolve_latest_token_for_contract tenant_id run_id contract_id root_schedule_version_token db =
     (case latest_by (\<lambda>r. (ra_effective_date (row_values r), row_created_at r, row_id r))
             (adjustments_of tenant_id run_id contract_id db) of
        None \<Rightarrow> root_schedule_version_token
      | Some latest \<Rightarrow> ra_new_schedule_version_token (row_values latest))"

definition one_or_none :: "'r list \<Rightarrow> 'r option result" where
  "one_or_none rows = (case rows of [] \<Rightarrow> Inr None | [r] \<Rightarrow> Inr (Some r) | _ \<Rightarrow> Inl MultipleResultsFound)"

definition find_adjustment :: "uuid \<Rightarrow> uuid \<Rightarrow> uuid \<Rightarrow> modification_input \<Rightarrow> string \<Rightarrow> revenue_db
    \<Rightarrow> revenue_adjustment row option result" where
  "find_adjustment tenant_id run_id contract_id modification idempotency_key db =
     one_or_none (filter (\<lambda>r. ra_effective_date (row_values r) = mi_effective_date modification
         \<and> ra_adjustment_type (row_values r) = mi_adjustment_type modification
         \<and> ra_idempotency_key (row_values r) = idempotency_key) (adjustments_of tenant_id run_id contract_id db))"

definition schedules_until :: "uuid \<Rightarrow> uuid \<Rightarrow> uuid \<Rightarrow> string \<Rightarrow> date \<Rightarrow> revenue_db \<Rightarrow> revenue_schedule row list" where
  "schedules_until tenant_id run_id contract_id token effective_date db =
     filter (\<lambda>r. row_tenant r = tenant_id \<and> rd_run_id (row_values r) = run_id
       \<and> gs_contract_id (rd_row (row_values r)) = contract_id
       \<and> gs_schedule_version_token (rd_row (row_values r)) = token
       \<and> gs_recognition_date (rd_row (row_values r)) \<le> effective_date) (rv_schedules db)"

definition persisted_of_row :: "uuid \<Rightarrow> revenue_adjustment row \<Rightarrow> persisted_adjustment" where
  "persisted_of_row schedule_contract_id r =
     \<lparr>pa_adjustment_id = row_id r, pa_contract_id = schedule_contract_id,
      pa_effective_date = ra_effective_date (row_values r), pa_adjustment_type = ra_adjustment_type (row_values r),
      pa_idempotency_key = ra_idempotency_key (row_values r),
      pa_prior_schedule_version_token = ra_prior_schedule_version_token (row_values r),
      pa_new_schedule_version_token = ra_new_schedule_version_token (row_values r),
      pa_catch_up_amount_reporting_currency = ra_catch_up_amount_reporting_currency (row_values r)\<rparr>"

section \<open>Inserts\<close>

definition insert_superseding_contract :: "sha \<Rightarrow> (rat \<Rightarrow> string) \<Rightarrow> uuid \<Rightarrow> uuid \<Rightarrow> string \<Rightarrow> revenue_contract row \<Rightarrow> rat
    \<Rightarrow> revenue_db \<Rightarrow> (revenue_contract row \<times> revenue_db) result" where
  "insert_superseding_contract sha dec_str tenant_id user_id correlation_id current_contract proposed_total db =
     bindE (numeric_20_6 proposed_total) (\<lambda>stored_total.
     let c = row_values current_contract;
         (r, rows, env) = insert_financial_record sha (\<lambda>v. v) tenant_id
           (str_dict [(''contract_number'', rk_contract_number c),
                      (''source_contract_reference'', rk_source_contract_reference c),
                      (''total_contract_value'', dec_str proposed_total)])
           (c\<lparr>rk_total_contract_value := stored_total, rk_correlation_id := correlation_id,
              rk_supersedes_id := Some (row_id current_contract)\<rparr>)
           (Some (revenue_event tenant_id user_id ''revenue.contract.superseded'' ''revenue_contract''
             [(''contract_number'', rk_contract_number c), (''supersedes_id'', uuid_text (row_id current_contract)),
              (''correlation_id'', correlation_id)]))
           (rv_contracts db, rv_env db)
     in Inr (r, db\<lparr>rv_contracts := rows, rv_env := env\<rparr>))"

definition adjustment_conflict :: "revenue_adjustment \<Rightarrow> revenue_db \<Rightarrow> bool" where
  "adjustment_conflict a db \<longleftrightarrow> list_ex (\<lambda>r. ra_run_id (row_values r) = ra_run_id a
     \<and> ra_contract_id (row_values r) = ra_contract_id a \<and> ra_effective_date (row_values r) = ra_effective_date a
     \<and> ra_adjustment_type (row_values r) = ra_adjustment_type a
     \<and> ra_idempotency_key (row_values r) = ra_idempotency_key a) (rv_adjustments db)"

definition insert_adjustment :: "sha \<Rightarrow> uuid \<Rightarrow> uuid \<Rightarrow> revenue_adjustment \<Rightarrow> revenue_db
    \<Rightarrow> (revenue_adjustment row \<times> revenue_db) result" where
  "insert_adjustment sha tenant_id user_id a db =
     bindE (numeric_20_6 (ra_catch_up_amount_reporting_currency a)) (\<lambda>stored_catch_up.
     bindE (raise_if (adjustment_conflict a db) IntegrityError) (\<lambda>_.
     let (r, rows, env) = insert_financial_record sha (\<lambda>v. v) tenant_id
           (str_dict [(''run_id'', uuid_text (ra_run_id a)), (''contract_id'', uuid_text (ra_contract_id a)),
                      (''effective_date'', date_text (ra_effective_date a)),
                      (''adjustment_type'', ra_adjustment_type a), (''idempotency_key'', ra_idempotency_key a)])
           (a\<lparr>ra_catch_up_amount_reporting_currency := stored_catch_up\<rparr>)
           (Some (revenue_event tenant_id user_id ''revenue.adjustment.created'' ''revenue_adjustment''
             [(''contract_id'', uuid_text (ra_contract_id a)), (''effective_date'', date_text (ra_effective_date a)),
              (''adjustment_type'', ra_adjustment_type a), (''idempotency_key'', ra_idempotency_key a),
              (''correlation_id'', ra_correlation_id a)]))
           (rv_adjustments db, rv_env db)
     in Inr (r, db\<lparr>rv_adjustments := rows, rv_env := env\<rparr>)))"

section \<open>Applying modifications\<close>

text \<open>The keyword arguments of the call, and the local variables of its loop.\<close>

record remeasure_args =
  rm_tenant_id :: uuid
  rm_user_id :: uuid
  rm_run_id :: uuid
  rm_correlation_id :: string
  rm_reporting_currency :: string
  rm_rate_mode :: string

record remeasure_state =
  ms_current_contract :: "revenue_contract row"
  ms_prior_token :: string
  ms_chain_nodes :: "supersession_node list"
  ms_chain_adjustments :: "revenue_adjustment row list"
  ms_persisted :: "persisted_adjustment list"
  ms_created :: nat
  ms_db :: revenue_db

definition last_adjustment_id :: "remeasure_state \<Rightarrow> uuid option" where
  "last_adjustment_id s =
     (if ms_chain_adjustments s = [] then None else Some (row_id (last (ms_chain_adjustments s))))"

text \<open>The branch on a changed price: it rebinds \<open>chain_nodes\<close> to the chain of the contract.\<close>

definition change_price :: "sha \<Rightarrow> (rat \<Rightarrow> string) \<Rightarrow> remeasure_args \<Rightarrow> modification_input \<Rightarrow> remeasure_state
    \<Rightarrow> remeasure_state result" where
  "change_price sha dec_str g modification s =
     (case mi_new_total_contract_value modification of
        None \<Rightarrow> Inr s
      | Some v \<Rightarrow>
          bindE (quantize_persisted_amount v) (\<lambda>proposed_total.
          let current = ms_current_contract s; c = row_values current in
          if proposed_total = rk_total_contract_value c then Inr s
          else
            let chain_nodes = load_contract_chain (rm_tenant_id g) (rk_contract_number c) (rk_source_contract_reference c) (ms_db s) in
            bindE (ensure_append_targets_terminal chain_nodes (rm_tenant_id g) (Some (row_id current))) (\<lambda>_.
            bindE (case latest_by row_created_at (filter (\<lambda>r. row_tenant r = rm_tenant_id g
                       \<and> rk_supersedes_id (row_values r) = Some (row_id current)
                       \<and> rk_total_contract_value (row_values r) = proposed_total
                       \<and> rk_correlation_id (row_values r) = rm_correlation_id g) (rv_contracts (ms_db s))) of
                     Some r \<Rightarrow> Inr (r, ms_db s)
                   | None \<Rightarrow> insert_superseding_contract sha dec_str (rm_tenant_id g) (rm_user_id g) (rm_correlation_id g)
                       current proposed_total (ms_db s)) (\<lambda>(new_contract, db).
            Inr (s\<lparr>ms_current_contract := new_contract, ms_chain_nodes := chain_nodes, ms_db := db\<rparr>)))))"

definition catch_up_amount :: "modification_input \<Rightarrow> revenue_contract \<Rightarrow> revenue_schedule row list \<Rightarrow> rat result" where
  "catch_up_amount modification c historical =
     bindE (quantize_persisted_amount (dsum (map (\<lambda>r. gs_recognized_amount (rd_row (row_values r))) historical)))
       (\<lambda>recognized_to_date.
     bindE (expected_cumulative_ratio (rk_contract_start_date c) (rk_contract_end_date c) (mi_effective_date modification)) (\<lambda>ratio.
     bindE (quantize_persisted_amount (dmul (rk_total_contract_value c) ratio)) (\<lambda>expected_cumulative.
     if mi_requires_catch_up modification then quantize_persisted_amount (dsub expected_cumulative recognized_to_date)
     else Inr 0)))"

definition adjustment_values :: "remeasure_args \<Rightarrow> uuid \<Rightarrow> modification_input \<Rightarrow> string \<Rightarrow> string \<Rightarrow> string \<Rightarrow> uuid option
    \<Rightarrow> revenue_schedule row option \<Rightarrow> rat \<Rightarrow> string \<Rightarrow> revenue_adjustment" where
  "adjustment_values g schedule_contract_id modification idempotency_key prior_token new_token supersedes_id
      latest_prior_schedule catch_up source_contract_reference =
     \<lparr>ra_run_id = rm_run_id g, ra_contract_id = schedule_contract_id,
      ra_effective_date = mi_effective_date modification, ra_adjustment_type = mi_adjustment_type modification,
      ra_adjustment_reason = mi_adjustment_reason modification, ra_idempotency_key = idempotency_key,
      ra_prior_schedule_version_token = prior_token, ra_new_schedule_version_token = new_token,
      ra_prior_schedule_reference = map_option (\<lambda>r. uuid_text (row_id r)) latest_prior_schedule,
      ra_new_schedule_reference = ''forward_regenerated:'' @ uuid_text schedule_contract_id @ '':''
        @ date_text (mi_effective_date modification),
      ra_catch_up_amount_reporting_currency = catch_up, ra_source_contract_reference = source_contract_reference,
      ra_parent_reference_id = schedule_contract_id,
      ra_source_reference_id = (case latest_prior_schedule of Some r \<Rightarrow> row_id r | None \<Rightarrow> schedule_contract_id),
      ra_correlation_id = rm_correlation_id g, ra_supersedes_id = supersedes_id\<rparr>"

definition replay_adjustment :: "sha \<Rightarrow> remeasure_args \<Rightarrow> uuid \<Rightarrow> json \<Rightarrow> revenue_adjustment row \<Rightarrow> remeasure_state
    \<Rightarrow> remeasure_state result" where
  "replay_adjustment sha g schedule_contract_id payload existing s =
     bindE (raise_if (ra_new_schedule_version_token (row_values existing) \<noteq>
              build_schedule_version_token sha schedule_contract_id payload (rm_reporting_currency g) (rm_rate_mode g)
                (ra_prior_schedule_version_token (row_values existing)))
             (AccountingValidationError ''DUPLICATE_IDEMPOTENT_REQUEST'' ''Revenue modification idempotency conflict'')) (\<lambda>_.
     Inr (s\<lparr>ms_persisted := ms_persisted s @ [persisted_of_row schedule_contract_id existing],
            ms_prior_token := ra_new_schedule_version_token (row_values existing)\<rparr>))"

definition create_adjustment :: "sha \<Rightarrow> (rat \<Rightarrow> string) \<Rightarrow> remeasure_args \<Rightarrow> uuid \<Rightarrow> string \<Rightarrow> modification_input \<Rightarrow> string
    \<Rightarrow> json \<Rightarrow> remeasure_state \<Rightarrow> remeasure_state result" where
  "create_adjustment sha dec_str g schedule_contract_id root_token modification idempotency_key payload s =
     (let prior_token = (if ms_prior_token s = root_token \<and> ms_chain_adjustments s \<noteq> []
            then ra_new_schedule_version_token (row_values (last (ms_chain_adjustments s))) else ms_prior_token s);
          new_token = build_schedule_version_token sha schedule_contract_id payload (rm_reporting_currency g)
            (rm_rate_mode g) prior_token;
          supersedes_id = last_adjustment_id s in
      bindE (change_price sha dec_str g modification s) (\<lambda>s.
      let historical = schedules_until (rm_tenant_id g) (rm_run_id g) schedule_contract_id prior_token
            (mi_effective_date modification) (ms_db s);
          c = row_values (ms_current_contract s) in
      bindE (catch_up_amount modification c historical) (\<lambda>catch_up.
      bindE (insert_adjustment sha (rm_tenant_id g) (rm_user_id g)
              (adjustment_values g schedule_contract_id modification idempotency_key prior_token new_token supersedes_id
                (latest_by (\<lambda>r. (gs_recognition_date (rd_row (row_values r)), row_created_at r)) historical) catch_up
                (rk_source_contract_reference c))
              (ms_db s)) (\<lambda>(created, db).
      Inr (s\<lparr>ms_created := ms_created s + 1, ms_chain_adjustments := ms_chain_adjustments s @ [created],
             ms_chain_nodes := ms_chain_nodes s @ [adjustment_node created],
             ms_persisted := ms_persisted s @ [persisted_of_row schedule_contract_id created],
             ms_prior_token := ra_new_schedule_version_token (row_values created), ms_db := db\<rparr>)))))"

definition apply_modification :: "sha \<Rightarrow> (rat \<Rightarrow> string) \<Rightarrow> remeasure_args \<Rightarrow> uuid \<Rightarrow> string \<Rightarrow> remeasure_state
    \<Rightarrow> modification_input \<Rightarrow> remeasure_state result" where
  "apply_modification sha dec_str g schedule_contract_id root_token s modification =
     bindE (ensure_append_targets_terminal (ms_chain_nodes s) (rm_tenant_id g) (last_adjustment_id s)) (\<lambda>_.
     bindE (modification_idempotency_key sha schedule_contract_id modification) (\<lambda>idempotency_key.
     bindE (normalized_modification_payload modification) (\<lambda>payload.
     bindE (find_adjustment (rm_tenant_id g) (rm_run_id g) schedule_contract_id modification idempotency_key (ms_db s))
       (\<lambda>existing_adjustment.
     case existing_adjustment of
       Some existing \<Rightarrow> replay_adjustment sha g schedule_contract_id payload existing s
     | None \<Rightarrow> create_adjustment sha dec_str g schedule_contract_id root_token modification idempotency_key payload s))))"

text \<open>The loop over the contracts; its state is the current row of each contract number, the
  count, the adjustments by contract and the session.\<close>

type_synonym remeasure_loop =
  "(string \<Rightarrow> revenue_contract row option) \<times> nat \<times> (uuid \<times> persisted_adjustment list) list \<times> revenue_db"

definition apply_contract :: "sha \<Rightarrow> (rat \<Rightarrow> string) \<Rightarrow> remeasure_args \<Rightarrow> (uuid \<times> string) list \<Rightarrow> remeasure_loop
    \<Rightarrow> contract_input \<Rightarrow> remeasure_loop result" where
  "apply_contract sha dec_str g root_tokens = (\<lambda>(contract_state, created, by_contract, db) contract_input.
     case contract_state (ci_contract_number contract_input) of
       None \<Rightarrow> Inl KeyError
     | Some current_contract \<Rightarrow>
         (let schedule_contract_id = row_id current_contract in
          case map_of root_tokens schedule_contract_id of
            None \<Rightarrow> Inl (chain_broken ''Missing root revenue schedule version token'')
          | Some root_token \<Rightarrow>
              (let existing = sort_key (\<lambda>r. (row_created_at r, row_id r))
                     (adjustments_of (rm_tenant_id g) (rm_run_id g) schedule_contract_id db);
                   chain_nodes = map adjustment_node existing in
               bindE (validate_linear_chain chain_nodes (rm_tenant_id g)) (\<lambda>_.
               bindE (sort_modifications (ci_modifications contract_input)) (\<lambda>ordered_modifications.
               bindE (foldE (apply_modification sha dec_str g schedule_contract_id root_token)
                       \<lparr>ms_current_contract = current_contract, ms_prior_token = root_token, ms_chain_nodes = chain_nodes,
                        ms_chain_adjustments = existing, ms_persisted = [], ms_created = created, ms_db = db\<rparr>
                       ordered_modifications) (\<lambda>s.
               Inr (contract_state(ci_contract_number contract_input \<mapsto> ms_current_contract s), ms_created s,
                    (if ms_persisted s = [] then by_contract
                     else AList.update schedule_contract_id (ms_persisted s) by_contract), ms_db s)))))))"

definition load_contract_state :: "uuid \<Rightarrow> revenue_db \<Rightarrow> registered_contract list
    \<Rightarrow> (string \<Rightarrow> revenue_contract row option) result" where
  "load_contract_state tenant_id db =
     foldE (\<lambda>contract_state contract.
       case find (\<lambda>r. row_tenant r = tenant_id \<and> row_id r = rc_contract_id contract) (rv_contracts db) of
         None \<Rightarrow> Inl NoResultFound
       | Some model \<Rightarrow> Inr (contract_state(rc_contract_number contract \<mapsto> model))) (\<lambda>_. None)"

definition apply_contract_modifications :: "sha \<Rightarrow> (rat \<Rightarrow> string) \<Rightarrow> remeasure_args \<Rightarrow> contract_input list
    \<Rightarrow> registered_contract list \<Rightarrow> (uuid \<times> string) list \<Rightarrow> revenue_db \<Rightarrow> (remeasurement_result \<times> revenue_db) result" where
  "apply_contract_modifications sha dec_str g contracts registered_contracts root_schedule_version_tokens db =
     bindE (load_contract_state (rm_tenant_id g) db registered_contracts) (\<lambda>contract_state.
     bindE (foldE (apply_contract sha dec_str g root_schedule_version_tokens) (contract_state, 0, [], db)
             (sort_key ci_contract_number contracts)) (\<lambda>(contract_state, created, by_contract, db).
     Inr (\<lparr>rr_adjustment_count = created, rr_adjustments_by_contract = by_contract\<rparr>, db)))"

section \<open>What the inserts change\<close>

lemma insert_adjustment_cases:
  assumes "insert_adjustment sha tenant_id user_id a db = Inr (r, db')"
  shows "rv_adjustments db' = rv_adjustments db @ [r]" "rv_contracts db' = rv_contracts db"
    "rv_schedules db' = rv_schedules db" "\<not> adjustment_conflict a db"
    "env_now (rv_env db) < env_now (rv_env db')" "env_next_id (rv_env db) < env_next_id (rv_env db')"
    "row_id r = env_next_id (rv_env db)" "row_created_at r = env_now (rv_env db)" "row_tenant r = tenant_id"
    "\<exists>x. row_values r = a\<lparr>ra_catch_up_amount_reporting_currency := x\<rparr>"
  using assms by (auto simp: insert_adjustment_def result_simps insert_financial_record_facts)

lemma insert_superseding_contract_cases:
  assumes "insert_superseding_contract sha dec_str tenant_id user_id correlation_id current price db = Inr (r, db')"
  shows "rv_contracts db' = rv_contracts db @ [r]" "rv_adjustments db' = rv_adjustments db"
    "rv_schedules db' = rv_schedules db"
    "env_now (rv_env db) < env_now (rv_env db')" "env_next_id (rv_env db) < env_next_id (rv_env db')"
    "row_id r = env_next_id (rv_env db)" "row_created_at r = env_now (rv_env db)" "row_tenant r = tenant_id"
    "rk_supersedes_id (row_values r) = Some (row_id current)"
  using assms by (auto simp: insert_superseding_contract_def Let_def result_simps insert_financial_record_facts)

text \<open>A state in which ids and clock run ahead of the rows.\<close>

definition fresh_ids :: "revenue_db \<Rightarrow> bool" where
  "fresh_ids db \<longleftrightarrow> (\<forall>r \<in> set (rv_adjustments db). row_id r < env_next_id (rv_env db) \<and> row_created_at r < env_now (rv_env db))
     \<and> (\<forall>r \<in> set (rv_contracts db). row_id r < env_next_id (rv_env db))"

text \<open>The price stays, or the contract row is replaced by one that supersedes it.\<close>

definition contract_chain :: "remeasure_args \<Rightarrow> remeasure_state \<Rightarrow> supersession_node list" where
  "contract_chain g s = (let c = row_values (ms_current_contract s) in
     load_contract_chain (rm_tenant_id g) (rk_contract_number c) (rk_source_contract_reference c) (ms_db s))"

lemma change_price_elim:
  assumes "change_price sha dec_str g m s = Inr s'"
  obtains (same) "s' = s"
    | (changed) price r db where
        "ensure_append_targets_terminal (contract_chain g s) (rm_tenant_id g) (Some (row_id (ms_current_contract s))) = Inr ()"
        "r \<in> set (rv_contracts (ms_db s)) \<and> db = ms_db s
          \<or> insert_superseding_contract sha dec_str (rm_tenant_id g) (rm_user_id g) (rm_correlation_id g)
             (ms_current_contract s) price (ms_db s) = Inr (r, db)"
        "rk_supersedes_id (row_values r) = Some (row_id (ms_current_contract s))"
        "s' = s\<lparr>ms_current_contract := r, ms_chain_nodes := contract_chain g s, ms_db := db\<rparr>"
proof (cases "mi_new_total_contract_value m")
  case None
  then show ?thesis using assms same by (simp add: change_price_def)
next
  case (Some v)
  then obtain price where q: "quantize_persisted_amount v = Inr price"
    using assms by (auto simp: change_price_def result_simps)
  show ?thesis
  proof (cases "price = rk_total_contract_value (row_values (ms_current_contract s))")
    case True
    then show ?thesis using assms same Some q by (simp add: change_price_def)
  next
    case False
    let ?old = "latest_by row_created_at (filter (\<lambda>r. row_tenant r = rm_tenant_id g
       \<and> rk_supersedes_id (row_values r) = Some (row_id (ms_current_contract s))
       \<and> rk_total_contract_value (row_values r) = price
       \<and> rk_correlation_id (row_values r) = rm_correlation_id g) (rv_contracts (ms_db s)))"
    from assms Some q False obtain r db where
      e: "ensure_append_targets_terminal (contract_chain g s) (rm_tenant_id g) (Some (row_id (ms_current_contract s))) = Inr ()"
      and n: "(case ?old of Some r \<Rightarrow> Inr (r, ms_db s)
           | None \<Rightarrow> insert_superseding_contract sha dec_str (rm_tenant_id g) (rm_user_id g) (rm_correlation_id g)
               (ms_current_contract s) price (ms_db s)) = Inr (r, db)"
      and s': "s' = s\<lparr>ms_current_contract := r, ms_chain_nodes := contract_chain g s, ms_db := db\<rparr>"
      by (simp add: change_price_def Let_def contract_chain_def result_simps) blast
    show ?thesis
    proof (cases ?old)
      case None
      then have i: "insert_superseding_contract sha dec_str (rm_tenant_id g) (rm_user_id g) (rm_correlation_id g)
             (ms_current_contract s) price (ms_db s) = Inr (r, db)" using n by simp
      show ?thesis by (rule changed [OF e disjI2 [OF i] insert_superseding_contract_cases(9) [OF i] s'])
    next
      case (Some x)
      then have "r = x" "db = ms_db s" using n by auto
      moreover have "x \<in> set (rv_contracts (ms_db s)) \<and> rk_supersedes_id (row_values x) = Some (row_id (ms_current_contract s))"
        using latest_by_Some(1) [OF Some] by simp
      ultimately show ?thesis by (intro changed [OF e _ _ s']) auto
    qed
  qed
qed

lemma change_price_cases:
  assumes "change_price sha dec_str g m s = Inr s'"
  shows "rv_adjustments (ms_db s') = rv_adjustments (ms_db s)" "rv_schedules (ms_db s') = rv_schedules (ms_db s)"
    "\<exists>new. rv_contracts (ms_db s') = rv_contracts (ms_db s) @ new"
    "env_now (rv_env (ms_db s)) \<le> env_now (rv_env (ms_db s'))"
    "ms_chain_adjustments s' = ms_chain_adjustments s" "ms_persisted s' = ms_persisted s"
    "ms_created s' = ms_created s" "ms_prior_token s' = ms_prior_token s"
    "fresh_ids (ms_db s) \<Longrightarrow> fresh_ids (ms_db s')"
proof -
  have *: "rv_adjustments (ms_db s') = rv_adjustments (ms_db s) \<and> rv_schedules (ms_db s') = rv_schedules (ms_db s)
    \<and> (\<exists>new. rv_contracts (ms_db s') = rv_contracts (ms_db s) @ new)
    \<and> env_now (rv_env (ms_db s)) \<le> env_now (rv_env (ms_db s'))
    \<and> ms_chain_adjustments s' = ms_chain_adjustments s \<and> ms_persisted s' = ms_persisted s
    \<and> ms_created s' = ms_created s \<and> ms_prior_token s' = ms_prior_token s
    \<and> (fresh_ids (ms_db s) \<longrightarrow> fresh_ids (ms_db s'))"
    using assms
  proof (cases rule: change_price_elim)
    case (changed price r db)
    from changed(2) show ?thesis
    proof
      assume "insert_superseding_contract sha dec_str (rm_tenant_id g) (rm_user_id g) (rm_correlation_id g)
           (ms_current_contract s) price (ms_db s) = Inr (r, db)"
      note c = insert_superseding_contract_cases [OF this]
      show ?thesis using c by (auto simp: changed(4) fresh_ids_def less_trans)
    qed (simp add: changed(4))
  qed (auto intro: exI [where x = "[]"])
  then show "rv_adjustments (ms_db s') = rv_adjustments (ms_db s)" "rv_schedules (ms_db s') = rv_schedules (ms_db s)"
    "\<exists>new. rv_contracts (ms_db s') = rv_contracts (ms_db s) @ new"
    "env_now (rv_env (ms_db s)) \<le> env_now (rv_env (ms_db s'))"
    "ms_chain_adjustments s' = ms_chain_adjustments s" "ms_persisted s' = ms_persisted s"
    "ms_created s' = ms_created s" "ms_prior_token s' = ms_prior_token s"
    "fresh_ids (ms_db s) \<Longrightarrow> fresh_ids (ms_db s')" by blast+
qed

lemma create_adjustment_elim:
  assumes "create_adjustment sha dec_str g cid root_token m key payload s = Inr s'"
  obtains s1 r db prior_token where "change_price sha dec_str g m s = Inr s1"
    and "prior_token = (if ms_prior_token s = root_token \<and> ms_chain_adjustments s \<noteq> []
            then ra_new_schedule_version_token (row_values (last (ms_chain_adjustments s))) else ms_prior_token s)"
    and "rv_adjustments db = rv_adjustments (ms_db s) @ [r]" "\<exists>new. rv_contracts db = rv_contracts (ms_db s) @ new"
    and "rv_schedules db = rv_schedules (ms_db s)" "fresh_ids (ms_db s) \<Longrightarrow> fresh_ids db"
    and "row_tenant r = rm_tenant_id g" "ra_run_id (row_values r) = rm_run_id g" "ra_contract_id (row_values r) = cid"
      "ra_effective_date (row_values r) = mi_effective_date m" "ra_adjustment_type (row_values r) = mi_adjustment_type m"
      "ra_idempotency_key (row_values r) = key" "ra_prior_schedule_version_token (row_values r) = prior_token"
      "ra_new_schedule_version_token (row_values r)
         = build_schedule_version_token sha cid payload (rm_reporting_currency g) (rm_rate_mode g) prior_token"
      "ra_supersedes_id (row_values r) = last_adjustment_id s"
    and "fresh_ids (ms_db s) \<Longrightarrow> (\<forall>x \<in> set (rv_contracts db) \<union> set (rv_contracts (ms_db s)). row_id x < row_id r)
         \<and> (\<forall>x \<in> set (rv_adjustments (ms_db s)). row_id x < row_id r \<and> row_created_at x < row_created_at r)"
    and "s' = s1\<lparr>ms_created := ms_created s + 1, ms_chain_adjustments := ms_chain_adjustments s @ [r],
             ms_chain_nodes := ms_chain_nodes s1 @ [adjustment_node r],
             ms_persisted := ms_persisted s @ [persisted_of_row cid r],
             ms_prior_token := ra_new_schedule_version_token (row_values r), ms_db := db\<rparr>"
proof -
  define prior where "prior = (if ms_prior_token s = root_token \<and> ms_chain_adjustments s \<noteq> []
            then ra_new_schedule_version_token (row_values (last (ms_chain_adjustments s))) else ms_prior_token s)"
  from assms obtain s1 catch_up r db prior_schedule ref where s1: "change_price sha dec_str g m s = Inr s1"
    and ins: "insert_adjustment sha (rm_tenant_id g) (rm_user_id g)
        (adjustment_values g cid m key prior (build_schedule_version_token sha cid payload (rm_reporting_currency g)
            (rm_rate_mode g) prior) (last_adjustment_id s) prior_schedule catch_up ref) (ms_db s1) = Inr (r, db)"
    and s': "s' = s1\<lparr>ms_created := ms_created s1 + 1, ms_chain_adjustments := ms_chain_adjustments s1 @ [r],
             ms_chain_nodes := ms_chain_nodes s1 @ [adjustment_node r],
             ms_persisted := ms_persisted s1 @ [persisted_of_row cid r],
             ms_prior_token := ra_new_schedule_version_token (row_values r), ms_db := db\<rparr>"
    by (simp add: create_adjustment_def Let_def result_simps flip: prior_def) blast
  note c = change_price_cases [OF s1] and i = insert_adjustment_cases [OF ins]
  from i(10) obtain x where v: "row_values r = (adjustment_values g cid m key prior
      (build_schedule_version_token sha cid payload (rm_reporting_currency g) (rm_rate_mode g) prior)
      (last_adjustment_id s) prior_schedule catch_up ref)\<lparr>ra_catch_up_amount_reporting_currency := x\<rparr>" ..
  have f: "fresh_ids db" if "fresh_ids (ms_db s)"
    using c(9) [OF that] i by (auto simp: fresh_ids_def less_trans)
  have g: "(\<forall>x \<in> set (rv_contracts db) \<union> set (rv_contracts (ms_db s)). row_id x < row_id r)
         \<and> (\<forall>x \<in> set (rv_adjustments (ms_db s)). row_id x < row_id r \<and> row_created_at x < row_created_at r)"
    if "fresh_ids (ms_db s)"
    using c(9) [OF that] c(1,3) i(2,7,8) by (auto simp: fresh_ids_def)
  show thesis
    by (rule that [OF s1 prior_def, where r = r and db = db])
      (use i c(1-3) f g in \<open>simp_all add: v adjustment_values_def s' c(5-8)\<close>)
qed

section \<open>A change of the price blocks every later modification\<close>

definition ids_ok :: "revenue_db \<Rightarrow> bool" where
  "ids_ok db \<longleftrightarrow> fresh_ids db \<and> distinct (map row_id (rv_contracts db))
     \<and> row_id ` set (rv_adjustments db) \<inter> row_id ` set (rv_contracts db) = {}"

lemma contract_chain_ids:
  assumes "distinct (map row_id (rv_contracts (ms_db s)))"
  shows "distinct (map sn_id (contract_chain g s))" and "sn_id ` set (contract_chain g s) \<subseteq> row_id ` set (rv_contracts (ms_db s))"
proof -
  have e: "map sn_id (contract_chain g s) = map row_id (sort_key (\<lambda>r. (row_created_at r, row_id r)) (filter (\<lambda>r.
      row_tenant r = rm_tenant_id g \<and> rk_contract_number (row_values r) = rk_contract_number (row_values (ms_current_contract s))
      \<and> rk_source_contract_reference (row_values r) = rk_source_contract_reference (row_values (ms_current_contract s)))
      (rv_contracts (ms_db s))))"
    by (simp add: contract_chain_def load_contract_chain_def Let_def contract_node_def o_def)
  show "distinct (map sn_id (contract_chain g s))"
    unfolding e using assms by (simp add: distinct_map_filter)
  show "sn_id ` set (contract_chain g s) \<subseteq> row_id ` set (rv_contracts (ms_db s))"
    using arg_cong [OF e, of set] by auto
qed

lemma ensure_append_root:
  assumes "ensure_append_targets_terminal nodes tenant_id (Some i) = Inr ()" and "distinct (map sn_id nodes)"
  shows "\<exists>n \<in> set nodes. sn_supersedes_id n = None"
proof -
  from assms(1) obtain ordered where v: "validate_linear_chain nodes tenant_id = Inr ordered"
    by (auto simp: ensure_append_targets_terminal_def resolve_terminal_node_def result_simps)
  have ne: "nodes \<noteq> []"
    using assms(1) by (auto simp: ensure_append_targets_terminal_def resolve_terminal_node_def validate_linear_chain_def
        raise_if_def)
  note f = validate_facts [OF v ne assms(2)]
  from f(3) obtain n where "n \<in> set ordered" "sn_supersedes_id n = None"
    by (metis (mono_tags) filter_False length_0_conv zero_neq_one)
  then show ?thesis using mset_eq_setD [OF f(1)] by auto
qed

lemma price_change_blocks:
  assumes ids: "ids_ok (ms_db s)" and sub: "set (ms_chain_adjustments s) \<subseteq> set (rv_adjustments (ms_db s))"
    and step: "apply_modification sha dec_str g cid root_token s m = Inr s'"
    and changed: "ms_current_contract s' \<noteq> ms_current_contract s"
  shows "\<exists>msg. apply_modification sha dec_str g cid root_token s' m' = Inl (chain_broken msg)"
proof -
  from step changed obtain key payload where
    "create_adjustment sha dec_str g cid root_token m key payload s = Inr s'"
    by (auto simp: apply_modification_def replay_adjustment_def result_simps split: option.splits)
  then show ?thesis
  proof (cases rule: create_adjustment_elim)
    case (1 s1 r db prior_token)
    from 1(1) show ?thesis
    proof (cases rule: change_price_elim)
      case same
      then show ?thesis using changed 1 by simp
    next
      case (changed price new db1)
      let ?nodes = "contract_chain g s"
      have d: "distinct (map row_id (rv_contracts (ms_db s)))" using ids by (simp add: ids_ok_def)
      note ci = contract_chain_ids [OF d, of g]
      obtain n where n: "n \<in> set ?nodes" "sn_supersedes_id n = None"
        using ensure_append_root [OF changed(1) ci(1)] by blast
      have low: "\<forall>x \<in> set (rv_contracts (ms_db s)). row_id x < row_id r" using 1(16) ids by (simp add: ids_ok_def)
      then have a: "sn_id (adjustment_node r) \<notin> sn_id ` set ?nodes" using ci(2) by (force simp: adjustment_node_def)
      have "p \<notin> sn_id ` set (?nodes @ [adjustment_node r])" if "last_adjustment_id s = Some p" for p
      proof -
        have "last (ms_chain_adjustments s) \<in> set (rv_adjustments (ms_db s))" "p = row_id (last (ms_chain_adjustments s))"
          using that sub by (auto simp: last_adjustment_id_def split: if_splits)
        then have "p \<notin> row_id ` set (rv_contracts (ms_db s))" "p < row_id r"
          using ids 1(16) by (auto simp: ids_ok_def)
        then show ?thesis using ci(2) by (auto simp: adjustment_node_def)
      qed
      then have "case sn_supersedes_id (adjustment_node r) of None \<Rightarrow> True
          | Some p \<Rightarrow> p \<notin> sn_id ` set (?nodes @ [adjustment_node r])"
        using 1(15) by (auto simp: adjustment_node_def split: option.splits)
      moreover have "adjustment_node r \<notin> set ?nodes" using a by blast
      ultimately obtain msg where
        "validate_linear_chain (?nodes @ [adjustment_node r]) (rm_tenant_id g) = Inl (chain_broken msg)"
        using broken_chain_rejected [OF n] by blast
      moreover have "ms_chain_nodes s' = ?nodes @ [adjustment_node r]" using 1(17) changed(4) by simp
      ultimately show ?thesis
        by (simp add: apply_modification_def ensure_append_targets_terminal_def resolve_terminal_node_def)
    qed
  qed
qed

end
