(* ===== verification/Revenue_Versions.thy ===== *)
theory Revenue_Versions
  imports Revenue_Remeasurement
begin

text \<open>
  What \<open>apply_contract_modifications\<close> leaves behind: the adjustments of a contract in a run
  form a version chain, in which each starts from the schedule version the one before it
  made, and applying the same request again finds that chain and writes nothing.
\<close>

section \<open>Version chains\<close>

text \<open>The row records the modification, on top of a version and a previous adjustment.\<close>

definition adjusts :: "sha \<Rightarrow> remeasure_args \<Rightarrow> uuid \<Rightarrow> string \<Rightarrow> uuid option \<Rightarrow> modification_input
    \<Rightarrow> revenue_adjustment row \<Rightarrow> bool" where
  "adjusts sha g cid prior prev m r \<longleftrightarrow>
     row_tenant r = rm_tenant_id g \<and> ra_run_id (row_values r) = rm_run_id g \<and> ra_contract_id (row_values r) = cid
     \<and> ra_effective_date (row_values r) = mi_effective_date m \<and> ra_adjustment_type (row_values r) = mi_adjustment_type m
     \<and> modification_idempotency_key sha cid m = Inr (ra_idempotency_key (row_values r))
     \<and> ra_prior_schedule_version_token (row_values r) = prior
     \<and> (\<exists>payload. normalized_modification_payload m = Inr payload
          \<and> ra_new_schedule_version_token (row_values r)
              = build_schedule_version_token sha cid payload (rm_reporting_currency g) (rm_rate_mode g) prior)
     \<and> ra_supersedes_id (row_values r) = prev"

fun version_chain :: "sha \<Rightarrow> remeasure_args \<Rightarrow> uuid \<Rightarrow> string \<Rightarrow> uuid option \<Rightarrow> modification_input list
    \<Rightarrow> revenue_adjustment row list \<Rightarrow> bool" where
  "version_chain sha g cid prior prev [] [] \<longleftrightarrow> True"
| "version_chain sha g cid prior prev (m # ms) (r # rs) \<longleftrightarrow> adjusts sha g cid prior prev m r
     \<and> version_chain sha g cid (ra_new_schedule_version_token (row_values r)) (Some (row_id r)) ms rs"
| "version_chain sha g cid prior prev _ _ \<longleftrightarrow> False"

definition version_after :: "string \<Rightarrow> revenue_adjustment row list \<Rightarrow> string" where
  "version_after root_token rs = (if rs = [] then root_token else ra_new_schedule_version_token (row_values (last rs)))"

definition last_id :: "uuid option \<Rightarrow> revenue_adjustment row list \<Rightarrow> uuid option" where
  "last_id prev rs = (if rs = [] then prev else Some (row_id (last rs)))"

lemma version_chain_snoc:
  "version_chain sha g cid prior prev ms rs \<Longrightarrow> adjusts sha g cid (version_after prior rs) (last_id prev rs) m r
     \<Longrightarrow> version_chain sha g cid prior prev (ms @ [m]) (rs @ [r])"
proof (induction sha g cid prior prev ms rs rule: version_chain.induct)
  case (2 sha g cid prior prev m ms r' rs)
  then show ?case by (cases rs) (auto simp: version_after_def last_id_def)
qed (auto simp: version_after_def last_id_def)

lemma version_chain_length: "version_chain sha g cid prior prev ms rs \<Longrightarrow> length rs = length ms"
  by (induction sha g cid prior prev ms rs rule: version_chain.induct) auto

lemma version_chain_keys:
  "version_chain sha g cid prior prev ms rs \<Longrightarrow>
     map (modification_idempotency_key sha cid) ms = map (\<lambda>r. Inr (ra_idempotency_key (row_values r))) rs"
  by (induction sha g cid prior prev ms rs rule: version_chain.induct) (auto simp: adjusts_def)

lemma version_chain_nth:
  "version_chain sha g cid prior prev ms rs \<Longrightarrow> i < length rs \<Longrightarrow>
     adjusts sha g cid (version_after prior (take i rs)) (last_id prev (take i rs)) (ms ! i) (rs ! i)"
proof (induction sha g cid prior prev ms rs arbitrary: i rule: version_chain.induct)
  case (2 sha g cid prior prev m ms r rs)
  show ?case
  proof (cases i)
    case 0
    then show ?thesis using 2 by (simp add: version_after_def last_id_def)
  next
    case (Suc j)
    then have "adjusts sha g cid (version_after (ra_new_schedule_version_token (row_values r)) (take j rs))
        (last_id (Some (row_id r)) (take j rs)) (ms ! j) (rs ! j)"
      using 2 by simp
    moreover have "version_after (ra_new_schedule_version_token (row_values r)) (take j rs) = version_after prior (take i (r # rs))"
      "last_id (Some (row_id r)) (take j rs) = last_id prev (take i (r # rs))"
      using Suc by (simp_all add: version_after_def last_id_def)
    ultimately show ?thesis using Suc by simp
  qed
qed auto

lemma version_chain_mine:
  "version_chain sha g cid prior prev ms rs \<Longrightarrow> r \<in> set rs \<Longrightarrow> \<exists>m \<in> set ms. \<exists>p q. adjusts sha g cid p q m r"
  by (induction sha g cid prior prev ms rs rule: version_chain.induct) auto

section \<open>Modifications of a fresh run\<close>

definition ascending :: "'v row list \<Rightarrow> bool" where
  "ascending rows \<longleftrightarrow> sorted_wrt (\<lambda>a b. row_created_at a < row_created_at b \<and> row_id a < row_id b) rows"

lemma ascending_snoc:
  "ascending rows \<Longrightarrow> \<forall>x \<in> set rows. row_id x < row_id r \<and> row_created_at x < row_created_at r \<Longrightarrow> ascending (rows @ [r])"
  by (auto simp: ascending_def sorted_wrt_append)

text \<open>The state of the loop after some modifications, started from the session \<open>db0\<close>.\<close>

definition progressed :: "sha \<Rightarrow> remeasure_args \<Rightarrow> uuid \<Rightarrow> string \<Rightarrow> nat \<Rightarrow> revenue_db \<Rightarrow> modification_input list
    \<Rightarrow> remeasure_state \<Rightarrow> bool" where
  "progressed sha g cid root_token n db0 ms s \<longleftrightarrow>
     version_chain sha g cid root_token None ms (ms_chain_adjustments s)
     \<and> adjustments_of (rm_tenant_id g) (rm_run_id g) cid (ms_db s) = ms_chain_adjustments s
     \<and> ms_prior_token s = version_after root_token (ms_chain_adjustments s)
     \<and> ms_persisted s = map (persisted_of_row cid) (ms_chain_adjustments s)
     \<and> ms_created s = n + length (ms_chain_adjustments s)
     \<and> fresh_ids (ms_db s) \<and> ascending (ms_chain_adjustments s)
     \<and> (\<forall>c. c \<noteq> cid \<longrightarrow> adjustments_of (rm_tenant_id g) (rm_run_id g) c (ms_db s)
          = adjustments_of (rm_tenant_id g) (rm_run_id g) c db0)
     \<and> (\<exists>new. rv_contracts (ms_db s) = rv_contracts db0 @ new) \<and> rv_schedules (ms_db s) = rv_schedules db0"

lemma find_adjustment_fresh:
  assumes "key \<notin> (\<lambda>r. ra_idempotency_key (row_values r)) ` set (adjustments_of tenant_id run_id cid db)"
  shows "find_adjustment tenant_id run_id cid m key db = Inr None"
proof -
  have "filter (\<lambda>r. ra_effective_date (row_values r) = mi_effective_date m
      \<and> ra_adjustment_type (row_values r) = mi_adjustment_type m
      \<and> ra_idempotency_key (row_values r) = key) (adjustments_of tenant_id run_id cid db) = []"
    using assms by (auto simp: filter_empty_conv)
  then show ?thesis by (simp add: find_adjustment_def one_or_none_def)
qed

lemma progress:
  assumes p: "progressed sha g cid root_token n db0 ms s"
    and step: "apply_modification sha dec_str g cid root_token s m = Inr s'"
    and new: "modification_idempotency_key sha cid m \<notin> modification_idempotency_key sha cid ` set ms"
  shows "progressed sha g cid root_token n db0 (ms @ [m]) s'"
proof -
  let ?rs = "ms_chain_adjustments s"
  have vc: "version_chain sha g cid root_token None ms ?rs" using p by (simp add: progressed_def)
  from step obtain key payload existing where k: "modification_idempotency_key sha cid m = Inr key"
    and payload: "normalized_modification_payload m = Inr payload"
    and find: "find_adjustment (rm_tenant_id g) (rm_run_id g) cid m key (ms_db s) = Inr existing"
    and rest: "(case existing of Some x \<Rightarrow> replay_adjustment sha g cid payload x s
        | None \<Rightarrow> create_adjustment sha dec_str g cid root_token m key payload s) = Inr s'"
    by (auto simp: apply_modification_def result_simps)
  have "Inr key \<notin> set (map (modification_idempotency_key sha cid) ms)" using new by (simp add: k)
  then have "key \<notin> (\<lambda>r. ra_idempotency_key (row_values r)) ` set ?rs"
    unfolding version_chain_keys [OF vc] by auto
  then have "existing = None"
    using find find_adjustment_fresh [of key "rm_tenant_id g" "rm_run_id g" cid "ms_db s" m] p
    by (simp add: progressed_def)
  then have "create_adjustment sha dec_str g cid root_token m key payload s = Inr s'" using rest by simp
  then show ?thesis
  proof (cases rule: create_adjustment_elim)
    case (1 s1 r db prior_token)
    have last: "last_adjustment_id s = last_id None ?rs" by (simp add: last_adjustment_id_def last_id_def)
    have prior: "prior_token = version_after root_token ?rs"
      using 1(2) p by (auto simp: progressed_def version_after_def)
    have a: "adjusts sha g cid (version_after root_token ?rs) (last_id None ?rs) m r"
      using 1 k payload last by (simp add: adjusts_def prior)
    have fresh: "fresh_ids (ms_db s)" using p by (simp add: progressed_def)
    have asc: "ascending (?rs @ [r])"
    proof (rule ascending_snoc)
      show "ascending ?rs" using p by (simp add: progressed_def)
      have "set (adjustments_of (rm_tenant_id g) (rm_run_id g) cid (ms_db s)) \<subseteq> set (rv_adjustments (ms_db s))"
        by (simp add: adjustments_of_def)
      then have "set ?rs \<subseteq> set (rv_adjustments (ms_db s))" using p by (simp add: progressed_def)
      then show "\<forall>x \<in> set ?rs. row_id x < row_id r \<and> row_created_at x < row_created_at r"
        using 1(16) [OF fresh] by blast
    qed
    from p obtain new where "rv_contracts (ms_db s) = rv_contracts db0 @ new" by (auto simp: progressed_def)
    then have contracts: "\<exists>new. rv_contracts db = rv_contracts db0 @ new"
      using 1(4) by auto
    have adj: "adjustments_of (rm_tenant_id g) (rm_run_id g) c db
        = adjustments_of (rm_tenant_id g) (rm_run_id g) c (ms_db s) @ (if c = cid then [r] else [])" for c
      using 1(3,7-9) by (simp add: adjustments_of_def)
    have mine: "adjustments_of (rm_tenant_id g) (rm_run_id g) cid db = ?rs @ [r]"
      and others: "\<forall>c. c \<noteq> cid \<longrightarrow> adjustments_of (rm_tenant_id g) (rm_run_id g) c db
          = adjustments_of (rm_tenant_id g) (rm_run_id g) c db0"
      using p by (simp_all add: adj progressed_def)
    show ?thesis
      unfolding progressed_def
      using version_chain_snoc [OF vc a] mine others contracts 1(5,6) fresh asc p
      by (simp add: 1(17) progressed_def version_after_def)
  qed
qed

lemma progress_all:
  assumes "foldE (apply_modification sha dec_str g cid root_token) s todo = Inr s'"
    and "progressed sha g cid root_token n db0 ms s" and "distinct (map (modification_idempotency_key sha cid) (ms @ todo))"
  shows "progressed sha g cid root_token n db0 (ms @ todo) s'"
  using assms
proof (induction todo arbitrary: s ms)
  case (Cons m todo)
  then obtain s1 where s1: "apply_modification sha dec_str g cid root_token s m = Inr s1"
    and rest: "foldE (apply_modification sha dec_str g cid root_token) s1 todo = Inr s'"
    by (auto simp: result_simps)
  have "progressed sha g cid root_token n db0 (ms @ [m]) s1"
    using Cons.prems(3) by (intro progress [OF Cons.prems(2) s1]) auto
  from Cons.IH [OF rest this] Cons.prems(3) show ?case by simp
qed simp

text \<open>What one contract of a fresh run leaves behind.\<close>

definition versioned :: "sha \<Rightarrow> remeasure_args \<Rightarrow> uuid \<Rightarrow> string \<Rightarrow> modification_input list \<Rightarrow> revenue_adjustment row list \<Rightarrow> bool" where
  "versioned sha g cid root_token ms rs \<longleftrightarrow> version_chain sha g cid root_token None ms rs \<and> ascending rs
     \<and> distinct (map (modification_idempotency_key sha cid) ms)"

lemma apply_contract_fresh:
  assumes ok: "apply_contract sha dec_str g roots (cs, n, by_contract, db) i = Inr (cs', n', by', db')"
    and cur: "cs (ci_contract_number i) = Some cur" and tok: "map_of roots (row_id cur) = Some root_token"
    and none: "adjustments_of (rm_tenant_id g) (rm_run_id g) (row_id cur) db = []" and fresh: "fresh_ids db"
    and ms: "sort_modifications (ci_modifications i) = Inr ms"
    and keys: "distinct (map (modification_idempotency_key sha (row_id cur)) ms)"
  obtains rs new_cur where "versioned sha g (row_id cur) root_token ms rs"
    and "adjustments_of (rm_tenant_id g) (rm_run_id g) (row_id cur) db' = rs"
    and "n' = n + length rs" and "by' = (if rs = [] then by_contract
        else AList.update (row_id cur) (map (persisted_of_row (row_id cur)) rs) by_contract)"
    and "fresh_ids db'" and "cs' = cs(ci_contract_number i \<mapsto> new_cur)"
    and "\<forall>c. c \<noteq> row_id cur \<longrightarrow> adjustments_of (rm_tenant_id g) (rm_run_id g) c db'
          = adjustments_of (rm_tenant_id g) (rm_run_id g) c db"
    and "\<exists>new. rv_contracts db' = rv_contracts db @ new" and "rv_schedules db' = rv_schedules db"
proof -
  let ?s0 = "\<lparr>ms_current_contract = cur, ms_prior_token = root_token, ms_chain_nodes = [],
      ms_chain_adjustments = [], ms_persisted = [], ms_created = n, ms_db = db\<rparr>"
  from ok obtain s where s: "foldE (apply_modification sha dec_str g (row_id cur) root_token) ?s0 ms = Inr s"
    and out: "cs' = cs(ci_contract_number i \<mapsto> ms_current_contract s)" "n' = ms_created s" "db' = ms_db s"
      "by' = (if ms_persisted s = [] then by_contract else AList.update (row_id cur) (ms_persisted s) by_contract)"
    by (auto simp: apply_contract_def cur tok none ms Let_def result_simps validate_linear_chain_def)
  have "progressed sha g (row_id cur) root_token n db [] ?s0"
    using none fresh by (simp add: progressed_def version_after_def ascending_def)
  from progress_all [OF s this] keys have p: "progressed sha g (row_id cur) root_token n db ms s" by simp
  show thesis
    by (rule that [of "ms_chain_adjustments s" "ms_current_contract s"])
      (use p out keys in \<open>simp_all add: progressed_def versioned_def\<close>)
qed

section \<open>Applying the same modifications again\<close>

lemma version_chain_linked:
  "version_chain sha g cid prior prev ms rs \<Longrightarrow> linked (map adjustment_node rs)
     \<and> (rs \<noteq> [] \<longrightarrow> sn_supersedes_id (adjustment_node (hd rs)) = prev)"
proof (induction sha g cid prior prev ms rs rule: version_chain.induct)
  case (2 sha g cid prior prev m ms r rs)
  then show ?case by (cases rs) (auto simp: adjusts_def adjustment_node_def)
qed auto

lemma ascending_distinct: "ascending rs \<Longrightarrow> distinct (map row_id rs)"
  by (induction rs) (auto simp: ascending_def)

lemma versioned_linear:
  assumes "versioned sha g cid root_token ms rs" and "rs \<noteq> []"
  shows "linear_chain (map adjustment_node rs)" and "\<forall>x \<in> set (map adjustment_node rs). sn_tenant_id x = rm_tenant_id g"
proof -
  have v: "version_chain sha g cid root_token None ms rs" using assms(1) by (simp add: versioned_def)
  have "sn_id \<circ> adjustment_node = row_id" by (simp add: fun_eq_iff adjustment_node_def)
  moreover have "distinct (map row_id rs)" using assms(1) by (simp add: versioned_def ascending_distinct)
  ultimately show "linear_chain (map adjustment_node rs)"
    using version_chain_linked [OF v] assms(2) by (simp add: linear_chain_def hd_map)
  show "\<forall>x \<in> set (map adjustment_node rs). sn_tenant_id x = rm_tenant_id g"
    using version_chain_mine [OF v] by (auto simp: adjustment_node_def adjusts_def)
qed

lemma versioned_guards:
  assumes "versioned sha g cid root_token ms rs"
  shows "\<exists>ordered. validate_linear_chain (map adjustment_node rs) (rm_tenant_id g) = Inr ordered"
    and "rs \<noteq> [] \<Longrightarrow> ensure_append_targets_terminal (map adjustment_node rs) (rm_tenant_id g) (Some (row_id (last rs))) = Inr ()"
proof -
  show "\<exists>ordered. validate_linear_chain (map adjustment_node rs) (rm_tenant_id g) = Inr ordered"
  proof (cases "rs = []")
    case False
    then show ?thesis using linear_chain_accepted [OF versioned_linear(1) [OF assms] refl versioned_linear(2) [OF assms]] by blast
  qed (simp add: validate_linear_chain_def)
  assume "rs \<noteq> []"
  from resolve_terminal_chain [OF versioned_linear(1) [OF assms this] refl versioned_linear(2) [OF assms this]] this
  show "ensure_append_targets_terminal (map adjustment_node rs) (rm_tenant_id g) (Some (row_id (last rs))) = Inr ()"
    by (simp add: ensure_append_targets_terminal_def last_map adjustment_node_def)
qed

lemma find_adjustment_again:
  assumes "adjustments_of tenant_id run_id cid db = rs" and "distinct (map (\<lambda>r. ra_idempotency_key (row_values r)) rs)"
    and "r \<in> set rs" and "ra_effective_date (row_values r) = mi_effective_date m"
    and "ra_adjustment_type (row_values r) = mi_adjustment_type m" and "ra_idempotency_key (row_values r) = key"
  shows "find_adjustment tenant_id run_id cid m key db = Inr (Some r)"
proof -
  let ?P = "\<lambda>r. ra_effective_date (row_values r) = mi_effective_date m
      \<and> ra_adjustment_type (row_values r) = mi_adjustment_type m \<and> ra_idempotency_key (row_values r) = key"
  have "?P x \<longleftrightarrow> x = r" if "x \<in> set rs" for x
    using assms(2-6) that by (auto simp: distinct_map dest: inj_onD)
  then have "filter ?P rs = filter (\<lambda>x. x = r) rs" by (rule filter_cong [OF refl])
  also have "\<dots> = [r]"
    using assms(2,3) by (induction rs) (auto simp: filter_empty_conv)
  finally show ?thesis by (simp add: find_adjustment_def one_or_none_def assms(1))
qed

lemma replay_all:
  assumes all: "versioned sha g cid root_token all_ms rs" and sub: "set suffix \<subseteq> set rs"
    and vc: "version_chain sha g cid p q todo suffix"
    and s: "ms_chain_nodes s = map adjustment_node rs" "ms_chain_adjustments s = rs"
      "adjustments_of (rm_tenant_id g) (rm_run_id g) cid (ms_db s) = rs"
  shows "foldE (apply_modification sha dec_str g cid root_token) s todo = Inr (s
    \<lparr>ms_persisted := ms_persisted s @ map (persisted_of_row cid) suffix,
     ms_prior_token := version_after (ms_prior_token s) suffix\<rparr>)"
  using vc sub s
proof (induction todo arbitrary: suffix p q s)
  case Nil
  then have "suffix = []" using version_chain_length [OF Nil.prems(1)] by simp
  then show ?case by (simp add: version_after_def)
next
  case (Cons m todo)
  then obtain r rest where suffix: "suffix = r # rest" using version_chain_length [OF Cons.prems(1)] by (cases suffix) auto
  have a: "adjusts sha g cid p q m r"
    and rest: "version_chain sha g cid (ra_new_schedule_version_token (row_values r)) (Some (row_id r)) todo rest"
    using Cons.prems(1) by (simp_all add: suffix)
  have r: "r \<in> set rs" using Cons.prems(2) by (simp add: suffix)
  have "version_chain sha g cid root_token None all_ms rs" and "distinct (map (modification_idempotency_key sha cid) all_ms)"
    using all by (simp_all add: versioned_def)
  then have "distinct (map (\<lambda>r. Inr (ra_idempotency_key (row_values r)) :: string result) rs)"
    using version_chain_keys by metis
  then have keys: "distinct (map (\<lambda>r. ra_idempotency_key (row_values r)) rs)" by (auto simp: distinct_map inj_on_def)
  have find: "find_adjustment (rm_tenant_id g) (rm_run_id g) cid m (ra_idempotency_key (row_values r)) (ms_db s) = Inr (Some r)"
    using a by (intro find_adjustment_again [OF Cons.prems(5) keys r]) (auto simp: adjusts_def)
  have "rs \<noteq> []" using r by auto
  then have guard: "ensure_append_targets_terminal (ms_chain_nodes s) (rm_tenant_id g) (last_adjustment_id s) = Inr ()"
    using versioned_guards(2) [OF all] Cons.prems(3,4) by (simp add: last_adjustment_id_def)
  let ?s1 = "s\<lparr>ms_persisted := ms_persisted s @ [persisted_of_row cid r],
               ms_prior_token := ra_new_schedule_version_token (row_values r)\<rparr>"
  have "apply_modification sha dec_str g cid root_token s m = Inr ?s1"
    using a find guard by (auto simp: apply_modification_def replay_adjustment_def adjusts_def)
  moreover have "foldE (apply_modification sha dec_str g cid root_token) ?s1 todo
    = Inr (?s1\<lparr>ms_persisted := ms_persisted ?s1 @ map (persisted_of_row cid) rest,
               ms_prior_token := version_after (ms_prior_token ?s1) rest\<rparr>)"
    using Cons.prems(2-5) by (intro Cons.IH [OF rest]) (auto simp: suffix)
  ultimately show ?case by (simp add: suffix version_after_def)
qed

lemma apply_contract_again:
  assumes cur: "cs (ci_contract_number i) = Some cur" and tok: "map_of roots (row_id cur) = Some root_token"
    and ms: "sort_modifications (ci_modifications i) = Inr ms" and v: "versioned sha g (row_id cur) root_token ms rs"
    and adj: "adjustments_of (rm_tenant_id g) (rm_run_id g) (row_id cur) db = rs"
  shows "apply_contract sha dec_str g roots (cs, n, by_contract, db) i = Inr (cs(ci_contract_number i \<mapsto> cur), n,
    (if rs = [] then by_contract else AList.update (row_id cur) (map (persisted_of_row (row_id cur)) rs) by_contract), db)"
proof -
  have "sorted (map (\<lambda>r. (row_created_at r, row_id r)) rs)"
    unfolding sorted_map
  proof (rule sorted_wrt_mono_rel)
    show "sorted_wrt (\<lambda>a b. row_created_at a < row_created_at b \<and> row_id a < row_id b) rs"
      using v by (simp add: versioned_def ascending_def)
  qed simp
  then have sort: "sort_key (\<lambda>r. (row_created_at r, row_id r)) rs = rs" by (rule sort_key_id_if_sorted)
  obtain ordered where ordered: "validate_linear_chain (map adjustment_node rs) (rm_tenant_id g) = Inr ordered"
    using versioned_guards(1) [OF v] ..
  have "version_chain sha g (row_id cur) root_token None ms rs" using v by (simp add: versioned_def)
  note replay = replay_all [OF v subset_refl this]
  show ?thesis
    by (simp add: apply_contract_def cur tok adj sort ordered ms Let_def replay)
qed

section \<open>All contracts of a request\<close>

lemma sort_modifications_facts:
  assumes "sort_modifications xs = Inr ms"
  shows "mset ms = mset xs" and "sorted (map mi_effective_date ms)"
proof -
  from assms obtain texts where t: "mapE (\<lambda>m. decimal_text (mi_new_total_contract_value m)) xs = Inr texts"
    and ms: "ms = map snd (sort_key (\<lambda>(total_text, item).
            (mi_effective_date item, mi_adjustment_type item, mi_adjustment_reason item, total_text, mi_requires_catch_up item))
            (zip texts xs))"
    by (auto simp: sort_modifications_def result_simps)
  have "length texts = length xs" by (rule mapE_length [OF t])
  then have "mset (map snd (zip texts xs)) = mset xs" by simp
  then show "mset ms = mset xs" by (simp only: ms mset_map mset_sort)
  let ?k = "\<lambda>(total_text, item).
      (mi_effective_date item, mi_adjustment_type item, mi_adjustment_reason item, total_text, mi_requires_catch_up item)"
  have "sorted_wrt (\<lambda>x y. ?k x \<le> ?k y) (sort_key ?k (zip texts xs))"
    using sorted_sort_key [of ?k "zip texts xs"] unfolding sorted_map .
  then have "sorted_wrt (\<lambda>x y. mi_effective_date (snd x) \<le> mi_effective_date (snd y)) (sort_key ?k (zip texts xs))"
  proof (rule sorted_wrt_mono_rel [rotated])
    fix x y assume "?k x \<le> ?k y"
    then show "mi_effective_date (snd x) \<le> mi_effective_date (snd y)" by (cases x; cases y) (auto simp: less_eq_prod_def)
  qed
  then show "sorted (map mi_effective_date ms)" unfolding ms sorted_map sorted_wrt_map .
qed

definition current_of :: "(string \<Rightarrow> revenue_contract row option) \<Rightarrow> contract_input \<Rightarrow> revenue_contract row" where
  "current_of cs i = the (cs (ci_contract_number i))"

text \<open>The outcome for one contract: its chain of adjustments and what is reported of it.\<close>

definition reported :: "sha \<Rightarrow> remeasure_args \<Rightarrow> (uuid \<times> string) list \<Rightarrow> revenue_contract row \<Rightarrow> contract_input
    \<Rightarrow> (uuid \<times> persisted_adjustment list) list \<Rightarrow> revenue_db \<Rightarrow> bool" where
  "reported sha g roots cur i by_contract db \<longleftrightarrow> (\<exists>root_token ms rs. map_of roots (row_id cur) = Some root_token
     \<and> sort_modifications (ci_modifications i) = Inr ms \<and> versioned sha g (row_id cur) root_token ms rs
     \<and> adjustments_of (rm_tenant_id g) (rm_run_id g) (row_id cur) db = rs
     \<and> (rs \<noteq> [] \<longrightarrow> map_of by_contract (row_id cur) = Some (map (persisted_of_row (row_id cur)) rs)))"

definition report_contract :: "remeasure_args \<Rightarrow> (string \<Rightarrow> revenue_contract row option) \<Rightarrow> revenue_db
    \<Rightarrow> (uuid \<times> persisted_adjustment list) list \<Rightarrow> contract_input \<Rightarrow> (uuid \<times> persisted_adjustment list) list" where
  "report_contract g cs db by_contract i =
     (let cid = row_id (current_of cs i); rs = adjustments_of (rm_tenant_id g) (rm_run_id g) cid db in
      if rs = [] then by_contract else AList.update cid (map (persisted_of_row cid) rs) by_contract)"

lemma apply_contract_inputs:
  assumes "apply_contract sha dec_str g roots (cs, n, by_contract, db) i = Inr out"
  obtains cur root_token ms where "cs (ci_contract_number i) = Some cur" and "map_of roots (row_id cur) = Some root_token"
    and "sort_modifications (ci_modifications i) = Inr ms"
  using assms by (auto simp: apply_contract_def Let_def result_simps split: option.splits)

lemma distinct_keys_sorted:
  assumes "sort_modifications xs = Inr ms" and "distinct (map f xs)"
  shows "distinct (map f ms)"
  using assms(2) distinct_map_mset [OF sort_modifications_facts(1) [OF assms(1)], of f] by simp

lemma apply_contracts_fresh:
  assumes "foldE (apply_contract sha dec_str g roots) (cs, n, by_contract, db) inputs = Inr (cs', n', by', db')"
    and "fresh_ids db" and "distinct (map ci_contract_number inputs)"
    and "\<forall>i \<in> set inputs. \<forall>cur. cs (ci_contract_number i) = Some cur \<longrightarrow>
      adjustments_of (rm_tenant_id g) (rm_run_id g) (row_id cur) db = []
      \<and> distinct (map (modification_idempotency_key sha (row_id cur)) (ci_modifications i))"
    and "\<forall>i \<in> set inputs. \<forall>j \<in> set inputs. ci_contract_number i \<noteq> ci_contract_number j \<longrightarrow>
      (\<forall>a b. cs (ci_contract_number i) = Some a \<longrightarrow> cs (ci_contract_number j) = Some b \<longrightarrow> row_id a \<noteq> row_id b)"
  shows "\<forall>i \<in> set inputs. cs (ci_contract_number i) = Some (current_of cs i) \<and> reported sha g roots (current_of cs i) i by' db'"
    and "\<forall>c. c \<notin> (\<lambda>i. row_id (current_of cs i)) ` set inputs \<longrightarrow> map_of by' c = map_of by_contract c
      \<and> adjustments_of (rm_tenant_id g) (rm_run_id g) c db' = adjustments_of (rm_tenant_id g) (rm_run_id g) c db"
    and "\<exists>new. rv_contracts db' = rv_contracts db @ new" and "fresh_ids db'" and "rv_schedules db' = rv_schedules db"
    and "by' = foldl (report_contract g cs db') by_contract inputs"
proof -
  have "(\<forall>i \<in> set inputs. cs (ci_contract_number i) = Some (current_of cs i) \<and> reported sha g roots (current_of cs i) i by' db')
    \<and> (\<forall>c. c \<notin> (\<lambda>i. row_id (current_of cs i)) ` set inputs \<longrightarrow> map_of by' c = map_of by_contract c
        \<and> adjustments_of (rm_tenant_id g) (rm_run_id g) c db' = adjustments_of (rm_tenant_id g) (rm_run_id g) c db)
    \<and> (\<exists>new. rv_contracts db' = rv_contracts db @ new) \<and> fresh_ids db' \<and> rv_schedules db' = rv_schedules db
    \<and> by' = foldl (report_contract g cs db') by_contract inputs"
    using assms
  proof (induction inputs arbitrary: cs n by_contract db)
    case (Cons i inputs)
    obtain out where one: "apply_contract sha dec_str g roots (cs, n, by_contract, db) i = Inr out"
      and rest: "foldE (apply_contract sha dec_str g roots) out inputs = Inr (cs', n', by', db')"
      using Cons.prems(1) by (auto simp: result_simps)
    obtain cs1 n1 by1 db1 where out: "out = (cs1, n1, by1, db1)" by (cases out) auto
    from one obtain cur root_token ms where cur: "cs (ci_contract_number i) = Some cur"
      and tok: "map_of roots (row_id cur) = Some root_token" and ms: "sort_modifications (ci_modifications i) = Inr ms"
      by (rule apply_contract_inputs)
    have none: "adjustments_of (rm_tenant_id g) (rm_run_id g) (row_id cur) db = []"
      and keys: "distinct (map (modification_idempotency_key sha (row_id cur)) ms)"
      using Cons.prems(4) cur distinct_keys_sorted [OF ms] by auto
    obtain rs new_cur where v: "versioned sha g (row_id cur) root_token ms rs"
      and adj: "adjustments_of (rm_tenant_id g) (rm_run_id g) (row_id cur) db1 = rs"
      and by1: "by1 = (if rs = [] then by_contract
        else AList.update (row_id cur) (map (persisted_of_row (row_id cur)) rs) by_contract)"
      and fresh: "fresh_ids db1" and cs1: "cs1 = cs(ci_contract_number i \<mapsto> new_cur)"
      and others: "\<forall>c. c \<noteq> row_id cur \<longrightarrow> adjustments_of (rm_tenant_id g) (rm_run_id g) c db1
          = adjustments_of (rm_tenant_id g) (rm_run_id g) c db"
      and grows: "\<exists>new. rv_contracts db1 = rv_contracts db @ new" and sch: "rv_schedules db1 = rv_schedules db"
      by (rule apply_contract_fresh [OF one [unfolded out] cur tok none Cons.prems(2) ms keys])
    have cur_i: "current_of cs i = cur" by (simp add: current_of_def cur)
    have same: "cs1 (ci_contract_number j) = cs (ci_contract_number j)" if "j \<in> set inputs" for j
      using that Cons.prems(3) by (auto simp: cs1 image_iff)
    then have cur_same: "current_of cs1 j = current_of cs j" if "j \<in> set inputs" for j
      using that by (simp add: current_of_def)
    have differ: "row_id c \<noteq> row_id cur" if "j \<in> set inputs" "cs (ci_contract_number j) = Some c" for j c
    proof -
      have "ci_contract_number i \<noteq> ci_contract_number j" using that(1) Cons.prems(3) by (auto simp: image_iff)
      then show ?thesis using Cons.prems(5) that cur by fastforce
    qed
    have later: "\<forall>j \<in> set inputs. \<forall>cur. cs1 (ci_contract_number j) = Some cur \<longrightarrow>
      adjustments_of (rm_tenant_id g) (rm_run_id g) (row_id cur) db1 = []
      \<and> distinct (map (modification_idempotency_key sha (row_id cur)) (ci_modifications j))"
    proof (intro ballI allI impI)
      fix j c assume j: "j \<in> set inputs" and c: "cs1 (ci_contract_number j) = Some c"
      then have "row_id c \<noteq> row_id cur" using differ [OF j] same [OF j] by simp
      then show "adjustments_of (rm_tenant_id g) (rm_run_id g) (row_id c) db1 = []
          \<and> distinct (map (modification_idempotency_key sha (row_id c)) (ci_modifications j))"
        using others Cons.prems(4) j c same [OF j] by simp
    qed
    have ih: "(\<forall>i \<in> set inputs. cs1 (ci_contract_number i) = Some (current_of cs1 i) \<and> reported sha g roots (current_of cs1 i) i by' db')
      \<and> (\<forall>c. c \<notin> (\<lambda>i. row_id (current_of cs1 i)) ` set inputs \<longrightarrow> map_of by' c = map_of by1 c
          \<and> adjustments_of (rm_tenant_id g) (rm_run_id g) c db' = adjustments_of (rm_tenant_id g) (rm_run_id g) c db1)
      \<and> (\<exists>new. rv_contracts db' = rv_contracts db1 @ new) \<and> fresh_ids db' \<and> rv_schedules db' = rv_schedules db1
      \<and> by' = foldl (report_contract g cs1 db') by1 inputs"
      using Cons.prems(3,5) later same by (intro Cons.IH [OF rest [unfolded out] fresh]) simp_all
    from ih have ih_c: "\<forall>c. c \<notin> (\<lambda>i. row_id (current_of cs1 i)) ` set inputs \<longrightarrow> map_of by' c = map_of by1 c
          \<and> adjustments_of (rm_tenant_id g) (rm_run_id g) c db' = adjustments_of (rm_tenant_id g) (rm_run_id g) c db1"
      and ih_i: "\<forall>i \<in> set inputs. cs1 (ci_contract_number i) = Some (current_of cs1 i)
          \<and> reported sha g roots (current_of cs1 i) i by' db'"
      and ih_f: "by' = foldl (report_contract g cs1 db') by1 inputs"
      by blast+
    have apart: "row_id cur \<notin> (\<lambda>i. row_id (current_of cs1 i)) ` set inputs"
      using ih_i differ same by fastforce
    have mine: "map_of by' (row_id cur) = map_of by1 (row_id cur)
        \<and> adjustments_of (rm_tenant_id g) (rm_run_id g) (row_id cur) db' = rs"
      using ih_c apart adj by simp
    have "reported sha g roots cur i by' db'"
      unfolding reported_def using tok ms v mine by (simp add: by1 update_conv')
    moreover have "\<forall>j \<in> set inputs. cs (ci_contract_number j) = Some (current_of cs j)
        \<and> reported sha g roots (current_of cs j) j by' db'"
      using ih_i same cur_same by simp
    moreover have "\<forall>c. c \<notin> (\<lambda>i. row_id (current_of cs i)) ` set (i # inputs) \<longrightarrow> map_of by' c = map_of by_contract c
        \<and> adjustments_of (rm_tenant_id g) (rm_run_id g) c db' = adjustments_of (rm_tenant_id g) (rm_run_id g) c db"
    proof (intro allI impI)
      fix c assume "c \<notin> (\<lambda>i. row_id (current_of cs i)) ` set (i # inputs)"
      then have c: "c \<noteq> row_id cur" "c \<notin> (\<lambda>i. row_id (current_of cs1 i)) ` set inputs"
        using cur_same by (auto simp: cur_i)
      then show "map_of by' c = map_of by_contract c
          \<and> adjustments_of (rm_tenant_id g) (rm_run_id g) c db' = adjustments_of (rm_tenant_id g) (rm_run_id g) c db"
        using ih_c others by (simp add: by1 update_conv')
    qed
    moreover have "by' = foldl (report_contract g cs db') by_contract (i # inputs)"
    proof -
      have "report_contract g cs db' by_contract i = by1" using mine by (simp add: report_contract_def cur_i by1 Let_def)
      moreover have "foldl (report_contract g cs1 db') by1 inputs = foldl (report_contract g cs db') by1 inputs"
        by (rule foldl_cong) (simp_all add: report_contract_def cur_same)
      ultimately show ?thesis using ih_f by simp
    qed
    ultimately show ?case using ih grows sch cur by (auto simp: cur_i)
  qed simp
  then show "\<forall>i \<in> set inputs. cs (ci_contract_number i) = Some (current_of cs i) \<and> reported sha g roots (current_of cs i) i by' db'"
    and "\<forall>c. c \<notin> (\<lambda>i. row_id (current_of cs i)) ` set inputs \<longrightarrow> map_of by' c = map_of by_contract c
      \<and> adjustments_of (rm_tenant_id g) (rm_run_id g) c db' = adjustments_of (rm_tenant_id g) (rm_run_id g) c db"
    and "\<exists>new. rv_contracts db' = rv_contracts db @ new" and "fresh_ids db'" and "rv_schedules db' = rv_schedules db"
    and "by' = foldl (report_contract g cs db') by_contract inputs"
    by blast+
qed

lemma apply_contracts_again:
  assumes "\<forall>i \<in> set inputs. cs (ci_contract_number i) = Some (current_of cs i)
      \<and> (\<exists>by'. reported sha g roots (current_of cs i) i by' db)"
  shows "foldE (apply_contract sha dec_str g roots) (cs, n, by_contract, db) inputs
    = Inr (cs, n, foldl (report_contract g cs db) by_contract inputs, db)"
  using assms
proof (induction inputs arbitrary: by_contract)
  case (Cons i inputs)
  let ?cur = "current_of cs i"
  from Cons.prems obtain root_token ms rs where cur: "cs (ci_contract_number i) = Some ?cur"
    and r: "map_of roots (row_id ?cur) = Some root_token" "sort_modifications (ci_modifications i) = Inr ms"
      "versioned sha g (row_id ?cur) root_token ms rs"
      "adjustments_of (rm_tenant_id g) (rm_run_id g) (row_id ?cur) db = rs"
    by (auto simp: reported_def)
  have "cs(ci_contract_number i \<mapsto> ?cur) = cs" using cur by (simp add: fun_upd_idem)
  then have "apply_contract sha dec_str g roots (cs, n, by_contract, db) i = Inr (cs, n, report_contract g cs db by_contract i, db)"
    using r(4) apply_contract_again [where cs = cs and i = i and cur = ?cur, OF cur r(1-4)]
    by (simp add: report_contract_def Let_def)
  then show ?case using Cons by simp
qed simp

section \<open>The handler\<close>

lemma load_contract_state_rows:
  assumes "load_contract_state tenant_id db registered = Inr cs" and "cs number = Some cur"
  shows "\<exists>c \<in> set registered. rc_contract_number c = number \<and> row_id cur = rc_contract_id c"
proof -
  let ?P = "\<lambda>cs :: string \<Rightarrow> revenue_contract row option. \<forall>number cur. cs number = Some cur \<longrightarrow>
      (\<exists>c \<in> set registered. rc_contract_number c = number \<and> row_id cur = rc_contract_id c)"
  have "?P cs"
  proof (rule foldE_invariant [OF assms(1) [unfolded load_contract_state_def]])
    fix s x s' assume "x \<in> set registered" and "?P s"
      and "(case find (\<lambda>r. row_tenant r = tenant_id \<and> row_id r = rc_contract_id x) (rv_contracts db) of
         None \<Rightarrow> Inl NoResultFound | Some model \<Rightarrow> Inr (s(rc_contract_number x \<mapsto> model))) = Inr s'"
    then show "?P s'" by (auto split: option.splits if_splits dest!: find_Some_in)
  qed simp
  then show ?thesis using assms(2) by blast
qed

lemma find_append: "find P (xs @ ys) = (case find P xs of None \<Rightarrow> find P ys | Some x \<Rightarrow> Some x)"
  by (induction xs) auto

lemma load_contract_state_append:
  assumes "load_contract_state tenant_id db registered = Inr cs" and "rv_contracts db' = rv_contracts db @ new"
  shows "load_contract_state tenant_id db' registered = Inr cs"
proof -
  have "foldE (\<lambda>cs c. case find (\<lambda>r. row_tenant r = tenant_id \<and> row_id r = rc_contract_id c) (rv_contracts db) of
         None \<Rightarrow> Inl NoResultFound | Some model \<Rightarrow> Inr (cs(rc_contract_number c \<mapsto> model))) acc rcs = Inr cs
    \<Longrightarrow> foldE (\<lambda>cs c. case find (\<lambda>r. row_tenant r = tenant_id \<and> row_id r = rc_contract_id c) (rv_contracts db') of
         None \<Rightarrow> Inl NoResultFound | Some model \<Rightarrow> Inr (cs(rc_contract_number c \<mapsto> model))) acc rcs = Inr cs" for acc rcs
    by (induction rcs arbitrary: acc) (auto simp: result_simps assms(2) find_append split: option.splits)
  then show ?thesis using assms(1) unfolding load_contract_state_def by blast
qed

text \<open>The situation of the engine activity: a run without adjustments, contracts as they were
  registered, no modification twice in one contract.\<close>

definition fresh_run :: "sha \<Rightarrow> remeasure_args \<Rightarrow> contract_input list \<Rightarrow> registered_contract list \<Rightarrow> revenue_db \<Rightarrow> bool" where
  "fresh_run sha g contracts registered db \<longleftrightarrow> fresh_ids db
     \<and> (\<forall>r \<in> set (rv_adjustments db). ra_run_id (row_values r) \<noteq> rm_run_id g)
     \<and> distinct (map ci_contract_number contracts) \<and> distinct (map rc_contract_id registered)
     \<and> (\<forall>i \<in> set contracts. \<forall>c \<in> set registered.
          distinct (map (modification_idempotency_key sha (rc_contract_id c)) (ci_modifications i)))"

lemma apply_modifications_outcome:
  assumes ok: "apply_contract_modifications sha dec_str g contracts registered roots db = Inr (res, db')"
    and fresh: "fresh_run sha g contracts registered db"
  obtains cs where "load_contract_state (rm_tenant_id g) db registered = Inr cs"
    and "\<forall>i \<in> set contracts. cs (ci_contract_number i) = Some (current_of cs i)
      \<and> reported sha g roots (current_of cs i) i (rr_adjustments_by_contract res) db'"
    and "rr_adjustments_by_contract res = foldl (report_contract g cs db') [] (sort_key ci_contract_number contracts)"
    and "\<exists>new. rv_contracts db' = rv_contracts db @ new" and "rv_schedules db' = rv_schedules db"
proof -
  let ?inputs = "sort_key ci_contract_number contracts"
  from ok obtain cs cs' n' by' where load: "load_contract_state (rm_tenant_id g) db registered = Inr cs"
    and fold: "foldE (apply_contract sha dec_str g roots) (cs, 0, [], db) ?inputs = Inr (cs', n', by', db')"
    and res: "rr_adjustments_by_contract res = by'"
    by (auto simp: apply_contract_modifications_def result_simps)
  have rows: "\<exists>c \<in> set registered. rc_contract_number c = ci_contract_number i \<and> row_id cur = rc_contract_id c"
    if "cs (ci_contract_number i) = Some cur" for i cur
    using that by (rule load_contract_state_rows [OF load])
  have none: "adjustments_of (rm_tenant_id g) (rm_run_id g) c db = []" for c
    using fresh by (auto simp: fresh_run_def adjustments_of_def filter_empty_conv)
  have pre: "\<forall>i \<in> set ?inputs. \<forall>cur. cs (ci_contract_number i) = Some cur \<longrightarrow>
      adjustments_of (rm_tenant_id g) (rm_run_id g) (row_id cur) db = []
      \<and> distinct (map (modification_idempotency_key sha (row_id cur)) (ci_modifications i))"
  proof (intro ballI allI impI)
    fix i cur assume i: "i \<in> set ?inputs" and "cs (ci_contract_number i) = Some cur"
    from rows [OF this(2)] obtain c where "c \<in> set registered" "row_id cur = rc_contract_id c" by blast
    then show "adjustments_of (rm_tenant_id g) (rm_run_id g) (row_id cur) db = []
      \<and> distinct (map (modification_idempotency_key sha (row_id cur)) (ci_modifications i))"
      using i fresh none by (simp add: fresh_run_def)
  qed
  have differ: "\<forall>i \<in> set ?inputs. \<forall>j \<in> set ?inputs. ci_contract_number i \<noteq> ci_contract_number j \<longrightarrow>
      (\<forall>a b. cs (ci_contract_number i) = Some a \<longrightarrow> cs (ci_contract_number j) = Some b \<longrightarrow> row_id a \<noteq> row_id b)"
  proof (intro ballI impI allI notI)
    fix i j a b assume n: "ci_contract_number i \<noteq> ci_contract_number j" and ids: "row_id a = row_id b"
      and "cs (ci_contract_number i) = Some a" "cs (ci_contract_number j) = Some b"
    from rows [OF this(3)] rows [OF this(4)] obtain c d where "c \<in> set registered" "d \<in> set registered"
      "rc_contract_number c = ci_contract_number i" "rc_contract_number d = ci_contract_number j"
      "rc_contract_id c = rc_contract_id d" using ids by auto
    moreover have "inj_on rc_contract_id (set registered)" using fresh by (simp add: fresh_run_def distinct_map)
    ultimately show False using n by (metis inj_onD)
  qed
  have "fresh_ids db" and "distinct (map ci_contract_number ?inputs)" using fresh by (simp_all add: fresh_run_def)
  note f = apply_contracts_fresh [OF fold this pre differ]
  show thesis by (rule that [OF load]) (use f(1,3,5,6) res in simp_all)
qed

lemma report_contract_entries:
  "(cid, ps) \<in> set (foldl (report_contract g cs db) by_contract inputs) \<Longrightarrow> (cid, ps) \<in> set by_contract
     \<or> (\<exists>i \<in> set inputs. cid = row_id (current_of cs i)
          \<and> adjustments_of (rm_tenant_id g) (rm_run_id g) cid db \<noteq> []
          \<and> ps = map (persisted_of_row cid) (adjustments_of (rm_tenant_id g) (rm_run_id g) cid db))"
proof (induction inputs arbitrary: by_contract)
  case (Cons i inputs)
  have update: "(c, p) \<in> set (AList.update k v al) \<Longrightarrow> (c, p) = (k, v) \<or> (c, p) \<in> set al"
    for c k :: uuid and p v :: "persisted_adjustment list" and al
    by (induction al) (auto split: if_splits)
  from Cons.prems have "(cid, ps) \<in> set (foldl (report_contract g cs db) (report_contract g cs db by_contract i) inputs)" by simp
  from Cons.IH [OF this] show ?case
    by (auto simp: report_contract_def Let_def split: if_splits dest: update)
qed simp

definition token_chain :: "string \<Rightarrow> persisted_adjustment list \<Rightarrow> bool" where
  "token_chain root_token ps \<longleftrightarrow> ps \<noteq> [] \<and> pa_prior_schedule_version_token (hd ps) = root_token
     \<and> (\<forall>k. Suc k < length ps \<longrightarrow> pa_prior_schedule_version_token (ps ! Suc k) = pa_new_schedule_version_token (ps ! k))
     \<and> sorted (map pa_effective_date ps)"

lemma versioned_tokens:
  assumes "versioned sha g cid root_token ms rs" and "rs \<noteq> []" and "sorted (map mi_effective_date ms)"
  shows "token_chain root_token (map (persisted_of_row cid) rs)"
proof -
  have v: "version_chain sha g cid root_token None ms rs" using assms(1) by (simp add: versioned_def)
  note nth = version_chain_nth [OF v, unfolded adjusts_def]
  have "pa_prior_schedule_version_token (hd (map (persisted_of_row cid) rs)) = root_token"
    using nth [of 0] assms(2) by (simp add: hd_conv_nth persisted_of_row_def version_after_def)
  moreover have "pa_prior_schedule_version_token (map (persisted_of_row cid) rs ! Suc k)
      = pa_new_schedule_version_token (map (persisted_of_row cid) rs ! k)" if "Suc k < length rs" for k
    using nth [OF that] that by (simp add: persisted_of_row_def version_after_def take_Suc_conv_app_nth)
  moreover have "map pa_effective_date (map (persisted_of_row cid) rs) = map mi_effective_date ms"
    using nth version_chain_length [OF v] by (intro nth_equalityI) (auto simp: persisted_of_row_def)
  ultimately show ?thesis using assms(2,3) by (simp add: token_chain_def)
qed

section \<open>An example\<close>

text \<open>A registered contract whose price is raised at its end.\<close>

definition ex_modification :: modification_input where
  "ex_modification = \<lparr>mi_effective_date = Date 2025 3 31, mi_adjustment_type = ''price'', mi_adjustment_reason = ''renewal'',
     mi_new_total_contract_value = Some 150, mi_requires_catch_up = True\<rparr>"

definition ex_args :: remeasure_args where
  "ex_args = \<lparr>rm_tenant_id = 7, rm_user_id = 8, rm_run_id = 50, rm_correlation_id = ''corr'',
     rm_reporting_currency = ''EUR'', rm_rate_mode = ''daily''\<rparr>"

definition ex_start :: remeasure_state where
  "ex_start = \<lparr>ms_current_contract = stored 11 ex_stored_contract, ms_prior_token = ''v0'', ms_chain_nodes = [],
     ms_chain_adjustments = [], ms_persisted = [], ms_created = 0, ms_db = ex_registered_db\<rparr>"

lemma ex_modification_numbers:
  "quantize_persisted_amount 150 = Inr 150" "numeric_20_6 150 = Inr 150"
  by code_simp+

lemma ex_catch_up:
  "\<not> isl (bindE (catch_up_amount ex_modification (ex_stored_contract\<lparr>rk_total_contract_value := 150\<rparr>) []) numeric_20_6)"
  by code_simp

lemma ex_chain: "ensure_append_targets_terminal [contract_node (stored 11 ex_stored_contract)] 7 (Some 11) = Inr ()"
  by code_simp

lemma ex_change_price:
  "\<exists>s1. change_price sha dec_str ex_args ex_modification ex_start = Inr s1
     \<and> rk_total_contract_value (row_values (ms_current_contract s1)) = 150
     \<and> rk_contract_start_date (row_values (ms_current_contract s1)) = Date 2025 1 1
     \<and> rk_contract_end_date (row_values (ms_current_contract s1)) = Date 2025 3 31
     \<and> rv_schedules (ms_db s1) = [] \<and> rv_adjustments (ms_db s1) = []"
proof -
  have chain: "load_contract_chain 7 ''K1'' ''S'' ex_registered_db = [contract_node (stored 11 ex_stored_contract)]"
    by (simp add: load_contract_chain_def ex_registered_db_def stored_def ex_stored_contract_def)
  obtain r db where r: "insert_superseding_contract sha dec_str 7 8 ''corr'' (stored 11 ex_stored_contract) 150 ex_registered_db = Inr (r, db)"
    using insert_then_total by (fastforce simp: insert_superseding_contract_def ex_modification_numbers Let_def)
  have v: "row_values r = ex_stored_contract\<lparr>rk_total_contract_value := 150, rk_correlation_id := ''corr'',
      rk_supersedes_id := Some 11\<rparr>"
    using r by (auto simp: insert_superseding_contract_def ex_modification_numbers Let_def result_simps
        insert_financial_record_facts stored_def)
  note c = insert_superseding_contract_cases [OF r]
  have old: "latest_by row_created_at (filter (\<lambda>r. row_tenant r = 7 \<and> rk_supersedes_id (row_values r) = Some 11
      \<and> rk_total_contract_value (row_values r) = 150 \<and> rk_correlation_id (row_values r) = ''corr'') (rv_contracts ex_registered_db)) = None"
    by (simp add: ex_registered_db_def stored_def ex_stored_contract_def)
  have fields: "rk_contract_number ex_stored_contract = ''K1''" "rk_source_contract_reference ex_stored_contract = ''S''"
    "rk_total_contract_value ex_stored_contract = 120" "row_values (stored 11 ex_stored_contract) = ex_stored_contract"
    "row_id (stored 11 ex_stored_contract) = 11"
    by (simp_all add: ex_stored_contract_def stored_def)
  have "change_price sha dec_str ex_args ex_modification ex_start = Inr (ex_start\<lparr>ms_current_contract := r,
      ms_chain_nodes := [contract_node (stored 11 ex_stored_contract)], ms_db := db\<rparr>)"
    using old r ex_chain by (simp add: change_price_def ex_modification_def ex_start_def ex_args_def ex_modification_numbers
        fields chain Let_def)
  then show ?thesis using c(2,3) by (simp add: v ex_stored_contract_def ex_registered_db_def)
qed

lemma ex_apply:
  "\<exists>s'. apply_modification sha dec_str ex_args 11 ''v0'' ex_start ex_modification = Inr s'
     \<and> ms_current_contract s' \<noteq> ms_current_contract ex_start"
proof -
  obtain s1 where s1: "change_price sha dec_str ex_args ex_modification ex_start = Inr s1"
    and c: "rk_total_contract_value (row_values (ms_current_contract s1)) = 150"
      "rk_contract_start_date (row_values (ms_current_contract s1)) = Date 2025 1 1"
      "rk_contract_end_date (row_values (ms_current_contract s1)) = Date 2025 3 31"
    and db: "rv_schedules (ms_db s1) = []" "rv_adjustments (ms_db s1) = []"
    using ex_change_price by blast
  have same: "catch_up_amount ex_modification (row_values (ms_current_contract s1)) []
      = catch_up_amount ex_modification (ex_stored_contract\<lparr>rk_total_contract_value := 150\<rparr>) []"
    by (simp add: catch_up_amount_def c) (simp add: ex_stored_contract_def)
  obtain catch_up x where cu: "catch_up_amount ex_modification (row_values (ms_current_contract s1)) [] = Inr catch_up"
      "numeric_20_6 catch_up = Inr x"
    using ex_catch_up unfolding same
    by (cases "catch_up_amount ex_modification (ex_stored_contract\<lparr>rk_total_contract_value := 150\<rparr>) []";
        cases "numeric_20_6 (projr (catch_up_amount ex_modification (ex_stored_contract\<lparr>rk_total_contract_value := 150\<rparr>) []))") auto
  have until: "schedules_until t r' k tok d (ms_db s1) = []" for t r' k tok d by (simp add: schedules_until_def db)
  have ins: "\<exists>r db'. insert_adjustment sha 7 8 a (ms_db s1) = Inr (r, db')"
    if "ra_catch_up_amount_reporting_currency a = catch_up" for a
    using that cu(2) by (auto simp: insert_adjustment_def adjustment_conflict_def db insert_then_total)
  obtain payload where payload: "normalized_modification_payload ex_modification = Inr payload"
    by (simp add: normalized_modification_payload_def ex_modification_def decimal_text_def ex_modification_numbers)
  have key: "modification_idempotency_key sha 11 ex_modification
      = Inr (sha (canonical_json_dumps (JDict [(''contract_id'', JStr (uuid_text 11)), (''modification'', payload)])))"
    by (simp add: modification_idempotency_key_def payload)
  have none: "find_adjustment 7 50 11 ex_modification k ex_registered_db = Inr None" for k
    by (rule find_adjustment_fresh) (simp add: adjustments_of_def ex_registered_db_def)
  have "\<exists>s'. create_adjustment sha dec_str ex_args 11 ''v0'' ex_modification k payload ex_start = Inr s'
      \<and> ms_current_contract s' = ms_current_contract s1" for k
  proof -
    let ?a = "adjustment_values ex_args 11 ex_modification k ''v0'' (build_schedule_version_token sha 11 payload ''EUR'' ''daily'' ''v0'')
      None None catch_up (rk_source_contract_reference (row_values (ms_current_contract s1)))"
    have "ra_catch_up_amount_reporting_currency ?a = catch_up" by (simp add: adjustment_values_def)
    from ins [OF this] obtain r db' where "insert_adjustment sha 7 8 ?a (ms_db s1) = Inr (r, db')" by blast
    moreover have "ms_prior_token ex_start = ''v0''" "ms_chain_adjustments ex_start = []" "last_adjustment_id ex_start = None"
      by (simp_all add: ex_start_def last_adjustment_id_def)
    moreover have "rm_tenant_id ex_args = 7" "rm_user_id ex_args = 8" "rm_run_id ex_args = 50"
      "rm_reporting_currency ex_args = ''EUR''" "rm_rate_mode ex_args = ''daily''"
      by (simp_all add: ex_args_def)
    ultimately show ?thesis by (simp add: create_adjustment_def s1 until cu(1) Let_def)
  qed
  moreover have "ms_current_contract s1 \<noteq> ms_current_contract ex_start"
    using c(1) by (auto simp: ex_start_def stored_def ex_stored_contract_def)
  moreover have "ensure_append_targets_terminal (ms_chain_nodes ex_start) (rm_tenant_id ex_args) (last_adjustment_id ex_start) = Inr ()"
    by (simp add: ensure_append_targets_terminal_def resolve_terminal_node_def validate_linear_chain_def ex_start_def last_adjustment_id_def)
  ultimately show ?thesis
    using none by (simp add: apply_modification_def key payload ex_args_def ex_start_def) metis
qed

lemma ex_ids_ok: "ids_ok ex_registered_db"
  by (simp add: ids_ok_def fresh_ids_def ex_registered_db_def stored_def)

definition ex_modified :: contract_input where
  "ex_modified = ex_contract_input ''K1''\<lparr>ci_modifications := [ex_modification]\<rparr>"

lemma ex_apply_modifications:
  "\<exists>res db'. apply_contract_modifications sha dec_str ex_args [ex_modified] [ex_registered] [(11, ''v0'')] ex_registered_db = Inr (res, db')
     \<and> rr_adjustments_by_contract res \<noteq> []"
proof -
  obtain s' where s': "apply_modification sha dec_str ex_args 11 ''v0'' ex_start ex_modification = Inr s'"
    using ex_apply by blast
  have p0: "progressed sha ex_args 11 ''v0'' 0 ex_registered_db [] ex_start"
    by (simp add: progressed_def ex_start_def adjustments_of_def ex_registered_db_def version_after_def fresh_ids_def
        stored_def ascending_def)
  then have p: "progressed sha ex_args 11 ''v0'' 0 ex_registered_db [ex_modification] s'"
    using progress [OF p0 s'] by simp
  then have "ms_persisted s' \<noteq> []" using version_chain_length by (fastforce simp: progressed_def)
  moreover have "load_contract_state 7 ex_registered_db [ex_registered] = Inr [''K1'' \<mapsto> stored 11 ex_stored_contract]"
    by (simp add: load_contract_state_def ex_registered_db_def ex_registered_def registered_of_row_def stored_def
        ex_stored_contract_def)
  moreover have "sort_modifications [ex_modification] = Inr [ex_modification]"
    by (simp add: sort_modifications_def decimal_text_def ex_modification_def ex_modification_numbers)
  moreover have "adjustments_of 7 50 11 ex_registered_db = []" by (simp add: adjustments_of_def ex_registered_db_def)
  moreover have "ci_contract_number ex_modified = ''K1''" "ci_modifications ex_modified = [ex_modification]"
    by (simp_all add: ex_modified_def ex_contract_input_def)
  moreover have "rm_tenant_id ex_args = 7" "rm_run_id ex_args = 50" "row_id (stored 11 ex_stored_contract) = 11"
    by (simp_all add: ex_args_def stored_def)
  ultimately show ?thesis
    using s' by (simp add: apply_contract_modifications_def apply_contract_def Let_def validate_linear_chain_def ex_start_def)
qed

lemma ex_fresh_run: "fresh_run sha ex_args [ex_modified] [ex_registered] ex_registered_db"
  using ex_ids_ok by (simp add: fresh_run_def ids_ok_def ex_modified_def) (simp add: ex_registered_db_def)

section \<open>Properties\<close>

text \<open>(C33) Remeasurement is repeatable: when the modifications of a fresh run have been applied,
  applying them again (a retried activity) succeeds, reports the same adjustments with the same
  schedule versions, counts none as created and leaves every table as it is.\<close>

theorem modifications_replay:
  assumes "apply_contract_modifications sha dec_str g contracts registered roots db = Inr (res, db')"
    and "fresh_run sha g contracts registered db"
  shows "apply_contract_modifications sha dec_str g contracts registered roots db'
    = Inr (res\<lparr>rr_adjustment_count := 0\<rparr>, db')"
proof (rule apply_modifications_outcome [OF assms])
  fix cs
  assume load: "load_contract_state (rm_tenant_id g) db registered = Inr cs"
    and outcome: "\<forall>i \<in> set contracts. cs (ci_contract_number i) = Some (current_of cs i)
      \<and> reported sha g roots (current_of cs i) i (rr_adjustments_by_contract res) db'"
    and report: "rr_adjustments_by_contract res = foldl (report_contract g cs db') [] (sort_key ci_contract_number contracts)"
    and "\<exists>new. rv_contracts db' = rv_contracts db @ new"
  then have "load_contract_state (rm_tenant_id g) db' registered = Inr cs"
    using load_contract_state_append [OF load] by blast
  moreover have "foldE (apply_contract sha dec_str g roots) (cs, 0, [], db') (sort_key ci_contract_number contracts)
      = Inr (cs, 0, rr_adjustments_by_contract res, db')"
    unfolding report by (rule apply_contracts_again) (use outcome in auto)
  ultimately show ?thesis by (simp add: apply_contract_modifications_def)
qed

text \<open>(C34) The adjustments of a contract chain its schedule versions: the first starts from the
  version the schedule was generated with, each later one from the version the one before it
  made, in the order of their effective dates.\<close>

theorem modifications_chain_versions:
  assumes "apply_contract_modifications sha dec_str g contracts registered roots db = Inr (res, db')"
    and "fresh_run sha g contracts registered db"
    and "(cid, ps) \<in> set (rr_adjustments_by_contract res)"
  shows "\<exists>root_token. map_of roots cid = Some root_token \<and> token_chain root_token ps"
proof (rule apply_modifications_outcome [OF assms(1,2)])
  fix cs
  assume outcome: "\<forall>i \<in> set contracts. cs (ci_contract_number i) = Some (current_of cs i)
      \<and> reported sha g roots (current_of cs i) i (rr_adjustments_by_contract res) db'"
    and report: "rr_adjustments_by_contract res = foldl (report_contract g cs db') [] (sort_key ci_contract_number contracts)"
  from report_contract_entries [OF assms(3) [unfolded report]] obtain i where i: "i \<in> set contracts"
    and cid: "cid = row_id (current_of cs i)"
    and ps: "adjustments_of (rm_tenant_id g) (rm_run_id g) cid db' \<noteq> []"
      "ps = map (persisted_of_row cid) (adjustments_of (rm_tenant_id g) (rm_run_id g) cid db')" by auto
  from outcome i obtain root_token ms where "map_of roots cid = Some root_token"
    and ms: "sort_modifications (ci_modifications i) = Inr ms"
    and v: "versioned sha g cid root_token ms (adjustments_of (rm_tenant_id g) (rm_run_id g) cid db')"
    unfolding reported_def cid by blast
  then show ?thesis
    using versioned_tokens [OF v ps(1) sort_modifications_facts(2) [OF ms]] ps(2) by auto
qed

text \<open>A change of the price must be a contract's last modification: the step that inserts
  the superseding contract leaves the contract's chain where the guard of the next step
  expects the adjustments' chain, so any further modification, of whatever kind, is refused as
  a broken version chain and the activity fails.\<close>

theorem price_change_blocks_modifications:
  assumes "ids_ok (ms_db s)" and "set (ms_chain_adjustments s) \<subseteq> set (rv_adjustments (ms_db s))"
    and "apply_modification sha dec_str g cid root_token s m = Inr s'"
    and "ms_current_contract s' \<noteq> ms_current_contract s"
  shows "\<exists>msg. apply_modification sha dec_str g cid root_token s' m' = Inl (chain_broken msg)"
  using assms by (rule price_change_blocks)

lemma price_change_blocks_modifications_witness:
  "\<exists>s' msg. apply_modification (\<lambda>s. s) (\<lambda>_. ''0'') ex_args 11 ''v0'' ex_start ex_modification = Inr s'
     \<and> apply_modification (\<lambda>s. s) (\<lambda>_. ''0'') ex_args 11 ''v0'' s' ex_modification = Inl (chain_broken msg)"
proof -
  obtain s' where s': "apply_modification (\<lambda>s. s) (\<lambda>_. ''0'') ex_args 11 ''v0'' ex_start ex_modification = Inr s'"
    "ms_current_contract s' \<noteq> ms_current_contract ex_start"
    using ex_apply by blast
  have "ids_ok (ms_db ex_start)" "set (ms_chain_adjustments ex_start) \<subseteq> set (rv_adjustments (ms_db ex_start))"
    using ex_ids_ok by (simp_all add: ex_start_def)
  from price_change_blocks_modifications [OF this s'] s'(1) show ?thesis by blast
qed

lemma modifications_replay_witness:
  "\<exists>res db'. apply_contract_modifications (\<lambda>s. s) (\<lambda>_. ''0'') ex_args [ex_modified] [ex_registered] [(11, ''v0'')] ex_registered_db
       = Inr (res, db')
     \<and> apply_contract_modifications (\<lambda>s. s) (\<lambda>_. ''0'') ex_args [ex_modified] [ex_registered] [(11, ''v0'')] db'
       = Inr (res\<lparr>rr_adjustment_count := 0\<rparr>, db')"
  using ex_apply_modifications modifications_replay [OF _ ex_fresh_run] by blast

lemma modifications_chain_versions_witness:
  "\<exists>res db' cid ps. apply_contract_modifications (\<lambda>s. s) (\<lambda>_. ''0'') ex_args [ex_modified] [ex_registered] [(11, ''v0'')]
       ex_registered_db = Inr (res, db') \<and> (cid, ps) \<in> set (rr_adjustments_by_contract res) \<and> token_chain ''v0'' ps"
proof -
  obtain res db' where r: "apply_contract_modifications (\<lambda>s. s) (\<lambda>_. ''0'') ex_args [ex_modified] [ex_registered] [(11, ''v0'')]
       ex_registered_db = Inr (res, db')" and "rr_adjustments_by_contract res \<noteq> []"
    using ex_apply_modifications by blast
  then obtain cid ps where "(cid, ps) \<in> set (rr_adjustments_by_contract res)"
    by (metis ex_in_conv old.prod.exhaust set_empty)
  with modifications_chain_versions [OF r ex_fresh_run this] r show ?thesis by (auto split: if_splits)
qed

end
