(* ===== verification/Revenue_Runs.thy ===== *)
theory Revenue_Runs
  imports Revenue_Versions Run_Lifecycle
begin

text \<open>
  The engine activities of \<open>services/revenue/service_facade.py\<close>: each reads the request of
  the run, registers it, and derives from it; schedule rows and journal entries are inserted
  under their unique constraints, modifications regenerate the rows after their effective
  date, and reads select the rows of the effective version.  \<open>journal_preview.py\<close>,
  \<open>journal_namespace.py\<close> and \<open>lineage_validation.py\<close> are in here too.
\<close>

section \<open>Parameters and the run\<close>

text \<open>SHA-256, the Babel list, \<open>str\<close> of a \<open>Decimal\<close>, and pydantic's parser of the stored request.\<close>

record revenue_engine =
  en_sha :: sha
  en_babel :: "string list option"
  en_dec_str :: "rat \<Rightarrow> string"
  en_parse :: "json option \<Rightarrow> revenue_run_request result"

record activity =
  ac_tenant_id :: uuid
  ac_run_id :: uuid
  ac_user_id :: uuid
  ac_correlation_id :: string

definition get_run_or_raise :: "uuid \<Rightarrow> uuid \<Rightarrow> run_header row list \<Rightarrow> run_header row result" where
  "get_run_or_raise tenant_id run_id runs =
     (case find (\<lambda>r. row_tenant r = tenant_id \<and> row_id r = run_id) runs of
        None \<Rightarrow> Inl (NotFoundError ''Revenue run not found'')
      | Some run \<Rightarrow> Inr run)"

definition run_request :: "revenue_engine \<Rightarrow> activity \<Rightarrow> run_header row list \<Rightarrow> revenue_run_request result" where
  "run_request en ac runs =
     bindE (get_run_or_raise (ac_tenant_id ac) (ac_run_id ac) runs) (\<lambda>run.
     en_parse en (rh_configuration_json (row_values run)))"

definition register_for_run :: "revenue_engine \<Rightarrow> activity \<Rightarrow> revenue_run_request \<Rightarrow> revenue_db
    \<Rightarrow> ((registered_contract list \<times> registered_obligation_set) \<times> revenue_db) result" where
  "register_for_run en ac payload = register_request (en_sha en) (en_babel en) (en_dec_str en)
     (ac_tenant_id ac) (ac_user_id ac) (ac_correlation_id ac) (rq_contracts payload)"

definition load_contracts_and_obligations_for_run :: "revenue_engine \<Rightarrow> activity \<Rightarrow> run_header row list \<Rightarrow> revenue_db
    \<Rightarrow> ((nat \<times> nat \<times> nat) \<times> revenue_db) result" where
  "load_contracts_and_obligations_for_run en ac runs db =
     bindE (run_request en ac runs) (\<lambda>payload.
     bindE (register_for_run en ac payload db) (\<lambda>((contracts, obligation_set), db).
     Inr ((length contracts, length (os_obligations obligation_set), length (os_line_items obligation_set)), db)))"

definition allocate_contract_value_for_run :: "revenue_engine \<Rightarrow> activity \<Rightarrow> run_header row list \<Rightarrow> revenue_db
    \<Rightarrow> ((nat \<times> rat) \<times> revenue_db) result" where
  "allocate_contract_value_for_run en ac runs db =
     bindE (run_request en ac runs) (\<lambda>payload.
     bindE (register_for_run en ac payload db) (\<lambda>((contracts, obligation_set), db).
     bindE (allocate_contract_values contracts (os_obligations obligation_set)) (\<lambda>allocations.
     Inr ((length allocations, dsum (map oa_allocated_amount allocations)), db))))"

section \<open>Schedule rows\<close>

text \<open>The two unique constraints of the table.\<close>

definition schedule_conflict :: "revenue_schedule \<Rightarrow> revenue_db \<Rightarrow> bool" where
  "schedule_conflict v db \<longleftrightarrow> list_ex (\<lambda>r. let w = row_values r in
     rd_run_id w = rd_run_id v \<and> gs_contract_id (rd_row w) = gs_contract_id (rd_row v)
     \<and> gs_schedule_version_token (rd_row w) = gs_schedule_version_token (rd_row v)
     \<and> (gs_recognition_date (rd_row w) = gs_recognition_date (rd_row v)
        \<or> gs_period_seq (rd_row w) = gs_period_seq (rd_row v))) (rv_schedules db)"

definition store_schedule :: "revenue_schedule \<Rightarrow> revenue_schedule result" where
  "store_schedule v =
     bindE (numeric_20_6 (gs_base_amount (rd_row v))) (\<lambda>base.
     bindE (numeric_20_6 (gs_fx_rate_used (rd_row v))) (\<lambda>rate.
     bindE (numeric_20_6 (gs_recognized_amount (rd_row v))) (\<lambda>recognized.
     bindE (numeric_20_6 (gs_cumulative_recognized (rd_row v))) (\<lambda>cumulative.
     Inr (v\<lparr>rd_row := (rd_row v)\<lparr>gs_base_amount := base, gs_fx_rate_used := rate, gs_recognized_amount := recognized,
       gs_cumulative_recognized := cumulative\<rparr>\<rparr>)))))"

definition schedule_rows_at :: "activity \<Rightarrow> uuid \<Rightarrow> date \<Rightarrow> string \<Rightarrow> nat \<Rightarrow> revenue_db \<Rightarrow> revenue_schedule row list" where
  "schedule_rows_at ac contract_id recognition_date token period_seq db =
     filter (\<lambda>r. row_tenant r = ac_tenant_id ac \<and> rd_run_id (row_values r) = ac_run_id ac
       \<and> gs_contract_id (rd_row (row_values r)) = contract_id
       \<and> gs_recognition_date (rd_row (row_values r)) = recognition_date
       \<and> gs_schedule_version_token (rd_row (row_values r)) = token
       \<and> gs_period_seq (rd_row (row_values r)) = period_seq) (rv_schedules db)"

definition insert_schedule :: "revenue_engine \<Rightarrow> activity \<Rightarrow> string \<Rightarrow> (string \<times> string) list \<Rightarrow> generated_schedule_row
    \<Rightarrow> revenue_db \<Rightarrow> (revenue_schedule row \<times> revenue_db) result" where
  "insert_schedule en ac action new_value row db =
     bindE (store_schedule \<lparr>rd_run_id = ac_run_id ac, rd_row = row, rd_correlation_id = ac_correlation_id ac\<rparr>) (\<lambda>v.
     bindE (raise_if (schedule_conflict v db) IntegrityError) (\<lambda>_.
     let (r, rows, env) = insert_financial_record (en_sha en) (\<lambda>v. v) (ac_tenant_id ac)
           (JDict [(''run_id'', JStr (uuid_text (ac_run_id ac))), (''contract_id'', JStr (uuid_text (gs_contract_id row))),
                   (''obligation_id'', JStr (uuid_text (gs_obligation_id row))),
                   (''contract_line_item_id'', JStr (uuid_text (gs_contract_line_item_id row))),
                   (''period_seq'', JInt (int (gs_period_seq row))),
                   (''recognition_date'', JStr (date_text (gs_recognition_date row))),
                   (''schedule_version_token'', JStr (gs_schedule_version_token row))])
           v (Some (revenue_event (ac_tenant_id ac) (ac_user_id ac) action ''revenue_schedule'' new_value))
           (rv_schedules db, rv_env db)
     in Inr (r, db\<lparr>rv_schedules := rows, rv_env := env\<rparr>)))"

text \<open>One row of the loop: skipped when it is there, inserted otherwise.\<close>

definition persist_schedule :: "revenue_engine \<Rightarrow> activity \<Rightarrow> string \<Rightarrow> (string \<times> string) list
    \<Rightarrow> nat \<times> revenue_db \<Rightarrow> generated_schedule_row \<Rightarrow> (nat \<times> revenue_db) result" where
  "persist_schedule en ac action new_value = (\<lambda>(inserted, db) row.
     bindE (one_or_none (schedule_rows_at ac (gs_contract_id row) (gs_recognition_date row)
              (gs_schedule_version_token row) (gs_period_seq row) db)) (\<lambda>existing.
     case existing of
       Some _ \<Rightarrow> Inr (inserted, db)
     | None \<Rightarrow> bindE (insert_schedule en ac action new_value row db) (\<lambda>(_, db). Inr (inserted + 1, db))))"

definition persist_generated :: "revenue_engine \<Rightarrow> activity \<Rightarrow> nat \<times> revenue_db \<Rightarrow> generated_schedule_row
    \<Rightarrow> (nat \<times> revenue_db) result" where
  "persist_generated en ac st row = persist_schedule en ac ''revenue.schedule.created''
     [(''run_id'', uuid_text (ac_run_id ac)), (''contract_line_item_id'', uuid_text (gs_contract_line_item_id row)),
      (''recognition_date'', date_text (gs_recognition_date row)),
      (''schedule_version_token'', gs_schedule_version_token row), (''correlation_id'', ac_correlation_id ac)] st row"

text \<open>The amounts a \<open>Numeric(20, 6)\<close> column can hold.\<close>

definition stored_amount :: "rat \<Rightarrow> bool" where
  "stored_amount x \<longleftrightarrow> numeric_20_6 x = Inr x"

lemma stored_quantize: "stored_amount x \<Longrightarrow> quantize_persisted_amount x = Inr x"
  by (simp add: stored_amount_def numeric_quantize)

lemma stored_amount_money: "stored_amount x \<Longrightarrow> money x"
  using stored_quantize quantize_money by blast

lemma numeric_stored:
  assumes "numeric_20_6 x = Inr y"
  shows "stored_amount y"
proof -
  define k where "k = round_half_up (x * 10 ^ 6)"
  have k: "y = of_int k / 10 ^ 6" "\<bar>k\<bar> < 10 ^ 20"
    using assms unfolding numeric_20_6_def k_def [symmetric] by (auto simp: Let_def split: if_splits)
  then have "round_half_up (y * 10 ^ 6) = k" by simp
  with k show ?thesis by (simp add: stored_amount_def numeric_20_6_def)
qed

section \<open>Regeneration after a modification\<close>

text \<open>\<open>Decimal(f"{x:.6f}")\<close>: formatting rounds half to even.\<close>

definition fixed6 :: "rat \<Rightarrow> rat" where
  "fixed6 x = of_int (round_half_even (x * 10 ^ 6)) / 10 ^ 6"

definition version_rows :: "activity \<Rightarrow> uuid \<Rightarrow> string \<Rightarrow> revenue_db \<Rightarrow> revenue_schedule row list" where
  "version_rows ac contract_id token db =
     filter (\<lambda>r. row_tenant r = ac_tenant_id ac \<and> rd_run_id (row_values r) = ac_run_id ac
       \<and> gs_contract_id (rd_row (row_values r)) = contract_id
       \<and> gs_schedule_version_token (rd_row (row_values r)) = token) (rv_schedules db)"

definition prior_rows :: "activity \<Rightarrow> uuid \<Rightarrow> string \<Rightarrow> revenue_db \<Rightarrow> revenue_schedule row list" where
  "prior_rows ac contract_id token db =
     sort_key (\<lambda>r. (gs_recognition_date (rd_row (row_values r)), gs_period_seq (rd_row (row_values r)), row_id r))
       (version_rows ac contract_id token db)"

text \<open>The rows of the new version: catch-up on the first, running totals, numbers continued.\<close>

fun regenerated_rows :: "string \<Rightarrow> rat \<Rightarrow> rat \<Rightarrow> nat \<Rightarrow> revenue_schedule row list \<Rightarrow> generated_schedule_row list" where
  "regenerated_rows new_token catch_up running period_seq [] = []"
| "regenerated_rows new_token catch_up running period_seq (source_row # rest) =
     (let s = rd_row (row_values source_row);
          recognized = fixed6 (if catch_up \<noteq> 0 then dadd (gs_recognized_amount s) catch_up else gs_recognized_amount s);
          running = fixed6 (dadd running recognized)
      in s\<lparr>gs_period_seq := period_seq + 1, gs_schedule_version_token := new_token, gs_recognized_amount := recognized,
           gs_cumulative_recognized := running, gs_schedule_status := ''regenerated''\<rparr>
         # regenerated_rows new_token 0 running (period_seq + 1) rest)"

definition persist_regenerated :: "revenue_engine \<Rightarrow> activity \<Rightarrow> nat \<times> revenue_db \<Rightarrow> generated_schedule_row
    \<Rightarrow> (nat \<times> revenue_db) result" where
  "persist_regenerated en ac st row = persist_schedule en ac ''revenue.schedule.regenerated''
     [(''run_id'', uuid_text (ac_run_id ac)), (''contract_id'', uuid_text (gs_contract_id row)),
      (''recognition_date'', date_text (gs_recognition_date row)),
      (''schedule_version_token'', gs_schedule_version_token row), (''correlation_id'', ac_correlation_id ac)] st row"

definition regenerate :: "revenue_engine \<Rightarrow> activity \<Rightarrow> uuid \<Rightarrow> nat \<times> revenue_db \<Rightarrow> persisted_adjustment
    \<Rightarrow> (nat \<times> revenue_db) result" where
  "regenerate en ac contract_id = (\<lambda>(inserted, db) adjustment.
     let prior = prior_rows ac contract_id (pa_prior_schedule_version_token adjustment) db;
         before = (\<lambda>r. gs_recognition_date (rd_row (row_values r)) < pa_effective_date adjustment);
         historic = filter before prior;
         forward = filter (\<lambda>r. \<not> before r) prior in
     if forward = [] then Inr (inserted, db)
     else
       let running = (if historic = [] then 0 else gs_cumulative_recognized (rd_row (row_values (last historic))));
           period_seq = fold max (map (\<lambda>r. gs_period_seq (rd_row (row_values r))) historic) 0
       in foldE (persist_regenerated en ac) (inserted, db)
            (regenerated_rows (pa_new_schedule_version_token adjustment)
              (pa_catch_up_amount_reporting_currency adjustment) running period_seq forward))"

definition generate_revenue_schedule_for_run :: "revenue_engine \<Rightarrow> activity \<Rightarrow> run_header row list \<Rightarrow> fx_db \<Rightarrow> revenue_db
    \<Rightarrow> ((nat \<times> nat) \<times> revenue_db) result" where
  "generate_revenue_schedule_for_run en ac runs fx db =
     bindE (run_request en ac runs) (\<lambda>payload.
     bindE (register_for_run en ac payload db) (\<lambda>((contracts, obligation_set), db).
     bindE (allocate_contract_values contracts (os_obligations obligation_set)) (\<lambda>allocations.
     bindE (generate_schedule_rows (en_sha en) (en_babel en) (ac_tenant_id ac) fx contracts (os_line_items obligation_set)
              allocations (rq_reporting_currency payload) (rq_rate_mode payload)) (\<lambda>generated.
     bindE (foldE (persist_generated en ac) (0, db) (go_rows generated)) (\<lambda>(inserted, db).
     bindE (apply_contract_modifications (en_sha en) (en_dec_str en)
              \<lparr>rm_tenant_id = ac_tenant_id ac, rm_user_id = ac_user_id ac, rm_run_id = ac_run_id ac,
               rm_correlation_id = ac_correlation_id ac, rm_reporting_currency = rq_reporting_currency payload,
               rm_rate_mode = rate_mode_value (rq_rate_mode payload)\<rparr>
              (rq_contracts payload) contracts (go_root_schedule_version_tokens generated) db) (\<lambda>(remeasurement, db).
     bindE (foldE (\<lambda>st (contract_id, adjustments). foldE (regenerate en ac contract_id) st adjustments) (0, db)
              (rr_adjustments_by_contract remeasurement)) (\<lambda>(regenerated_inserted, db).
     Inr ((inserted + regenerated_inserted, rr_adjustment_count remeasurement), db))))))))"

section \<open>The effective version\<close>

definition run_adjustments :: "activity \<Rightarrow> uuid \<Rightarrow> revenue_db \<Rightarrow> revenue_adjustment row list" where
  "run_adjustments ac contract_id db = adjustments_of (ac_tenant_id ac) (ac_run_id ac) contract_id db"

definition adjustment_order :: "revenue_adjustment row \<Rightarrow> date \<times> nat \<times> uuid" where
  "adjustment_order r = (ra_effective_date (row_values r), row_created_at r, row_id r)"

definition run_schedules :: "activity \<Rightarrow> revenue_db \<Rightarrow> revenue_schedule row list" where
  "run_schedules ac db =
     filter (\<lambda>r. row_tenant r = ac_tenant_id ac \<and> rd_run_id (row_values r) = ac_run_id ac) (rv_schedules db)"

definition resolve_root_version_token :: "activity \<Rightarrow> uuid \<Rightarrow> revenue_db \<Rightarrow> string option" where
  "resolve_root_version_token ac contract_id db =
     (case earliest_by adjustment_order (run_adjustments ac contract_id db) of
        Some first_adjustment \<Rightarrow> Some (ra_prior_schedule_version_token (row_values first_adjustment))
      | None \<Rightarrow>
          map_option (\<lambda>r. gs_schedule_version_token (rd_row (row_values r)))
            (earliest_by (\<lambda>r. (row_created_at r, gs_period_seq (rd_row (row_values r)), row_id r))
              (filter (\<lambda>r. gs_contract_id (rd_row (row_values r)) = contract_id) (run_schedules ac db))))"

definition resolve_effective_version_token :: "activity \<Rightarrow> uuid \<Rightarrow> string \<Rightarrow> revenue_db \<Rightarrow> string" where
  "resolve_effective_version_token ac contract_id root_schedule_version_token db =
     (case latest_by adjustment_order (run_adjustments ac contract_id db) of
        None \<Rightarrow> root_schedule_version_token
      | Some latest \<Rightarrow> ra_new_schedule_version_token (row_values latest))"

definition effective_tokens :: "activity \<Rightarrow> revenue_db \<Rightarrow> (uuid \<times> string) list" where
  "effective_tokens ac db =
     concat (map (\<lambda>contract_id. case resolve_root_version_token ac contract_id db of
         None \<Rightarrow> []
       | Some root_token \<Rightarrow> [(contract_id, resolve_effective_version_token ac contract_id root_token db)])
       (sort (remdups (map (\<lambda>r. gs_contract_id (rd_row (row_values r))) (run_schedules ac db)))))"

text \<open>Selected per contract in key order, then sorted again over all contracts.\<close>

definition schedule_order :: "revenue_schedule row \<Rightarrow> date \<times> uuid \<times> nat \<times> uuid" where
  "schedule_order r = (let s = rd_row (row_values r) in
     (gs_recognition_date s, gs_contract_id s, gs_period_seq s, row_id r))"

definition effective_rows :: "activity \<Rightarrow> revenue_db \<Rightarrow> revenue_schedule row list" where
  "effective_rows ac db = sort_key schedule_order
     (concat (map (\<lambda>(contract_id, token). sort_key schedule_order (version_rows ac contract_id token db))
       (effective_tokens ac db)))"

record result_row =
  rs_schedule_id :: uuid
  rs_contract_id :: uuid
  rs_obligation_id :: uuid
  rs_contract_line_item_id :: uuid
  rs_period_seq :: nat
  rs_recognition_date :: date
  rs_schedule_version_token :: string
  rs_recognition_method :: recognition_method
  rs_recognized_amount :: rat
  rs_cumulative_recognized :: rat

definition result_of_row :: "revenue_schedule row \<Rightarrow> result_row" where
  "result_of_row r = (let s = rd_row (row_values r) in
     \<lparr>rs_schedule_id = row_id r, rs_contract_id = gs_contract_id s, rs_obligation_id = gs_obligation_id s,
      rs_contract_line_item_id = gs_contract_line_item_id s, rs_period_seq = gs_period_seq s,
      rs_recognition_date = gs_recognition_date s, rs_schedule_version_token = gs_schedule_version_token s,
      rs_recognition_method = gs_recognition_method s, rs_recognized_amount = gs_recognized_amount s,
      rs_cumulative_recognized = gs_cumulative_recognized s\<rparr>)"

record revenue_results =
  rv_run_id :: uuid
  rv_reporting_currency :: string
  rv_rows :: "result_row list"
  rv_count :: nat
  rv_total_recognized :: rat

text \<open>The stored request holds the currency as a string.\<close>

definition stored_reporting_currency :: "json option \<Rightarrow> string" where
  "stored_reporting_currency configuration =
     (case configuration of
        Some (JDict kvs) \<Rightarrow> (case map_of kvs ''reporting_currency'' of Some (JStr s) \<Rightarrow> s | _ \<Rightarrow> [])
      | _ \<Rightarrow> [])"

definition get_results :: "activity \<Rightarrow> run_header row list \<Rightarrow> revenue_db \<Rightarrow> revenue_results result" where
  "get_results ac runs db =
     bindE (get_run_or_raise (ac_tenant_id ac) (ac_run_id ac) runs) (\<lambda>run.
     let rows = effective_rows ac db in
     Inr \<lparr>rv_run_id = ac_run_id ac,
          rv_reporting_currency = stored_reporting_currency (rh_configuration_json (row_values run)),
          rv_rows = map result_of_row rows, rv_count = length rows,
          rv_total_recognized = dsum (map (\<lambda>r. gs_recognized_amount (rd_row (row_values r))) rows)\<rparr>)"

section \<open>Journal preview\<close>

definition prefix_map :: "string \<Rightarrow> string option" where
  "prefix_map = map_of [(''REV'', ''REV-''), (''LSE'', ''LSE-''), (''PPD'', ''PPD-''), (''FAR'', ''FAR-''),
     (''REVENUE'', ''REV-''), (''LEASE'', ''LSE-''), (''PREPAID'', ''PPD-''), (''FIXED_ASSETS'', ''FAR-'')]"

definition build_journal_prefix :: "string \<Rightarrow> string result" where
  "build_journal_prefix engine_namespace =
     (case prefix_map (py_upper (py_strip engine_namespace)) of
        None \<Rightarrow> Inl (ValidationError ''Unsupported journal namespace'')
      | Some prefix \<Rightarrow> Inr prefix)"

definition build_journal_reference :: "string \<Rightarrow> uuid \<Rightarrow> int \<Rightarrow> string result" where
  "build_journal_reference engine_namespace run_id sequence =
     bindE (raise_if (sequence \<le> 0) (ValidationError ''Journal sequence must be positive'')) (\<lambda>_.
     bindE (build_journal_prefix engine_namespace) (\<lambda>prefix.
     let run_token = py_upper (take 12 (filter (\<lambda>c. c \<noteq> CHR ''-'') (uuid_text run_id))) in
     Inr (prefix @ run_token @ ''-'' @ pad_left 6 (nat_text (nat sequence)))))"

record journal_preview_row =
  jp_schedule_id :: uuid
  jp_contract_id :: uuid
  jp_obligation_id :: uuid
  jp_journal_reference :: string
  jp_entry_date :: date
  jp_debit_account :: string
  jp_credit_account :: string
  jp_amount_reporting_currency :: rat
  jp_source_contract_reference :: string
  jp_parent_reference_id :: uuid
  jp_source_reference_id :: uuid

definition preview_row :: "uuid \<Rightarrow> nat \<times> revenue_schedule row \<Rightarrow> journal_preview_row result" where
  "preview_row run_id = (\<lambda>(index, schedule).
     let s = rd_row (row_values schedule) in
     bindE (build_journal_reference ''REV'' run_id (int index)) (\<lambda>journal_reference.
     bindE (quantize_persisted_amount (gs_recognized_amount s)) (\<lambda>amount.
     Inr \<lparr>jp_schedule_id = row_id schedule, jp_contract_id = gs_contract_id s, jp_obligation_id = gs_obligation_id s,
          jp_journal_reference = journal_reference, jp_entry_date = gs_recognition_date s,
          jp_debit_account = ''Accounts Receivable'', jp_credit_account = ''Revenue'',
          jp_amount_reporting_currency = amount, jp_source_contract_reference = gs_source_contract_reference s,
          jp_parent_reference_id = row_id schedule, jp_source_reference_id = gs_contract_line_item_id s\<rparr>)))"

definition build_revenue_journal_preview :: "uuid \<Rightarrow> revenue_schedule row list \<Rightarrow> journal_preview_row list result" where
  "build_revenue_journal_preview run_id schedules =
     (let ordered = sort_key (\<lambda>r. let s = rd_row (row_values r) in
            (gs_recognition_date s, gs_contract_id s, gs_obligation_id s, row_id r)) schedules in
      mapE (preview_row run_id) (zip [1..<Suc (length ordered)] ordered))"

definition insert_journal :: "revenue_engine \<Rightarrow> activity \<Rightarrow> journal_preview_row \<Rightarrow> revenue_db
    \<Rightarrow> (revenue_journal_entry row \<times> revenue_db) result" where
  "insert_journal en ac row db =
     bindE (numeric_20_6 (jp_amount_reporting_currency row)) (\<lambda>amount.
     let (r, rows, env) = insert_financial_record (en_sha en) (\<lambda>v. v) (ac_tenant_id ac)
           (str_dict [(''run_id'', uuid_text (ac_run_id ac)), (''schedule_id'', uuid_text (jp_schedule_id row)),
                      (''journal_reference'', jp_journal_reference row)])
           \<lparr>rj_run_id = ac_run_id ac, rj_contract_id = jp_contract_id row, rj_obligation_id = jp_obligation_id row,
            rj_schedule_id = jp_schedule_id row, rj_journal_reference = jp_journal_reference row,
            rj_entry_date = jp_entry_date row, rj_debit_account = jp_debit_account row,
            rj_credit_account = jp_credit_account row, rj_amount_reporting_currency = amount,
            rj_source_contract_reference = jp_source_contract_reference row,
            rj_parent_reference_id = jp_parent_reference_id row, rj_source_reference_id = jp_source_reference_id row,
            rj_correlation_id = ac_correlation_id ac\<rparr>
           (Some (revenue_event (ac_tenant_id ac) (ac_user_id ac) ''revenue.journal.preview.created'' ''revenue_journal_entry''
             [(''run_id'', uuid_text (ac_run_id ac)), (''schedule_id'', uuid_text (jp_schedule_id row)),
              (''journal_reference'', jp_journal_reference row), (''correlation_id'', ac_correlation_id ac)]))
           (rv_journals db, rv_env db)
     in Inr (r, db\<lparr>rv_journals := rows, rv_env := env\<rparr>))"

definition journals_of :: "activity \<Rightarrow> uuid \<Rightarrow> revenue_db \<Rightarrow> revenue_journal_entry row list" where
  "journals_of ac schedule_id db = filter (\<lambda>r. row_tenant r = ac_tenant_id ac
     \<and> rj_run_id (row_values r) = ac_run_id ac \<and> rj_schedule_id (row_values r) = schedule_id) (rv_journals db)"

definition persist_journal :: "revenue_engine \<Rightarrow> activity \<Rightarrow> nat \<times> revenue_db \<Rightarrow> journal_preview_row
    \<Rightarrow> (nat \<times> revenue_db) result" where
  "persist_journal en ac = (\<lambda>(inserted, db) row.
     bindE (one_or_none (journals_of ac (jp_schedule_id row) db)) (\<lambda>existing.
     case existing of
       Some _ \<Rightarrow> Inr (inserted, db)
     | None \<Rightarrow> bindE (insert_journal en ac row db) (\<lambda>(_, db). Inr (inserted + 1, db))))"

definition build_journal_preview_for_run :: "revenue_engine \<Rightarrow> activity \<Rightarrow> revenue_db \<Rightarrow> (nat \<times> revenue_db) result" where
  "build_journal_preview_for_run en ac db =
     bindE (build_revenue_journal_preview (ac_run_id ac) (effective_rows ac db)) (\<lambda>preview_rows.
     foldE (persist_journal en ac) (0, db) preview_rows)"

section \<open>Lineage\<close>

text \<open>The four counts of rows whose foreign key finds nothing.\<close>

definition missing :: "('v row \<Rightarrow> uuid) \<Rightarrow> 'w row list \<Rightarrow> 'v row list \<Rightarrow> nat" where
  "missing key targets rows = length (filter (\<lambda>r. key r \<notin> row_id ` set targets) rows)"

definition validate_revenue_lineage :: "uuid \<Rightarrow> uuid \<Rightarrow> revenue_db \<Rightarrow> lineage_validation_result" where
  "validate_revenue_lineage tenant_id run_id db =
     (let schedules = filter (\<lambda>r. row_tenant r = tenant_id \<and> rd_run_id (row_values r) = run_id) (rv_schedules db);
          journals = filter (\<lambda>r. row_tenant r = tenant_id \<and> rj_run_id (row_values r) = run_id) (rv_journals db);
          lines = filter (\<lambda>r. row_tenant r = tenant_id
            \<and> rn_correlation_id (row_values r) \<in> (\<lambda>s. rd_correlation_id (row_values s)) ` set schedules) (rv_line_items db);
          missing_schedule_line_links = missing (\<lambda>r. gs_contract_line_item_id (rd_row (row_values r))) (rv_line_items db) schedules;
          missing_line_item_contract_links = missing (\<lambda>r. rn_contract_id (row_values r)) (rv_contracts db) lines;
          missing_line_item_obligation_links = missing (\<lambda>r. rn_obligation_id (row_values r)) (rv_obligations db) lines;
          missing_journal_schedule_links = missing (\<lambda>r. rj_schedule_id (row_values r)) (rv_schedules db) journals;
          counts = [missing_schedule_line_links, missing_line_item_contract_links, missing_line_item_obligation_links,
                    missing_journal_schedule_links] in
      \<lparr>lv_is_complete = list_all (\<lambda>n. n = 0) counts, lv_error_code = ''LINEAGE_INCOMPLETE'',
       lv_details = zip [''missing_schedule_line_links'', ''missing_line_item_contract_links'',
         ''missing_line_item_obligation_links'', ''missing_journal_schedule_links''] (map (\<lambda>n. JInt (int n)) counts)\<rparr>)"

definition validate_lineage_for_run :: "uuid \<Rightarrow> uuid \<Rightarrow> revenue_db \<Rightarrow> lineage_validation_result result" where
  "validate_lineage_for_run tenant_id run_id db =
     (let outcome = validate_revenue_lineage tenant_id run_id db in
      if lv_is_complete outcome then Inr outcome
      else Inl (AccountingValidationError ''LINEAGE_INCOMPLETE'' ''LINEAGE_INCOMPLETE''))"

end
