(* ===== verification/Lease_Registry.thy ===== *)
theory Lease_Registry
  imports Lease_Schedule Revenue_Runs
begin

text \<open>
  The requests of the lease engine (\<open>schemas/lease.py\<close>), its tables (\<open>db/models/lease.py\<close>) and
  the look-up-or-insert registration of leases (\<open>lease_registry.py\<close>) and their payments
  (\<open>payment_schedule.py\<close>).  The locales of Keyed\_Store are interpreted on both tables, which
  makes a retried registration return the same rows and write nothing.
\<close>

section \<open>Requests\<close>

datatype lease_payment_frequency = monthly | quarterly | annual | custom

definition frequency_value :: "lease_payment_frequency \<Rightarrow> string" where
  "frequency_value f = (case f of monthly \<Rightarrow> ''monthly'' | quarterly \<Rightarrow> ''quarterly'' | annual \<Rightarrow> ''annual'' | custom \<Rightarrow> ''custom'')"

record lease_payment_input =
  pi_payment_date :: date
  pi_payment_amount :: rat
  pi_payment_type :: string
  pi_payment_sequence :: int

record lease_impairment_input =
  im_schedule_date :: date
  im_impairment_amount :: rat

record lease_modification_input =
  lx_effective_date :: date
  lx_modification_type :: string
  lx_modification_reason :: string
  lx_new_discount_rate :: "rat option"
  lx_new_end_date :: "date option"
  lx_remeasurement_delta :: "rat option"

record lease_input =
  lin_lease_number :: string
  lin_counterparty_id :: string
  lin_lease_currency :: string
  lin_commencement_date :: date
  lin_end_date :: date
  lin_payment_frequency :: lease_payment_frequency
  lin_initial_discount_rate :: rat
  lin_discount_rate_source :: string
  lin_discount_rate_reference_date :: date
  lin_discount_rate_policy_code :: string
  lin_initial_measurement_basis :: string
  lin_source_lease_reference :: string
  lin_policy_code :: string
  lin_policy_version :: string
  lin_payments :: "lease_payment_input list"
  lin_modifications :: "lease_modification_input list"
  lin_impairments :: "lease_impairment_input list"

record lease_run_request =
  lrq_reporting_currency :: string
  lrq_rate_mode :: rate_mode
  lrq_period_year :: "int option"
  lrq_period_month :: "int option"
  lrq_leases :: "lease_input list"

definition valid_lease_payment :: "lease_payment_input \<Rightarrow> bool" where
  "valid_lease_payment p \<longleftrightarrow> valid_date (pi_payment_date p) \<and> 0 \<le> pi_payment_amount p \<and> sized 1 64 (pi_payment_type p)
     \<and> 1 \<le> pi_payment_sequence p \<and> pi_payment_sequence p \<le> 10000"

definition valid_lease_impairment :: "lease_impairment_input \<Rightarrow> bool" where
  "valid_lease_impairment i \<longleftrightarrow> valid_date (im_schedule_date i) \<and> 0 \<le> im_impairment_amount i"

definition valid_lease_modification :: "lease_modification_input \<Rightarrow> bool" where
  "valid_lease_modification m \<longleftrightarrow> valid_date (lx_effective_date m) \<and> sized 1 64 (lx_modification_type m)
     \<and> sized 1 5000 (lx_modification_reason m) \<and> pred_option (\<lambda>x. 0 < x) (lx_new_discount_rate m)
     \<and> pred_option valid_date (lx_new_end_date m)"

fun dates_in_order :: "lease_payment_input list \<Rightarrow> bool" where
  "dates_in_order (previous # current # rest) \<longleftrightarrow>
     \<not> pi_payment_date current < pi_payment_date previous \<and> dates_in_order (current # rest)"
| "dates_in_order _ \<longleftrightarrow> True"

definition valid_lease_input :: "string list option \<Rightarrow> lease_input \<Rightarrow> bool" where
  "valid_lease_input babel l \<longleftrightarrow>
     sized 1 128 (lin_lease_number l) \<and> sized 1 128 (lin_counterparty_id l) \<and> valid_currency babel (lin_lease_currency l)
     \<and> valid_date (lin_commencement_date l) \<and> valid_date (lin_end_date l)
     \<and> 0 < lin_initial_discount_rate l \<and> lin_initial_discount_rate l \<le> 1
     \<and> sized 1 64 (lin_discount_rate_source l) \<and> valid_date (lin_discount_rate_reference_date l)
     \<and> sized 1 64 (lin_discount_rate_policy_code l) \<and> sized 1 64 (lin_initial_measurement_basis l)
     \<and> sized 1 255 (lin_source_lease_reference l) \<and> sized 1 64 (lin_policy_code l) \<and> sized 1 64 (lin_policy_version l)
     \<and> lin_payments l \<noteq> [] \<and> list_all valid_lease_payment (lin_payments l)
     \<and> list_all valid_lease_modification (lin_modifications l) \<and> list_all valid_lease_impairment (lin_impairments l)
     \<and> \<not> lin_end_date l < lin_commencement_date l
     \<and> distinct (map pi_payment_sequence (lin_payments l))
     \<and> dates_in_order (sort_key pi_payment_sequence (lin_payments l))
     \<and> list_all (\<lambda>m. pred_option (\<lambda>d. \<not> d < lin_commencement_date l) (lx_new_end_date m)) (lin_modifications l)"

definition valid_lease_request :: "string list option \<Rightarrow> lease_run_request \<Rightarrow> bool" where
  "valid_lease_request babel rq \<longleftrightarrow>
     valid_currency babel (lrq_reporting_currency rq)
     \<and> pred_option (\<lambda>y. 2000 \<le> y \<and> y \<le> 2100) (lrq_period_year rq) \<and> pred_option (\<lambda>m. 1 \<le> m \<and> m \<le> 12) (lrq_period_month rq)
     \<and> 1 \<le> length (lrq_leases rq) \<and> length (lrq_leases rq) \<le> 200 \<and> list_all (valid_lease_input babel) (lrq_leases rq)
     \<and> (lrq_rate_mode rq = month_end_locked \<longrightarrow> lrq_period_year rq \<noteq> None \<and> lrq_period_month rq \<noteq> None)
     \<and> distinct (map lin_lease_number (lrq_leases rq))"

section \<open>Tables\<close>

record lease =
  ls_lease_number :: string
  ls_counterparty_id :: string
  ls_lease_currency :: string
  ls_commencement_date :: date
  ls_end_date :: date
  ls_payment_frequency :: string
  ls_initial_discount_rate :: rat
  ls_discount_rate_source :: string
  ls_discount_rate_reference_date :: date
  ls_discount_rate_policy_code :: string
  ls_initial_measurement_basis :: string
  ls_source_lease_reference :: string
  ls_policy_code :: string
  ls_policy_version :: string
  ls_parent_reference_id :: "uuid option"
  ls_source_reference_id :: "uuid option"
  ls_correlation_id :: string
  ls_supersedes_id :: "uuid option"

record lease_payment =
  pm_lease_id :: uuid
  pm_payment_date :: date
  pm_payment_amount :: rat
  pm_payment_type :: string
  pm_payment_sequence :: int
  pm_source_lease_reference :: string
  pm_parent_reference_id :: uuid
  pm_source_reference_id :: uuid
  pm_correlation_id :: string
  pm_supersedes_id :: "uuid option"

record lease_liability_schedule =
  ll_run_id :: uuid
  ll_row :: liability_row
  ll_correlation_id :: string

record lease_rou_schedule =
  lu_run_id :: uuid
  lu_row :: rou_row
  lu_correlation_id :: string

record lease_modification =
  lmo_run_id :: uuid
  lmo_lease_id :: uuid
  lmo_effective_date :: date
  lmo_modification_type :: string
  lmo_modification_reason :: string
  lmo_idempotency_key :: string
  lmo_prior_schedule_version_token :: string
  lmo_new_schedule_version_token :: string
  lmo_prior_schedule_reference :: "string option"
  lmo_new_schedule_reference :: string
  lmo_remeasurement_delta :: rat
  lmo_source_lease_reference :: string
  lmo_parent_reference_id :: uuid
  lmo_source_reference_id :: uuid
  lmo_correlation_id :: string
  lmo_supersedes_id :: "uuid option"

record lease_journal_entry =
  lj_run_id :: uuid
  lj_lease_id :: uuid
  lj_liability_schedule_id :: "uuid option"
  lj_rou_schedule_id :: "uuid option"
  lj_journal_reference :: string
  lj_entry_date :: date
  lj_debit_account :: string
  lj_credit_account :: string
  lj_amount :: rat
  lj_source_lease_reference :: string
  lj_parent_reference_id :: uuid
  lj_source_reference_id :: uuid
  lj_correlation_id :: string

record lease_db =
  ld_leases :: "lease row list"
  ld_payments :: "lease_payment row list"
  ld_liability :: "lease_liability_schedule row list"
  ld_rou :: "lease_rou_schedule row list"
  ld_modifications :: "lease_modification row list"
  ld_journals :: "lease_journal_entry row list"
  ld_env :: env

definition lease_event :: "uuid \<Rightarrow> uuid \<Rightarrow> string \<Rightarrow> string \<Rightarrow> (string \<times> json) list \<Rightarrow> audit_event" where
  "lease_event tenant_id user_id action resource_type new_value =
     \<lparr>ae_tenant_id = tenant_id, ae_action = action, ae_resource_type = resource_type, ae_user_id = Some user_id,
      ae_resource_id = None, ae_resource_name = None, ae_old_value = None,
      ae_new_value = Some (JDict new_value), ae_ip_address = None, ae_user_agent = None\<rparr>"

section \<open>Leases\<close>

definition lease_fingerprint :: "lease_input \<Rightarrow> string \<times> string \<times> string" where
  "lease_fingerprint l = (lin_lease_number l, lin_source_lease_reference l, lin_policy_version l)"

definition find_lease :: "uuid \<Rightarrow> string \<Rightarrow> string \<times> string \<times> string \<Rightarrow> lease_db \<Rightarrow> lease row option" where
  "find_lease tenant_id correlation_id fingerprint db =
     earliest_row (\<lambda>r. row_tenant r = tenant_id \<and> ls_correlation_id (row_values r) = correlation_id
         \<and> (ls_lease_number (row_values r), ls_source_lease_reference (row_values r),
            ls_policy_version (row_values r)) = fingerprint) (ld_leases db)"

definition create_lease :: "sha \<Rightarrow> string list option \<Rightarrow> uuid \<Rightarrow> uuid \<Rightarrow> string \<Rightarrow> lease_input \<Rightarrow> lease_db
    \<Rightarrow> (lease row \<times> lease_db) result" where
  "create_lease sha babel tenant_id user_id correlation_id l db =
     bindE (normalize_currency_code babel (lin_lease_currency l)) (\<lambda>currency.
     bindE (quantize_rate (lin_initial_discount_rate l)) (\<lambda>rate.
     bindE (numeric_20_6 rate) (\<lambda>stored_rate.
     let (r, rows, env) = insert_financial_record sha (\<lambda>v. v) tenant_id
           (str_dict [(''lease_number'', lin_lease_number l), (''counterparty_id'', lin_counterparty_id l),
                      (''lease_currency'', lin_lease_currency l),
                      (''source_lease_reference'', lin_source_lease_reference l)])
           \<lparr>ls_lease_number = lin_lease_number l, ls_counterparty_id = lin_counterparty_id l, ls_lease_currency = currency,
            ls_commencement_date = lin_commencement_date l, ls_end_date = lin_end_date l,
            ls_payment_frequency = frequency_value (lin_payment_frequency l), ls_initial_discount_rate = stored_rate,
            ls_discount_rate_source = lin_discount_rate_source l,
            ls_discount_rate_reference_date = lin_discount_rate_reference_date l,
            ls_discount_rate_policy_code = lin_discount_rate_policy_code l,
            ls_initial_measurement_basis = lin_initial_measurement_basis l,
            ls_source_lease_reference = lin_source_lease_reference l, ls_policy_code = lin_policy_code l,
            ls_policy_version = lin_policy_version l, ls_parent_reference_id = None, ls_source_reference_id = None,
            ls_correlation_id = correlation_id, ls_supersedes_id = None\<rparr>
           (Some (lease_event tenant_id user_id ''lease.contract.created'' ''lease''
             [(''lease_number'', JStr (lin_lease_number l)),
              (''source_lease_reference'', JStr (lin_source_lease_reference l)),
              (''correlation_id'', JStr correlation_id)]))
           (ld_leases db, ld_env db)
     in Inr (r, db\<lparr>ld_leases := rows, ld_env := env\<rparr>))))"

definition registered_lease_of_row :: "lease row \<Rightarrow> registered_lease" where
  "registered_lease_of_row r =
     \<lparr>le_lease_id = row_id r, le_lease_number = ls_lease_number (row_values r),
      le_lease_currency = ls_lease_currency (row_values r), le_commencement_date = ls_commencement_date (row_values r),
      le_end_date = ls_end_date (row_values r), le_payment_frequency = ls_payment_frequency (row_values r),
      le_initial_discount_rate = ls_initial_discount_rate (row_values r),
      le_source_lease_reference = ls_source_lease_reference (row_values r)\<rparr>"

definition get_lease :: "sha \<Rightarrow> string list option \<Rightarrow> uuid \<Rightarrow> uuid \<Rightarrow> string \<Rightarrow> lease_input \<Rightarrow> lease_db
    \<Rightarrow> (lease row \<times> lease_db) result" where
  "get_lease sha babel tenant_id user_id correlation_id =
     get_or_create (find_lease tenant_id correlation_id) (create_lease sha babel tenant_id user_id correlation_id) lease_fingerprint"

fun register_lease_loop :: "(lease_input \<Rightarrow> lease_db \<Rightarrow> (lease row \<times> lease_db) result)
    \<Rightarrow> (string \<times> string \<times> string) list \<Rightarrow> lease_input list \<Rightarrow> lease_db \<Rightarrow> (lease row list \<times> lease_db) result" where
  "register_lease_loop get seen_fingerprints [] db = Inr ([], db)"
| "register_lease_loop get seen_fingerprints (l # leases) db =
     bindE (raise_if (lease_fingerprint l \<in> set seen_fingerprints)
             (ValidationError ''Duplicate lease fingerprint in request payload'')) (\<lambda>_.
     bindE (get l db) (\<lambda>(r, db).
     bindE (register_lease_loop get (lease_fingerprint l # seen_fingerprints) leases db) (\<lambda>(rs, db).
     Inr (r # rs, db))))"

definition register_leases :: "sha \<Rightarrow> string list option \<Rightarrow> uuid \<Rightarrow> uuid \<Rightarrow> string \<Rightarrow> lease_input list \<Rightarrow> lease_db
    \<Rightarrow> (registered_lease list \<times> lease_db) result" where
  "register_leases sha babel tenant_id user_id correlation_id leases db =
     bindE (register_lease_loop (get_lease sha babel tenant_id user_id correlation_id) [] leases db) (\<lambda>(rows, db).
     Inr (sort_key (\<lambda>item. (le_lease_number item, le_lease_id item)) (map registered_lease_of_row rows), db))"

section \<open>Payments\<close>

type_synonym payment_item = "registered_lease \<times> string \<times> lease_payment_input"

definition payment_key :: "payment_item \<Rightarrow> uuid \<times> int" where
  "payment_key = (\<lambda>(registered_lease, source_lease_reference, payment). (le_lease_id registered_lease, pi_payment_sequence payment))"

definition find_payment :: "uuid \<Rightarrow> string \<Rightarrow> uuid \<times> int \<Rightarrow> lease_db \<Rightarrow> lease_payment row option" where
  "find_payment tenant_id correlation_id k db =
     earliest_row (\<lambda>r. row_tenant r = tenant_id \<and> pm_correlation_id (row_values r) = correlation_id
         \<and> (pm_lease_id (row_values r), pm_payment_sequence (row_values r)) = k) (ld_payments db)"

text \<open>\<open>uq_lease_payments_sequence\<close>.\<close>

definition payment_conflict :: "uuid \<Rightarrow> uuid \<times> int \<Rightarrow> lease_db \<Rightarrow> bool" where
  "payment_conflict tenant_id k db \<longleftrightarrow> list_ex (\<lambda>r. row_tenant r = tenant_id
     \<and> (pm_lease_id (row_values r), pm_payment_sequence (row_values r)) = k) (ld_payments db)"

definition create_payment :: "sha \<Rightarrow> (rat \<Rightarrow> string) \<Rightarrow> uuid \<Rightarrow> uuid \<Rightarrow> string \<Rightarrow> payment_item \<Rightarrow> lease_db
    \<Rightarrow> (lease_payment row \<times> lease_db) result" where
  "create_payment sha dec_str tenant_id user_id correlation_id = (\<lambda>(registered_lease, source_lease_reference, payment) db.
     let lease_id = le_lease_id registered_lease in
     bindE (quantize_persisted_amount (pi_payment_amount payment)) (\<lambda>amount.
     bindE (numeric_20_6 amount) (\<lambda>stored_amount.
     bindE (raise_if (payment_conflict tenant_id (lease_id, pi_payment_sequence payment) db) IntegrityError) (\<lambda>_.
     let (r, rows, env) = insert_financial_record sha (\<lambda>v. v) tenant_id
           (JDict [(''lease_id'', JStr (uuid_text lease_id)), (''payment_sequence'', JInt (pi_payment_sequence payment)),
                   (''payment_date'', JStr (date_text (pi_payment_date payment))),
                   (''payment_amount_lease_currency'', JStr (dec_str (pi_payment_amount payment)))])
           \<lparr>pm_lease_id = lease_id, pm_payment_date = pi_payment_date payment, pm_payment_amount = stored_amount,
            pm_payment_type = pi_payment_type payment, pm_payment_sequence = pi_payment_sequence payment,
            pm_source_lease_reference = source_lease_reference, pm_parent_reference_id = lease_id,
            pm_source_reference_id = lease_id, pm_correlation_id = correlation_id, pm_supersedes_id = None\<rparr>
           (Some (lease_event tenant_id user_id ''lease.payment.created'' ''lease_payment''
             [(''lease_id'', JStr (uuid_text lease_id)), (''payment_sequence'', JInt (pi_payment_sequence payment)),
              (''correlation_id'', JStr correlation_id)]))
           (ld_payments db, ld_env db)
     in Inr (r, db\<lparr>ld_payments := rows, ld_env := env\<rparr>)))))"

definition registered_payment_of_row :: "registered_lease \<Rightarrow> lease_payment row \<Rightarrow> registered_lease_payment" where
  "registered_payment_of_row registered_lease r =
     \<lparr>lp_payment_id = row_id r, lp_lease_id = pm_lease_id (row_values r), lp_lease_number = le_lease_number registered_lease,
      lp_payment_date = pm_payment_date (row_values r), lp_payment_amount = pm_payment_amount (row_values r),
      lp_payment_type = pm_payment_type (row_values r), lp_payment_sequence = pm_payment_sequence (row_values r),
      lp_source_lease_reference = pm_source_lease_reference (row_values r)\<rparr>"

definition get_payment :: "sha \<Rightarrow> (rat \<Rightarrow> string) \<Rightarrow> uuid \<Rightarrow> uuid \<Rightarrow> string \<Rightarrow> payment_item \<Rightarrow> lease_db
    \<Rightarrow> (lease_payment row \<times> lease_db) result" where
  "get_payment sha dec_str tenant_id user_id correlation_id =
     get_or_create (find_payment tenant_id correlation_id) (create_payment sha dec_str tenant_id user_id correlation_id) payment_key"

definition register_payments_of :: "sha \<Rightarrow> (rat \<Rightarrow> string) \<Rightarrow> uuid \<Rightarrow> uuid \<Rightarrow> string \<Rightarrow> registered_lease list \<Rightarrow> lease_input
    \<Rightarrow> lease_db \<Rightarrow> (registered_lease_payment list \<times> lease_db) result" where
  "register_payments_of sha dec_str tenant_id user_id correlation_id registered_leases l db =
     (case dict_by le_lease_number registered_leases (lin_lease_number l) of
        None \<Rightarrow> Inl (ValidationError ''Lease was not registered before payment tracking'')
      | Some registered_lease \<Rightarrow>
          bindE (get_all (get_payment sha dec_str tenant_id user_id correlation_id)
                   (map (\<lambda>p. (registered_lease, lin_source_lease_reference l, p))
                     (sort_key (\<lambda>item. (pi_payment_sequence item, pi_payment_date item)) (lin_payments l))) db) (\<lambda>(rows, db).
          Inr (map (registered_payment_of_row registered_lease) rows, db)))"

definition register_lease_payments :: "sha \<Rightarrow> (rat \<Rightarrow> string) \<Rightarrow> uuid \<Rightarrow> uuid \<Rightarrow> string \<Rightarrow> lease_input list
    \<Rightarrow> registered_lease list \<Rightarrow> lease_db \<Rightarrow> (registered_lease_payment list \<times> lease_db) result" where
  "register_lease_payments sha dec_str tenant_id user_id correlation_id leases registered_leases db =
     bindE (get_all (register_payments_of sha dec_str tenant_id user_id correlation_id registered_leases)
              (sort_key lin_lease_number leases) db) (\<lambda>(payments, db).
     Inr (sort_key (\<lambda>item. (lp_lease_number item, lp_payment_sequence item, lp_payment_date item)) (concat payments), db))"

definition register_lease_request :: "sha \<Rightarrow> string list option \<Rightarrow> (rat \<Rightarrow> string) \<Rightarrow> uuid \<Rightarrow> uuid \<Rightarrow> string \<Rightarrow> lease_input list
    \<Rightarrow> lease_db \<Rightarrow> ((registered_lease list \<times> registered_lease_payment list) \<times> lease_db) result" where
  "register_lease_request sha babel dec_str tenant_id user_id correlation_id inputs db =
     bindE (register_leases sha babel tenant_id user_id correlation_id inputs db) (\<lambda>(leases, db).
     bindE (register_lease_payments sha dec_str tenant_id user_id correlation_id inputs leases db) (\<lambda>(payments, db).
     Inr ((leases, payments), db)))"

section \<open>The tables promise what a keyed store needs\<close>

definition lease_tables_ok :: "lease_db \<Rightarrow> bool" where
  "lease_tables_ok db \<longleftrightarrow> rows_before (env_now (ld_env db)) (ld_leases db) \<and> rows_before (env_now (ld_env db)) (ld_payments db)
     \<and> distinct (map row_id (ld_leases db)) \<and> (\<forall>r \<in> set (ld_leases db). row_id r < env_next_id (ld_env db))
     \<and> (\<forall>r \<in> set (ld_payments db). stored_amount (pm_payment_amount (row_values r)))"

definition keeps_leases :: "lease_db \<Rightarrow> lease_db \<Rightarrow> bool" where
  "keeps_leases db later \<longleftrightarrow>
     (\<forall>tenant_id correlation_id k x. find_lease tenant_id correlation_id k db = Some x \<longrightarrow> find_lease tenant_id correlation_id k later = Some x)
   \<and> (\<forall>tenant_id correlation_id k x. find_payment tenant_id correlation_id k db = Some x \<longrightarrow> find_payment tenant_id correlation_id k later = Some x)"

lemma create_lease_cases:
  assumes "create_lease sha babel tenant_id user_id correlation_id l db = Inr (r, db')"
  shows "ld_leases db' = ld_leases db @ [r]" "ld_payments db' = ld_payments db"
    "env_now (ld_env db) < env_now (ld_env db')" "env_next_id (ld_env db) < env_next_id (ld_env db')"
    "row_id r = env_next_id (ld_env db)" "row_created_at r = env_now (ld_env db)" "row_tenant r = tenant_id"
    "ls_correlation_id (row_values r) = correlation_id"
    "(ls_lease_number (row_values r), ls_source_lease_reference (row_values r), ls_policy_version (row_values r)) = lease_fingerprint l"
  using assms by (auto simp: create_lease_def result_simps lease_fingerprint_def Let_def insert_financial_record_facts)

lemma create_payment_cases:
  assumes "create_payment sha dec_str tenant_id user_id correlation_id i db = Inr (r, db')"
  shows "ld_payments db' = ld_payments db @ [r]" "ld_leases db' = ld_leases db"
    "env_now (ld_env db) < env_now (ld_env db')" "env_next_id (ld_env db) < env_next_id (ld_env db')"
    "row_created_at r = env_now (ld_env db)" "row_tenant r = tenant_id"
    "pm_correlation_id (row_values r) = correlation_id"
    "(pm_lease_id (row_values r), pm_payment_sequence (row_values r)) = payment_key i"
    "stored_amount (pm_payment_amount (row_values r))"
  using assms by (auto simp: create_payment_def result_simps payment_key_def Let_def insert_financial_record_facts numeric_stored
      split: prod.splits)

lemma create_lease_keeps:
  assumes "create_lease sha babel tenant_id user_id correlation_id i db = Inr (r, db')" and "lease_tables_ok db"
  shows "lease_tables_ok db'" and "keeps_leases db db'"
    and "find_lease tenant_id correlation_id (lease_fingerprint i) db = None \<Longrightarrow>
      find_lease tenant_id correlation_id (lease_fingerprint i) db' = Some r"
proof -
  note c = create_lease_cases [OF assms(1)]
  have b: "rows_before (row_created_at r) (ld_leases db)" using assms(2) c(6) by (simp add: lease_tables_ok_def)
  show "lease_tables_ok db'"
    using assms(2) c(1-6) by (auto simp: lease_tables_ok_def intro: rows_before_append rows_before_mono less_trans)
  show "keeps_leases db db'"
    by (simp add: keeps_leases_def find_lease_def find_payment_def c(1,2) earliest_row_append [OF b])
  show "find_lease tenant_id correlation_id (lease_fingerprint i) db' = Some r"
    if "find_lease tenant_id correlation_id (lease_fingerprint i) db = None"
    using that by (simp add: find_lease_def c(1,7-9) earliest_row_append [OF b])
qed

lemma create_payment_keeps:
  assumes "create_payment sha dec_str tenant_id user_id correlation_id i db = Inr (r, db')" and "lease_tables_ok db"
  shows "lease_tables_ok db'" and "keeps_leases db db'"
    and "find_payment tenant_id correlation_id (payment_key i) db = None \<Longrightarrow>
      find_payment tenant_id correlation_id (payment_key i) db' = Some r"
proof -
  note c = create_payment_cases [OF assms(1)]
  have b: "rows_before (row_created_at r) (ld_payments db)" using assms(2) c(5) by (simp add: lease_tables_ok_def)
  show "lease_tables_ok db'"
    using assms(2) c(1-5,9) by (auto simp: lease_tables_ok_def intro: rows_before_append rows_before_mono less_trans)
  show "keeps_leases db db'"
    by (simp add: keeps_leases_def find_lease_def find_payment_def c(1,2) earliest_row_append [OF b])
  show "find_payment tenant_id correlation_id (payment_key i) db' = Some r"
    if "find_payment tenant_id correlation_id (payment_key i) db = None"
    using that by (simp add: find_payment_def c(1,6-8) earliest_row_append [OF b])
qed

interpretation lease_tables: replay_store lease_tables_ok keeps_leases
  by unfold_locales (auto simp: keeps_leases_def)

interpretation leases: keyed_store lease_tables_ok keeps_leases
    "find_lease tenant_id correlation_id" "create_lease sha babel tenant_id user_id correlation_id" lease_fingerprint "\<lambda>_. True"
  for sha babel tenant_id user_id correlation_id
  by unfold_locales (auto dest: create_lease_keeps simp: keeps_leases_def)

interpretation payments: keyed_store lease_tables_ok keeps_leases
    "find_payment tenant_id correlation_id" "create_payment sha dec_str tenant_id user_id correlation_id" payment_key "\<lambda>_. True"
  for sha dec_str tenant_id user_id correlation_id
  by unfold_locales (auto dest: create_payment_keeps simp: keeps_leases_def)

section \<open>Registering twice\<close>

lemma replayable_register_lease_loop:
  "replayable lease_tables_ok keeps_leases
     (register_lease_loop (get_lease sha babel tenant_id user_id correlation_id) seen_fingerprints inputs)"
proof (induction inputs arbitrary: seen_fingerprints)
  case Nil
  have "register_lease_loop (get_lease sha babel tenant_id user_id correlation_id) seen_fingerprints [] = (\<lambda>db. Inr ([], db))"
    by (rule ext) simp
  then show ?case by (simp only: lease_tables.replayable_return)
next
  case (Cons l inputs)
  let ?get = "get_lease sha babel tenant_id user_id correlation_id"
  have eq: "register_lease_loop ?get seen_fingerprints (l # inputs) = (\<lambda>db.
     bindE (raise_if (lease_fingerprint l \<in> set seen_fingerprints)
             (ValidationError ''Duplicate lease fingerprint in request payload'')) (\<lambda>_.
     bindE (?get l db) (\<lambda>(r, db).
     bindE (register_lease_loop ?get (lease_fingerprint l # seen_fingerprints) inputs db) (\<lambda>(rs, db).
     Inr (r # rs, db)))))"
    by (rule ext) simp
  show ?case
    unfolding eq unfolding get_lease_def
    by (intro lease_tables.replayable_pure lease_tables.replayable_bind allI leases.replayable_get TrueI
        lease_tables.replayable_return Cons.IH [unfolded get_lease_def])
qed

lemma replayable_register_payments_of:
  "replayable lease_tables_ok keeps_leases (register_payments_of sha dec_str tenant_id user_id correlation_id registered_leases l)"
proof (cases "dict_by le_lease_number registered_leases (lin_lease_number l)")
  case None
  then show ?thesis by (simp add: register_payments_of_def [abs_def] lease_tables.replayable_raise)
next
  case (Some rl)
  show ?thesis unfolding register_payments_of_def Some option.case get_payment_def
    by (intro lease_tables.replayable_bind allI lease_tables.replayable_get_all ballI payments.replayable_get TrueI
        lease_tables.replayable_return)
qed

lemma replayable_lease_request:
  "replayable lease_tables_ok keeps_leases (register_lease_request sha babel dec_str tenant_id user_id correlation_id inputs)"
  unfolding register_lease_request_def register_leases_def register_lease_payments_def
  by (intro lease_tables.replayable_bind allI replayable_register_lease_loop lease_tables.replayable_get_all ballI
      replayable_register_payments_of lease_tables.replayable_return)

text \<open>Any registrations, of any tenants.\<close>

inductive lease_registrations :: "sha \<Rightarrow> string list option \<Rightarrow> (rat \<Rightarrow> string) \<Rightarrow> lease_db \<Rightarrow> lease_db \<Rightarrow> bool"
  for sha babel dec_str where
  none: "lease_registrations sha babel dec_str db db"
| register: "lease_registrations sha babel dec_str db db1
     \<Longrightarrow> register_lease_request sha babel dec_str tenant_id user_id correlation_id inputs db1 = Inr (x, db2)
     \<Longrightarrow> lease_registrations sha babel dec_str db db2"

lemma lease_registrations_keep:
  "lease_registrations sha babel dec_str db later \<Longrightarrow> lease_tables_ok db \<Longrightarrow> lease_tables_ok later \<and> keeps_leases db later"
proof (induction rule: lease_registrations.induct)
  case (register db db1 tenant_id user_id correlation_id inputs x db2)
  then show ?case
    using replayableD [OF replayable_lease_request _ register.hyps(2)] lease_tables.keeps_trans by blast
qed (simp add: lease_tables.keeps_refl)

text \<open>Registering the leases and payments of a request is idempotent.  A request that was
  registered once returns the same leases and payments when a later activity of the run
  registers it again, whatever other requests were registered in between, and writes nothing.\<close>

theorem lease_registration_replays:
  assumes "lease_tables_ok db"
    and "register_lease_request sha babel dec_str tenant_id user_id correlation_id inputs db = Inr (x, db')"
    and "lease_registrations sha babel dec_str db' later"
  shows "register_lease_request sha babel dec_str tenant_id user_id correlation_id inputs later = Inr (x, later)"
proof -
  note r = replayableD [OF replayable_lease_request assms(1,2)]
  show ?thesis using lease_registrations_keep [OF assms(3) r(1)] r(3) by blast
qed

definition ex_lease_input :: lease_input where
  "ex_lease_input = \<lparr>lin_lease_number = ''L-1'', lin_counterparty_id = ''C'', lin_lease_currency = ''EUR'',
     lin_commencement_date = Date 2024 1 1, lin_end_date = Date 2025 12 31, lin_payment_frequency = annual,
     lin_initial_discount_rate = 1 / 4, lin_discount_rate_source = ''ibr'', lin_discount_rate_reference_date = Date 2024 1 1,
     lin_discount_rate_policy_code = ''P'', lin_initial_measurement_basis = ''present_value'', lin_source_lease_reference = ''S'',
     lin_policy_code = ''P'', lin_policy_version = ''1'',
     lin_payments = [\<lparr>pi_payment_date = Date 2024 12 31, pi_payment_amount = 100, pi_payment_type = ''fixed'', pi_payment_sequence = 1\<rparr>],
     lin_modifications = [], lin_impairments = []\<rparr>"

definition ex_lease_db :: lease_db where
  "ex_lease_db = \<lparr>ld_leases = [], ld_payments = [], ld_liability = [], ld_rou = [], ld_modifications = [], ld_journals = [],
     ld_env = \<lparr>env_trail = [], env_now = 100, env_next_id = 17\<rparr>\<rparr>"

lemma ex_lease_created: "\<exists>r db'. create_lease sha None 7 8 ''corr'' ex_lease_input db = Inr (r, db')"
proof -
  have n: "normalize_currency_code None ''EUR'' = Inr ''EUR''" by code_simp
  have q: "quantize_rate (1 / 4) = Inr (1 / 4)" "numeric_20_6 (1 / 4) = Inr (1 / 4)"
    by (simp_all add: quantize_rate_eq quantize_id numeric_id money_def micro_def)
  show ?thesis by (simp add: create_lease_def ex_lease_input_def n q Let_def insert_then_total)
qed

lemma register_one_payment:
  assumes "lin_payments l = [p]" "le_lease_number rl = lin_lease_number l"
    and "get_payment sha dec_str tenant_id user_id correlation_id (rl, lin_source_lease_reference l, p) db = Inr (row, db')"
  shows "register_payments_of sha dec_str tenant_id user_id correlation_id [rl] l db
    = Inr ([registered_payment_of_row rl row], db')"
  using assms by (simp add: register_payments_of_def dict_by_def)

lemma ex_lease_registers:
  "\<exists>x db'. register_lease_request sha None dec_str 7 8 ''corr'' [ex_lease_input] ex_lease_db = Inr (x, db')"
proof -
  have q: "quantize_persisted_amount 100 = Inr 100" "numeric_20_6 100 = Inr 100"
    by (simp_all add: quantize_rate_eq quantize_id numeric_id money_def micro_def)
  obtain r db1 where c: "create_lease sha None 7 8 ''corr'' ex_lease_input ex_lease_db = Inr (r, db1)"
    using ex_lease_created by blast
  have g: "get_lease sha None 7 8 ''corr'' ex_lease_input ex_lease_db = Inr (r, db1)"
    using c by (simp add: get_lease_def get_or_create_def find_lease_def ex_lease_db_def earliest_row_def)
  have none: "ld_payments db1 = []" using create_lease_cases(2) [OF c] by (simp add: ex_lease_db_def)
  let ?rl = "registered_lease_of_row r"
  have number: "le_lease_number ?rl = lin_lease_number ex_lease_input"
    using create_lease_cases(9) [OF c] by (simp add: registered_lease_of_row_def lease_fingerprint_def)
  obtain pm where pm: "lin_payments ex_lease_input = [pm]" "pi_payment_amount pm = 100"
    by (simp add: ex_lease_input_def)
  have "\<exists>p db2. get_payment sha dec_str 7 8 ''corr'' (?rl, lin_source_lease_reference ex_lease_input, pm) db1 = Inr (p, db2)"
    by (simp add: get_payment_def get_or_create_def find_payment_def none earliest_row_def
        create_payment_def payment_conflict_def q pm(2) Let_def insert_then_total)
  then obtain p db2 where
    "get_payment sha dec_str 7 8 ''corr'' (?rl, lin_source_lease_reference ex_lease_input, pm) db1 = Inr (p, db2)" by blast
  from register_one_payment [OF pm(1) number this] show ?thesis
    using g by (simp add: register_lease_request_def register_leases_def register_lease_payments_def)
qed

lemma lease_registration_replays_witness:
  "\<exists>x db'. register_lease_request (\<lambda>s. s) None (\<lambda>_. ''0'') 7 8 ''corr'' [ex_lease_input] ex_lease_db = Inr (x, db')
     \<and> register_lease_request (\<lambda>s. s) None (\<lambda>_. ''0'') 7 8 ''corr'' [ex_lease_input] db' = Inr (x, db')"
proof -
  obtain x db' where r: "register_lease_request (\<lambda>s. s) None (\<lambda>_. ''0'') 7 8 ''corr'' [ex_lease_input] ex_lease_db = Inr (x, db')"
    using ex_lease_registers by blast
  have "lease_tables_ok ex_lease_db" by (simp add: lease_tables_ok_def ex_lease_db_def rows_before_def)
  from lease_registration_replays [OF this r lease_registrations.none] show ?thesis using r by blast
qed

end
