(* ===== verification/Lease_Remeasurement.thy ===== *)
theory Lease_Remeasurement
  imports Lease_Registry
begin

text \<open>
  \<open>services/lease/remeasurement.py\<close>: the modifications of a lease are applied to a run.  Each
  becomes a modification row that supersedes the previous one and links two schedule versions;
  a modification of the discount rate or the end date also inserts a lease row that supersedes
  the current one.  The lemmas show that the modifications of a lease are all accepted and
  chain its versions, as long as the lease rows of its number and reference form one chain.
\<close>

section \<open>Payloads, keys, chains\<close>

record persisted_lease_modification =
  pl_modification_id :: uuid
  pl_lease_id :: uuid
  pl_effective_date :: date
  pl_modification_type :: string
  pl_idempotency_key :: string
  pl_prior_schedule_version_token :: string
  pl_new_schedule_version_token :: string
  pl_remeasurement_delta :: rat

record lease_remeasurement_result =
  lz_modification_count :: nat
  lz_modifications_by_lease :: "(uuid \<times> persisted_lease_modification list) list"

definition rate_text :: "rat option \<Rightarrow> string option result" where
  "rate_text value =
     (case value of None \<Rightarrow> Inr None
      | Some v \<Rightarrow> bindE (quantize_rate v) (\<lambda>q. Inr (Some (amount_text q))))"

definition lease_modification_payload :: "lease_modification_input \<Rightarrow> json result" where
  "lease_modification_payload modification =
     bindE (rate_text (lx_new_discount_rate modification)) (\<lambda>rate.
     bindE (decimal_text (lx_remeasurement_delta modification)) (\<lambda>delta.
     Inr (JDict [(''effective_date'', JStr (date_text (lx_effective_date modification))),
                 (''modification_type'', JStr (lx_modification_type modification)),
                 (''modification_reason'', JStr (lx_modification_reason modification)),
                 (''new_discount_rate'', json_opt rate),
                 (''new_end_date'', json_opt (map_option date_text (lx_new_end_date modification))),
                 (''remeasurement_delta_reporting_currency'', json_opt delta)])))"

definition lease_idempotency_key :: "sha \<Rightarrow> uuid \<Rightarrow> lease_modification_input \<Rightarrow> string result" where
  "lease_idempotency_key sha lease_id modification =
     bindE (lease_modification_payload modification) (\<lambda>payload.
     Inr (sha (canonical_json_dumps (JDict [(''lease_id'', JStr (uuid_text lease_id)), (''modification'', payload)]))))"

definition lease_node :: "lease row \<Rightarrow> supersession_node" where
  "lease_node r = \<lparr>sn_id = row_id r, sn_tenant_id = row_tenant r, sn_created_at = int (row_created_at r),
     sn_supersedes_id = ls_supersedes_id (row_values r)\<rparr>"

definition modification_node :: "lease_modification row \<Rightarrow> supersession_node" where
  "modification_node r = \<lparr>sn_id = row_id r, sn_tenant_id = row_tenant r, sn_created_at = int (row_created_at r),
     sn_supersedes_id = lmo_supersedes_id (row_values r)\<rparr>"

definition lease_chain_rows :: "uuid \<Rightarrow> string \<Rightarrow> string \<Rightarrow> lease_db \<Rightarrow> lease row list" where
  "lease_chain_rows tenant_id lease_number source_lease_reference db =
     filter (\<lambda>r. row_tenant r = tenant_id \<and> ls_lease_number (row_values r) = lease_number
       \<and> ls_source_lease_reference (row_values r) = source_lease_reference) (ld_leases db)"

definition load_lease_chain :: "uuid \<Rightarrow> string \<Rightarrow> string \<Rightarrow> lease_db \<Rightarrow> supersession_node list" where
  "load_lease_chain tenant_id lease_number source_lease_reference db =
     map lease_node (sort_key (\<lambda>r. (row_created_at r, row_id r))
       (lease_chain_rows tenant_id lease_number source_lease_reference db))"

definition modifications_of :: "uuid \<Rightarrow> uuid \<Rightarrow> uuid \<Rightarrow> lease_db \<Rightarrow> lease_modification row list" where
  "modifications_of tenant_id run_id lease_id db =
     filter (\<lambda>r. row_tenant r = tenant_id \<and> lmo_run_id (row_values r) = run_id
       \<and> lmo_lease_id (row_values r) = lease_id) (ld_modifications db)"

definition modification_order :: "lease_modification row \<Rightarrow> date \<times> nat \<times> uuid" where
  "modification_order r = (lmo_effective_date (row_values r), row_created_at r, row_id r)"

definition resolve_latest_token_for_lease :: "uuid \<Rightarrow> uuid \<Rightarrow> uuid \<Rightarrow> string \<Rightarrow> lease_db \<Rightarrow> string" where
  "resolve_latest_token_for_lease tenant_id run_id lease_id root_schedule_version_token db =
     (case latest_by modification_order (modifications_of tenant_id run_id lease_id db) of
        None \<Rightarrow> root_schedule_version_token
      | Some latest \<Rightarrow> lmo_new_schedule_version_token (row_values latest))"

definition find_modification :: "uuid \<Rightarrow> uuid \<Rightarrow> uuid \<Rightarrow> lease_modification_input \<Rightarrow> string \<Rightarrow> lease_db
    \<Rightarrow> lease_modification row option result" where
  "find_modification tenant_id run_id lease_id modification idempotency_key db =
     one_or_none (filter (\<lambda>r. lmo_effective_date (row_values r) = lx_effective_date modification
         \<and> lmo_modification_type (row_values r) = lx_modification_type modification
         \<and> lmo_idempotency_key (row_values r) = idempotency_key) (modifications_of tenant_id run_id lease_id db))"

definition liability_until :: "uuid \<Rightarrow> uuid \<Rightarrow> uuid \<Rightarrow> string \<Rightarrow> date \<Rightarrow> lease_db \<Rightarrow> lease_liability_schedule row list" where
  "liability_until tenant_id run_id lease_id token effective_date db =
     filter (\<lambda>r. row_tenant r = tenant_id \<and> ll_run_id (row_values r) = run_id
       \<and> lr_lease_id (ll_row (row_values r)) = lease_id
       \<and> lr_schedule_version_token (ll_row (row_values r)) = token
       \<and> lr_schedule_date (ll_row (row_values r)) \<le> effective_date) (ld_liability db)"

definition persisted_of_modification :: "uuid \<Rightarrow> lease_modification row \<Rightarrow> persisted_lease_modification" where
  "persisted_of_modification schedule_lease_id r =
     \<lparr>pl_modification_id = row_id r, pl_lease_id = schedule_lease_id,
      pl_effective_date = lmo_effective_date (row_values r), pl_modification_type = lmo_modification_type (row_values r),
      pl_idempotency_key = lmo_idempotency_key (row_values r),
      pl_prior_schedule_version_token = lmo_prior_schedule_version_token (row_values r),
      pl_new_schedule_version_token = lmo_new_schedule_version_token (row_values r),
      pl_remeasurement_delta = lmo_remeasurement_delta (row_values r)\<rparr>"

section \<open>Inserts\<close>

definition insert_superseding_lease :: "sha \<Rightarrow> (rat \<Rightarrow> string) \<Rightarrow> uuid \<Rightarrow> uuid \<Rightarrow> string \<Rightarrow> lease row \<Rightarrow> rat \<Rightarrow> date
    \<Rightarrow> lease_db \<Rightarrow> (lease row \<times> lease_db) result" where
  "insert_superseding_lease sha dec_str tenant_id user_id correlation_id current_lease target_discount_rate target_end_date db =
     bindE (numeric_20_6 target_discount_rate) (\<lambda>stored_rate.
     let c = row_values current_lease;
         (r, rows, env) = insert_financial_record sha (\<lambda>v. v) tenant_id
           (str_dict [(''lease_number'', ls_lease_number c), (''source_lease_reference'', ls_source_lease_reference c),
                      (''initial_discount_rate'', dec_str target_discount_rate)])
           (c\<lparr>ls_end_date := target_end_date, ls_initial_discount_rate := stored_rate,
              ls_correlation_id := correlation_id, ls_supersedes_id := Some (row_id current_lease)\<rparr>)
           (Some (lease_event tenant_id user_id ''lease.contract.superseded'' ''lease''
             [(''lease_number'', JStr (ls_lease_number c)), (''supersedes_id'', JStr (uuid_text (row_id current_lease))),
              (''correlation_id'', JStr correlation_id)]))
           (ld_leases db, ld_env db)
     in Inr (r, db\<lparr>ld_leases := rows, ld_env := env\<rparr>))"

text \<open>The unique constraint \<open>uq_lease_modifications_idempotent\<close>.\<close>

definition modification_conflict :: "lease_modification \<Rightarrow> lease_db \<Rightarrow> bool" where
  "modification_conflict a db \<longleftrightarrow> list_ex (\<lambda>r. lmo_run_id (row_values r) = lmo_run_id a
     \<and> lmo_lease_id (row_values r) = lmo_lease_id a \<and> lmo_effective_date (row_values r) = lmo_effective_date a
     \<and> lmo_modification_type (row_values r) = lmo_modification_type a
     \<and> lmo_idempotency_key (row_values r) = lmo_idempotency_key a) (ld_modifications db)"

definition insert_modification :: "sha \<Rightarrow> uuid \<Rightarrow> uuid \<Rightarrow> lease_modification \<Rightarrow> lease_db
    \<Rightarrow> (lease_modification row \<times> lease_db) result" where
  "insert_modification sha tenant_id user_id a db =
     bindE (numeric_20_6 (lmo_remeasurement_delta a)) (\<lambda>stored_delta.
     bindE (raise_if (modification_conflict a db) IntegrityError) (\<lambda>_.
     let (r, rows, env) = insert_financial_record sha (\<lambda>v. v) tenant_id
           (str_dict [(''run_id'', uuid_text (lmo_run_id a)), (''lease_id'', uuid_text (lmo_lease_id a)),
                      (''effective_date'', date_text (lmo_effective_date a)),
                      (''modification_type'', lmo_modification_type a), (''idempotency_key'', lmo_idempotency_key a)])
           (a\<lparr>lmo_remeasurement_delta := stored_delta\<rparr>)
           (Some (lease_event tenant_id user_id ''lease.modification.created'' ''lease_modification''
             [(''lease_id'', JStr (uuid_text (lmo_lease_id a))), (''effective_date'', JStr (date_text (lmo_effective_date a))),
              (''modification_type'', JStr (lmo_modification_type a)), (''idempotency_key'', JStr (lmo_idempotency_key a)),
              (''correlation_id'', JStr (lmo_correlation_id a))]))
           (ld_modifications db, ld_env db)
     in Inr (r, db\<lparr>ld_modifications := rows, ld_env := env\<rparr>)))"

section \<open>Applying modifications\<close>

record lease_remeasure_state =
  lm_current_lease :: "lease row"
  lm_prior_token :: string
  lm_chain_nodes :: "supersession_node list"
  lm_chain_modifications :: "lease_modification row list"
  lm_persisted :: "persisted_lease_modification list"
  lm_created :: nat
  lm_db :: lease_db

definition last_modification_id :: "lease_remeasure_state \<Rightarrow> uuid option" where
  "last_modification_id s =
     (if lm_chain_modifications s = [] then None else Some (row_id (last (lm_chain_modifications s))))"

text \<open>The terms a modification asks for, from the current lease where it names none.\<close>

definition target_terms :: "lease_modification_input \<Rightarrow> lease \<Rightarrow> (rat \<times> date) result" where
  "target_terms modification c =
     bindE (case lx_new_discount_rate modification of None \<Rightarrow> Inr (ls_initial_discount_rate c) | Some v \<Rightarrow> quantize_rate v)
       (\<lambda>target_discount_rate.
     Inr (target_discount_rate, case lx_new_end_date modification of None \<Rightarrow> ls_end_date c | Some d \<Rightarrow> d))"

definition change_terms :: "sha \<Rightarrow> (rat \<Rightarrow> string) \<Rightarrow> remeasure_args \<Rightarrow> lease_modification_input \<Rightarrow> lease_remeasure_state
    \<Rightarrow> lease_remeasure_state result" where
  "change_terms sha dec_str g modification s =
     (let current = lm_current_lease s; c = row_values current in
      bindE (target_terms modification c) (\<lambda>(target_discount_rate, target_end_date).
      if target_discount_rate = ls_initial_discount_rate c \<and> target_end_date = ls_end_date c then Inr s
      else
        bindE (ensure_append_targets_terminal
                (load_lease_chain (rm_tenant_id g) (ls_lease_number c) (ls_source_lease_reference c) (lm_db s))
                (rm_tenant_id g) (Some (row_id current))) (\<lambda>_.
        bindE (case latest_by row_created_at (filter (\<lambda>r. row_tenant r = rm_tenant_id g
                   \<and> ls_supersedes_id (row_values r) = Some (row_id current)
                   \<and> ls_initial_discount_rate (row_values r) = target_discount_rate
                   \<and> ls_end_date (row_values r) = target_end_date
                   \<and> ls_correlation_id (row_values r) = rm_correlation_id g) (ld_leases (lm_db s))) of
                 Some r \<Rightarrow> Inr (r, lm_db s)
               | None \<Rightarrow> insert_superseding_lease sha dec_str (rm_tenant_id g) (rm_user_id g) (rm_correlation_id g)
                   current target_discount_rate target_end_date (lm_db s)) (\<lambda>(updated_lease, db).
        Inr (s\<lparr>lm_current_lease := updated_lease, lm_db := db\<rparr>)))))"

definition modification_values :: "remeasure_args \<Rightarrow> uuid \<Rightarrow> lease_modification_input \<Rightarrow> string \<Rightarrow> string \<Rightarrow> string
    \<Rightarrow> uuid option \<Rightarrow> lease_liability_schedule row option \<Rightarrow> rat \<Rightarrow> string \<Rightarrow> lease_modification" where
  "modification_values g schedule_lease_id modification idempotency_key prior_token new_token supersedes_id
      prior_liability_row delta source_lease_reference =
     \<lparr>lmo_run_id = rm_run_id g, lmo_lease_id = schedule_lease_id,
      lmo_effective_date = lx_effective_date modification, lmo_modification_type = lx_modification_type modification,
      lmo_modification_reason = lx_modification_reason modification, lmo_idempotency_key = idempotency_key,
      lmo_prior_schedule_version_token = prior_token, lmo_new_schedule_version_token = new_token,
      lmo_prior_schedule_reference = map_option (\<lambda>r. uuid_text (row_id r)) prior_liability_row,
      lmo_new_schedule_reference = ''forward_regenerated:'' @ uuid_text schedule_lease_id @ '':''
        @ date_text (lx_effective_date modification),
      lmo_remeasurement_delta = delta, lmo_source_lease_reference = source_lease_reference,
      lmo_parent_reference_id = schedule_lease_id,
      lmo_source_reference_id = (case prior_liability_row of Some r \<Rightarrow> row_id r | None \<Rightarrow> schedule_lease_id),
      lmo_correlation_id = rm_correlation_id g, lmo_supersedes_id = supersedes_id\<rparr>"

definition replay_modification :: "sha \<Rightarrow> remeasure_args \<Rightarrow> uuid \<Rightarrow> json \<Rightarrow> lease_modification row \<Rightarrow> lease_remeasure_state
    \<Rightarrow> lease_remeasure_state result" where
  "replay_modification sha g schedule_lease_id payload existing s =
     bindE (raise_if (lmo_new_schedule_version_token (row_values existing) \<noteq>
              build_lease_version_token sha schedule_lease_id payload (rm_reporting_currency g) (rm_rate_mode g)
                (lmo_prior_schedule_version_token (row_values existing)))
             (AccountingValidationError ''DUPLICATE_IDEMPOTENT_REQUEST'' ''Lease modification idempotency conflict'')) (\<lambda>_.
     Inr (s\<lparr>lm_persisted := lm_persisted s @ [persisted_of_modification schedule_lease_id existing],
            lm_prior_token := lmo_new_schedule_version_token (row_values existing)\<rparr>))"

definition create_modification :: "sha \<Rightarrow> (rat \<Rightarrow> string) \<Rightarrow> remeasure_args \<Rightarrow> uuid \<Rightarrow> string \<Rightarrow> lease_modification_input
    \<Rightarrow> string \<Rightarrow> json \<Rightarrow> lease_remeasure_state \<Rightarrow> lease_remeasure_state result" where
  "create_modification sha dec_str g schedule_lease_id root_token modification idempotency_key payload s =
     (let prior_token = (if lm_prior_token s = root_token \<and> lm_chain_modifications s \<noteq> []
            then lmo_new_schedule_version_token (row_values (last (lm_chain_modifications s))) else lm_prior_token s);
          new_token = build_lease_version_token sha schedule_lease_id payload (rm_reporting_currency g)
            (rm_rate_mode g) prior_token;
          supersedes_id = last_modification_id s in
      bindE (change_terms sha dec_str g modification s) (\<lambda>s.
      let prior_liability_row = latest_by (\<lambda>r. (lr_schedule_date (ll_row (row_values r)), row_created_at r))
            (liability_until (rm_tenant_id g) (rm_run_id g) schedule_lease_id prior_token
              (lx_effective_date modification) (lm_db s)) in
      bindE (quantize_persisted_amount (case lx_remeasurement_delta modification of None \<Rightarrow> 0 | Some x \<Rightarrow> x)) (\<lambda>delta.
      bindE (insert_modification sha (rm_tenant_id g) (rm_user_id g)
              (modification_values g schedule_lease_id modification idempotency_key prior_token new_token supersedes_id
                prior_liability_row delta (ls_source_lease_reference (row_values (lm_current_lease s))))
              (lm_db s)) (\<lambda>(created, db).
      Inr (s\<lparr>lm_created := lm_created s + 1, lm_chain_modifications := lm_chain_modifications s @ [created],
             lm_chain_nodes := lm_chain_nodes s @ [modification_node created],
             lm_persisted := lm_persisted s @ [persisted_of_modification schedule_lease_id created],
             lm_prior_token := lmo_new_schedule_version_token (row_values created), lm_db := db\<rparr>)))))"

definition apply_lease_modification :: "sha \<Rightarrow> (rat \<Rightarrow> string) \<Rightarrow> remeasure_args \<Rightarrow> uuid \<Rightarrow> string \<Rightarrow> lease_remeasure_state
    \<Rightarrow> lease_modification_input \<Rightarrow> lease_remeasure_state result" where
  "apply_lease_modification sha dec_str g schedule_lease_id root_token s modification =
     bindE (ensure_append_targets_terminal (lm_chain_nodes s) (rm_tenant_id g) (last_modification_id s)) (\<lambda>_.
     bindE (lease_idempotency_key sha schedule_lease_id modification) (\<lambda>idempotency_key.
     bindE (lease_modification_payload modification) (\<lambda>payload.
     bindE (find_modification (rm_tenant_id g) (rm_run_id g) schedule_lease_id modification idempotency_key (lm_db s))
       (\<lambda>existing_modification.
     case existing_modification of
       Some existing \<Rightarrow> replay_modification sha g schedule_lease_id payload existing s
     | None \<Rightarrow> create_modification sha dec_str g schedule_lease_id root_token modification idempotency_key payload s))))"

definition sort_lease_modifications :: "lease_modification_input list \<Rightarrow> lease_modification_input list" where
  "sort_lease_modifications = sort_key (\<lambda>item. (lx_effective_date item, lx_modification_type item,
     lx_modification_reason item, case lx_new_end_date item of None \<Rightarrow> [] | Some d \<Rightarrow> date_text d))"

type_synonym lease_remeasure_loop =
  "(string \<Rightarrow> lease row option) \<times> nat \<times> (uuid \<times> persisted_lease_modification list) list \<times> lease_db"

definition apply_lease :: "sha \<Rightarrow> (rat \<Rightarrow> string) \<Rightarrow> remeasure_args \<Rightarrow> (uuid \<times> string) list \<Rightarrow> lease_remeasure_loop
    \<Rightarrow> lease_input \<Rightarrow> lease_remeasure_loop result" where
  "apply_lease sha dec_str g root_tokens = (\<lambda>(lease_state, created, by_lease, db) lease_input.
     case lease_state (lin_lease_number lease_input) of
       None \<Rightarrow> Inl KeyError
     | Some current_lease \<Rightarrow>
         (let schedule_lease_id = row_id current_lease in
          case map_of root_tokens schedule_lease_id of
            None \<Rightarrow> Inl (chain_broken ''Missing root lease schedule version token'')
          | Some root_token \<Rightarrow>
              (let existing = sort_key (\<lambda>r. (row_created_at r, row_id r))
                     (modifications_of (rm_tenant_id g) (rm_run_id g) schedule_lease_id db);
                   chain_nodes = map modification_node existing in
               bindE (validate_linear_chain chain_nodes (rm_tenant_id g)) (\<lambda>_.
               bindE (foldE (apply_lease_modification sha dec_str g schedule_lease_id root_token)
                       \<lparr>lm_current_lease = current_lease, lm_prior_token = root_token, lm_chain_nodes = chain_nodes,
                        lm_chain_modifications = existing, lm_persisted = [], lm_created = created, lm_db = db\<rparr>
                       (sort_lease_modifications (lin_modifications lease_input))) (\<lambda>s.
               Inr (lease_state(lin_lease_number lease_input \<mapsto> lm_current_lease s), lm_created s,
                    (if lm_persisted s = [] then by_lease
                     else AList.update schedule_lease_id (lm_persisted s) by_lease), lm_db s))))))"

definition load_lease_state :: "uuid \<Rightarrow> lease_db \<Rightarrow> registered_lease list \<Rightarrow> (string \<Rightarrow> lease row option) result" where
  "load_lease_state tenant_id db =
     foldE (\<lambda>lease_state lease.
       case find (\<lambda>r. row_tenant r = tenant_id \<and> row_id r = le_lease_id lease) (ld_leases db) of
         None \<Rightarrow> Inl NoResultFound
       | Some model \<Rightarrow> Inr (lease_state(le_lease_number lease \<mapsto> model))) (\<lambda>_. None)"

definition apply_lease_modifications :: "sha \<Rightarrow> (rat \<Rightarrow> string) \<Rightarrow> remeasure_args \<Rightarrow> lease_input list
    \<Rightarrow> registered_lease list \<Rightarrow> (uuid \<times> string) list \<Rightarrow> lease_db \<Rightarrow> (lease_remeasurement_result \<times> lease_db) result" where
  "apply_lease_modifications sha dec_str g leases registered_leases root_schedule_version_tokens db =
     bindE (load_lease_state (rm_tenant_id g) db registered_leases) (\<lambda>lease_state.
     bindE (foldE (apply_lease sha dec_str g root_schedule_version_tokens) (lease_state, 0, [], db)
             (sort_key lin_lease_number leases)) (\<lambda>(_, created, by_lease, db).
     Inr (\<lparr>lz_modification_count = created, lz_modifications_by_lease = by_lease\<rparr>, db)))"

section \<open>What the inserts change\<close>

lemma insert_modification_cases:
  assumes "insert_modification sha tenant_id user_id a db = Inr (r, db')"
  shows "ld_modifications db' = ld_modifications db @ [r]" "ld_leases db' = ld_leases db" "ld_liability db' = ld_liability db"
    "env_now (ld_env db) < env_now (ld_env db')" "env_next_id (ld_env db) < env_next_id (ld_env db')"
    "row_id r = env_next_id (ld_env db)" "row_created_at r = env_now (ld_env db)" "row_tenant r = tenant_id"
    "\<exists>x. numeric_20_6 (lmo_remeasurement_delta a) = Inr x \<and> row_values r = a\<lparr>lmo_remeasurement_delta := x\<rparr>"
  using assms by (auto simp: insert_modification_def result_simps insert_financial_record_facts)

lemma insert_superseding_lease_cases:
  assumes "insert_superseding_lease sha dec_str tenant_id user_id correlation_id current rate end_date db = Inr (r, db')"
  shows "ld_leases db' = ld_leases db @ [r]" "ld_modifications db' = ld_modifications db" "ld_liability db' = ld_liability db"
    "env_now (ld_env db) < env_now (ld_env db')" "env_next_id (ld_env db) < env_next_id (ld_env db')"
    "row_id r = env_next_id (ld_env db)" "row_created_at r = env_now (ld_env db)" "row_tenant r = tenant_id"
    "\<exists>x. numeric_20_6 rate = Inr x \<and> row_values r = (row_values current)\<lparr>ls_end_date := end_date, ls_initial_discount_rate := x,
       ls_correlation_id := correlation_id, ls_supersedes_id := Some (row_id current)\<rparr>"
  using assms by (auto simp: insert_superseding_lease_def Let_def result_simps insert_financial_record_facts)

lemma insert_superseding_lease_total:
  "stored_amount rate \<Longrightarrow> \<exists>r db'. insert_superseding_lease sha dec_str tenant_id user_id correlation_id current rate end_date db = Inr (r, db')"
  by (simp add: insert_superseding_lease_def stored_amount_def Let_def insert_then_total)

lemma insert_modification_total:
  "stored_amount (lmo_remeasurement_delta a) \<Longrightarrow> \<not> modification_conflict a db
     \<Longrightarrow> \<exists>r db'. insert_modification sha tenant_id user_id a db = Inr (r, db')"
  by (simp add: insert_modification_def stored_amount_def Let_def insert_then_total)

section \<open>Two roots\<close>

lemma two_roots_rejected:
  assumes "a \<in> set nodes" "b \<in> set nodes" "sn_id a \<noteq> sn_id b" "sn_supersedes_id a = None" "sn_supersedes_id b = None"
  shows "\<exists>msg. validate_linear_chain nodes tenant_id = Inl (chain_broken msg)"
proof -
  let ?o = "sort_key (\<lambda>row. (sn_created_at row, sn_id row)) nodes"
  have ne: "nodes \<noteq> []" using assms(1) by auto
  show ?thesis
  proof (cases "foldE (count_row ?o) (0, \<lambda>_. 0) ?o")
    case (Inl e)
    with count_rows_error [OF Inl] ne show ?thesis
      by (auto simp: validate_linear_chain_def Let_def raise_if_def)
  next
    case (Inr acc)
    obtain roots cc where acc: "acc = (roots, cc)" by (cases acc)
    have "roots = length (filter (\<lambda>r. sn_supersedes_id r = None) ?o)"
      using count_rows [OF Inr [unfolded acc]] by simp
    also have "\<dots> = length (filter (\<lambda>r. sn_supersedes_id r = None) nodes)"
      by (simp only: filter_sort length_sort)
    finally have roots: "roots = length (filter (\<lambda>r. sn_supersedes_id r = None) nodes)" .
    have "{a, b} \<subseteq> set (filter (\<lambda>r. sn_supersedes_id r = None) nodes)" using assms by simp
    then have "card {a, b} \<le> card (set (filter (\<lambda>r. sn_supersedes_id r = None) nodes))"
      by (rule card_mono [OF finite_set])
    also have "\<dots> \<le> roots" unfolding roots by (rule card_length)
    finally have "card {a, b} \<le> roots" .
    moreover have "a \<noteq> b" using assms(3) by blast
    ultimately have "roots \<noteq> 1" by simp
    then show ?thesis
      using Inr ne by (simp add: validate_linear_chain_def Let_def acc raise_if_def)
  qed
qed

lemma load_lease_chain_set: "set (load_lease_chain tenant_id number ref db) = lease_node ` set (lease_chain_rows tenant_id number ref db)"
  by (simp add: load_lease_chain_def)

text \<open>A lease number that was registered in two runs.\<close>

definition two_roots :: "uuid \<Rightarrow> string \<Rightarrow> string \<Rightarrow> lease_db \<Rightarrow> bool" where
  "two_roots tenant_id lease_number source_lease_reference db \<longleftrightarrow>
     (\<exists>a b. a \<in> set (lease_chain_rows tenant_id lease_number source_lease_reference db)
        \<and> b \<in> set (lease_chain_rows tenant_id lease_number source_lease_reference db)
        \<and> row_id a \<noteq> row_id b \<and> ls_supersedes_id (row_values a) = None \<and> ls_supersedes_id (row_values b) = None)"

lemma change_terms_two_roots:
  assumes "two_roots (rm_tenant_id g) (ls_lease_number c) (ls_source_lease_reference c) (lm_db s)"
    and "c = row_values (lm_current_lease s)" and "target_terms m c = Inr (rate, end_date)"
    and "(rate, end_date) \<noteq> (ls_initial_discount_rate c, ls_end_date c)"
  shows "\<exists>msg. change_terms sha dec_str g m s = Inl (chain_broken msg)"
proof -
  let ?nodes = "load_lease_chain (rm_tenant_id g) (ls_lease_number c) (ls_source_lease_reference c) (lm_db s)"
  from assms(1) obtain a b where "lease_node a \<in> set ?nodes" "lease_node b \<in> set ?nodes" "row_id a \<noteq> row_id b"
    "ls_supersedes_id (row_values a) = None" "ls_supersedes_id (row_values b) = None"
    unfolding two_roots_def load_lease_chain_set by blast
  then obtain msg where "validate_linear_chain ?nodes (rm_tenant_id g) = Inl (chain_broken msg)"
    using two_roots_rejected [of "lease_node a" ?nodes "lease_node b"] by (auto simp: lease_node_def)
  then show ?thesis
    using assms(2-4) by (auto simp: change_terms_def Let_def ensure_append_targets_terminal_def resolve_terminal_node_def)
qed

text \<open>A lease that was registered twice, as every run under its own correlation id does, has
  two rows that supersede nothing.  From then on a modification of its discount rate or its
  end date fails with a broken version chain, in every run.\<close>

theorem second_registration_blocks_modifications:
  assumes cur: "find (\<lambda>r. row_tenant r = rm_tenant_id g \<and> row_id r = le_lease_id rl) (ld_leases db) = Some cur"
    and l: "le_lease_number rl = lin_lease_number l" and tok: "map_of roots (row_id cur) = Some root_token"
    and roots: "two_roots (rm_tenant_id g) (ls_lease_number (row_values cur)) (ls_source_lease_reference (row_values cur)) db"
    and none: "modifications_of (rm_tenant_id g) (rm_run_id g) (row_id cur) db = []"
    and m: "sort_lease_modifications (lin_modifications l) = m # ms" "lease_modification_payload m = Inr payload"
    and terms: "target_terms m (row_values cur) = Inr (rate, end_date)"
      "(rate, end_date) \<noteq> (ls_initial_discount_rate (row_values cur), ls_end_date (row_values cur))"
  shows "\<exists>msg. apply_lease_modifications sha dec_str g [l] [rl] roots db = Inl (chain_broken msg)"
proof -
  let ?s = "\<lparr>lm_current_lease = cur, lm_prior_token = root_token, lm_chain_nodes = [], lm_chain_modifications = [],
      lm_persisted = [], lm_created = 0, lm_db = db\<rparr>"
  have "\<exists>msg. change_terms sha dec_str g m ?s = Inl (chain_broken msg)"
    by (rule change_terms_two_roots [OF _ _ terms]) (simp_all add: roots)
  then obtain msg where "change_terms sha dec_str g m ?s = Inl (chain_broken msg)" ..
  then have "apply_lease_modification sha dec_str g (row_id cur) root_token ?s m = Inl (chain_broken msg)"
    by (simp add: apply_lease_modification_def create_modification_def lease_idempotency_key_def m(2) find_modification_def none
        one_or_none_def ensure_append_targets_terminal_def resolve_terminal_node_def validate_linear_chain_def last_modification_id_def)
  then have "foldE (apply_lease_modification sha dec_str g (row_id cur) root_token) ?s (m # ms) = Inl (chain_broken msg)" by simp
  then have "apply_lease sha dec_str g roots ([lin_lease_number l \<mapsto> cur], 0, [], db) l = Inl (chain_broken msg)"
    by (simp add: apply_lease_def tok none m(1) validate_linear_chain_def del: foldE.simps)
  moreover have "load_lease_state (rm_tenant_id g) db [rl] = Inr [lin_lease_number l \<mapsto> cur]"
    by (simp add: load_lease_state_def cur l)
  ultimately show ?thesis by (simp add: apply_lease_modifications_def)
qed

section \<open>Modifications of a fresh run\<close>

lemma append_ok:
  assumes "linear_chain chain" "mset chain = mset nodes" "\<forall>r \<in> set nodes. sn_tenant_id r = tenant_id"
  shows "ensure_append_targets_terminal nodes tenant_id (Some (sn_id (last chain))) = Inr ()"
  using resolve_terminal_chain [OF assms] by (simp add: ensure_append_targets_terminal_def)

lemma append_first: "ensure_append_targets_terminal [] tenant_id None = Inr ()"
  by (simp add: ensure_append_targets_terminal_def resolve_terminal_node_def validate_linear_chain_def)

definition fresh_lease_ids :: "lease_db \<Rightarrow> bool" where
  "fresh_lease_ids db \<longleftrightarrow> (\<forall>r \<in> set (ld_leases db). row_id r < env_next_id (ld_env db)
        \<and> (\<forall>p. ls_supersedes_id (row_values r) = Some p \<longrightarrow> p < env_next_id (ld_env db)))
     \<and> (\<forall>r \<in> set (ld_modifications db). row_id r < env_next_id (ld_env db))"

text \<open>The lease rows of the current lease's number and reference form one chain, which it ends;
  nothing supersedes it.\<close>

definition lease_chained :: "uuid \<Rightarrow> lease row \<Rightarrow> lease_db \<Rightarrow> bool" where
  "lease_chained tenant_id cur db \<longleftrightarrow> row_tenant cur = tenant_id \<and> row_id cur < env_next_id (ld_env db)
     \<and> (\<forall>r \<in> set (ld_leases db). ls_supersedes_id (row_values r) \<noteq> Some (row_id cur)) \<and>
     (\<exists>chain. linear_chain chain \<and> last chain = lease_node cur
        \<and> mset chain = mset (map lease_node (lease_chain_rows tenant_id (ls_lease_number (row_values cur))
            (ls_source_lease_reference (row_values cur)) db)))"

lemma lease_chained_guard:
  assumes "lease_chained tenant_id cur db"
  shows "ensure_append_targets_terminal (load_lease_chain tenant_id (ls_lease_number (row_values cur))
     (ls_source_lease_reference (row_values cur)) db) tenant_id (Some (row_id cur)) = Inr ()"
proof -
  from assms obtain chain where c: "linear_chain chain" "last chain = lease_node cur"
    "mset chain = mset (map lease_node (lease_chain_rows tenant_id (ls_lease_number (row_values cur))
            (ls_source_lease_reference (row_values cur)) db))"
    by (auto simp: lease_chained_def)
  have "mset chain = mset (load_lease_chain tenant_id (ls_lease_number (row_values cur))
            (ls_source_lease_reference (row_values cur)) db)"
    unfolding load_lease_chain_def mset_map mset_sort using c(3) by simp
  from append_ok [OF c(1) this] show ?thesis
    by (simp add: load_lease_chain_set lease_chain_rows_def c(2)) (simp add: lease_node_def)
qed

lemma lease_chained_step:
  assumes c: "lease_chained tenant_id cur db" and f: "fresh_lease_ids db"
    and i: "insert_superseding_lease sha dec_str tenant_id user_id correlation_id cur rate end_date db = Inr (r, db')"
  shows "lease_chained tenant_id r db'" and "fresh_lease_ids db'"
proof -
  note ic = insert_superseding_lease_cases [OF i]
  from ic(9) have v: "ls_lease_number (row_values r) = ls_lease_number (row_values cur)"
    "ls_source_lease_reference (row_values r) = ls_source_lease_reference (row_values cur)"
    "ls_supersedes_id (row_values r) = Some (row_id cur)" by auto
  let ?rows = "lease_chain_rows tenant_id (ls_lease_number (row_values cur)) (ls_source_lease_reference (row_values cur))"
  from c obtain chain where ch: "linear_chain chain" "last chain = lease_node cur" "mset chain = mset (map lease_node (?rows db))"
    by (auto simp: lease_chained_def)
  have new: "row_id r \<notin> row_id ` set (ld_leases db)" using f ic(6) by (auto simp: fresh_lease_ids_def)
  have "set chain = lease_node ` set (?rows db)" using mset_eq_setD [OF ch(3)] by simp
  then have "sn_id (lease_node r) \<notin> sn_id ` set chain" using new by (auto simp: lease_node_def lease_chain_rows_def)
  then have "linear_chain (chain @ [lease_node r])"
    using ch(1,2) v(3) by (simp add: linear_chain_def linked_snoc) (simp add: lease_node_def)
  moreover have "mset (chain @ [lease_node r]) = mset (map lease_node (?rows db'))"
    using ch(3) ic(8) v(1,2) by (simp add: lease_chain_rows_def ic(1))
  moreover have "ls_supersedes_id (row_values x) \<noteq> Some (row_id r)" if "x \<in> set (ld_leases db')" for x
    using that f c ic(6) v(3) by (fastforce simp: ic(1) fresh_lease_ids_def lease_chained_def)
  moreover have "row_id r < env_next_id (ld_env db')" using ic(5,6) by simp
  ultimately show "lease_chained tenant_id r db'"
    unfolding lease_chained_def v(1,2) using ic(8) by (intro conjI exI [of _ "chain @ [lease_node r]"]) auto
  show "fresh_lease_ids db'"
    using f c ic(5,6) v(3) by (fastforce simp: fresh_lease_ids_def lease_chained_def ic(1,2))
qed

text \<open>Each modification starts from the version the one before it made and supersedes it.\<close>

definition versions_linked :: "string \<Rightarrow> lease_modification row list \<Rightarrow> bool" where
  "versions_linked root_token rs \<longleftrightarrow>
     map (\<lambda>r. lmo_prior_schedule_version_token (row_values r)) rs
       = butlast (root_token # map (\<lambda>r. lmo_new_schedule_version_token (row_values r)) rs)
     \<and> map (\<lambda>r. lmo_supersedes_id (row_values r)) rs = butlast (None # map (\<lambda>r. Some (row_id r)) rs)"

definition token_after :: "string \<Rightarrow> lease_modification row list \<Rightarrow> string" where
  "token_after root_token rs = last (root_token # map (\<lambda>r. lmo_new_schedule_version_token (row_values r)) rs)"

definition id_after :: "lease_modification row list \<Rightarrow> uuid option" where
  "id_after rs = last (None # map (\<lambda>r. Some (row_id r)) rs)"

lemma butlast_shift: "butlast (x # ys @ [y]) = butlast (x # ys) @ [last (x # ys)]"
  by (metis append_Cons append_butlast_last_id butlast_snoc list.distinct(1))

lemma versions_linked_snoc:
  "versions_linked root_token rs \<Longrightarrow> lmo_prior_schedule_version_token (row_values r) = token_after root_token rs
     \<Longrightarrow> lmo_supersedes_id (row_values r) = id_after rs \<Longrightarrow> versions_linked root_token (rs @ [r])"
  by (simp add: versions_linked_def token_after_def id_after_def butlast_shift del: butlast.simps last.simps)

lemma versions_linked_chain:
  assumes "versions_linked root_token rs" "rs \<noteq> []" "distinct (map row_id rs)"
  shows "linear_chain (map modification_node rs)"
proof -
  have sup: "map sn_supersedes_id (map modification_node rs) = butlast (None # map (\<lambda>r. Some (sn_id r)) (map modification_node rs))"
    using assms(1) by (simp add: versions_linked_def modification_node_def o_def)
  have "linked ns" if "map sn_supersedes_id ns = butlast (p # map (\<lambda>r. Some (sn_id r)) ns)" for ns p
    using that by (induction ns arbitrary: p rule: linked.induct) auto
  from this [OF sup] have "linked (map modification_node rs)" .
  moreover have "sn_supersedes_id (hd (map modification_node rs)) = None"
    using arg_cong [OF sup, of hd] assms(2) by (cases rs) auto
  ultimately show ?thesis
    using assms(2,3) by (simp add: linear_chain_def o_def) (simp add: modification_node_def)
qed

definition modifies :: "sha \<Rightarrow> remeasure_args \<Rightarrow> uuid \<Rightarrow> lease_modification_input \<Rightarrow> lease_modification row \<Rightarrow> bool" where
  "modifies sha g lid m r \<longleftrightarrow> row_tenant r = rm_tenant_id g \<and> lmo_run_id (row_values r) = rm_run_id g
     \<and> lmo_lease_id (row_values r) = lid \<and> lmo_effective_date (row_values r) = lx_effective_date m
     \<and> lmo_modification_type (row_values r) = lx_modification_type m
     \<and> lease_idempotency_key sha lid m = Inr (lmo_idempotency_key (row_values r))
     \<and> quantize_persisted_amount (case lx_remeasurement_delta m of None \<Rightarrow> 0 | Some x \<Rightarrow> x)
         = Inr (lmo_remeasurement_delta (row_values r))"

text \<open>Amounts the columns can hold; the terms a lease has after a modification.\<close>

definition storable_modification :: "lease_modification_input \<Rightarrow> bool" where
  "storable_modification m \<longleftrightarrow>
     (\<forall>v. lx_new_discount_rate m = Some v \<longrightarrow> (\<exists>q. quantize_rate v = Inr q \<and> stored_amount q))
     \<and> (\<exists>q. quantize_persisted_amount (case lx_remeasurement_delta m of None \<Rightarrow> 0 | Some x \<Rightarrow> x) = Inr q \<and> stored_amount q)"

definition terms_of :: "lease row \<Rightarrow> rat \<times> date" where
  "terms_of r = (ls_initial_discount_rate (row_values r), ls_end_date (row_values r))"

definition terms_after :: "rat \<times> date \<Rightarrow> lease_modification_input \<Rightarrow> rat \<times> date" where
  "terms_after = (\<lambda>(rate, end_date) m.
     (case lx_new_discount_rate m of None \<Rightarrow> rate | Some v \<Rightarrow> (case quantize_rate v of Inr q \<Rightarrow> q | Inl _ \<Rightarrow> rate),
      case lx_new_end_date m of None \<Rightarrow> end_date | Some d \<Rightarrow> d))"

lemma storable_payload: "storable_modification m \<Longrightarrow> \<exists>payload. lease_modification_payload m = Inr payload"
  by (auto simp: storable_modification_def lease_modification_payload_def rate_text_def decimal_text_def split: option.splits)

lemma target_terms_after:
  assumes "storable_modification m" and "stored_amount (fst (terms_of cur))"
  shows "target_terms m (row_values cur) = Inr (terms_after (terms_of cur) m)"
    and "stored_amount (fst (terms_after (terms_of cur) m))"
  using assms by (auto simp: storable_modification_def target_terms_def terms_after_def terms_of_def split: option.splits)

definition lease_progress :: "sha \<Rightarrow> remeasure_args \<Rightarrow> uuid \<Rightarrow> string \<Rightarrow> nat \<Rightarrow> rat \<times> date \<Rightarrow> lease_modification_input list
    \<Rightarrow> lease_remeasure_state \<Rightarrow> bool" where
  "lease_progress sha g lid root_token n terms ms s \<longleftrightarrow> (let rs = lm_chain_modifications s in
     modifications_of (rm_tenant_id g) (rm_run_id g) lid (lm_db s) = rs
     \<and> list_all2 (modifies sha g lid) ms rs \<and> versions_linked root_token rs \<and> distinct (map row_id rs)
     \<and> lm_prior_token s = token_after root_token rs \<and> lm_chain_nodes s = map modification_node rs
     \<and> lm_persisted s = map (persisted_of_modification lid) rs \<and> lm_created s = n + length rs
     \<and> terms_of (lm_current_lease s) = foldl terms_after terms ms \<and> stored_amount (fst (terms_of (lm_current_lease s)))
     \<and> lease_chained (rm_tenant_id g) (lm_current_lease s) (lm_db s) \<and> fresh_lease_ids (lm_db s)
     \<and> (\<forall>r \<in> set (ld_modifications (lm_db s)). lmo_run_id (row_values r) = rm_run_id g \<longrightarrow> row_tenant r = rm_tenant_id g))"

lemma latest_by_empty: "latest_by key [] = None"
  by (simp add: latest_by_def)

lemma change_terms_total:
  assumes c: "lease_chained (rm_tenant_id g) (lm_current_lease s) (lm_db s)" and f: "fresh_lease_ids (lm_db s)"
    and m: "storable_modification m" and st: "stored_amount (fst (terms_of (lm_current_lease s)))"
  obtains cur db where "change_terms sha dec_str g m s = Inr (s\<lparr>lm_current_lease := cur, lm_db := db\<rparr>)"
    and "terms_of cur = terms_after (terms_of (lm_current_lease s)) m" and "stored_amount (fst (terms_of cur))"
    and "lease_chained (rm_tenant_id g) cur db" and "fresh_lease_ids db"
    and "ld_modifications db = ld_modifications (lm_db s)" and "env_next_id (ld_env (lm_db s)) \<le> env_next_id (ld_env db)"
proof -
  let ?cur = "lm_current_lease s"
  note t = target_terms_after [OF m st]
  obtain rate end_date where re: "terms_after (terms_of ?cur) m = (rate, end_date)" by fastforce
  show thesis
  proof (cases "(rate, end_date) = terms_of ?cur")
    case True
    then have same: "rate = ls_initial_discount_rate (row_values ?cur)" "end_date = ls_end_date (row_values ?cur)"
      by (simp_all add: terms_of_def)
    have "change_terms sha dec_str g m s = Inr (s\<lparr>lm_current_lease := ?cur, lm_db := lm_db s\<rparr>)"
      using t(1) [unfolded re] by (simp add: change_terms_def Let_def same)
    from that [OF this] True st c f show thesis by (simp add: re)
  next
    case False
    have none: "filter (\<lambda>r. row_tenant r = rm_tenant_id g \<and> ls_supersedes_id (row_values r) = Some (row_id ?cur)
       \<and> ls_initial_discount_rate (row_values r) = rate \<and> ls_end_date (row_values r) = end_date
       \<and> ls_correlation_id (row_values r) = rm_correlation_id g) (ld_leases (lm_db s)) = []"
      using c by (auto simp: filter_empty_conv lease_chained_def)
    have "stored_amount rate" using t(2) by (simp add: re)
    then obtain r db where i: "insert_superseding_lease sha dec_str (rm_tenant_id g) (rm_user_id g) (rm_correlation_id g)
        ?cur rate end_date (lm_db s) = Inr (r, db)" using insert_superseding_lease_total by blast
    note ic = insert_superseding_lease_cases [OF i]
    from False have "(rate = ls_initial_discount_rate (row_values ?cur) \<and> end_date = ls_end_date (row_values ?cur)) = False"
      by (auto simp: terms_of_def)
    then have "change_terms sha dec_str g m s = Inr (s\<lparr>lm_current_lease := r, lm_db := db\<rparr>)"
      using t(1) [unfolded re]
      by (simp only: change_terms_def Let_def bindE_simps prod.case if_False lease_chained_guard [OF c] none latest_by_empty
          option.case i)
    moreover have "terms_of r = (rate, end_date)" using ic(9) \<open>stored_amount rate\<close> by (auto simp: terms_of_def stored_amount_def)
    ultimately show thesis
      using lease_chained_step [OF c f i] ic(2,5) \<open>stored_amount rate\<close> by (intro that [of db r]) (simp_all add: re)
  qed
qed

lemma find_modification_fresh:
  assumes "list_all2 (modifies sha g lid) ms rs" and "modifications_of (rm_tenant_id g) (rm_run_id g) lid db = rs"
    and "lease_idempotency_key sha lid m = Inr key" and "Inr key \<notin> lease_idempotency_key sha lid ` set ms"
  shows "find_modification (rm_tenant_id g) (rm_run_id g) lid m key db = Inr None"
    and "\<forall>r \<in> set rs. lmo_idempotency_key (row_values r) \<noteq> key"
proof -
  show keys: "\<forall>r \<in> set rs. lmo_idempotency_key (row_values r) \<noteq> key"
    using assms(1,4) by (induction ms rs rule: list_all2_induct) (auto simp: modifies_def)
  then have "filter (\<lambda>r. lmo_effective_date (row_values r) = lx_effective_date m
      \<and> lmo_modification_type (row_values r) = lx_modification_type m
      \<and> lmo_idempotency_key (row_values r) = key) rs = []" by (auto simp: filter_empty_conv)
  then show "find_modification (rm_tenant_id g) (rm_run_id g) lid m key db = Inr None"
    by (simp add: find_modification_def assms(2) one_or_none_def)
qed

lemma lease_progress_guard:
  assumes p: "lease_progress sha g lid root_token n terms ms s"
  shows "ensure_append_targets_terminal (lm_chain_nodes s) (rm_tenant_id g) (last_modification_id s) = Inr ()"
    and "last_modification_id s = id_after (lm_chain_modifications s)"
proof -
  let ?rs = "lm_chain_modifications s"
  show "last_modification_id s = id_after ?rs" by (simp add: last_modification_id_def id_after_def last_map)
  have nodes: "lm_chain_nodes s = map modification_node ?rs" and v: "versions_linked root_token ?rs" "distinct (map row_id ?rs)"
    and all: "list_all2 (modifies sha g lid) ms ?rs" using p by (simp_all add: lease_progress_def Let_def)
  have tenants: "\<forall>r \<in> set ?rs. row_tenant r = rm_tenant_id g"
    using all by (auto simp: list_all2_conv_all_nth in_set_conv_nth modifies_def)
  show "ensure_append_targets_terminal (lm_chain_nodes s) (rm_tenant_id g) (last_modification_id s) = Inr ()"
  proof (cases "?rs = []")
    case True
    then show ?thesis by (simp add: nodes last_modification_id_def append_first)
  next
    case False
    have "ensure_append_targets_terminal (map modification_node ?rs) (rm_tenant_id g)
        (Some (sn_id (last (map modification_node ?rs)))) = Inr ()"
      by (rule append_ok [OF versions_linked_chain [OF v(1) False v(2)] refl])
        (use tenants in \<open>auto simp: modification_node_def\<close>)
    then show ?thesis using False by (simp add: nodes last_modification_id_def last_map modification_node_def)
  qed
qed

lemma lease_progress_step:
  assumes p: "lease_progress sha g lid root_token n terms ms s" and m: "storable_modification m"
    and new: "lease_idempotency_key sha lid m \<notin> lease_idempotency_key sha lid ` set ms"
  shows "\<exists>s'. apply_lease_modification sha dec_str g lid root_token s m = Inr s'
    \<and> lease_progress sha g lid root_token n terms (ms @ [m]) s'"
proof -
  let ?rs = "lm_chain_modifications s"
  have rs: "modifications_of (rm_tenant_id g) (rm_run_id g) lid (lm_db s) = ?rs" "list_all2 (modifies sha g lid) ms ?rs"
    "versions_linked root_token ?rs" "distinct (map row_id ?rs)" "lm_prior_token s = token_after root_token ?rs"
    "lm_chain_nodes s = map modification_node ?rs" "lm_persisted s = map (persisted_of_modification lid) ?rs"
    "lm_created s = n + length ?rs" "terms_of (lm_current_lease s) = foldl terms_after terms ms"
    and own: "\<forall>r \<in> set (ld_modifications (lm_db s)). lmo_run_id (row_values r) = rm_run_id g \<longrightarrow> row_tenant r = rm_tenant_id g"
    and st: "stored_amount (fst (terms_of (lm_current_lease s)))"
    and chained: "lease_chained (rm_tenant_id g) (lm_current_lease s) (lm_db s)" and fresh: "fresh_lease_ids (lm_db s)"
    using p unfolding lease_progress_def Let_def by blast+
  obtain payload where payload: "lease_modification_payload m = Inr payload" using storable_payload [OF m] by blast
  then obtain key where key: "lease_idempotency_key sha lid m = Inr key" by (simp add: lease_idempotency_key_def)
  note ff = find_modification_fresh [OF rs(2,1) key new [unfolded key]]
  obtain delta where delta: "quantize_persisted_amount (case lx_remeasurement_delta m of None \<Rightarrow> 0 | Some x \<Rightarrow> x) = Inr delta"
    "stored_amount delta" using m by (auto simp: storable_modification_def)
  obtain cur db where ct: "change_terms sha dec_str g m s = Inr (s\<lparr>lm_current_lease := cur, lm_db := db\<rparr>)"
    and terms: "terms_of cur = terms_after (terms_of (lm_current_lease s)) m" "stored_amount (fst (terms_of cur))"
    and c: "lease_chained (rm_tenant_id g) cur db" and f: "fresh_lease_ids db"
    and mods: "ld_modifications db = ld_modifications (lm_db s)" and later: "env_next_id (ld_env (lm_db s)) \<le> env_next_id (ld_env db)"
    by (rule change_terms_total [OF chained fresh m st])
  define prior where "prior = (if lm_prior_token s = root_token \<and> ?rs \<noteq> []
      then lmo_new_schedule_version_token (row_values (last ?rs)) else lm_prior_token s)"
  have prior: "prior = token_after root_token ?rs" unfolding prior_def rs(5) by (simp add: token_after_def last_map)
  define a where "a = modification_values g lid m key prior
      (build_lease_version_token sha lid payload (rm_reporting_currency g) (rm_rate_mode g) prior) (last_modification_id s)
      (latest_by (\<lambda>r. (lr_schedule_date (ll_row (row_values r)), row_created_at r))
        (liability_until (rm_tenant_id g) (rm_run_id g) lid prior (lx_effective_date m) db))
      delta (ls_source_lease_reference (row_values cur))"
  have af: "lmo_run_id a = rm_run_id g" "lmo_lease_id a = lid" "lmo_effective_date a = lx_effective_date m"
    "lmo_modification_type a = lx_modification_type m" "lmo_idempotency_key a = key" "lmo_remeasurement_delta a = delta"
    "lmo_prior_schedule_version_token a = prior" "lmo_supersedes_id a = last_modification_id s"
    by (simp_all add: a_def modification_values_def)
  have "\<not> modification_conflict a db"
  proof
    assume "modification_conflict a db"
    then obtain r where "r \<in> set (ld_modifications (lm_db s))" "lmo_run_id (row_values r) = rm_run_id g"
      "lmo_lease_id (row_values r) = lid" "lmo_idempotency_key (row_values r) = key"
      by (auto simp: modification_conflict_def list_ex_iff af mods)
    moreover from this have "r \<in> set ?rs" using own rs(1) [symmetric] by (simp add: modifications_of_def)
    ultimately show False using ff(2) by blast
  qed
  then obtain r db' where i: "insert_modification sha (rm_tenant_id g) (rm_user_id g) a db = Inr (r, db')"
    using insert_modification_total [of a db] delta(2) af(6) by metis
  note ic = insert_modification_cases [OF i]
  obtain x where x: "row_values r = a\<lparr>lmo_remeasurement_delta := x\<rparr>" and xd: "x = delta"
    using ic(9) delta(2) by (auto simp: af(6) stored_amount_def)
  let ?s' = "s\<lparr>lm_current_lease := cur, lm_created := lm_created s + 1, lm_chain_modifications := ?rs @ [r],
      lm_chain_nodes := lm_chain_nodes s @ [modification_node r],
      lm_persisted := lm_persisted s @ [persisted_of_modification lid r],
      lm_prior_token := lmo_new_schedule_version_token (row_values r), lm_db := db'\<rparr>"
  have "create_modification sha dec_str g lid root_token m key payload s = Inr ?s'"
    using i by (simp add: create_modification_def ct delta(1) Let_def flip: prior_def) (simp add: a_def)
  then have step: "apply_lease_modification sha dec_str g lid root_token s m = Inr ?s'"
    by (simp add: apply_lease_modification_def lease_progress_guard(1) [OF p] key payload ff(1))
  have mine: "modifications_of (rm_tenant_id g) (rm_run_id g) lid db' = ?rs @ [r]"
    using rs(1) ic(8) by (simp add: modifications_of_def ic(1) mods x af)
  have "modifies sha g lid m r" using key delta(1) ic(8) by (simp add: modifies_def x af xd)
  then have "list_all2 (modifies sha g lid) (ms @ [m]) (?rs @ [r])" using rs(2) by (simp add: list_all2_appendI)
  moreover have "versions_linked root_token (?rs @ [r])"
    by (rule versions_linked_snoc [OF rs(3)]) (simp_all add: x af prior lease_progress_guard(2) [OF p])
  moreover have "distinct (map row_id (?rs @ [r]))"
  proof -
    have "set ?rs \<subseteq> set (ld_modifications db)" unfolding mods rs(1) [symmetric] by (auto simp: modifications_of_def)
    then have "\<forall>y \<in> set ?rs. row_id y < row_id r" using f by (auto simp: ic(6) fresh_lease_ids_def)
    then show ?thesis using rs(4) by auto
  qed
  moreover have "fresh_lease_ids db'" using f ic(5,6) by (fastforce simp: fresh_lease_ids_def ic(1,2))
  moreover have "lease_chained (rm_tenant_id g) cur db'"
    using c ic(5) by (auto simp: lease_chained_def lease_chain_rows_def ic(2))
  moreover have "\<forall>r \<in> set (ld_modifications db'). lmo_run_id (row_values r) = rm_run_id g \<longrightarrow> row_tenant r = rm_tenant_id g"
    using own ic(8) by (simp add: ic(1) mods)
  ultimately have "lease_progress sha g lid root_token n terms (ms @ [m]) ?s'"
    using mine rs terms by (simp add: lease_progress_def token_after_def)
  with step show ?thesis by blast
qed

lemma lease_progress_all:
  assumes "lease_progress sha g lid root_token n terms ms s" and "\<forall>m \<in> set todo. storable_modification m"
    and "distinct (map (lease_idempotency_key sha lid) (ms @ todo))"
  shows "\<exists>s'. foldE (apply_lease_modification sha dec_str g lid root_token) s todo = Inr s'
    \<and> lease_progress sha g lid root_token n terms (ms @ todo) s'"
  using assms
proof (induction todo arbitrary: s ms)
  case (Cons m todo)
  have "lease_idempotency_key sha lid m \<notin> lease_idempotency_key sha lid ` set ms" using Cons.prems(3) by auto
  then obtain s1 where s1: "apply_lease_modification sha dec_str g lid root_token s m = Inr s1"
    "lease_progress sha g lid root_token n terms (ms @ [m]) s1"
    using lease_progress_step [OF Cons.prems(1)] Cons.prems(2) by (metis list.set_intros(1))
  from Cons.IH [OF s1(2)] Cons.prems(2,3) s1(1) show ?case by simp
qed simp

lemma lease_sorted_dates: "sorted (map lx_effective_date (sort_lease_modifications ms))"
proof -
  let ?k = "\<lambda>item. (lx_effective_date item, lx_modification_type item, lx_modification_reason item,
      case lx_new_end_date item of None \<Rightarrow> [] | Some d \<Rightarrow> date_text d)"
  have "sorted_wrt (\<lambda>x y. ?k x \<le> ?k y) (sort_key ?k ms)" using sorted_sort_key [of ?k ms] unfolding sorted_map .
  then have "sorted_wrt (\<lambda>x y. lx_effective_date x \<le> lx_effective_date y) (sort_key ?k ms)"
    by (rule sorted_wrt_mono_rel [rotated]) (auto simp: less_eq_prod_def)
  then show ?thesis unfolding sort_lease_modifications_def sorted_map .
qed

text \<open>(C30) All modifications of a lease are applied by a run that has applied none to it yet, if the lease's rows are one chain.
  The conditions: the run has no modification of the lease, and its modifications belong to its tenant; the tenant's lease rows of the
  number and reference form one chain that ends in the registered row, which fails as soon as a second run has registered the
  lease; amounts fit their columns; no two modifications have the same key.  Then the loop over the modifications raises
  nothing: in the order of their effective dates each becomes one row that carries its delta, starts from the version the one
  before it made and supersedes it, and the last lease row, which ends the chain now, carries the last discount rate and the
  last end date that were asked for.\<close>

theorem lease_modifications_apply:
  assumes cur: "cs (lin_lease_number l) = Some cur" and tok: "map_of roots (row_id cur) = Some root_token"
    and none: "modifications_of (rm_tenant_id g) (rm_run_id g) (row_id cur) db = []"
    and own: "\<forall>r \<in> set (ld_modifications db). lmo_run_id (row_values r) = rm_run_id g \<longrightarrow> row_tenant r = rm_tenant_id g"
    and fresh: "fresh_lease_ids db" and chained: "lease_chained (rm_tenant_id g) cur db"
    and st: "stored_amount (fst (terms_of cur))" and ms: "\<forall>m \<in> set (lin_modifications l). storable_modification m"
    and keys: "distinct (map (lease_idempotency_key sha (row_id cur)) (lin_modifications l))"
  shows "\<exists>cur' rs by' db'. apply_lease sha dec_str g roots (cs, n, by, db) l
      = Inr (cs(lin_lease_number l \<mapsto> cur'), n + length rs, by', db')
    \<and> modifications_of (rm_tenant_id g) (rm_run_id g) (row_id cur) db' = rs
    \<and> list_all2 (modifies sha g (row_id cur)) (sort_lease_modifications (lin_modifications l)) rs
    \<and> sorted (map (\<lambda>r. lmo_effective_date (row_values r)) rs) \<and> versions_linked root_token rs
    \<and> lease_chained (rm_tenant_id g) cur' db'
    \<and> terms_of cur' = foldl terms_after (terms_of cur) (sort_lease_modifications (lin_modifications l))"
proof -
  let ?ms = "sort_lease_modifications (lin_modifications l)"
  let ?s = "\<lparr>lm_current_lease = cur, lm_prior_token = root_token, lm_chain_nodes = [], lm_chain_modifications = [],
      lm_persisted = [], lm_created = n, lm_db = db\<rparr>"
  have same: "set ?ms = set (lin_modifications l)" "mset ?ms = mset (lin_modifications l)"
    by (simp_all add: sort_lease_modifications_def)
  have start: "lease_progress sha g (row_id cur) root_token n (terms_of cur) [] ?s"
    using none own fresh chained st by (simp add: lease_progress_def versions_linked_def token_after_def)
  have "distinct (map (lease_idempotency_key sha (row_id cur)) ([] @ ?ms))"
    unfolding append_Nil distinct_map_mset [OF same(2)] by (rule keys)
  from lease_progress_all [OF start _ this, of dec_str] ms same(1)
  obtain s where s: "foldE (apply_lease_modification sha dec_str g (row_id cur) root_token) ?s ?ms = Inr s"
    and p: "lease_progress sha g (row_id cur) root_token n (terms_of cur) ?ms s" by auto
  let ?rs = "lm_chain_modifications s"
  have rs: "modifications_of (rm_tenant_id g) (rm_run_id g) (row_id cur) (lm_db s) = ?rs"
    "list_all2 (modifies sha g (row_id cur)) ?ms ?rs" "versions_linked root_token ?rs" "lm_created s = n + length ?rs"
    "terms_of (lm_current_lease s) = foldl terms_after (terms_of cur) ?ms"
    "lease_chained (rm_tenant_id g) (lm_current_lease s) (lm_db s)"
    using p unfolding lease_progress_def Let_def by blast+
  have "map (\<lambda>r. lmo_effective_date (row_values r)) ?rs = map lx_effective_date ?ms"
    using rs(2) by (auto simp: list_all2_conv_all_nth list_eq_iff_nth_eq modifies_def)
  then have "sorted (map (\<lambda>r. lmo_effective_date (row_values r)) ?rs)" by (simp add: lease_sorted_dates)
  moreover have "apply_lease sha dec_str g roots (cs, n, by, db) l = Inr (cs(lin_lease_number l \<mapsto> lm_current_lease s),
      n + length ?rs, if lm_persisted s = [] then by else AList.update (row_id cur) (lm_persisted s) by, lm_db s)"
    by (simp add: apply_lease_def cur tok none s validate_linear_chain_def rs(4))
  ultimately show ?thesis using rs(1-3,5,6) by blast
qed

section \<open>Examples\<close>

text \<open>A lease row as registration stores it, and a request with two changes of its terms.\<close>

definition ex_lease_values :: "string \<Rightarrow> lease" where
  "ex_lease_values correlation_id = \<lparr>ls_lease_number = ''L-1'', ls_counterparty_id = ''C'', ls_lease_currency = ''EUR'',
     ls_commencement_date = Date 2024 1 1, ls_end_date = Date 2025 12 31, ls_payment_frequency = ''annual'',
     ls_initial_discount_rate = 1 / 4, ls_discount_rate_source = ''ibr'', ls_discount_rate_reference_date = Date 2024 1 1,
     ls_discount_rate_policy_code = ''P'', ls_initial_measurement_basis = ''present_value'',
     ls_source_lease_reference = ''S'', ls_policy_code = ''P'', ls_policy_version = ''1'',
     ls_parent_reference_id = None, ls_source_reference_id = None, ls_correlation_id = correlation_id,
     ls_supersedes_id = None\<rparr>"

definition ex_change :: "int \<Rightarrow> rat option \<Rightarrow> date option \<Rightarrow> rat option \<Rightarrow> lease_modification_input" where
  "ex_change year rate end_date delta = \<lparr>lx_effective_date = Date year 6 30, lx_modification_type = ''extension'',
     lx_modification_reason = ''option exercised'', lx_new_discount_rate = rate, lx_new_end_date = end_date,
     lx_remeasurement_delta = delta\<rparr>"

definition ex_changed_input :: lease_input where
  "ex_changed_input = ex_lease_input\<lparr>lin_modifications :=
     [ex_change 2025 None (Some (Date 2026 12 31)) (Some 5), ex_change 2024 (Some 1) None None]\<rparr>"

definition ex_leases_db :: "lease row list \<Rightarrow> lease_db" where
  "ex_leases_db rows = ex_lease_db\<lparr>ld_leases := rows\<rparr>"

lemmas ex_lease_defs = stored_def ex_lease_values_def ex_leases_db_def ex_lease_db_def ex_args_def

lemma ex_sorted_changes:
  "sort_lease_modifications (lin_modifications ex_changed_input)
     = [ex_change 2024 (Some 1) None None, ex_change 2025 None (Some (Date 2026 12 31)) (Some 5)]"
  by (simp add: sort_lease_modifications_def ex_changed_input_def ex_change_def less_eq_prod_def less_eq_date_def less_date_def)

lemma ex_lease_amounts:
  "quantize_rate 1 = Inr 1" "stored_amount 1" "stored_amount (1 / 4)"
  "quantize_persisted_amount 5 = Inr 5" "stored_amount 5" "quantize_persisted_amount 0 = Inr 0" "stored_amount 0"
  by (simp_all add: quantize_rate_eq stored_amount_def quantize_id numeric_id money_def micro_def)

lemma ex_changes_storable: "\<forall>m \<in> set (lin_modifications ex_changed_input). storable_modification m"
  by (simp add: ex_changed_input_def ex_change_def storable_modification_def ex_lease_amounts)

lemma lease_keys_distinct:
  assumes "lease_modification_payload m = Inr a" "lease_modification_payload m' = Inr b" "canonicalize a \<noteq> canonicalize b"
  shows "lease_idempotency_key (\<lambda>s. s) lid m \<noteq> lease_idempotency_key (\<lambda>s. s) lid m'"
  using assms by (simp add: lease_idempotency_key_def dumps_eq_iff)

lemma ex_changes_distinct: "distinct (map (lease_idempotency_key (\<lambda>s. s) lid) (lin_modifications ex_changed_input))"
proof -
  let ?pay = "\<lambda>d r e x. JDict [(''effective_date'', JStr (date_text d)), (''modification_type'', JStr ''extension''),
       (''modification_reason'', JStr ''option exercised''), (''new_discount_rate'', r), (''new_end_date'', e),
       (''remeasurement_delta_reporting_currency'', x)]"
  have pay: "lease_modification_payload (ex_change 2025 None (Some (Date 2026 12 31)) (Some 5))
      = Inr (?pay (Date 2025 6 30) JNull (JStr (date_text (Date 2026 12 31))) (JStr (amount_text 5)))"
    "lease_modification_payload (ex_change 2024 (Some 1) None None)
      = Inr (?pay (Date 2024 6 30) (JStr (amount_text 1)) JNull JNull)"
    by (simp_all add: lease_modification_payload_def ex_change_def rate_text_def decimal_text_def ex_lease_amounts json_opt_def)
  show ?thesis
    by (simp add: ex_changed_input_def) (rule lease_keys_distinct [OF pay], simp add: less_list_code)
qed

lemma lease_modifications_apply_witness:
  "\<exists>cur' rs by' db'. apply_lease (\<lambda>s. s) (\<lambda>_. ''0'') ex_args [(11, ''v0'')]
       ([''L-1'' \<mapsto> stored 11 (ex_lease_values ''corr'')], 0, [], ex_leases_db [stored 11 (ex_lease_values ''corr'')]) ex_changed_input
      = Inr ([''L-1'' \<mapsto> cur'], 2, by', db')
    \<and> map (\<lambda>r. lmo_effective_date (row_values r)) rs = [Date 2024 6 30, Date 2025 6 30] \<and> versions_linked ''v0'' rs
    \<and> terms_of cur' = (1, Date 2026 12 31)"
proof -
  let ?cur = "stored 11 (ex_lease_values ''corr'')" and ?db = "ex_leases_db [stored 11 (ex_lease_values ''corr'')]"
  have chain: "linear_chain [lease_node ?cur] \<and> last [lease_node ?cur] = lease_node ?cur
      \<and> mset [lease_node ?cur] = mset (map lease_node (lease_chain_rows 7 ''L-1'' ''S'' ?db))"
    by (simp add: linear_chain_def lease_node_def lease_chain_rows_def ex_lease_defs)
  have c: "lease_chained (rm_tenant_id ex_args) ?cur ?db"
    unfolding lease_chained_def using chain by (intro conjI exI [of _ "[lease_node ?cur]"]) (simp_all add: ex_lease_defs)
  have f: "fresh_lease_ids ?db" by (simp add: fresh_lease_ids_def ex_lease_defs)
  have n: "lin_lease_number ex_changed_input = ''L-1''" by (simp add: ex_changed_input_def ex_lease_input_def)
  have id: "row_id ?cur = 11" by (simp add: stored_def)
  have "\<exists>cur' rs by' db'. apply_lease (\<lambda>s. s) (\<lambda>_. ''0'') ex_args [(11, ''v0'')] ([''L-1'' \<mapsto> ?cur], 0, [], ?db) ex_changed_input
      = Inr ([''L-1'' \<mapsto> ?cur](lin_lease_number ex_changed_input \<mapsto> cur'), 0 + length rs, by', db')
    \<and> modifications_of (rm_tenant_id ex_args) (rm_run_id ex_args) (row_id ?cur) db' = rs
    \<and> list_all2 (modifies (\<lambda>s. s) ex_args (row_id ?cur)) (sort_lease_modifications (lin_modifications ex_changed_input)) rs
    \<and> sorted (map (\<lambda>r. lmo_effective_date (row_values r)) rs) \<and> versions_linked ''v0'' rs
    \<and> lease_chained (rm_tenant_id ex_args) cur' db'
    \<and> terms_of cur' = foldl terms_after (terms_of ?cur) (sort_lease_modifications (lin_modifications ex_changed_input))"
    by (rule lease_modifications_apply [OF _ _ _ _ f c _ ex_changes_storable ex_changes_distinct])
      (simp_all add: n id modifications_of_def ex_lease_defs terms_of_def ex_lease_amounts)
  then obtain cur' rs by' db' where
    a: "apply_lease (\<lambda>s. s) (\<lambda>_. ''0'') ex_args [(11, ''v0'')] ([''L-1'' \<mapsto> ?cur], 0, [], ?db) ex_changed_input
      = Inr ([''L-1'' \<mapsto> ?cur](lin_lease_number ex_changed_input \<mapsto> cur'), 0 + length rs, by', db')"
    and m: "list_all2 (modifies (\<lambda>s. s) ex_args (row_id ?cur)) (sort_lease_modifications (lin_modifications ex_changed_input)) rs"
    and v: "versions_linked ''v0'' rs"
    and t: "terms_of cur' = foldl terms_after (terms_of ?cur) (sort_lease_modifications (lin_modifications ex_changed_input))"
    by blast
  have rs: "map (\<lambda>r. lmo_effective_date (row_values r)) rs = [Date 2024 6 30, Date 2025 6 30]" "length rs = 2"
    using m by (auto simp: ex_sorted_changes list_all2_Cons1 modifies_def ex_change_def)
  have "terms_of cur' = (1, Date 2026 12 31)"
    using t by (simp add: ex_sorted_changes terms_after_def ex_change_def terms_of_def ex_lease_amounts stored_def)
  then show ?thesis using rs(1) v a [unfolded n rs(2)]
    by (intro exI [of _ cur'] exI [of _ rs] exI [of _ by'] exI [of _ db']) simp
qed

lemma second_registration_blocks_modifications_witness:
  "\<exists>msg. apply_lease_modifications (\<lambda>s. s) (\<lambda>_. ''0'') ex_args [ex_changed_input]
      [registered_lease_of_row (stored 11 (ex_lease_values ''corr''))] [(11, ''v0'')]
      (ex_leases_db [stored 5 (ex_lease_values ''earlier''), stored 11 (ex_lease_values ''corr'')]) = Inl (chain_broken msg)"
proof -
  let ?db = "ex_leases_db [stored 5 (ex_lease_values ''earlier''), stored 11 (ex_lease_values ''corr'')]"
  have "two_roots 7 ''L-1'' ''S'' ?db"
    unfolding two_roots_def by (intro exI [of _ "stored 5 (ex_lease_values ''earlier'')"] exI [of _ "stored 11 (ex_lease_values ''corr'')"])
      (simp add: lease_chain_rows_def ex_lease_defs)
  moreover obtain payload where "lease_modification_payload (ex_change 2024 (Some 1) None None) = Inr payload"
    using storable_payload ex_changes_storable by (auto simp: ex_changed_input_def)
  ultimately show ?thesis
    by (intro second_registration_blocks_modifications [where cur = "stored 11 (ex_lease_values ''corr'')" and rate = 1
        and end_date = "Date 2025 12 31", OF _ _ _ _ _ ex_sorted_changes])
      (simp_all add: ex_lease_defs registered_lease_of_row_def ex_changed_input_def ex_lease_input_def modifications_of_def
        target_terms_def ex_change_def ex_lease_amounts)
qed

end
