(* ===== verification/Lease_Runs.thy ===== *)
theory Lease_Runs
  imports Lease_Remeasurement
begin

text \<open>
  The engine activities of \<open>services/lease/service_facade.py\<close>: each reads the request of the
  run, registers it and derives from it; liability and right-of-use rows are inserted under
  their unique constraints, modifications regenerate the liability rows after their effective
  date, and journals are posted from the rows of the effective version.
  \<open>lineage_validation.py\<close> is in here too.
\<close>

section \<open>Parameters and the run\<close>

record lease_engine =
  ln_sha :: sha
  ln_babel :: "string list option"
  ln_dec_str :: "rat \<Rightarrow> string"
  ln_parse :: "json option \<Rightarrow> lease_run_request result"

definition get_lease_run_or_raise :: "uuid \<Rightarrow> uuid \<Rightarrow> run_header row list \<Rightarrow> run_header row result" where
  "get_lease_run_or_raise tenant_id run_id runs =
     (case find (\<lambda>r. row_tenant r = tenant_id \<and> row_id r = run_id) runs of
        None \<Rightarrow> Inl (NotFoundError ''Lease run not found'')
      | Some run \<Rightarrow> Inr run)"

definition lease_request_of_run :: "lease_engine \<Rightarrow> activity \<Rightarrow> run_header row list
    \<Rightarrow> (run_header row \<times> lease_run_request) result" where
  "lease_request_of_run en ac runs =
     bindE (get_lease_run_or_raise (ac_tenant_id ac) (ac_run_id ac) runs) (\<lambda>run.
     bindE (ln_parse en (rh_configuration_json (row_values run))) (\<lambda>payload.
     Inr (run, payload)))"

definition register_leases_for_run :: "lease_engine \<Rightarrow> activity \<Rightarrow> lease_run_request \<Rightarrow> lease_db
    \<Rightarrow> ((registered_lease list \<times> registered_lease_payment list) \<times> lease_db) result" where
  "register_leases_for_run en ac payload = register_lease_request (ln_sha en) (ln_babel en) (ln_dec_str en)
     (ac_tenant_id ac) (ac_user_id ac) (ac_correlation_id ac) (lrq_leases payload)"

definition load_leases_and_payments_for_run :: "lease_engine \<Rightarrow> activity \<Rightarrow> run_header row list \<Rightarrow> lease_db
    \<Rightarrow> ((nat \<times> nat) \<times> lease_db) result" where
  "load_leases_and_payments_for_run en ac runs db =
     bindE (lease_request_of_run en ac runs) (\<lambda>(_, payload).
     bindE (register_leases_for_run en ac payload db) (\<lambda>((leases, payments), db).
     Inr ((length leases, length payments), db)))"

definition build_payment_timeline_for_run :: "lease_engine \<Rightarrow> activity \<Rightarrow> run_header row list \<Rightarrow> lease_db
    \<Rightarrow> (nat \<times> lease_db) result" where
  "build_payment_timeline_for_run en ac runs db =
     bindE (lease_request_of_run en ac runs) (\<lambda>(_, payload).
     bindE (register_leases_for_run en ac payload db) (\<lambda>((leases, payments), db).
     bindE (foldE (\<lambda>timeline_entries lease. bindE (build_payment_timeline (le_lease_id lease) payments) (\<lambda>timeline.
              Inr (timeline_entries + length timeline))) 0 leases) (\<lambda>timeline_entries.
     Inr (timeline_entries, db))))"

definition lease_present_value :: "lease_engine \<Rightarrow> activity \<Rightarrow> lease_run_request \<Rightarrow> fx_db \<Rightarrow> registered_lease_payment list
    \<Rightarrow> rat \<Rightarrow> registered_lease \<Rightarrow> rat result" where
  "lease_present_value en ac payload fx payments total_pv lease =
     bindE (build_payment_timeline (le_lease_id lease) payments) (\<lambda>timeline.
     bindE (resolve_lease_fx_rate (ln_babel en) (ac_tenant_id ac) (lrq_rate_mode payload) fx (le_lease_currency lease)
              (lrq_reporting_currency payload) (le_commencement_date lease)) (\<lambda>commencement_rate.
     bindE (calculate_present_value (le_lease_id lease) timeline (le_initial_discount_rate lease)
              (le_payment_frequency lease) commencement_rate) (\<lambda>pv.
     Inr (dadd total_pv (pv_reporting_currency pv)))))"

definition calculate_present_value_for_run :: "lease_engine \<Rightarrow> activity \<Rightarrow> run_header row list \<Rightarrow> fx_db \<Rightarrow> lease_db
    \<Rightarrow> ((nat \<times> rat) \<times> lease_db) result" where
  "calculate_present_value_for_run en ac runs fx db =
     bindE (lease_request_of_run en ac runs) (\<lambda>(_, payload).
     bindE (register_leases_for_run en ac payload db) (\<lambda>((leases, payments), db).
     bindE (foldE (lease_present_value en ac payload fx payments) 0 leases) (\<lambda>total_pv.
     Inr ((length leases, fixed6 total_pv), db))))"

section \<open>Liability rows\<close>

definition run_liability :: "activity \<Rightarrow> lease_db \<Rightarrow> lease_liability_schedule row list" where
  "run_liability ac db =
     filter (\<lambda>r. row_tenant r = ac_tenant_id ac \<and> ll_run_id (row_values r) = ac_run_id ac) (ld_liability db)"

text \<open>The two unique constraints of the table.\<close>

definition liability_conflict :: "lease_liability_schedule \<Rightarrow> lease_db \<Rightarrow> bool" where
  "liability_conflict v db \<longleftrightarrow> list_ex (\<lambda>r. let w = row_values r in
     ll_run_id w = ll_run_id v \<and> lr_lease_id (ll_row w) = lr_lease_id (ll_row v)
     \<and> lr_schedule_version_token (ll_row w) = lr_schedule_version_token (ll_row v)
     \<and> (lr_schedule_date (ll_row w) = lr_schedule_date (ll_row v)
        \<or> lr_period_seq (ll_row w) = lr_period_seq (ll_row v))) (ld_liability db)"

definition store_liability :: "lease_liability_schedule \<Rightarrow> lease_liability_schedule result" where
  "store_liability v =
     bindE (numeric_20_6 (lr_opening (ll_row v))) (\<lambda>op.
     bindE (numeric_20_6 (lr_interest (ll_row v))) (\<lambda>interest.
     bindE (numeric_20_6 (lr_payment (ll_row v))) (\<lambda>payment.
     bindE (numeric_20_6 (lr_closing (ll_row v))) (\<lambda>closing.
     bindE (numeric_20_6 (lr_fx_rate_used (ll_row v))) (\<lambda>rate.
     Inr (v\<lparr>ll_row := (ll_row v)\<lparr>lr_opening := op, lr_interest := interest, lr_payment := payment,
       lr_closing := closing, lr_fx_rate_used := rate\<rparr>\<rparr>))))))"

definition liability_rows_at :: "activity \<Rightarrow> liability_row \<Rightarrow> lease_db \<Rightarrow> lease_liability_schedule row list" where
  "liability_rows_at ac row db =
     filter (\<lambda>r. let w = ll_row (row_values r) in
       lr_lease_id w = lr_lease_id row \<and> lr_schedule_date w = lr_schedule_date row
       \<and> lr_schedule_version_token w = lr_schedule_version_token row
       \<and> lr_period_seq w = lr_period_seq row) (run_liability ac db)"

definition insert_liability :: "lease_engine \<Rightarrow> activity \<Rightarrow> string \<Rightarrow> liability_row
    \<Rightarrow> lease_db \<Rightarrow> (lease_liability_schedule row \<times> lease_db) result" where
  "insert_liability en ac action row db =
     bindE (store_liability \<lparr>ll_run_id = ac_run_id ac, ll_row = row, ll_correlation_id = ac_correlation_id ac\<rparr>) (\<lambda>v.
     bindE (raise_if (liability_conflict v db) IntegrityError) (\<lambda>_.
     let (r, rows, env) = insert_financial_record (ln_sha en) (\<lambda>v. v) (ac_tenant_id ac)
           (JDict [(''run_id'', JStr (uuid_text (ac_run_id ac))), (''lease_id'', JStr (uuid_text (lr_lease_id row))),
                   (''period_seq'', JInt (int (lr_period_seq row))),
                   (''schedule_date'', JStr (date_text (lr_schedule_date row))),
                   (''schedule_version_token'', JStr (lr_schedule_version_token row))])
           v (Some (lease_event (ac_tenant_id ac) (ac_user_id ac) action ''lease_liability_schedule''
             [(''run_id'', JStr (uuid_text (ac_run_id ac))), (''lease_id'', JStr (uuid_text (lr_lease_id row))),
              (''schedule_date'', JStr (date_text (lr_schedule_date row))),
              (''schedule_version_token'', JStr (lr_schedule_version_token row)),
              (''correlation_id'', JStr (ac_correlation_id ac))]))
           (ld_liability db, ld_env db)
     in Inr (r, db\<lparr>ld_liability := rows, ld_env := env\<rparr>)))"

definition persist_liability :: "lease_engine \<Rightarrow> activity \<Rightarrow> string \<Rightarrow> nat \<times> lease_db \<Rightarrow> liability_row
    \<Rightarrow> (nat \<times> lease_db) result" where
  "persist_liability en ac action = (\<lambda>(inserted, db) row.
     bindE (one_or_none (liability_rows_at ac row db)) (\<lambda>existing.
     case existing of
       Some _ \<Rightarrow> Inr (inserted, db)
     | None \<Rightarrow> bindE (insert_liability en ac action row db) (\<lambda>(_, db). Inr (inserted + 1, db))))"

section \<open>Regeneration after a modification\<close>

definition liability_version :: "activity \<Rightarrow> uuid \<Rightarrow> string \<Rightarrow> lease_db \<Rightarrow> lease_liability_schedule row list" where
  "liability_version ac lease_id token db =
     filter (\<lambda>r. lr_lease_id (ll_row (row_values r)) = lease_id
       \<and> lr_schedule_version_token (ll_row (row_values r)) = token) (run_liability ac db)"

definition prior_liability_rows :: "activity \<Rightarrow> uuid \<Rightarrow> string \<Rightarrow> lease_db \<Rightarrow> lease_liability_schedule row list" where
  "prior_liability_rows ac lease_id token db =
     sort_key (\<lambda>r. (lr_schedule_date (ll_row (row_values r)), lr_period_seq (ll_row (row_values r)), row_id r))
       (liability_version ac lease_id token db)"

text \<open>The rows of the new version: the delta opens the first, interest and payments are copied.\<close>

fun regenerated_liability :: "uuid \<Rightarrow> string \<Rightarrow> rat \<Rightarrow> rat \<Rightarrow> nat \<Rightarrow> lease_liability_schedule row list \<Rightarrow> liability_row list" where
  "regenerated_liability lease_id new_token delta running_opening period_seq [] = []"
| "regenerated_liability lease_id new_token delta running_opening period_seq (source_row # rest) =
     (let s = ll_row (row_values source_row);
          op = (if delta \<noteq> 0 then fixed6 (dadd running_opening delta) else running_opening);
          closing = fixed6 (dsub (dadd op (lr_interest s)) (lr_payment s))
      in s\<lparr>lr_lease_id := lease_id, lr_period_seq := period_seq + 1, lr_schedule_version_token := new_token,
           lr_opening := op, lr_closing := closing\<rparr>
         # regenerated_liability lease_id new_token 0 closing (period_seq + 1) rest)"

definition regenerate_liability :: "lease_engine \<Rightarrow> activity \<Rightarrow> uuid \<Rightarrow> nat \<times> lease_db \<Rightarrow> persisted_lease_modification
    \<Rightarrow> (nat \<times> lease_db) result" where
  "regenerate_liability en ac lease_id = (\<lambda>(inserted, db) modification.
     let prior = prior_liability_rows ac lease_id (pl_prior_schedule_version_token modification) db;
         before = (\<lambda>r. lr_schedule_date (ll_row (row_values r)) < pl_effective_date modification);
         historic = filter before prior;
         forward = filter (\<lambda>r. \<not> before r) prior in
     if forward = [] then Inr (inserted, db)
     else
       let running_opening = (if historic = [] then lr_opening (ll_row (row_values (hd forward)))
             else lr_closing (ll_row (row_values (last historic))));
           period_seq = fold max (map (\<lambda>r. lr_period_seq (ll_row (row_values r))) historic) 0
       in foldE (persist_liability en ac ''lease.liability_schedule.regenerated'') (inserted, db)
            (regenerated_liability lease_id (pl_new_schedule_version_token modification)
              (pl_remeasurement_delta modification) running_opening period_seq forward))"

definition generate_liability_schedule_for_run :: "lease_engine \<Rightarrow> activity \<Rightarrow> run_header row list \<Rightarrow> fx_db \<Rightarrow> lease_db
    \<Rightarrow> ((nat \<times> nat) \<times> lease_db) result" where
  "generate_liability_schedule_for_run en ac runs fx db =
     bindE (lease_request_of_run en ac runs) (\<lambda>(_, payload).
     bindE (register_leases_for_run en ac payload db) (\<lambda>((leases, payments), db).
     bindE (generate_liability_schedule_rows (ln_sha en) (ln_babel en) (ac_tenant_id ac) fx leases payments
              (lrq_reporting_currency payload) (lrq_rate_mode payload)) (\<lambda>generated.
     bindE (foldE (persist_liability en ac ''lease.liability_schedule.created'') (0, db) (lg_rows generated)) (\<lambda>(inserted, db).
     bindE (apply_lease_modifications (ln_sha en) (ln_dec_str en)
              \<lparr>rm_tenant_id = ac_tenant_id ac, rm_user_id = ac_user_id ac, rm_run_id = ac_run_id ac,
               rm_correlation_id = ac_correlation_id ac, rm_reporting_currency = lrq_reporting_currency payload,
               rm_rate_mode = rate_mode_value (lrq_rate_mode payload)\<rparr>
              (lrq_leases payload) leases (lg_root_schedule_version_tokens generated) db) (\<lambda>(remeasurement, db).
     bindE (foldE (\<lambda>st (lease_id, modifications). foldE (regenerate_liability en ac lease_id) st modifications) (0, db)
              (lz_modifications_by_lease remeasurement)) (\<lambda>(regenerated_inserted, db).
     Inr ((inserted + regenerated_inserted, lz_modification_count remeasurement), db)))))))"

section \<open>The effective version\<close>

definition lease_root_version_token :: "activity \<Rightarrow> uuid \<Rightarrow> lease_db \<Rightarrow> string option" where
  "lease_root_version_token ac lease_id db =
     (case earliest_by modification_order (modifications_of (ac_tenant_id ac) (ac_run_id ac) lease_id db) of
        Some first_modification \<Rightarrow> Some (lmo_prior_schedule_version_token (row_values first_modification))
      | None \<Rightarrow>
          map_option (\<lambda>r. lr_schedule_version_token (ll_row (row_values r)))
            (earliest_by (\<lambda>r. (row_created_at r, lr_period_seq (ll_row (row_values r)), row_id r))
              (filter (\<lambda>r. lr_lease_id (ll_row (row_values r)) = lease_id) (run_liability ac db))))"

definition lease_effective_version_token :: "activity \<Rightarrow> uuid \<Rightarrow> string \<Rightarrow> lease_db \<Rightarrow> string" where
  "lease_effective_version_token ac lease_id root_schedule_version_token db =
     (case latest_by modification_order (modifications_of (ac_tenant_id ac) (ac_run_id ac) lease_id db) of
        None \<Rightarrow> root_schedule_version_token
      | Some latest_modification \<Rightarrow> lmo_new_schedule_version_token (row_values latest_modification))"

definition lease_tokens :: "activity \<Rightarrow> lease_db \<Rightarrow> uuid list \<Rightarrow> (uuid \<times> string) list" where
  "lease_tokens ac db lease_ids =
     concat (map (\<lambda>lease_id. case lease_root_version_token ac lease_id db of
         None \<Rightarrow> []
       | Some root_token \<Rightarrow> [(lease_id, lease_effective_version_token ac lease_id root_token db)]) lease_ids)"

text \<open>\<open>SELECT DISTINCT lease_id ... ORDER BY lease_id\<close> of the run's liability rows.\<close>

definition run_lease_ids :: "activity \<Rightarrow> lease_db \<Rightarrow> uuid list" where
  "run_lease_ids ac db = sort (remdups (map (\<lambda>r. lr_lease_id (ll_row (row_values r))) (run_liability ac db)))"

definition effective_liability :: "activity \<Rightarrow> (uuid \<times> string) list \<Rightarrow> lease_db \<Rightarrow> lease_liability_schedule row list" where
  "effective_liability ac tokens db =
     concat (map (\<lambda>(lease_id, token). prior_liability_rows ac lease_id token db) tokens)"

section \<open>Right-of-use rows\<close>

definition run_rou :: "activity \<Rightarrow> lease_db \<Rightarrow> lease_rou_schedule row list" where
  "run_rou ac db =
     filter (\<lambda>r. row_tenant r = ac_tenant_id ac \<and> lu_run_id (row_values r) = ac_run_id ac) (ld_rou db)"

definition rou_conflict :: "lease_rou_schedule \<Rightarrow> lease_db \<Rightarrow> bool" where
  "rou_conflict v db \<longleftrightarrow> list_ex (\<lambda>r. let w = row_values r in
     lu_run_id w = lu_run_id v \<and> ru_lease_id (lu_row w) = ru_lease_id (lu_row v)
     \<and> ru_schedule_version_token (lu_row w) = ru_schedule_version_token (lu_row v)
     \<and> (ru_schedule_date (lu_row w) = ru_schedule_date (lu_row v)
        \<or> ru_period_seq (lu_row w) = ru_period_seq (lu_row v))) (ld_rou db)"

definition store_rou :: "lease_rou_schedule \<Rightarrow> lease_rou_schedule result" where
  "store_rou v =
     bindE (numeric_20_6 (ru_opening (lu_row v))) (\<lambda>op.
     bindE (numeric_20_6 (ru_amortization (lu_row v))) (\<lambda>amortization.
     bindE (numeric_20_6 (ru_impairment (lu_row v))) (\<lambda>impairment.
     bindE (numeric_20_6 (ru_closing (lu_row v))) (\<lambda>closing.
     bindE (numeric_20_6 (ru_fx_rate_used (lu_row v))) (\<lambda>rate.
     Inr (v\<lparr>lu_row := (lu_row v)\<lparr>ru_opening := op, ru_amortization := amortization, ru_impairment := impairment,
       ru_closing := closing, ru_fx_rate_used := rate\<rparr>\<rparr>))))))"

definition rou_rows_at :: "activity \<Rightarrow> rou_row \<Rightarrow> lease_db \<Rightarrow> lease_rou_schedule row list" where
  "rou_rows_at ac row db =
     filter (\<lambda>r. let w = lu_row (row_values r) in
       ru_lease_id w = ru_lease_id row \<and> ru_schedule_date w = ru_schedule_date row
       \<and> ru_schedule_version_token w = ru_schedule_version_token row
       \<and> ru_period_seq w = ru_period_seq row) (run_rou ac db)"

definition insert_rou :: "lease_engine \<Rightarrow> activity \<Rightarrow> rou_row \<Rightarrow> lease_db \<Rightarrow> (lease_rou_schedule row \<times> lease_db) result" where
  "insert_rou en ac row db =
     bindE (store_rou \<lparr>lu_run_id = ac_run_id ac, lu_row = row, lu_correlation_id = ac_correlation_id ac\<rparr>) (\<lambda>v.
     bindE (raise_if (rou_conflict v db) IntegrityError) (\<lambda>_.
     let (r, rows, env) = insert_financial_record (ln_sha en) (\<lambda>v. v) (ac_tenant_id ac)
           (JDict [(''run_id'', JStr (uuid_text (ac_run_id ac))), (''lease_id'', JStr (uuid_text (ru_lease_id row))),
                   (''period_seq'', JInt (int (ru_period_seq row))),
                   (''schedule_date'', JStr (date_text (ru_schedule_date row))),
                   (''schedule_version_token'', JStr (ru_schedule_version_token row))])
           v (Some (lease_event (ac_tenant_id ac) (ac_user_id ac) ''lease.rou_schedule.created'' ''lease_rou_schedule''
             [(''run_id'', JStr (uuid_text (ac_run_id ac))), (''lease_id'', JStr (uuid_text (ru_lease_id row))),
              (''schedule_date'', JStr (date_text (ru_schedule_date row))),
              (''schedule_version_token'', JStr (ru_schedule_version_token row)),
              (''correlation_id'', JStr (ac_correlation_id ac))]))
           (ld_rou db, ld_env db)
     in Inr (r, db\<lparr>ld_rou := rows, ld_env := env\<rparr>)))"

definition persist_rou :: "lease_engine \<Rightarrow> activity \<Rightarrow> nat \<times> lease_db \<Rightarrow> rou_row \<Rightarrow> (nat \<times> lease_db) result" where
  "persist_rou en ac = (\<lambda>(inserted, db) row.
     bindE (one_or_none (rou_rows_at ac row db)) (\<lambda>existing.
     case existing of
       Some _ \<Rightarrow> Inr (inserted, db)
     | None \<Rightarrow> bindE (insert_rou en ac row db) (\<lambda>(_, db). Inr (inserted + 1, db))))"

text \<open>Two impairments of a lease on one day: the dict keeps the later one.\<close>

definition impairment_lookup :: "registered_lease list \<Rightarrow> lease_input list \<Rightarrow> (uuid \<times> (date \<times> rat) list) list result" where
  "impairment_lookup leases inputs =
     foldE (\<lambda>lookup l. case dict_by le_lease_number leases (lin_lease_number l) of
         None \<Rightarrow> Inl KeyError
       | Some lease \<Rightarrow> Inr (AList.update (le_lease_id lease)
           (py_dict (map (\<lambda>im. (im_schedule_date im, im_impairment_amount im)) (lin_impairments l))) lookup)) [] inputs"

text \<open>The activity acts as the user who started the run; \<open>initiated_by\<close> is a non-null column.\<close>

definition as_initiator :: "run_header row \<Rightarrow> activity \<Rightarrow> activity" where
  "as_initiator run ac = (case rh_initiated_by (row_values run) of None \<Rightarrow> ac | Some u \<Rightarrow> ac\<lparr>ac_user_id := u\<rparr>)"

definition generate_rou_schedule_for_run :: "lease_engine \<Rightarrow> activity \<Rightarrow> run_header row list \<Rightarrow> lease_db
    \<Rightarrow> (nat \<times> lease_db) result" where
  "generate_rou_schedule_for_run en ac runs db =
     bindE (lease_request_of_run en ac runs) (\<lambda>(run, payload).
     let ac = as_initiator run ac in
     bindE (register_leases (ln_sha en) (ln_babel en) (ac_tenant_id ac) (ac_user_id ac) (ac_correlation_id ac)
              (lrq_leases payload) db) (\<lambda>(leases, db).
     let tokens = lease_tokens ac db (sort (map le_lease_id leases));
         liability = effective_liability ac (py_dict tokens) db in
     bindE (raise_if (liability = [])
              (AccountingValidationError ''INVALID_EVENT_SEQUENCE'' ''Cannot generate ROU schedule before liability schedule'')) (\<lambda>_.
     bindE (impairment_lookup leases (lrq_leases payload)) (\<lambda>impairments.
     bindE (generate_rou_schedule_rows leases (map (\<lambda>r. ll_row (row_values r)) liability) impairments) (\<lambda>generated.
     foldE (persist_rou en ac) (0, db) generated)))))"

section \<open>Journals\<close>

record lease_posting =
  po_lease_id :: uuid
  po_liability_schedule_id :: "uuid option"
  po_rou_schedule_id :: "uuid option"
  po_entry_date :: date
  po_debit_account :: string
  po_credit_account :: string
  po_amount :: rat
  po_source_lease_reference :: string
  po_parent_reference_id :: uuid
  po_source_reference_id :: uuid

definition lease_journals_of :: "activity \<Rightarrow> lease_posting \<Rightarrow> lease_db \<Rightarrow> lease_journal_entry row list" where
  "lease_journals_of ac p db = filter (\<lambda>r. row_tenant r = ac_tenant_id ac \<and> lj_run_id (row_values r) = ac_run_id ac
     \<and> lj_liability_schedule_id (row_values r) = po_liability_schedule_id p
     \<and> lj_rou_schedule_id (row_values r) = po_rou_schedule_id p
     \<and> lj_debit_account (row_values r) = po_debit_account p
     \<and> lj_credit_account (row_values r) = po_credit_account p) (ld_journals db)"

definition insert_lease_journal :: "lease_engine \<Rightarrow> activity \<Rightarrow> nat \<Rightarrow> lease_posting \<Rightarrow> lease_db
    \<Rightarrow> (lease_journal_entry row \<times> lease_db) result" where
  "insert_lease_journal en ac sequence p db =
     bindE (build_journal_reference ''LSE'' (ac_run_id ac) (int sequence)) (\<lambda>journal_reference.
     bindE (numeric_20_6 (po_amount p)) (\<lambda>amount.
     let (r, rows, env) = insert_financial_record (ln_sha en) (\<lambda>v. v) (ac_tenant_id ac)
           (str_dict [(''run_id'', uuid_text (ac_run_id ac)), (''lease_id'', uuid_text (po_lease_id p)),
                      (''journal_reference'', journal_reference)])
           \<lparr>lj_run_id = ac_run_id ac, lj_lease_id = po_lease_id p, lj_liability_schedule_id = po_liability_schedule_id p,
            lj_rou_schedule_id = po_rou_schedule_id p, lj_journal_reference = journal_reference,
            lj_entry_date = po_entry_date p, lj_debit_account = po_debit_account p,
            lj_credit_account = po_credit_account p, lj_amount = amount,
            lj_source_lease_reference = po_source_lease_reference p, lj_parent_reference_id = po_parent_reference_id p,
            lj_source_reference_id = po_source_reference_id p, lj_correlation_id = ac_correlation_id ac\<rparr>
           (Some (lease_event (ac_tenant_id ac) (ac_user_id ac) ''lease.journal.preview.created'' ''lease_journal_entry''
             [(''run_id'', JStr (uuid_text (ac_run_id ac))), (''lease_id'', JStr (uuid_text (po_lease_id p))),
              (''journal_sequence'', JInt (int sequence)), (''correlation_id'', JStr (ac_correlation_id ac))]))
           (ld_journals db, ld_env db)
     in Inr (r, db\<lparr>ld_journals := rows, ld_env := env\<rparr>)))"

text \<open>\<open>_insert_journal_row\<close>, and the caller's two counters.\<close>

definition insert_journal_row :: "lease_engine \<Rightarrow> activity \<Rightarrow> nat \<Rightarrow> lease_posting \<Rightarrow> lease_db \<Rightarrow> (bool \<times> lease_db) result" where
  "insert_journal_row en ac sequence p db =
     (if po_amount p \<le> 0 then Inr (False, db)
      else bindE (one_or_none (lease_journals_of ac p db)) (\<lambda>existing.
        case existing of
          Some _ \<Rightarrow> Inr (False, db)
        | None \<Rightarrow> bindE (insert_lease_journal en ac sequence p db) (\<lambda>(_, db). Inr (True, db))))"

definition post_journal :: "lease_engine \<Rightarrow> activity \<Rightarrow> nat \<times> nat \<times> lease_db \<Rightarrow> lease_posting
    \<Rightarrow> (nat \<times> nat \<times> lease_db) result" where
  "post_journal en ac = (\<lambda>(sequence, inserted, db) p.
     bindE (insert_journal_row en ac sequence p db) (\<lambda>(created, db).
     Inr (if created then (sequence + 1, inserted + 1, db) else (sequence, inserted, db))))"

definition liability_postings :: "lease_liability_schedule row \<Rightarrow> lease_posting list" where
  "liability_postings r = (let s = ll_row (row_values r);
       posting = (\<lambda>debit credit amount.
         \<lparr>po_lease_id = lr_lease_id s, po_liability_schedule_id = Some (row_id r), po_rou_schedule_id = None,
          po_entry_date = lr_schedule_date s, po_debit_account = debit, po_credit_account = credit, po_amount = amount,
          po_source_lease_reference = lr_source_lease_reference s, po_parent_reference_id = row_id r,
          po_source_reference_id = lr_source_reference_id s\<rparr>) in
     [posting ''Lease Interest Expense'' ''Lease Liability'' (lr_interest s),
      posting ''Lease Liability'' ''Cash'' (lr_payment s)])"

definition rou_posting :: "lease_rou_schedule row \<Rightarrow> lease_posting" where
  "rou_posting r = (let s = lu_row (row_values r) in
     \<lparr>po_lease_id = ru_lease_id s, po_liability_schedule_id = None, po_rou_schedule_id = Some (row_id r),
      po_entry_date = ru_schedule_date s, po_debit_account = ''Lease Expense'', po_credit_account = ''ROU Asset'',
      po_amount = dadd (ru_amortization s) (ru_impairment s),
      po_source_lease_reference = ru_source_lease_reference s, po_parent_reference_id = row_id r,
      po_source_reference_id = ru_source_reference_id s\<rparr>)"

definition effective_rou :: "activity \<Rightarrow> (uuid \<times> string) list \<Rightarrow> lease_db \<Rightarrow> lease_rou_schedule row list" where
  "effective_rou ac tokens db =
     concat (map (\<lambda>(lease_id, token).
       sort_key (\<lambda>r. (ru_schedule_date (lu_row (row_values r)), ru_period_seq (lu_row (row_values r)), row_id r))
         (filter (\<lambda>r. ru_lease_id (lu_row (row_values r)) = lease_id
            \<and> ru_schedule_version_token (lu_row (row_values r)) = token) (run_rou ac db))) tokens)"

definition lease_postings :: "activity \<Rightarrow> lease_db \<Rightarrow> lease_posting list" where
  "lease_postings ac db = (let tokens = lease_tokens ac db (run_lease_ids ac db) in
     concat (map liability_postings (effective_liability ac tokens db)) @ map rou_posting (effective_rou ac tokens db))"

definition build_lease_journal_preview :: "lease_engine \<Rightarrow> activity \<Rightarrow> lease_db \<Rightarrow> (nat \<times> lease_db) result" where
  "build_lease_journal_preview en ac db =
     bindE (foldE (post_journal en ac) (1, 0, db) (lease_postings ac db)) (\<lambda>(_, inserted, db).
     Inr (inserted, db))"

section \<open>Lineage and results\<close>

definition validate_lease_lineage :: "uuid \<Rightarrow> uuid \<Rightarrow> lease_db \<Rightarrow> lineage_validation_result" where
  "validate_lease_lineage tenant_id run_id db =
     (let liability = filter (\<lambda>r. row_tenant r = tenant_id \<and> ll_run_id (row_values r) = run_id) (ld_liability db);
          rou = filter (\<lambda>r. row_tenant r = tenant_id \<and> lu_run_id (row_values r) = run_id) (ld_rou db);
          journals = filter (\<lambda>r. row_tenant r = tenant_id \<and> lj_run_id (row_values r) = run_id) (ld_journals db);
          liability_ids = row_id ` set (filter (\<lambda>r. ll_run_id (row_values r) = run_id) (ld_liability db));
          rou_ids = row_id ` set (filter (\<lambda>r. lu_run_id (row_values r) = run_id) (ld_rou db));
          missing_liability_lease_links = missing (\<lambda>r. lr_lease_id (ll_row (row_values r))) (ld_leases db) liability;
          missing_liability_payment_links = length (filter (\<lambda>r. case lr_payment_id (ll_row (row_values r)) of
            None \<Rightarrow> False | Some p \<Rightarrow> p \<notin> row_id ` set (ld_payments db)) liability);
          missing_rou_lease_links = missing (\<lambda>r. ru_lease_id (lu_row (row_values r))) (ld_leases db) rou;
          missing_journal_schedule_links = length (filter (\<lambda>r.
            (case lj_liability_schedule_id (row_values r) of None \<Rightarrow> True | Some i \<Rightarrow> i \<notin> liability_ids)
            \<and> (case lj_rou_schedule_id (row_values r) of None \<Rightarrow> True | Some i \<Rightarrow> i \<notin> rou_ids)) journals);
          counts = [missing_liability_lease_links, missing_liability_payment_links, missing_rou_lease_links,
                    missing_journal_schedule_links] in
      \<lparr>lv_is_complete = list_all (\<lambda>n. n = 0) counts, lv_error_code = ''LINEAGE_INCOMPLETE'',
       lv_details = zip [''missing_liability_lease_links'', ''missing_liability_payment_links'',
         ''missing_rou_lease_links'', ''missing_journal_schedule_links''] (map (\<lambda>n. JInt (int n)) counts)\<rparr>)"

definition validate_lease_lineage_for_run :: "uuid \<Rightarrow> uuid \<Rightarrow> lease_db \<Rightarrow> lineage_validation_result result" where
  "validate_lease_lineage_for_run tenant_id run_id db =
     (let outcome = validate_lease_lineage tenant_id run_id db in
      if lv_is_complete outcome then Inr outcome
      else Inl (AccountingValidationError ''LINEAGE_INCOMPLETE'' ''LINEAGE_INCOMPLETE''))"

record lease_results =
  lrs_run_id :: uuid
  lrs_reporting_currency :: string
  lrs_liability_rows :: "(uuid \<times> liability_row) list"
  lrs_rou_rows :: "(uuid \<times> rou_row) list"
  lrs_liability_count :: nat
  lrs_rou_count :: nat
  lrs_total_interest :: rat
  lrs_total_amortization :: rat

definition get_lease_results :: "activity \<Rightarrow> run_header row list \<Rightarrow> lease_db \<Rightarrow> lease_results result" where
  "get_lease_results ac runs db =
     bindE (get_lease_run_or_raise (ac_tenant_id ac) (ac_run_id ac) runs) (\<lambda>run.
     let tokens = lease_tokens ac db (run_lease_ids ac db);
         liability = map (\<lambda>r. (row_id r, ll_row (row_values r))) (effective_liability ac tokens db);
         rou = map (\<lambda>r. (row_id r, lu_row (row_values r))) (effective_rou ac tokens db) in
     Inr \<lparr>lrs_run_id = ac_run_id ac,
          lrs_reporting_currency = stored_reporting_currency (rh_configuration_json (row_values run)),
          lrs_liability_rows = liability, lrs_rou_rows = rou,
          lrs_liability_count = length liability, lrs_rou_count = length rou,
          lrs_total_interest = fixed6 (dsum (map (\<lambda>(_, s). lr_interest s) liability)),
          lrs_total_amortization = fixed6 (dsum (map (\<lambda>(_, s). ru_amortization s) rou))\<rparr>)"

end
