(* ===== verification/Schedule_Store.thy ===== *)
theory Schedule_Store
  imports Revenue_Runs
begin

text \<open>
  What the unique constraints of the schedule table do to a generated schedule: the loops that
  persist rows, first generated and then regenerated, store exactly the rows they are given,
  once, as long as no two rows of a contract's version share a recognition date.
\<close>

section \<open>One row\<close>

definition storable_row :: "generated_schedule_row \<Rightarrow> bool" where
  "storable_row r \<longleftrightarrow> stored_amount (gs_base_amount r) \<and> stored_amount (gs_fx_rate_used r)
     \<and> stored_amount (gs_recognized_amount r) \<and> stored_amount (gs_cumulative_recognized r)"

text \<open>The two keys of a row within its run.\<close>

definition date_key :: "generated_schedule_row \<Rightarrow> uuid \<times> string \<times> date" where
  "date_key r = (gs_contract_id r, gs_schedule_version_token r, gs_recognition_date r)"

definition seq_key :: "generated_schedule_row \<Rightarrow> uuid \<times> string \<times> nat" where
  "seq_key r = (gs_contract_id r, gs_schedule_version_token r, gs_period_seq r)"

definition rows_of_run :: "uuid \<Rightarrow> revenue_schedule row list \<Rightarrow> generated_schedule_row list" where
  "rows_of_run run_id rows = map (\<lambda>r. rd_row (row_values r)) (filter (\<lambda>r. rd_run_id (row_values r) = run_id) rows)"

lemma rows_of_run_snoc: "rows_of_run i (rows @ [r]) =
    rows_of_run i rows @ (if rd_run_id (row_values r) = i then [rd_row (row_values r)] else [])"
  by (simp add: rows_of_run_def)

lemma in_rows_of_run: "r \<in> set rows \<Longrightarrow> rd_run_id (row_values r) = i \<Longrightarrow> rd_row (row_values r) \<in> set (rows_of_run i rows)"
  by (auto simp: rows_of_run_def)

lemma store_schedule_storable: "storable_row (rd_row v) \<Longrightarrow> store_schedule v = Inr v"
  by (simp add: store_schedule_def storable_row_def stored_amount_def)

lemma store_schedule_keys:
  assumes "store_schedule v = Inr w"
  shows "rd_run_id w = rd_run_id v" and "date_key (rd_row w) = date_key (rd_row v)" and "seq_key (rd_row w) = seq_key (rd_row v)"
  using assms by (auto simp: store_schedule_def result_simps date_key_def seq_key_def)

lemma schedule_conflict_iff:
  "schedule_conflict v db \<longleftrightarrow> date_key (rd_row v) \<in> date_key ` set (rows_of_run (rd_run_id v) (rv_schedules db))
     \<or> seq_key (rd_row v) \<in> seq_key ` set (rows_of_run (rd_run_id v) (rv_schedules db))"
proof -
  have "date_key (rd_row v) \<in> date_key ` set (rows_of_run i rows) \<longleftrightarrow> (\<exists>r \<in> set rows. rd_run_id (row_values r) = i
      \<and> date_key (rd_row (row_values r)) = date_key (rd_row v))"
    "seq_key (rd_row v) \<in> seq_key ` set (rows_of_run i rows) \<longleftrightarrow> (\<exists>r \<in> set rows. rd_run_id (row_values r) = i
      \<and> seq_key (rd_row (row_values r)) = seq_key (rd_row v))" for i rows
    unfolding rows_of_run_def set_map set_filter image_iff by (auto dest: sym)
  then show ?thesis
    unfolding schedule_conflict_def list_ex_iff Let_def by (auto simp: date_key_def seq_key_def)
qed

lemma insert_schedule_elim:
  assumes "insert_schedule en ac action new_value row db = Inr (r, db')"
  obtains v where "store_schedule \<lparr>rd_run_id = ac_run_id ac, rd_row = row, rd_correlation_id = ac_correlation_id ac\<rparr> = Inr v"
    and "\<not> schedule_conflict v db" and "row_tenant r = ac_tenant_id ac" and "row_values r = v"
    and "rv_schedules db' = rv_schedules db @ [r]" and "rv_adjustments db' = rv_adjustments db" and "rv_journals db' = rv_journals db"
proof -
  obtain v rows env data audit where v: "store_schedule \<lparr>rd_run_id = ac_run_id ac, rd_row = row, rd_correlation_id = ac_correlation_id ac\<rparr> = Inr v"
    and c: "\<not> schedule_conflict v db"
    and f: "insert_financial_record (en_sha en) (\<lambda>v. v) (ac_tenant_id ac) data v audit (rv_schedules db, rv_env db) = (r, rows, env)"
    and db': "db' = db\<lparr>rv_schedules := rows, rv_env := env\<rparr>"
    using assms unfolding insert_schedule_def bindE_Inr_iff raise_if_Inr_iff Let_def insert_then_Inr_iff by blast
  from insert_financial_record_facts [OF f] db' show thesis by (intro that [OF v c]) simp_all
qed

lemma insert_schedule_total:
  assumes "storable_row row"
    and "date_key row \<notin> date_key ` set (rows_of_run (ac_run_id ac) (rv_schedules db))"
    and "seq_key row \<notin> seq_key ` set (rows_of_run (ac_run_id ac) (rv_schedules db))"
  shows "\<exists>r db'. insert_schedule en ac action new_value row db = Inr (r, db')"
  using assms by (simp add: insert_schedule_def store_schedule_storable schedule_conflict_iff Let_def insert_then_total)

lemma insert_schedule_conflict:
  assumes "storable_row row" and "date_key row \<in> date_key ` set (rows_of_run (ac_run_id ac) (rv_schedules db))"
  shows "insert_schedule en ac action new_value row db = Inl IntegrityError"
  using assms by (simp add: insert_schedule_def store_schedule_storable schedule_conflict_iff)

lemma schedule_rows_at_run:
  "seq_key row \<notin> seq_key ` set (rows_of_run (ac_run_id ac) (rv_schedules db)) \<Longrightarrow>
     schedule_rows_at ac (gs_contract_id row) (gs_recognition_date row) (gs_schedule_version_token row) (gs_period_seq row) db = []"
proof -
  assume new: "seq_key row \<notin> seq_key ` set (rows_of_run (ac_run_id ac) (rv_schedules db))"
  have "seq_key (rd_row (row_values r)) \<noteq> seq_key row" if "r \<in> set (rv_schedules db)" "rd_run_id (row_values r) = ac_run_id ac" for r
    using new in_rows_of_run [OF that] by (metis imageI)
  then show ?thesis by (auto simp: schedule_rows_at_def filter_empty_conv seq_key_def)
qed

section \<open>The loop\<close>

text \<open>A loop over rows that persists each, whatever its audit text.\<close>

definition persist_rows :: "revenue_engine \<Rightarrow> activity \<Rightarrow> string \<Rightarrow> (generated_schedule_row \<Rightarrow> (string \<times> string) list)
    \<Rightarrow> nat \<times> revenue_db \<Rightarrow> generated_schedule_row list \<Rightarrow> (nat \<times> revenue_db) result" where
  "persist_rows en ac action text = foldE (\<lambda>st row. persist_schedule en ac action (text row) st row)"

lemma persist_generated_rows: "\<exists>text. foldE (persist_generated en ac) = persist_rows en ac ''revenue.schedule.created'' text"
  unfolding persist_rows_def persist_generated_def [abs_def] by (rule exI) (rule refl)

lemma persist_regenerated_rows: "\<exists>text. foldE (persist_regenerated en ac) = persist_rows en ac ''revenue.schedule.regenerated'' text"
  unfolding persist_rows_def persist_regenerated_def [abs_def] by (rule exI) (rule refl)

text \<open>What a loop over storable rows leaves: exactly these rows, appended in order.\<close>

definition appended_rows :: "activity \<Rightarrow> revenue_db \<Rightarrow> generated_schedule_row list \<Rightarrow> revenue_db \<Rightarrow> bool" where
  "appended_rows ac db rows db' \<longleftrightarrow> (\<exists>new. rv_schedules db' = rv_schedules db @ new
     \<and> map (\<lambda>r. rd_row (row_values r)) new = rows
     \<and> (\<forall>r \<in> set new. row_tenant r = ac_tenant_id ac \<and> rd_run_id (row_values r) = ac_run_id ac))
     \<and> rv_adjustments db' = rv_adjustments db \<and> rv_journals db' = rv_journals db"

lemma appended_none [simp]: "appended_rows ac db [] db"
  by (simp add: appended_rows_def)

lemma appended_trans: "appended_rows ac a xs b \<Longrightarrow> appended_rows ac b ys c \<Longrightarrow> appended_rows ac a (xs @ ys) c"
  unfolding appended_rows_def by (elim conjE exE) (intro conjI exI [of _ "_ @ _"], auto)

lemma appended_run:
  "appended_rows ac db rows db' \<Longrightarrow> rows_of_run (ac_run_id ac) (rv_schedules db') = rows_of_run (ac_run_id ac) (rv_schedules db) @ rows"
  unfolding appended_rows_def rows_of_run_def by (elim conjE exE) (simp add: filter_id_conv)

lemma insert_schedule_appends:
  assumes "insert_schedule en ac action new_value row db = Inr (r, db')" and "storable_row row"
  shows "appended_rows ac db [row] db'"
  by (rule insert_schedule_elim [OF assms(1)])
    (use assms(2) in \<open>auto simp: appended_rows_def store_schedule_storable\<close>)

lemma persist_schedule_fresh:
  assumes "storable_row row"
    and "seq_key row \<notin> seq_key ` set (rows_of_run (ac_run_id ac) (rv_schedules db))"
  shows "if date_key row \<in> date_key ` set (rows_of_run (ac_run_id ac) (rv_schedules db))
    then persist_schedule en ac action new_value (n, db) row = Inl IntegrityError
    else \<exists>db'. persist_schedule en ac action new_value (n, db) row = Inr (n + 1, db') \<and> appended_rows ac db [row] db'"
proof (cases "date_key row \<in> date_key ` set (rows_of_run (ac_run_id ac) (rv_schedules db))")
  case True
  then show ?thesis
    by (simp add: persist_schedule_def schedule_rows_at_run [OF assms(2)] one_or_none_def insert_schedule_conflict [OF assms(1) True])
next
  case False
  from insert_schedule_total [OF assms(1) False assms(2)]
  obtain r db' where i: "insert_schedule en ac action new_value row db = Inr (r, db')" by blast
  then show ?thesis using False insert_schedule_appends [OF i assms(1)]
    by (simp add: persist_schedule_def schedule_rows_at_run [OF assms(2)] one_or_none_def)
qed

lemma persist_rows_fresh:
  assumes "\<forall>r \<in> set rows. storable_row r"
    and "distinct (map seq_key (rows_of_run (ac_run_id ac) (rv_schedules db) @ rows))"
    and "distinct (map date_key (rows_of_run (ac_run_id ac) (rv_schedules db)))"
  shows "if distinct (map date_key (rows_of_run (ac_run_id ac) (rv_schedules db) @ rows))
    then \<exists>db'. persist_rows en ac action text (n, db) rows = Inr (n + length rows, db') \<and> appended_rows ac db rows db'
    else persist_rows en ac action text (n, db) rows = Inl IntegrityError"
  using assms
proof (induction rows arbitrary: n db)
  case (Cons row rows)
  let ?old = "rows_of_run (ac_run_id ac) (rv_schedules db)"
  have seq: "seq_key row \<notin> seq_key ` set ?old" using Cons.prems(2) by auto
  note step = persist_schedule_fresh [OF _ seq, of en action "text row" n]
  show ?case
  proof (cases "date_key row \<in> date_key ` set ?old")
    case True
    then show ?thesis using step Cons.prems(1) by (auto simp: persist_rows_def)
  next
    case False
    then obtain db1 where p: "persist_schedule en ac action (text row) (n, db) row = Inr (n + 1, db1)"
      and a: "appended_rows ac db [row] db1" using step Cons.prems(1) by auto
    have run: "rows_of_run (ac_run_id ac) (rv_schedules db1) = ?old @ [row]" by (rule appended_run [OF a])
    have "if distinct (map date_key ((?old @ [row]) @ rows))
      then \<exists>db'. persist_rows en ac action text (n + 1, db1) rows = Inr (n + 1 + length rows, db') \<and> appended_rows ac db1 rows db'
      else persist_rows en ac action text (n + 1, db1) rows = Inl IntegrityError"
      using Cons.IH [of db1 "n + 1"] Cons.prems False unfolding run by simp
    then show ?thesis using p appended_trans [OF a] by (auto simp: persist_rows_def split: if_splits)
  qed
qed (auto simp: persist_rows_def)

text \<open>Persisting again what was persisted finds every row.\<close>

lemma schedule_rows_at_appended:
  assumes "appended_rows ac db rows db'" and "row \<in> set rows"
    and "distinct (map seq_key (rows_of_run (ac_run_id ac) (rv_schedules db) @ rows))"
  shows "\<exists>r. schedule_rows_at ac (gs_contract_id row) (gs_recognition_date row) (gs_schedule_version_token row) (gs_period_seq row) db' = [r]"
proof -
  let ?P = "\<lambda>r. row_tenant r = ac_tenant_id ac \<and> rd_run_id (row_values r) = ac_run_id ac
       \<and> gs_contract_id (rd_row (row_values r)) = gs_contract_id row
       \<and> gs_recognition_date (rd_row (row_values r)) = gs_recognition_date row
       \<and> gs_schedule_version_token (rd_row (row_values r)) = gs_schedule_version_token row
       \<and> gs_period_seq (rd_row (row_values r)) = gs_period_seq row"
  obtain new where new: "rv_schedules db' = rv_schedules db @ new" "map (\<lambda>r. rd_row (row_values r)) new = rows"
    "\<forall>r \<in> set new. row_tenant r = ac_tenant_id ac \<and> rd_run_id (row_values r) = ac_run_id ac"
    using assms(1) unfolding appended_rows_def by blast
  have "seq_key row \<notin> seq_key ` set (rows_of_run (ac_run_id ac) (rv_schedules db))" using assms(2,3) by auto
  then have old: "filter ?P (rv_schedules db) = []" using schedule_rows_at_run by (simp add: schedule_rows_at_def)
  obtain r where r: "r \<in> set new" "rd_row (row_values r) = row" using assms(2) new(2) by auto
  then obtain xs ys where s: "new = xs @ r # ys" by (metis split_list)
  have "seq_key (rd_row (row_values x)) \<noteq> seq_key row" if "x \<in> set (xs @ ys)" for x
    using assms(3) that unfolding new(2) [symmetric] s r(2) [symmetric] by (auto simp: image_iff)
  then have "filter ?P xs = []" "filter ?P ys = []" by (force simp: filter_empty_conv seq_key_def)+
  then have "filter ?P new = [r]" using r new(3) unfolding s by simp
  then show ?thesis using old by (simp add: schedule_rows_at_def new(1))
qed

lemma persist_rows_again:
  assumes "appended_rows ac db rows db'" and "distinct (map seq_key (rows_of_run (ac_run_id ac) (rv_schedules db) @ rows))"
  shows "persist_rows en ac action text (n, db') rows = Inr (n, db')"
proof -
  have "persist_schedule en ac action (text r) (n, db') r = Inr (n, db')" if "r \<in> set rows" for r
    using schedule_rows_at_appended [OF assms(1) that assms(2)] by (auto simp: persist_schedule_def one_or_none_def)
  then have "set xs \<subseteq> set rows \<Longrightarrow> persist_rows en ac action text (n, db') xs = Inr (n, db')" for xs
    by (induction xs) (auto simp: persist_rows_def)
  then show ?thesis by simp
qed

section \<open>A generated schedule\<close>

lemma distinct_keyed:
  assumes "\<forall>c. distinct (map f (group_of key c xs))"
  shows "distinct (map (\<lambda>x. (key x, g x, f x)) xs)"
  using assms
proof (induction xs)
  case (Cons x xs)
  have "distinct (map f (group_of key c xs))" for c
    using Cons.prems [rule_format, of c] by (auto simp: group_of_simps split: if_splits)
  moreover have "f y \<noteq> f x" if "y \<in> set xs" "key y = key x" for y
  proof -
    have "y \<in> set (group_of key (key x) xs)" using that by (simp add: group_of_def)
    then show ?thesis using Cons.prems [rule_format, of "key x"] by (auto simp: group_of_simps image_iff)
  qed
  ultimately show ?case using Cons.IH by fastforce
qed simp

lemma generated_seq_distinct:
  assumes "generate_schedule_rows sha babel t fx contracts lines allocations rep mode = Inr out"
  shows "distinct (map seq_key (go_rows out))"
proof -
  have "distinct (map gs_period_seq (group_of gs_contract_id c (go_rows out)))" for c
    unfolding generated_numbers [OF assms] by simp
  then show ?thesis unfolding seq_key_def [abs_def] by (intro distinct_keyed allI)
qed

lemma stored_or_refused:
  assumes "generate_schedule_rows sha babel t fx contracts lines allocations rep mode = Inr out"
    and "rows_of_run (ac_run_id ac) (rv_schedules db) = []" and "\<forall>r \<in> set (go_rows out). storable_row r"
  shows "if distinct (map date_key (go_rows out))
    then \<exists>db'. foldE (persist_generated en ac) (0, db) (go_rows out) = Inr (length (go_rows out), db')
      \<and> appended_rows ac db (go_rows out) db'
      \<and> foldE (persist_generated en ac) (0, db') (go_rows out) = Inr (0, db')
    else foldE (persist_generated en ac) (0, db) (go_rows out) = Inl IntegrityError"
proof -
  note seq = generated_seq_distinct [OF assms(1)]
  obtain audit_text where loop: "foldE (persist_generated en ac) = persist_rows en ac ''revenue.schedule.created'' audit_text"
    using persist_generated_rows by blast
  note fresh = persist_rows_fresh [OF assms(3), of ac db en _ audit_text 0, unfolded assms(2), simplified, OF seq]
  note again = persist_rows_again [of ac db "go_rows out", unfolded assms(2), simplified, OF _ seq]
  show ?thesis
  proof (cases "distinct (map date_key (go_rows out))")
    case True
    then obtain db' where "persist_rows en ac ''revenue.schedule.created'' audit_text (0, db) (go_rows out) = Inr (length (go_rows out), db')"
      and "appended_rows ac db (go_rows out) db'" using fresh by fastforce
    then show ?thesis using True again unfolding loop by auto
  qed (use fresh in \<open>simp add: loop\<close>)
qed

text \<open>(C36) The run's schedule table against a generated schedule.  On a run that has no rows
  yet, a schedule whose amounts fit their columns is stored as it is, in order, and storing it
  again writes nothing, provided that no two rows of a contract share a recognition date;
  when two do, \<open>uq_revenue_schedules_natural\<close> refuses the schedule.\<close>

theorem generated_schedule_stored:
  assumes "generate_schedule_rows sha babel t fx contracts lines allocations rep mode = Inr out"
    and "rows_of_run (ac_run_id ac) (rv_schedules db) = []" and "\<forall>r \<in> set (go_rows out). storable_row r"
  shows "if distinct (map date_key (go_rows out))
    then \<exists>db'. foldE (persist_generated en ac) (0, db) (go_rows out) = Inr (length (go_rows out), db')
      \<and> appended_rows ac db (go_rows out) db'
      \<and> foldE (persist_generated en ac) (0, db') (go_rows out) = Inr (0, db')
    else foldE (persist_generated en ac) (0, db) (go_rows out) = Inl IntegrityError"
  by (rule stored_or_refused [OF assms])

text \<open>A contract with two line items that are recognised on a common date cannot be
  scheduled: the run fails on the unique constraint, whatever the request holds beside them.\<close>

theorem shared_recognition_date_fails:
  assumes "run_request en ac runs = Inr payload"
    and "register_for_run en ac payload db = Inr ((contracts, os), db1)"
    and "allocate_contract_values contracts (os_obligations os) = Inr allocations"
    and gen: "generate_schedule_rows (en_sha en) (en_babel en) (ac_tenant_id ac) fx contracts (os_line_items os) allocations
      (rq_reporting_currency payload) (rq_rate_mode payload) = Inr out"
    and "rows_of_run (ac_run_id ac) (rv_schedules db1) = []" and "\<forall>r \<in> set (go_rows out). storable_row r"
    and "i < j" and "j < length (go_rows out)" and "date_key (go_rows out ! i) = date_key (go_rows out ! j)"
  shows "generate_revenue_schedule_for_run en ac runs fx db = Inl IntegrityError"
proof -
  have "\<not> distinct (map date_key (go_rows out))"
    using assms(7-9) nth_eq_iff_index_eq [of "map date_key (go_rows out)" i j] by auto
  then have "foldE (persist_generated en ac) (0, db1) (go_rows out) = Inl IntegrityError"
    using stored_or_refused [OF gen assms(5,6)] by simp
  then show ?thesis by (simp add: generate_revenue_schedule_for_run_def assms(1-3) gen)
qed

section \<open>A contract with two straight-line items\<close>

definition ex_registered_line :: "uuid \<Rightarrow> uuid \<Rightarrow> string \<Rightarrow> string \<Rightarrow> registered_line_item" where
  "ex_registered_line i ob code oc =
     registered_line_of_row ex_registered ob straight_line (ex_line_input code oc) (stored i (ex_stored_line ob code))"

definition ex_allocated :: "uuid \<Rightarrow> string \<Rightarrow> obligation_allocation" where
  "ex_allocated ob code = \<lparr>oa_contract_id = 11, oa_obligation_id = ob, oa_obligation_code = code, oa_allocated_amount = 60\<rparr>"

lemma ex_halves:
  "dsum [40, 40] = 80" "quantize_persisted_amount 80 = Inr 80" "ddiv 40 80 = Inr (1 / 2)"
  "quantize_persisted_amount (dmul 120 (1 / 2)) = Inr 60" "dsum [60, 60] = 120" "quantize_persisted_amount 120 = Inr 120"
  "quantize_persisted_amount (dsub 120 120) = Inr 0"
  by (simp_all add: dsum_exact dsub_exact dmul_def ddiv_def micro_dec_round quantize_id money_def micro_def)

lemma ex_allocates_evenly:
  "allocate_contract_values [ex_registered] (os_obligations ex_registered_set) = Inr [ex_allocated 2 ''A'', ex_allocated 3 ''B'']"
  by (simp add: allocate_contract_values_def allocate_contract_def ex_registered_set_def registered_obligation_of_row_def
      ex_registered_def registered_of_row_def stored_def ex_stored_contract_def ex_stored_obligation_def group_of_def
      allocate_obligation_def adjust_anchor_def ex_halves ex_allocated_def)

lemma ex_thirds:
  "ddiv 1 3 = Inr (3333333333333333333333333333 / 10000000000000000000000000000)"
  "quantize_persisted_amount (3333333333333333333333333333 / 10000000000000000000000000000) = Inr (333333 / 1000000)"
  by code_simp+

lemma ex_exact:
  "dsum [333333 / 1000000, 333333 / 1000000, 333333 / 1000000] = 999999 / 1000000"
  "quantize_persisted_amount (dsub 1 (999999 / 1000000)) = Inr (1 / 1000000)"
  "quantize_persisted_amount (dadd (333333 / 1000000) (1 / 1000000)) = Inr (166667 / 500000)"
  "dsum [166667 / 500000, 333333 / 1000000, 333333 / 1000000] = 1"
  "quantize_persisted_amount 1 = Inr 1"
  "quantize_persisted_amount (dmul 60 (166667 / 500000)) = Inr (500001 / 25000)"
  "quantize_persisted_amount (dmul 60 (333333 / 1000000)) = Inr (999999 / 50000)"
  "quantize_persisted_amount (dmul (500001 / 25000) 1) = Inr (500001 / 25000)"
  "quantize_persisted_amount (dmul (999999 / 50000) 1) = Inr (999999 / 50000)"
  "quantize_persisted_amount (dadd 0 (500001 / 25000)) = Inr (500001 / 25000)"
  "quantize_persisted_amount (dadd (500001 / 25000) (999999 / 50000)) = Inr (2000001 / 50000)"
  "quantize_persisted_amount (dadd (2000001 / 50000) (999999 / 50000)) = Inr 60"
  "dsum [500001 / 25000, 999999 / 50000, 999999 / 50000] = 60"
  "quantize_persisted_amount 60 = Inr 60"
  "quantize_persisted_amount (dsub 60 60) = Inr 0"
  "quantize_persisted_amount (dadd (999999 / 50000) 0) = Inr (999999 / 50000)"
  "quantize_persisted_amount (dadd (dsub 60 (999999 / 50000)) (999999 / 50000)) = Inr 60"
  "quantize_persisted_amount (dsum [60]) = Inr 60"
  "quantize_persisted_amount (dmul 60 1) = Inr 60"
  "ddiv 60 60 = Inr 1"
  by (simp_all add: dsum_exact dadd_exact dsub_exact dmul_def ddiv_def micro_dec_round quantize_id money_def micro_def)

lemmas ex_numbers = ex_thirds ex_exact

lemma ex_months:
  "month_points (Date 2025 1 1) (Date 2025 3 31) = [Date 2025 1 31, Date 2025 2 28, Date 2025 3 31]"
  "\<not> Date 2025 3 31 < Date 2025 1 1"
  by code_simp+

lemmas ex_line_unfold = ex_registered_line_def registered_line_of_row_def ex_registered_def registered_of_row_def
  stored_def ex_stored_contract_def ex_stored_line_def ex_line_input_def

text \<open>The month's row of an item: its share, and what is recognised so far.\<close>

definition ex_row :: "string \<Rightarrow> uuid \<Rightarrow> uuid \<Rightarrow> int \<Rightarrow> int \<Rightarrow> rat \<Rightarrow> rat \<Rightarrow> generated_schedule_row" where
  "ex_row tok i ob m d x cum = \<lparr>gs_contract_id = 11, gs_obligation_id = ob, gs_contract_line_item_id = i, gs_period_seq = 0,
     gs_recognition_date = Date 2025 m d, gs_recognition_period_year = 2025, gs_recognition_period_month = m,
     gs_recognition_method = straight_line, gs_base_amount = x, gs_fx_rate_used = 1, gs_recognized_amount = x,
     gs_cumulative_recognized = cum, gs_schedule_version_token = tok, gs_schedule_status = ''recognized'',
     gs_source_contract_reference = ''S'', gs_parent_reference_id = ob, gs_source_reference_id = i\<rparr>"

definition ex_line_rows :: "string \<Rightarrow> uuid \<Rightarrow> uuid \<Rightarrow> generated_schedule_row list" where
  "ex_line_rows tok i ob = [ex_row tok i ob 1 31 (500001 / 25000) (500001 / 25000),
     ex_row tok i ob 2 28 (999999 / 50000) (2000001 / 50000), ex_row tok i ob 3 31 (999999 / 50000) 60]"

lemma ex_eur: "normalize_currency_code None ''EUR'' = Inr ''EUR''"
  by code_simp

lemma ex_eur_rate: "resolve_fx_rate None t mode fx ''EUR'' ''EUR'' d = Inr 1"
  by (simp add: resolve_fx_rate_def ex_eur)

lemma ex_line_fields:
  "rl_line_item_id (ex_registered_line i ob code oc) = i" "rl_contract_id (ex_registered_line i ob code oc) = 11"
  "rl_obligation_id (ex_registered_line i ob code oc) = ob" "rl_line_currency (ex_registered_line i ob code oc) = ''EUR''"
  "rl_recognition_method (ex_registered_line i ob code oc) = straight_line"
  "rl_source_contract_reference (ex_registered_line i ob code oc) = ''S''"
  "rl_line_amount (ex_registered_line i ob code oc) = 60" "rl_line_code (ex_registered_line i ob code oc) = code"
  "rl_recognition_start_date (ex_registered_line i ob code oc) = None" "rl_recognition_end_date (ex_registered_line i ob code oc) = None"
  "rc_contract_start_date ex_registered = Date 2025 1 1" "rc_contract_end_date ex_registered = Date 2025 3 31"
  by (simp_all add: ex_line_unfold)

lemma ex_registered_points:
  "recognition_points_for_line (ex_registered_line i ob code oc) ex_registered =
     Inr [(Date 2025 1 31, 166667 / 500000, ''recognized''), (Date 2025 2 28, 333333 / 1000000, ''recognized''),
       (Date 2025 3 31, 333333 / 1000000, ''recognized'')]"
  unfolding recognition_points_for_line_def ex_line_fields recognition_method.case option.case Let_def ex_months
  by (simp add: ex_months Let_def ex_numbers numeral_3_eq_3)

lemma ex_line_rows_base:
  "line_rows (resolve_fx_rate None t mode fx) (ex_registered_line i ob code oc) ''EUR'' tok 60 0
     [(Date 2025 1 31, 166667 / 500000, ''recognized''), (Date 2025 2 28, 333333 / 1000000, ''recognized''),
       (Date 2025 3 31, 333333 / 1000000, ''recognized'')] = Inr (ex_line_rows tok i ob)"
  by (simp only: line_rows.simps ex_line_fields ex_eur_rate ex_numbers bindE_simps ex_line_rows_def ex_row_def date.sel)

lemma ex_tail: "adjust_tail 1 60 (ex_line_rows tok i ob) = Inr (ex_line_rows tok i ob)"
  by (simp add: adjust_tail_def ex_line_rows_def ex_row_def ex_numbers Let_def)

lemma ex_generates_line:
  "generate_line (resolve_fx_rate None t mode fx) ''EUR'' tok ex_registered [(i, 60)] (ex_registered_line i ob code oc)
     = Inr (ex_line_rows tok i ob)"
  by (simp add: generate_line_def ex_registered_points ex_numbers ex_line_fields ex_line_rows_base ex_tail del: line_rows.simps)

lemma ex_line_shares: "line_base_allocation [ex_registered_line i ob code oc] 60 = Inr [(i, 60)]"
  by (simp add: line_base_allocation_def provisional_line_shares_def settle_line_shares_def ex_line_fields ex_numbers py_dict_def)

abbreviation ex_lines :: "registered_line_item list" where
  "ex_lines \<equiv> [ex_registered_line 4 2 ''L1'' ''A'', ex_registered_line 5 3 ''L2'' ''B'']"

lemma ex_generates_allocation:
  "generate_allocation (resolve_fx_rate None t mode fx) ''EUR'' tok ex_registered ex_lines (ex_allocated 2 ''A'')
     = Inr (ex_line_rows tok 4 2)"
  "generate_allocation (resolve_fx_rate None t mode fx) ''EUR'' tok ex_registered ex_lines (ex_allocated 3 ''B'')
     = Inr (ex_line_rows tok 5 3)"
  by (simp_all add: generate_allocation_def group_of_simps ex_line_fields ex_allocated_def ex_line_shares ex_generates_line)

definition ex_root :: "sha \<Rightarrow> string" where
  "ex_root sha = root_token_for sha ''EUR'' daily 11"

definition ex_schedule_rows :: "sha \<Rightarrow> generated_schedule_row list" where
  "ex_schedule_rows sha = sequence_rows (\<lambda>_. 0) (sort_key row_order (ex_line_rows (ex_root sha) 4 2 @ ex_line_rows (ex_root sha) 5 3))"

lemma ex_generates:
  "generate_schedule_rows sha None t fx [ex_registered] ex_lines [ex_allocated 2 ''A'', ex_allocated 3 ''B''] ''EUR'' daily
     = Inr \<lparr>go_root_schedule_version_tokens = [(11, ex_root sha)], go_rows = ex_schedule_rows sha\<rparr>"
proof -
  have "oa_contract_id (ex_allocated ob code) = 11" for ob code by (simp add: ex_allocated_def)
  then show ?thesis
    by (simp add: generate_schedule_rows_def ex_eur dict_by_def ex_codes ex_generates_allocation ex_schedule_rows_def
        ex_root_def [symmetric] Let_def del: sort_key_simps)
qed

lemma sequence_rows_date_key: "map date_key (sequence_rows seq rows) = map date_key rows"
proof (induction seq rows rule: sequence_rows.induct)
  case (2 seq row rows)
  moreover have "date_key (row\<lparr>gs_period_seq := n\<rparr>) = date_key row" for n by (simp add: date_key_def)
  ultimately show ?case by (simp add: Let_def fun_upd_def)
qed simp

lemma ex_rows_clash: "\<not> distinct (map date_key (ex_schedule_rows sha))"
  by (simp add: ex_schedule_rows_def sequence_rows_date_key ex_line_rows_def ex_row_def date_key_def del: sort_key_simps)

lemma ex_stored_amounts:
  "stored_amount 1" "stored_amount 60" "stored_amount (500001 / 25000)" "stored_amount (999999 / 50000)" "stored_amount (2000001 / 50000)"
  by (simp_all add: stored_amount_def numeric_id micro_def)

lemma ex_rows_storable: "\<forall>r \<in> set (ex_schedule_rows sha). storable_row r"
proof
  fix r assume "r \<in> set (ex_schedule_rows sha)"
  then obtain n q where "q \<in> set (ex_line_rows (ex_root sha) 4 2 @ ex_line_rows (ex_root sha) 5 3)" and r: "r = q\<lparr>gs_period_seq := n\<rparr>"
    unfolding ex_schedule_rows_def by (auto dest: sequence_rows_set simp del: sort_key_simps)
  then have "storable_row q" unfolding ex_line_rows_def ex_row_def
    by (auto simp: storable_row_def ex_stored_amounts)
  then show "storable_row r" by (simp add: r storable_row_def)
qed

text \<open>The run over the request of contract K1.\<close>

definition ex_engine :: revenue_engine where
  "ex_engine = \<lparr>en_sha = (\<lambda>s. s), en_babel = None, en_dec_str = (\<lambda>_. ''0''),
     en_parse = (\<lambda>_. Inr \<lparr>rq_reporting_currency = ''EUR'', rq_rate_mode = daily, rq_period_year = None,
       rq_period_month = None, rq_contracts = [ex_contract_input ''K1'']\<rparr>)\<rparr>"

definition ex_activity :: activity where
  "ex_activity = \<lparr>ac_tenant_id = 7, ac_run_id = 50, ac_user_id = 8, ac_correlation_id = ''corr''\<rparr>"

definition ex_run :: "run_header row" where
  "ex_run = stored 50 \<lparr>rh_request_signature = ''sig'', rh_workflow_id = ''w'', rh_correlation_id = None,
     rh_configuration_json = None, rh_initiated_by = None\<rparr>"

lemma generated_schedule_stored_witness:
  "foldE (persist_generated ex_engine ex_activity) (0, ex_registered_db) (ex_schedule_rows (\<lambda>s. s)) = Inl IntegrityError"
  using generated_schedule_stored [OF ex_generates, of ex_activity ex_registered_db "\<lambda>s. s" ex_engine] ex_rows_clash ex_rows_storable
  by (simp add: ex_registered_db_def rows_of_run_def)

lemma shared_recognition_date_fails_witness:
  "generate_revenue_schedule_for_run ex_engine ex_activity [ex_run] ex_fx_db ex_registered_db = Inl IntegrityError"
proof -
  let ?p = "\<lparr>rq_reporting_currency = ''EUR'', rq_rate_mode = daily, rq_period_year = None,
       rq_period_month = None, rq_contracts = [ex_contract_input ''K1'']\<rparr>"
  have request: "run_request ex_engine ex_activity [ex_run] = Inr ?p"
    by (simp add: run_request_def get_run_or_raise_def ex_activity_def ex_engine_def ex_run_def stored_def)
  have reg: "register_for_run ex_engine ex_activity ?p ex_registered_db = Inr (([ex_registered], ex_registered_set), ex_registered_db)"
    by (simp add: register_for_run_def ex_engine_def ex_activity_def ex_registered_request)
  have lines: "os_line_items ex_registered_set = ex_lines"
    by (simp add: ex_registered_set_def ex_registered_line_def)
  have gen: "generate_schedule_rows (en_sha ex_engine) (en_babel ex_engine) (ac_tenant_id ex_activity) ex_fx_db [ex_registered]
      (os_line_items ex_registered_set) [ex_allocated 2 ''A'', ex_allocated 3 ''B''] (rq_reporting_currency ?p) (rq_rate_mode ?p)
    = Inr \<lparr>go_root_schedule_version_tokens = [(11, ex_root (\<lambda>s. s))], go_rows = ex_schedule_rows (\<lambda>s. s)\<rparr>"
    unfolding lines by (simp add: ex_engine_def ex_generates)
  obtain i j where "i < j" "j < length (ex_schedule_rows (\<lambda>s. s))"
    "date_key (ex_schedule_rows (\<lambda>s. s) ! i) = date_key (ex_schedule_rows (\<lambda>s. s) ! j)"
    using ex_rows_clash [of "\<lambda>s. s"] by (auto simp: distinct_conv_nth) (metis nat_neq_iff)
  then show ?thesis
    using shared_recognition_date_fails [OF request reg ex_allocates_evenly gen, of i j] ex_rows_storable
    by (simp add: ex_registered_db_def rows_of_run_def)
qed

section \<open>Regeneration\<close>

lemma stored_amount_micro: "stored_amount x \<Longrightarrow> micro x"
  using stored_amount_money money_micro by blast

lemma stored_amount_less:
  assumes "stored_amount x"
  shows "\<bar>x\<bar> < 10 ^ 14"
proof -
  define k where "k = round_half_up (x * 10 ^ 6)"
  have k: "x = of_int k / 10 ^ 6" "\<bar>k\<bar> < 10 ^ 20"
    using assms unfolding stored_amount_def numeric_20_6_def k_def [symmetric] by (auto simp: Let_def split: if_splits)
  then have "\<bar>rat_of_int k\<bar> < 10 ^ 20" by (metis of_int_abs of_int_less_iff of_int_numeral of_int_power)
  then show ?thesis unfolding k(1) by simp
qed

lemma fixed6_micro: "micro x \<Longrightarrow> fixed6 x = x"
  by (auto simp: fixed6_def micro_iff)

lemma dadd_stored:
  assumes "stored_amount x" and "stored_amount y"
  shows "fixed6 (dadd x y) = x + y"
proof -
  have "\<bar>x + y\<bar> < 10 ^ 22" using stored_amount_less [OF assms(1)] stored_amount_less [OF assms(2)] by (simp add: abs_less_iff)
  then have "dadd x y = x + y" using assms by (simp add: dadd_exact stored_amount_micro)
  then show ?thesis using assms by (simp add: fixed6_micro micro_add stored_amount_micro)
qed

definition forward_rows :: "activity \<Rightarrow> uuid \<Rightarrow> persisted_adjustment \<Rightarrow> revenue_db \<Rightarrow> revenue_schedule row list" where
  "forward_rows ac c adj db = filter (\<lambda>r. pa_effective_date adj \<le> gs_recognition_date (rd_row (row_values r)))
     (prior_rows ac c (pa_prior_schedule_version_token adj) db)"

text \<open>The rows of the new version.\<close>

definition new_version_rows :: "activity \<Rightarrow> uuid \<Rightarrow> persisted_adjustment \<Rightarrow> revenue_db \<Rightarrow> generated_schedule_row list" where
  "new_version_rows ac c adj db =
     (let historic = filter (\<lambda>r. gs_recognition_date (rd_row (row_values r)) < pa_effective_date adj)
            (prior_rows ac c (pa_prior_schedule_version_token adj) db) in
      regenerated_rows (pa_new_schedule_version_token adj) (pa_catch_up_amount_reporting_currency adj)
        (if historic = [] then 0 else gs_cumulative_recognized (rd_row (row_values (last historic))))
        (fold max (map (\<lambda>r. gs_period_seq (rd_row (row_values r))) historic) 0) (forward_rows ac c adj db))"

lemma regenerate_eq:
  "regenerate en ac c (n, db) adj = (if forward_rows ac c adj db = [] then Inr (n, db)
     else foldE (persist_regenerated en ac) (n, db) (new_version_rows ac c adj db))"
  by (simp add: regenerate_def forward_rows_def new_version_rows_def Let_def not_less)

lemma regenerated_fields:
  "length (regenerated_rows tok x running k rows) = length rows"
  "map gs_recognition_date (regenerated_rows tok x running k rows) = map (\<lambda>r. gs_recognition_date (rd_row (row_values r))) rows"
  "map gs_contract_id (regenerated_rows tok x running k rows) = map (\<lambda>r. gs_contract_id (rd_row (row_values r))) rows"
  "map gs_schedule_version_token (regenerated_rows tok x running k rows) = replicate (length rows) tok"
  "map gs_period_seq (regenerated_rows tok x running k rows) = [k + 1..<k + 1 + length rows]"
  by (induction rows arbitrary: x running k) (simp_all add: Let_def upt_conv_Cons del: upt_Suc)

lemma regenerated_sum:
  assumes "\<forall>r \<in> set rows. stored_amount (gs_recognized_amount (rd_row (row_values r)))" and "stored_amount x"
  shows "sum_list (map gs_recognized_amount (regenerated_rows tok x running k rows))
    = sum_list (map (\<lambda>r. gs_recognized_amount (rd_row (row_values r))) rows) + (if rows = [] then 0 else x)"
  using assms
proof (induction rows arbitrary: x running k)
  case (Cons r rows)
  have z: "stored_amount 0" by (simp add: stored_amount_def numeric_id)
  have "fixed6 (if x \<noteq> 0 then dadd (gs_recognized_amount (rd_row (row_values r))) x else gs_recognized_amount (rd_row (row_values r)))
      = gs_recognized_amount (rd_row (row_values r)) + x"
    using Cons.prems by (simp add: dadd_stored fixed6_micro stored_amount_micro)
  then show ?case using Cons.IH [OF _ z] Cons.prems(1) by (simp add: Let_def)
qed simp

lemma forward_rows_in:
  assumes "r \<in> set (forward_rows ac c adj db)"
  shows "gs_contract_id (rd_row (row_values r)) = c" and "pa_effective_date adj \<le> gs_recognition_date (rd_row (row_values r))"
  using assms by (simp_all add: forward_rows_def prior_rows_def version_rows_def)

lemma forward_dates_distinct:
  assumes "distinct (map date_key (rows_of_run (ac_run_id ac) (rv_schedules db)))"
  shows "distinct (map (\<lambda>r. gs_recognition_date (rd_row (row_values r))) (forward_rows ac c adj db))"
proof -
  let ?key = "\<lambda>r. date_key (rd_row (row_values r))"
  let ?run = "filter (\<lambda>r. rd_run_id (row_values r) = ac_run_id ac) (rv_schedules db)"
  have "distinct (map ?key ?run)" using assms by (simp add: rows_of_run_def comp_def)
  moreover have "version_rows ac c tok db = filter (\<lambda>r. row_tenant r = ac_tenant_id ac
      \<and> gs_contract_id (rd_row (row_values r)) = c \<and> gs_schedule_version_token (rd_row (row_values r)) = tok) ?run" for tok
    by (auto simp: version_rows_def intro: filter_cong)
  ultimately have "distinct (map ?key (version_rows ac c tok db))" for tok
    by (simp only: distinct_map_filter)
  then have "distinct (map ?key (forward_rows ac c adj db))"
    by (simp add: forward_rows_def prior_rows_def distinct_map_filter)
  moreover have "?key r = (c, pa_prior_schedule_version_token adj, gs_recognition_date (rd_row (row_values r)))"
    if "r \<in> set (forward_rows ac c adj db)" for r
    using that by (simp add: forward_rows_def prior_rows_def version_rows_def date_key_def)
  then have "map ?key (forward_rows ac c adj db) = map (\<lambda>d. (c, pa_prior_schedule_version_token adj, d))
      (map (\<lambda>r. gs_recognition_date (rd_row (row_values r))) (forward_rows ac c adj db))" by simp
  ultimately show ?thesis by (simp only: distinct_map)
qed

lemma new_version_fields:
  "length (new_version_rows ac c adj db) = length (forward_rows ac c adj db)"
  "map gs_recognition_date (new_version_rows ac c adj db) =
     map (\<lambda>r. gs_recognition_date (rd_row (row_values r))) (forward_rows ac c adj db)"
  "r \<in> set (new_version_rows ac c adj db) \<Longrightarrow> gs_contract_id r = c"
  "r \<in> set (new_version_rows ac c adj db) \<Longrightarrow> gs_schedule_version_token r = pa_new_schedule_version_token adj"
  "distinct (map gs_period_seq (new_version_rows ac c adj db))"
proof -
  have c: "map gs_contract_id (new_version_rows ac c adj db) = map (\<lambda>r. gs_contract_id (rd_row (row_values r))) (forward_rows ac c adj db)"
    and t: "map gs_schedule_version_token (new_version_rows ac c adj db) = replicate (length (forward_rows ac c adj db)) (pa_new_schedule_version_token adj)"
    by (simp_all add: new_version_rows_def Let_def regenerated_fields)
  show "length (new_version_rows ac c adj db) = length (forward_rows ac c adj db)"
    and "map gs_recognition_date (new_version_rows ac c adj db) =
      map (\<lambda>r. gs_recognition_date (rd_row (row_values r))) (forward_rows ac c adj db)"
    and "distinct (map gs_period_seq (new_version_rows ac c adj db))"
    by (simp_all add: new_version_rows_def Let_def regenerated_fields)
  assume r: "r \<in> set (new_version_rows ac c adj db)"
  then have "gs_contract_id r \<in> set (map gs_contract_id (new_version_rows ac c adj db))" by simp
  then show "gs_contract_id r = c" unfolding c using forward_rows_in(1) by auto
  have "gs_schedule_version_token r \<in> set (map gs_schedule_version_token (new_version_rows ac c adj db))" using r by simp
  then show "gs_schedule_version_token r = pa_new_schedule_version_token adj" unfolding t by (auto split: if_splits)
qed

lemma appended_version_rows:
  assumes "appended_rows ac db rows db'"
    and "\<forall>r \<in> set (rows_of_run (ac_run_id ac) (rv_schedules db)). gs_schedule_version_token r \<noteq> tok"
    and "\<forall>r \<in> set rows. gs_contract_id r = c \<and> gs_schedule_version_token r = tok"
  shows "map (\<lambda>r. rd_row (row_values r)) (version_rows ac c tok db') = rows"
proof -
  obtain new where new: "rv_schedules db' = rv_schedules db @ new" "map (\<lambda>r. rd_row (row_values r)) new = rows"
    "\<forall>r \<in> set new. row_tenant r = ac_tenant_id ac \<and> rd_run_id (row_values r) = ac_run_id ac"
    using assms(1) unfolding appended_rows_def by blast
  have "version_rows ac c tok db = []"
    using assms(2) in_rows_of_run by (fastforce simp: version_rows_def filter_empty_conv)
  moreover have "filter (\<lambda>r. row_tenant r = ac_tenant_id ac \<and> rd_run_id (row_values r) = ac_run_id ac
      \<and> gs_contract_id (rd_row (row_values r)) = c \<and> gs_schedule_version_token (rd_row (row_values r)) = tok) new = new"
    using assms(3) new(3) unfolding new(2) [symmetric] by (simp add: filter_id_conv)
  ultimately show ?thesis using new(2) by (simp add: version_rows_def new(1))
qed

text \<open>(C37) What a contract modification leaves of a schedule.  The version it creates holds one
  row for each row of the prior version on or after the effective date, at the same dates; its
  recognised total is theirs plus the catch-up.  The rows before the effective date are not
  carried over: they stay in the prior version alone.\<close>

theorem regenerated_version_is_forward_only:
  assumes "distinct (map seq_key (rows_of_run (ac_run_id ac) (rv_schedules db)))"
    and "distinct (map date_key (rows_of_run (ac_run_id ac) (rv_schedules db)))"
    and "\<forall>r \<in> set (rows_of_run (ac_run_id ac) (rv_schedules db)). gs_schedule_version_token r \<noteq> pa_new_schedule_version_token adj"
    and "\<forall>r \<in> set (forward_rows ac c adj db). stored_amount (gs_recognized_amount (rd_row (row_values r)))"
    and "stored_amount (pa_catch_up_amount_reporting_currency adj)"
    and "\<forall>r \<in> set (new_version_rows ac c adj db). storable_row r"
  shows "\<exists>db' rows. regenerate en ac c (n, db) adj = Inr (n + length rows, db')
    \<and> map (\<lambda>r. rd_row (row_values r)) (version_rows ac c (pa_new_schedule_version_token adj) db') = rows
    \<and> map gs_recognition_date rows = map (\<lambda>r. gs_recognition_date (rd_row (row_values r))) (forward_rows ac c adj db)
    \<and> (\<forall>r \<in> set rows. pa_effective_date adj \<le> gs_recognition_date r)
    \<and> sum_list (map gs_recognized_amount rows)
        = sum_list (map (\<lambda>r. gs_recognized_amount (rd_row (row_values r))) (forward_rows ac c adj db))
          + (if rows = [] then 0 else pa_catch_up_amount_reporting_currency adj)"
proof -
  let ?rows = "new_version_rows ac c adj db" and ?old = "rows_of_run (ac_run_id ac) (rv_schedules db)"
  note f = new_version_fields [where ac = ac and c = c and adj = adj and db = db]
  have keys: "map seq_key ?rows = map (\<lambda>k. (c, pa_new_schedule_version_token adj, k)) (map gs_period_seq ?rows)"
    "map date_key ?rows = map (\<lambda>d. (c, pa_new_schedule_version_token adj, d)) (map gs_recognition_date ?rows)"
    using f(3,4) by (simp_all add: seq_key_def date_key_def)
  have "distinct (map seq_key ?rows)" unfolding keys(1) using f(5) by (simp only: distinct_map) (simp add: inj_on_def)
  moreover have "distinct (map date_key ?rows)" unfolding keys(2) f(2)
    using forward_dates_distinct [OF assms(2)] by (simp only: distinct_map) (simp add: inj_on_def)
  moreover have "fst (snd (seq_key r)) \<noteq> fst (snd (seq_key q))" "fst (snd (date_key r)) \<noteq> fst (snd (date_key q))"
    if "r \<in> set ?old" "q \<in> set ?rows" for r q
    using assms(3) that f(4) by (auto simp: seq_key_def date_key_def)
  ultimately have d: "distinct (map seq_key (?old @ ?rows))" "distinct (map date_key (?old @ ?rows))"
    using assms(1,2) by (auto simp del: map_map) (metis, metis)
  obtain audit_text where loop: "foldE (persist_regenerated en ac) = persist_rows en ac ''revenue.schedule.regenerated'' audit_text"
    using persist_regenerated_rows by blast
  from persist_rows_fresh [OF assms(6) d(1) assms(2)] d(2) obtain db' where
    "foldE (persist_regenerated en ac) (n, db) ?rows = Inr (n + length ?rows, db')" and a: "appended_rows ac db ?rows db'"
    unfolding loop by metis
  then have g: "regenerate en ac c (n, db) adj = Inr (n + length ?rows, if forward_rows ac c adj db = [] then db else db')"
    unfolding regenerate_eq using f(1) by simp
  have none: "?rows = []" if "forward_rows ac c adj db = []" using f(1) that by simp
  have a': "appended_rows ac db ?rows (if forward_rows ac c adj db = [] then db else db')"
    using a none by simp
  have v: "map (\<lambda>r. rd_row (row_values r)) (version_rows ac c (pa_new_schedule_version_token adj)
      (if forward_rows ac c adj db = [] then db else db')) = ?rows"
    using f(3,4) by (intro appended_version_rows [OF a' assms(3)]) blast
  have "pa_effective_date adj \<le> d" if "d \<in> set (map gs_recognition_date ?rows)" for d
    using that forward_rows_in(2) unfolding f(2) by auto
  then have e: "\<forall>r \<in> set ?rows. pa_effective_date adj \<le> gs_recognition_date r" by simp
  have "sum_list (map gs_recognized_amount ?rows)
        = sum_list (map (\<lambda>r. gs_recognized_amount (rd_row (row_values r))) (forward_rows ac c adj db))
          + (if forward_rows ac c adj db = [] then 0 else pa_catch_up_amount_reporting_currency adj)"
    unfolding new_version_rows_def Let_def by (rule regenerated_sum [OF assms(4,5)])
  then show ?thesis using g v f(1,2) e by (intro exI [of _ "if forward_rows ac c adj db = [] then db else db'"] exI [of _ ?rows]) auto
qed

text \<open>A run with two stored rows, the second after the effective date.\<close>

definition ex_stored_schedule :: "nat \<Rightarrow> int \<Rightarrow> int \<Rightarrow> rat \<Rightarrow> revenue_schedule" where
  "ex_stored_schedule k m d cum = \<lparr>rd_run_id = 50, rd_row = (ex_row ''v0'' 4 2 m d 20 cum)\<lparr>gs_period_seq := k\<rparr>,
     rd_correlation_id = ''corr''\<rparr>"

definition ex_scheduled_db :: revenue_db where
  "ex_scheduled_db = ex_registered_db\<lparr>rv_schedules := [stored 31 (ex_stored_schedule 1 1 31 20), stored 32 (ex_stored_schedule 2 2 28 40)]\<rparr>"

definition ex_adjustment :: persisted_adjustment where
  "ex_adjustment = \<lparr>pa_adjustment_id = 41, pa_contract_id = 11, pa_effective_date = Date 2025 2 1, pa_adjustment_type = ''price'',
     pa_idempotency_key = ''k'', pa_prior_schedule_version_token = ''v0'', pa_new_schedule_version_token = ''v1'',
     pa_catch_up_amount_reporting_currency = 5\<rparr>"

lemma ex_prior_rows:
  "prior_rows ex_activity 11 ''v0'' ex_scheduled_db = [stored 31 (ex_stored_schedule 1 1 31 20), stored 32 (ex_stored_schedule 2 2 28 40)]"
  by code_simp

lemma ex_before: "\<not> Date 2025 2 1 \<le> Date 2025 1 31" "Date 2025 2 1 \<le> Date 2025 2 28" "Date 2025 1 31 < Date 2025 2 1"
  "\<not> Date 2025 2 28 < Date 2025 2 1"
  by code_simp+

lemma ex_scheduled_fields:
  "rd_row (row_values (stored i (ex_stored_schedule k m d cum))) = (ex_row ''v0'' 4 2 m d 20 cum)\<lparr>gs_period_seq := k\<rparr>"
  "rd_run_id (row_values (stored i (ex_stored_schedule k m d cum))) = 50"
  "row_id (stored i x) = i"
  by (simp_all add: stored_def ex_stored_schedule_def)

lemma ex_forward: "forward_rows ex_activity 11 ex_adjustment ex_scheduled_db = [stored 32 (ex_stored_schedule 2 2 28 40)]"
  by (simp add: forward_rows_def ex_adjustment_def ex_prior_rows ex_scheduled_fields ex_row_def ex_before)

lemma ex_small_amounts: "stored_amount 20" "stored_amount 40" "stored_amount 5" "stored_amount 25" "stored_amount 45"
  by (simp_all add: stored_amount_def numeric_id micro_def)

lemma ex_new_version:
  "\<forall>r \<in> set (new_version_rows ex_activity 11 ex_adjustment ex_scheduled_db). storable_row r"
proof -
  have "fixed6 (dadd 20 5) = 25" "fixed6 (dadd 20 25) = 45"
    using dadd_stored [OF ex_small_amounts(1,3)] dadd_stored [OF ex_small_amounts(1,4)] by simp_all
  then show ?thesis
    by (simp add: new_version_rows_def ex_forward, simp add: ex_adjustment_def ex_prior_rows ex_scheduled_fields ex_row_def ex_before
        storable_row_def ex_stored_amounts ex_small_amounts Let_def)
qed

lemma ex_run_rows: "rows_of_run (ac_run_id ex_activity) (rv_schedules ex_scheduled_db) =
    [(ex_row ''v0'' 4 2 1 31 20 20)\<lparr>gs_period_seq := 1\<rparr>, (ex_row ''v0'' 4 2 2 28 20 40)\<lparr>gs_period_seq := 2\<rparr>]"
  by (simp add: rows_of_run_def ex_scheduled_db_def ex_activity_def ex_scheduled_fields)

lemma regenerated_version_is_forward_only_witness:
  "\<exists>db' rows. regenerate ex_engine ex_activity 11 (0, ex_scheduled_db) ex_adjustment = Inr (length rows, db')
     \<and> map (\<lambda>r. rd_row (row_values r)) (version_rows ex_activity 11 ''v1'' db') = rows
     \<and> map gs_recognition_date rows = [Date 2025 2 28] \<and> sum_list (map gs_recognized_amount rows) = 25"
proof -
  have tok: "pa_new_schedule_version_token ex_adjustment = ''v1''" "pa_catch_up_amount_reporting_currency ex_adjustment = 5"
    by (simp_all add: ex_adjustment_def)
  from regenerated_version_is_forward_only [of ex_activity ex_scheduled_db ex_adjustment 11 ex_engine 0,
      unfolded ex_run_rows ex_forward tok, OF _ _ _ _ ex_small_amounts(3) ex_new_version]
  show ?thesis
    by (simp add: seq_key_def date_key_def ex_row_def ex_scheduled_fields ex_small_amounts)
      (fastforce simp: ex_row_def ex_scheduled_fields)
qed

end
