(* ===== verification/Revenue_Journals.thy ===== *)
theory Revenue_Journals
  imports Schedule_Store
begin

text \<open>
  The journal preview against the schedule it is built from: every effective row is posted
  exactly once, at its date and with its amount, under a reference of its own; a preview that
  is built again posts nothing.
\<close>

section \<open>References\<close>

lemma nat_text_leading: "0 < n \<Longrightarrow> hd (nat_text n) \<noteq> CHR ''0''"
proof (induction n rule: nat_text.induct)
  case (1 n)
  show ?case
  proof (cases "n < 10")
    case True
    then have "digit_char n \<noteq> digit_char 0" using 1(2) by (metis digit_char_inj neq0_conv zero_less_numeral)
    moreover have "digit_char 0 = CHR ''0''" by code_simp
    ultimately show ?thesis using True by (simp add: nat_text_small)
  next
    case False
    then have "hd (nat_text (n div 10)) \<noteq> CHR ''0''" by (intro 1(1)) auto
    then show ?thesis using False by (simp add: nat_text_large)
  qed
qed

lemma pad_left_nat_text: "0 < n \<Longrightarrow> dropWhile ((=) (CHR ''0'')) (pad_left k (nat_text n)) = nat_text n"
  using nat_text_leading [of n]
  by (cases "nat_text n") (auto simp: pad_left_def dropWhile_append)

lemma pad_left_inj: "0 < m \<Longrightarrow> 0 < n \<Longrightarrow> pad_left k (nat_text m) = pad_left k (nat_text n) \<Longrightarrow> m = n"
  by (metis nat_text_inj pad_left_nat_text)

lemma journal_reference_total:
  "build_journal_prefix ns = Inr prefix \<Longrightarrow> 0 < n \<Longrightarrow> \<exists>x. build_journal_reference ns run_id (int n) = Inr x"
  by (simp add: build_journal_reference_def)

lemma journal_reference_inj:
  assumes "build_journal_reference ns run_id (int m) = Inr x" and "build_journal_reference ns run_id (int n) = Inr x"
  shows "m = n"
proof (rule pad_left_inj)
  show "0 < m" "0 < n" using assms by (auto simp: build_journal_reference_def result_simps)
  show "pad_left 6 (nat_text m) = pad_left 6 (nat_text n)"
    using assms by (auto simp: build_journal_reference_def result_simps Let_def)
qed

lemma rev_prefix: "build_journal_prefix ''REV'' = Inr ''REV-''"
  by code_simp

lemmas reference_total = journal_reference_total [OF rev_prefix]

section \<open>The preview\<close>

text \<open>What a schedule row and its journal have in common.\<close>

definition schedule_line :: "revenue_schedule row \<Rightarrow> uuid \<times> uuid \<times> uuid \<times> date \<times> rat" where
  "schedule_line r = (let s = rd_row (row_values r) in
     (row_id r, gs_contract_id s, gs_obligation_id s, gs_recognition_date s, gs_recognized_amount s))"

definition preview_line :: "journal_preview_row \<Rightarrow> uuid \<times> uuid \<times> uuid \<times> date \<times> rat" where
  "preview_line p = (jp_schedule_id p, jp_contract_id p, jp_obligation_id p, jp_entry_date p, jp_amount_reporting_currency p)"

definition journal_line :: "revenue_journal_entry row \<Rightarrow> uuid \<times> uuid \<times> uuid \<times> date \<times> rat" where
  "journal_line r = (let j = row_values r in
     (rj_schedule_id j, rj_contract_id j, rj_obligation_id j, rj_entry_date j, rj_amount_reporting_currency j))"

definition schedule_amounts_stored :: "revenue_db \<Rightarrow> bool" where
  "schedule_amounts_stored db \<longleftrightarrow>
     (\<forall>r \<in> set (rv_schedules db). stored_amount (gs_recognized_amount (rd_row (row_values r))))"

lemma preview_row_elim:
  assumes "preview_row run_id (index, r) = Inr p" and "stored_amount (gs_recognized_amount (rd_row (row_values r)))"
  shows "preview_line p = schedule_line r"
    and "build_journal_reference ''REV'' run_id (int index) = Inr (jp_journal_reference p)"
    and "jp_debit_account p = ''Accounts Receivable''" and "jp_credit_account p = ''Revenue''"
  using assms stored_quantize [OF assms(2)]
  by (auto simp: preview_row_def preview_line_def schedule_line_def result_simps Let_def)

lemma preview_rows_facts:
  assumes "build_revenue_journal_preview run_id schedules = Inr ps"
    and "\<forall>r \<in> set schedules. stored_amount (gs_recognized_amount (rd_row (row_values r)))"
  shows "mset (map preview_line ps) = mset (map schedule_line schedules)"
    and "distinct (map jp_journal_reference ps)"
    and "\<forall>p \<in> set ps. jp_debit_account p = ''Accounts Receivable'' \<and> jp_credit_account p = ''Revenue''"
proof -
  obtain ordered where o: "mset ordered = mset schedules"
    and m: "mapE (preview_row run_id) (zip [1..<Suc (length ordered)] ordered) = Inr ps"
    using that [OF mset_sort] assms(1) by (simp add: build_revenue_journal_preview_def Let_def del: upt_Suc length_sort)
  have stored: "\<forall>r \<in> set ordered. stored_amount (gs_recognized_amount (rd_row (row_values r)))"
    using assms(2) mset_eq_setD [OF o] by simp
  have len: "length ps = length ordered" using mapE_length [OF m] by (simp del: upt_Suc)
  have row: "preview_row run_id (Suc i, ordered ! i) = Inr (ps ! i)" if "i < length ordered" for i
    using mapE_nth [OF m, of i] that by (simp del: upt_Suc)
  note facts = preview_row_elim [OF row stored [THEN bspec, OF nth_mem]]
  have "map preview_line ps = map schedule_line ordered"
    by (rule nth_equalityI) (simp_all add: len facts(1))
  then show "mset (map preview_line ps) = mset (map schedule_line schedules)"
    using o by (simp only: mset_map)
  have inj: "i = j" if "i < length ps" "j < length ps" "jp_journal_reference (ps ! i) = jp_journal_reference (ps ! j)" for i j
    using journal_reference_inj facts(2) [of i] facts(2) [of j] that len by (metis Suc_inject)
  then show "distinct (map jp_journal_reference ps)" by (auto simp: distinct_conv_nth)
  show "\<forall>p \<in> set ps. jp_debit_account p = ''Accounts Receivable'' \<and> jp_credit_account p = ''Revenue''"
    using facts(3,4) len by (auto simp: in_set_conv_nth)
qed

section \<open>Posting\<close>

definition posted_as :: "activity \<Rightarrow> journal_preview_row \<Rightarrow> revenue_journal_entry row \<Rightarrow> bool" where
  "posted_as ac p j \<longleftrightarrow> row_tenant j = ac_tenant_id ac \<and> rj_run_id (row_values j) = ac_run_id ac
     \<and> journal_line j = preview_line p \<and> rj_journal_reference (row_values j) = jp_journal_reference p
     \<and> rj_debit_account (row_values j) = jp_debit_account p \<and> rj_credit_account (row_values j) = jp_credit_account p"

lemma insert_journal_elim:
  assumes "insert_journal en ac p db = Inr (j, db')" and "stored_amount (jp_amount_reporting_currency p)"
  shows "posted_as ac p j" and "rv_journals db' = rv_journals db @ [j]"
    and "rv_schedules db' = rv_schedules db" and "rv_adjustments db' = rv_adjustments db"
proof -
  obtain amount rows env where a: "numeric_20_6 (jp_amount_reporting_currency p) = Inr amount"
    and f: "insert_financial_record (en_sha en) (\<lambda>v. v) (ac_tenant_id ac)
           (str_dict [(''run_id'', uuid_text (ac_run_id ac)), (''schedule_id'', uuid_text (jp_schedule_id p)),
                      (''journal_reference'', jp_journal_reference p)])
           \<lparr>rj_run_id = ac_run_id ac, rj_contract_id = jp_contract_id p, rj_obligation_id = jp_obligation_id p,
            rj_schedule_id = jp_schedule_id p, rj_journal_reference = jp_journal_reference p,
            rj_entry_date = jp_entry_date p, rj_debit_account = jp_debit_account p,
            rj_credit_account = jp_credit_account p, rj_amount_reporting_currency = amount,
            rj_source_contract_reference = jp_source_contract_reference p,
            rj_parent_reference_id = jp_parent_reference_id p, rj_source_reference_id = jp_source_reference_id p,
            rj_correlation_id = ac_correlation_id ac\<rparr>
           (Some (revenue_event (ac_tenant_id ac) (ac_user_id ac) ''revenue.journal.preview.created'' ''revenue_journal_entry''
             [(''run_id'', uuid_text (ac_run_id ac)), (''schedule_id'', uuid_text (jp_schedule_id p)),
              (''journal_reference'', jp_journal_reference p), (''correlation_id'', ac_correlation_id ac)]))
           (rv_journals db, rv_env db) = (j, rows, env)"
    and db': "db' = db\<lparr>rv_journals := rows, rv_env := env\<rparr>"
    using assms(1) unfolding insert_journal_def bindE_Inr_iff Let_def insert_then_Inr_iff by blast
  have "amount = jp_amount_reporting_currency p"
    using assms(2) a by (simp add: stored_amount_def)
  with insert_financial_record_facts [OF f] db'
  show "posted_as ac p j" and "rv_journals db' = rv_journals db @ [j]"
    and "rv_schedules db' = rv_schedules db" and "rv_adjustments db' = rv_adjustments db"
    by (simp_all add: posted_as_def journal_line_def preview_line_def)
qed

lemma journals_of_append:
  "rv_journals db' = rv_journals db @ js \<Longrightarrow> journals_of ac k db' = journals_of ac k db
     @ filter (\<lambda>r. row_tenant r = ac_tenant_id ac \<and> rj_run_id (row_values r) = ac_run_id ac \<and> rj_schedule_id (row_values r) = k) js"
  by (simp add: journals_of_def)

lemma posted_as_key: "posted_as ac p j \<Longrightarrow> rj_schedule_id (row_values j) = jp_schedule_id p"
  by (simp add: posted_as_def journal_line_def preview_line_def Let_def)

text \<open>On a run without journals every preview row is posted, in order.\<close>

lemma persist_journals_fresh:
  assumes "foldE (persist_journal en ac) (n, db) ps = Inr (n', db')"
    and "distinct (map jp_schedule_id ps)" and "\<forall>p \<in> set ps. stored_amount (jp_amount_reporting_currency p)"
    and "\<forall>p \<in> set ps. journals_of ac (jp_schedule_id p) db = []"
  shows "\<exists>js. n' = n + length ps \<and> rv_journals db' = rv_journals db @ js \<and> list_all2 (posted_as ac) ps js
     \<and> rv_schedules db' = rv_schedules db \<and> rv_adjustments db' = rv_adjustments db"
  using assms
proof (induction ps arbitrary: n db)
  case (Cons p ps)
  from Cons.prems(1,4) obtain j db1 where i: "insert_journal en ac p db = Inr (j, db1)"
    and rest: "foldE (persist_journal en ac) (n + 1, db1) ps = Inr (n', db')"
    by (auto simp: persist_journal_def one_or_none_def result_simps)
  note ins = insert_journal_elim [OF i bspec [OF Cons.prems(3)]]
  have "\<forall>q \<in> set ps. journals_of ac (jp_schedule_id q) db1 = []"
    using Cons.prems(2,4) posted_as_key [OF ins(1)] by (auto simp: journals_of_append [OF ins(2)] image_iff)
  from Cons.IH [OF rest _ _ this] Cons.prems(2,3) obtain js where
    "n' = n + 1 + length ps" "rv_journals db' = rv_journals db1 @ js" "list_all2 (posted_as ac) ps js"
    "rv_schedules db' = rv_schedules db1" "rv_adjustments db' = rv_adjustments db1" by auto
  with ins show ?case by (intro exI [of _ "j # js"]) simp
qed auto

lemma persist_journals_again:
  "\<forall>p \<in> set ps. \<exists>j. journals_of ac (jp_schedule_id p) db = [j] \<Longrightarrow> foldE (persist_journal en ac) (n, db) ps = Inr (n, db)"
  by (induction ps) (auto simp: persist_journal_def one_or_none_def)

lemma posted_found:
  assumes "list_all2 (posted_as ac) ps js" and "distinct (map jp_schedule_id ps)" and "p \<in> set ps"
  shows "\<exists>j. filter (\<lambda>r. row_tenant r = ac_tenant_id ac \<and> rj_run_id (row_values r) = ac_run_id ac
     \<and> rj_schedule_id (row_values r) = jp_schedule_id p) js = [j]"
  using assms
proof (induction ps js rule: list_all2_induct)
  case (Cons q ps j js)
  have other: "\<forall>j \<in> set js. \<exists>q \<in> set ps. rj_schedule_id (row_values j) = jp_schedule_id q"
    using Cons(2) by (induction ps js rule: list_all2_induct) (auto dest: posted_as_key)
  show ?case
  proof (cases "p = q")
    case True
    then have "\<forall>j \<in> set js. rj_schedule_id (row_values j) \<noteq> jp_schedule_id p" using other Cons.prems(1) by (force simp: image_iff)
    then show ?thesis using True Cons(1) posted_as_key [OF Cons(1)] by (auto simp: posted_as_def filter_empty_conv)
  next
    case False
    then have "p \<in> set ps" "jp_schedule_id q \<noteq> jp_schedule_id p" using Cons.prems by (auto simp: image_iff)
    then show ?thesis using Cons.IH Cons.prems(1) posted_as_key [OF Cons(1)] by simp
  qed
qed simp

section \<open>The effective rows\<close>

lemma in_version_rows: "r \<in> set (version_rows ac c token db) \<Longrightarrow>
    r \<in> set (rv_schedules db) \<and> gs_contract_id (rd_row (row_values r)) = c"
  by (simp add: version_rows_def)

lemma effective_rows_subset: "set (effective_rows ac db) \<subseteq> set (rv_schedules db)"
  by (auto simp: effective_rows_def dest: in_version_rows)

lemma effective_tokens_distinct: "distinct (map fst (effective_tokens ac db))"
proof -
  have "distinct (map fst (concat (map (\<lambda>c. case f c of None \<Rightarrow> [] | Some t \<Rightarrow> [(c, g c t)]) cs)))"
    if "distinct cs" for f :: "uuid \<Rightarrow> string option" and g :: "uuid \<Rightarrow> string \<Rightarrow> string" and cs
    using that by (induction cs) (auto split: option.splits)
  then show ?thesis by (simp add: effective_tokens_def)
qed

lemma effective_rows_distinct:
  assumes "distinct (map row_id (rv_schedules db))"
  shows "distinct (map row_id (effective_rows ac db))"
proof -
  have ids: "inj_on row_id (set (rv_schedules db))" and rows: "distinct (rv_schedules db)"
    using assms by (simp_all add: distinct_map)
  have "distinct (concat (map (\<lambda>(c, token). sort_key schedule_order (version_rows ac c token db)) ts))"
    if "distinct (map fst ts)" for ts
    using that
  proof (induction ts)
    case (Cons t ts)
    obtain c token where t: "t = (c, token)" by (cases t)
    have "distinct (version_rows ac c token db)" using rows by (simp add: version_rows_def)
    then show ?case using Cons by (force simp: t distinct_sort dest: in_version_rows)
  qed simp
  then have "distinct (effective_rows ac db)"
    by (simp add: effective_rows_def effective_tokens_distinct distinct_sort)
  then show ?thesis
    using inj_on_subset [OF ids effective_rows_subset] by (simp add: distinct_map)
qed

lemma effective_rows_cong:
  assumes "rv_schedules db' = rv_schedules db" and "rv_adjustments db' = rv_adjustments db"
  shows "effective_rows ac db' = effective_rows ac db"
proof -
  have runs: "run_adjustments ac c db' = run_adjustments ac c db" "run_schedules ac db' = run_schedules ac db"
    "version_rows ac c token db' = version_rows ac c token db" for c token
    by (simp_all add: run_adjustments_def run_schedules_def adjustments_of_def version_rows_def assms)
  have "effective_tokens ac db' = effective_tokens ac db"
    unfolding effective_tokens_def resolve_root_version_token_def resolve_effective_version_token_def runs ..
  then show ?thesis unfolding effective_rows_def runs by simp
qed

section \<open>The run's journals\<close>

lemma preview_rows_total:
  assumes "\<forall>r \<in> set schedules. stored_amount (gs_recognized_amount (rd_row (row_values r)))"
  shows "\<exists>ps. build_revenue_journal_preview run_id schedules = Inr ps"
proof -
  have "\<exists>p. preview_row run_id (i, r) = Inr p"
    if "0 < i" "stored_amount (gs_recognized_amount (rd_row (row_values r)))" for i r
    using reference_total [OF that(1), of run_id] stored_quantize [OF that(2)]
    by (auto simp: preview_row_def Let_def)
  moreover have "0 < fst x \<and> snd x \<in> set schedules" if "x \<in> set (zip [1..<Suc k] (sort_key key schedules))"
    for x k and key :: "revenue_schedule row \<Rightarrow> 'k::linorder"
    using set_zip_leftD [of "fst x" "snd x"] set_zip_rightD [of "fst x" "snd x"] that by (fastforce simp del: upt_Suc)
  ultimately have "\<exists>p. preview_row run_id x = Inr p" if "x \<in> set (zip [1..<Suc k] (sort_key key schedules))"
    for x k and key :: "revenue_schedule row \<Rightarrow> 'k::linorder"
    using that assms by (metis prod.collapse)
  then show ?thesis unfolding build_revenue_journal_preview_def Let_def by (intro mapE_exists)
qed

lemma insert_journal_total: "stored_amount (jp_amount_reporting_currency p) \<Longrightarrow> \<exists>j db'. insert_journal en ac p db = Inr (j, db')"
  by (simp add: insert_journal_def stored_amount_def Let_def insert_then_total)

lemma persist_journals_total:
  assumes "distinct (map jp_schedule_id ps)" and "\<forall>p \<in> set ps. stored_amount (jp_amount_reporting_currency p)"
    and "\<forall>p \<in> set ps. journals_of ac (jp_schedule_id p) db = []"
  shows "\<exists>n' db'. foldE (persist_journal en ac) (n, db) ps = Inr (n', db')"
  using assms
proof (induction ps arbitrary: n db)
  case (Cons p ps)
  obtain j db1 where i: "insert_journal en ac p db = Inr (j, db1)"
    using insert_journal_total Cons.prems(2) by (metis list.set_intros(1))
  note ins = insert_journal_elim [OF i bspec [OF Cons.prems(2)]]
  have "\<forall>q \<in> set ps. journals_of ac (jp_schedule_id q) db1 = []"
    using Cons.prems(1,3) posted_as_key [OF ins(1)] by (auto simp: journals_of_append [OF ins(2)] image_iff)
  then obtain n' db' where "foldE (persist_journal en ac) (n + 1, db1) ps = Inr (n', db')"
    using Cons.IH [of db1 "n + 1"] Cons.prems by auto
  moreover have "persist_journal en ac (n, db) p = Inr (n + 1, db1)"
    using i Cons.prems(3) by (simp add: persist_journal_def one_or_none_def)
  ultimately show ?case by simp
qed simp

lemma build_journal_preview_elim:
  assumes "distinct (map row_id (rv_schedules db))" and "schedule_amounts_stored db"
    and "\<forall>r \<in> set (rv_journals db). rj_run_id (row_values r) \<noteq> ac_run_id ac"
  obtains ps js db' where "build_revenue_journal_preview (ac_run_id ac) (effective_rows ac db) = Inr ps"
    and "build_journal_preview_for_run en ac db = Inr (length ps, db')"
    and "mset (map preview_line ps) = mset (map schedule_line (effective_rows ac db))"
    and "distinct (map jp_schedule_id ps)" and "distinct (map jp_journal_reference ps)"
    and "\<forall>p \<in> set ps. jp_debit_account p = ''Accounts Receivable'' \<and> jp_credit_account p = ''Revenue''"
    and "rv_journals db' = rv_journals db @ js" and "list_all2 (posted_as ac) ps js"
    and "effective_rows ac db' = effective_rows ac db"
proof -
  have stored: "\<forall>r \<in> set (effective_rows ac db). stored_amount (gs_recognized_amount (rd_row (row_values r)))"
    using assms(2) effective_rows_subset by (fastforce simp: schedule_amounts_stored_def)
  obtain ps where ps: "build_revenue_journal_preview (ac_run_id ac) (effective_rows ac db) = Inr ps"
    using preview_rows_total [OF stored] by blast
  note lines = preview_rows_facts [OF ps stored]
  have ids: "map jp_schedule_id ps = map fst (map preview_line ps)"
    and ids': "map row_id (effective_rows ac db) = map fst (map schedule_line (effective_rows ac db))"
    by (simp_all add: preview_line_def schedule_line_def Let_def)
  have d: "distinct (map jp_schedule_id ps)"
    unfolding ids distinct_map_mset [OF lines(1)] ids' [symmetric] by (rule effective_rows_distinct [OF assms(1)])
  have amounts: "\<forall>p \<in> set ps. stored_amount (jp_amount_reporting_currency p)"
  proof
    fix p assume "p \<in> set ps"
    then have "preview_line p \<in> set (map schedule_line (effective_rows ac db))"
      unfolding mset_eq_setD [OF lines(1), symmetric] by simp
    then show "stored_amount (jp_amount_reporting_currency p)"
      using stored by (auto simp: preview_line_def schedule_line_def Let_def)
  qed
  have none: "\<forall>p \<in> set ps. journals_of ac (jp_schedule_id p) db = []"
    using assms(3) by (simp add: journals_of_def filter_empty_conv)
  obtain n db' where f: "foldE (persist_journal en ac) (0, db) ps = Inr (n, db')"
    using persist_journals_total [OF d amounts none] by blast
  obtain js where js: "n = 0 + length ps" "rv_journals db' = rv_journals db @ js" "list_all2 (posted_as ac) ps js"
    "rv_schedules db' = rv_schedules db" "rv_adjustments db' = rv_adjustments db"
    using persist_journals_fresh [OF f d amounts none] by blast
  have "build_journal_preview_for_run en ac db = Inr (length ps, db')"
    using ps f js(1) by (simp add: build_journal_preview_for_run_def)
  with that ps lines d js effective_rows_cong show thesis by blast
qed

lemma posted_columns:
  assumes "list_all2 (posted_as ac) ps js"
  shows "map journal_line js = map preview_line ps"
    and "map (\<lambda>j. rj_journal_reference (row_values j)) js = map jp_journal_reference ps"
    and "\<forall>p \<in> set ps. jp_debit_account p = dr \<and> jp_credit_account p = cr \<Longrightarrow>
      \<forall>j \<in> set js. rj_debit_account (row_values j) = dr \<and> rj_credit_account (row_values j) = cr"
  using assms by (induction ps js rule: list_all2_induct) (auto simp: posted_as_def)

text \<open>(C35) Each effective schedule row of a run is posted exactly once.  On a run without
  journals the preview succeeds, adds one journal per effective row with the row's contract,
  obligation, date and amount, from receivables to revenue and under a reference of its own;
  built a second time, it posts nothing.\<close>

lemma journal_preview_mirrors_schedule:
  assumes "distinct (map row_id (rv_schedules db))" and "schedule_amounts_stored db"
    and "\<forall>r \<in> set (rv_journals db). rj_run_id (row_values r) \<noteq> ac_run_id ac"
  shows "\<exists>js db'. build_journal_preview_for_run en ac db = Inr (length js, db')
    \<and> rv_journals db' = rv_journals db @ js
    \<and> mset (map journal_line js) = mset (map schedule_line (effective_rows ac db))
    \<and> distinct (map (\<lambda>j. rj_journal_reference (row_values j)) js)
    \<and> (\<forall>j \<in> set js. rj_debit_account (row_values j) = ''Accounts Receivable'' \<and> rj_credit_account (row_values j) = ''Revenue'')
    \<and> build_journal_preview_for_run en ac db' = Inr (0, db')"
proof -
  obtain ps js db' where ps: "build_revenue_journal_preview (ac_run_id ac) (effective_rows ac db) = Inr ps"
    and b: "build_journal_preview_for_run en ac db = Inr (length ps, db')"
    and m: "mset (map preview_line ps) = mset (map schedule_line (effective_rows ac db))"
    and d: "distinct (map jp_schedule_id ps)" "distinct (map jp_journal_reference ps)"
    and a: "\<forall>p \<in> set ps. jp_debit_account p = ''Accounts Receivable'' \<and> jp_credit_account p = ''Revenue''"
    and js: "rv_journals db' = rv_journals db @ js" "list_all2 (posted_as ac) ps js"
    and e: "effective_rows ac db' = effective_rows ac db"
    by (rule build_journal_preview_elim [OF assms])
  have "\<exists>j. journals_of ac (jp_schedule_id p) db' = [j]" if "p \<in> set ps" for p
    using posted_found [OF js(2) d(1) that] assms(3) by (simp add: journals_of_def js(1))
  then have "build_journal_preview_for_run en ac db' = Inr (0, db')"
    by (simp add: build_journal_preview_for_run_def e ps persist_journals_again)
  moreover have "length ps = length js" using js(2) by (rule list_all2_lengthD)
  ultimately show ?thesis
    using b m d(2) js(1) posted_columns(1,2) [OF js(2)] posted_columns(3) [OF js(2) a] by metis
qed

lemma ex_journal_hyps:
  "distinct (map row_id (rv_schedules ex_scheduled_db))" "schedule_amounts_stored ex_scheduled_db"
  "\<forall>r \<in> set (rv_journals ex_scheduled_db). rj_run_id (row_values r) \<noteq> ac_run_id ex_activity"
  by (simp_all add: ex_scheduled_db_def schedule_amounts_stored_def ex_scheduled_fields ex_row_def ex_small_amounts ex_registered_db_def)

lemma journal_preview_mirrors_schedule_witness:
  "\<exists>js db'. build_journal_preview_for_run ex_engine ex_activity ex_scheduled_db = Inr (length js, db')
     \<and> mset (map journal_line js) = mset (map schedule_line (effective_rows ex_activity ex_scheduled_db))
     \<and> build_journal_preview_for_run ex_engine ex_activity db' = Inr (0, db')"
  using journal_preview_mirrors_schedule [OF ex_journal_hyps, of ex_engine] by blast

end
