(* ===== verification/Lease_Journals.thy ===== *)
theory Lease_Journals
  imports Lease_Runs Revenue_Journals
begin

text \<open>
  The journals of a lease run against the schedules they are posted from: what they move on
  the accounts Lease Liability and ROU Asset is what the schedules say; posting again posts
  nothing.
\<close>

section \<open>Posting\<close>

definition posting_key :: "lease_posting \<Rightarrow> uuid option \<times> uuid option \<times> string \<times> string" where
  "posting_key p = (po_liability_schedule_id p, po_rou_schedule_id p, po_debit_account p, po_credit_account p)"

definition journal_key :: "lease_journal_entry row \<Rightarrow> uuid option \<times> uuid option \<times> string \<times> string" where
  "journal_key j = (lj_liability_schedule_id (row_values j), lj_rou_schedule_id (row_values j),
     lj_debit_account (row_values j), lj_credit_account (row_values j))"

definition run_journals :: "activity \<Rightarrow> lease_db \<Rightarrow> lease_journal_entry row list" where
  "run_journals ac db = filter (\<lambda>r. row_tenant r = ac_tenant_id ac \<and> lj_run_id (row_values r) = ac_run_id ac) (ld_journals db)"

lemma lease_journals_of_key: "lease_journals_of ac p db = filter (\<lambda>j. journal_key j = posting_key p) (run_journals ac db)"
  unfolding lease_journals_of_def run_journals_def filter_filter
  by (intro filter_cong) (auto simp: journal_key_def posting_key_def)

definition posted_entry :: "activity \<Rightarrow> nat \<times> lease_posting \<Rightarrow> lease_journal_entry row \<Rightarrow> bool" where
  "posted_entry ac = (\<lambda>(sequence, p) j. row_tenant j = ac_tenant_id ac \<and> lj_run_id (row_values j) = ac_run_id ac
     \<and> journal_key j = posting_key p \<and> lj_lease_id (row_values j) = po_lease_id p \<and> lj_amount (row_values j) = po_amount p
     \<and> lj_entry_date (row_values j) = po_entry_date p
     \<and> build_journal_reference ''LSE'' (ac_run_id ac) (int sequence) = Inr (lj_journal_reference (row_values j)))"

lemma lse_prefix: "build_journal_prefix ''LSE'' = Inr ''LSE-''"
  by code_simp

lemma insert_lease_journal_total:
  assumes "stored_amount (po_amount p)" and "0 < sequence"
  obtains j db' where "insert_lease_journal en ac sequence p db = Inr (j, db')"
    and "posted_entry ac (sequence, p) j"
    and "\<exists>env. db' = db\<lparr>ld_journals := ld_journals db @ [j], ld_env := env\<rparr>"
proof -
  obtain x where x: "build_journal_reference ''LSE'' (ac_run_id ac) (int sequence) = Inr x"
    using journal_reference_total [OF lse_prefix assms(2)] by blast
  have s: "numeric_20_6 (po_amount p) = Inr (po_amount p)" using assms(1) by (simp add: stored_amount_def)
  have "\<exists>j db'. insert_lease_journal en ac sequence p db = Inr (j, db')"
    by (simp add: insert_lease_journal_def x s Let_def insert_then_total)
  then obtain j db' where i: "insert_lease_journal en ac sequence p db = Inr (j, db')" by blast
  then show thesis
  proof (rule that)
    show "posted_entry ac (sequence, p) j" using i
      by (auto simp: insert_lease_journal_def x s Let_def result_simps insert_financial_record_facts posted_entry_def
        journal_key_def posting_key_def)
    show "\<exists>env. db' = db\<lparr>ld_journals := ld_journals db @ [j], ld_env := env\<rparr>"
      by (rule exI [of _ "ld_env db'"])
        (use i in \<open>auto simp: insert_lease_journal_def x s Let_def result_simps insert_financial_record_facts\<close>)
  qed
qed

text \<open>On a run without these journals every posting of a positive amount is inserted, in order.\<close>

definition positive :: "lease_posting list \<Rightarrow> lease_posting list" where
  "positive ps = filter (\<lambda>p. 0 < po_amount p) ps"

lemma post_journals:
  assumes "0 < sequence" and "distinct (map posting_key ps)" and "\<forall>p \<in> set ps. 0 < po_amount p \<longrightarrow> stored_amount (po_amount p)"
    and "\<forall>p \<in> set ps. posting_key p \<notin> journal_key ` set (run_journals ac db)"
  shows "\<exists>js db'. foldE (post_journal en ac) (sequence, n, db) ps
      = Inr (sequence + length js, n + length js, db') \<and> (\<exists>env. db' = db\<lparr>ld_journals := ld_journals db @ js, ld_env := env\<rparr>)
    \<and> list_all2 (posted_entry ac) (zip [sequence..<sequence + length js] (positive ps)) js \<and> length js = length (positive ps)"
  using assms
proof (induction ps arbitrary: sequence n db)
  case Nil
  show ?case by (rule exI [of _ "[]"]) (simp add: positive_def exI [of _ "ld_env db"])
next
  case (Cons p ps)
  show ?case
  proof (cases "0 < po_amount p")
    case False
    then have "post_journal en ac (sequence, n, db) p = Inr (sequence, n, db)"
      by (simp add: post_journal_def insert_journal_row_def)
    then show ?thesis using Cons.IH [of sequence db n] Cons.prems False by (simp add: positive_def)
  next
    case True
    then obtain j db1 where i: "insert_lease_journal en ac sequence p db = Inr (j, db1)"
      and j: "posted_entry ac (sequence, p) j"
      and jdb: "\<exists>env. db1 = db\<lparr>ld_journals := ld_journals db @ [j], ld_env := env\<rparr>"
      using insert_lease_journal_total Cons.prems(1,3) by (metis list.set_intros(1))
    have none: "lease_journals_of ac p db = []"
      using Cons.prems(4) by (auto simp: lease_journals_of_key filter_empty_conv image_iff)
    have step: "post_journal en ac (sequence, n, db) p = Inr (sequence + 1, n + 1, db1)"
      using True by (simp add: post_journal_def insert_journal_row_def none one_or_none_def i)
    have "run_journals ac db1 = run_journals ac db @ [j]" and key: "journal_key j = posting_key p"
      using j jdb by (auto simp: run_journals_def posted_entry_def)
    then have "\<forall>q \<in> set ps. posting_key q \<notin> journal_key ` set (run_journals ac db1)"
      using Cons.prems(2,4) by (auto simp: image_iff)
    then have "\<exists>js db'. foldE (post_journal en ac) (Suc sequence, Suc n, db1) ps
          = Inr (Suc sequence + length js, Suc n + length js, db') \<and> (\<exists>env. db' = db1\<lparr>ld_journals := ld_journals db1 @ js, ld_env := env\<rparr>)
        \<and> list_all2 (posted_entry ac) (zip [Suc sequence..<Suc sequence + length js] (positive ps)) js
        \<and> length js = length (positive ps)"
      using Cons.prems by (intro Cons.IH) auto
    then obtain js db' where R: "foldE (post_journal en ac) (Suc sequence, Suc n, db1) ps
          = Inr (Suc sequence + length js, Suc n + length js, db')
        \<and> (\<exists>env. db' = db1\<lparr>ld_journals := ld_journals db1 @ js, ld_env := env\<rparr>)
        \<and> list_all2 (posted_entry ac) (zip [Suc sequence..<Suc sequence + length js] (positive ps)) js
        \<and> length js = length (positive ps)" by blast
    note r = R [THEN conjunct1] R [THEN conjunct2, THEN conjunct1] R [THEN conjunct2, THEN conjunct2, THEN conjunct1]
      R [THEN conjunct2, THEN conjunct2, THEN conjunct2]
    have step': "foldE (post_journal en ac) (sequence, n, db) (p # ps) = Inr (sequence + length (j # js), n + length (j # js), db')"
      using step r(1) by simp
    have up: "[sequence..<sequence + length (j # js)] = sequence # [Suc sequence..<Suc sequence + length js]"
      by (simp add: upt_rec [of sequence] del: upt_Suc)
    have pos: "positive (p # ps) = p # positive ps" using True by (simp add: positive_def)
    have paired: "list_all2 (posted_entry ac) (zip [sequence..<sequence + length (j # js)] (positive (p # ps))) (j # js)"
      unfolding up pos using j r(3) by simp
    have framed: "\<exists>env. db' = db\<lparr>ld_journals := ld_journals db @ j # js, ld_env := env\<rparr>"
      using jdb r(2) by auto
    show ?thesis
      using step' paired r(4) framed pos by (intro exI [of _ "j # js"] exI [of _ db']) (simp del: upt_Suc)
  qed
qed

lemma lease_posted_columns:
  assumes "list_all2 (posted_entry ac) (zip [k..<k + length js] ps) js" and "length js = length ps"
  shows "map (\<lambda>j. (journal_key j, lj_lease_id (row_values j), lj_amount (row_values j))) js
      = map (\<lambda>p. (posting_key p, po_lease_id p, po_amount p)) ps"
    and "distinct (map (\<lambda>j. lj_journal_reference (row_values j)) js)"
    and "\<forall>j \<in> set js. row_tenant j = ac_tenant_id ac \<and> lj_run_id (row_values j) = ac_run_id ac"
proof -
  have at: "posted_entry ac (k + i, ps ! i) (js ! i)" if "i < length js" for i
    using list_all2_nthD2 [OF assms(1) that] that assms(2) by simp
  show "map (\<lambda>j. (journal_key j, lj_lease_id (row_values j), lj_amount (row_values j))) js
      = map (\<lambda>p. (posting_key p, po_lease_id p, po_amount p)) ps"
    by (rule nth_equalityI) (use at assms(2) in \<open>simp_all add: posted_entry_def\<close>)
  have "i = j" if "i < length js" "j < length js"
    "lj_journal_reference (row_values (js ! i)) = lj_journal_reference (row_values (js ! j))" for i j
    using at [OF that(1)] at [OF that(2)] journal_reference_inj [of "''LSE''" "ac_run_id ac" "k + i" _ "k + j"] that(3)
    by (simp add: posted_entry_def)
  then show "distinct (map (\<lambda>j. lj_journal_reference (row_values j)) js)" by (auto simp: distinct_conv_nth)
  show "\<forall>j \<in> set js. row_tenant j = ac_tenant_id ac \<and> lj_run_id (row_values j) = ac_run_id ac"
    using at by (auto simp: in_set_conv_nth posted_entry_def)
qed

lemma post_again:
  assumes "\<forall>p \<in> set ps. 0 < po_amount p \<longrightarrow> (\<exists>j. lease_journals_of ac p db = [j])"
  shows "foldE (post_journal en ac) (sequence, n, db) ps = Inr (sequence, n, db)"
  using assms by (induction ps) (auto simp: post_journal_def insert_journal_row_def one_or_none_def)

section \<open>What the journals move\<close>

text \<open>The movement on an account, credits less debits, of the entries of one lease.\<close>

definition movement :: "string \<Rightarrow> uuid \<Rightarrow> ((uuid option \<times> uuid option \<times> string \<times> string) \<times> uuid \<times> rat) list \<Rightarrow> rat" where
  "movement account lease_id entries = sum_list (map (\<lambda>((_, _, debit, credit), l, amount).
     (if l = lease_id \<and> credit = account then amount else 0) - (if l = lease_id \<and> debit = account then amount else 0)) entries)"

definition entry_columns :: "lease_journal_entry row \<Rightarrow> (uuid option \<times> uuid option \<times> string \<times> string) \<times> uuid \<times> rat" where
  "entry_columns j = (journal_key j, lj_lease_id (row_values j), lj_amount (row_values j))"

definition posting_columns :: "lease_posting \<Rightarrow> (uuid option \<times> uuid option \<times> string \<times> string) \<times> uuid \<times> rat" where
  "posting_columns p = (posting_key p, po_lease_id p, po_amount p)"

definition journal_movement :: "string \<Rightarrow> uuid \<Rightarrow> lease_journal_entry row list \<Rightarrow> rat" where
  "journal_movement account lease_id js = movement account lease_id (map entry_columns js)"

lemma movement_simps:
  "movement account l [] = 0"
  "movement account l (xs @ ys) = movement account l xs + movement account l ys"
  by (simp_all add: movement_def)

lemma movement_positive:
  "\<forall>p \<in> set ps. 0 \<le> po_amount p
   \<Longrightarrow> movement account l (map posting_columns (positive ps)) = movement account l (map posting_columns ps)"
  by (induction ps) (auto simp: movement_def positive_def posting_columns_def posting_key_def)

lemma liability_postings_movement:
  "movement ''Lease Liability'' l (map posting_columns (concat (map liability_postings rows)))
   = sum_list (map (\<lambda>r. lr_interest (ll_row (row_values r)) - lr_payment (ll_row (row_values r)))
       (filter (\<lambda>r. lr_lease_id (ll_row (row_values r)) = l) rows))"
  "movement ''ROU Asset'' l (map posting_columns (concat (map liability_postings rows))) = 0"
  by (induction rows) (auto simp: movement_def liability_postings_def posting_columns_def posting_key_def Let_def)

lemma rou_postings_movement:
  "movement ''ROU Asset'' l (map posting_columns (map rou_posting rows))
   = sum_list (map (\<lambda>r. dadd (ru_amortization (lu_row (row_values r))) (ru_impairment (lu_row (row_values r))))
       (filter (\<lambda>r. ru_lease_id (lu_row (row_values r)) = l) rows))"
  "movement ''Lease Liability'' l (map posting_columns (map rou_posting rows)) = 0"
  by (induction rows) (auto simp: movement_def rou_posting_def posting_columns_def posting_key_def Let_def)

lemma posting_keys_distinct:
  assumes "distinct (map row_id ls)" and "distinct (map row_id us)"
  shows "distinct (map posting_key (concat (map liability_postings ls) @ map rou_posting us))"
proof -
  have "distinct (map posting_key (concat (map liability_postings ls)))"
    using assms(1) by (induction ls) (auto simp: liability_postings_def posting_key_def Let_def image_iff)
  moreover have "distinct (map posting_key (map rou_posting us))"
    using assms(2) by (induction us) (auto simp: rou_posting_def posting_key_def Let_def image_iff)
  moreover have "set (map posting_key (concat (map liability_postings ls))) \<inter> set (map posting_key (map rou_posting us)) = {}"
    by (auto simp: liability_postings_def rou_posting_def posting_key_def Let_def)
  ultimately show ?thesis by simp
qed

lemma lease_reads_frame:
  "run_liability ac (db\<lparr>ld_journals := js, ld_env := env\<rparr>) = run_liability ac db"
  "run_rou ac (db\<lparr>ld_journals := js, ld_env := env\<rparr>) = run_rou ac db"
  "modifications_of t r l (db\<lparr>ld_journals := js, ld_env := env\<rparr>) = modifications_of t r l db"
  by (simp_all add: run_liability_def run_rou_def modifications_of_def)

lemma lease_versions_frame:
  "liability_version ac l token (db\<lparr>ld_journals := js, ld_env := env\<rparr>) = liability_version ac l token db"
  "lease_root_version_token ac l (db\<lparr>ld_journals := js, ld_env := env\<rparr>) = lease_root_version_token ac l db"
  "lease_effective_version_token ac l token (db\<lparr>ld_journals := js, ld_env := env\<rparr>) = lease_effective_version_token ac l token db"
  unfolding liability_version_def lease_root_version_token_def lease_effective_version_token_def lease_reads_frame by (rule refl)+

lemma lease_postings_frame:
  "lease_postings ac (db\<lparr>ld_journals := js, ld_env := env\<rparr>) = lease_postings ac db"
  unfolding lease_postings_def lease_tokens_def run_lease_ids_def effective_liability_def effective_rou_def
    prior_liability_rows_def lease_reads_frame lease_versions_frame by (rule refl)

lemma posted_once:
  assumes "map entry_columns js = map posting_columns (positive ps)" and "distinct (map posting_key ps)"
    and "p \<in> set ps" and "0 < po_amount p"
  shows "\<exists>j. filter (\<lambda>j. journal_key j = posting_key p) js = [j]"
proof -
  have keys: "map journal_key js = map posting_key (positive ps)"
    using arg_cong [OF assms(1), of "map fst"] by (simp add: entry_columns_def posting_columns_def comp_def)
  then have d: "distinct (map journal_key js)" using assms(2) by (simp add: positive_def distinct_map_filter)
  have "posting_key p \<in> set (map journal_key js)" unfolding keys using assms(3,4) by (auto simp: positive_def)
  then obtain j where j: "j \<in> set js" "journal_key j = posting_key p" by auto
  have "filter (\<lambda>i. journal_key i = journal_key j) js = [j]"
    using d j(1) by (induction js) (auto simp: filter_empty_conv image_iff)
  then show ?thesis using j(2) by auto
qed

lemma rolls_forward_total:
  "rows \<noteq> [] \<Longrightarrow> rolls_forward bal rows
   \<Longrightarrow> sum_list (map (\<lambda>r. lr_interest r - lr_payment r) rows) = lr_closing (last rows) - bal"
  by (induction bal rows rule: rolls_forward.induct) (auto simp: algebra_simps)

lemma preview_posts:
  assumes "run_journals ac db = []" and "distinct (map posting_key (lease_postings ac db))"
    and "\<forall>p \<in> set (lease_postings ac db). 0 \<le> po_amount p \<and> stored_amount (po_amount p)"
  obtains js db' where "build_lease_journal_preview en ac db = Inr (length js, db')" and "run_journals ac db' = js"
    and "map entry_columns js = map posting_columns (positive (lease_postings ac db))"
    and "distinct (map (\<lambda>j. lj_journal_reference (row_values j)) js)"
    and "build_lease_journal_preview en ac db' = Inr (0, db')"
proof -
  let ?ps = "lease_postings ac db"
  have "\<exists>js db'. foldE (post_journal en ac) (1, 0, db) ?ps = Inr (1 + length js, 0 + length js, db')
    \<and> (\<exists>env. db' = db\<lparr>ld_journals := ld_journals db @ js, ld_env := env\<rparr>)
    \<and> list_all2 (posted_entry ac) (zip [1..<1 + length js] (positive ?ps)) js \<and> length js = length (positive ?ps)"
    using assms by (intro post_journals) auto
  then obtain js db' env where r: "foldE (post_journal en ac) (1, 0, db) ?ps = Inr (1 + length js, 0 + length js, db')"
    and db': "db' = db\<lparr>ld_journals := ld_journals db @ js, ld_env := env\<rparr>"
    and l2: "list_all2 (posted_entry ac) (zip [1..<1 + length js] (positive ?ps)) js" and len: "length js = length (positive ?ps)"
    by blast
  note cols = lease_posted_columns [OF l2 len]
  have c: "map entry_columns js = map posting_columns (positive ?ps)"
    using cols(1) by (simp add: entry_columns_def posting_columns_def cong: map_cong)
  have js: "run_journals ac db' = js"
    using cols(3) assms(1) by (simp add: db' run_journals_def filter_id_conv)
  have "\<exists>j. lease_journals_of ac p db' = [j]" if "p \<in> set ?ps" "0 < po_amount p" for p
    unfolding lease_journals_of_key js by (rule posted_once [OF c assms(2) that])
  moreover have same: "lease_postings ac db' = ?ps" unfolding db' by (rule lease_postings_frame)
  ultimately have "build_lease_journal_preview en ac db' = Inr (0, db')"
    using same by (simp add: build_lease_journal_preview_def post_again)
  moreover have "build_lease_journal_preview en ac db = Inr (length js, db')"
    using r by (simp add: build_lease_journal_preview_def)
  ultimately show thesis by (intro that [OF _ js c cols(2)])
qed

text \<open>(C29) The first journal preview of a lease run agrees with the schedules it is posted from, when no amount
  to post is negative.  Suppose the run has no journals yet, no row is listed twice, and every amount the preview is to post, the
  interest and payment of each effective liability row and the sum of amortisation and impairment of each effective
  right-of-use row, is not negative and fits its column; the code posts positive amounts only and passes over the others in
  silence, so that a negative one would break the agreement.  Then the preview succeeds, and per lease whose effective
  liability rows roll forward from an opening balance, Lease Liability moves from that balance to the closing balance of the last
  row, and the ROU asset by the amortisation and impairment of the effective right-of-use rows; the references
  are distinct; a second preview posts nothing and changes nothing.\<close>

theorem lease_journals_reconcile:
  assumes fresh: "run_journals ac db = []" and tokens: "tokens = lease_tokens ac db (run_lease_ids ac db)"
    and ids: "distinct (map row_id (effective_liability ac tokens db))" "distinct (map row_id (effective_rou ac tokens db))"
    and amounts: "\<forall>p \<in> set (lease_postings ac db). 0 \<le> po_amount p \<and> stored_amount (po_amount p)"
  shows "\<exists>js db'. build_lease_journal_preview en ac db = Inr (length js, db') \<and> run_journals ac db' = js
    \<and> distinct (map (\<lambda>j. lj_journal_reference (row_values j)) js)
    \<and> (\<forall>l bal rows. rows = filter (\<lambda>r. lr_lease_id r = l) (map (ll_row \<circ> row_values) (effective_liability ac tokens db))
         \<longrightarrow> rows \<noteq> [] \<longrightarrow> rolls_forward bal rows
         \<longrightarrow> journal_movement ''Lease Liability'' l js = lr_closing (last rows) - bal)
    \<and> (\<forall>l. journal_movement ''ROU Asset'' l js = sum_list (map (\<lambda>r. dadd (ru_amortization r) (ru_impairment r))
         (filter (\<lambda>r. ru_lease_id r = l) (map (lu_row \<circ> row_values) (effective_rou ac tokens db)))))
    \<and> build_lease_journal_preview en ac db' = Inr (0, db')"
proof -
  have ps: "lease_postings ac db
      = concat (map liability_postings (effective_liability ac tokens db)) @ map rou_posting (effective_rou ac tokens db)"
    by (simp add: lease_postings_def tokens Let_def)
  have "distinct (map posting_key (lease_postings ac db))" unfolding ps by (rule posting_keys_distinct [OF ids])
  then obtain js db' where r: "build_lease_journal_preview en ac db = Inr (length js, db')" "run_journals ac db' = js"
    and c: "map entry_columns js = map posting_columns (positive (lease_postings ac db))"
    and d: "distinct (map (\<lambda>j. lj_journal_reference (row_values j)) js)" "build_lease_journal_preview en ac db' = Inr (0, db')"
    using preview_posts [OF fresh _ amounts] by metis
  have m: "journal_movement a l js = movement a l (map posting_columns (concat (map liability_postings (effective_liability ac tokens db))))
      + movement a l (map posting_columns (map rou_posting (effective_rou ac tokens db)))" for a l
    unfolding journal_movement_def c using amounts by (subst movement_positive) (simp_all add: ps movement_simps)
  have liability: "journal_movement ''Lease Liability'' l js
      = sum_list (map (\<lambda>r. lr_interest r - lr_payment r)
          (filter (\<lambda>r. lr_lease_id r = l) (map (ll_row \<circ> row_values) (effective_liability ac tokens db))))" for l
    unfolding m liability_postings_movement rou_postings_movement by (simp add: filter_map comp_def)
  have rou: "journal_movement ''ROU Asset'' l js = sum_list (map (\<lambda>r. dadd (ru_amortization r) (ru_impairment r))
         (filter (\<lambda>r. ru_lease_id r = l) (map (lu_row \<circ> row_values) (effective_rou ac tokens db))))" for l
    unfolding m liability_postings_movement rou_postings_movement by (simp add: filter_map comp_def)
  show ?thesis
    using r d liability rou rolls_forward_total by (intro exI [of _ js] exI [of _ db']) simp
qed

section \<open>What a modification changes\<close>

definition stored_liability :: "liability_row \<Rightarrow> bool" where
  "stored_liability r \<longleftrightarrow> stored_amount (lr_opening r) \<and> stored_amount (lr_interest r) \<and> stored_amount (lr_payment r)
     \<and> stored_amount (lr_closing r)"

lemma liability_step_exact:
  assumes "stored_liability r" and "stored_amount delta"
  shows "fixed6 (dsub (dadd (lr_opening r + delta) (lr_interest r)) (lr_payment r))
    = lr_opening r + lr_interest r - lr_payment r + delta"
proof -
  have s: "stored_amount (lr_opening r)" "stored_amount (lr_interest r)" "stored_amount (lr_payment r)"
    using assms(1) by (simp_all add: stored_liability_def)
  note m = s [THEN stored_amount_micro] assms(2) [THEN stored_amount_micro]
  note b = s [THEN stored_amount_less] assms(2) [THEN stored_amount_less]
  have a: "dadd (lr_opening r + delta) (lr_interest r) = lr_opening r + delta + lr_interest r"
    by (rule dadd_exact) (use m b in \<open>auto simp: abs_less_iff\<close>)
  have "dsub (lr_opening r + delta + lr_interest r) (lr_payment r) = lr_opening r + delta + lr_interest r - lr_payment r"
    by (rule dsub_exact) (use m b in \<open>auto simp: abs_less_iff\<close>)
  moreover have "micro (lr_opening r + delta + lr_interest r - lr_payment r)" using m by auto
  ultimately show ?thesis by (simp add: a fixed6_micro)
qed

lemma regenerated_shift:
  assumes "rolls_forward bal (map (ll_row \<circ> row_values) rows)" and "\<forall>r \<in> set rows. stored_liability (ll_row (row_values r))"
    and "stored_amount delta"
  shows "map lr_closing (regenerated_liability l tok 0 (bal + delta) k rows)
      = map (\<lambda>r. lr_closing (ll_row (row_values r)) + delta) rows"
  using assms(1,2)
proof (induction rows arbitrary: bal k)
  case (Cons r rows)
  let ?s = "ll_row (row_values r)"
  have "fixed6 (dsub (dadd (bal + delta) (lr_interest ?s)) (lr_payment ?s)) = lr_closing ?s + delta"
    using Cons.prems liability_step_exact [OF _ assms(3), of ?s] by simp
  moreover have "map lr_closing (regenerated_liability l tok 0 (lr_closing ?s + delta) (Suc k) rows)
      = map (\<lambda>r. lr_closing (ll_row (row_values r)) + delta) rows"
    by (rule Cons.IH) (use Cons.prems in auto)
  ultimately show ?case by (simp only: regenerated_liability.simps Let_def) simp
qed simp

lemma regenerated_from_delta:
  "stored_amount bal \<Longrightarrow> stored_amount delta
   \<Longrightarrow> regenerated_liability l tok delta bal k rows = regenerated_liability l tok 0 (bal + delta) k rows"
  by (cases rows) (simp_all add: Let_def dadd_stored)

lemma regenerated_columns:
  "map (\<lambda>r. (lr_schedule_date r, lr_interest r, lr_payment r)) (regenerated_liability l tok delta bal k rows)
   = map (\<lambda>r. (lr_schedule_date (ll_row (row_values r)), lr_interest (ll_row (row_values r)), lr_payment (ll_row (row_values r)))) rows"
  by (induction rows arbitrary: delta bal k) (simp_all add: Let_def)

text \<open>(C31) A modification moves the balances of the remaining liability rows by its delta and nothing else: dates,
  interest and payments are copied, so no interest accrues on the delta and every closing balance, the last one
  included, is the old one plus the delta.\<close>

theorem modification_only_shifts_liability:
  assumes "rolls_forward bal (map (ll_row \<circ> row_values) forward)" and "stored_amount bal"
    and "\<forall>r \<in> set forward. stored_liability (ll_row (row_values r))" and "stored_amount delta"
  shows "map (\<lambda>r. (lr_schedule_date r, lr_interest r, lr_payment r)) (regenerated_liability l tok delta bal k forward)
      = map (\<lambda>r. (lr_schedule_date (ll_row (row_values r)), lr_interest (ll_row (row_values r)), lr_payment (ll_row (row_values r)))) forward
    \<and> map lr_closing (regenerated_liability l tok delta bal k forward)
      = map (\<lambda>r. lr_closing (ll_row (row_values r)) + delta) forward"
  using regenerated_columns regenerated_shift [OF assms(1,3,4)] regenerated_from_delta [OF assms(2,4)] by simp

section \<open>Example\<close>

definition ex_scheduled_db :: lease_db where
  "ex_scheduled_db = ex_lease_db\<lparr>
     ld_liability := [stored 61 \<lparr>ll_run_id = 50, ll_row = ex_liability_row ''v'' 71 1 2024 144 36 80, ll_correlation_id = ''corr''\<rparr>,
                      stored 62 \<lparr>ll_run_id = 50, ll_row = ex_liability_row ''v'' 72 2 2025 80 20 0, ll_correlation_id = ''corr''\<rparr>],
     ld_rou := [stored 63 \<lparr>lu_run_id = 50, lu_row = ex_rou_row ''v'' 61 1 2024 144 0 72, lu_correlation_id = ''corr''\<rparr>]\<rparr>"

definition ex_lease_engine :: lease_engine where
  "ex_lease_engine = \<lparr>ln_sha = (\<lambda>s. s), ln_babel = None, ln_dec_str = (\<lambda>_. ''0''), ln_parse = (\<lambda>_. Inl IntegrityError)\<rparr>"

lemma ex_effective:
  "lease_tokens ex_activity ex_scheduled_db (run_lease_ids ex_activity ex_scheduled_db) = [(5, ''v'')]"
  "effective_liability ex_activity [(5, ''v'')] ex_scheduled_db = ld_liability ex_scheduled_db"
  "effective_rou ex_activity [(5, ''v'')] ex_scheduled_db = ld_rou ex_scheduled_db"
  by (simp_all add: ex_scheduled_db_def ex_lease_db_def ex_activity_def stored_def lease_tokens_def run_lease_ids_def
      run_liability_def run_rou_def lease_root_version_token_def lease_effective_version_token_def modifications_of_def
      effective_liability_def effective_rou_def prior_liability_rows_def liability_version_def ex_liability_row_def
      ex_rou_row_def earliest_by_def latest_by_def)

lemma lease_journals_reconcile_witness:
  "\<exists>js db'. build_lease_journal_preview ex_lease_engine ex_activity ex_scheduled_db = Inr (length js, db')
     \<and> journal_movement ''Lease Liability'' 5 js = - 144 \<and> journal_movement ''ROU Asset'' 5 js = 72"
proof -
  let ?db = ex_scheduled_db
  have fresh: "run_journals ex_activity ?db = []" by (simp add: run_journals_def ex_scheduled_db_def ex_lease_db_def)
  have n: "stored_amount 36" "stored_amount 20" "stored_amount 100" "stored_amount 72" "dadd 72 0 = 72"
    by (simp_all add: stored_amount_def numeric_id money_def micro_def dadd_exact)
  have amounts: "\<forall>p \<in> set (lease_postings ex_activity ?db). 0 \<le> po_amount p \<and> stored_amount (po_amount p)"
    by (simp add: lease_postings_def Let_def ex_effective)
      (simp add: ex_scheduled_db_def stored_def liability_postings_def rou_posting_def Let_def ex_liability_row_def ex_rou_row_def n)
  have ids: "distinct (map row_id (effective_liability ex_activity [(5, ''v'')] ?db))"
    "distinct (map row_id (effective_rou ex_activity [(5, ''v'')] ?db))"
    unfolding ex_effective by (simp_all add: ex_scheduled_db_def stored_def)
  obtain js db' where r: "build_lease_journal_preview ex_lease_engine ex_activity ?db = Inr (length js, db')"
    and l: "\<forall>l bal rows. rows = filter (\<lambda>r. lr_lease_id r = l) (map (ll_row \<circ> row_values) (effective_liability ex_activity [(5, ''v'')] ?db))
         \<longrightarrow> rows \<noteq> [] \<longrightarrow> rolls_forward bal rows
         \<longrightarrow> journal_movement ''Lease Liability'' l js = lr_closing (last rows) - bal"
    and u: "\<forall>l. journal_movement ''ROU Asset'' l js = sum_list (map (\<lambda>r. dadd (ru_amortization r) (ru_impairment r))
         (filter (\<lambda>r. ru_lease_id r = l) (map (lu_row \<circ> row_values) (effective_rou ex_activity [(5, ''v'')] ?db))))"
    using lease_journals_reconcile [OF fresh ex_effective(1) [symmetric] ids amounts, of ex_lease_engine] by blast
  have "[ex_liability_row ''v'' 71 1 2024 144 36 80, ex_liability_row ''v'' 72 2 2025 80 20 0]
      = filter (\<lambda>r. lr_lease_id r = 5) (map (ll_row \<circ> row_values) (effective_liability ex_activity [(5, ''v'')] ?db))"
    unfolding ex_effective by (simp add: ex_scheduled_db_def stored_def ex_liability_row_def)
  from l [rule_format, OF this, of 144] have "journal_movement ''Lease Liability'' 5 js = - 144"
    by (simp add: ex_liability_row_def)
  moreover have "[ex_rou_row ''v'' 61 1 2024 144 0 72]
      = filter (\<lambda>r. ru_lease_id r = 5) (map (lu_row \<circ> row_values) (effective_rou ex_activity [(5, ''v'')] ?db))"
    unfolding ex_effective by (simp add: ex_scheduled_db_def stored_def ex_rou_row_def)
  from u [rule_format, of 5, folded this] have "journal_movement ''ROU Asset'' 5 js = 72"
    by (simp add: ex_rou_row_def n)
  ultimately show ?thesis using r by blast
qed

text \<open>The two rows of the example, raised by ten: the last closing balance is ten instead of zero.\<close>

lemma modification_only_shifts_liability_witness:
  "map lr_closing (regenerated_liability 5 ''w'' 10 144 0 (ld_liability ex_scheduled_db)) = [90, 10]"
proof -
  have s: "stored_amount 144" "stored_amount 36" "stored_amount 100" "stored_amount 80" "stored_amount 20" "stored_amount 0"
    "stored_amount 10"
    by (simp_all add: stored_amount_def numeric_id money_def micro_def)
  have rolls: "rolls_forward 144 (map (ll_row \<circ> row_values) (ld_liability ex_scheduled_db))"
    and stored: "\<forall>r \<in> set (ld_liability ex_scheduled_db). stored_liability (ll_row (row_values r))"
    by (simp_all add: ex_scheduled_db_def stored_def ex_liability_row_def stored_liability_def s)
  have "map lr_closing (regenerated_liability 5 ''w'' 10 144 0 (ld_liability ex_scheduled_db))
      = map (\<lambda>r. lr_closing (ll_row (row_values r)) + 10) (ld_liability ex_scheduled_db)"
    using modification_only_shifts_liability [OF rolls s(1) stored s(7), of 5 "''w''" 0] by simp
  then show ?thesis by (simp add: ex_scheduled_db_def stored_def ex_liability_row_def)
qed

end
