(* ===== verification/Journal_States.thy ===== *)
theory Journal_States
  imports Prelude
begin

text \<open>
  The state machine of journal vouchers: \<open>JVStatus\<close> and \<open>EntryType\<close> of
  \<open>db/models/accounting_jv.py\<close> and \<open>domain/state_machine.py\<close> of the accounting layer.  The lemmas
  bound the life of a voucher: how often it is resubmitted and how many changes of status it has left.
\<close>

section \<open>Statuses\<close>

datatype journal_status =
    DRAFT | SUBMITTED | PENDING_REVIEW | UNDER_REVIEW | APPROVED | PUSH_IN_PROGRESS | PUSHED | PUSH_FAILED
  | REJECTED | RESUBMITTED | ESCALATED | VOIDED

datatype entry_type = DEBIT | CREDIT

fun status_text :: "journal_status \<Rightarrow> string" where
  "status_text DRAFT = ''DRAFT''"
| "status_text SUBMITTED = ''SUBMITTED''"
| "status_text PENDING_REVIEW = ''PENDING_REVIEW''"
| "status_text UNDER_REVIEW = ''UNDER_REVIEW''"
| "status_text APPROVED = ''APPROVED''"
| "status_text PUSH_IN_PROGRESS = ''PUSH_IN_PROGRESS''"
| "status_text PUSHED = ''PUSHED''"
| "status_text PUSH_FAILED = ''PUSH_FAILED''"
| "status_text REJECTED = ''REJECTED''"
| "status_text RESUBMITTED = ''RESUBMITTED''"
| "status_text ESCALATED = ''ESCALATED''"
| "status_text VOIDED = ''VOIDED''"

definition all_statuses :: "journal_status list" where
  "all_statuses = [DRAFT, SUBMITTED, PENDING_REVIEW, UNDER_REVIEW, APPROVED, PUSH_IN_PROGRESS, PUSHED, PUSH_FAILED,
     REJECTED, RESUBMITTED, ESCALATED, VOIDED]"

definition status_named :: "string \<Rightarrow> journal_status option" where
  "status_named s = find (\<lambda>st. status_text st = s) all_statuses"

fun entry_text :: "entry_type \<Rightarrow> string" where
  "entry_text DEBIT = ''DEBIT''"
| "entry_text CREDIT = ''CREDIT''"

definition TERMINAL_STATES :: "journal_status list" where
  "TERMINAL_STATES = [PUSHED, VOIDED]"

definition ALLOWED_TRANSITIONS :: "(journal_status \<times> journal_status) list" where
  "ALLOWED_TRANSITIONS =
    [(DRAFT, SUBMITTED), (SUBMITTED, PENDING_REVIEW), (PENDING_REVIEW, UNDER_REVIEW), (UNDER_REVIEW, APPROVED),
     (APPROVED, PUSH_IN_PROGRESS), (PUSH_IN_PROGRESS, PUSHED), (PUSH_IN_PROGRESS, PUSH_FAILED),
     (PUSH_FAILED, PUSH_IN_PROGRESS), (PENDING_REVIEW, REJECTED), (UNDER_REVIEW, REJECTED), (RESUBMITTED, REJECTED),
     (ESCALATED, REJECTED), (REJECTED, RESUBMITTED), (RESUBMITTED, PENDING_REVIEW), (RESUBMITTED, ESCALATED),
     (ESCALATED, UNDER_REVIEW), (DRAFT, VOIDED), (SUBMITTED, VOIDED), (PENDING_REVIEW, VOIDED), (UNDER_REVIEW, VOIDED),
     (APPROVED, VOIDED), (PUSH_FAILED, VOIDED), (REJECTED, VOIDED), (RESUBMITTED, VOIDED), (ESCALATED, VOIDED)]"

definition MAX_RESUBMISSIONS :: nat where "MAX_RESUBMISSIONS = 3"

section \<open>Validation\<close>

text \<open>The target is \<open>None\<close> where the text asked for names no status.  \<open>absent\<close> is \<open>not s\<close> of an optional text.\<close>

record transition_request =
  tq_from_status :: journal_status
  tq_to_status :: "journal_status option"
  tq_triggered_by_role :: string
  tq_is_admin :: bool
  tq_comment :: "string option"
  tq_resubmission_count :: nat

definition absent :: "string option \<Rightarrow> bool" where
  "absent s \<longleftrightarrow> s = None \<or> s = Some []"

definition validate_transition :: "transition_request \<Rightarrow> journal_status result" where
  "validate_transition req =
     (if tq_from_status req \<in> set TERMINAL_STATES
      then Inl (ValidationError ''JV is in terminal state and cannot transition further.'')
      else case tq_to_status req of
        None \<Rightarrow> Inl (ValidationError ''Transition is not allowed.'')
      | Some to_status \<Rightarrow>
          if (tq_from_status req, to_status) \<notin> set ALLOWED_TRANSITIONS
          then Inl (ValidationError ''Transition is not allowed.'')
          else if to_status = VOIDED \<and> \<not> tq_is_admin req
          then Inl (ValidationError ''Only Accounting Admin can void a JV.'')
          else if to_status = REJECTED \<and> absent (tq_comment req)
          then Inl (ValidationError ''A comment is required when rejecting a JV.'')
          else if to_status = VOIDED \<and> absent (tq_comment req)
          then Inl (ValidationError ''A void reason is required when voiding a JV.'')
          else if to_status = RESUBMITTED \<and> MAX_RESUBMISSIONS \<le> tq_resubmission_count req
          then Inl (ValidationError ''JV reached max resubmissions; escalate to CFO approver.'')
          else Inr to_status)"

definition next_status_after_resubmit :: "nat \<Rightarrow> journal_status" where
  "next_status_after_resubmit resubmission_count =
     (if MAX_RESUBMISSIONS \<le> resubmission_count then ESCALATED else RESUBMITTED)"

text \<open>What \<open>transition_jv\<close> makes of the text it is asked for, and its count of resubmissions.\<close>

definition transition_target :: "string \<Rightarrow> nat \<Rightarrow> journal_status option" where
  "transition_target to_status resubmission_count =
     (let target_status = status_named (py_upper to_status) in
      if target_status = Some RESUBMITTED then Some (next_status_after_resubmit resubmission_count) else target_status)"

definition count_after :: "journal_status \<Rightarrow> nat \<Rightarrow> nat" where
  "count_after target_status resubmission_count =
     (if target_status \<in> {RESUBMITTED, ESCALATED} then resubmission_count + 1 else resubmission_count)"

section \<open>The life of a voucher\<close>

text \<open>
  \<open>journal_service.py\<close> does not ask \<open>validate_transition\<close>: its handlers check the status themselves and write the next one
  directly.  These are the changes they make: submission, review, approval, the approval of a reversal, posting, and the
  voiding of a reversed journal.  That the handlers make no others is proved of them in Journal\_Moves.
\<close>

definition DIRECT_WRITES :: "(journal_status \<times> journal_status) list" where
  "DIRECT_WRITES =
    [(DRAFT, SUBMITTED), (SUBMITTED, UNDER_REVIEW), (PENDING_REVIEW, UNDER_REVIEW), (RESUBMITTED, UNDER_REVIEW),
     (SUBMITTED, APPROVED), (PENDING_REVIEW, APPROVED), (UNDER_REVIEW, APPROVED), (RESUBMITTED, APPROVED), (ESCALATED, APPROVED),
     (DRAFT, APPROVED), (APPROVED, PUSHED), (PUSHED, VOIDED), (PUSH_IN_PROGRESS, VOIDED)]"

text \<open>One change of status, on the status and the count of resubmissions: an accepted transition or a direct write.\<close>

type_synonym jv_life = "journal_status \<times> nat"

inductive life_step :: "jv_life \<Rightarrow> jv_life \<Rightarrow> bool" where
  requested: "validate_transition req = Inr target \<Longrightarrow> tq_from_status req = s \<Longrightarrow> tq_resubmission_count req = n
   \<Longrightarrow> life_step (s, n) (target, count_after target n)"
| written: "(s, target) \<in> set DIRECT_WRITES \<Longrightarrow> life_step (s, n) (target, n)"

inductive_cases life_step_elim: "life_step (s, n) l"

text \<open>Whether a voucher may still move, and how: as the table reads.\<close>

lemma validate_transition_Inr:
  "validate_transition req = Inr target \<longleftrightarrow> tq_to_status req = Some target \<and> (tq_from_status req, target) \<in> set ALLOWED_TRANSITIONS
     \<and> (target = VOIDED \<longrightarrow> tq_is_admin req \<and> \<not> absent (tq_comment req)) \<and> (target = REJECTED \<longrightarrow> \<not> absent (tq_comment req))
     \<and> (target = RESUBMITTED \<longrightarrow> tq_resubmission_count req < MAX_RESUBMISSIONS)"
proof -
  have "tq_from_status req \<notin> set TERMINAL_STATES" if "(tq_from_status req, target) \<in> set ALLOWED_TRANSITIONS"
    using that by (auto simp: ALLOWED_TRANSITIONS_def TERMINAL_STATES_def)
  then show ?thesis by (auto simp: validate_transition_def split: option.splits)
qed

lemma direct_count: "(s, t) \<in> set DIRECT_WRITES \<Longrightarrow> count_after t n = n"
  by (auto simp: DIRECT_WRITES_def count_after_def)

lemma life_step_iff:
  "life_step (s, n) (t, m) \<longleftrightarrow>
     ((s, t) \<in> set ALLOWED_TRANSITIONS \<and> (t = RESUBMITTED \<longrightarrow> n < MAX_RESUBMISSIONS) \<or> (s, t) \<in> set DIRECT_WRITES) \<and> m = count_after t n"
proof
  assume "life_step (s, n) (t, m)"
  then show "((s, t) \<in> set ALLOWED_TRANSITIONS \<and> (t = RESUBMITTED \<longrightarrow> n < MAX_RESUBMISSIONS) \<or> (s, t) \<in> set DIRECT_WRITES)
      \<and> m = count_after t n"
    by (rule life_step_elim) (auto simp: validate_transition_Inr direct_count)
next
  assume a: "((s, t) \<in> set ALLOWED_TRANSITIONS \<and> (t = RESUBMITTED \<longrightarrow> n < MAX_RESUBMISSIONS) \<or> (s, t) \<in> set DIRECT_WRITES)
    \<and> m = count_after t n"
  let ?req = "\<lparr>tq_from_status = s, tq_to_status = Some t, tq_triggered_by_role = [], tq_is_admin = True,
      tq_comment = Some ''c'', tq_resubmission_count = n\<rparr>"
  show "life_step (s, n) (t, m)"
  proof (cases "(s, t) \<in> set DIRECT_WRITES")
    case True
    then show ?thesis using a written [of s t n] direct_count [of s t n] by simp
  next
    case False
    then have "validate_transition ?req = Inr t" using a by (simp add: validate_transition_Inr absent_def)
    from requested [OF this, of s n] show ?thesis using a by simp
  qed
qed

text \<open>The count of a voucher that started in draft.\<close>

fun count_ok :: "jv_life \<Rightarrow> bool" where
  "count_ok (s, n) \<longleftrightarrow> n \<le> MAX_RESUBMISSIONS + 1 \<and> (s = RESUBMITTED \<longrightarrow> n \<le> MAX_RESUBMISSIONS)"

lemma life_step_count: "life_step l l' \<Longrightarrow> count_ok l \<Longrightarrow> count_ok l'"
  by (cases l; cases l')
    (auto simp: life_step_iff count_after_def ALLOWED_TRANSITIONS_def DIRECT_WRITES_def MAX_RESUBMISSIONS_def)

text \<open>The number of changes that are left, leaving aside retries of a failed push.\<close>

definition rejected_left :: "nat \<Rightarrow> nat" where
  "rejected_left n = (if n < MAX_RESUBMISSIONS then 4 * (MAX_RESUBMISSIONS - n) + 3 else 1)"

definition review_left :: "nat \<Rightarrow> nat" where
  "review_left n = max 3 (rejected_left n) + 1"

fun transitions_left :: "jv_life \<Rightarrow> nat" where
  "transitions_left (DRAFT, n) = review_left n + 3"
| "transitions_left (SUBMITTED, n) = review_left n + 2"
| "transitions_left (PENDING_REVIEW, n) = review_left n + 1"
| "transitions_left (ESCALATED, n) = review_left n + 1"
| "transitions_left (RESUBMITTED, n) = review_left n + 2"
| "transitions_left (UNDER_REVIEW, n) = review_left n"
| "transitions_left (REJECTED, n) = rejected_left n"
| "transitions_left (APPROVED, n) = 3"
| "transitions_left (PUSH_IN_PROGRESS, n) = 2"
| "transitions_left (PUSH_FAILED, n) = 1"
| "transitions_left (PUSHED, n) = 1"
| "transitions_left (VOIDED, n) = 0"

lemma life_step_left:
  "life_step (s, n) (t, m) \<Longrightarrow> transitions_left (t, m) + 1 \<le> transitions_left (s, n) + (if s = PUSH_FAILED \<and> t = PUSH_IN_PROGRESS then 2 else 0)"
  by (auto simp: life_step_iff count_after_def ALLOWED_TRANSITIONS_def DIRECT_WRITES_def MAX_RESUBMISSIONS_def
      review_left_def rejected_left_def)

lemma draft_left: "transitions_left (DRAFT, 0) = 19"
  by (simp add: review_left_def rejected_left_def MAX_RESUBMISSIONS_def)

end
