(* ===== verification/Governance.thy ===== *)
theory Governance
  imports Audit_Chain
begin

text \<open>
  Period locks, approval policies and governance events of the accounting layer:
  \<open>modules/accounting_layer/application/governance_service.py\<close> and \<open>core/governance/events.py\<close>.
  Every journal handler asks this part whether the period admits the change.  The lemmas say
  which lock is in force after any locks and unlocks of the periods.
\<close>

section \<open>Sessions\<close>

text \<open>What a handler runs in: the intent and job that authorise the mutation (\<open>core/intent/context.py\<close>),
  the start of the transaction, which is what \<open>now()\<close> of the database returns, and today's date.\<close>

record mutation_context =
  mc_intent_id :: uuid
  mc_job_id :: uuid

record session =
  se_context :: "mutation_context option"
  se_started :: nat
  se_today :: date

definition require_mutation_context :: "session \<Rightarrow> mutation_context result" where
  "require_mutation_context se =
     (case se_context se of
        None \<Rightarrow> Inl (ValidationError ''governed by the intent pipeline and cannot run without an active intent/job context.'')
      | Some c \<Rightarrow> Inr c)"

section \<open>Periods and policies\<close>

datatype period_status = OPEN | SOFT_CLOSED | HARD_CLOSED | REOPENED

record accounting_period =
  ap_id :: uuid
  ap_tenant_id :: uuid
  ap_org_entity_id :: "uuid option"
  ap_fiscal_year :: int
  ap_period_number :: int
  ap_period_start :: date
  ap_period_end :: date
  ap_status :: period_status
  ap_locked_by :: "uuid option"
  ap_locked_at :: "nat option"
  ap_reopened_by :: "uuid option"
  ap_reopened_at :: "nat option"
  ap_notes :: "string option"

record approval_policy_config =
  pc_require_reviewer :: bool
  pc_require_distinct_approver :: bool
  pc_require_distinct_poster :: bool

record approval_policy =
  py_tenant_id :: uuid
  py_module_name :: string
  py_config :: approval_policy_config

record governance_event =
  gv_entity_id :: "uuid option"
  gv_module_key :: string
  gv_subject_type :: string
  gv_subject_id :: string
  gv_event_type :: string
  gv_actor_user_id :: "uuid option"
  gv_actor_role :: "string option"
  gv_payload_json :: json

record governance_audit_event =
  ga_entity_id :: "uuid option"
  ga_module :: string
  ga_action :: string
  ga_actor_user_id :: uuid
  ga_target_id :: string
  ga_payload_json :: json

record governance_db =
  gd_periods :: "accounting_period list"
  gd_policies :: "approval_policy list"
  gd_audit :: "governance_audit_event row list"
  gd_events :: "governance_event row list"
  gd_env :: env

definition period_text :: "period_status \<Rightarrow> string" where
  "period_text st = (case st of OPEN \<Rightarrow> ''OPEN'' | SOFT_CLOSED \<Rightarrow> ''SOFT_CLOSED'' | HARD_CLOSED \<Rightarrow> ''HARD_CLOSED''
     | REOPENED \<Rightarrow> ''REOPENED'')"

definition period_range :: "int \<Rightarrow> int \<Rightarrow> (date \<times> date) result" where
  "period_range fiscal_year period_number =
     (if period_number < 1 \<or> 12 < period_number then Inl (ValidationError ''period_number must be between 1 and 12.'')
      else bindE (mk_date fiscal_year period_number 1) (\<lambda>start.
           bindE (mk_date fiscal_year period_number (days_in_month fiscal_year period_number)) (\<lambda>end'.
           Inr (start, end'))))"

definition normalize_lock_type :: "string \<Rightarrow> period_status result" where
  "normalize_lock_type s =
     (let normalized = py_upper (py_strip s) in
      if normalized = ''SOFT_CLOSED'' then Inr SOFT_CLOSED
      else if normalized = ''HARD_CLOSED'' then Inr HARD_CLOSED
      else Inl (ValidationError ''lock_type must be SOFT_CLOSED or HARD_CLOSED.''))"

section \<open>Events\<close>

definition emit_governance_event :: "sha \<Rightarrow> uuid \<Rightarrow> governance_event \<Rightarrow> governance_db \<Rightarrow> governance_db" where
  "emit_governance_event sha tenant_id ev db =
     (let (_, rows, env) = insert_financial_record sha (\<lambda>v. v) tenant_id
            (JDict [(''module_key'', JStr (gv_module_key ev)), (''subject_type'', JStr (gv_subject_type ev)),
              (''subject_id'', JStr (gv_subject_id ev)), (''event_type'', JStr (gv_event_type ev))])
            ev None (gd_events db, gd_env db)
      in db\<lparr>gd_events := rows, gd_env := env\<rparr>)"

definition append_audit_event :: "sha \<Rightarrow> uuid \<Rightarrow> uuid option \<Rightarrow> uuid \<Rightarrow> string \<Rightarrow> string \<Rightarrow> string \<Rightarrow> (string \<times> json) list
    \<Rightarrow> governance_db \<Rightarrow> governance_db" where
  "append_audit_event sha tenant_id entity_id actor_user_id module_name action target_id payload db =
     (let (_, rows, env) = insert_financial_record sha (\<lambda>v. v) tenant_id
            (JDict [(''module'', JStr module_name), (''action'', JStr action), (''target_id'', JStr target_id),
              (''actor_user_id'', JStr (uuid_text actor_user_id))])
            \<lparr>ga_entity_id = entity_id, ga_module = module_name, ga_action = action, ga_actor_user_id = actor_user_id,
             ga_target_id = target_id, ga_payload_json = JDict payload\<rparr> None (gd_audit db, gd_env db)
      in emit_governance_event sha tenant_id
           \<lparr>gv_entity_id = entity_id, gv_module_key = module_name, gv_subject_type = ''governed_mutation'',
            gv_subject_id = target_id, gv_event_type = py_upper (py_strip action), gv_actor_user_id = Some actor_user_id,
            gv_actor_role = None, gv_payload_json = JDict (py_dict (payload @ [(''legacy_module'', JStr module_name),
              (''legacy_action'', JStr action), (''legacy_target_id'', JStr target_id)]))\<rparr>
           (db\<lparr>gd_audit := rows, gd_env := env\<rparr>))"

section \<open>The lock in force\<close>

record effective_lock =
  el_status :: period_status
  el_period_id :: "uuid option"
  el_reason :: "string option"
  el_locked_at :: "nat option"
  el_locked_by :: "uuid option"
  el_org_entity_id :: "uuid option"

text \<open>The rows that count for an entity: its own and the tenant-wide one; the key of \<open>sorted\<close>.\<close>

definition period_rows :: "uuid \<Rightarrow> uuid option \<Rightarrow> int \<Rightarrow> int \<Rightarrow> governance_db \<Rightarrow> accounting_period list" where
  "period_rows tenant_id org_entity_id fiscal_year period_number db =
     filter (\<lambda>p. ap_tenant_id p = tenant_id \<and> ap_fiscal_year p = fiscal_year \<and> ap_period_number p = period_number
       \<and> (ap_org_entity_id p = None \<or> ap_org_entity_id p = org_entity_id)) (gd_periods db)"

definition lock_rank :: "accounting_period \<Rightarrow> nat \<times> nat" where
  "lock_rank p = (if ap_status p = HARD_CLOSED then 0 else if ap_status p = SOFT_CLOSED then 1 else 2,
     if ap_org_entity_id p \<noteq> None then 0 else 1)"

definition resolve_effective_period_lock :: "uuid \<Rightarrow> uuid option \<Rightarrow> int \<Rightarrow> int \<Rightarrow> governance_db \<Rightarrow> effective_lock" where
  "resolve_effective_period_lock tenant_id org_entity_id fiscal_year period_number db =
     (case sort_key lock_rank (sort_key (\<lambda>p. ap_org_entity_id p = None)
             (period_rows tenant_id org_entity_id fiscal_year period_number db)) of
        [] \<Rightarrow> \<lparr>el_status = OPEN, el_period_id = None, el_reason = None, el_locked_at = None, el_locked_by = None,
               el_org_entity_id = org_entity_id\<rparr>
      | chosen # _ \<Rightarrow> \<lparr>el_status = ap_status chosen, el_period_id = Some (ap_id chosen), el_reason = ap_notes chosen,
               el_locked_at = ap_locked_at chosen, el_locked_by = ap_locked_by chosen,
               el_org_entity_id = ap_org_entity_id chosen\<rparr>)"

definition allow_soft_close_override :: "string option \<Rightarrow> bool" where
  "allow_soft_close_override actor_role =
     (case actor_role of None \<Rightarrow> False
      | Some r \<Rightarrow> py_lower (py_strip r) \<in> {''super_admin'', ''finance_leader'', ''platform_owner'', ''platform_admin''})"

definition assert_period_allows_modification :: "uuid \<Rightarrow> uuid option \<Rightarrow> int \<Rightarrow> int \<Rightarrow> governance_db \<Rightarrow> unit result" where
  "assert_period_allows_modification tenant_id org_entity_id fiscal_year period_number db =
     raise_if (el_status (resolve_effective_period_lock tenant_id org_entity_id fiscal_year period_number db) = HARD_CLOSED)
       (ValidationError ''Period is HARD_CLOSED. No modifications are allowed.'')"

definition assert_period_allows_posting :: "uuid \<Rightarrow> uuid option \<Rightarrow> int \<Rightarrow> int \<Rightarrow> string option \<Rightarrow> governance_db \<Rightarrow> unit result" where
  "assert_period_allows_posting tenant_id org_entity_id fiscal_year period_number actor_role db =
     (let lock_state = resolve_effective_period_lock tenant_id org_entity_id fiscal_year period_number db in
      bindE (raise_if (el_status lock_state = HARD_CLOSED) (ValidationError ''Period is HARD_CLOSED. Posting is blocked.'')) (\<lambda>_.
      raise_if (el_status lock_state = SOFT_CLOSED \<and> \<not> allow_soft_close_override actor_role)
        (ValidationError ''Period is SOFT_CLOSED. Posting requires admin override.'')))"

definition assert_period_allows_revaluation :: "uuid \<Rightarrow> uuid \<Rightarrow> date \<Rightarrow> string option \<Rightarrow> governance_db \<Rightarrow> unit result" where
  "assert_period_allows_revaluation tenant_id org_entity_id as_of_date actor_role db =
     assert_period_allows_posting tenant_id (Some org_entity_id) (dt_year as_of_date) (dt_month as_of_date) actor_role db"

section \<open>Locking and unlocking\<close>

definition find_period :: "uuid \<Rightarrow> uuid option \<Rightarrow> int \<Rightarrow> int \<Rightarrow> governance_db \<Rightarrow> accounting_period list" where
  "find_period tenant_id org_entity_id fiscal_year period_number db =
     filter (\<lambda>p. ap_tenant_id p = tenant_id \<and> ap_org_entity_id p = org_entity_id \<and> ap_fiscal_year p = fiscal_year
       \<and> ap_period_number p = period_number) (gd_periods db)"

definition get_or_create_accounting_period :: "uuid \<Rightarrow> uuid option \<Rightarrow> int \<Rightarrow> int \<Rightarrow> governance_db
    \<Rightarrow> (accounting_period \<times> governance_db) result" where
  "get_or_create_accounting_period tenant_id org_entity_id fiscal_year period_number db =
     (case find_period tenant_id org_entity_id fiscal_year period_number db of
        [row] \<Rightarrow> Inr (row, db)
      | [] \<Rightarrow> bindE (period_range fiscal_year period_number) (\<lambda>(start, end').
          let row = \<lparr>ap_id = env_next_id (gd_env db), ap_tenant_id = tenant_id, ap_org_entity_id = org_entity_id,
                ap_fiscal_year = fiscal_year, ap_period_number = period_number, ap_period_start = start,
                ap_period_end = end', ap_status = OPEN, ap_locked_by = None, ap_locked_at = None, ap_reopened_by = None,
                ap_reopened_at = None, ap_notes = None\<rparr>
          in Inr (row, db\<lparr>gd_periods := gd_periods db @ [row], gd_env := tick (gd_env db)\<rparr>))
      | _ \<Rightarrow> Inl MultipleResultsFound)"

definition put_period :: "accounting_period \<Rightarrow> governance_db \<Rightarrow> governance_db" where
  "put_period row db = db\<lparr>gd_periods := map (\<lambda>p. if ap_id p = ap_id row then row else p) (gd_periods db)\<rparr>"

definition period_payload :: "uuid option \<Rightarrow> int \<Rightarrow> int \<Rightarrow> (string \<times> json) list" where
  "period_payload org_entity_id fiscal_year period_number =
     [(''org_entity_id'', json_opt (map_option uuid_text org_entity_id)), (''fiscal_year'', JInt fiscal_year),
      (''period_number'', JInt period_number)]"

definition lock_period :: "sha \<Rightarrow> uuid \<Rightarrow> uuid option \<Rightarrow> int \<Rightarrow> int \<Rightarrow> string \<Rightarrow> string option \<Rightarrow> uuid \<Rightarrow> governance_db
    \<Rightarrow> (accounting_period \<times> governance_db) result" where
  "lock_period sha tenant_id org_entity_id fiscal_year period_number lock_type reason actor_user_id db =
     bindE (normalize_lock_type lock_type) (\<lambda>normalized_lock.
     bindE (get_or_create_accounting_period tenant_id org_entity_id fiscal_year period_number db) (\<lambda>(period, db).
     let now = env_now (gd_env db);
         period = period\<lparr>ap_status := normalized_lock, ap_locked_by := Some actor_user_id, ap_locked_at := Some now,
           ap_notes := reason\<rparr>;
         db = put_period period (db\<lparr>gd_env := tick (gd_env db)\<rparr>)
     in Inr (period, append_audit_event sha tenant_id org_entity_id actor_user_id ''period_close'' ''period_lock''
          (uuid_text (ap_id period))
          (period_payload org_entity_id fiscal_year period_number
            @ [(''lock_type'', JStr (period_text normalized_lock)), (''reason'', json_opt reason)]) db)))"

definition unlock_period :: "sha \<Rightarrow> uuid \<Rightarrow> uuid option \<Rightarrow> int \<Rightarrow> int \<Rightarrow> string \<Rightarrow> uuid \<Rightarrow> governance_db
    \<Rightarrow> (accounting_period \<times> governance_db) result" where
  "unlock_period sha tenant_id org_entity_id fiscal_year period_number reason actor_user_id db =
     bindE (raise_if (py_strip reason = []) (ValidationError ''Unlock reason is required.'')) (\<lambda>_.
     bindE (get_or_create_accounting_period tenant_id org_entity_id fiscal_year period_number db) (\<lambda>(period, db).
     let now = env_now (gd_env db);
         period = period\<lparr>ap_status := REOPENED, ap_reopened_by := Some actor_user_id, ap_reopened_at := Some now,
           ap_notes := Some reason\<rparr>;
         db = put_period period (db\<lparr>gd_env := tick (gd_env db)\<rparr>)
     in Inr (period, append_audit_event sha tenant_id org_entity_id actor_user_id ''period_close'' ''period_unlock''
          (uuid_text (ap_id period))
          (period_payload org_entity_id fiscal_year period_number @ [(''reason'', JStr reason)]) db)))"

section \<open>Policies\<close>

definition get_approval_policy :: "uuid \<Rightarrow> string \<Rightarrow> governance_db \<Rightarrow> approval_policy_config" where
  "get_approval_policy tenant_id module_name db =
     (case find (\<lambda>r. py_tenant_id r = tenant_id \<and> py_module_name r = module_name) (gd_policies db) of
        None \<Rightarrow> \<lparr>pc_require_reviewer = True, pc_require_distinct_approver = True, pc_require_distinct_poster = False\<rparr>
      | Some r \<Rightarrow> py_config r)"

definition enforce_maker_checker_for_approval :: "uuid \<Rightarrow> uuid \<Rightarrow> approval_policy_config \<Rightarrow> unit result" where
  "enforce_maker_checker_for_approval created_by approved_by policy =
     bindE (raise_if (created_by = approved_by) (ValidationError ''Maker-checker violation: maker cannot approve own journal.'')) (\<lambda>_.
     raise_if (pc_require_distinct_approver policy \<and> created_by = approved_by)
       (ValidationError ''Policy violation: approver must be distinct from maker.''))"

definition enforce_reviewer_policy :: "bool \<Rightarrow> approval_policy_config \<Rightarrow> unit result" where
  "enforce_reviewer_policy has_review_marker policy =
     raise_if (pc_require_reviewer policy \<and> \<not> has_review_marker) (ValidationError ''Journal must be reviewed before approval.'')"

definition enforce_distinct_poster_policy :: "uuid option \<Rightarrow> uuid \<Rightarrow> approval_policy_config \<Rightarrow> unit result" where
  "enforce_distinct_poster_policy reviewed_by posted_by policy =
     raise_if (pc_require_distinct_poster policy \<and> reviewed_by = Some posted_by)
       (ValidationError ''Policy violation: reviewer and poster must be distinct users.'')"

section \<open>Which lock is in force\<close>

text \<open>The abstract state: the status of a period by tenant, entity or tenant-wide, year and number.\<close>

type_synonym period_key = "uuid \<times> uuid option \<times> int \<times> int"

definition period_key :: "accounting_period \<Rightarrow> period_key" where
  "period_key p = (ap_tenant_id p, ap_org_entity_id p, ap_fiscal_year p, ap_period_number p)"

definition period_map :: "governance_db \<Rightarrow> period_key \<Rightarrow> period_status option" where
  "period_map db = map_of (map (\<lambda>p. (period_key p, ap_status p)) (gd_periods db))"

definition periods_ok :: "governance_db \<Rightarrow> bool" where
  "periods_ok db \<longleftrightarrow> distinct (map ap_id (gd_periods db)) \<and> distinct (map period_key (gd_periods db))
     \<and> (\<forall>p \<in> set (gd_periods db). ap_id p < env_next_id (gd_env db))"

definition strictest :: "period_status option \<Rightarrow> period_status option \<Rightarrow> period_status" where
  "strictest own wide =
     (if HARD_CLOSED \<in> set_option own \<union> set_option wide then HARD_CLOSED
      else if SOFT_CLOSED \<in> set_option own \<union> set_option wide then SOFT_CLOSED
      else case own of Some s \<Rightarrow> s | None \<Rightarrow> (case wide of Some s \<Rightarrow> s | None \<Rightarrow> OPEN))"

lemma emit_governance_event_facts:
  "gd_periods (emit_governance_event sha t ev db) = gd_periods db"
  "gd_policies (emit_governance_event sha t ev db) = gd_policies db"
  "gd_audit (emit_governance_event sha t ev db) = gd_audit db"
  "env_next_id (gd_env db) < env_next_id (gd_env (emit_governance_event sha t ev db))"
  "env_now (gd_env db) < env_now (gd_env (emit_governance_event sha t ev db))"
  by (simp_all add: emit_governance_event_def insert_financial_record_def insert_record_def append_row_def tick_def Let_def)

lemma append_audit_event_facts:
  "gd_periods (append_audit_event sha t e u m a i ps db) = gd_periods db"
  "env_next_id (gd_env db) < env_next_id (gd_env (append_audit_event sha t e u m a i ps db))"
proof -
  show "gd_periods (append_audit_event sha t e u m a i ps db) = gd_periods db"
    by (simp add: append_audit_event_def split_def Let_def emit_governance_event_facts)
  let ?x = "insert_financial_record sha (\<lambda>v. v) t (JDict [(''module'', JStr m), (''action'', JStr a), (''target_id'', JStr i),
              (''actor_user_id'', JStr (uuid_text u))])
            \<lparr>ga_entity_id = e, ga_module = m, ga_action = a, ga_actor_user_id = u,
             ga_target_id = i, ga_payload_json = JDict ps\<rparr> None (gd_audit db, gd_env db)"
  have "env_next_id (gd_env db) < env_next_id (snd (snd ?x))"
    by (simp add: insert_financial_record_def insert_record_def append_row_def tick_def Let_def)
  then show "env_next_id (gd_env db) < env_next_id (gd_env (append_audit_event sha t e u m a i ps db))"
    unfolding append_audit_event_def split_def Let_def
    by (rule less_trans) (rule emit_governance_event_facts(4) [of "db\<lparr>gd_audit := fst (snd ?x), gd_env := snd (snd ?x)\<rparr>" for db, simplified])
qed

lemma sort_key_first:
  assumes "sort_key f xs = c # cs"
  shows "c \<in> set xs" and "x \<in> set xs \<Longrightarrow> f c \<le> f x"
proof -
  have s: "set xs = set (c # cs)" using assms by (metis set_sort)
  then show "c \<in> set xs" by simp
  have "sorted (map f (c # cs))" using sorted_sort_key [of f xs] by (simp add: assms)
  then show "f c \<le> f x" if "x \<in> set xs" using that s by auto
qed

text \<open>The rows that count are the entity's own and the tenant-wide one.\<close>

lemma period_map_Some:
  assumes "periods_ok db"
  shows "period_map db k = Some st \<longleftrightarrow> (\<exists>p \<in> set (gd_periods db). period_key p = k \<and> ap_status p = st)"
  using assms by (auto simp: period_map_def periods_ok_def comp_def image_iff)

lemma in_period_rows:
  "p \<in> set (period_rows t e y n db) \<longleftrightarrow> p \<in> set (gd_periods db) \<and> (period_key p = (t, e, y, n) \<or> period_key p = (t, None, y, n))"
  by (auto simp: period_rows_def period_key_def)

lemma period_rows_status:
  assumes "periods_ok db"
  shows "st \<in> ap_status ` set (period_rows t e y n db)
    \<longleftrightarrow> period_map db (t, e, y, n) = Some st \<or> period_map db (t, None, y, n) = Some st"
  using period_map_Some [OF assms] by (auto simp: in_period_rows image_iff)

lemma effective_lock_strictest:
  assumes ok: "periods_ok db"
  shows "el_status (resolve_effective_period_lock t e y n db)
    = strictest (period_map db (t, e, y, n)) (period_map db (t, None, y, n))"
proof (cases "sort_key lock_rank (sort_key (\<lambda>p. ap_org_entity_id p = None) (period_rows t e y n db))")
  case Nil
  then have "set (period_rows t e y n db) = {}" by (metis set_empty set_sort)
  then have "period_map db (t, e, y, n) = None" "period_map db (t, None, y, n) = None"
    using period_rows_status [OF ok, of _ t e y n] by (metis empty_iff image_empty not_None_eq)+
  then show ?thesis using Nil by (simp add: resolve_effective_period_lock_def strictest_def)
next
  case (Cons c cs)
  have c: "c \<in> set (period_rows t e y n db)" and least: "p \<in> set (period_rows t e y n db) \<Longrightarrow> lock_rank c \<le> lock_rank p" for p
    using sort_key_first [OF Cons] by simp_all
  have own: "period_map db (period_key p) = Some (ap_status p)" if "p \<in> set (period_rows t e y n db)" for p
    using that period_map_Some [OF ok] by (auto simp: in_period_rows)
  have key: "period_key c = (t, e, y, n) \<or> period_key c = (t, None, y, n)" using c by (simp add: in_period_rows)
  have rank: "ap_status c = HARD_CLOSED" if "HARD_CLOSED \<in> ap_status ` set (period_rows t e y n db)"
    using that least by (fastforce simp: lock_rank_def split: if_splits)
  have rank': "ap_status c = HARD_CLOSED \<or> ap_status c = SOFT_CLOSED" if "SOFT_CLOSED \<in> ap_status ` set (period_rows t e y n db)"
    using that least by (fastforce simp: lock_rank_def split: if_splits)
  have mine: "ap_org_entity_id c \<noteq> None" if "ap_status c \<notin> {HARD_CLOSED, SOFT_CLOSED}" "e \<noteq> None" "period_map db (t, e, y, n) \<noteq> None"
  proof -
    note h = that
    obtain p where p: "p \<in> set (gd_periods db)" "period_key p = (t, e, y, n)"
      using h(3) period_map_Some [OF ok, of "(t, e, y, n)"] by auto
    then have "lock_rank c \<le> lock_rank p" using least by (simp add: in_period_rows)
    then show ?thesis using h p(2) by (auto simp: lock_rank_def period_key_def split: if_splits)
  qed
  have st: "el_status (resolve_effective_period_lock t e y n db) = ap_status c"
    using Cons by (simp add: resolve_effective_period_lock_def)
  have mem: "ap_status c \<in> ap_status ` set (period_rows t e y n db)" using c by simp
  note iff = period_rows_status [OF ok, of _ t e y n]
  show ?thesis
  proof (cases "ap_status c \<in> {HARD_CLOSED, SOFT_CLOSED}")
    case True
    then show ?thesis using st mem rank rank' unfolding iff
      by (auto simp: strictest_def)
  next
    case False
    then have no: "HARD_CLOSED \<notin> ap_status ` set (period_rows t e y n db)" "SOFT_CLOSED \<notin> ap_status ` set (period_rows t e y n db)"
      using rank rank' by auto
    have "ap_status c = (case period_map db (t, e, y, n) of Some s \<Rightarrow> s
        | None \<Rightarrow> (case period_map db (t, None, y, n) of Some s \<Rightarrow> s | None \<Rightarrow> OPEN))"
      using key own [OF c] mine [OF False] by (cases e) (auto simp: period_key_def split: option.split)
    then show ?thesis using st no unfolding iff by (auto simp: strictest_def)
  qed
qed

section \<open>Locks and unlocks refine the map\<close>

lemma same_option: "(\<And>s. a = Some s \<longleftrightarrow> b = Some s) \<Longrightarrow> a = b"
  by (cases a; cases b) auto

lemma find_period_key: "find_period t e y n db = filter (\<lambda>p. period_key p = (t, e, y, n)) (gd_periods db)"
  by (auto simp: find_period_def period_key_def intro!: filter_cong)

lemma get_or_create_facts:
  assumes "get_or_create_accounting_period t e y n db = Inr (row, db1)" and ok: "periods_ok db"
  shows "periods_ok db1" and "row \<in> set (gd_periods db1)" and "period_key row = (t, e, y, n)"
    and "\<And>k st. k \<noteq> (t, e, y, n) \<Longrightarrow> period_map db1 k = Some st \<longleftrightarrow> period_map db k = Some st"
proof -
  have "periods_ok db1 \<and> row \<in> set (gd_periods db1) \<and> period_key row = (t, e, y, n)
    \<and> (\<forall>k st. k \<noteq> (t, e, y, n) \<longrightarrow> (period_map db1 k = Some st \<longleftrightarrow> period_map db k = Some st))"
  proof (cases "find_period t e y n db")
    case Nil
    then have none: "(t, e, y, n) \<notin> period_key ` set (gd_periods db)"
      by (auto simp: find_period_key filter_empty_conv)
    obtain r where r: "gd_periods db1 = gd_periods db @ [r]" "row = r" "period_key r = (t, e, y, n)"
      "ap_id r = env_next_id (gd_env db)" "gd_env db1 = tick (gd_env db)"
      using assms(1) Nil by (auto simp: get_or_create_accounting_period_def Let_def result_simps period_key_def)
    have ok1: "periods_ok db1"
      using ok none r by (auto simp: periods_ok_def tick_def less_SucI)
    show ?thesis using ok1 r by (auto simp: period_map_Some [OF ok1] period_map_Some [OF ok])
  next
    case (Cons p ps)
    then have "db1 = db" "row = p" using assms(1)
      by (auto simp: get_or_create_accounting_period_def split: list.splits)
    moreover have "p \<in> set (find_period t e y n db)" using Cons by simp
    ultimately show ?thesis using ok by (simp add: find_period_key)
  qed
  then show "periods_ok db1" and "row \<in> set (gd_periods db1)" and "period_key row = (t, e, y, n)"
    and "\<And>k st. k \<noteq> (t, e, y, n) \<Longrightarrow> period_map db1 k = Some st \<longleftrightarrow> period_map db k = Some st"
    by blast+
qed

lemma put_period_facts:
  assumes ok: "periods_ok db" and "row \<in> set (gd_periods db)" and "ap_id row' = ap_id row" and "period_key row' = period_key row"
  shows "periods_ok (put_period row' db)" and "period_map (put_period row' db) = (period_map db)(period_key row \<mapsto> ap_status row')"
proof -
  have same: "p = row" if "p \<in> set (gd_periods db)" "ap_id p = ap_id row" for p
    using that assms(2) ok by (auto simp: periods_ok_def distinct_map inj_on_def)
  have cols: "map ap_id (gd_periods (put_period row' db)) = map ap_id (gd_periods db)"
    "map period_key (gd_periods (put_period row' db)) = map period_key (gd_periods db)"
    using same assms(3,4) by (auto simp: put_period_def)
  have "ap_id ` set (gd_periods (put_period row' db)) = ap_id ` set (gd_periods db)"
    using arg_cong [OF cols(1), of set] by simp
  then show ok': "periods_ok (put_period row' db)"
    using ok by (auto simp: periods_ok_def cols image_iff) (auto simp: put_period_def)
  show "period_map (put_period row' db) = (period_map db)(period_key row \<mapsto> ap_status row')"
  proof (rule ext, rule same_option)
    fix k st
    have uniq: "p = row" if "p \<in> set (gd_periods db)" "period_key p = period_key row" for p
      using that assms(2) ok by (auto simp: periods_ok_def distinct_map inj_on_def)
    have rows: "set (gd_periods (put_period row' db)) = insert row' (set (gd_periods db) - {row})"
      using same assms(2,3) by (auto simp: put_period_def image_iff)
    show "period_map (put_period row' db) k = Some st \<longleftrightarrow> ((period_map db)(period_key row \<mapsto> ap_status row')) k = Some st"
      unfolding period_map_Some [OF ok'] rows using uniq assms(4) by (auto simp: period_map_Some [OF ok])
  qed
qed

lemma audited_periods:
  assumes "periods_ok db"
  shows "periods_ok (append_audit_event sha t e u m a i ps db)"
    and "period_map (append_audit_event sha t e u m a i ps db) = period_map db"
  using assms append_audit_event_facts(2) [of db sha t e u m a i ps]
  by (auto simp: periods_ok_def period_map_def append_audit_event_facts(1))

lemma set_period:
  assumes ok: "periods_ok db" and g: "get_or_create_accounting_period t e y n db = Inr (row, db1)"
    and r: "ap_id row' = ap_id row" "period_key row' = period_key row"
  shows "periods_ok (put_period row' (db1\<lparr>gd_env := tick (gd_env db1)\<rparr>))"
    and "period_map (put_period row' (db1\<lparr>gd_env := tick (gd_env db1)\<rparr>)) = (period_map db)((t, e, y, n) \<mapsto> ap_status row')"
proof -
  let ?db = "db1\<lparr>gd_env := tick (gd_env db1)\<rparr>"
  note f = get_or_create_facts [OF g ok]
  have ok1: "periods_ok ?db" using f(1) by (auto simp: periods_ok_def tick_def less_SucI)
  have m: "period_map ?db = period_map db1" by (simp add: period_map_def)
  have row: "row \<in> set (gd_periods ?db)" using f(2) by simp
  note p = put_period_facts [OF ok1 row r]
  show "periods_ok (put_period row' ?db)" by (rule p(1))
  show "period_map (put_period row' ?db) = (period_map db)((t, e, y, n) \<mapsto> ap_status row')"
  proof (rule ext)
    fix k
    show "period_map (put_period row' ?db) k = ((period_map db)((t, e, y, n) \<mapsto> ap_status row')) k"
      using same_option [OF f(4), of k] by (cases "k = (t, e, y, n)") (simp_all add: p(2) m f(3))
  qed
qed

text \<open>The operations on periods, as a history.\<close>

datatype period_op =
    Lock uuid "uuid option" int int string "string option" uuid
  | Unlock uuid "uuid option" int int string uuid

fun period_step :: "sha \<Rightarrow> governance_db \<Rightarrow> period_op \<Rightarrow> governance_db result" where
  "period_step sha db (Lock t e y n lock_type reason actor) = map_sum id snd (lock_period sha t e y n lock_type reason actor db)"
| "period_step sha db (Unlock t e y n reason actor) = map_sum id snd (unlock_period sha t e y n reason actor db)"

fun op_key :: "period_op \<Rightarrow> period_key" where
  "op_key (Lock t e y n lock_type reason actor) = (t, e, y, n)"
| "op_key (Unlock t e y n reason actor) = (t, e, y, n)"

fun op_status :: "period_op \<Rightarrow> period_status" where
  "op_status (Lock t e y n lock_type reason actor) = (if py_upper (py_strip lock_type) = ''HARD_CLOSED'' then HARD_CLOSED else SOFT_CLOSED)"
| "op_status (Unlock t e y n reason actor) = REOPENED"

lemma period_step_refines:
  assumes "period_step sha db op = Inr db'" and ok: "periods_ok db"
  shows "periods_ok db' \<and> period_map db' = (period_map db)(op_key op \<mapsto> op_status op)"
proof (cases op)
  case (Lock t e y n lock_type reason actor)
  then obtain st row db1 where st: "normalize_lock_type lock_type = Inr st"
    and g: "get_or_create_accounting_period t e y n db = Inr (row, db1)"
    using assms(1) by (auto simp: lock_period_def Let_def bindE_def map_sum_def split: sum.splits)
  let ?row = "row\<lparr>ap_status := st, ap_locked_by := Some actor, ap_locked_at := Some (env_now (gd_env db1)), ap_notes := reason\<rparr>"
  have k: "ap_id ?row = ap_id row" "period_key ?row = period_key row" by (simp_all add: period_key_def)
  have "st = op_status op" using st Lock by (auto simp: normalize_lock_type_def Let_def split: if_splits)
  then show ?thesis
    using assms(1) st g Lock set_period [OF ok g k] audited_periods [OF set_period(1) [OF ok g k]]
    by (auto simp: lock_period_def Let_def)
next
  case (Unlock t e y n reason actor)
  then obtain row db1 where reason: "py_strip reason \<noteq> []"
    and g: "get_or_create_accounting_period t e y n db = Inr (row, db1)"
    using assms(1) by (auto simp: unlock_period_def Let_def bindE_def raise_if_def map_sum_def split: sum.splits if_splits)
  let ?row = "row\<lparr>ap_status := REOPENED, ap_reopened_by := Some actor, ap_reopened_at := Some (env_now (gd_env db1)), ap_notes := Some reason\<rparr>"
  have k: "ap_id ?row = ap_id row" "period_key ?row = period_key row" by (simp_all add: period_key_def)
  show ?thesis
    using assms(1) reason g Unlock set_period [OF ok g k] audited_periods [OF set_period(1) [OF ok g k]]
    by (auto simp: unlock_period_def Let_def raise_if_def)
qed

lemma period_history_refines:
  "foldE (period_step sha) db ops = Inr db' \<Longrightarrow> periods_ok db
   \<Longrightarrow> periods_ok db' \<and> period_map db' = fold (\<lambda>op m. m(op_key op \<mapsto> op_status op)) ops (period_map db)"
proof (induction ops arbitrary: db)
  case (Cons op ops)
  then obtain db1 where s: "period_step sha db op = Inr db1" and r: "foldE (period_step sha) db1 ops = Inr db'"
    by (auto simp: bindE_def split: sum.splits)
  show ?case using Cons.IH [OF r] period_step_refines [OF s Cons.prems(2)] by simp
qed simp

text \<open>(C12) After any history of locks and unlocks each period has the status of its last operation, and the lock in
  force for an entity is the stricter of its own and the tenant-wide one: postings pass exactly when that is open,
  reopened, or soft closed with an administrator's role, other changes exactly when it is not hard closed.\<close>

theorem period_locks_refine:
  assumes "foldE (period_step sha) db ops = Inr db'" and "periods_ok db"
  shows "let m = fold (\<lambda>op m. m(op_key op \<mapsto> op_status op)) ops (period_map db);
             lock = strictest (m (t, e, y, n)) (m (t, None, y, n))
         in period_map db' = m
          \<and> (assert_period_allows_modification t e y n db' = Inr () \<longleftrightarrow> lock \<noteq> HARD_CLOSED)
          \<and> (assert_period_allows_posting t e y n role db' = Inr ()
              \<longleftrightarrow> lock \<noteq> HARD_CLOSED \<and> (lock = SOFT_CLOSED \<longrightarrow> allow_soft_close_override role))"
  using period_history_refines [OF assms] effective_lock_strictest [of db' t e y n]
  by (auto simp: Let_def assert_period_allows_modification_def assert_period_allows_posting_def raise_if_def bindE_def)

definition no_periods :: governance_db where
  "no_periods = \<lparr>gd_periods = [], gd_policies = [], gd_audit = [], gd_events = [],
     gd_env = \<lparr>env_trail = [], env_now = 100, env_next_id = 17\<rparr>\<rparr>"

text \<open>A tenant-wide soft close, a hard close of one entity, and the tenant-wide period opened again.\<close>

definition ex_period_ops :: "period_op list" where
  "ex_period_ops = [Lock 7 None 2024 3 ''soft_closed'' None 8, Lock 7 (Some 4) 2024 3 '' HARD_CLOSED'' None 8,
     Unlock 7 None 2024 3 ''late invoice'' 8]"

lemma ex_period_history: "\<exists>db'. foldE (period_step sha) no_periods ex_period_ops = Inr db'"
proof -
  have n: "normalize_lock_type ''soft_closed'' = Inr SOFT_CLOSED" "normalize_lock_type '' HARD_CLOSED'' = Inr HARD_CLOSED"
    "py_strip ''late invoice'' \<noteq> []"
    by code_simp+
  have range: "period_range 2024 3 = Inr (Date 2024 3 1, Date 2024 3 31)"
    by (simp add: period_range_def mk_date_def valid_date_def days_in_month_def)
  have total: "\<exists>row db1. get_or_create_accounting_period 7 e 2024 3 db = Inr (row, db1)" if "periods_ok db" for e db
  proof (cases "find_period 7 e 2024 3 db")
    case Nil
    then show ?thesis by (simp add: get_or_create_accounting_period_def range Let_def)
  next
    case (Cons p ps)
    have "distinct (map period_key (find_period 7 e 2024 3 db))"
      using \<open>periods_ok db\<close> by (simp add: periods_ok_def find_period_key distinct_map_filter)
    moreover have "\<forall>q \<in> set (find_period 7 e 2024 3 db). period_key q = (7, e, 2024, 3)" by (simp add: find_period_key)
    ultimately have "ps = []" unfolding Cons by (cases ps) auto
    then show ?thesis using Cons by (simp add: get_or_create_accounting_period_def)
  qed
  have step: "\<exists>db'. period_step sha db op = Inr db'" if "op \<in> set ex_period_ops" "periods_ok db" for op db
  proof -
    obtain row db1 row' db2 where g: "get_or_create_accounting_period 7 None 2024 3 db = Inr (row, db1)"
      "get_or_create_accounting_period 7 (Some 4) 2024 3 db = Inr (row', db2)"
      using total [OF \<open>periods_ok db\<close>] by metis
    from \<open>op \<in> set ex_period_ops\<close> consider "op = ex_period_ops ! 0" | "op = ex_period_ops ! 1" | "op = ex_period_ops ! 2"
      unfolding ex_period_ops_def by fastforce
    then show ?thesis
      by cases (simp_all add: ex_period_ops_def lock_period_def unlock_period_def g n Let_def)
  qed
  have "\<exists>db'. foldE (period_step sha) db ops = Inr db'" if "set ops \<subseteq> set ex_period_ops" "periods_ok db" for ops db
    using that
  proof (induction ops arbitrary: db)
    case (Cons op ops)
    then have "op \<in> set ex_period_ops" by simp
    from step [OF this Cons.prems(2)] obtain db1 where s: "period_step sha db op = Inr db1" by blast
    then have "periods_ok db1" using period_step_refines Cons.prems(2) by blast
    then show ?case using Cons.IH [of db1] Cons.prems(1) s by simp
  qed simp
  then show ?thesis by (simp add: periods_ok_def no_periods_def)
qed

lemma period_locks_refine_witness:
  "\<exists>db'. foldE (period_step (\<lambda>s. s)) no_periods ex_period_ops = Inr db'
     \<and> assert_period_allows_modification 7 (Some 4) 2024 3 db' \<noteq> Inr ()
     \<and> assert_period_allows_posting 7 (Some 5) 2024 3 None db' = Inr ()"
proof -
  obtain db' where r: "foldE (period_step (\<lambda>s. s)) no_periods ex_period_ops = Inr db'" using ex_period_history by blast
  have ok: "periods_ok no_periods" by (simp add: periods_ok_def no_periods_def)
  have s: "py_upper (py_strip ''soft_closed'') = ''SOFT_CLOSED''" "py_upper (py_strip '' HARD_CLOSED'') = ''HARD_CLOSED''"
    by code_simp+
  have m: "fold (\<lambda>op m. m(op_key op \<mapsto> op_status op)) ex_period_ops (period_map no_periods)
      = (period_map no_periods)((7, None, 2024, 3) \<mapsto> SOFT_CLOSED, (7, Some 4, 2024, 3) \<mapsto> HARD_CLOSED,
          (7, None, 2024, 3) \<mapsto> REOPENED)"
    by (simp add: ex_period_ops_def s)
  note entity = period_locks_refine [OF r ok, of 7 "Some 4" 2024 3 None, unfolded Let_def m, THEN conjunct2, THEN conjunct1]
  note other = period_locks_refine [OF r ok, of 7 "Some 5" 2024 3 None, unfolded Let_def m, THEN conjunct2, THEN conjunct2]
  have "assert_period_allows_modification 7 (Some 4) 2024 3 db' \<noteq> Inr ()"
    unfolding entity by (simp add: strictest_def)
  moreover have "assert_period_allows_posting 7 (Some 5) 2024 3 None db' = Inr ()"
    unfolding other by (simp add: strictest_def period_map_def no_periods_def)
  ultimately show ?thesis using r by blast
qed

end
