(* ===== verification/Journal_Vouchers.thy ===== *)
theory Journal_Vouchers
  imports Journal_States Governance FX_Rates
begin

text \<open>
  Journal vouchers and their approval: \<open>application/jv_service.py\<close> and
  \<open>application/approval_service.py\<close> of the accounting layer, over the tables of
  \<open>db/models/accounting_jv.py\<close>.  A voucher row is updated in place; its lines and state events
  are only ever added.
\<close>

section \<open>Tables\<close>

record jv =
  jv_id :: uuid
  jv_tenant_id :: uuid
  jv_chain_hash :: string
  jv_created_at :: nat
  jv_entity_id :: uuid
  jv_location_id :: "uuid option"
  jv_cost_centre_id :: "uuid option"
  jv_number :: string
  jv_status :: journal_status
  jv_version :: nat
  jv_period_date :: date
  jv_fiscal_year :: int
  jv_fiscal_period :: int
  jv_description :: "string option"
  jv_reference :: "string option"
  jv_source :: string
  jv_external_reference_id :: "string option"
  jv_total_debit :: rat
  jv_total_credit :: rat
  jv_currency :: string
  jv_workflow_instance_id :: "uuid option"
  jv_created_by :: uuid
  jv_created_by_intent_id :: uuid
  jv_recorded_by_job_id :: uuid
  jv_resubmission_count :: nat
  jv_voided_by :: "uuid option"
  jv_void_reason :: "string option"
  jv_voided_at :: "nat option"
  jv_submitted_at :: "nat option"
  jv_first_reviewed_at :: "nat option"
  jv_decided_at :: "nat option"
  jv_updated_at :: nat

record jv_line =
  jl_id :: uuid
  jl_tenant_id :: uuid
  jl_chain_hash :: string
  jl_previous_hash :: string
  jl_jv_id :: uuid
  jl_jv_version :: nat
  jl_line_number :: nat
  jl_account_code :: string
  jl_account_name :: "string option"
  jl_entry_type :: entry_type
  jl_amount :: rat
  jl_currency :: string
  jl_transaction_currency :: "string option"
  jl_functional_currency :: "string option"
  jl_fx_rate :: "rat option"
  jl_amount_inr :: "rat option"
  jl_base_amount :: "rat option"
  jl_entity_id :: uuid
  jl_location_id :: "uuid option"
  jl_cost_centre_id :: "uuid option"
  jl_narration :: "string option"
  jl_tax_code :: "string option"
  jl_is_tax_line :: bool
  jl_created_by_intent_id :: uuid
  jl_recorded_by_job_id :: uuid

record jv_event =
  je_id :: uuid
  je_tenant_id :: uuid
  je_chain_hash :: string
  je_previous_hash :: string
  je_jv_id :: uuid
  je_jv_version :: nat
  je_from_status :: journal_status
  je_to_status :: journal_status
  je_triggered_by :: uuid
  je_actor_role :: string
  je_comment :: "string option"
  je_created_by_intent_id :: uuid
  je_recorded_by_job_id :: uuid
  je_occurred_at :: nat

record jv_approval =
  ja_id :: uuid
  ja_tenant_id :: uuid
  ja_jv_id :: uuid
  ja_jv_version :: nat
  ja_acted_by :: uuid
  ja_delegated_from :: "uuid option"
  ja_actor_role :: string
  ja_decision :: string
  ja_decision_reason :: "string option"
  ja_approval_level :: nat
  ja_amount_threshold :: rat
  ja_idempotency_key :: string
  ja_request_fingerprint :: string
  ja_acted_at :: nat

record sla_timer =
  sl_id :: uuid
  sl_tenant_id :: uuid
  sl_jv_id :: uuid
  sl_review_sla_hours :: nat
  sl_approval_sla_hours :: nat
  sl_review_breached :: bool
  sl_approval_breached :: bool
  sl_review_breached_at :: "nat option"
  sl_approval_breached_at :: "nat option"
  sl_updated_at :: nat

record gl_entry =
  ge_id :: uuid
  ge_tenant_id :: uuid
  ge_chain_hash :: string
  ge_previous_hash :: string
  ge_created_at :: nat
  ge_entity_id :: "uuid option"
  ge_period_year :: int
  ge_period_month :: int
  ge_entity_name :: string
  ge_account_code :: string
  ge_account_name :: string
  ge_debit_amount :: rat
  ge_credit_amount :: rat
  ge_description :: "string option"
  ge_source_ref :: "string option"
  ge_currency :: string
  ge_uploaded_by :: uuid
  ge_created_by_intent_id :: "uuid option"
  ge_recorded_by_job_id :: "uuid option"

record cp_entity =
  ce_id :: uuid
  ce_tenant_id :: uuid
  ce_entity_name :: string
  ce_base_currency :: string

record coa_account =
  ca_id :: uuid
  ca_tenant_id :: uuid
  ca_account_code :: string
  ca_display_name :: string
  ca_is_active :: bool
  ca_ledger_account_id :: "uuid option"

text \<open>The shared chart of accounts a tenant's account points to.\<close>

record coa_ledger_account =
  cl_id :: uuid
  cl_bs_pl_flag :: "string option"
  cl_asset_liability_class :: "string option"
  cl_cash_flow_tag :: "string option"
  cl_normal_balance :: "string option"
  cl_is_monetary :: bool

record journal_db =
  jd_jvs :: "jv list"
  jd_lines :: "jv_line list"
  jd_events :: "jv_event list"
  jd_approvals :: "jv_approval list"
  jd_timers :: "sla_timer list"
  jd_gl :: "gl_entry list"
  jd_entities :: "cp_entity list"
  jd_accounts :: "coa_account list"
  jd_coa :: "coa_ledger_account list"
  jd_rates :: rate_master
  jd_gov :: governance_db

text \<open>What the code takes from outside: SHA-256, the text of a decimal and of an instant, the currency list.\<close>

record journal_engine =
  jg_sha :: sha
  jg_dec_str :: "rat \<Rightarrow> string"
  jg_iso :: "nat \<Rightarrow> string"
  jg_babel :: "string list option"

abbreviation "jd_env db \<equiv> gd_env (jd_gov db)"

definition next_uuid :: "journal_db \<Rightarrow> uuid" where "next_uuid db = env_next_id (jd_env db)"
definition utcnow :: "journal_db \<Rightarrow> nat" where "utcnow db = env_now (jd_env db)"

definition jd_tick :: "journal_db \<Rightarrow> journal_db" where
  "jd_tick db = db\<lparr>jd_gov := (jd_gov db)\<lparr>gd_env := tick (jd_env db)\<rparr>\<rparr>"

definition put_jv :: "jv \<Rightarrow> journal_db \<Rightarrow> journal_db" where
  "put_jv row db = db\<lparr>jd_jvs := map (\<lambda>r. if jv_id r = jv_id row then row else r) (jd_jvs db)\<rparr>"

section \<open>Columns, hashes, decimals\<close>

definition numeric_20_4 :: "rat \<Rightarrow> rat result" where
  "numeric_20_4 x =
     (let k = round_half_up (x * 10 ^ 4)
      in if \<bar>k\<bar> < 10 ^ 20 then Inr (of_int k / 10 ^ 4) else Inl DataError)"

definition numeric_20_8 :: "rat \<Rightarrow> rat result" where
  "numeric_20_8 x =
     (let k = round_half_up (x * 10 ^ 8)
      in if \<bar>k\<bar> < 10 ^ 20 then Inr (of_int k / 10 ^ 8) else Inl DataError)"

definition optionE :: "('a \<Rightarrow> 'b result) \<Rightarrow> 'a option \<Rightarrow> 'b option result" where
  "optionE f x = (case x of None \<Rightarrow> Inr None | Some v \<Rightarrow> bindE (f v) (\<lambda>w. Inr (Some w)))"

definition compute_hash :: "sha \<Rightarrow> string \<Rightarrow> string option \<Rightarrow> string" where
  "compute_hash sha content previous_hash =
     sha ((case previous_hash of None \<Rightarrow> [] | Some h \<Rightarrow> h) @ '':'' @ content)"

text \<open>\<open>_to_decimal\<close>: \<open>None\<close> is no decimal.\<close>

definition to_decimal :: "rat option \<Rightarrow> rat result" where
  "to_decimal v =
     (case v of
        None \<Rightarrow> Inl (ValidationError ''Field must be a valid decimal number.'')
      | Some x \<Rightarrow> if x < 0 then Inl (ValidationError ''Field must be non-negative.'') else Inr x)"

section \<open>Lines\<close>

text \<open>The dictionary of a line: \<open>None\<close> where the key is missing, \<open>Some None\<close> where its value is \<open>None\<close>.\<close>

record line_data =
  ld_account_code :: "string option option"
  ld_account_name :: "string option option"
  ld_entry_type :: "string option option"
  ld_amount :: "rat option option"
  ld_currency :: "string option option"
  ld_transaction_currency :: "string option option"
  ld_functional_currency :: "string option option"
  ld_fx_rate :: "rat option option"
  ld_base_amount :: "rat option option"
  ld_entity_id :: "uuid option"
  ld_location_id :: "uuid option option"
  ld_cost_centre_id :: "uuid option option"
  ld_narration :: "string option option"
  ld_tax_code :: "string option option"
  ld_is_tax_line :: bool

definition py_get :: "'v option \<Rightarrow> 'v \<Rightarrow> 'v" where
  "py_get k d = (case k of None \<Rightarrow> d | Some v \<Rightarrow> v)"

definition py_str :: "string option \<Rightarrow> string" where
  "py_str v = (case v of None \<Rightarrow> ''None'' | Some s \<Rightarrow> s)"

definition entry_named :: "string \<Rightarrow> entry_type option" where
  "entry_named s = (if s = ''DEBIT'' then Some DEBIT else if s = ''CREDIT'' then Some CREDIT else None)"

text \<open>One line as \<open>_append_lines\<close> builds it, before the columns round it.\<close>

definition build_line :: "journal_engine \<Rightarrow> mutation_context \<Rightarrow> jv \<Rightarrow> nat \<Rightarrow> uuid \<Rightarrow> string \<Rightarrow> line_data \<Rightarrow> jv_line result" where
  "build_line en ctx jv idx i previous_hash d =
     bindE (case entry_named (py_upper (py_str (py_get (ld_entry_type d) (Some [])))) of
              None \<Rightarrow> Inl (ValidationError ''entry_type must be DEBIT or CREDIT.'') | Some e \<Rightarrow> Inr e) (\<lambda>entry_type.
     bindE (to_decimal (py_get (ld_amount d) (Some 0))) (\<lambda>amount.
     bindE (raise_if (amount \<le> 0) (ValidationError ''amount must be greater than zero.'')) (\<lambda>_.
     let currency = py_upper (py_str (py_get (ld_currency d) (Some (jv_currency jv))));
         transaction_currency = py_upper (py_str (py_get (ld_transaction_currency d) (Some currency)));
         functional_currency = py_upper (py_str (py_get (ld_functional_currency d) (Some (jv_currency jv))))
     in bindE (if currency \<noteq> ''INR''
               then bindE (to_decimal (py_get (ld_fx_rate d) (Some 1))) (\<lambda>fx_rate.
                    bindE (quantize_even_at 4 (dmul amount fx_rate)) (\<lambda>amount_inr.
                    Inr (Some fx_rate, amount_inr)))
               else Inr (None, amount)) (\<lambda>(fx_rate, amount_inr).
     bindE (to_decimal (py_get (ld_base_amount d) (Some amount_inr))) (\<lambda>base_amount.
     let content = uuid_text (jv_id jv) @ '':'' @ nat_text (jv_version jv) @ '':'' @ nat_text idx @ '':''
           @ entry_text entry_type @ '':'' @ jg_dec_str en amount
     in Inr \<lparr>jl_id = i, jl_tenant_id = jv_tenant_id jv, jl_chain_hash = compute_hash (jg_sha en) content (Some previous_hash),
          jl_previous_hash = previous_hash, jl_jv_id = jv_id jv, jl_jv_version = jv_version jv, jl_line_number = idx,
          jl_account_code = py_str (py_get (ld_account_code d) (Some [])),
          jl_account_name = py_get (ld_account_name d) None, jl_entry_type = entry_type, jl_amount = amount,
          jl_currency = currency, jl_transaction_currency = Some transaction_currency,
          jl_functional_currency = Some functional_currency, jl_fx_rate = fx_rate, jl_amount_inr = Some amount_inr,
          jl_base_amount = Some base_amount, jl_entity_id = py_get (ld_entity_id d) (jv_entity_id jv),
          jl_location_id = py_get (ld_location_id d) (jv_location_id jv),
          jl_cost_centre_id = py_get (ld_cost_centre_id d) (jv_cost_centre_id jv),
          jl_narration = py_get (ld_narration d) None, jl_tax_code = py_get (ld_tax_code d) None,
          jl_is_tax_line = ld_is_tax_line d, jl_created_by_intent_id = mc_intent_id ctx,
          jl_recorded_by_job_id = mc_job_id ctx\<rparr>)))))"

text \<open>The loop: the hash of a line is the previous hash of the next.\<close>

fun build_lines :: "journal_engine \<Rightarrow> mutation_context \<Rightarrow> jv \<Rightarrow> nat \<Rightarrow> uuid \<Rightarrow> string \<Rightarrow> line_data list \<Rightarrow> jv_line list result" where
  "build_lines en ctx jv idx i previous_hash [] = Inr []"
| "build_lines en ctx jv idx i previous_hash (d # ds) =
     bindE (build_line en ctx jv idx i previous_hash d) (\<lambda>line.
     bindE (build_lines en ctx jv (idx + 1) (i + 1) (jl_chain_hash line) ds) (\<lambda>rest. Inr (line # rest)))"

definition store_line :: "jv_line \<Rightarrow> jv_line result" where
  "store_line l =
     bindE (numeric_20_4 (jl_amount l)) (\<lambda>amount.
     bindE (optionE numeric_20_8 (jl_fx_rate l)) (\<lambda>fx_rate.
     bindE (optionE numeric_20_4 (jl_amount_inr l)) (\<lambda>amount_inr.
     bindE (optionE numeric_20_4 (jl_base_amount l)) (\<lambda>base_amount.
     Inr (l\<lparr>jl_amount := amount, jl_fx_rate := fx_rate, jl_amount_inr := amount_inr, jl_base_amount := base_amount\<rparr>)))))"

definition side_total :: "(jv_line \<Rightarrow> rat) \<Rightarrow> entry_type \<Rightarrow> jv_line list \<Rightarrow> rat" where
  "side_total amount side lines = dsum (map amount (filter (\<lambda>l. jl_entry_type l = side) lines))"

definition append_lines :: "journal_engine \<Rightarrow> session \<Rightarrow> jv \<Rightarrow> line_data list \<Rightarrow> journal_db \<Rightarrow> (jv \<times> journal_db) result" where
  "append_lines en se jv ds db =
     bindE (require_mutation_context se) (\<lambda>ctx.
     bindE (raise_if (ds = []) (ValidationError ''JV must have at least one line.'')) (\<lambda>_.
     bindE (build_lines en ctx jv 1 (next_uuid db) (jv_chain_hash jv) ds) (\<lambda>lines.
     bindE (mapE store_line lines) (\<lambda>stored.
     bindE (numeric_20_4 (side_total jl_amount DEBIT lines)) (\<lambda>total_debit.
     bindE (numeric_20_4 (side_total jl_amount CREDIT lines)) (\<lambda>total_credit.
     let jv = jv\<lparr>jv_total_debit := total_debit, jv_total_credit := total_credit\<rparr>;
         db = (jd_tick ^^ length ds) (db\<lparr>jd_lines := jd_lines db @ stored\<rparr>)
     in Inr (jv, put_jv jv db)))))))"

section \<open>Creation, update, transition\<close>

record jv_input =
  ji_entity_id :: uuid
  ji_created_by :: uuid
  ji_period_date :: date
  ji_fiscal_year :: int
  ji_fiscal_period :: int
  ji_description :: "string option"
  ji_reference :: "string option"
  ji_source :: string
  ji_external_reference_id :: "string option"
  ji_currency :: string
  ji_location_id :: "uuid option"
  ji_cost_centre_id :: "uuid option"
  ji_workflow_instance_id :: "uuid option"
  ji_lines :: "line_data list"

definition jv_number_text :: "int \<Rightarrow> int \<Rightarrow> nat \<Rightarrow> string" where
  "jv_number_text fiscal_year fiscal_period sequence =
     ''JV-'' @ int_text fiscal_year @ ''-'' @ pad_left 2 (int_text fiscal_period) @ ''-'' @ pad_left 4 (nat_text sequence)"

definition generate_jv_number :: "uuid \<Rightarrow> int \<Rightarrow> int \<Rightarrow> journal_db \<Rightarrow> string" where
  "generate_jv_number tenant_id fiscal_year fiscal_period db =
     jv_number_text fiscal_year fiscal_period
       (length (filter (\<lambda>r. jv_tenant_id r = tenant_id \<and> jv_fiscal_year r = fiscal_year
          \<and> jv_fiscal_period r = fiscal_period) (jd_jvs db)) + 1)"

text \<open>The unique constraints of \<open>accounting_jv_aggregates\<close>; nulls do not clash.\<close>

definition jv_conflict :: "jv \<Rightarrow> journal_db \<Rightarrow> bool" where
  "jv_conflict v db \<longleftrightarrow> list_ex (\<lambda>r. jv_tenant_id r = jv_tenant_id v
     \<and> (jv_number r = jv_number v
        \<or> (jv_external_reference_id v \<noteq> None \<and> jv_external_reference_id r = jv_external_reference_id v))) (jd_jvs db)"

definition new_jv :: "journal_engine \<Rightarrow> session \<Rightarrow> mutation_context \<Rightarrow> uuid \<Rightarrow> jv_input \<Rightarrow> journal_db \<Rightarrow> jv" where
  "new_jv en se ctx tenant_id inp db =
     \<lparr>jv_id = next_uuid db, jv_tenant_id = tenant_id,
      jv_chain_hash = compute_hash (jg_sha en) (uuid_text (next_uuid db)) None, jv_created_at = utcnow db,
      jv_entity_id = ji_entity_id inp, jv_location_id = ji_location_id inp, jv_cost_centre_id = ji_cost_centre_id inp,
      jv_number = generate_jv_number tenant_id (ji_fiscal_year inp) (ji_fiscal_period inp) db, jv_status = DRAFT,
      jv_version = 1, jv_period_date = ji_period_date inp, jv_fiscal_year = ji_fiscal_year inp,
      jv_fiscal_period = ji_fiscal_period inp, jv_description = ji_description inp, jv_reference = ji_reference inp,
      jv_source = ji_source inp, jv_external_reference_id = ji_external_reference_id inp, jv_total_debit = 0,
      jv_total_credit = 0, jv_currency = ji_currency inp, jv_workflow_instance_id = ji_workflow_instance_id inp,
      jv_created_by = ji_created_by inp, jv_created_by_intent_id = mc_intent_id ctx,
      jv_recorded_by_job_id = mc_job_id ctx, jv_resubmission_count = 0, jv_voided_by = None, jv_void_reason = None,
      jv_voided_at = None, jv_submitted_at = None, jv_first_reviewed_at = None, jv_decided_at = None,
      jv_updated_at = utcnow db\<rparr>"

definition create_jv :: "journal_engine \<Rightarrow> session \<Rightarrow> uuid \<Rightarrow> jv_input \<Rightarrow> journal_db \<Rightarrow> (jv \<times> journal_db) result" where
  "create_jv en se tenant_id inp db =
     bindE (require_mutation_context se) (\<lambda>ctx.
     let jv = new_jv en se ctx tenant_id inp db in
     bindE (raise_if (jv_conflict jv db) IntegrityError) (\<lambda>_.
     let db = jd_tick (db\<lparr>jd_jvs := jd_jvs db @ [jv]\<rparr>) in
     if ji_lines inp = [] then Inr (jv, db)
     else append_lines en se (jv\<lparr>jv_updated_at := se_started se\<rparr>) (ji_lines inp) db))"

definition get_jv :: "uuid \<Rightarrow> uuid \<Rightarrow> journal_db \<Rightarrow> jv result" where
  "get_jv jid tenant_id db =
     (case find (\<lambda>r. jv_id r = jid \<and> jv_tenant_id r = tenant_id) (jd_jvs db) of
        None \<Rightarrow> Inl (NotFoundError ''JV not found'') | Some r \<Rightarrow> Inr r)"

definition lines_of :: "uuid \<Rightarrow> journal_db \<Rightarrow> jv_line list" where
  "lines_of jid db = sort_key jl_line_number (filter (\<lambda>l. jl_jv_id l = jid) (jd_lines db))"

definition check_optimistic_lock :: "jv \<Rightarrow> nat \<Rightarrow> unit result" where
  "check_optimistic_lock jv expected_version =
     raise_if (jv_version jv \<noteq> expected_version) (ValidationError ''JV version conflict. Reload and retry.'')"

definition update_jv_lines :: "journal_engine \<Rightarrow> session \<Rightarrow> uuid \<Rightarrow> uuid \<Rightarrow> line_data list \<Rightarrow> nat \<Rightarrow> journal_db
    \<Rightarrow> (jv \<times> journal_db) result" where
  "update_jv_lines en se jid tenant_id ds expected_version db =
     bindE (require_mutation_context se) (\<lambda>_.
     bindE (get_jv jid tenant_id db) (\<lambda>jv.
     bindE (raise_if (jv_status jv \<noteq> DRAFT) (ValidationError ''JV lines can only be edited in DRAFT status.'')) (\<lambda>_.
     bindE (check_optimistic_lock jv expected_version) (\<lambda>_.
     let jv = jv\<lparr>jv_version := jv_version jv + 1, jv_updated_at := utcnow db\<rparr> in
     append_lines en se jv ds (jd_tick db)))))"

definition validate_ready_to_submit :: "jv \<Rightarrow> journal_db \<Rightarrow> unit result" where
  "validate_ready_to_submit jv db =
     (let lines = lines_of (jv_id jv) db; active = filter (\<lambda>l. jl_jv_version l = jv_version jv) lines in
      bindE (raise_if (lines = []) (ValidationError ''JV must have at least one line before submission.'')) (\<lambda>_.
      bindE (raise_if (length active < 2) (ValidationError ''JV must have at least 2 lines (one debit, one credit).'')) (\<lambda>_.
      raise_if (side_total jl_amount DEBIT active \<noteq> side_total jl_amount CREDIT active)
        (ValidationError ''JV is not balanced.''))))"

text \<open>\<open>_append_state_event\<close>; it reads the clock for the content and again for the column.\<close>

definition last_event :: "uuid \<Rightarrow> journal_db \<Rightarrow> jv_event option" where
  "last_event jid db = latest_by je_occurred_at (filter (\<lambda>e. je_jv_id e = jid) (jd_events db))"

definition append_state_event :: "journal_engine \<Rightarrow> session \<Rightarrow> jv \<Rightarrow> journal_status \<Rightarrow> journal_status \<Rightarrow> uuid \<Rightarrow> string
    \<Rightarrow> string option \<Rightarrow> journal_db \<Rightarrow> journal_db result" where
  "append_state_event en se jv from_status to_status triggered_by actor_role comment db =
     bindE (require_mutation_context se) (\<lambda>ctx.
     let previous_hash = map_option je_chain_hash (last_event (jv_id jv) db);
         content = uuid_text (jv_id jv) @ '':'' @ status_text from_status @ '':'' @ status_text to_status @ '':''
           @ uuid_text triggered_by @ '':'' @ jg_iso en (utcnow db);
         db = jd_tick db;
         event = \<lparr>je_id = next_uuid db, je_tenant_id = jv_tenant_id jv,
           je_chain_hash = compute_hash (jg_sha en) content previous_hash,
           je_previous_hash = (case previous_hash of None \<Rightarrow> [] | Some h \<Rightarrow> h), je_jv_id = jv_id jv,
           je_jv_version = jv_version jv, je_from_status = from_status, je_to_status = to_status,
           je_triggered_by = triggered_by, je_actor_role = actor_role, je_comment = comment,
           je_created_by_intent_id = mc_intent_id ctx, je_recorded_by_job_id = mc_job_id ctx,
           je_occurred_at = utcnow db\<rparr>
     in Inr (jd_tick (db\<lparr>jd_events := jd_events db @ [event]\<rparr>)))"

text \<open>The columns of the voucher after the transition.\<close>

definition transitioned :: "jv \<Rightarrow> journal_status \<Rightarrow> nat \<Rightarrow> uuid \<Rightarrow> string option \<Rightarrow> jv" where
  "transitioned jv target_status now triggered_by comment =
     jv\<lparr>jv_status := target_status, jv_version := jv_version jv + 1, jv_updated_at := now,
        jv_submitted_at := (if target_status = SUBMITTED \<and> jv_submitted_at jv = None then Some now else jv_submitted_at jv),
        jv_first_reviewed_at := (if target_status = UNDER_REVIEW \<and> jv_first_reviewed_at jv = None then Some now
           else jv_first_reviewed_at jv),
        jv_decided_at := (if target_status \<in> {APPROVED, REJECTED} then Some now else jv_decided_at jv),
        jv_resubmission_count := count_after target_status (jv_resubmission_count jv),
        jv_voided_by := (if target_status = VOIDED then Some triggered_by else jv_voided_by jv),
        jv_void_reason := (if target_status = VOIDED then comment else jv_void_reason jv),
        jv_voided_at := (if target_status = VOIDED then Some now else jv_voided_at jv)\<rparr>"

definition transition_jv :: "journal_engine \<Rightarrow> session \<Rightarrow> uuid \<Rightarrow> uuid \<Rightarrow> string \<Rightarrow> uuid \<Rightarrow> string \<Rightarrow> nat \<Rightarrow> string option
    \<Rightarrow> bool \<Rightarrow> journal_db \<Rightarrow> (jv \<times> journal_db) result" where
  "transition_jv en se jid tenant_id to_status triggered_by actor_role expected_version comment is_admin db =
     bindE (require_mutation_context se) (\<lambda>_.
     bindE (get_jv jid tenant_id db) (\<lambda>jv.
     bindE (check_optimistic_lock jv expected_version) (\<lambda>_.
     bindE (validate_transition \<lparr>tq_from_status = jv_status jv,
              tq_to_status = transition_target to_status (jv_resubmission_count jv), tq_triggered_by_role = actor_role,
              tq_is_admin = is_admin, tq_comment = comment, tq_resubmission_count = jv_resubmission_count jv\<rparr>) (\<lambda>target_status.
     bindE (if target_status = SUBMITTED then validate_ready_to_submit jv db else Inr ()) (\<lambda>_.
     let jv' = transitioned jv target_status (utcnow db) triggered_by comment in
     bindE (append_state_event en se jv' (jv_status jv) target_status triggered_by actor_role comment
              (put_jv jv' (jd_tick db))) (\<lambda>db.
     Inr (jv', db)))))))"

definition list_jvs :: "uuid \<Rightarrow> uuid option \<Rightarrow> journal_status option \<Rightarrow> int option \<Rightarrow> int option \<Rightarrow> nat \<Rightarrow> nat \<Rightarrow> journal_db \<Rightarrow> jv list" where
  "list_jvs tenant_id entity_id status fiscal_year fiscal_period limit offset db =
     take limit (drop offset (rev (sort_key jv_created_at (rev (filter (\<lambda>r. jv_tenant_id r = tenant_id
       \<and> (entity_id = None \<or> entity_id = Some (jv_entity_id r)) \<and> (status = None \<or> status = Some (jv_status r))
       \<and> (fiscal_year = None \<or> fiscal_year = Some (jv_fiscal_year r))
       \<and> (fiscal_period = None \<or> fiscal_period = Some (jv_fiscal_period r))) (jd_jvs db))))))"

definition get_jv_state_history :: "uuid \<Rightarrow> uuid \<Rightarrow> journal_db \<Rightarrow> jv_event list result" where
  "get_jv_state_history jid tenant_id db =
     bindE (get_jv jid tenant_id db) (\<lambda>_.
     Inr (sort_key je_occurred_at (filter (\<lambda>e. je_jv_id e = jid \<and> je_tenant_id e = tenant_id) (jd_events db))))"

section \<open>Approval decisions\<close>

definition ROLE_APPROVAL_LEVEL :: "(string \<times> nat) list" where
  "ROLE_APPROVAL_LEVEL = [(''ACCOUNTING_REVIEWER'', 1), (''ACCOUNTING_SR_REVIEWER'', 2),
     (''ACCOUNTING_CFO_APPROVER'', 3), (''ACCOUNTING_ADMIN'', 3)]"

definition ROLE_NORMALIZATION :: "(string \<times> string) list" where
  "ROLE_NORMALIZATION = [(''finance_team'', ''ACCOUNTING_REVIEWER''), (''finance_leader'', ''ACCOUNTING_ADMIN''),
     (''director'', ''ACCOUNTING_CFO_APPROVER''), (''super_admin'', ''ACCOUNTING_ADMIN''),
     (''platform_owner'', ''ACCOUNTING_ADMIN''), (''auditor'', ''ACCOUNTING_AUDITOR'')]"

definition normalize_role :: "string \<Rightarrow> string" where
  "normalize_role actor_role =
     (let role_upper = py_upper actor_role in
      if map_of ROLE_APPROVAL_LEVEL role_upper \<noteq> None then role_upper
      else case map_of ROLE_NORMALIZATION (py_lower actor_role) of Some fallback \<Rightarrow> fallback | None \<Rightarrow> role_upper)"

definition required_approval_level :: "rat \<Rightarrow> nat" where
  "required_approval_level total_amount =
     (if 5000000 \<le> total_amount then 3 else if 500000 \<le> total_amount then 2 else 1)"

definition enforce_maker_checker :: "jv \<Rightarrow> uuid \<Rightarrow> unit result" where
  "enforce_maker_checker jv acted_by =
     raise_if (acted_by = jv_created_by jv) (AuthorizationError ''Maker-checker violation'')"

definition enforce_approval_level :: "jv \<Rightarrow> string \<Rightarrow> unit result" where
  "enforce_approval_level jv actor_role =
     (case map_of ROLE_APPROVAL_LEVEL (normalize_role actor_role) of
        None \<Rightarrow> Inl (AuthorizationError ''Role does not have approval authority.'')
      | Some actor_level \<Rightarrow>
          raise_if (actor_level < required_approval_level (jv_total_debit jv)) (AuthorizationError ''JV amount requires approval level''))"

definition valid_states_for_decision :: "string \<Rightarrow> journal_status list" where
  "valid_states_for_decision decision =
     (if decision = ''APPROVED'' then [UNDER_REVIEW] else [PENDING_REVIEW, UNDER_REVIEW, RESUBMITTED, ESCALATED])"

definition approval_conflict :: "jv_approval \<Rightarrow> journal_db \<Rightarrow> bool" where
  "approval_conflict v db \<longleftrightarrow> list_ex (\<lambda>r. ja_tenant_id r = ja_tenant_id v \<and> ja_jv_id r = ja_jv_id v
     \<and> ((ja_acted_by r = ja_acted_by v \<and> ja_idempotency_key r = ja_idempotency_key v)
        \<or> ja_request_fingerprint r = ja_request_fingerprint v)) (jd_approvals db)"

text \<open>The arguments of \<open>submit_approval\<close>; a missing idempotency key is replaced by the random token \<open>dr_token\<close>.\<close>

record decision_request =
  dr_jv_id :: uuid
  dr_acted_by :: uuid
  dr_actor_role :: string
  dr_decision :: string
  dr_decision_reason :: "string option"
  dr_expected_version :: nat
  dr_delegated_from :: "uuid option"
  dr_idempotency_key :: "string option"
  dr_token :: string

definition fingerprint :: "sha \<Rightarrow> uuid \<Rightarrow> uuid \<Rightarrow> string \<Rightarrow> nat \<Rightarrow> string" where
  "fingerprint sha jid acted_by decision version =
     sha (uuid_text jid @ '':'' @ uuid_text acted_by @ '':'' @ decision @ '':'' @ nat_text version)"

text \<open>The guards of \<open>submit_approval\<close>, in its order, then the row and the transition.\<close>

definition check_decision :: "jv \<Rightarrow> uuid \<Rightarrow> string \<Rightarrow> string \<Rightarrow> unit result" where
  "check_decision jv acted_by normalized_role decision =
     bindE (enforce_maker_checker jv acted_by) (\<lambda>_.
     bindE (if decision = ''APPROVED'' then enforce_approval_level jv normalized_role else Inr ()) (\<lambda>_.
     raise_if (jv_status jv \<notin> set (valid_states_for_decision decision)) (ValidationError ''Cannot record decision on JV in this status'')))"

definition approval_of :: "journal_engine \<Rightarrow> uuid \<Rightarrow> jv \<Rightarrow> string \<Rightarrow> string \<Rightarrow> decision_request \<Rightarrow> journal_db \<Rightarrow> jv_approval" where
  "approval_of en tenant_id jv normalized_role decision rq db =
     \<lparr>ja_id = next_uuid db, ja_tenant_id = tenant_id, ja_jv_id = dr_jv_id rq, ja_jv_version = jv_version jv,
      ja_acted_by = dr_acted_by rq, ja_delegated_from = dr_delegated_from rq, ja_actor_role = normalized_role,
      ja_decision = decision, ja_decision_reason = dr_decision_reason rq,
      ja_approval_level = (case map_of ROLE_APPROVAL_LEVEL normalized_role of Some l \<Rightarrow> l | None \<Rightarrow> 1),
      ja_amount_threshold = jv_total_debit jv,
      ja_idempotency_key = (if absent (dr_idempotency_key rq) then dr_token rq else the (dr_idempotency_key rq)),
      ja_request_fingerprint = fingerprint (jg_sha en) (dr_jv_id rq) (dr_acted_by rq) decision (jv_version jv),
      ja_acted_at = utcnow db\<rparr>"

definition submit_approval :: "journal_engine \<Rightarrow> session \<Rightarrow> uuid \<Rightarrow> decision_request \<Rightarrow> journal_db
    \<Rightarrow> (jv_approval \<times> journal_db) result" where
  "submit_approval en se tenant_id rq db =
     bindE (require_mutation_context se) (\<lambda>_.
     let decision = py_upper (dr_decision rq) in
     bindE (raise_if (decision \<notin> {''APPROVED'', ''REJECTED''}) (ValidationError ''Invalid decision'')) (\<lambda>_.
     bindE (raise_if (decision = ''REJECTED'' \<and> absent (dr_decision_reason rq))
              (ValidationError ''A decision_reason is required when rejecting a JV.'')) (\<lambda>_.
     bindE (get_jv (dr_jv_id rq) tenant_id db) (\<lambda>jv.
     let normalized_role = normalize_role (dr_actor_role rq) in
     bindE (check_decision jv (dr_acted_by rq) normalized_role decision) (\<lambda>_.
     let approval = approval_of en tenant_id jv normalized_role decision rq db in
     bindE (raise_if (list_ex (\<lambda>r. ja_jv_id r = dr_jv_id rq \<and> ja_tenant_id r = tenant_id
              \<and> ja_request_fingerprint r = ja_request_fingerprint approval) (jd_approvals db))
              (ValidationError ''Duplicate approval decision detected (idempotency).'')) (\<lambda>_.
     bindE (raise_if (approval_conflict approval db) IntegrityError) (\<lambda>_.
     bindE (transition_jv en se (dr_jv_id rq) tenant_id decision (dr_acted_by rq) normalized_role (dr_expected_version rq)
              (dr_decision_reason rq) (normalized_role = ''ACCOUNTING_ADMIN'')
              (jd_tick (db\<lparr>jd_approvals := jd_approvals db @ [approval]\<rparr>))) (\<lambda>(_, db).
     Inr (approval, db)))))))))"

definition get_jv_approvals :: "uuid \<Rightarrow> uuid \<Rightarrow> journal_db \<Rightarrow> jv_approval list" where
  "get_jv_approvals jid tenant_id db =
     sort_key ja_acted_at (filter (\<lambda>r. ja_jv_id r = jid \<and> ja_tenant_id r = tenant_id) (jd_approvals db))"

section \<open>SLA timers\<close>

text \<open>Instants count microseconds.\<close>

definition hours :: "nat \<Rightarrow> nat" where "hours h = h * 3600 * 1000000"

definition create_sla_timer :: "uuid \<Rightarrow> uuid \<Rightarrow> nat \<Rightarrow> nat \<Rightarrow> journal_db \<Rightarrow> sla_timer \<times> journal_db" where
  "create_sla_timer jid tenant_id review_sla_hours approval_sla_hours db =
     (case find (\<lambda>r. sl_jv_id r = jid) (jd_timers db) of
        Some existing \<Rightarrow> (existing, db)
      | None \<Rightarrow>
          (let timer = \<lparr>sl_id = next_uuid db, sl_tenant_id = tenant_id, sl_jv_id = jid,
                 sl_review_sla_hours = review_sla_hours, sl_approval_sla_hours = approval_sla_hours,
                 sl_review_breached = False, sl_approval_breached = False, sl_review_breached_at = None,
                 sl_approval_breached_at = None, sl_updated_at = utcnow db\<rparr>
           in (timer, jd_tick (db\<lparr>jd_timers := jd_timers db @ [timer]\<rparr>))))"

definition review_late :: "nat \<Rightarrow> sla_timer \<Rightarrow> jv \<Rightarrow> nat \<Rightarrow> bool" where
  "review_late now timer jv submitted_at \<longleftrightarrow> \<not> sl_review_breached timer \<and> submitted_at + hours (sl_review_sla_hours timer) < now
     \<and> jv_status jv \<in> {PENDING_REVIEW, UNDER_REVIEW, RESUBMITTED, ESCALATED}"

definition approval_late :: "nat \<Rightarrow> sla_timer \<Rightarrow> nat \<Rightarrow> bool" where
  "approval_late now timer submitted_at \<longleftrightarrow>
     \<not> sl_approval_breached timer \<and> submitted_at + hours (sl_approval_sla_hours timer) < now"

definition check_timer :: "nat \<Rightarrow> jv option \<Rightarrow> sla_timer \<Rightarrow> sla_timer" where
  "check_timer now j timer =
     (case j of None \<Rightarrow> timer
      | Some jv \<Rightarrow> (case jv_submitted_at jv of None \<Rightarrow> timer
        | Some submitted_at \<Rightarrow>
            (let r = review_late now timer jv submitted_at; a = approval_late now timer submitted_at in
             timer\<lparr>sl_review_breached := sl_review_breached timer \<or> r,
               sl_review_breached_at := (if r then Some now else sl_review_breached_at timer),
               sl_approval_breached := sl_approval_breached timer \<or> a,
               sl_approval_breached_at := (if a then Some now else sl_approval_breached_at timer),
               sl_updated_at := (if r \<or> a then now else sl_updated_at timer)\<rparr>)))"

text \<open>The join: timers of the tenant whose voucher is still open.\<close>

definition open_voucher :: "uuid \<Rightarrow> journal_db \<Rightarrow> sla_timer \<Rightarrow> jv option" where
  "open_voucher tenant_id db timer =
     (if sl_tenant_id timer = tenant_id
      then find (\<lambda>j. jv_id j = sl_jv_id timer \<and> jv_tenant_id j = tenant_id
             \<and> jv_status j \<notin> {PUSHED, VOIDED, APPROVED, REJECTED}) (jd_jvs db)
      else None)"

definition check_and_update_sla_breaches :: "uuid \<Rightarrow> journal_db \<Rightarrow> sla_timer list \<times> journal_db" where
  "check_and_update_sla_breaches tenant_id db =
     (let now = utcnow db;
          timers = map (\<lambda>t. check_timer now (open_voucher tenant_id db t) t) (jd_timers db);
          breached = filter (\<lambda>(old, new). sl_review_breached old \<noteq> sl_review_breached new
             \<or> sl_approval_breached old \<noteq> sl_approval_breached new) (zip (jd_timers db) timers)
      in (map snd breached, jd_tick (db\<lparr>jd_timers := timers\<rparr>)))"

end
