(* ===== verification/Journal_Posting.thy ===== *)
theory Journal_Posting
  imports Journal_Vouchers
begin

text \<open>
  The journal workflow and the general ledger: \<open>application/journal_service.py\<close> and the
  request schemas of \<open>domain/schemas.py\<close> of the accounting layer.  A draft is prepared from a request, submitted, reviewed, approved and
  posted; posting appends one ledger entry per active line; a reversal is a mirrored journal
  that is approved and posted at once and voids the original.
\<close>

section \<open>Requests\<close>

record journal_line_create =
  jc_account_code :: "string option"
  jc_tenant_coa_account_id :: "uuid option"
  jc_debit :: rat
  jc_credit :: rat
  jc_memo :: "string option"
  jc_transaction_currency :: "string option"
  jc_functional_currency :: "string option"
  jc_fx_rate :: "rat option"
  jc_base_amount :: "rat option"

record journal_create =
  jq_org_entity_id :: uuid
  jq_journal_date :: date
  jq_reference :: "string option"
  jq_narration :: "string option"
  jq_lines :: "journal_line_create list"

definition valid_journal_line :: "journal_line_create \<Rightarrow> bool" where
  "valid_journal_line l \<longleftrightarrow> 0 \<le> jc_debit l \<and> 0 \<le> jc_credit l \<and> \<not> (0 < jc_debit l \<and> 0 < jc_credit l)
     \<and> \<not> (jc_debit l = 0 \<and> jc_credit l = 0) \<and> (\<not> absent (jc_account_code l) \<or> jc_tenant_coa_account_id l \<noteq> None)
     \<and> (case jc_fx_rate l of None \<Rightarrow> True | Some r \<Rightarrow> 0 < r)"

definition valid_journal_create :: "journal_create \<Rightarrow> bool" where
  "valid_journal_create rq \<longleftrightarrow> 2 \<le> length (jq_lines rq) \<and> list_all valid_journal_line (jq_lines rq)
     \<and> dsum (map jc_debit (jq_lines rq)) = dsum (map jc_credit (jq_lines rq))"

section \<open>Lookups\<close>

definition single_row :: "'r list \<Rightarrow> 'r option result" where
  "single_row rows = (case rows of [] \<Rightarrow> Inr None | [r] \<Rightarrow> Inr (Some r) | _ \<Rightarrow> Inl MultipleResultsFound)"

definition get_entity_for_tenant :: "uuid \<Rightarrow> uuid \<Rightarrow> journal_db \<Rightarrow> cp_entity result" where
  "get_entity_for_tenant tenant_id entity_id db =
     (case find (\<lambda>e. ce_id e = entity_id \<and> ce_tenant_id e = tenant_id) (jd_entities db) of
        None \<Rightarrow> Inl (ValidationError ''Entity does not belong to tenant.'') | Some e \<Rightarrow> Inr e)"

definition active_accounts :: "uuid \<Rightarrow> (coa_account \<Rightarrow> bool) \<Rightarrow> journal_db \<Rightarrow> coa_account list" where
  "active_accounts tenant_id wanted db =
     filter (\<lambda>a. ca_tenant_id a = tenant_id \<and> ca_is_active a \<and> wanted a) (jd_accounts db)"

definition resolve_tenant_account :: "uuid \<Rightarrow> uuid option \<Rightarrow> string option \<Rightarrow> journal_db \<Rightarrow> coa_account result" where
  "resolve_tenant_account tenant_id account_id account_code db =
     bindE (case account_id of None \<Rightarrow> Inr None
            | Some i \<Rightarrow> bindE (single_row (active_accounts tenant_id (\<lambda>a. ca_id a = i) db)) (\<lambda>by_id.
                case by_id of None \<Rightarrow> Inl (ValidationError ''tenant_coa_account_id does not exist or is inactive.'')
                | Some a \<Rightarrow> Inr (Some a))) (\<lambda>by_id.
     bindE (if absent account_code then Inr None
            else bindE (single_row (active_accounts tenant_id (\<lambda>a. ca_account_code a = py_strip (the account_code)) db)) (\<lambda>by_code.
                case by_code of None \<Rightarrow> Inl (ValidationError ''account_code does not exist or is inactive.'')
                | Some a \<Rightarrow> Inr (Some a))) (\<lambda>by_code.
     case (by_id, by_code) of
       (None, None) \<Rightarrow> Inl (ValidationError ''provide account_code or tenant_coa_account_id.'')
     | (Some a, None) \<Rightarrow> Inr a
     | (None, Some b) \<Rightarrow> Inr b
     | (Some a, Some b) \<Rightarrow> bindE (raise_if (ca_id a \<noteq> ca_id b) (ValidationError ''account_code does not match tenant_coa_account_id.''))
          (\<lambda>_. Inr a)))"

section \<open>Drafts\<close>

record prepared_line =
  pr_account_id :: uuid
  pr_account_code :: string
  pr_account_name :: string
  pr_entry_type :: entry_type
  pr_amount :: rat
  pr_transaction_currency :: string
  pr_functional_currency :: string
  pr_fx_rate :: "rat option"
  pr_base_amount :: rat
  pr_memo :: "string option"

definition or_text :: "string option \<Rightarrow> string \<Rightarrow> string" where
  "or_text s d = (if absent s then d else the s)"

definition prepare_line :: "journal_engine \<Rightarrow> uuid \<Rightarrow> date \<Rightarrow> cp_entity \<Rightarrow> journal_db \<Rightarrow> journal_line_create \<Rightarrow> prepared_line result" where
  "prepare_line en tenant_id journal_date entity db line =
     bindE (resolve_tenant_account tenant_id (jc_tenant_coa_account_id line) (jc_account_code line) db) (\<lambda>account.
     let amount = (if 0 < jc_debit line then jc_debit line else jc_credit line);
         functional_currency = py_upper (or_text (jc_functional_currency line) (ce_base_currency entity));
         transaction_currency = py_upper (or_text (jc_transaction_currency line) functional_currency)
     in bindE (if transaction_currency \<noteq> functional_currency
               then bindE (case jc_fx_rate line of Some r \<Rightarrow> Inr r
                      | None \<Rightarrow> bindE (get_required_latest_fx_rate (jg_babel en) tenant_id transaction_currency
                            functional_currency ''SPOT'' journal_date (jd_rates db)) (\<lambda>spot_rate. Inr (fr_rate spot_rate))) (\<lambda>rate.
                    bindE (quantize_even_at 4 (dmul amount rate)) (\<lambda>base. Inr (Some rate, base)))
               else case jc_base_amount line of
                      Some b \<Rightarrow> bindE (quantize_even_at 4 b) (\<lambda>base. Inr (None, base))
                    | None \<Rightarrow> Inr (None, amount)) (\<lambda>(rate, base).
     Inr \<lparr>pr_account_id = ca_id account, pr_account_code = ca_account_code account, pr_account_name = ca_display_name account,
          pr_entry_type = (if 0 < jc_debit line then DEBIT else CREDIT), pr_amount = amount,
          pr_transaction_currency = transaction_currency, pr_functional_currency = functional_currency,
          pr_fx_rate = rate, pr_base_amount = base, pr_memo = jc_memo line\<rparr>))"

definition draft_line :: "uuid \<Rightarrow> prepared_line \<Rightarrow> line_data" where
  "draft_line entity_id l =
     \<lparr>ld_account_code = Some (Some (pr_account_code l)), ld_account_name = Some (Some (pr_account_name l)),
      ld_entry_type = Some (Some (entry_text (pr_entry_type l))), ld_amount = Some (Some (pr_amount l)),
      ld_currency = Some (Some (pr_transaction_currency l)), ld_transaction_currency = Some (Some (pr_transaction_currency l)),
      ld_functional_currency = Some (Some (pr_functional_currency l)), ld_fx_rate = Some (pr_fx_rate l),
      ld_base_amount = Some (Some (pr_base_amount l)), ld_entity_id = Some entity_id, ld_location_id = None,
      ld_cost_centre_id = None, ld_narration = Some (pr_memo l), ld_tax_code = None, ld_is_tax_line = False\<rparr>"

definition emit_journal_event :: "journal_engine \<Rightarrow> jv \<Rightarrow> uuid \<Rightarrow> string option \<Rightarrow> string \<Rightarrow> (string \<times> json) list \<Rightarrow> journal_db
    \<Rightarrow> journal_db" where
  "emit_journal_event en jv actor_user_id actor_role event_type payload db =
     db\<lparr>jd_gov := emit_governance_event (jg_sha en) (jv_tenant_id jv)
       \<lparr>gv_entity_id = Some (jv_entity_id jv), gv_module_key = ''journal_workflow'', gv_subject_type = ''journal'',
        gv_subject_id = uuid_text (jv_id jv), gv_event_type = event_type, gv_actor_user_id = Some actor_user_id,
        gv_actor_role = actor_role,
        gv_payload_json = JDict ([(''journal_id'', JStr (uuid_text (jv_id jv))), (''journal_number'', JStr (jv_number jv))] @ payload)\<rparr>
       (jd_gov db)\<rparr>"

definition prepared_total :: "entry_type \<Rightarrow> prepared_line list \<Rightarrow> rat" where
  "prepared_total side lines = dsum (map pr_base_amount (filter (\<lambda>l. pr_entry_type l = side) lines))"

definition create_journal_draft :: "journal_engine \<Rightarrow> session \<Rightarrow> uuid \<Rightarrow> uuid \<Rightarrow> journal_create \<Rightarrow> string \<Rightarrow> string option
    \<Rightarrow> journal_db \<Rightarrow> (jv \<times> journal_db) result" where
  "create_journal_draft en se tenant_id created_by rq source external_reference_id db =
     bindE (require_mutation_context se) (\<lambda>_.
     bindE (get_entity_for_tenant tenant_id (jq_org_entity_id rq) db) (\<lambda>entity.
     bindE (assert_period_allows_modification tenant_id (Some (ce_id entity)) (dt_year (jq_journal_date rq))
              (dt_month (jq_journal_date rq)) (jd_gov db)) (\<lambda>_.
     bindE (mapE (prepare_line en tenant_id (jq_journal_date rq) entity db) (jq_lines rq)) (\<lambda>prepared.
     bindE (raise_if (prepared_total DEBIT prepared \<noteq> prepared_total CREDIT prepared)
              (ValidationError ''Functional-currency imbalance detected'')) (\<lambda>_.
     bindE (create_jv en se tenant_id
              \<lparr>ji_entity_id = ce_id entity, ji_created_by = created_by, ji_period_date = jq_journal_date rq,
               ji_fiscal_year = dt_year (jq_journal_date rq), ji_fiscal_period = dt_month (jq_journal_date rq),
               ji_description = jq_narration rq, ji_reference = jq_reference rq, ji_source = source,
               ji_external_reference_id = external_reference_id, ji_currency = ce_base_currency entity,
               ji_location_id = None, ji_cost_centre_id = None, ji_workflow_instance_id = None,
               ji_lines = map (draft_line (ce_id entity)) prepared\<rparr> db) (\<lambda>(jv, db).
     Inr (jv, emit_journal_event en jv created_by None ''JOURNAL_DRAFT_CREATE''
            [(''fiscal_year'', JInt (jv_fiscal_year jv)), (''fiscal_period'', JInt (jv_fiscal_period jv))] db)))))))"

section \<open>Active lines and the ledger\<close>

definition is_posted_status :: "journal_status \<Rightarrow> bool" where
  "is_posted_status status \<longleftrightarrow> status \<in> {PUSHED, PUSH_IN_PROGRESS}"

definition active_journal_lines :: "jv \<Rightarrow> journal_db \<Rightarrow> jv_line list" where
  "active_journal_lines jv db =
     (let lines = lines_of (jv_id jv) db;
          max_version = (if lines = [] then jv_version jv else Max (set (map jl_jv_version lines)))
      in sort_key jl_line_number (filter (\<lambda>l. jl_jv_version l = max_version) lines))"

definition ledger_amount :: "jv_line \<Rightarrow> rat" where
  "ledger_amount l = (case jl_base_amount l of Some b \<Rightarrow> b | None \<Rightarrow> jl_amount l)"

definition assert_balanced_active_lines :: "jv \<Rightarrow> journal_db \<Rightarrow> unit result" where
  "assert_balanced_active_lines jv db =
     (let lines = active_journal_lines jv db in
      bindE (raise_if (length lines < 2) (ValidationError ''Journal must have at least two lines.'')) (\<lambda>_.
      raise_if (side_total ledger_amount DEBIT lines \<noteq> side_total ledger_amount CREDIT lines)
        (ValidationError ''Journal imbalance detected'')))"

definition gl_entries_for_journal :: "uuid \<Rightarrow> string \<Rightarrow> journal_db \<Rightarrow> gl_entry list" where
  "gl_entries_for_journal tenant_id journal_number db =
     filter (\<lambda>g. ge_tenant_id g = tenant_id \<and> ge_source_ref g = Some journal_number) (jd_gl db)"

definition resolve_posted_at :: "jv \<Rightarrow> journal_db \<Rightarrow> nat option" where
  "resolve_posted_at jv db =
     map_option ge_created_at (latest_by ge_created_at (gl_entries_for_journal (jv_tenant_id jv) (jv_number jv) db))"

definition last_triggered_by :: "uuid \<Rightarrow> journal_status \<Rightarrow> journal_db \<Rightarrow> uuid option" where
  "last_triggered_by jid to_status db =
     map_option je_triggered_by (latest_by je_occurred_at
       (filter (\<lambda>e. je_jv_id e = jid \<and> je_to_status e = to_status) (jd_events db)))"

text \<open>\<open>_append_state_event\<close> of this service: one reading of the clock.\<close>

definition append_journal_event :: "journal_engine \<Rightarrow> session \<Rightarrow> jv \<Rightarrow> journal_status \<Rightarrow> journal_status \<Rightarrow> uuid \<Rightarrow> string
    \<Rightarrow> string \<Rightarrow> journal_db \<Rightarrow> journal_db result" where
  "append_journal_event en se jv from_status to_status triggered_by actor_role comment db =
     bindE (require_mutation_context se) (\<lambda>ctx.
     let previous_hash = map_option je_chain_hash (last_event (jv_id jv) db);
         content = uuid_text (jv_id jv) @ '':'' @ status_text from_status @ '':'' @ status_text to_status @ '':''
           @ uuid_text triggered_by @ '':'' @ jg_iso en (utcnow db);
         event = \<lparr>je_id = next_uuid db, je_tenant_id = jv_tenant_id jv,
           je_chain_hash = compute_hash (jg_sha en) content previous_hash,
           je_previous_hash = (case previous_hash of None \<Rightarrow> [] | Some h \<Rightarrow> h), je_jv_id = jv_id jv,
           je_jv_version = jv_version jv, je_from_status = from_status, je_to_status = to_status,
           je_triggered_by = triggered_by, je_actor_role = actor_role, je_comment = Some comment,
           je_created_by_intent_id = mc_intent_id ctx, je_recorded_by_job_id = mc_job_id ctx,
           je_occurred_at = utcnow db\<rparr>
     in Inr (jd_tick (db\<lparr>jd_events := jd_events db @ [event]\<rparr>)))"

text \<open>One ledger entry; the columns have six places.  Nothing sets its creation time, so the default of the column does: each row
  reads the clock for itself (\<open>now\<close>), and the rows of one posting have different times.\<close>

definition gl_entry_of :: "journal_engine \<Rightarrow> session \<Rightarrow> mutation_context \<Rightarrow> jv \<Rightarrow> cp_entity \<Rightarrow> uuid \<Rightarrow> date \<Rightarrow> uuid \<Rightarrow> nat \<Rightarrow> string
    \<Rightarrow> jv_line \<Rightarrow> gl_entry result" where
  "gl_entry_of en se ctx jv entity created_by journal_date i now previous_hash l =
     (let debit = (if jl_entry_type l = DEBIT then ledger_amount l else 0);
          credit = (if jl_entry_type l = CREDIT then ledger_amount l else 0);
          content = uuid_text (jv_id jv) @ '':'' @ nat_text (jl_line_number l) @ '':'' @ jl_account_code l @ '':''
            @ jg_dec_str en debit @ '':'' @ jg_dec_str en credit @ '':'' @ date_text journal_date
      in bindE (numeric_20_6 debit) (\<lambda>debit_amount.
         bindE (numeric_20_6 credit) (\<lambda>credit_amount.
         Inr \<lparr>ge_id = i, ge_tenant_id = jv_tenant_id jv, ge_chain_hash = compute_hash (jg_sha en) content (Some previous_hash),
              ge_previous_hash = previous_hash, ge_created_at = now, ge_entity_id = Some (ce_id entity),
              ge_period_year = dt_year journal_date, ge_period_month = dt_month journal_date,
              ge_entity_name = ce_entity_name entity, ge_account_code = jl_account_code l,
              ge_account_name = or_text (jl_account_name l) (jl_account_code l), ge_debit_amount = debit_amount,
              ge_credit_amount = credit_amount, ge_description = jv_description jv, ge_source_ref = Some (jv_number jv),
              ge_currency = or_text (jl_functional_currency l) (jv_currency jv), ge_uploaded_by = created_by,
              ge_created_by_intent_id = Some (mc_intent_id ctx), ge_recorded_by_job_id = Some (mc_job_id ctx)\<rparr>)))"

fun gl_entries_of :: "journal_engine \<Rightarrow> session \<Rightarrow> mutation_context \<Rightarrow> jv \<Rightarrow> cp_entity \<Rightarrow> uuid \<Rightarrow> date \<Rightarrow> uuid \<Rightarrow> nat \<Rightarrow> string
    \<Rightarrow> jv_line list \<Rightarrow> gl_entry list result" where
  "gl_entries_of en se ctx jv entity created_by journal_date i now previous_hash [] = Inr []"
| "gl_entries_of en se ctx jv entity created_by journal_date i now previous_hash (l # ls) =
     bindE (gl_entry_of en se ctx jv entity created_by journal_date i now previous_hash l) (\<lambda>row.
     bindE (gl_entries_of en se ctx jv entity created_by journal_date (i + 1) (now + 1) (ge_chain_hash row) ls) (\<lambda>rows.
     Inr (row # rows)))"

definition append_gl_entries :: "journal_engine \<Rightarrow> session \<Rightarrow> jv \<Rightarrow> cp_entity \<Rightarrow> uuid \<Rightarrow> date \<Rightarrow> journal_db \<Rightarrow> journal_db result" where
  "append_gl_entries en se jv entity created_by journal_date db =
     bindE (require_mutation_context se) (\<lambda>ctx.
     let lines = active_journal_lines jv db in
     bindE (raise_if (side_total ledger_amount DEBIT lines \<noteq> side_total ledger_amount CREDIT lines)
              (ValidationError ''GL integrity check failed'')) (\<lambda>_.
     bindE (gl_entries_of en se ctx jv entity created_by journal_date (next_uuid db) (utcnow db) (jv_chain_hash jv) lines) (\<lambda>rows.
     Inr ((jd_tick ^^ length lines) (db\<lparr>jd_gl := jd_gl db @ rows\<rparr>)))))"

section \<open>The workflow\<close>

definition REVIEW_SOURCE_STATUSES :: "journal_status list" where
  "REVIEW_SOURCE_STATUSES = [PENDING_REVIEW, UNDER_REVIEW, RESUBMITTED, ESCALATED]"

text \<open>\<open>JournalActionResponse\<close>: id, status, time of posting.\<close>

record action_response =
  ar_id :: uuid
  ar_status :: journal_status
  ar_posted_at :: "nat option"

definition get_journal_aggregate :: "uuid \<Rightarrow> uuid \<Rightarrow> journal_db \<Rightarrow> jv result" where
  "get_journal_aggregate tenant_id journal_id db =
     (case find (\<lambda>r. jv_id r = journal_id \<and> jv_tenant_id r = tenant_id) (jd_jvs db) of
        None \<Rightarrow> Inl (NotFoundError ''Journal not found'') | Some r \<Rightarrow> Inr r)"

definition or_now :: "nat option \<Rightarrow> nat \<Rightarrow> nat option" where
  "or_now t now = (case t of None \<Rightarrow> Some now | Some x \<Rightarrow> Some x)"

text \<open>The guards the modifying handlers share: context, voucher, period.\<close>

definition open_journal :: "session \<Rightarrow> uuid \<Rightarrow> uuid \<Rightarrow> journal_db \<Rightarrow> jv result" where
  "open_journal se tenant_id journal_id db =
     bindE (require_mutation_context se) (\<lambda>_.
     bindE (get_journal_aggregate tenant_id journal_id db) (\<lambda>jv.
     bindE (assert_period_allows_modification tenant_id (Some (jv_entity_id jv)) (jv_fiscal_year jv) (jv_fiscal_period jv)
              (jd_gov db)) (\<lambda>_.
     Inr jv)))"

definition submit_journal :: "journal_engine \<Rightarrow> session \<Rightarrow> uuid \<Rightarrow> uuid \<Rightarrow> uuid \<Rightarrow> string option \<Rightarrow> journal_db
    \<Rightarrow> (action_response \<times> journal_db) result" where
  "submit_journal en se tenant_id journal_id acted_by actor_role db =
     bindE (open_journal se tenant_id journal_id db) (\<lambda>jv.
     bindE (raise_if (is_posted_status (jv_status jv)) (ValidationError ''Posted journals cannot be submitted again.'')) (\<lambda>_.
     bindE (raise_if (jv_status jv \<noteq> DRAFT) (ValidationError ''Journal cannot be submitted from status'')) (\<lambda>_.
     let now = utcnow db;
         jv' = jv\<lparr>jv_status := SUBMITTED, jv_submitted_at := Some now, jv_updated_at := now\<rparr> in
     bindE (append_journal_event en se jv' (jv_status jv) SUBMITTED acted_by (or_text actor_role ''ACCOUNTING_SUBMITTER'')
              ''Submitted via /accounting/journals/{id}/submit'' (put_jv jv' (jd_tick db))) (\<lambda>db.
     Inr (\<lparr>ar_id = jv_id jv, ar_status = SUBMITTED, ar_posted_at = None\<rparr>,
          emit_journal_event en jv' acted_by actor_role ''JOURNAL_SUBMIT'' [] db)))))"

definition review_journal :: "journal_engine \<Rightarrow> session \<Rightarrow> uuid \<Rightarrow> uuid \<Rightarrow> uuid \<Rightarrow> string option \<Rightarrow> journal_db
    \<Rightarrow> (action_response \<times> journal_db) result" where
  "review_journal en se tenant_id journal_id acted_by actor_role db =
     bindE (open_journal se tenant_id journal_id db) (\<lambda>jv.
     bindE (raise_if (is_posted_status (jv_status jv)) (ValidationError ''Posted journals cannot be reviewed.'')) (\<lambda>_.
     bindE (raise_if (jv_status jv \<notin> {SUBMITTED, PENDING_REVIEW, RESUBMITTED})
              (ValidationError ''Journal cannot be reviewed from status'')) (\<lambda>_.
     let now = utcnow db;
         jv' = jv\<lparr>jv_status := UNDER_REVIEW, jv_first_reviewed_at := or_now (jv_first_reviewed_at jv) now, jv_updated_at := now\<rparr> in
     bindE (append_journal_event en se jv' (jv_status jv) UNDER_REVIEW acted_by (or_text actor_role ''ACCOUNTING_REVIEWER'')
              ''Reviewed via /accounting/journals/{id}/review'' (put_jv jv' (jd_tick db))) (\<lambda>db.
     Inr (\<lparr>ar_id = jv_id jv, ar_status = UNDER_REVIEW, ar_posted_at = None\<rparr>,
          emit_journal_event en jv' acted_by actor_role ''JOURNAL_REVIEW'' [] db)))))"

definition approved :: "jv \<Rightarrow> nat \<Rightarrow> jv" where
  "approved jv now = jv\<lparr>jv_status := APPROVED, jv_submitted_at := or_now (jv_submitted_at jv) now,
     jv_first_reviewed_at := or_now (jv_first_reviewed_at jv) now, jv_decided_at := Some now, jv_updated_at := now\<rparr>"

definition check_approval :: "uuid \<Rightarrow> jv \<Rightarrow> uuid \<Rightarrow> journal_db \<Rightarrow> unit result" where
  "check_approval tenant_id jv acted_by db =
     (let policy = get_approval_policy tenant_id ''ACCOUNTING_JOURNALS'' (jd_gov db) in
      bindE (enforce_maker_checker_for_approval (jv_created_by jv) acted_by policy) (\<lambda>_.
      enforce_reviewer_policy (jv_first_reviewed_at jv \<noteq> None \<or> jv_status jv \<in> set REVIEW_SOURCE_STATUSES) policy))"

definition approve_journal :: "journal_engine \<Rightarrow> session \<Rightarrow> uuid \<Rightarrow> uuid \<Rightarrow> uuid \<Rightarrow> string option \<Rightarrow> journal_db
    \<Rightarrow> (action_response \<times> journal_db) result" where
  "approve_journal en se tenant_id journal_id acted_by actor_role db =
     bindE (open_journal se tenant_id journal_id db) (\<lambda>jv.
     bindE (raise_if (is_posted_status (jv_status jv)) (ValidationError ''Posted journals cannot be re-approved.'')) (\<lambda>_.
     if jv_status jv = APPROVED then Inr (\<lparr>ar_id = jv_id jv, ar_status = APPROVED, ar_posted_at = None\<rparr>, db)
     else
     bindE (raise_if (jv_status jv \<notin> insert SUBMITTED (set REVIEW_SOURCE_STATUSES))
              (ValidationError ''Journal cannot be approved from status'')) (\<lambda>_.
     bindE (check_approval tenant_id jv acted_by db) (\<lambda>_.
     let jv' = approved jv (utcnow db) in
     bindE (append_journal_event en se jv' (jv_status jv) APPROVED acted_by ''ACCOUNTING_APPROVER''
              ''Approved via /accounting/journals/{id}/approve'' (put_jv jv' (jd_tick db))) (\<lambda>db.
     Inr (\<lparr>ar_id = jv_id jv, ar_status = APPROVED, ar_posted_at = None\<rparr>,
          emit_journal_event en jv' acted_by actor_role ''JOURNAL_APPROVE''
            [(''from_status'', JStr (status_text (jv_status jv))), (''to_status'', JStr (status_text APPROVED)),
             (''actor_role'', json_opt actor_role)] db))))))"

text \<open>\<open>_post_approved_journal\<close>, and the same steps in \<open>post_journal\<close>: balance, no earlier entries, entries, status, event.\<close>

definition posted :: "jv \<Rightarrow> nat \<Rightarrow> jv" where
  "posted jv now = jv\<lparr>jv_status := PUSHED, jv_updated_at := now, jv_decided_at := or_now (jv_decided_at jv) now\<rparr>"

definition check_postable :: "uuid \<Rightarrow> jv \<Rightarrow> journal_db \<Rightarrow> unit result" where
  "check_postable tenant_id jv db =
     bindE (assert_balanced_active_lines jv db) (\<lambda>_.
     raise_if (gl_entries_for_journal tenant_id (jv_number jv) db \<noteq> [])
       (ValidationError ''GL entries already exist for this journal; posting is append-only.''))"

definition enter_ledger :: "journal_engine \<Rightarrow> session \<Rightarrow> jv \<Rightarrow> cp_entity \<Rightarrow> uuid \<Rightarrow> string \<Rightarrow> journal_db
    \<Rightarrow> ((jv \<times> nat) \<times> journal_db) result" where
  "enter_ledger en se jv entity acted_by comment db =
     (let posted_at = utcnow db; jv' = posted jv posted_at in
      bindE (append_gl_entries en se jv entity acted_by (jv_period_date jv) (jd_tick db)) (\<lambda>db.
      bindE (append_journal_event en se jv' (jv_status jv) PUSHED acted_by ''ACCOUNTING_POSTER'' comment (put_jv jv' db)) (\<lambda>db.
      Inr ((jv', posted_at), db))))"

definition post_approved_journal :: "journal_engine \<Rightarrow> session \<Rightarrow> jv \<Rightarrow> cp_entity \<Rightarrow> uuid \<Rightarrow> string \<Rightarrow> journal_db
    \<Rightarrow> ((jv \<times> nat) \<times> journal_db) result" where
  "post_approved_journal en se jv entity acted_by comment db =
     bindE (check_postable (jv_tenant_id jv) jv db) (\<lambda>_. enter_ledger en se jv entity acted_by comment db)"

definition post_journal_entry :: "journal_engine \<Rightarrow> session \<Rightarrow> uuid \<Rightarrow> uuid \<Rightarrow> uuid \<Rightarrow> string option \<Rightarrow> journal_db
    \<Rightarrow> (action_response \<times> journal_db) result" where
  "post_journal_entry en se tenant_id journal_id acted_by actor_role db =
     bindE (require_mutation_context se) (\<lambda>_.
     bindE (get_journal_aggregate tenant_id journal_id db) (\<lambda>jv.
     if is_posted_status (jv_status jv)
     then Inr (\<lparr>ar_id = jv_id jv, ar_status = PUSHED, ar_posted_at = resolve_posted_at jv db\<rparr>, db)
     else
     bindE (raise_if (jv_status jv \<noteq> APPROVED) (ValidationError ''Only APPROVED journals can be posted.'')) (\<lambda>_.
     bindE (assert_period_allows_posting tenant_id (Some (jv_entity_id jv)) (jv_fiscal_year jv) (jv_fiscal_period jv)
              actor_role (jd_gov db)) (\<lambda>_.
     let policy = get_approval_policy tenant_id ''ACCOUNTING_JOURNALS'' (jd_gov db);
         reviewed_by = last_triggered_by (jv_id jv) UNDER_REVIEW db in
     bindE (enforce_distinct_poster_policy reviewed_by acted_by policy) (\<lambda>_.
     bindE (check_postable tenant_id jv db) (\<lambda>_.
     bindE (get_entity_for_tenant tenant_id (jv_entity_id jv) db) (\<lambda>entity.
     bindE (enter_ledger en se jv entity acted_by ''Posted via /accounting/journals/{id}/post'' db) (\<lambda>((jv', posted_at), db).
     Inr (\<lparr>ar_id = jv_id jv, ar_status = PUSHED, ar_posted_at = Some posted_at\<rparr>,
          emit_journal_event en jv' acted_by actor_role ''JOURNAL_POST''
            [(''actor_role'', json_opt actor_role), (''posted_at'', JStr (jg_iso en posted_at))] db)))))))))"

section \<open>Reversal\<close>

definition mirrored :: "entry_type \<Rightarrow> entry_type" where
  "mirrored e = (if e = DEBIT then CREDIT else DEBIT)"

definition reversal_line :: "jv \<Rightarrow> cp_entity \<Rightarrow> jv_line \<Rightarrow> line_data" where
  "reversal_line original entity l =
     (let currency = or_text (jl_transaction_currency l) (jl_currency l);
          base = (case jl_base_amount l of Some b \<Rightarrow> (if b = 0 then jl_amount l else b) | None \<Rightarrow> jl_amount l) in
      \<lparr>ld_account_code = Some (Some (jl_account_code l)), ld_account_name = Some (jl_account_name l),
       ld_entry_type = Some (Some (entry_text (mirrored (jl_entry_type l)))), ld_amount = Some (Some (jl_amount l)),
       ld_currency = Some (Some currency), ld_transaction_currency = Some (Some currency),
       ld_functional_currency = Some (Some (or_text (jl_functional_currency l) (ce_base_currency entity))),
       ld_fx_rate = Some (jl_fx_rate l), ld_base_amount = Some (Some base), ld_entity_id = Some (jv_entity_id original),
       ld_location_id = None, ld_cost_centre_id = None, ld_narration = Some (Some (''Reversal of '' @ jv_number original)),
       ld_tax_code = None, ld_is_tax_line = False\<rparr>)"

definition set_approved :: "journal_engine \<Rightarrow> session \<Rightarrow> jv \<Rightarrow> uuid \<Rightarrow> string \<Rightarrow> journal_db \<Rightarrow> (jv \<times> journal_db) result" where
  "set_approved en se jv acted_by comment db =
     (let jv' = approved jv (utcnow db) in
      bindE (append_journal_event en se jv' (jv_status jv) APPROVED acted_by ''ACCOUNTING_APPROVER'' comment
               (put_jv jv' (jd_tick db))) (\<lambda>db. Inr (jv', db)))"

definition reversal_input :: "session \<Rightarrow> jv \<Rightarrow> cp_entity \<Rightarrow> uuid \<Rightarrow> jv_line list \<Rightarrow> jv_input" where
  "reversal_input se original entity acted_by active_lines =
     \<lparr>ji_entity_id = jv_entity_id original, ji_created_by = acted_by, ji_period_date = se_today se,
      ji_fiscal_year = dt_year (se_today se), ji_fiscal_period = dt_month (se_today se),
      ji_description = Some (''Reversal of journal '' @ jv_number original),
      ji_reference = Some (''REVERSAL_OF:'' @ jv_number original), ji_source = ''MANUAL'', ji_external_reference_id = None,
      ji_currency = ce_base_currency entity, ji_location_id = None, ji_cost_centre_id = None,
      ji_workflow_instance_id = None, ji_lines = map (reversal_line original entity) active_lines\<rparr>"

text \<open>The original after its reversal; the column \<open>updated_at\<close> is refreshed by the database.\<close>

definition voided :: "session \<Rightarrow> jv \<Rightarrow> uuid \<Rightarrow> jv \<Rightarrow> nat \<Rightarrow> jv" where
  "voided se original acted_by reversal now =
     original\<lparr>jv_status := VOIDED, jv_voided_by := Some acted_by,
       jv_void_reason := Some (''Reversed by journal '' @ jv_number reversal), jv_voided_at := Some now,
       jv_updated_at := se_started se\<rparr>"

definition reverse_journal :: "journal_engine \<Rightarrow> session \<Rightarrow> uuid \<Rightarrow> uuid \<Rightarrow> uuid \<Rightarrow> string option \<Rightarrow> journal_db
    \<Rightarrow> (jv \<times> journal_db) result" where
  "reverse_journal en se tenant_id journal_id acted_by actor_role db =
     bindE (require_mutation_context se) (\<lambda>_.
     bindE (get_journal_aggregate tenant_id journal_id db) (\<lambda>original.
     bindE (raise_if (\<not> is_posted_status (jv_status original)) (ValidationError ''Only PUSHED journals can be reversed.'')) (\<lambda>_.
     bindE (assert_period_allows_posting tenant_id (Some (jv_entity_id original)) (dt_year (se_today se))
              (dt_month (se_today se)) actor_role (jd_gov db)) (\<lambda>_.
     bindE (get_entity_for_tenant tenant_id (jv_entity_id original) db) (\<lambda>entity.
     let active_lines = active_journal_lines original db in
     bindE (raise_if (length active_lines < 2) (ValidationError ''Journal has no active lines to reverse.'')) (\<lambda>_.
     bindE (create_jv en se tenant_id (reversal_input se original entity acted_by active_lines) db) (\<lambda>(reversal, db).
     bindE (set_approved en se reversal acted_by (''Auto-approved reversal for '' @ jv_number original) db) (\<lambda>(reversal, db).
     bindE (post_approved_journal en se reversal entity acted_by (''Auto-posted reversal for '' @ jv_number original) db)
       (\<lambda>((reversal, _), db).
     let original' = voided se original acted_by reversal (utcnow db) in
     bindE (append_journal_event en se original' (jv_status original) VOIDED acted_by (or_text actor_role ''ACCOUNTING_POSTER'')
              (''Reversed via '' @ jv_number reversal) (put_jv original' (jd_tick db))) (\<lambda>db.
     Inr (reversal, emit_journal_event en original' acted_by actor_role ''JOURNAL_REVERSE''
            [(''reversal_journal_id'', JStr (uuid_text (jv_id reversal))),
             (''reversal_journal_number'', JStr (jv_number reversal))] db)))))))))))"

section \<open>The other writer of the ledger\<close>

text \<open>
  \<open>create_gl_entry\<close> of \<open>services/reconciliation_service.py\<close>: a single entry with any amounts and no entity, chained to the
  tenant's entries by the audit writer, which also stamps it with the mutation context if there is one.
\<close>

record gl_request =
  gq_period_year :: int
  gq_period_month :: int
  gq_entity_name :: string
  gq_account_code :: string
  gq_account_name :: string
  gq_debit_amount :: rat
  gq_credit_amount :: rat
  gq_uploaded_by :: uuid
  gq_description :: "string option"
  gq_source_ref :: "string option"
  gq_currency :: string

definition gl_row :: "gl_entry \<Rightarrow> gl_entry row" where
  "gl_row g = \<lparr>row_id = ge_id g, row_tenant = ge_tenant_id g, row_created_at = ge_created_at g, row_chain_hash = ge_chain_hash g,
     row_previous_hash = ge_previous_hash g, row_values = g\<rparr>"

definition entry_of_row :: "gl_entry row \<Rightarrow> gl_entry" where
  "entry_of_row r = (row_values r)\<lparr>ge_id := row_id r, ge_tenant_id := row_tenant r, ge_created_at := row_created_at r,
     ge_chain_hash := row_chain_hash r, ge_previous_hash := row_previous_hash r\<rparr>"

definition stamp_gl_entry :: "session \<Rightarrow> gl_entry \<Rightarrow> gl_entry" where
  "stamp_gl_entry se g = (case se_context se of None \<Rightarrow> g
     | Some ctx \<Rightarrow> g\<lparr>ge_created_by_intent_id := Some (mc_intent_id ctx), ge_recorded_by_job_id := Some (mc_job_id ctx)\<rparr>)"

definition gl_record_data :: "journal_engine \<Rightarrow> uuid \<Rightarrow> gl_request \<Rightarrow> json" where
  "gl_record_data en tenant_id rq = JDict
     [(''tenant_id'', JStr (uuid_text tenant_id)), (''period_year'', JInt (gq_period_year rq)),
      (''period_month'', JInt (gq_period_month rq)), (''entity_name'', JStr (gq_entity_name rq)),
      (''account_code'', JStr (gq_account_code rq)), (''debit_amount'', JStr (jg_dec_str en (gq_debit_amount rq))),
      (''credit_amount'', JStr (jg_dec_str en (gq_credit_amount rq)))]"

definition gl_audit_event :: "uuid \<Rightarrow> gl_request \<Rightarrow> audit_event" where
  "gl_audit_event tenant_id rq =
     \<lparr>ae_tenant_id = tenant_id, ae_action = ''recon.gl_entry.created'', ae_resource_type = ''gl_entry'',
      ae_user_id = Some (gq_uploaded_by rq), ae_resource_id = None, ae_resource_name = Some (gq_account_code rq), ae_old_value = None,
      ae_new_value = Some (JDict [(''entity_name'', JStr (gq_entity_name rq)), (''period_year'', JInt (gq_period_year rq)),
        (''period_month'', JInt (gq_period_month rq))]),
      ae_ip_address = None, ae_user_agent = None\<rparr>"

definition gl_values :: "uuid \<Rightarrow> gl_request \<Rightarrow> rat \<Rightarrow> rat \<Rightarrow> gl_entry" where
  "gl_values tenant_id rq debit_amount credit_amount =
     \<lparr>ge_id = 0, ge_tenant_id = tenant_id, ge_chain_hash = [], ge_previous_hash = [], ge_created_at = 0, ge_entity_id = None,
      ge_period_year = gq_period_year rq, ge_period_month = gq_period_month rq, ge_entity_name = gq_entity_name rq,
      ge_account_code = gq_account_code rq, ge_account_name = gq_account_name rq, ge_debit_amount = debit_amount,
      ge_credit_amount = credit_amount, ge_description = gq_description rq, ge_source_ref = gq_source_ref rq,
      ge_currency = gq_currency rq, ge_uploaded_by = gq_uploaded_by rq, ge_created_by_intent_id = None,
      ge_recorded_by_job_id = None\<rparr>"

definition create_gl_entry :: "journal_engine \<Rightarrow> session \<Rightarrow> uuid \<Rightarrow> gl_request \<Rightarrow> journal_db \<Rightarrow> (gl_entry \<times> journal_db) result" where
  "create_gl_entry en se tenant_id rq db =
     bindE (numeric_20_6 (gq_debit_amount rq)) (\<lambda>debit_amount.
     bindE (numeric_20_6 (gq_credit_amount rq)) (\<lambda>credit_amount.
     let (row, _, env) = insert_financial_record (jg_sha en) (stamp_gl_entry se) tenant_id (gl_record_data en tenant_id rq)
           (gl_values tenant_id rq debit_amount credit_amount) (Some (gl_audit_event tenant_id rq)) (map gl_row (jd_gl db), jd_env db);
         entry = entry_of_row row
     in Inr (entry, db\<lparr>jd_gl := jd_gl db @ [entry], jd_gov := (jd_gov db)\<lparr>gd_env := env\<rparr>\<rparr>)))"

end
