(* ===== verification/Journal_Ledger.thy ===== *)
theory Journal_Ledger
  imports Journal_Posting
begin

text \<open>
  What holds of the voucher tables and the ledger in every state the handlers can reach: the
  status of a voucher is what its event log replays to, the log is hash-linked, every posting
  is a balanced block of entries, and so every trial balance balances.
\<close>

section \<open>Histories\<close>

text \<open>
  One successful handler of any session, an entry that \<open>create_gl_entry\<close> adds to the ledger, or a change of the tables these modules
  only read.  A handler is one step: the histories are serial.  The source takes no row lock on vouchers, so that
  overlapping requests on one voucher are outside of what is claimed here.
\<close>

inductive journal_step :: "journal_engine \<Rightarrow> journal_db \<Rightarrow> journal_db \<Rightarrow> bool" for en where
  created: "create_jv en se t inp db = Inr (j, db') \<Longrightarrow> journal_step en db db'"
| updated: "update_jv_lines en se i t ds v db = Inr (j, db') \<Longrightarrow> journal_step en db db'"
| moved: "transition_jv en se i t to_status u role v comment is_admin db = Inr (j, db') \<Longrightarrow> journal_step en db db'"
| decided: "submit_approval en se t rq db = Inr (a, db') \<Longrightarrow> journal_step en db db'"
| timed: "create_sla_timer i t h h' db = (tm, db') \<Longrightarrow> journal_step en db db'"
| checked: "check_and_update_sla_breaches t db = (tms, db') \<Longrightarrow> journal_step en db db'"
| drafted: "create_journal_draft en se t u rqj src ext db = Inr (j, db') \<Longrightarrow> journal_step en db db'"
| submitted: "submit_journal en se t i u role' db = Inr (r, db') \<Longrightarrow> journal_step en db db'"
| reviewed: "review_journal en se t i u role' db = Inr (r, db') \<Longrightarrow> journal_step en db db'"
| approved: "approve_journal en se t i u role' db = Inr (r, db') \<Longrightarrow> journal_step en db db'"
| posted: "post_journal_entry en se t i u role' db = Inr (r, db') \<Longrightarrow> journal_step en db db'"
| reversed: "reverse_journal en se t i u role' db = Inr (j, db') \<Longrightarrow> journal_step en db db'"
| imported: "create_gl_entry en se t rqg db = Inr (g, db') \<Longrightarrow> journal_step en db db'"
| elsewhere: "env_now (jd_env db) \<le> env_now (gd_env gov) \<Longrightarrow> env_next_id (jd_env db) \<le> env_next_id (gd_env gov)
    \<Longrightarrow> journal_step en db (db\<lparr>jd_entities := es, jd_accounts := as, jd_coa := cs, jd_rates := rm, jd_gov := gov\<rparr>)"

abbreviation journal_history :: "journal_engine \<Rightarrow> journal_db \<Rightarrow> journal_db \<Rightarrow> bool" where
  "journal_history en \<equiv> (journal_step en)\<^sup>*\<^sup>*"

definition no_journals :: "journal_db \<Rightarrow> bool" where
  "no_journals db \<longleftrightarrow> jd_jvs db = [] \<and> jd_lines db = [] \<and> jd_events db = [] \<and> jd_gl db = []"

section \<open>The event log\<close>

definition events_of :: "uuid \<Rightarrow> journal_db \<Rightarrow> jv_event list" where
  "events_of i db = filter (\<lambda>e. je_jv_id e = i) (jd_events db)"

text \<open>Events lead from a status and a hash to a status: each starts where the one before ended.\<close>

fun replays :: "journal_status \<Rightarrow> string \<Rightarrow> jv_event list \<Rightarrow> journal_status \<Rightarrow> string \<Rightarrow> bool" where
  "replays s h [] s' h' \<longleftrightarrow> s' = s \<and> h' = h"
| "replays s h (e # es) s' h' \<longleftrightarrow> je_from_status e = s \<and> je_previous_hash e = h
     \<and> replays (je_to_status e) (je_chain_hash e) es s' h'"

definition log_head :: "jv_event list \<Rightarrow> string" where
  "log_head es = (if es = [] then [] else je_chain_hash (last es))"

lemma replays_snoc:
  "replays s h (es @ [e]) s' h' \<longleftrightarrow> (\<exists>s1 h1. replays s h es s1 h1 \<and> je_from_status e = s1 \<and> je_previous_hash e = h1
     \<and> s' = je_to_status e \<and> h' = je_chain_hash e)"
  by (induction es arbitrary: s h) auto

section \<open>The invariant of the voucher tables\<close>

definition stored_line :: "jv_line \<Rightarrow> bool" where
  "stored_line l \<longleftrightarrow> numeric_20_4 (ledger_amount l) = Inr (ledger_amount l) \<and> micro (ledger_amount l) \<and> 0 \<le> ledger_amount l \<and> ledger_amount l < 10 ^ 16
     \<and> 0 \<le> jl_amount l \<and> jl_base_amount l \<noteq> None"

definition vouchers_ok :: "journal_db \<Rightarrow> bool" where
  "vouchers_ok db \<longleftrightarrow> distinct (map jv_id (jd_jvs db)) \<and> (\<forall>j \<in> set (jd_jvs db). jv_id j < next_uuid db)
     \<and> (\<forall>e \<in> set (jd_events db). je_occurred_at e < utcnow db \<and> je_jv_id e < next_uuid db)
     \<and> sorted_wrt (<) (map je_occurred_at (jd_events db))
     \<and> (\<forall>l \<in> set (jd_lines db). stored_line l \<and> jl_jv_id l < next_uuid db)
     \<and> (\<forall>j \<in> set (jd_jvs db). replays DRAFT [] (events_of (jv_id j) db) (jv_status j) (log_head (events_of (jv_id j) db)))"

definition later :: "journal_db \<Rightarrow> journal_db \<Rightarrow> bool" where
  "later db db' \<longleftrightarrow> utcnow db \<le> utcnow db' \<and> next_uuid db \<le> next_uuid db' \<and> (\<exists>ls. jd_lines db' = jd_lines db @ ls)"

lemma later_refl: "later db db" and later_trans: "later db db1 \<Longrightarrow> later db1 db2 \<Longrightarrow> later db db2"
  by (auto simp: later_def)

lemma tick_facts [simp]:
  "jd_jvs (jd_tick db) = jd_jvs db" "jd_lines (jd_tick db) = jd_lines db" "jd_events (jd_tick db) = jd_events db"
  "jd_gl (jd_tick db) = jd_gl db" "jd_approvals (jd_tick db) = jd_approvals db" "jd_entities (jd_tick db) = jd_entities db"
  "utcnow (jd_tick db) = utcnow db + 1" "next_uuid (jd_tick db) = next_uuid db + 1"
  by (simp_all add: jd_tick_def utcnow_def next_uuid_def tick_def)

lemma ticks_facts [simp]:
  "jd_jvs ((jd_tick ^^ n) db) = jd_jvs db" "jd_lines ((jd_tick ^^ n) db) = jd_lines db"
  "jd_events ((jd_tick ^^ n) db) = jd_events db" "jd_gl ((jd_tick ^^ n) db) = jd_gl db"
  "utcnow ((jd_tick ^^ n) db) = utcnow db + n" "next_uuid ((jd_tick ^^ n) db) = next_uuid db + n"
  "jd_entities ((jd_tick ^^ n) db) = jd_entities db"
  by (induction n) simp_all

lemma clock_frame [simp]:
  "utcnow (db\<lparr>jd_events := es\<rparr>) = utcnow db" "next_uuid (db\<lparr>jd_events := es\<rparr>) = next_uuid db"
  "utcnow (db\<lparr>jd_lines := ls\<rparr>) = utcnow db" "next_uuid (db\<lparr>jd_lines := ls\<rparr>) = next_uuid db"
  "utcnow (db\<lparr>jd_jvs := js\<rparr>) = utcnow db" "next_uuid (db\<lparr>jd_jvs := js\<rparr>) = next_uuid db"
  "utcnow (db\<lparr>jd_gl := gs\<rparr>) = utcnow db" "next_uuid (db\<lparr>jd_gl := gs\<rparr>) = next_uuid db"
  "utcnow (db\<lparr>jd_approvals := as\<rparr>) = utcnow db" "next_uuid (db\<lparr>jd_approvals := as\<rparr>) = next_uuid db"
  "utcnow (db\<lparr>jd_timers := ts\<rparr>) = utcnow db" "next_uuid (db\<lparr>jd_timers := ts\<rparr>) = next_uuid db"
  by (simp_all add: utcnow_def next_uuid_def)

lemma put_jv_facts [simp]:
  "jd_lines (put_jv j db) = jd_lines db" "jd_events (put_jv j db) = jd_events db" "jd_gl (put_jv j db) = jd_gl db"
  "utcnow (put_jv j db) = utcnow db" "next_uuid (put_jv j db) = next_uuid db" "events_of i (put_jv j db) = events_of i db"
  "map jv_id (jd_jvs (put_jv j db)) = map jv_id (jd_jvs db)" "jd_entities (put_jv j db) = jd_entities db"
  by (simp_all add: put_jv_def utcnow_def next_uuid_def events_of_def)

lemma put_jv_set:
  "distinct (map jv_id (jd_jvs db)) \<Longrightarrow> j \<in> set (jd_jvs db) \<Longrightarrow> jv_id j' = jv_id j
   \<Longrightarrow> set (jd_jvs (put_jv j' db)) = insert j' (set (jd_jvs db) - {j})"
  by (auto simp: put_jv_def image_iff distinct_map inj_on_def)

lemma emit_journal_event_facts [simp]:
  "jd_jvs (emit_journal_event en j u r x ps db) = jd_jvs db" "jd_lines (emit_journal_event en j u r x ps db) = jd_lines db"
  "jd_events (emit_journal_event en j u r x ps db) = jd_events db" "jd_gl (emit_journal_event en j u r x ps db) = jd_gl db"
  "utcnow db < utcnow (emit_journal_event en j u r x ps db)" "next_uuid db < next_uuid (emit_journal_event en j u r x ps db)"
  by (simp_all add: emit_journal_event_def utcnow_def next_uuid_def emit_governance_event_facts)

text \<open>Nothing but the clock, the ids and other tables changed.\<close>

definition same_vouchers :: "journal_db \<Rightarrow> journal_db \<Rightarrow> bool" where
  "same_vouchers db db' \<longleftrightarrow> jd_jvs db' = jd_jvs db \<and> jd_lines db' = jd_lines db \<and> jd_events db' = jd_events db
     \<and> utcnow db \<le> utcnow db' \<and> next_uuid db \<le> next_uuid db'"

lemma same_vouchers_ok: "same_vouchers db db' \<Longrightarrow> vouchers_ok db \<Longrightarrow> vouchers_ok db'"
  by (auto simp: same_vouchers_def vouchers_ok_def events_of_def dest: order_less_le_trans)

lemma same_vouchers_later: "same_vouchers db db' \<Longrightarrow> later db db'"
  by (simp add: same_vouchers_def later_def)

lemma last_event_last:
  assumes "vouchers_ok db"
  shows "last_event i db = (if events_of i db = [] then None else Some (last (events_of i db)))"
proof -
  have "sorted_wrt (<) (map je_occurred_at (events_of i db))"
    using assms by (simp add: vouchers_ok_def events_of_def sorted_wrt_map sorted_wrt_filter)
  then show ?thesis unfolding last_event_def events_of_def [symmetric] by (rule latest_by_sorted)
qed

text \<open>An event of the given voucher, time and columns is appended; the tables are otherwise those of \<open>db\<close>.\<close>

definition appends_event :: "jv \<Rightarrow> journal_status \<Rightarrow> journal_status \<Rightarrow> uuid \<Rightarrow> journal_db \<Rightarrow> journal_db \<Rightarrow> bool" where
  "appends_event jv s s' u db db' \<longleftrightarrow> (\<exists>e. jd_events db' = jd_events db @ [e] \<and> je_jv_id e = jv_id jv
     \<and> je_from_status e = s \<and> je_to_status e = s' \<and> je_triggered_by e = u
     \<and> je_previous_hash e = (case last_event (jv_id jv) db of None \<Rightarrow> [] | Some p \<Rightarrow> je_chain_hash p)
     \<and> utcnow db \<le> je_occurred_at e \<and> je_occurred_at e < utcnow db')
     \<and> jd_jvs db' = jd_jvs db \<and> jd_lines db' = jd_lines db \<and> jd_gl db' = jd_gl db \<and> jd_entities db' = jd_entities db
     \<and> utcnow db < utcnow db' \<and> next_uuid db < next_uuid db'"

lemma append_state_event_appends:
  "append_state_event en se jv s s' u role c db = Inr db' \<Longrightarrow> appends_event jv s s' u db db'"
  by (auto simp: append_state_event_def appends_event_def Let_def result_simps split: option.split)

lemma append_journal_event_appends:
  "append_journal_event en se jv s s' u role c db = Inr db' \<Longrightarrow> appends_event jv s s' u db db'"
  by (auto simp: append_journal_event_def appends_event_def Let_def result_simps split: option.split)

text \<open>The step all handlers share: one voucher is rewritten, and one event leads from its old status to its new one.\<close>

lemma move_ok:
  assumes ok: "vouchers_ok db" and j: "j \<in> set (jd_jvs db)" and j': "jv_id j' = jv_id j"
    and same: "same_vouchers db db1" and ev: "appends_event j' (jv_status j) (jv_status j') u (put_jv j' db1) db2"
  shows "vouchers_ok db2 \<and> later db db2"
proof -
  obtain e where e: "jd_events db2 = jd_events db @ [e]" "je_jv_id e = jv_id j" "je_from_status e = jv_status j"
    "je_to_status e = jv_status j'" "je_previous_hash e = (case last_event (jv_id j) (put_jv j' db1) of None \<Rightarrow> [] | Some p \<Rightarrow> je_chain_hash p)"
    "utcnow db1 \<le> je_occurred_at e" "je_occurred_at e < utcnow db2"
    and rest: "jd_jvs db2 = jd_jvs (put_jv j' db1)" "jd_lines db2 = jd_lines db" "utcnow db1 < utcnow db2" "next_uuid db1 < next_uuid db2"
    using ev same j' by (auto simp: appends_event_def same_vouchers_def)
  have mono: "utcnow db \<le> utcnow db1" "next_uuid db \<le> next_uuid db1" "jd_jvs db1 = jd_jvs db"
    using same by (simp_all add: same_vouchers_def)
  have ok1: "vouchers_ok db1" by (rule same_vouchers_ok [OF same ok])
  have dist: "distinct (map jv_id (jd_jvs db1))" and j1: "j \<in> set (jd_jvs db1)"
    using ok1 j mono(3) by (simp_all add: vouchers_ok_def)
  have set: "set (jd_jvs db2) = insert j' (set (jd_jvs db) - {j})"
    using put_jv_set [OF dist j1 j'] rest(1) mono(3) by simp
  have evs: "events_of i db2 = events_of i db @ (if i = jv_id j then [e] else [])" for i
    using e(1,2) by (simp add: events_of_def)
  have "last_event (jv_id j) (put_jv j' db1) = last_event (jv_id j) db"
    using same by (simp add: last_event_def same_vouchers_def)
  then have prev: "je_previous_hash e = log_head (events_of (jv_id j) db)"
    using e(5) last_event_last [OF ok, of "jv_id j"] by (simp add: log_head_def)
  have r: "replays DRAFT [] (events_of (jv_id j) db) (jv_status j) (log_head (events_of (jv_id j) db))"
    using ok j by (simp add: vouchers_ok_def)
  have mine: "replays DRAFT [] (events_of (jv_id j') db2) (jv_status j') (log_head (events_of (jv_id j') db2))"
    using r e(3,4) prev by (simp add: evs j' replays_snoc log_head_def [of "_ @ [_]"])
  have other: "replays DRAFT [] (events_of (jv_id k) db2) (jv_status k) (log_head (events_of (jv_id k) db2))"
    if "k \<in> set (jd_jvs db) - {j}" for k
  proof -
    have "jv_id k \<noteq> jv_id j" using that dist j mono(3) by (auto simp: distinct_map inj_on_def)
    then show ?thesis using that ok by (simp add: evs vouchers_ok_def)
  qed
  have "jv_id k < next_uuid db2" if "k \<in> set (jd_jvs db2)" for k
  proof -
    have "jv_id k < next_uuid db" using that ok j j' unfolding set by (auto simp: vouchers_ok_def)
    then show ?thesis using mono(2) rest(4) by linarith
  qed
  moreover have "je_occurred_at x < utcnow db2 \<and> je_jv_id x < next_uuid db2" if "x \<in> set (jd_events db2)" for x
  proof -
    have "x = e \<or> (je_occurred_at x < utcnow db \<and> je_jv_id x < next_uuid db)" using that ok e(1) by (auto simp: vouchers_ok_def)
    moreover have "jv_id j < next_uuid db" using ok j by (simp add: vouchers_ok_def)
    ultimately show ?thesis using e(2,7) mono rest(3,4) by auto
  qed
  moreover have "sorted_wrt (<) (map je_occurred_at (jd_events db2))"
    using ok e(1,6) mono(1) by (fastforce simp: vouchers_ok_def sorted_wrt_append)
  moreover have "\<forall>k \<in> set (jd_jvs db2). replays DRAFT [] (events_of (jv_id k) db2) (jv_status k) (log_head (events_of (jv_id k) db2))"
    unfolding set using mine other by blast
  moreover have "distinct (map jv_id (jd_jvs db2))" using dist rest(1) by simp
  moreover have "\<forall>l \<in> set (jd_lines db2). stored_line l \<and> jl_jv_id l < next_uuid db2"
    using ok mono(2) rest(2,4) by (fastforce simp: vouchers_ok_def)
  ultimately have "vouchers_ok db2" unfolding vouchers_ok_def by blast
  then show ?thesis using mono rest by (auto simp: later_def)
qed

section \<open>Lines\<close>

lemma numeric_20_4_facts:
  assumes "numeric_20_4 x = Inr y"
  shows "micro y" and "\<bar>y\<bar> < 10 ^ 16" and "0 \<le> x \<Longrightarrow> 0 \<le> y" and "numeric_20_4 y = Inr y"
proof -
  define k where "k = round_half_up (x * 10 ^ 4)"
  have k: "y = of_int k / 10 ^ 4" "\<bar>k\<bar> < 10 ^ 20"
    using assms unfolding numeric_20_4_def k_def [symmetric] by (auto simp: Let_def split: if_splits)
  have "y * 10 ^ 4 = of_int k" unfolding k(1) by simp
  then show "numeric_20_4 y = Inr y" unfolding numeric_20_4_def using k by (simp add: round_half_up_of_int Let_def)
  have "y = of_int (100 * k) / 10 ^ 6" unfolding k(1) by simp
  then show "micro y" unfolding micro_iff by blast
  have "\<bar>rat_of_int k\<bar> < 10 ^ 20" using k(2) by (metis of_int_abs of_int_less_iff of_int_numeral of_int_power)
  then show "\<bar>y\<bar> < 10 ^ 16" unfolding k(1) by simp
  show "0 \<le> y" if "0 \<le> x"
  proof -
    have "round_half_up (of_int 0) \<le> k" unfolding k_def by (rule round_half_up_mono) (use that in simp)
    then have "0 \<le> k" by (simp only: round_half_up_of_int)
    then show ?thesis unfolding k(1) by simp
  qed
qed

lemma to_decimal_Inr: "to_decimal v = Inr x \<longleftrightarrow> v = Some x \<and> 0 \<le> x"
  by (auto simp: to_decimal_def split: option.splits)

text \<open>What a line that was built and stored says of its dictionary and its voucher.\<close>

definition line_from :: "jv \<Rightarrow> line_data \<Rightarrow> jv_line \<Rightarrow> bool" where
  "line_from jv d l \<longleftrightarrow> stored_line l \<and> jl_jv_id l = jv_id jv \<and> jl_jv_version l = jv_version jv
     \<and> Some (jl_entry_type l) = entry_named (py_upper (py_str (py_get (ld_entry_type d) (Some []))))
     \<and> jl_account_code l = py_str (py_get (ld_account_code d) (Some []))
     \<and> (\<forall>b. ld_base_amount d = Some (Some b) \<longrightarrow> numeric_20_4 b = Inr (ledger_amount l))"

lemma build_store_line:
  assumes "build_line en ctx jv idx i h d = Inr l" and "store_line l = Inr l'"
  shows "line_from jv d l'" and "jl_line_number l' = idx"
proof -
  obtain e amount fx amount_inr base where e: "entry_named (py_upper (py_str (py_get (ld_entry_type d) (Some [])))) = Some e"
    and a: "0 < amount" and b: "py_get (ld_base_amount d) (Some amount_inr) = Some base" "0 \<le> base"
    and l: "jl_entry_type l = e" "jl_amount l = amount" "jl_base_amount l = Some base" "jl_jv_id l = jv_id jv"
      "jl_jv_version l = jv_version jv" "jl_account_code l = py_str (py_get (ld_account_code d) (Some []))" "jl_line_number l = idx"
    using assms(1) by (fastforce simp: build_line_def result_simps Let_def to_decimal_Inr split: option.splits if_splits)
  obtain amount' base' where s: "numeric_20_4 amount = Inr amount'" "numeric_20_4 base = Inr base'"
    and l': "jl_amount l' = amount'" "jl_base_amount l' = Some base'" "jl_entry_type l' = e" "jl_jv_id l' = jv_id jv"
      "jl_jv_version l' = jv_version jv" "jl_account_code l' = jl_account_code l" "jl_line_number l' = idx"
    using assms(2) l by (auto simp: store_line_def result_simps optionE_def)
  have "stored_line l'"
    using numeric_20_4_facts [OF s(1)] numeric_20_4_facts [OF s(2)] a b(2) l'
    by (auto simp: stored_line_def ledger_amount_def)
  moreover have "numeric_20_4 b' = Inr (ledger_amount l')" if "ld_base_amount d = Some (Some b')" for b'
    using that b(1) s(2) l' by (simp add: py_get_def ledger_amount_def)
  ultimately show "line_from jv d l'" using e l l' by (simp add: line_from_def)
  show "jl_line_number l' = idx" by (rule l'(7))
qed

lemma build_lines_stored:
  "build_lines en ctx jv idx i h ds = Inr ls \<Longrightarrow> mapE store_line ls = Inr ls'
   \<Longrightarrow> list_all2 (line_from jv) ds ls' \<and> map jl_line_number ls' = [idx..<idx + length ds]"
proof (induction ds arbitrary: idx i h ls ls')
  case (Cons d ds)
  obtain l rest where l: "build_line en ctx jv idx i h d = Inr l" and r: "build_lines en ctx jv (idx + 1) (i + 1) (jl_chain_hash l) ds = Inr rest"
    and ls: "ls = l # rest" using Cons.prems(1) by (auto simp: result_simps)
  obtain l' rest' where s: "store_line l = Inr l'" "mapE store_line rest = Inr rest'" "ls' = l' # rest'"
    using Cons.prems(2) ls by (auto simp: result_simps)
  have "[idx..<idx + length (d # ds)] = idx # [idx + 1..<idx + 1 + length ds]" by (simp add: upt_rec [of idx] del: upt_Suc)
  then show ?case using Cons.IH [OF r s(2)] build_store_line [OF l s(1)] s(3) by (simp del: upt_Suc)
qed simp

definition appends_lines :: "jv \<Rightarrow> line_data list \<Rightarrow> jv \<Rightarrow> journal_db \<Rightarrow> journal_db \<Rightarrow> bool" where
  "appends_lines jv ds jv' db db' \<longleftrightarrow> (\<exists>ls d c. jd_lines db' = jd_lines db @ ls \<and> list_all2 (line_from jv) ds ls
       \<and> map jl_line_number ls = [1..<1 + length ds] \<and> jv' = jv\<lparr>jv_total_debit := d, jv_total_credit := c\<rparr>)
     \<and> jd_jvs db' = jd_jvs (put_jv jv' db) \<and> jd_events db' = jd_events db \<and> jd_gl db' = jd_gl db
     \<and> jd_entities db' = jd_entities db \<and> utcnow db \<le> utcnow db' \<and> next_uuid db \<le> next_uuid db'"

lemma append_lines_facts:
  assumes "append_lines en se jv ds db = Inr (jv', db')"
  shows "appends_lines jv ds jv' db db'"
proof -
  obtain ctx lines stored d c where ls: "build_lines en ctx jv 1 (next_uuid db) (jv_chain_hash jv) ds = Inr lines"
    "mapE store_line lines = Inr stored" and jv': "jv' = jv\<lparr>jv_total_debit := d, jv_total_credit := c\<rparr>"
    and db': "db' = put_jv jv' ((jd_tick ^^ length ds) (db\<lparr>jd_lines := jd_lines db @ stored\<rparr>))"
    using assms by (auto simp: append_lines_def result_simps Let_def)
  have "jd_jvs db' = jd_jvs (put_jv jv' db)" by (simp add: db' put_jv_def)
  then show ?thesis using build_lines_stored [OF ls] jv' by (auto simp: appends_lines_def db')
qed

section \<open>Vouchers that change without an event\<close>

lemma rewrite_ok:
  assumes ok: "vouchers_ok db" and j: "j \<in> set (jd_jvs db)" and j': "jv_id j' = jv_id j" "jv_status j' = jv_status j"
  shows "vouchers_ok (put_jv j' db)"
proof -
  have set: "set (jd_jvs (put_jv j' db)) = insert j' (set (jd_jvs db) - {j})"
    by (rule put_jv_set) (use ok j j' in \<open>simp_all add: vouchers_ok_def\<close>)
  show ?thesis using ok j j' unfolding vouchers_ok_def set by auto
qed

lemma add_lines_ok:
  assumes "vouchers_ok db" and "jd_jvs db' = jd_jvs db" and "jd_events db' = jd_events db" and "jd_lines db' = jd_lines db @ ls"
    and "\<forall>l \<in> set ls. stored_line l \<and> jl_jv_id l < next_uuid db" and "utcnow db \<le> utcnow db'" and "next_uuid db \<le> next_uuid db'"
  shows "vouchers_ok db'"
  using assms by (auto simp: vouchers_ok_def events_of_def dest: order_less_le_trans)

lemma appends_lines_ok:
  assumes ok: "vouchers_ok db" and j: "j \<in> set (jd_jvs db)" "jv_id jv = jv_id j" "jv_status jv = jv_status j"
    and a: "appends_lines jv ds jv' db db'"
  shows "vouchers_ok db' \<and> later db db' \<and> set (jd_jvs db') = insert jv' (set (jd_jvs db) - {j})"
proof -
  obtain ls d c where ls: "jd_lines db' = jd_lines db @ ls" "list_all2 (line_from jv) ds ls"
    and jv': "jv' = jv\<lparr>jv_total_debit := d, jv_total_credit := c\<rparr>"
    and rest: "jd_jvs db' = jd_jvs (put_jv jv' db)" "jd_events db' = jd_events db" "utcnow db \<le> utcnow db'" "next_uuid db \<le> next_uuid db'"
    using a by (auto simp: appends_lines_def)
  have "vouchers_ok (put_jv jv' db)" by (rule rewrite_ok [OF ok j(1)]) (simp_all add: jv' j)
  moreover have "jv_id j < next_uuid db" using ok j(1) by (simp add: vouchers_ok_def)
  then have "\<forall>l \<in> set ls. stored_line l \<and> jl_jv_id l < next_uuid db"
    using ls(2) j(2) by (auto simp: list_all2_conv_all_nth in_set_conv_nth line_from_def)
  ultimately have "vouchers_ok db'" using ls(1) rest by (intro add_lines_ok [of "put_jv jv' db" db' ls]) simp_all
  moreover have "set (jd_jvs db') = insert jv' (set (jd_jvs db) - {j})"
    unfolding rest(1) by (rule put_jv_set) (use ok j jv' in \<open>simp_all add: vouchers_ok_def\<close>)
  ultimately show ?thesis using ls(1) rest by (simp add: later_def)
qed

text \<open>A new voucher: a draft without events.\<close>

lemma create_jv_ok:
  assumes ok: "vouchers_ok db" and c: "create_jv en se t inp db = Inr (j, db')"
  shows "vouchers_ok db' \<and> later db db'" and "set (jd_jvs db') = insert j (set (jd_jvs db))" and "jd_gl db' = jd_gl db"
    and "jv_status j = DRAFT" and "jv_id j = next_uuid db" and "jv_tenant_id j = t" and "jv_entity_id j = ji_entity_id inp"
    and "jv_version j = 1" and "jv_period_date j = ji_period_date inp" and "jv_created_by j = ji_created_by inp"
    and "jv_number j = generate_jv_number t (ji_fiscal_year inp) (ji_fiscal_period inp) db"
    and "\<exists>ls. jd_lines db' = jd_lines db @ ls \<and> list_all2 (line_from j) (ji_lines inp) ls \<and> map jl_line_number ls = [1..<1 + length (ji_lines inp)]"
    and "jd_entities db' = jd_entities db" and "jd_events db' = jd_events db"
proof -
  obtain ctx where ctx: "se_context se = Some ctx" using c by (auto simp: create_jv_def require_mutation_context_def split: option.splits)
  define v where "v = new_jv en se ctx t inp db"
  have v: "jv_status v = DRAFT" "jv_id v = next_uuid db" "jv_tenant_id v = t" "jv_entity_id v = ji_entity_id inp" "jv_version v = 1"
    "jv_period_date v = ji_period_date inp" "jv_created_by v = ji_created_by inp"
    "jv_number v = generate_jv_number t (ji_fiscal_year inp) (ji_fiscal_period inp) db"
    by (simp_all add: v_def new_jv_def)
  define db1 where "db1 = jd_tick (db\<lparr>jd_jvs := jd_jvs db @ [v]\<rparr>)"
  have f: "jd_jvs db1 = jd_jvs db @ [v]" "jd_lines db1 = jd_lines db" "jd_events db1 = jd_events db" "jd_gl db1 = jd_gl db"
    "utcnow db1 = utcnow db + 1" "next_uuid db1 = next_uuid db + 1" "jd_entities db1 = jd_entities db" "\<And>i. events_of i db1 = events_of i db"
    by (simp_all add: db1_def events_of_def)
  have none: "events_of (next_uuid db) db = []"
    using ok by (auto simp: vouchers_ok_def events_of_def filter_empty_conv)
  have fresh: "v \<notin> set (jd_jvs db)" "next_uuid db \<notin> jv_id ` set (jd_jvs db)"
    using ok v(2) by (auto simp: vouchers_ok_def)
  have ok1: "vouchers_ok db1"
    using ok fresh(2) unfolding vouchers_ok_def f by (auto simp: v none log_head_def less_SucI)
  have later1: "later db db1" using f by (simp add: later_def)
  have "(vouchers_ok db' \<and> later db db') \<and> set (jd_jvs db') = insert j (set (jd_jvs db)) \<and> jd_gl db' = jd_gl db
    \<and> (\<exists>d e u. j = v\<lparr>jv_total_debit := d, jv_total_credit := e, jv_updated_at := u\<rparr>)
    \<and> (\<exists>ls. jd_lines db' = jd_lines db @ ls \<and> list_all2 (line_from j) (ji_lines inp) ls \<and> map jl_line_number ls = [1..<1 + length (ji_lines inp)])
    \<and> jd_entities db' = jd_entities db \<and> jd_events db' = jd_events db"
  proof (cases "ji_lines inp = []")
    case True
    then have "j = v" "db' = db1"
      using c ctx by (auto simp: create_jv_def require_mutation_context_def Let_def result_simps v_def db1_def)
    moreover have "\<exists>d e u. v = v\<lparr>jv_total_debit := d, jv_total_credit := e, jv_updated_at := u\<rparr>"
      by (rule exI [of _ "jv_total_debit v"], rule exI [of _ "jv_total_credit v"], rule exI [of _ "jv_updated_at v"]) simp
    ultimately show ?thesis using ok1 later1 f True by simp
  next
    case False
    let ?v = "v\<lparr>jv_updated_at := se_started se\<rparr>"
    have a: "appends_lines ?v (ji_lines inp) j db1 db'"
      using c ctx False by (intro append_lines_facts [of en se])
        (auto simp: create_jv_def require_mutation_context_def Let_def result_simps v_def db1_def)
    have vin: "v \<in> set (jd_jvs db1)" by (simp add: f)
    have r: "vouchers_ok db' \<and> later db1 db' \<and> set (jd_jvs db') = insert j (set (jd_jvs db1) - {v})"
      by (rule appends_lines_ok [OF ok1 vin _ _ a]) simp_all
    obtain d e where j: "j = ?v\<lparr>jv_total_debit := d, jv_total_credit := e\<rparr>" using a by (auto simp: appends_lines_def)
    then have "line_from ?v = line_from j" by (auto simp: line_from_def fun_eq_iff)
    then have "\<exists>ls. jd_lines db' = jd_lines db @ ls \<and> list_all2 (line_from j) (ji_lines inp) ls \<and> map jl_line_number ls = [1..<1 + length (ji_lines inp)]"
      using a f(2) by (auto simp: appends_lines_def)
    moreover have "set (jd_jvs db') = insert j (set (jd_jvs db))" using r fresh(1) by (simp add: f)
    moreover have "\<exists>d e u. j = v\<lparr>jv_total_debit := d, jv_total_credit := e, jv_updated_at := u\<rparr>"
      by (rule exI [of _ d], rule exI [of _ e], rule exI [of _ "se_started se"]) (simp add: j)
    moreover have "later db db'" using later_trans [OF later1] r by blast
    ultimately show ?thesis using r a f by (auto simp: appends_lines_def)
  qed
  then show "vouchers_ok db' \<and> later db db'" and "set (jd_jvs db') = insert j (set (jd_jvs db))" and "jd_gl db' = jd_gl db"
    and "jv_status j = DRAFT" and "jv_id j = next_uuid db" and "jv_tenant_id j = t" and "jv_entity_id j = ji_entity_id inp"
    and "jv_version j = 1" and "jv_period_date j = ji_period_date inp" and "jv_created_by j = ji_created_by inp"
    and "jv_number j = generate_jv_number t (ji_fiscal_year inp) (ji_fiscal_period inp) db"
    and "\<exists>ls. jd_lines db' = jd_lines db @ ls \<and> list_all2 (line_from j) (ji_lines inp) ls \<and> map jl_line_number ls = [1..<1 + length (ji_lines inp)]"
    and "jd_entities db' = jd_entities db" and "jd_events db' = jd_events db"
    using v by auto
qed

section \<open>The ledger\<close>

text \<open>
  Entries with an entity come from journals; those of \<open>create_gl_entry\<close> have none.  The entries of one posting share tenant,
  entity and journal number, and balance; they do not share a creation time.
\<close>

definition from_journal :: "gl_entry \<Rightarrow> bool" where
  "from_journal g \<longleftrightarrow> ge_entity_id g \<noteq> None"

definition block_key :: "gl_entry \<Rightarrow> uuid \<times> uuid option \<times> string option" where
  "block_key g = (ge_tenant_id g, ge_entity_id g, ge_source_ref g)"

definition proper_entry :: "gl_entry \<Rightarrow> bool" where
  "proper_entry g \<longleftrightarrow> micro (ge_debit_amount g) \<and> micro (ge_credit_amount g) \<and> 0 \<le> ge_debit_amount g \<and> 0 \<le> ge_credit_amount g
     \<and> (ge_debit_amount g = 0 \<or> ge_credit_amount g = 0)"

definition balanced_block :: "gl_entry list \<Rightarrow> bool" where
  "balanced_block b \<longleftrightarrow> (\<exists>k. \<forall>g \<in> set b. block_key g = k) \<and> (\<forall>g \<in> set b. proper_entry g \<and> from_journal g)
     \<and> sum_list (map ge_debit_amount b) = sum_list (map ge_credit_amount b)"

definition ledger_ok :: "journal_db \<Rightarrow> bool" where
  "ledger_ok db \<longleftrightarrow> (\<exists>bs. filter from_journal (jd_gl db) = concat bs \<and> (\<forall>b \<in> set bs. balanced_block b))
     \<and> (\<forall>g \<in> set (jd_gl db). micro (ge_debit_amount g) \<and> micro (ge_credit_amount g))"

lemma ledger_ok_same: "jd_gl db' = jd_gl db \<Longrightarrow> ledger_ok db \<Longrightarrow> ledger_ok db'"
  by (simp add: ledger_ok_def)

lemma ledger_ok_block:
  assumes "ledger_ok db" and "jd_gl db' = jd_gl db @ b" and "balanced_block b"
  shows "ledger_ok db'"
proof -
  obtain bs where bs: "filter from_journal (jd_gl db) = concat bs" "\<forall>b \<in> set bs. balanced_block b" using assms(1) by (auto simp: ledger_ok_def)
  have "filter from_journal b = b" using assms(3) by (auto simp: balanced_block_def filter_id_conv)
  then have "filter from_journal (jd_gl db') = concat (bs @ [b])" by (simp add: assms(2) bs(1))
  moreover have "\<forall>x \<in> set (bs @ [b]). balanced_block x" using bs(2) assms(3) by simp
  moreover have "\<forall>g \<in> set b. micro (ge_debit_amount g) \<and> micro (ge_credit_amount g)"
    using assms(3) by (auto simp: balanced_block_def proper_entry_def)
  then have "\<forall>g \<in> set (jd_gl db'). micro (ge_debit_amount g) \<and> micro (ge_credit_amount g)"
    using assms(1) by (auto simp: assms(2) ledger_ok_def)
  ultimately show ?thesis unfolding ledger_ok_def by blast
qed

lemma ledger_ok_import:
  assumes "ledger_ok db" and "jd_gl db' = jd_gl db @ [g]" and "\<not> from_journal g"
    and "micro (ge_debit_amount g)" and "micro (ge_credit_amount g)"
  shows "ledger_ok db'"
  using assms by (auto simp: ledger_ok_def)

text \<open>A selection that takes each posting of the ledger as a whole balances too.\<close>

lemma sum_selected:
  assumes "\<forall>b \<in> set bs. balanced_block b"
    and "\<And>g g'. g \<in> set (concat bs) \<Longrightarrow> g' \<in> set (concat bs) \<Longrightarrow> block_key g = block_key g' \<Longrightarrow> P g = P g'"
  shows "sum_list (map ge_debit_amount (filter P (concat bs))) = sum_list (map ge_credit_amount (filter P (concat bs)))"
  using assms
proof (induction bs)
  case (Cons b bs)
  have b: "balanced_block b" using Cons.prems(1) by simp
  have "P g = P g'" if "g \<in> set b" "g' \<in> set b" for g g'
    using that b Cons.prems(2) [of g g'] by (auto simp: balanced_block_def)
  then have "(\<forall>g \<in> set b. P g) \<or> (\<forall>g \<in> set b. \<not> P g)" by blast
  then have "filter P b = b \<or> filter P b = []" by (auto simp: filter_empty_conv)
  then have "sum_list (map ge_debit_amount (filter P b)) = sum_list (map ge_credit_amount (filter P b))"
    using b by (auto simp: balanced_block_def)
  moreover have "sum_list (map ge_debit_amount (filter P (concat bs))) = sum_list (map ge_credit_amount (filter P (concat bs)))"
    by (rule Cons.IH) (use Cons.prems in auto)
  ultimately show ?case by simp
qed simp

definition entry_from :: "jv \<Rightarrow> cp_entity \<Rightarrow> jv_line \<Rightarrow> gl_entry \<Rightarrow> bool" where
  "entry_from jv entity l g \<longleftrightarrow> ge_account_code g = jl_account_code l
     \<and> ge_debit_amount g = (if jl_entry_type l = DEBIT then ledger_amount l else 0)
     \<and> ge_credit_amount g = (if jl_entry_type l = CREDIT then ledger_amount l else 0)
     \<and> block_key g = (jv_tenant_id jv, Some (ce_id entity), Some (jv_number jv)) \<and> proper_entry g"

lemma numeric_20_6_exact: "micro x \<Longrightarrow> numeric_20_6 x = Inr y \<Longrightarrow> y = x"
  by (auto simp: numeric_20_6_def micro_iff split: if_splits)

lemma gl_entry_of_facts:
  assumes "gl_entry_of en se ctx jv entity u d i now h l = Inr g" and "stored_line l"
  shows "entry_from jv entity l g"
proof -
  have m: "micro (ledger_amount l)" "0 \<le> ledger_amount l" using assms(2) by (simp_all add: stored_line_def)
  obtain x y where x: "numeric_20_6 (if jl_entry_type l = DEBIT then ledger_amount l else 0) = Inr x"
    and y: "numeric_20_6 (if jl_entry_type l = CREDIT then ledger_amount l else 0) = Inr y"
    and g: "ge_debit_amount g = x" "ge_credit_amount g = y" "ge_account_code g = jl_account_code l"
      "block_key g = (jv_tenant_id jv, Some (ce_id entity), Some (jv_number jv))"
    using assms(1) by (fastforce simp: gl_entry_of_def Let_def result_simps block_key_def)
  have "x = (if jl_entry_type l = DEBIT then ledger_amount l else 0)" by (rule numeric_20_6_exact [OF _ x]) (simp add: m)
  moreover have "y = (if jl_entry_type l = CREDIT then ledger_amount l else 0)" by (rule numeric_20_6_exact [OF _ y]) (simp add: m)
  ultimately show ?thesis using g m by (simp add: entry_from_def proper_entry_def)
qed

lemma gl_entries_of_facts:
  "gl_entries_of en se ctx jv entity u d i now h ls = Inr gs \<Longrightarrow> \<forall>l \<in> set ls. stored_line l
   \<Longrightarrow> list_all2 (entry_from jv entity) ls gs"
  by (induction ls arbitrary: i now h gs) (auto simp: result_simps gl_entry_of_facts)

lemma entries_sums:
  "list_all2 (entry_from jv entity) ls gs
   \<Longrightarrow> sum_list (map ge_debit_amount gs) = sum_list (map ledger_amount (filter (\<lambda>l. jl_entry_type l = DEBIT) ls))
     \<and> sum_list (map ge_credit_amount gs) = sum_list (map ledger_amount (filter (\<lambda>l. jl_entry_type l = CREDIT) ls))"
  by (induction rule: list_all2_induct) (auto simp: entry_from_def)

lemma side_total_exact:
  assumes "\<forall>l \<in> set ls. stored_line l" and "length ls < 10 ^ 6"
  shows "side_total ledger_amount side ls = sum_list (map ledger_amount (filter (\<lambda>l. jl_entry_type l = side) ls))"
proof -
  let ?xs = "map ledger_amount (filter (\<lambda>l. jl_entry_type l = side) ls)"
  have "sum_list (map abs ?xs) \<le> of_nat (length ?xs) * 10 ^ 16"
    using assms(1) by (induction ls) (auto simp: stored_line_def algebra_simps)
  also have "\<dots> < 10 ^ 6 * 10 ^ 16"
  proof -
    have "length ?xs < 10 ^ 6" using assms(2) by (metis length_filter_le length_map order_le_less_trans)
    then have "(of_nat (length ?xs) :: rat) < 10 ^ 6" by (metis of_nat_less_iff of_nat_numeral of_nat_power)
    then show ?thesis by simp
  qed
  finally have "sum_list (map abs ?xs) < 10 ^ 22" by simp
  then show ?thesis unfolding side_total_def using assms(1) by (intro dsum_exact) (auto simp: stored_line_def)
qed

definition few_lines :: "journal_db \<Rightarrow> bool" where
  "few_lines db \<longleftrightarrow> (\<forall>i. length (lines_of i db) < 10 ^ 6)"

lemma later_few: "later db db' \<Longrightarrow> few_lines db' \<Longrightarrow> few_lines db"
proof -
  assume l: "later db db'" and few: "few_lines db'"
  show "few_lines db"
    unfolding few_lines_def
  proof
    fix i
    have "length (lines_of i db) \<le> length (lines_of i db')" using l by (auto simp: later_def lines_of_def)
    then show "length (lines_of i db) < 10 ^ 6" using few by (meson few_lines_def order_le_less_trans)
  qed
qed

lemma active_lines_in:
  "set (active_journal_lines jv db) \<subseteq> {l \<in> set (jd_lines db). jl_jv_id l = jv_id jv}"
  "length (active_journal_lines jv db) \<le> length (lines_of (jv_id jv) db)"
proof -
  show "set (active_journal_lines jv db) \<subseteq> {l \<in> set (jd_lines db). jl_jv_id l = jv_id jv}"
    by (auto simp: active_journal_lines_def lines_of_def Let_def)
  show "length (active_journal_lines jv db) \<le> length (lines_of (jv_id jv) db)"
    unfolding active_journal_lines_def Let_def length_sort by (rule length_filter_le)
qed

definition appends_entries :: "jv \<Rightarrow> cp_entity \<Rightarrow> journal_db \<Rightarrow> journal_db \<Rightarrow> bool" where
  "appends_entries jv entity db db' \<longleftrightarrow> (\<exists>rows. jd_gl db' = jd_gl db @ rows
     \<and> list_all2 (entry_from jv entity) (active_journal_lines jv db) rows \<and> (few_lines db \<longrightarrow> balanced_block rows))
     \<and> same_vouchers db db'"

lemma append_gl_entries_facts:
  assumes "append_gl_entries en se jv entity u d db = Inr db'" and ok: "\<forall>l \<in> set (jd_lines db). stored_line l"
  shows "appends_entries jv entity db db'"
proof -
  let ?ls = "active_journal_lines jv db"
  obtain ctx gs where bal: "side_total ledger_amount DEBIT ?ls = side_total ledger_amount CREDIT ?ls"
    and gs: "gl_entries_of en se ctx jv entity u d (next_uuid db) (utcnow db) (jv_chain_hash jv) ?ls = Inr gs"
    and db': "db' = (jd_tick ^^ length ?ls) (db\<lparr>jd_gl := jd_gl db @ gs\<rparr>)"
    using assms(1) by (auto simp: append_gl_entries_def Let_def result_simps)
  have st: "\<forall>l \<in> set ?ls. stored_line l" using ok active_lines_in(1) [of jv db] by blast
  have e: "list_all2 (entry_from jv entity) ?ls gs" by (rule gl_entries_of_facts [OF gs st])
  have "balanced_block gs" if few: "few_lines db"
  proof -
    have "length ?ls < 10 ^ 6" using few active_lines_in(2) [of jv db] by (metis few_lines_def order_le_less_trans)
    then have "sum_list (map ge_debit_amount gs) = sum_list (map ge_credit_amount gs)"
      using bal side_total_exact [OF st] entries_sums [OF e] by metis
    moreover have "\<forall>g \<in> set gs. block_key g = (jv_tenant_id jv, Some (ce_id entity), Some (jv_number jv)) \<and> proper_entry g \<and> from_journal g"
      using e by (auto simp: list_all2_conv_all_nth in_set_conv_nth entry_from_def block_key_def from_journal_def)
    ultimately show ?thesis unfolding balanced_block_def by blast
  qed
  then show ?thesis using e by (auto simp: appends_entries_def db' same_vouchers_def)
qed

section \<open>Every handler preserves the invariants\<close>

definition sound :: "journal_db \<Rightarrow> journal_db \<Rightarrow> bool" where
  "sound db db' \<longleftrightarrow> vouchers_ok db' \<and> later db db' \<and> (few_lines db' \<longrightarrow> ledger_ok db \<longrightarrow> ledger_ok db')"

lemma sound_trans: "sound db db1 \<Longrightarrow> sound db1 db2 \<Longrightarrow> sound db db2"
  using later_trans later_few by (auto simp: sound_def)

lemma sound_same: "same_vouchers db db' \<Longrightarrow> jd_gl db' = jd_gl db \<Longrightarrow> vouchers_ok db \<Longrightarrow> sound db db'"
  using same_vouchers_ok same_vouchers_later ledger_ok_same by (auto simp: sound_def)

lemma move_sound:
  assumes "vouchers_ok db" and "j \<in> set (jd_jvs db)" and "jv_id j' = jv_id j" and "same_vouchers db db1" and "jd_gl db1 = jd_gl db"
    and "appends_event j' (jv_status j) (jv_status j') u (put_jv j' db1) db2"
  shows "sound db db2"
  using move_ok [OF assms(1-4,6)] assms(5,6) ledger_ok_same [of db2 db] by (simp add: sound_def appends_event_def)

lemma emit_sound: "vouchers_ok db \<Longrightarrow> sound db (emit_journal_event en j u r x ps db)"
  by (rule sound_same) (auto simp: same_vouchers_def order_less_imp_le)

lemma emit_after:
  assumes "sound db db1"
  shows "sound db (emit_journal_event en j u r x ps db1)"
  by (rule sound_trans [OF assms emit_sound]) (use assms in \<open>simp add: sound_def\<close>)

lemma tick_same: "same_vouchers db (jd_tick db)"
  by (simp add: same_vouchers_def)

text \<open>
  Both services write the event log with a function of their own.  What the handlers rely on is the same: an event of
  the given columns is appended, and nothing else of the voucher tables changes.
\<close>

locale event_writer =
  fixes log_event :: "jv \<Rightarrow> journal_status \<Rightarrow> journal_status \<Rightarrow> uuid \<Rightarrow> journal_db \<Rightarrow> journal_db result"
  assumes appends: "log_event jv s s' u db = Inr db' \<Longrightarrow> appends_event jv s s' u db db'"
begin

lemma move:
  assumes "vouchers_ok db" and "j \<in> set (jd_jvs db)" and "jv_id j' = jv_id j" and "jv_status j' = s"
    and "log_event j' (jv_status j) s u (put_jv j' (jd_tick db)) = Inr db1"
  shows "sound db db1"
  by (rule move_sound [OF assms(1-3) tick_same]) (use appends [OF assms(5)] assms(4) in simp_all)

lemma move_frame:
  assumes ok: "vouchers_ok db" and j: "j \<in> set (jd_jvs db)" "jv_id j' = jv_id j"
    and e: "log_event j' s s' u (put_jv j' (jd_tick db)) = Inr db1"
  shows "set (jd_jvs db1) = insert j' (set (jd_jvs db) - {j})" and "jd_lines db1 = jd_lines db" and "jd_gl db1 = jd_gl db"
    and "\<exists>x. jd_events db1 = jd_events db @ [x] \<and> je_jv_id x = jv_id j \<and> je_from_status x = s \<and> je_to_status x = s' \<and> je_triggered_by x = u"
proof -
  have "set (jd_jvs (put_jv j' (jd_tick db))) = insert j' (set (jd_jvs (jd_tick db)) - {j})"
    by (rule put_jv_set) (use ok j in \<open>simp_all add: vouchers_ok_def\<close>)
  then show "set (jd_jvs db1) = insert j' (set (jd_jvs db) - {j})"
    using appends [OF e] by (simp add: appends_event_def)
  show "jd_lines db1 = jd_lines db" and "jd_gl db1 = jd_gl db"
    and "\<exists>x. jd_events db1 = jd_events db @ [x] \<and> je_jv_id x = jv_id j \<and> je_from_status x = s \<and> je_to_status x = s' \<and> je_triggered_by x = u"
    using appends [OF e] j(2) by (auto simp: appends_event_def)
qed

end

interpretation voucher_log: event_writer "\<lambda>jv s s' u db. append_state_event en se jv s s' u role c db" for en se role c
  by unfold_locales (rule append_state_event_appends)

interpretation journal_log: event_writer "\<lambda>jv s s' u db. append_journal_event en se jv s s' u role c db" for en se role c
  by unfold_locales (rule append_journal_event_appends)

lemma get_jv_in: "get_jv i t db = Inr j \<Longrightarrow> j \<in> set (jd_jvs db) \<and> jv_id j = i \<and> jv_tenant_id j = t"
  by (auto simp: get_jv_def split: option.splits dest!: find_Some_in)

lemma get_journal_in: "get_journal_aggregate t i db = Inr j \<Longrightarrow> j \<in> set (jd_jvs db) \<and> jv_id j = i \<and> jv_tenant_id j = t"
  by (auto simp: get_journal_aggregate_def split: option.splits dest!: find_Some_in)

lemma transitioned_columns [simp]:
  "jv_id (transitioned j s now u c) = jv_id j" "jv_status (transitioned j s now u c) = s"
  "jv_tenant_id (transitioned j s now u c) = jv_tenant_id j" "jv_version (transitioned j s now u c) = jv_version j + 1"
  "jv_created_by (transitioned j s now u c) = jv_created_by j"
  "jv_resubmission_count (transitioned j s now u c) = count_after s (jv_resubmission_count j)"
  by (simp_all add: transitioned_def)

lemma transition_elim:
  assumes "transition_jv en se i t to_status u role v c adm db = Inr (j', db')"
  obtains j s where "get_jv i t db = Inr j" and "jv_version j = v"
    and "validate_transition \<lparr>tq_from_status = jv_status j, tq_to_status = transition_target to_status (jv_resubmission_count j),
       tq_triggered_by_role = role, tq_is_admin = adm, tq_comment = c, tq_resubmission_count = jv_resubmission_count j\<rparr> = Inr s"
    and "s = SUBMITTED \<Longrightarrow> validate_ready_to_submit j db = Inr ()" and "j' = transitioned j s (utcnow db) u c"
    and "append_state_event en se j' (jv_status j) s u role c (put_jv j' (jd_tick db)) = Inr db'"
proof -
  obtain ctx j s where g: "get_jv i t db = Inr j" "jv_version j = v"
    and val: "validate_transition \<lparr>tq_from_status = jv_status j, tq_to_status = transition_target to_status (jv_resubmission_count j),
       tq_triggered_by_role = role, tq_is_admin = adm, tq_comment = c, tq_resubmission_count = jv_resubmission_count j\<rparr> = Inr s"
    and ready: "(if s = SUBMITTED then validate_ready_to_submit j db else Inr ()) = Inr ()"
    and j': "j' = transitioned j s (utcnow db) u c"
    and ev: "append_state_event en se (transitioned j s (utcnow db) u c) (jv_status j) s u role c
        (put_jv (transitioned j s (utcnow db) u c) (jd_tick db)) = Inr db'"
    using assms unfolding transition_jv_def by (auto simp: result_simps Let_def check_optimistic_lock_def)
  show thesis by (rule that [OF g(1,2) val _ j' ev [folded j']]) (use ready in simp)
qed

lemma transition_sound:
  assumes ok: "vouchers_ok db" and tr: "transition_jv en se i t to_status u role v c adm db = Inr (j', db')"
  shows "sound db db'"
  using tr
proof (rule transition_elim)
  fix j s assume g: "get_jv i t db = Inr j" and j': "j' = transitioned j s (utcnow db) u c"
    and ev: "append_state_event en se j' (jv_status j) s u role c (put_jv j' (jd_tick db)) = Inr db'"
  show "sound db db'" by (rule voucher_log.move [OF ok _ _ _ ev]) (use get_jv_in [OF g] j' in simp_all)
qed

lemma update_sound:
  assumes ok: "vouchers_ok db" and up: "update_jv_lines en se i t ds v db = Inr (j', db')"
  shows "sound db db'"
proof -
  obtain j where g: "get_jv i t db = Inr j"
    and a: "append_lines en se (j\<lparr>jv_version := jv_version j + 1, jv_updated_at := utcnow db\<rparr>) ds (jd_tick db) = Inr (j', db')"
    using up unfolding update_jv_lines_def by (auto simp: result_simps Let_def check_optimistic_lock_def)
  have ok1: "vouchers_ok (jd_tick db)" by (rule same_vouchers_ok [OF tick_same ok])
  have "vouchers_ok db' \<and> later (jd_tick db) db'"
    using appends_lines_ok [OF ok1 _ _ _ append_lines_facts [OF a], of j] get_jv_in [OF g] by simp
  moreover have "jd_gl db' = jd_gl db" using append_lines_facts [OF a] by (simp add: appends_lines_def)
  ultimately show ?thesis using later_trans [OF same_vouchers_later [OF tick_same [of db]]] ledger_ok_same [of db' db]
    by (simp add: sound_def)
qed

lemma create_sound: "vouchers_ok db \<Longrightarrow> create_jv en se t inp db = Inr (j, db') \<Longrightarrow> sound db db'"
  using create_jv_ok(1,3) [of db en se t inp j db'] ledger_ok_same [of db' db] by (simp add: sound_def)

lemma draft_sound:
  assumes ok: "vouchers_ok db" and d: "create_journal_draft en se t u rq src ext db = Inr (j, db')"
  shows "sound db db'"
proof -
  obtain inp db1 ps where "create_jv en se t inp db = Inr (j, db1)" "db' = emit_journal_event en j u None ''JOURNAL_DRAFT_CREATE'' ps db1"
    using d by (fastforce simp: create_journal_draft_def result_simps)
  then show ?thesis using create_sound [OF ok] emit_after by simp
qed

lemma approval_elim:
  assumes "submit_approval en se t rq db = Inr (a, db')"
  obtains jv decision db1 j' where "get_jv (dr_jv_id rq) t db = Inr jv" and "decision = py_upper (dr_decision rq)"
    and "decision \<in> {''APPROVED'', ''REJECTED''}"
    and "check_decision jv (dr_acted_by rq) (normalize_role (dr_actor_role rq)) decision = Inr ()"
    and "db1 = jd_tick (db\<lparr>jd_approvals := jd_approvals db @ [a]\<rparr>)"
    and "transition_jv en se (dr_jv_id rq) t decision (dr_acted_by rq) (normalize_role (dr_actor_role rq)) (dr_expected_version rq)
      (dr_decision_reason rq) (normalize_role (dr_actor_role rq) = ''ACCOUNTING_ADMIN'') db1 = Inr (j', db')"
  using assms unfolding submit_approval_def by (auto simp: result_simps Let_def intro: that)

lemma approval_sound:
  assumes ok: "vouchers_ok db" and d: "submit_approval en se t rq db = Inr (a, db')"
  shows "sound db db'"
  using d
proof (rule approval_elim)
  fix decision db1 j' assume db1: "db1 = jd_tick (db\<lparr>jd_approvals := jd_approvals db @ [a]\<rparr>)"
    and tr: "transition_jv en se (dr_jv_id rq) t decision (dr_acted_by rq) (normalize_role (dr_actor_role rq)) (dr_expected_version rq)
      (dr_decision_reason rq) (normalize_role (dr_actor_role rq) = ''ACCOUNTING_ADMIN'') db1 = Inr (j', db')"
  have "sound db db1" by (rule sound_same [OF _ _ ok]) (simp_all add: db1 same_vouchers_def)
  moreover from this have "vouchers_ok db1" by (simp add: sound_def)
  ultimately show "sound db db'" using transition_sound [OF _ tr] sound_trans by blast
qed

lemma open_journal_in:
  "open_journal se t i db = Inr j \<Longrightarrow> j \<in> set (jd_jvs db) \<and> jv_id j = i \<and> jv_tenant_id j = t"
  by (auto simp: open_journal_def result_simps dest: get_journal_in)

lemma approved_columns [simp]:
  "jv_id (approved j now) = jv_id j" "jv_status (approved j now) = APPROVED"
  "jv_created_by (approved j now) = jv_created_by j" "jv_number (approved j now) = jv_number j"
  "jv_tenant_id (approved j now) = jv_tenant_id j" "jv_entity_id (approved j now) = jv_entity_id j"
  "jv_version (approved j now) = jv_version j" "jv_period_date (approved j now) = jv_period_date j"
  by (simp_all add: Journal_Posting.approved_def)

lemma posted_columns_jv [simp]:
  "jv_id (posted j now) = jv_id j" "jv_status (posted j now) = PUSHED"
  "jv_number (posted j now) = jv_number j" "jv_tenant_id (posted j now) = jv_tenant_id j"
  by (simp_all add: Journal_Posting.posted_def)

lemma submit_sound:
  assumes ok: "vouchers_ok db" and d: "submit_journal en se t i u role' db = Inr (r, db')"
  shows "sound db db'"
proof -
  obtain j db1 where o: "open_journal se t i db = Inr j"
    and e: "append_journal_event en se (j\<lparr>jv_status := SUBMITTED, jv_submitted_at := Some (utcnow db), jv_updated_at := utcnow db\<rparr>)
        (jv_status j) SUBMITTED u (or_text role' ''ACCOUNTING_SUBMITTER'') ''Submitted via /accounting/journals/{id}/submit''
        (put_jv (j\<lparr>jv_status := SUBMITTED, jv_submitted_at := Some (utcnow db), jv_updated_at := utcnow db\<rparr>) (jd_tick db)) = Inr db1"
    and db': "db' = emit_journal_event en (j\<lparr>jv_status := SUBMITTED, jv_submitted_at := Some (utcnow db), jv_updated_at := utcnow db\<rparr>)
        u role' ''JOURNAL_SUBMIT'' [] db1"
    using d by (auto simp: submit_journal_def result_simps Let_def)
  have "sound db db1" by (rule journal_log.move [OF ok _ _ _ e]) (use open_journal_in [OF o] in simp_all)
  then show ?thesis unfolding db' by (rule emit_after)
qed

lemma review_sound:
  assumes ok: "vouchers_ok db" and d: "review_journal en se t i u role' db = Inr (r, db')"
  shows "sound db db'"
proof -
  obtain j j' db1 where o: "open_journal se t i db = Inr j"
    and j': "j' = j\<lparr>jv_status := UNDER_REVIEW, jv_first_reviewed_at := or_now (jv_first_reviewed_at j) (utcnow db), jv_updated_at := utcnow db\<rparr>"
    and e: "append_journal_event en se j' (jv_status j) UNDER_REVIEW u (or_text role' ''ACCOUNTING_REVIEWER'')
        ''Reviewed via /accounting/journals/{id}/review'' (put_jv j' (jd_tick db)) = Inr db1"
    and db': "db' = emit_journal_event en j' u role' ''JOURNAL_REVIEW'' [] db1"
    using d by (auto simp: review_journal_def result_simps Let_def)
  have "sound db db1" by (rule journal_log.move [OF ok _ _ _ e]) (use open_journal_in [OF o] j' in simp_all)
  then show ?thesis unfolding db' by (rule emit_after)
qed

lemma approve_elim:
  assumes "approve_journal en se t i u role' db = Inr (r, db')"
  obtains j where "open_journal se t i db = Inr j" and "jv_status j = APPROVED" and "db' = db"
  | j j' db1 ps where "open_journal se t i db = Inr j" and "\<not> is_posted_status (jv_status j)" and "jv_status j \<noteq> APPROVED"
    and "jv_status j \<in> insert SUBMITTED (set REVIEW_SOURCE_STATUSES)" and "check_approval t j u db = Inr ()"
    and "j' = approved j (utcnow db)"
    and "append_journal_event en se j' (jv_status j) APPROVED u ''ACCOUNTING_APPROVER''
        ''Approved via /accounting/journals/{id}/approve'' (put_jv j' (jd_tick db)) = Inr db1"
    and "db' = emit_journal_event en j' u role' ''JOURNAL_APPROVE'' ps db1"
proof -
  obtain j where o: "open_journal se t i db = Inr j" and p: "\<not> is_posted_status (jv_status j)"
    using assms by (auto simp: approve_journal_def result_simps)
  show thesis
  proof (cases "jv_status j = APPROVED")
    case True
    then show thesis using assms o p by (intro that(1) [of j]) (auto simp: approve_journal_def raise_if_def)
  next
    case False
    then show thesis using assms o p that(2) [of j "approved j (utcnow db)"]
      by (auto simp: approve_journal_def result_simps Let_def)
  qed
qed

lemma approve_sound:
  assumes ok: "vouchers_ok db" and d: "approve_journal en se t i u role' db = Inr (r, db')"
  shows "sound db db'"
  using d
proof (rule approve_elim)
  assume "db' = db"
  then show "sound db db'" using ok by (simp add: sound_def later_refl)
next
  fix j j' db1 ps
  assume o: "open_journal se t i db = Inr j" and j': "j' = approved j (utcnow db)"
    and e: "append_journal_event en se j' (jv_status j) APPROVED u ''ACCOUNTING_APPROVER''
        ''Approved via /accounting/journals/{id}/approve'' (put_jv j' (jd_tick db)) = Inr db1"
    and db': "db' = emit_journal_event en j' u role' ''JOURNAL_APPROVE'' ps db1"
  have "sound db db1" by (rule journal_log.move [OF ok _ _ _ e]) (use open_journal_in [OF o] j' in simp_all)
  then show "sound db db'" unfolding db' by (rule emit_after)
qed

lemma enter_ledger_elim:
  assumes "enter_ledger en se j entity u c db = Inr ((j', pt), db')" and "\<forall>l \<in> set (jd_lines db). stored_line l"
  obtains db1 where "j' = posted j (utcnow db)" and "appends_entries j entity (jd_tick db) db1"
    and "appends_event j' (jv_status j) PUSHED u (put_jv j' db1) db'"
proof -
  obtain db1 where g: "append_gl_entries en se j entity u (jv_period_date j) (jd_tick db) = Inr db1"
    and e: "append_journal_event en se (posted j (utcnow db)) (jv_status j) PUSHED u ''ACCOUNTING_POSTER'' c
        (put_jv (posted j (utcnow db)) db1) = Inr db'" and j': "j' = posted j (utcnow db)"
    using assms(1) by (auto simp: enter_ledger_def Let_def result_simps)
  show thesis
    by (rule that [OF j' append_gl_entries_facts [OF g]]) (use assms(2) append_journal_event_appends [OF e] j' in simp_all)
qed

lemma active_lines_same:
  "jd_lines db' = jd_lines db \<Longrightarrow> jv_id j' = jv_id j \<Longrightarrow> jv_version j' = jv_version j
   \<Longrightarrow> active_journal_lines j' db' = active_journal_lines j db"
  by (simp add: active_journal_lines_def lines_of_def Let_def)

text \<open>Entering the ledger: the voucher is pushed, and one entry per active line is appended as a block.\<close>

lemma enter_ledger_facts:
  assumes ok: "vouchers_ok db" and j: "j \<in> set (jd_jvs db)" and g: "enter_ledger en se j entity u c db = Inr ((j', pt), db')"
  shows "sound db db'" and "j' \<in> set (jd_jvs db')"
    and "set (jd_jvs db') = insert j' (set (jd_jvs db) - {j})" and "jd_lines db' = jd_lines db"
    and "\<exists>rows. jd_gl db' = jd_gl db @ rows \<and> list_all2 (entry_from j entity) (active_journal_lines j db) rows"
    and "j' = posted j (utcnow db)"
proof -
  have st: "\<forall>l \<in> set (jd_lines db). stored_line l" using ok by (simp add: vouchers_ok_def)
  obtain db1 where j': "j' = posted j (utcnow db)" and ge: "appends_entries j entity (jd_tick db) db1"
    and ev: "appends_event j' (jv_status j) PUSHED u (put_jv j' db1) db'"
    using enter_ledger_elim [OF g st] by metis
  have same: "same_vouchers db db1" using ge by (auto simp: appends_entries_def same_vouchers_def)
  have mv: "vouchers_ok db' \<and> later db db'" by (rule move_ok [OF ok j _ same, of j' u]) (use ev j' in simp_all)
  obtain rows where rows: "jd_gl db1 = jd_gl db @ rows" "list_all2 (entry_from j entity) (active_journal_lines j (jd_tick db)) rows"
    "few_lines (jd_tick db) \<longrightarrow> balanced_block rows" using ge by (auto simp: appends_entries_def)
  have gl: "jd_gl db' = jd_gl db @ rows" using ev rows(1) by (simp add: appends_event_def)
  have "few_lines (jd_tick db)" if "few_lines db'"
    using later_few [of db db'] mv that by (simp add: few_lines_def lines_of_def)
  then show "sound db db'" using mv rows(3) ledger_ok_block [OF _ gl] by (auto simp: sound_def)
  have dist: "distinct (map jv_id (jd_jvs db1))" "j \<in> set (jd_jvs db1)"
    using ok j same by (simp_all add: vouchers_ok_def same_vouchers_def)
  show set: "set (jd_jvs db') = insert j' (set (jd_jvs db) - {j})"
    using put_jv_set [OF dist, of j'] ev same j' by (simp add: appends_event_def same_vouchers_def)
  then show "j' \<in> set (jd_jvs db')" by simp
  show "jd_lines db' = jd_lines db" using ev same by (simp add: appends_event_def same_vouchers_def)
  show "\<exists>rows. jd_gl db' = jd_gl db @ rows \<and> list_all2 (entry_from j entity) (active_journal_lines j db) rows"
    using gl rows(2) active_lines_same [of "jd_tick db" db j j] by auto
  show "j' = posted j (utcnow db)" by (rule j')
qed

lemma post_elim:
  assumes "post_journal_entry en se t i u role' db = Inr (r, db')"
  obtains j where "get_journal_aggregate t i db = Inr j" and "is_posted_status (jv_status j)" and "db' = db"
    and "r = \<lparr>ar_id = jv_id j, ar_status = PUSHED, ar_posted_at = resolve_posted_at j db\<rparr>"
  | j entity j' pt db1 ps where "get_journal_aggregate t i db = Inr j" and "jv_status j = APPROVED"
    and "assert_period_allows_posting t (Some (jv_entity_id j)) (jv_fiscal_year j) (jv_fiscal_period j) role' (jd_gov db) = Inr ()"
    and "check_postable t j db = Inr ()" and "get_entity_for_tenant t (jv_entity_id j) db = Inr entity"
    and "enter_ledger en se j entity u ''Posted via /accounting/journals/{id}/post'' db = Inr ((j', pt), db1)"
    and "db' = emit_journal_event en j' u role' ''JOURNAL_POST'' ps db1"
proof -
  obtain j where g: "get_journal_aggregate t i db = Inr j"
    using assms by (auto simp: post_journal_entry_def result_simps)
  show thesis
  proof (cases "is_posted_status (jv_status j)")
    case True
    then show thesis using assms g by (intro that(1) [OF g]) (auto simp: post_journal_entry_def result_simps)
  next
    case False
    then obtain entity j' pt db1 where
      "jv_status j = APPROVED" "assert_period_allows_posting t (Some (jv_entity_id j)) (jv_fiscal_year j) (jv_fiscal_period j) role' (jd_gov db) = Inr ()"
      "check_postable t j db = Inr ()" "get_entity_for_tenant t (jv_entity_id j) db = Inr entity"
      "enter_ledger en se j entity u ''Posted via /accounting/journals/{id}/post'' db = Inr ((j', pt), db1)"
      "db' = emit_journal_event en j' u role' ''JOURNAL_POST''
            [(''actor_role'', json_opt role'), (''posted_at'', JStr (jg_iso en pt))] db1"
      using assms g by (auto simp: post_journal_entry_def result_simps Let_def)
    then show thesis by (rule that(2) [OF g])
  qed
qed

lemma post_sound:
  assumes ok: "vouchers_ok db" and d: "post_journal_entry en se t i u role' db = Inr (r, db')"
  shows "sound db db'"
  using d
proof (rule post_elim)
  assume "db' = db"
  then show "sound db db'" using ok by (simp add: sound_def later_refl)
next
  fix j entity j' pt db1 ps
  assume g: "get_journal_aggregate t i db = Inr j"
    and e: "enter_ledger en se j entity u ''Posted via /accounting/journals/{id}/post'' db = Inr ((j', pt), db1)"
    and db': "db' = emit_journal_event en j' u role' ''JOURNAL_POST'' ps db1"
  have "sound db db1" using enter_ledger_facts(1) [OF ok _ e] get_journal_in [OF g] by blast
  then show "sound db db'" unfolding db' by (rule emit_after)
qed

lemma reverse_elim:
  assumes "reverse_journal en se t i u role' db = Inr (r, db')"
  obtains j entity r0 db1 r1 db2 pt db3 db4 ps where "get_journal_aggregate t i db = Inr j" and "is_posted_status (jv_status j)"
    and "get_entity_for_tenant t (jv_entity_id j) db = Inr entity" and "2 \<le> length (active_journal_lines j db)"
    and "create_jv en se t (reversal_input se j entity u (active_journal_lines j db)) db = Inr (r0, db1)"
    and "r1 = approved r0 (utcnow db1)"
    and "append_journal_event en se r1 (jv_status r0) APPROVED u ''ACCOUNTING_APPROVER'' (''Auto-approved reversal for '' @ jv_number j)
        (put_jv r1 (jd_tick db1)) = Inr db2"
    and "check_postable (jv_tenant_id r1) r1 db2 = Inr ()"
    and "enter_ledger en se r1 entity u (''Auto-posted reversal for '' @ jv_number j) db2 = Inr ((r, pt), db3)"
    and "append_journal_event en se (voided se j u r (utcnow db3)) (jv_status j) VOIDED u (or_text role' ''ACCOUNTING_POSTER'')
        (''Reversed via '' @ jv_number r) (put_jv (voided se j u r (utcnow db3)) (jd_tick db3)) = Inr db4"
    and "db' = emit_journal_event en (voided se j u r (utcnow db3)) u role' ''JOURNAL_REVERSE'' ps db4"
  using assms unfolding reverse_journal_def
  by (auto simp: result_simps Let_def set_approved_def post_approved_journal_def not_less intro: that)

lemma voided_columns [simp]: "jv_id (voided se j u r now) = jv_id j" "jv_status (voided se j u r now) = VOIDED"
  by (simp_all add: voided_def)

text \<open>The lines of a new voucher are all active, in order.\<close>

lemma active_of_new:
  assumes lines: "jd_lines db = old @ ls" and old: "\<forall>l \<in> set old. jl_jv_id l \<noteq> jv_id j"
    and ls: "\<forall>l \<in> set ls. jl_jv_id l = jv_id j \<and> jl_jv_version l = v" "map jl_line_number ls = [1..<n]" "ls \<noteq> []"
  shows "active_journal_lines j db = ls"
proof -
  have f: "filter (\<lambda>l. jl_jv_id l = jv_id j) (jd_lines db) = ls"
    using old ls(1) by (simp add: lines filter_id_conv filter_empty_conv)
  have s: "sort_key jl_line_number ls = ls" by (rule sort_key_id_if_sorted) (simp add: ls(2) del: upt_Suc)
  have "set (map jl_jv_version ls) = {v}" using ls(1,3) by (cases ls) auto
  then show ?thesis
    using ls(1,3) by (simp add: active_journal_lines_def lines_of_def f s Let_def filter_id_conv)
qed

text \<open>A reversal, from the tables before to the tables after.\<close>

lemma reverse_facts:
  assumes ok: "vouchers_ok db" and d: "reverse_journal en se t i u role' db = Inr (r, db')"
  shows "\<exists>j entity ls rows now. sound db db' \<and> j \<in> set (jd_jvs db) \<and> jv_id j = i \<and> jv_tenant_id j = t
    \<and> is_posted_status (jv_status j) \<and> voided se j u r now \<in> set (jd_jvs db')
    \<and> r \<in> set (jd_jvs db') \<and> jv_status r = PUSHED \<and> jv_created_by r = u \<and> jv_id r \<noteq> i \<and> jd_gl db' = jd_gl db @ rows
    \<and> list_all2 (line_from r) (map (reversal_line j entity) (active_journal_lines j db)) ls
    \<and> list_all2 (entry_from r entity) ls rows \<and> gl_entries_for_journal (jv_tenant_id r) (jv_number r) db = []
    \<and> 2 \<le> length (active_journal_lines j db)"
proof -
  obtain j entity r0 db1 r1 db2 pt db3 db4 ps where g: "get_journal_aggregate t i db = Inr j" and st: "is_posted_status (jv_status j)"
    and two: "2 \<le> length (active_journal_lines j db)"
    and c: "create_jv en se t (reversal_input se j entity u (active_journal_lines j db)) db = Inr (r0, db1)"
    and r1: "r1 = approved r0 (utcnow db1)"
    and e1: "append_journal_event en se r1 (jv_status r0) APPROVED u ''ACCOUNTING_APPROVER'' (''Auto-approved reversal for '' @ jv_number j)
        (put_jv r1 (jd_tick db1)) = Inr db2"
    and post: "check_postable (jv_tenant_id r1) r1 db2 = Inr ()"
    and en: "enter_ledger en se r1 entity u (''Auto-posted reversal for '' @ jv_number j) db2 = Inr ((r, pt), db3)"
    and e2: "append_journal_event en se (voided se j u r (utcnow db3)) (jv_status j) VOIDED u (or_text role' ''ACCOUNTING_POSTER'')
        (''Reversed via '' @ jv_number r) (put_jv (voided se j u r (utcnow db3)) (jd_tick db3)) = Inr db4"
    and db': "db' = emit_journal_event en (voided se j u r (utcnow db3)) u role' ''JOURNAL_REVERSE'' ps db4"
    by (rule reverse_elim [OF d])
  have j: "j \<in> set (jd_jvs db)" "jv_id j = i" "jv_tenant_id j = t" using get_journal_in [OF g] by simp_all
  note c' = create_jv_ok [OF ok c]
  have ok1: "vouchers_ok db1" and s1: "sound db db1" using c'(1) create_sound [OF ok c] by simp_all
  have r0: "r0 \<in> set (jd_jvs db1)" using c'(2) by simp
  have s2: "sound db1 db2" by (rule journal_log.move [OF ok1 r0 _ _ e1]) (simp_all add: r1)
  then have ok2: "vouchers_ok db2" by (simp add: sound_def)
  note f2 = journal_log.move_frame [OF ok1 r0 _ e1]
  have set2: "set (jd_jvs db2) = insert r1 (set (jd_jvs db1) - {r0})" by (rule f2(1)) (simp add: r1)
  have r1in: "r1 \<in> set (jd_jvs db2)" by (simp add: set2)
  note f3 = enter_ledger_facts [OF ok2 r1in en]
  have ok3: "vouchers_ok db3" using f3(1) by (simp add: sound_def)
  have jid: "jv_id j < next_uuid db" using ok j(1) by (simp add: vouchers_ok_def)
  have ne: "j \<noteq> r0" "j \<noteq> r1" using jid c'(5) r1 by auto
  have j3: "j \<in> set (jd_jvs db3)" using j(1) ne c'(2) by (simp add: f3(3) set2)
  have s4: "sound db3 db4" by (rule journal_log.move [OF ok3 j3 _ _ e2]) simp_all
  note f4 = journal_log.move_frame [OF ok3 j3 _ e2]
  have set4: "set (jd_jvs db4) = insert (voided se j u r (utcnow db3)) (set (jd_jvs db3) - {j})" by (rule f4(1)) simp
  have r: "r = posted r1 (utcnow db2)" by (rule f3(6))
  have rid: "jv_id r = next_uuid db" using r r1 c'(5) by simp
  obtain ls where ls: "jd_lines db1 = jd_lines db @ ls" "list_all2 (line_from r0) (map (reversal_line j entity) (active_journal_lines j db)) ls"
    "map jl_line_number ls = [1..<1 + length (active_journal_lines j db)]"
    using c'(12) by (auto simp: reversal_input_def)
  have lines2: "jd_lines db2 = jd_lines db @ ls" using f2(2) ls(1) r1 by simp
  obtain rows where rows: "jd_gl db3 = jd_gl db2 @ rows" "list_all2 (entry_from r1 entity) (active_journal_lines r1 db2) rows"
    using f3(5) by auto
  have new: "\<forall>l \<in> set (jd_lines db). jl_jv_id l \<noteq> jv_id r1"
    using ok c'(5) r1 by (auto simp: vouchers_ok_def)
  have ids: "\<forall>l \<in> set ls. jl_jv_id l = jv_id r1 \<and> jl_jv_version l = 1"
    using ls(2) c'(8) r1 by (auto simp: list_all2_conv_all_nth in_set_conv_nth line_from_def)
  have "ls \<noteq> []"
  proof
    assume "ls = []"
    then have "[1..<1 + length (active_journal_lines j db)] = []" using ls(3) by simp
    then show False using two by (simp add: upt_eq_Nil_conv)
  qed
  then have active: "active_journal_lines r1 db2 = ls" by (rule active_of_new [OF lines2 new ids ls(3)])
  have same: "line_from r = line_from r0" "entry_from r = entry_from r1"
    by (auto simp: r r1 line_from_def entry_from_def fun_eq_iff posted_def approved_def)
  have rin: "r \<in> set (jd_jvs db')"
    using f3(2) rid jid j(2) by (auto simp: db' set4)
  have "sound db db4" using s1 s2 f3(1) s4 by (blast intro: sound_trans)
  then have sound: "sound db db'" unfolding db' by (rule emit_after)
  have gl: "jd_gl db' = jd_gl db @ rows" using f4(3) rows(1) f2(3) c'(3) r1 by (simp add: db')
  have from_lines: "list_all2 (line_from r) (map (reversal_line j entity) (active_journal_lines j db)) ls" unfolding same by (rule ls(2))
  have from_entries: "list_all2 (entry_from r entity) ls rows" unfolding same using rows(2) active by simp
  have other: "jv_id r \<noteq> i" using rid jid j(2) by simp
  have void: "voided se j u r (utcnow db3) \<in> set (jd_jvs db')" by (simp add: db' set4)
  have status: "jv_status r = PUSHED" by (simp add: r)
  have none: "gl_entries_for_journal (jv_tenant_id r) (jv_number r) db = []"
    using post f2(3) c'(3) r1 by (auto simp: r check_postable_def result_simps gl_entries_for_journal_def)
  have by_u: "jv_created_by r = u" by (simp add: r r1 posted_def c'(10) reversal_input_def)
  show ?thesis
    by (intro exI conjI) (rule sound j st void rin status by_u other gl from_lines from_entries none two)+
qed

lemma reverse_sound: "vouchers_ok db \<Longrightarrow> reverse_journal en se t i u role' db = Inr (r, db') \<Longrightarrow> sound db db'"
  by (drule (1) reverse_facts) (elim exE conjE, assumption)

lemma micro_20_6: "numeric_20_6 x = Inr y \<Longrightarrow> micro y"
  unfolding numeric_20_6_def micro_iff Let_def by (intro exI [of _ "round_half_up (x * 10 ^ 6)"]) (simp split: if_splits)

lemma create_gl_entry_facts:
  assumes "create_gl_entry en se t rq db = Inr (g, db')"
  shows "jd_gl db' = jd_gl db @ [g]" and "same_vouchers db db'" and "ge_entity_id g = None" and "ge_tenant_id g = t"
    and "micro (ge_debit_amount g)" and "micro (ge_credit_amount g)" and "ge_source_ref g = gq_source_ref rq"
proof -
  obtain x y where x: "numeric_20_6 (gq_debit_amount rq) = Inr x" and y: "numeric_20_6 (gq_credit_amount rq) = Inr y"
    using assms unfolding create_gl_entry_def by (auto simp: result_simps)
  obtain row rows env where ins: "insert_financial_record (jg_sha en) (stamp_gl_entry se) t (gl_record_data en t rq) (gl_values t rq x y)
           (Some (gl_audit_event t rq)) (map gl_row (jd_gl db), jd_env db) = (row, rows, env)"
    by (rule prod_cases3)
  have g: "g = entry_of_row row" and db': "db' = db\<lparr>jd_gl := jd_gl db @ [g], jd_gov := (jd_gov db)\<lparr>gd_env := env\<rparr>\<rparr>"
    using assms by (auto simp: create_gl_entry_def x y ins Let_def)
  note f = insert_financial_record_facts [OF ins]
  show "jd_gl db' = jd_gl db @ [g]" by (simp add: db')
  show "same_vouchers db db'" using f(6,7) by (simp add: db' same_vouchers_def utcnow_def next_uuid_def)
  have s: "ge_entity_id g = None" "ge_debit_amount g = x" "ge_credit_amount g = y" "ge_source_ref g = gq_source_ref rq"
    by (simp_all add: g entry_of_row_def f(3) stamp_gl_entry_def gl_values_def split: option.split)
  then show "ge_entity_id g = None" "micro (ge_debit_amount g)" "micro (ge_credit_amount g)" "ge_source_ref g = gq_source_ref rq"
    using micro_20_6 [OF x] micro_20_6 [OF y] by simp_all
  show "ge_tenant_id g = t" by (simp add: g entry_of_row_def f(2))
qed

lemma import_sound:
  assumes "vouchers_ok db" and "create_gl_entry en se t rq db = Inr (g, db')"
  shows "sound db db'"
proof -
  note f = create_gl_entry_facts [OF assms(2)]
  have "\<not> from_journal g" using f(3) by (simp add: from_journal_def)
  then show ?thesis
    using same_vouchers_ok [OF f(2) assms(1)] same_vouchers_later [OF f(2)] ledger_ok_import [OF _ f(1) _ f(5,6)] by (simp add: sound_def)
qed

lemma journal_step_sound:
  assumes "journal_step en db db'" and ok: "vouchers_ok db"
  shows "sound db db'"
  using assms(1)
proof cases
  case (timed i t h h' tm)
  then have "same_vouchers db db'" "jd_gl db' = jd_gl db"
    by (auto simp: create_sla_timer_def same_vouchers_def Let_def split: option.splits)
  then show ?thesis by (rule sound_same [OF _ _ ok])
next
  case (checked t tms)
  then have "same_vouchers db db'" "jd_gl db' = jd_gl db"
    by (auto simp: check_and_update_sla_breaches_def same_vouchers_def Let_def)
  then show ?thesis by (rule sound_same [OF _ _ ok])
next
  case (elsewhere gov es as cs rm)
  then have "same_vouchers db db'" "jd_gl db' = jd_gl db"
    by (simp_all add: same_vouchers_def utcnow_def next_uuid_def)
  then show ?thesis by (rule sound_same [OF _ _ ok])
next
  case imported
  then show ?thesis by (rule import_sound [OF ok])
next
  case created
  then show ?thesis by (rule create_sound [OF ok])
next
  case updated
  then show ?thesis by (rule update_sound [OF ok])
next
  case moved
  then show ?thesis by (rule transition_sound [OF ok])
next
  case decided
  then show ?thesis by (rule approval_sound [OF ok])
next
  case drafted
  then show ?thesis by (rule draft_sound [OF ok])
next
  case submitted
  then show ?thesis by (rule submit_sound [OF ok])
next
  case reviewed
  then show ?thesis by (rule review_sound [OF ok])
next
  case approved
  then show ?thesis by (rule approve_sound [OF ok])
next
  case posted
  then show ?thesis by (rule post_sound [OF ok])
next
  case reversed
  then show ?thesis by (rule reverse_sound [OF ok])
qed

lemma no_journals_ok: "no_journals db \<Longrightarrow> vouchers_ok db \<and> ledger_ok db"
  unfolding no_journals_def vouchers_ok_def ledger_ok_def by (auto intro: exI [of _ "[]"])

lemma journal_history_sound:
  assumes "journal_history en db db'" and "vouchers_ok db"
  shows "sound db db'"
  using assms(1)
proof (induction rule: rtranclp_induct)
  case base
  show ?case using assms(2) by (simp add: sound_def later_refl)
next
  case (step db1 db2)
  then have "vouchers_ok db1" by (simp add: sound_def)
  then show ?case using journal_step_sound [OF step.hyps(2)] step.IH sound_trans by blast
qed

end
