(* ===== verification/Journal_Moves.thy ===== *)
theory Journal_Moves
  imports Journal_Ledger
begin

text \<open>
  What the handlers do to the voucher tables, as few elementary moves: a voucher is born, edited, changes its status with an
  event, or enters the ledger; a single entry is imported.  Every handler is a sequence of such moves, so an invariant
  has to be checked for the moves only.
\<close>

section \<open>Moves\<close>

definition same_identity :: "jv \<Rightarrow> jv \<Rightarrow> bool" where
  "same_identity j j' \<longleftrightarrow> jv_id j' = jv_id j \<and> jv_tenant_id j' = jv_tenant_id j \<and> jv_number j' = jv_number j
     \<and> jv_created_by j' = jv_created_by j \<and> jv_reference j' = jv_reference j"

definition is_reversal :: "jv \<Rightarrow> bool" where
  "is_reversal j \<longleftrightarrow> (\<exists>n. jv_reference j = Some (''REVERSAL_OF:'' @ n))"

text \<open>The changes that the handlers of the journal desk make, and who may approve.\<close>

definition desk_allows :: "jv \<Rightarrow> journal_status \<Rightarrow> uuid \<Rightarrow> bool" where
  "desk_allows j s' u \<longleftrightarrow> (jv_status j, s') \<in> set DIRECT_WRITES
     \<and> (s' = APPROVED \<longrightarrow> u \<noteq> jv_created_by j \<or> jv_status j = DRAFT \<and> is_reversal j)"

definition writes_status :: "bool \<Rightarrow> jv \<Rightarrow> jv \<Rightarrow> journal_db \<Rightarrow> journal_db \<Rightarrow> bool" where
  "writes_status desk j j' db db' \<longleftrightarrow> j \<in> set (jd_jvs db) \<and> same_identity j j'
     \<and> life_step (jv_status j, jv_resubmission_count j) (jv_status j', jv_resubmission_count j')
     \<and> set (jd_jvs db') = insert j' (set (jd_jvs db) - {j}) \<and> jd_lines db' = jd_lines db
     \<and> (\<exists>e. jd_events db' = jd_events db @ [e] \<and> je_jv_id e = jv_id j \<and> je_from_status e = jv_status j
          \<and> je_to_status e = jv_status j' \<and> (desk \<longrightarrow> desk_allows j (jv_status j') (je_triggered_by e)))"

text \<open>\<open>desk\<close> restricts the changes of status to those of the journal desk, where entering the ledger alone makes a voucher PUSHED.\<close>

inductive table_move :: "bool \<Rightarrow> journal_db \<Rightarrow> journal_db \<Rightarrow> bool" for desk where
  idle: "jd_jvs db' = jd_jvs db \<Longrightarrow> jd_lines db' = jd_lines db \<Longrightarrow> jd_events db' = jd_events db \<Longrightarrow> jd_gl db' = jd_gl db
    \<Longrightarrow> table_move desk db db'"
| single: "jd_jvs db' = jd_jvs db \<Longrightarrow> jd_lines db' = jd_lines db \<Longrightarrow> jd_events db' = jd_events db \<Longrightarrow> jd_gl db' = jd_gl db @ [g]
    \<Longrightarrow> \<not> from_journal g \<Longrightarrow> table_move desk db db'"
| born: "set (jd_jvs db') = insert j (set (jd_jvs db)) \<Longrightarrow> jv_status j = DRAFT \<Longrightarrow> jv_resubmission_count j = 0
    \<Longrightarrow> \<forall>k \<in> set (jd_jvs db). jv_id k \<noteq> jv_id j \<and> (jv_tenant_id k, jv_number k) \<noteq> (jv_tenant_id j, jv_number j)
    \<Longrightarrow> events_of (jv_id j) db = [] \<Longrightarrow> jd_lines db' = jd_lines db @ ls \<Longrightarrow> \<forall>l \<in> set ls. jl_jv_id l = jv_id j
    \<Longrightarrow> jd_events db' = jd_events db \<Longrightarrow> jd_gl db' = jd_gl db \<Longrightarrow> table_move desk db db'"
| edited: "j \<in> set (jd_jvs db) \<Longrightarrow> jv_status j = DRAFT \<Longrightarrow> same_identity j j' \<Longrightarrow> jv_status j' = jv_status j
    \<Longrightarrow> jv_resubmission_count j' = jv_resubmission_count j \<Longrightarrow> set (jd_jvs db') = insert j' (set (jd_jvs db) - {j})
    \<Longrightarrow> jd_lines db' = jd_lines db @ ls \<Longrightarrow> \<forall>l \<in> set ls. jl_jv_id l = jv_id j
    \<Longrightarrow> jd_events db' = jd_events db \<Longrightarrow> jd_gl db' = jd_gl db \<Longrightarrow> table_move desk db db'"
| moved: "writes_status desk j j' db db' \<Longrightarrow> (desk \<Longrightarrow> jv_status j' \<noteq> PUSHED) \<Longrightarrow> jd_gl db' = jd_gl db \<Longrightarrow> table_move desk db db'"
| entered: "writes_status desk j j' db db' \<Longrightarrow> jv_status j' = PUSHED \<Longrightarrow> gl_entries_for_journal (jv_tenant_id j) (jv_number j) db = []
    \<Longrightarrow> jd_gl db' = jd_gl db @ rows \<Longrightarrow> list_all2 (entry_from j entity) (active_journal_lines j db) rows \<Longrightarrow> table_move desk db db'"

abbreviation table_moves :: "bool \<Rightarrow> journal_db \<Rightarrow> journal_db \<Rightarrow> bool" where
  "table_moves desk \<equiv> (table_move desk)\<^sup>*\<^sup>*"

lemma writes_status_desk: "writes_status True j j' db db' \<Longrightarrow> writes_status desk j j' db db'"
  unfolding writes_status_def by blast

lemma table_move_desk: "table_move True db db' \<Longrightarrow> table_move desk db db'"
proof (induction rule: table_move.induct)
  case (idle db' db)
  then show ?case by (rule table_move.idle)
next
  case (single db' db g)
  then show ?case by (rule table_move.single)
next
  case (born db' j db ls)
  then show ?case by (rule table_move.born)
next
  case (edited j db j' db' ls)
  then show ?case by (rule table_move.edited)
next
  case (moved j j' db db')
  show ?case by (rule table_move.moved [OF writes_status_desk [OF moved(1)] _ moved(3)]) (use moved(2) in simp)
next
  case (entered j j' db db' rows entity)
  show ?case by (rule table_move.entered [OF writes_status_desk [OF entered(1)] entered(2-5)])
qed

lemma table_moves_desk: "table_moves True db db' \<Longrightarrow> table_moves desk db db'"
  by (induction rule: rtranclp_induct) (auto intro: rtranclp.rtrancl_into_rtrancl table_move_desk)

section \<open>Handlers are sequences of moves\<close>

lemma emit_idle: "table_move desk db (emit_journal_event en j u r x ps db)"
  by (rule table_move.idle) simp_all

lemma then_emit: "table_moves desk db db1 \<Longrightarrow> table_moves desk db (emit_journal_event en j u r x ps db1)"
  by (erule rtranclp.rtrancl_into_rtrancl) (rule emit_idle)

lemma create_jv_columns:
  assumes "create_jv en se t inp db = Inr (j, db')"
  shows "jv_reference j = ji_reference inp" and "jv_resubmission_count j = 0"
    and "\<forall>k \<in> set (jd_jvs db). \<not> (jv_tenant_id k = t \<and> jv_number k = jv_number j)"
proof -
  obtain ctx where ctx: "se_context se = Some ctx" using assms by (auto simp: create_jv_def require_mutation_context_def split: option.splits)
  define v where "v = new_jv en se ctx t inp db"
  have v: "jv_reference v = ji_reference inp" "jv_resubmission_count v = 0" "jv_tenant_id v = t" by (simp_all add: v_def new_jv_def)
  have c: "\<not> jv_conflict v db"
    using assms ctx by (auto simp: create_jv_def require_mutation_context_def Let_def result_simps v_def)
  have j: "jv_reference j = jv_reference v \<and> jv_resubmission_count j = jv_resubmission_count v \<and> jv_number j = jv_number v"
  proof (cases "ji_lines inp = []")
    case True
    then show ?thesis using assms ctx by (auto simp: create_jv_def require_mutation_context_def Let_def result_simps v_def)
  next
    case False
    then obtain db1 where "append_lines en se (v\<lparr>jv_updated_at := se_started se\<rparr>) (ji_lines inp) db1 = Inr (j, db')"
      using assms ctx by (auto simp: create_jv_def require_mutation_context_def Let_def result_simps v_def)
    from append_lines_facts [OF this] show ?thesis by (auto simp: appends_lines_def)
  qed
  show "jv_reference j = ji_reference inp" "jv_resubmission_count j = 0" using j v by simp_all
  show "\<forall>k \<in> set (jd_jvs db). \<not> (jv_tenant_id k = t \<and> jv_number k = jv_number j)"
    using c j v(3) by (auto simp: jv_conflict_def list_ex_iff)
qed

lemma events_of_unknown: "vouchers_ok db \<Longrightarrow> events_of (next_uuid db) db = []"
  by (auto simp: vouchers_ok_def events_of_def filter_empty_conv)

lemma create_moves:
  assumes ok: "vouchers_ok db" and c: "create_jv en se t inp db = Inr (j, db')"
  shows "table_move desk db db'"
proof -
  note f = create_jv_ok [OF ok c] and g = create_jv_columns [OF c]
  obtain ls where ls: "jd_lines db' = jd_lines db @ ls" "list_all2 (line_from j) (ji_lines inp) ls" using f(12) by blast
  have ids: "\<forall>l \<in> set ls. jl_jv_id l = jv_id j"
    using ls(2) by (auto simp: list_all2_conv_all_nth in_set_conv_nth line_from_def)
  have new: "\<forall>k \<in> set (jd_jvs db). jv_id k \<noteq> jv_id j \<and> (jv_tenant_id k, jv_number k) \<noteq> (jv_tenant_id j, jv_number j)"
    using ok f(5,6) g(3) by (auto simp: vouchers_ok_def)
  show ?thesis
    by (rule table_move.born [OF f(2) f(4) g(2) new _ ls(1) ids f(14) f(3)]) (simp add: f(5) events_of_unknown [OF ok])
qed

lemma update_moves:
  assumes ok: "vouchers_ok db" and up: "update_jv_lines en se i t ds v db = Inr (j', db')"
  shows "table_move desk db db'"
proof -
  obtain j where g: "get_jv i t db = Inr j" and st: "jv_status j = DRAFT"
    and a: "append_lines en se (j\<lparr>jv_version := jv_version j + 1, jv_updated_at := utcnow db\<rparr>) ds (jd_tick db) = Inr (j', db')"
    using up unfolding update_jv_lines_def by (auto simp: result_simps Let_def check_optimistic_lock_def)
  note j = get_jv_in [OF g] and f = append_lines_facts [OF a]
  have ok1: "vouchers_ok (jd_tick db)" by (rule same_vouchers_ok [OF tick_same ok])
  have jin: "j \<in> set (jd_jvs (jd_tick db))" using j by simp
  have "set (jd_jvs db') = insert j' (set (jd_jvs (jd_tick db)) - {j})"
    using appends_lines_ok [OF ok1 jin _ _ f] by simp
  then have set: "set (jd_jvs db') = insert j' (set (jd_jvs db) - {j})" by simp
  obtain ls d c where ls: "jd_lines db' = jd_lines db @ ls"
      "list_all2 (line_from (j\<lparr>jv_version := jv_version j + 1, jv_updated_at := utcnow db\<rparr>)) ds ls"
    and j': "j' = (j\<lparr>jv_version := jv_version j + 1, jv_updated_at := utcnow db\<rparr>)\<lparr>jv_total_debit := d, jv_total_credit := c\<rparr>"
    and rest: "jd_events db' = jd_events db" "jd_gl db' = jd_gl db"
    using f by (auto simp: appends_lines_def)
  have ids: "\<forall>l \<in> set ls. jl_jv_id l = jv_id j"
    using ls(2) by (auto simp: list_all2_conv_all_nth in_set_conv_nth line_from_def)
  show ?thesis
    by (rule table_move.edited [OF _ st _ _ _ set ls(1) ids rest]) (simp_all add: j j' same_identity_def)
qed

text \<open>Rewriting the voucher with an event is a move, if the change is one of the voucher's life.\<close>

context event_writer
begin

lemma moves:
  assumes ok: "vouchers_ok db" and j: "j \<in> set (jd_jvs db)" "same_identity j j'" and s: "jv_status j' = s"
    and life: "life_step (jv_status j, jv_resubmission_count j) (s, jv_resubmission_count j')"
    and desk: "desk \<Longrightarrow> desk_allows j s u \<and> s \<noteq> PUSHED"
    and e: "log_event j' (jv_status j) s u (put_jv j' (jd_tick db)) = Inr db1"
  shows "table_move desk db db1"
proof -
  have i: "jv_id j' = jv_id j" using j(2) by (simp add: same_identity_def)
  note f = move_frame [OF ok j(1) i e]
  have "writes_status desk j j' db db1"
    unfolding writes_status_def using j life s f(1,2,4) desk by auto
  then show ?thesis by (rule table_move.moved) (use s desk f(3) in simp_all)
qed

end

lemma same_identity_transitioned: "same_identity j (transitioned j s now u c)"
  by (simp add: same_identity_def transitioned_def)

lemma transition_moves:
  assumes ok: "vouchers_ok db" and tr: "transition_jv en se i t to_status u role v c adm db = Inr (j', db')"
  shows "table_move False db db'"
  using tr
proof (rule transition_elim)
  fix j s assume g: "get_jv i t db = Inr j" and j': "j' = transitioned j s (utcnow db) u c"
    and val: "validate_transition \<lparr>tq_from_status = jv_status j, tq_to_status = transition_target to_status (jv_resubmission_count j),
       tq_triggered_by_role = role, tq_is_admin = adm, tq_comment = c, tq_resubmission_count = jv_resubmission_count j\<rparr> = Inr s"
    and ev: "append_state_event en se j' (jv_status j) s u role c (put_jv j' (jd_tick db)) = Inr db'"
  have "life_step (jv_status j, jv_resubmission_count j) (s, count_after s (jv_resubmission_count j))"
    by (rule requested [OF val]) simp_all
  then show ?thesis
    by (intro voucher_log.moves [OF ok _ _ _ _ _ ev]) (use get_jv_in [OF g] in \<open>simp_all add: j' same_identity_transitioned\<close>)
qed

lemma approval_moves:
  assumes ok: "vouchers_ok db" and d: "submit_approval en se t rq db = Inr (a, db')"
  shows "table_moves False db db'"
  using d
proof (rule approval_elim)
  fix decision db1 j' assume db1: "db1 = jd_tick (db\<lparr>jd_approvals := jd_approvals db @ [a]\<rparr>)"
    and tr: "transition_jv en se (dr_jv_id rq) t decision (dr_acted_by rq) (normalize_role (dr_actor_role rq)) (dr_expected_version rq)
      (dr_decision_reason rq) (normalize_role (dr_actor_role rq) = ''ACCOUNTING_ADMIN'') db1 = Inr (j', db')"
  have "same_vouchers db db1" by (simp add: db1 same_vouchers_def)
  then have ok1: "vouchers_ok db1" by (rule same_vouchers_ok) (rule ok)
  have "table_move False db db1" by (rule table_move.idle) (simp_all add: db1)
  then show "table_moves False db db'"
    by (rule rtranclp.rtrancl_into_rtrancl [OF r_into_rtranclp]) (rule transition_moves [OF ok1 tr])
qed

lemma direct: "(s, t) \<in> set DIRECT_WRITES \<Longrightarrow> life_step (s, n) (t, n)"
  by (rule written)

lemma submit_moves:
  assumes ok: "vouchers_ok db" and d: "submit_journal en se t i u role' db = Inr (r, db')"
  shows "table_moves desk db db'"
proof -
  obtain j db1 where o: "open_journal se t i db = Inr j" and s: "jv_status j = DRAFT"
    and e: "append_journal_event en se (j\<lparr>jv_status := SUBMITTED, jv_submitted_at := Some (utcnow db), jv_updated_at := utcnow db\<rparr>)
        (jv_status j) SUBMITTED u (or_text role' ''ACCOUNTING_SUBMITTER'') ''Submitted via /accounting/journals/{id}/submit''
        (put_jv (j\<lparr>jv_status := SUBMITTED, jv_submitted_at := Some (utcnow db), jv_updated_at := utcnow db\<rparr>) (jd_tick db)) = Inr db1"
    and db': "db' = emit_journal_event en (j\<lparr>jv_status := SUBMITTED, jv_submitted_at := Some (utcnow db), jv_updated_at := utcnow db\<rparr>)
        u role' ''JOURNAL_SUBMIT'' [] db1"
    using d by (auto simp: submit_journal_def result_simps Let_def)
  have l: "(jv_status j, SUBMITTED) \<in> set DIRECT_WRITES" by (simp add: s DIRECT_WRITES_def)
  have "table_move desk db db1"
    by (rule journal_log.moves [OF ok _ _ _ _ _ e])
      (use open_journal_in [OF o] direct [OF l] l in \<open>simp_all add: same_identity_def desk_allows_def\<close>)
  then show ?thesis unfolding db' by (intro then_emit r_into_rtranclp)
qed

lemma review_moves:
  assumes ok: "vouchers_ok db" and d: "review_journal en se t i u role' db = Inr (r, db')"
  shows "table_moves desk db db'"
proof -
  obtain j j' db1 where o: "open_journal se t i db = Inr j" and s: "jv_status j \<in> {SUBMITTED, PENDING_REVIEW, RESUBMITTED}"
    and j': "j' = j\<lparr>jv_status := UNDER_REVIEW, jv_first_reviewed_at := or_now (jv_first_reviewed_at j) (utcnow db), jv_updated_at := utcnow db\<rparr>"
    and e: "append_journal_event en se j' (jv_status j) UNDER_REVIEW u (or_text role' ''ACCOUNTING_REVIEWER'')
        ''Reviewed via /accounting/journals/{id}/review'' (put_jv j' (jd_tick db)) = Inr db1"
    and db': "db' = emit_journal_event en j' u role' ''JOURNAL_REVIEW'' [] db1"
    using d by (auto simp: review_journal_def result_simps Let_def)
  have l: "(jv_status j, UNDER_REVIEW) \<in> set DIRECT_WRITES" using s by (auto simp: DIRECT_WRITES_def)
  have "table_move desk db db1"
    by (rule journal_log.moves [OF ok _ _ _ _ _ e])
      (use open_journal_in [OF o] direct [OF l] l in \<open>simp_all add: same_identity_def desk_allows_def j'\<close>)
  then show ?thesis unfolding db' by (intro then_emit r_into_rtranclp)
qed

lemma same_identity_approved: "same_identity j (approved j now)"
  by (simp add: same_identity_def Journal_Posting.approved_def)

lemma approved_count: "jv_resubmission_count (approved j now) = jv_resubmission_count j"
  by (simp add: Journal_Posting.approved_def)

lemma approve_moves:
  assumes ok: "vouchers_ok db" and d: "approve_journal en se t i u role' db = Inr (r, db')"
  shows "table_moves desk db db'"
  using d
proof (rule approve_elim)
  assume "db' = db"
  then show ?thesis by simp
next
  fix j j' db1 ps
  assume o: "open_journal se t i db = Inr j" and s: "jv_status j \<in> insert SUBMITTED (set REVIEW_SOURCE_STATUSES)"
    and c: "check_approval t j u db = Inr ()" and j': "j' = approved j (utcnow db)"
    and e: "append_journal_event en se j' (jv_status j) APPROVED u ''ACCOUNTING_APPROVER''
        ''Approved via /accounting/journals/{id}/approve'' (put_jv j' (jd_tick db)) = Inr db1"
    and db': "db' = emit_journal_event en j' u role' ''JOURNAL_APPROVE'' ps db1"
  have l: "(jv_status j, APPROVED) \<in> set DIRECT_WRITES" using s by (auto simp: DIRECT_WRITES_def REVIEW_SOURCE_STATUSES_def)
  have u: "u \<noteq> jv_created_by j"
    using c by (auto simp: check_approval_def Let_def result_simps enforce_maker_checker_for_approval_def)
  have "table_move desk db db1"
    by (rule journal_log.moves [OF ok _ _ _ _ _ e])
      (use open_journal_in [OF o] direct [OF l] l u in \<open>simp_all add: same_identity_approved approved_count desk_allows_def j'\<close>)
  then show ?thesis unfolding db' by (intro then_emit r_into_rtranclp)
qed

lemma enter_moves:
  assumes ok: "vouchers_ok db" and j: "j \<in> set (jd_jvs db)" and s: "jv_status j = APPROVED" and c: "check_postable t j db = Inr ()"
    and t: "t = jv_tenant_id j" and en: "enter_ledger en se j entity u comment db = Inr ((j', pt), db')"
  shows "table_move desk db db'"
proof -
  note f = enter_ledger_facts [OF ok j en]
  have st: "\<forall>l \<in> set (jd_lines db). stored_line l" using ok by (simp add: vouchers_ok_def)
  obtain db1 where ge: "appends_entries j entity (jd_tick db) db1" and ev: "appends_event j' (jv_status j) PUSHED u (put_jv j' db1) db'"
    using enter_ledger_elim [OF en st] by metis
  obtain e where e: "jd_events db' = jd_events db @ [e]" "je_jv_id e = jv_id j'" "je_from_status e = jv_status j" "je_to_status e = PUSHED"
    using ge ev by (auto simp: appends_event_def appends_entries_def same_vouchers_def)
  obtain rows where rows: "jd_gl db' = jd_gl db @ rows" "list_all2 (entry_from j entity) (active_journal_lines j db) rows"
    using f(5) by blast
  have j': "same_identity j j'" "jv_status j' = PUSHED" "jv_resubmission_count j' = jv_resubmission_count j"
    unfolding f(6) by (simp_all add: same_identity_def Journal_Posting.posted_def)
  have l: "(jv_status j, PUSHED) \<in> set DIRECT_WRITES" by (simp add: s DIRECT_WRITES_def)
  have "writes_status desk j j' db db'"
    unfolding writes_status_def using j j' e f(3,4) direct [OF l, of "jv_resubmission_count j"] l
    by (auto simp: desk_allows_def same_identity_def)
  moreover have "gl_entries_for_journal (jv_tenant_id j) (jv_number j) db = []"
    using c t by (auto simp: check_postable_def result_simps)
  ultimately show ?thesis by (rule table_move.entered [OF _ j'(2) _ rows])
qed

lemma post_moves:
  assumes ok: "vouchers_ok db" and d: "post_journal_entry en se t i u role' db = Inr (r, db')"
  shows "table_moves desk db db'"
  using d
proof (rule post_elim)
  assume "db' = db"
  then show ?thesis by simp
next
  fix j entity j' pt db1 ps
  assume g: "get_journal_aggregate t i db = Inr j" and s: "jv_status j = APPROVED" and c: "check_postable t j db = Inr ()"
    and e: "enter_ledger en se j entity u ''Posted via /accounting/journals/{id}/post'' db = Inr ((j', pt), db1)"
    and db': "db' = emit_journal_event en j' u role' ''JOURNAL_POST'' ps db1"
  have "table_move desk db db1" by (rule enter_moves [OF ok _ s c _ e]) (use get_journal_in [OF g] in simp_all)
  then show "table_moves desk db db'" unfolding db' by (intro then_emit r_into_rtranclp)
qed

lemma draft_moves:
  assumes ok: "vouchers_ok db" and d: "create_journal_draft en se t u rq src ext db = Inr (j, db')"
  shows "table_moves desk db db'"
proof -
  obtain inp db1 ps where "create_jv en se t inp db = Inr (j, db1)" "db' = emit_journal_event en j u None ''JOURNAL_DRAFT_CREATE'' ps db1"
    using d by (fastforce simp: create_journal_draft_def result_simps)
  then show ?thesis using create_moves [OF ok] by (simp add: then_emit r_into_rtranclp)
qed

text \<open>A reversal is four moves: the birth of the mirrored journal, its approval, its entry into the ledger, the voiding of the original.\<close>

lemma reverse_moves:
  assumes ok: "vouchers_ok db" and d: "reverse_journal en se t i u role' db = Inr (r, db')"
  shows "table_moves desk db db'"
proof -
  obtain j entity r0 db1 r1 db2 pt db3 db4 ps where g: "get_journal_aggregate t i db = Inr j" and st: "is_posted_status (jv_status j)"
    and c: "create_jv en se t (reversal_input se j entity u (active_journal_lines j db)) db = Inr (r0, db1)"
    and r1: "r1 = approved r0 (utcnow db1)"
    and e1: "append_journal_event en se r1 (jv_status r0) APPROVED u ''ACCOUNTING_APPROVER'' (''Auto-approved reversal for '' @ jv_number j)
        (put_jv r1 (jd_tick db1)) = Inr db2"
    and post: "check_postable (jv_tenant_id r1) r1 db2 = Inr ()"
    and en: "enter_ledger en se r1 entity u (''Auto-posted reversal for '' @ jv_number j) db2 = Inr ((r, pt), db3)"
    and e2: "append_journal_event en se (voided se j u r (utcnow db3)) (jv_status j) VOIDED u (or_text role' ''ACCOUNTING_POSTER'')
        (''Reversed via '' @ jv_number r) (put_jv (voided se j u r (utcnow db3)) (jd_tick db3)) = Inr db4"
    and db': "db' = emit_journal_event en (voided se j u r (utcnow db3)) u role' ''JOURNAL_REVERSE'' ps db4"
    by (rule reverse_elim [OF d])
  have j: "j \<in> set (jd_jvs db)" using get_journal_in [OF g] by simp
  note c' = create_jv_ok [OF ok c] and col = create_jv_columns [OF c]
  have ok1: "vouchers_ok db1" and r0: "r0 \<in> set (jd_jvs db1)" using c'(1,2) by simp_all
  have reversal: "is_reversal r0" using col(1) by (auto simp: is_reversal_def reversal_input_def)
  have l1: "(jv_status r0, APPROVED) \<in> set DIRECT_WRITES" by (simp add: c'(4) DIRECT_WRITES_def)
  have ok2: "vouchers_ok db2" using journal_log.move [OF ok1 r0 _ _ e1] by (simp add: r1 sound_def)
  have set2: "set (jd_jvs db2) = insert r1 (set (jd_jvs db1) - {r0})" by (rule journal_log.move_frame(1) [OF ok1 r0 _ e1]) (simp add: r1)
  have r1in: "r1 \<in> set (jd_jvs db2)" by (simp add: set2)
  note f3 = enter_ledger_facts [OF ok2 r1in en]
  have ok3: "vouchers_ok db3" using f3(1) by (simp add: sound_def)
  have "jv_id j < next_uuid db" using ok j by (simp add: vouchers_ok_def)
  then have "j \<noteq> r0" "j \<noteq> r1" using c'(5) r1 by auto
  then have j3: "j \<in> set (jd_jvs db3)" using j c'(2) by (simp add: f3(3) set2)
  have l2: "(jv_status j, VOIDED) \<in> set DIRECT_WRITES" using st by (auto simp: is_posted_status_def DIRECT_WRITES_def)
  have v: "same_identity j (voided se j u r (utcnow db3))" "jv_resubmission_count (voided se j u r (utcnow db3)) = jv_resubmission_count j"
    by (simp_all add: same_identity_def voided_def)
  have "table_move desk db db1" by (rule create_moves [OF ok c])
  moreover have "table_move desk db1 db2"
    by (rule journal_log.moves [OF ok1 r0 _ _ _ _ e1])
      (use direct [OF l1] l1 reversal c'(4) in \<open>simp_all add: r1 same_identity_approved approved_count desk_allows_def\<close>)
  moreover have "table_move desk db2 db3" by (rule enter_moves [OF ok2 r1in _ post _ en]) (simp_all add: r1)
  moreover have "table_move desk db3 db4"
    by (rule journal_log.moves [OF ok3 j3 _ _ _ _ e2]) (use v direct [OF l2] l2 in \<open>simp_all add: desk_allows_def\<close>)
  moreover have "table_move desk db4 db'" unfolding db' by (rule emit_idle)
  ultimately show ?thesis by (blast intro: converse_rtranclp_into_rtranclp)
qed

section \<open>The journal desk\<close>

text \<open>
  The routes that would call \<open>create_jv\<close>, \<open>update_jv_lines\<close>, \<open>transition_jv\<close> and \<open>submit_approval\<close> directly are disabled
  (\<open>api/routes.py\<close>).  What remains for users is the desk: the handlers of \<open>journal_service.py\<close>, which the intents and the
  depreciation task call too, imported entries, timers, and changes of the tables that are only read.
\<close>

inductive desk_step :: "journal_engine \<Rightarrow> journal_db \<Rightarrow> journal_db \<Rightarrow> bool" for en where
  desk_drafted: "create_journal_draft en se t u rqj src ext db = Inr (j, db') \<Longrightarrow> desk_step en db db'"
| desk_submitted: "submit_journal en se t i u role' db = Inr (r, db') \<Longrightarrow> desk_step en db db'"
| desk_reviewed: "review_journal en se t i u role' db = Inr (r, db') \<Longrightarrow> desk_step en db db'"
| desk_approved: "approve_journal en se t i u role' db = Inr (r, db') \<Longrightarrow> desk_step en db db'"
| desk_posted: "post_journal_entry en se t i u role' db = Inr (r, db') \<Longrightarrow> desk_step en db db'"
| desk_reversed: "reverse_journal en se t i u role' db = Inr (j, db') \<Longrightarrow> desk_step en db db'"
| desk_imported: "create_gl_entry en se t rqg db = Inr (g, db') \<Longrightarrow> desk_step en db db'"
| desk_timed: "create_sla_timer i t h h' db = (tm, db') \<Longrightarrow> desk_step en db db'"
| desk_checked: "check_and_update_sla_breaches t db = (tms, db') \<Longrightarrow> desk_step en db db'"
| desk_elsewhere: "env_now (jd_env db) \<le> env_now (gd_env gov) \<Longrightarrow> env_next_id (jd_env db) \<le> env_next_id (gd_env gov)
    \<Longrightarrow> desk_step en db (db\<lparr>jd_entities := es, jd_accounts := as, jd_coa := cs, jd_rates := rm, jd_gov := gov\<rparr>)"

abbreviation desk_history :: "journal_engine \<Rightarrow> journal_db \<Rightarrow> journal_db \<Rightarrow> bool" where
  "desk_history en \<equiv> (desk_step en)\<^sup>*\<^sup>*"

lemma desk_step_journal: "desk_step en db db' \<Longrightarrow> journal_step en db db'"
  by (induction rule: desk_step.induct)
    (erule drafted submitted reviewed journal_step.approved journal_step.posted reversed imported timed checked | rule elsewhere, assumption+)+

lemma desk_history_journal: "desk_history en db db' \<Longrightarrow> journal_history en db db'"
  by (induction rule: rtranclp_induct) (auto intro: rtranclp.rtrancl_into_rtrancl desk_step_journal)

lemma timer_idle: "create_sla_timer i t h h' db = (tm, db') \<Longrightarrow> table_move desk db db'"
  by (rule table_move.idle) (auto simp: create_sla_timer_def Let_def split: option.splits)

lemma check_idle: "check_and_update_sla_breaches t db = (tms, db') \<Longrightarrow> table_move desk db db'"
  by (rule table_move.idle) (auto simp: check_and_update_sla_breaches_def Let_def)

lemma import_moves: "create_gl_entry en se t rq db = Inr (g, db') \<Longrightarrow> table_move desk db db'"
proof -
  assume c: "create_gl_entry en se t rq db = Inr (g, db')"
  note f = create_gl_entry_facts [OF c]
  have "\<not> from_journal g" using f(3) by (simp add: from_journal_def)
  then show ?thesis by (intro table_move.single [OF _ _ _ f(1)]) (use f(2) in \<open>simp_all add: same_vouchers_def\<close>)
qed

lemma elsewhere_idle: "table_move desk db (db\<lparr>jd_entities := es, jd_accounts := as, jd_coa := cs, jd_rates := rm, jd_gov := gov\<rparr>)"
  by (rule table_move.idle) simp_all

lemma desk_step_moves:
  assumes "desk_step en db db'" and ok: "vouchers_ok db"
  shows "table_moves True db db'"
  using assms(1)
  by (cases rule: desk_step.cases)
    (auto intro: draft_moves [OF ok] submit_moves [OF ok] review_moves [OF ok] approve_moves [OF ok] post_moves [OF ok] reverse_moves [OF ok]
      r_into_rtranclp import_moves timer_idle check_idle elsewhere_idle)

lemma journal_step_moves:
  assumes "journal_step en db db'" and ok: "vouchers_ok db"
  shows "table_moves False db db'"
  using assms(1)
proof cases
  case created
  then show ?thesis by (intro r_into_rtranclp create_moves [OF ok])
next
  case updated
  then show ?thesis by (intro r_into_rtranclp update_moves [OF ok])
next
  case moved
  then show ?thesis by (intro r_into_rtranclp transition_moves [OF ok])
next
  case decided
  then show ?thesis by (rule approval_moves [OF ok])
next
  case drafted
  then show ?thesis by (rule draft_moves [OF ok])
next
  case submitted
  then show ?thesis by (rule submit_moves [OF ok])
next
  case reviewed
  then show ?thesis by (rule review_moves [OF ok])
next
  case approved
  then show ?thesis by (rule approve_moves [OF ok])
next
  case posted
  then show ?thesis by (rule post_moves [OF ok])
next
  case reversed
  then show ?thesis by (rule reverse_moves [OF ok])
next
  case imported
  then show ?thesis by (intro r_into_rtranclp import_moves)
next
  case timed
  then show ?thesis by (intro r_into_rtranclp timer_idle)
next
  case checked
  then show ?thesis by (intro r_into_rtranclp check_idle)
next
  case elsewhere
  then show ?thesis by (simp add: r_into_rtranclp elsewhere_idle)
qed

end
