(* ===== verification/Journal_Books.thy ===== *)
theory Journal_Books
  imports Journal_Moves
begin

text \<open>
  An invariant of the moves of Journal\_Moves, and so of every history: ids and numbers identify vouchers, the ledger entries of a
  voucher are those of its active lines and exist only of posted or voided vouchers, and the events of a voucher are bounded.
  At the journal desk, every approval is somebody else's than the maker's, except that of a reversal.
\<close>

section \<open>The invariant\<close>

definition keyed :: "jv set \<Rightarrow> bool" where
  "keyed js \<longleftrightarrow> (\<forall>j \<in> js. \<forall>k \<in> js. jv_id j = jv_id k \<or> (jv_tenant_id j, jv_number j) = (jv_tenant_id k, jv_number k) \<longrightarrow> j = k)"

text \<open>The entries that the postings of a voucher left in the ledger.\<close>

definition is_entry_of :: "jv \<Rightarrow> gl_entry \<Rightarrow> bool" where
  "is_entry_of j g \<longleftrightarrow> from_journal g \<and> ge_tenant_id g = jv_tenant_id j \<and> ge_source_ref g = Some (jv_number j)"

definition journal_entries :: "jv \<Rightarrow> journal_db \<Rightarrow> gl_entry list" where
  "journal_entries j db = filter (is_entry_of j) (jd_gl db)"

definition retries :: "jv_event list \<Rightarrow> nat" where
  "retries es = length (filter (\<lambda>e. je_from_status e = PUSH_FAILED \<and> je_to_status e = PUSH_IN_PROGRESS) es)"

text \<open>An event of approval that the desk allows, and when a voucher must have one.\<close>

definition approval_event :: "jv \<Rightarrow> jv_event \<Rightarrow> bool" where
  "approval_event j e \<longleftrightarrow> je_to_status e = APPROVED
     \<and> (je_triggered_by e \<noteq> jv_created_by j \<or> je_from_status e = DRAFT \<and> is_reversal j)"

definition desk_ok :: "jv \<Rightarrow> jv_event list \<Rightarrow> bool" where
  "desk_ok j es \<longleftrightarrow> jv_status j \<noteq> PUSH_IN_PROGRESS \<and> (\<forall>e \<in> set es. je_to_status e = APPROVED \<longrightarrow> approval_event j e)
     \<and> (jv_status j \<in> {APPROVED, PUSHED, VOIDED} \<longrightarrow> (\<exists>e \<in> set es. approval_event j e))"

definition voucher_ok :: "bool \<Rightarrow> jv \<Rightarrow> jv_event list \<Rightarrow> gl_entry list \<Rightarrow> jv_line list \<Rightarrow> bool" where
  "voucher_ok desk j es gs ls \<longleftrightarrow> count_ok (jv_status j, jv_resubmission_count j)
     \<and> length es + transitions_left (jv_status j, jv_resubmission_count j) \<le> 19 + 2 * retries es
     \<and> (gs = [] \<or> jv_status j \<in> {PUSHED, VOIDED} \<and> (\<exists>entity. list_all2 (entry_from j entity) ls gs))
     \<and> (desk \<longrightarrow> desk_ok j es \<and> (jv_status j = PUSHED \<longrightarrow> (\<exists>entity. list_all2 (entry_from j entity) ls gs)))"

definition books_ok :: "bool \<Rightarrow> journal_db \<Rightarrow> bool" where
  "books_ok desk db \<longleftrightarrow> keyed (set (jd_jvs db)) \<and> (\<forall>g \<in> set (jd_gl db). from_journal g \<longrightarrow> (\<exists>j \<in> set (jd_jvs db). is_entry_of j g))
     \<and> (\<forall>j \<in> set (jd_jvs db). voucher_ok desk j (events_of (jv_id j) db) (journal_entries j db) (active_journal_lines j db))"

section \<open>What a move leaves alone\<close>

lemma active_lines_cong:
  "lines_of (jv_id j) db' = lines_of (jv_id j) db \<Longrightarrow> jv_id j' = jv_id j \<Longrightarrow> active_journal_lines j' db' = active_journal_lines j db"
  by (simp add: active_journal_lines_def Let_def)

lemma same_identity_facts:
  assumes "same_identity j j'"
  shows "jv_id j' = jv_id j" "is_entry_of j' = is_entry_of j" "entry_from j' = entry_from j" "approval_event j' = approval_event j"
    "journal_entries j' db = journal_entries j db"
proof -
  show e: "is_entry_of j' = is_entry_of j" using assms by (simp add: same_identity_def is_entry_of_def fun_eq_iff)
  show "jv_id j' = jv_id j" "entry_from j' = entry_from j" "approval_event j' = approval_event j"
    using assms by (auto simp: same_identity_def entry_from_def approval_event_def is_reversal_def fun_eq_iff)
  show "journal_entries j' db = journal_entries j db" by (simp add: journal_entries_def e)
qed

lemma same_identity_refl: "same_identity j j"
  by (simp add: same_identity_def)

lemma keyed_update: "keyed js \<Longrightarrow> j \<in> js \<Longrightarrow> same_identity j j' \<Longrightarrow> keyed (insert j' (js - {j}))"
  unfolding keyed_def same_identity_def by (auto 4 3)

lemma keyed_other: "keyed js \<Longrightarrow> j \<in> js \<Longrightarrow> k \<in> js - {j} \<Longrightarrow> jv_id k \<noteq> jv_id j \<and> (jv_tenant_id k, jv_number k) \<noteq> (jv_tenant_id j, jv_number j)"
  unfolding keyed_def by auto

lemma keyed_born:
  "keyed js \<Longrightarrow> \<forall>k \<in> js. jv_id k \<noteq> jv_id j \<and> (jv_tenant_id k, jv_number k) \<noteq> (jv_tenant_id j, jv_number j) \<Longrightarrow> keyed (insert j js)"
  unfolding keyed_def by (auto 4 3)

lemma lines_of_appended: "jd_lines db' = jd_lines db @ ls \<Longrightarrow> \<forall>l \<in> set ls. jl_jv_id l = i \<Longrightarrow> k \<noteq> i \<Longrightarrow> lines_of k db' = lines_of k db"
  by (auto simp: lines_of_def filter_empty_conv)

lemma owned_update:
  assumes "\<exists>k \<in> js. is_entry_of k g" and "same_identity j j'"
  shows "\<exists>k \<in> insert j' (js - {j}). is_entry_of k g"
proof -
  obtain k where k: "k \<in> js" "is_entry_of k g" using assms(1) by (rule bexE)
  show ?thesis
  proof (cases "k = j")
    case True
    then show ?thesis using k(2) same_identity_facts(2) [OF assms(2)] by simp
  next
    case False
    then show ?thesis using k by blast
  qed
qed

section \<open>Moves keep the invariant\<close>

lemma books_idle:
  assumes "books_ok desk db" and "jd_jvs db' = jd_jvs db" and "jd_lines db' = jd_lines db" and "jd_events db' = jd_events db"
    and gl: "filter from_journal (jd_gl db') = filter from_journal (jd_gl db)"
  shows "books_ok desk db'"
proof -
  have e: "journal_entries j x = filter (is_entry_of j) (filter from_journal (jd_gl x))" for j x
    unfolding journal_entries_def filter_filter by (rule filter_cong) (auto simp: is_entry_of_def)
  have "journal_entries j db' = journal_entries j db" for j unfolding e gl by (rule refl)
  moreover have "active_journal_lines j db' = active_journal_lines j db" for j
    by (rule active_lines_cong) (simp_all add: lines_of_def assms(3))
  moreover have "events_of i db' = events_of i db" for i by (simp add: events_of_def assms(4))
  moreover have "{g \<in> set (jd_gl db'). from_journal g} = {g \<in> set (jd_gl db). from_journal g}" using gl by (metis set_filter)
  ultimately show ?thesis using assms(1,2) unfolding books_ok_def by auto
qed

lemma books_put:
  assumes ok: "books_ok desk db" and j: "j \<in> set (jd_jvs db)" "same_identity j j'" and set: "set (jd_jvs db') = insert j' (set (jd_jvs db) - {j})"
    and other: "\<And>k. k \<noteq> jv_id j \<Longrightarrow> events_of k db' = events_of k db \<and> lines_of k db' = lines_of k db"
    and gl: "\<And>k. k \<in> set (jd_jvs db) - {j} \<Longrightarrow> journal_entries k db' = journal_entries k db"
    and owned: "\<forall>g \<in> set (jd_gl db'). from_journal g \<longrightarrow> g \<in> set (jd_gl db) \<or> is_entry_of j g"
    and mine: "voucher_ok desk j' (events_of (jv_id j) db') (journal_entries j db') (active_journal_lines j db')"
  shows "books_ok desk db'"
proof -
  note f = same_identity_facts [OF j(2)]
  have key: "keyed (set (jd_jvs db))" using ok by (simp add: books_ok_def)
  have "voucher_ok desk k (events_of (jv_id k) db') (journal_entries k db') (active_journal_lines k db')" if "k \<in> set (jd_jvs db')" for k
  proof (cases "k = j'")
    case True
    have "active_journal_lines j' db' = active_journal_lines j db'" by (rule active_lines_cong) (simp_all add: f)
    then show ?thesis using mine by (simp add: True f)
  next
    case False
    then have k: "k \<in> set (jd_jvs db) - {j}" using that set by simp
    have o: "events_of (jv_id k) db' = events_of (jv_id k) db" "lines_of (jv_id k) db' = lines_of (jv_id k) db"
      using other keyed_other [OF key j(1) k] by simp_all
    have "active_journal_lines k db' = active_journal_lines k db" by (rule active_lines_cong [OF o(2)]) simp
    then show ?thesis using ok k gl [OF k] o(1) by (simp add: books_ok_def)
  qed
  moreover have "\<exists>k \<in> set (jd_jvs db'). is_entry_of k g" if "g \<in> set (jd_gl db')" "from_journal g" for g
  proof -
    have "\<exists>k \<in> set (jd_jvs db). is_entry_of k g" using owned that ok j(1) by (auto simp: books_ok_def)
    then show ?thesis unfolding set by (rule owned_update) (rule j(2))
  qed
  moreover have "keyed (set (jd_jvs db'))" unfolding set by (rule keyed_update [OF key j])
  ultimately show ?thesis by (simp add: books_ok_def)
qed

text \<open>A change of status: the bounds on the events, and the approvals, follow it.\<close>

lemma retries_snoc: "retries (es @ [e]) = retries es + (if je_from_status e = PUSH_FAILED \<and> je_to_status e = PUSH_IN_PROGRESS then 1 else 0)"
  by (simp add: retries_def)

lemma voucher_status:
  assumes ok: "voucher_ok desk j es gs ls" and i: "same_identity j j'"
    and life: "life_step (jv_status j, jv_resubmission_count j) (jv_status j', jv_resubmission_count j')"
    and e: "je_from_status e = jv_status j" "je_to_status e = jv_status j'" "desk \<Longrightarrow> desk_allows j (jv_status j') (je_triggered_by e)"
    and gs: "gs' = [] \<and> (desk \<longrightarrow> jv_status j' \<noteq> PUSHED) \<or> jv_status j' \<in> {PUSHED, VOIDED} \<and> (\<exists>entity. list_all2 (entry_from j entity) ls gs')"
  shows "voucher_ok desk j' (es @ [e]) gs' ls"
proof -
  have c: "count_ok (jv_status j', jv_resubmission_count j')"
    using life_step_count [OF life] ok by (simp add: voucher_ok_def)
  have "length (es @ [e]) + transitions_left (jv_status j', jv_resubmission_count j') \<le> 19 + 2 * retries (es @ [e])"
    using life_step_left [OF life] ok e(1,2) by (simp add: voucher_ok_def retries_snoc split: if_splits)
  moreover have "desk_ok j' (es @ [e])" if desk
  proof -
    have d: "desk_ok j es" using ok that by (simp add: voucher_ok_def)
    have a: "(jv_status j, jv_status j') \<in> set DIRECT_WRITES" "jv_status j' = APPROVED \<Longrightarrow> approval_event j e"
      using e(3) [OF that] e(1,2) by (auto simp: desk_allows_def approval_event_def)
    have s: "jv_status j' \<noteq> PUSH_IN_PROGRESS" "jv_status j' \<in> {PUSHED, VOIDED} \<Longrightarrow> jv_status j \<in> {APPROVED, PUSHED, PUSH_IN_PROGRESS}"
      using a(1) by (auto simp: DIRECT_WRITES_def)
    show ?thesis
      unfolding desk_ok_def same_identity_facts(4) [OF i]
      using d a(2) s e(2) by (auto simp: desk_ok_def)
  qed
  ultimately show ?thesis using c gs same_identity_facts(3) [OF i] by (auto simp: voucher_ok_def)
qed

lemma books_moved:
  assumes ok: "books_ok desk db" and w: "writes_status desk j j' db db'"
    and gl: "\<And>k. k \<in> set (jd_jvs db) - {j} \<Longrightarrow> journal_entries k db' = journal_entries k db"
    and owned: "\<forall>g \<in> set (jd_gl db'). from_journal g \<longrightarrow> g \<in> set (jd_gl db) \<or> is_entry_of j g"
    and gs: "journal_entries j db' = [] \<and> (desk \<longrightarrow> jv_status j' \<noteq> PUSHED) \<or> jv_status j' \<in> {PUSHED, VOIDED} \<and> (\<exists>entity. list_all2 (entry_from j entity) (active_journal_lines j db) (journal_entries j db'))"
  shows "books_ok desk db'"
proof -
  have j: "j \<in> set (jd_jvs db)" "same_identity j j'" and set: "set (jd_jvs db') = insert j' (set (jd_jvs db) - {j})"
    and life: "life_step (jv_status j, jv_resubmission_count j) (jv_status j', jv_resubmission_count j')"
    and lines: "\<And>i. lines_of i db' = lines_of i db"
    using w by (simp_all add: writes_status_def lines_of_def)
  obtain e where e: "jd_events db' = jd_events db @ [e]" "je_jv_id e = jv_id j" "je_from_status e = jv_status j" "je_to_status e = jv_status j'"
    "desk \<longrightarrow> desk_allows j (jv_status j') (je_triggered_by e)" using w by (auto simp: writes_status_def)
  have act: "active_journal_lines j db' = active_journal_lines j db" by (rule active_lines_cong) (simp_all add: lines)
  have ev: "events_of (jv_id j) db' = events_of (jv_id j) db @ [e]" using e by (simp add: events_of_def)
  have v: "voucher_ok desk j (events_of (jv_id j) db) (journal_entries j db) (active_journal_lines j db)"
    using ok j(1) by (simp add: books_ok_def)
  have mine: "voucher_ok desk j' (events_of (jv_id j) db') (journal_entries j db') (active_journal_lines j db')"
    unfolding act ev by (rule voucher_status [OF v j(2) life e(3,4) _ gs]) (use e(5) in simp)
  show ?thesis
    by (rule books_put [OF ok j set _ gl owned mine]) (use e lines in \<open>simp_all add: events_of_def\<close>)
qed

lemma posted_stays: "life_step (s, n) (t, m) \<Longrightarrow> s \<in> {PUSHED, VOIDED} \<Longrightarrow> t = VOIDED"
  by (auto simp: life_step_iff ALLOWED_TRANSITIONS_def DIRECT_WRITES_def)

lemma entry_of_voucher: "entry_from j entity l g \<Longrightarrow> is_entry_of j g"
  by (auto simp: entry_from_def is_entry_of_def from_journal_def block_key_def)

lemma entries_of_voucher: "list_all2 (entry_from j entity) ls rows \<Longrightarrow> \<forall>g \<in> set rows. is_entry_of j g"
  by (auto simp: list_all2_conv_all_nth in_set_conv_nth dest!: entry_of_voucher)

lemma draft_without_entries: "voucher_ok desk j es gs ls \<Longrightarrow> jv_status j = DRAFT \<Longrightarrow> gs = []"
  by (auto simp: voucher_ok_def)

lemma same_entries: "jd_gl db' = jd_gl db \<Longrightarrow> journal_entries j db' = journal_entries j db"
  by (simp add: journal_entries_def)

lemma books_born:
  assumes ok: "books_ok desk db" and set: "set (jd_jvs db') = insert j (set (jd_jvs db))" and st: "jv_status j = DRAFT" "jv_resubmission_count j = 0"
    and new: "\<forall>k \<in> set (jd_jvs db). jv_id k \<noteq> jv_id j \<and> (jv_tenant_id k, jv_number k) \<noteq> (jv_tenant_id j, jv_number j)"
    and none: "events_of (jv_id j) db = []" and lines: "jd_lines db' = jd_lines db @ ls" "\<forall>l \<in> set ls. jl_jv_id l = jv_id j"
    and rest: "jd_events db' = jd_events db" "jd_gl db' = jd_gl db"
  shows "books_ok desk db'"
proof -
  have ev: "events_of i db' = events_of i db" for i by (simp add: events_of_def rest)
  have "journal_entries j db = []"
    using ok new by (auto simp: journal_entries_def filter_empty_conv books_ok_def is_entry_of_def)
  then have "voucher_ok desk j (events_of (jv_id j) db') (journal_entries j db') (active_journal_lines j db')"
    by (simp add: ev none same_entries [OF rest(2)] voucher_ok_def st review_left_def rejected_left_def desk_ok_def retries_def MAX_RESUBMISSIONS_def)
  moreover have "voucher_ok desk k (events_of (jv_id k) db') (journal_entries k db') (active_journal_lines k db')" if "k \<in> set (jd_jvs db)" for k
  proof -
    have "jv_id k \<noteq> jv_id j" using new that by simp
    then have "active_journal_lines k db' = active_journal_lines k db" by (intro active_lines_cong lines_of_appended [OF lines]) simp_all
    then show ?thesis using ok that by (simp add: ev same_entries [OF rest(2)] books_ok_def)
  qed
  ultimately show ?thesis
    using ok keyed_born [OF _ new] unfolding books_ok_def set rest(2) by auto
qed

lemma books_move:
  assumes "table_move desk db db'" and ok: "books_ok desk db"
  shows "books_ok desk db'"
  using assms(1)
proof (cases rule: table_move.cases)
  assume "jd_jvs db' = jd_jvs db" "jd_lines db' = jd_lines db" "jd_events db' = jd_events db" "jd_gl db' = jd_gl db"
  then show ?thesis by (intro books_idle [OF ok]) simp_all
next
  fix g assume "jd_jvs db' = jd_jvs db" "jd_lines db' = jd_lines db" "jd_events db' = jd_events db" "jd_gl db' = jd_gl db @ [g]" "\<not> from_journal g"
  then show ?thesis by (intro books_idle [OF ok]) simp_all
next
  fix j ls assume "set (jd_jvs db') = insert j (set (jd_jvs db))" "jv_status j = DRAFT" "jv_resubmission_count j = 0"
    "\<forall>k \<in> set (jd_jvs db). jv_id k \<noteq> jv_id j \<and> (jv_tenant_id k, jv_number k) \<noteq> (jv_tenant_id j, jv_number j)"
    "events_of (jv_id j) db = []" "jd_lines db' = jd_lines db @ ls" "\<forall>l \<in> set ls. jl_jv_id l = jv_id j"
    "jd_events db' = jd_events db" "jd_gl db' = jd_gl db"
  then show ?thesis by (rule books_born [OF ok])
next
  fix j j' ls
  assume j: "j \<in> set (jd_jvs db)" and st: "jv_status j = DRAFT" and i: "same_identity j j'" and st': "jv_status j' = jv_status j"
    "jv_resubmission_count j' = jv_resubmission_count j" and set: "set (jd_jvs db') = insert j' (set (jd_jvs db) - {j})"
    and lines: "jd_lines db' = jd_lines db @ ls" "\<forall>l \<in> set ls. jl_jv_id l = jv_id j" and rest: "jd_events db' = jd_events db" "jd_gl db' = jd_gl db"
  have v: "voucher_ok desk j (events_of (jv_id j) db) (journal_entries j db) (active_journal_lines j db)"
    using ok j by (simp add: books_ok_def)
  have ev: "events_of k db' = events_of k db" for k by (simp add: events_of_def rest)
  have "desk_ok j' es = desk_ok j es" for es by (simp add: desk_ok_def st' same_identity_facts(4) [OF i])
  then have "voucher_ok desk j' (events_of (jv_id j) db') (journal_entries j db') (active_journal_lines j db')"
    using v draft_without_entries [OF v st] by (simp add: voucher_ok_def ev st st' same_entries [OF rest(2)])
  then show ?thesis
    by (intro books_put [OF ok j i set]) (use rest in \<open>auto simp: ev same_entries [OF rest(2)] lines_of_appended [OF lines]\<close>)
next
  fix j j' assume w: "writes_status desk j j' db db'" and np: "desk \<Longrightarrow> jv_status j' \<noteq> PUSHED" and gl: "jd_gl db' = jd_gl db"
  have j: "j \<in> set (jd_jvs db)" and life: "life_step (jv_status j, jv_resubmission_count j) (jv_status j', jv_resubmission_count j')"
    using w by (simp_all add: writes_status_def)
  have "voucher_ok desk j (events_of (jv_id j) db) (journal_entries j db) (active_journal_lines j db)"
    using ok j by (simp add: books_ok_def)
  then show ?thesis
    by (intro books_moved [OF ok w]) (use posted_stays [OF life] np in \<open>auto simp: same_entries [OF gl] gl voucher_ok_def\<close>)
next
  fix j j' rows entity
  assume w: "writes_status desk j j' db db'" and st: "jv_status j' = PUSHED" and none: "gl_entries_for_journal (jv_tenant_id j) (jv_number j) db = []"
    and gl: "jd_gl db' = jd_gl db @ rows" and rows: "list_all2 (entry_from j entity) (active_journal_lines j db) rows"
  note own = entries_of_voucher [OF rows]
  have j: "j \<in> set (jd_jvs db)" and key: "keyed (set (jd_jvs db))" using w ok by (simp_all add: writes_status_def books_ok_def)
  have "journal_entries j db = []"
    using none by (auto simp: journal_entries_def gl_entries_for_journal_def filter_empty_conv is_entry_of_def)
  then have mine: "journal_entries j db' = rows" using own by (simp add: journal_entries_def gl)
  have other: "journal_entries k db' = journal_entries k db" if "k \<in> set (jd_jvs db) - {j}" for k
    using own keyed_other [OF key j that] by (auto simp: journal_entries_def gl filter_empty_conv is_entry_of_def)
  show ?thesis
    by (rule books_moved [OF ok w other]) (use own rows st mine in \<open>auto simp: gl\<close>)
qed

lemma books_moves: "table_moves desk db db' \<Longrightarrow> books_ok desk db \<Longrightarrow> books_ok desk db'"
  by (induction rule: rtranclp_induct) (simp_all add: books_move)

section \<open>Histories\<close>

lemma no_journals_books: "no_journals db \<Longrightarrow> books_ok desk db"
  by (simp add: no_journals_def books_ok_def keyed_def)

lemma history_books:
  assumes "no_journals db0" and "journal_history en db0 db"
  shows "vouchers_ok db \<and> books_ok False db"
  using assms(2)
proof (induction rule: rtranclp_induct)
  case base
  show ?case using no_journals_ok [OF assms(1)] no_journals_books [OF assms(1)] by simp
next
  case (step db1 db2)
  then have "sound db1 db2" "table_moves False db1 db2" using journal_step_sound journal_step_moves by simp_all
  then show ?case using step.IH books_moves by (simp add: sound_def)
qed

lemma desk_books:
  assumes "no_journals db0" and "desk_history en db0 db"
  shows "vouchers_ok db \<and> books_ok True db"
  using assms(2)
proof (induction rule: rtranclp_induct)
  case base
  show ?case using no_journals_ok [OF assms(1)] no_journals_books [OF assms(1)] by simp
next
  case (step db1 db2)
  then have "sound db1 db2" "table_moves True db1 db2" using journal_step_sound [OF desk_step_journal] desk_step_moves by simp_all
  then show ?case using step.IH books_moves by (simp add: sound_def)
qed

end
