(* ===== verification/Journal_Example.thy ===== *)
theory Journal_Example
  imports Journal_Books
begin

text \<open>
  A journal of two lines on its way through the workflow: the concrete histories on which the
  properties of the ledger are tried.
\<close>

definition ex_desk :: journal_engine where
  "ex_desk = \<lparr>jg_sha = (\<lambda>_. ''h''), jg_dec_str = (\<lambda>_. ''d''), jg_iso = (\<lambda>_. ''t''), jg_babel = None\<rparr>"

definition ex_session :: session where
  "ex_session = \<lparr>se_context = Some \<lparr>mc_intent_id = 1, mc_job_id = 2\<rparr>, se_started = 1713600000000000, se_today = Date 2024 4 20\<rparr>"

definition ex_entity :: cp_entity where
  "ex_entity = \<lparr>ce_id = 4, ce_tenant_id = 7, ce_entity_name = ''Acme'', ce_base_currency = ''INR''\<rparr>"

definition ex_account :: "uuid \<Rightarrow> string \<Rightarrow> coa_account" where
  "ex_account i code = \<lparr>ca_id = i, ca_tenant_id = 7, ca_account_code = code, ca_display_name = code, ca_is_active = True, ca_ledger_account_id = None\<rparr>"

definition ex_books :: journal_db where
  "ex_books = \<lparr>jd_jvs = [], jd_lines = [], jd_events = [], jd_approvals = [], jd_timers = [], jd_gl = [],
     jd_entities = [ex_entity], jd_accounts = [ex_account 1 ''CASH'', ex_account 2 ''SALES''], jd_coa = [],
     jd_rates = \<lparr>rm_rows = [], rm_now = 0, rm_next_id = 0\<rparr>, jd_gov = no_periods\<rparr>"

text \<open>A cash sale of 250 rupees, requested by user 8.\<close>

definition ex_own_line :: "string \<Rightarrow> rat \<Rightarrow> rat \<Rightarrow> journal_line_create" where
  "ex_own_line account debit credit = \<lparr>jc_account_code = Some account, jc_tenant_coa_account_id = None, jc_debit = debit, jc_credit = credit,
     jc_memo = None, jc_transaction_currency = None, jc_functional_currency = None, jc_fx_rate = None, jc_base_amount = None\<rparr>"

definition ex_sale :: journal_create where
  "ex_sale = \<lparr>jq_org_entity_id = 4, jq_journal_date = Date 2024 3 15, jq_reference = None, jq_narration = None,
     jq_lines = [ex_own_line ''CASH'' 250 0, ex_own_line ''SALES'' 0 250]\<rparr>"

definition ex_prepared :: "string \<Rightarrow> uuid \<Rightarrow> entry_type \<Rightarrow> prepared_line" where
  "ex_prepared account i side = \<lparr>pr_account_id = i, pr_account_code = account, pr_account_name = account, pr_entry_type = side, pr_amount = 250,
     pr_transaction_currency = ''INR'', pr_functional_currency = ''INR'', pr_fx_rate = None, pr_base_amount = 250, pr_memo = None\<rparr>"

definition ex_voucher :: jv_input where
  "ex_voucher = \<lparr>ji_entity_id = 4, ji_created_by = 8, ji_period_date = Date 2024 3 15, ji_fiscal_year = 2024, ji_fiscal_period = 3,
     ji_description = None, ji_reference = None, ji_source = ''MANUAL'', ji_external_reference_id = None, ji_currency = ''INR'',
     ji_location_id = None, ji_cost_centre_id = None, ji_workflow_instance_id = None,
     ji_lines = [draft_line 4 (ex_prepared ''CASH'' 1 DEBIT), draft_line 4 (ex_prepared ''SALES'' 2 CREDIT)]\<rparr>"

definition ex_stored :: "uuid \<Rightarrow> nat \<Rightarrow> string \<Rightarrow> entry_type \<Rightarrow> jv_line" where
  "ex_stored i n account side =
     \<lparr>jl_id = i, jl_tenant_id = 7, jl_chain_hash = ''h'', jl_previous_hash = ''h'', jl_jv_id = 17, jl_jv_version = 1, jl_line_number = n,
      jl_account_code = account, jl_account_name = Some account, jl_entry_type = side, jl_amount = 250, jl_currency = ''INR'',
      jl_transaction_currency = Some ''INR'', jl_functional_currency = Some ''INR'', jl_fx_rate = None, jl_amount_inr = Some 250,
      jl_base_amount = Some 250, jl_entity_id = 4, jl_location_id = None, jl_cost_centre_id = None, jl_narration = None,
      jl_tax_code = None, jl_is_tax_line = False, jl_created_by_intent_id = 1, jl_recorded_by_job_id = 2\<rparr>"

definition ex_columns :: "gl_entry \<Rightarrow> string \<times> rat \<times> rat" where
  "ex_columns g = (ge_account_code g, ge_debit_amount g, ge_credit_amount g)"

definition ex_entry :: "gl_entry \<Rightarrow> bool" where
  "ex_entry g \<longleftrightarrow> ge_tenant_id g = 7 \<and> ge_entity_id g = Some 4 \<and> ge_account_name g = ge_account_code g
     \<and> ge_source_ref g = Some ''JV-2024-03-0001''"

text \<open>The tables when the journal has the given status; no period is locked and no policy set.\<close>

definition ex_at :: "journal_status \<Rightarrow> journal_db \<Rightarrow> bool" where
  "ex_at st db \<longleftrightarrow> (\<exists>j. jd_jvs db = [j] \<and> jv_id j = 17 \<and> jv_tenant_id j = 7 \<and> jv_entity_id j = 4 \<and> jv_created_by j = 8 \<and> jv_reference j = None
       \<and> jv_status j = st \<and> jv_version j = 1 \<and> jv_fiscal_year j = 2024 \<and> jv_fiscal_period j = 3 \<and> jv_chain_hash j = ''h''
       \<and> jv_number j = ''JV-2024-03-0001'' \<and> (st \<noteq> UNDER_REVIEW \<or> jv_first_reviewed_at j \<noteq> None)
       \<and> jv_total_debit j = 250 \<and> jv_total_credit j = 250 \<and> jv_resubmission_count j = 0)
     \<and> jd_lines db = [ex_stored 18 1 ''CASH'' DEBIT, ex_stored 19 2 ''SALES'' CREDIT]
     \<and> map ex_columns (jd_gl db) = (if st = PUSHED then [(''CASH'', 250, 0), (''SALES'', 0, 250)] else [])
     \<and> list_all ex_entry (jd_gl db)
     \<and> jd_accounts db = [ex_account 1 ''CASH'', ex_account 2 ''SALES''] \<and> jd_coa db = []
     \<and> jd_entities db = [ex_entity] \<and> gd_periods (jd_gov db) = [] \<and> gd_policies (jd_gov db) = []"

lemma ex_texts:
  "py_upper ''DEBIT'' = ''DEBIT''" "py_upper ''CREDIT'' = ''CREDIT''" "py_upper ''INR'' = ''INR''"
  "jv_number_text 2024 3 1 = ''JV-2024-03-0001''" "jv_number_text 2024 4 1 = ''JV-2024-04-0001''"
  by code_simp+

lemma ex_250: "numeric_20_4 250 = Inr 250" "numeric_20_6 250 = Inr 250" "numeric_20_6 0 = Inr 0" "dadd 0 250 = 250"
proof -
  have m: "micro 250" unfolding micro_iff by (rule exI [of _ 250000000]) simp
  show "numeric_20_4 250 = Inr 250" using round_half_up_of_int [of 2500000] by (simp add: numeric_20_4_def)
  show "numeric_20_6 250 = Inr 250" "numeric_20_6 0 = Inr 0" using m by (simp_all add: numeric_id)
  show "dadd 0 250 = 250" using m by (simp add: dadd_exact)
qed

lemma ex_open_period:
  "gd_periods gov = [] \<Longrightarrow> assert_period_allows_modification t e y n gov = Inr ()"
  "gd_periods gov = [] \<Longrightarrow> assert_period_allows_posting t e y n role' gov = Inr ()"
  "gd_policies gov = [] \<Longrightarrow> get_approval_policy t m gov
     = \<lparr>pc_require_reviewer = True, pc_require_distinct_approver = True, pc_require_distinct_poster = False\<rparr>"
  by (simp_all add: assert_period_allows_modification_def assert_period_allows_posting_def resolve_effective_period_lock_def
      period_rows_def get_approval_policy_def raise_if_def)

lemma ex_voucher_created: "\<exists>j db. create_jv ex_desk ex_session 7 ex_voucher ex_books = Inr (j, db) \<and> ex_at DRAFT db \<and> utcnow db = 103"
  by (simp add: create_jv_def ex_session_def require_mutation_context_def Let_def raise_if_def jv_conflict_def ex_books_def ex_voucher_def
      append_lines_def build_line_def py_get_def draft_line_def ex_prepared_def py_str_def ex_texts entry_named_def to_decimal_def new_jv_def
      store_line_def optionE_def side_total_def dsum_def put_jv_def ex_250 jd_tick_def tick_def next_uuid_def no_periods_def utcnow_def ex_at_def
      ex_stored_def ex_desk_def compute_hash_def generate_jv_number_def del: One_nat_def)

lemma emit_clock: "utcnow (emit_journal_event en j u r x ps db) = utcnow db + 1"
  by (simp add: emit_journal_event_def emit_governance_event_def insert_financial_record_def insert_record_def append_row_def tick_def Let_def
      utcnow_def)

lemma ex_emitted: "ex_at st db \<Longrightarrow> ex_at st (emit_journal_event en j u r x ps db)"
  by (simp add: ex_at_def) (simp add: emit_journal_event_def emit_governance_event_facts)

lemma ex_prepared_lines:
  "mapE (prepare_line ex_desk 7 (Date 2024 3 15) ex_entity ex_books) [ex_own_line ''CASH'' 250 0, ex_own_line ''SALES'' 0 250]
     = Inr [ex_prepared ''CASH'' 1 DEBIT, ex_prepared ''SALES'' 2 CREDIT]"
proof -
  have "py_strip ''CASH'' = ''CASH''" "py_strip ''SALES'' = ''SALES''" by code_simp+
  then show ?thesis
    by (simp add: prepare_line_def ex_own_line_def resolve_tenant_account_def active_accounts_def ex_books_def ex_account_def single_row_def
        absent_def or_text_def ex_entity_def ex_texts ex_prepared_def Let_def)
qed

lemma ex_journal_created: "\<exists>j db. create_journal_draft ex_desk ex_session 7 8 ex_sale ''MANUAL'' None ex_books = Inr (j, db) \<and> ex_at DRAFT db \<and> utcnow db = 104"
proof -
  obtain j db where c: "create_jv ex_desk ex_session 7 ex_voucher ex_books = Inr (j, db)" "ex_at DRAFT db" "utcnow db = 103"
    using ex_voucher_created by blast
  have ent: "get_entity_for_tenant 7 4 ex_books = Inr ex_entity" by (simp add: get_entity_for_tenant_def ex_books_def ex_entity_def)
  have gov: "gd_periods (jd_gov ex_books) = []" by (simp add: ex_books_def no_periods_def)
  have ctx: "require_mutation_context ex_session = Inr \<lparr>mc_intent_id = 1, mc_job_id = 2\<rparr>"
    by (simp add: require_mutation_context_def ex_session_def)
  have base: "ce_id ex_entity = 4" "ce_base_currency ex_entity = ''INR''" by (simp_all add: ex_entity_def)
  have tot: "prepared_total DEBIT [ex_prepared ''CASH'' 1 DEBIT, ex_prepared ''SALES'' 2 CREDIT] = 250"
    "prepared_total CREDIT [ex_prepared ''CASH'' 1 DEBIT, ex_prepared ''SALES'' 2 CREDIT] = 250"
    by (simp_all add: prepared_total_def ex_prepared_def dsum_def ex_250)
  have "create_journal_draft ex_desk ex_session 7 8 ex_sale ''MANUAL'' None ex_books
    = Inr (j, emit_journal_event ex_desk j 8 None ''JOURNAL_DRAFT_CREATE''
            [(''fiscal_year'', JInt (jv_fiscal_year j)), (''fiscal_period'', JInt (jv_fiscal_period j))] db)"
    using c(1) unfolding ex_voucher_def
    by (simp add: create_journal_draft_def ex_sale_def ent ctx base ex_open_period gov ex_prepared_lines tot raise_if_def del: mapE.simps One_nat_def)
  then show ?thesis using ex_emitted [OF c(2)] c(3) by (simp add: emit_clock)
qed

text \<open>The lookups every handler starts with, and what its last steps leave of the tables.\<close>

lemma ex_frame:
  assumes "append_journal_event en se j s s' u role' c db1 = Inr db2"
  shows "jd_jvs db2 = jd_jvs db1" "jd_lines db2 = jd_lines db1" "jd_entities db2 = jd_entities db1"
    "jd_gl db2 = jd_gl db1" "jd_accounts db2 = jd_accounts db1" "jd_coa db2 = jd_coa db1" "gd_periods (jd_gov db2) = gd_periods (jd_gov db1)" "gd_policies (jd_gov db2) = gd_policies (jd_gov db1)"
    "utcnow db2 = utcnow db1 + 1"
  using assms by (auto simp: append_journal_event_def Let_def result_simps jd_tick_def utcnow_def tick_def)

lemma ex_event: "\<exists>db2. append_journal_event ex_desk ex_session j s s' u role' c db1 = Inr db2"
  by (simp add: append_journal_event_def ex_session_def require_mutation_context_def Let_def)

lemma ex_put:
  "jd_jvs db = [j] \<Longrightarrow> jv_id j' = jv_id j \<Longrightarrow> put_jv j' (jd_tick db) = (jd_tick db)\<lparr>jd_jvs := [j']\<rparr>"
  by (simp add: put_jv_def jd_tick_def)

text \<open>Rewriting the journal, appending its event and emitting keeps the tables as far as \<open>ex_at\<close> looks.\<close>

lemma ex_moved:
  assumes "ex_at st db" and "jd_jvs db = [j]" and "append_journal_event ex_desk ex_session j' s st' u role' c (put_jv j' (jd_tick db)) = Inr db2"
    and st: "(st = PUSHED) = (st' = PUSHED)"
    and "\<exists>a b d e. j' = j\<lparr>jv_status := st', jv_submitted_at := a, jv_first_reviewed_at := Some b, jv_decided_at := d, jv_updated_at := e\<rparr>
       \<or> (j' = j\<lparr>jv_status := st', jv_submitted_at := a, jv_updated_at := e\<rparr> \<and> st' \<noteq> UNDER_REVIEW)"
  shows "ex_at st' (emit_journal_event en j' u role'' x ps db2)"
proof -
  have i: "jv_id j' = jv_id j" using assms(5) by auto
  show ?thesis
    using assms(1,2,4,5) ex_frame [OF assms(3)] unfolding ex_put [OF assms(2) i]
    by (auto simp: ex_at_def emit_journal_event_def emit_governance_event_facts jd_tick_def)
qed

lemma ex_submitted:
  assumes "ex_at DRAFT db"
  shows "\<exists>r db'. submit_journal ex_desk ex_session 7 17 8 None db = Inr (r, db') \<and> ex_at SUBMITTED db' \<and> utcnow db' = utcnow db + 3"
proof -
  obtain j where j: "jd_jvs db = [j]" "jv_id j = 17" "jv_tenant_id j = 7" "jv_status j = DRAFT" using assms by (auto simp: ex_at_def)
  let ?j = "j\<lparr>jv_status := SUBMITTED, jv_submitted_at := Some (utcnow db), jv_updated_at := utcnow db\<rparr>"
  have o: "open_journal ex_session 7 17 db = Inr j"
    using assms j by (simp add: open_journal_def require_mutation_context_def ex_session_def get_journal_aggregate_def ex_open_period ex_at_def)
  obtain db2 where e: "append_journal_event ex_desk ex_session ?j DRAFT SUBMITTED 8 (or_text None ''ACCOUNTING_SUBMITTER'')
      ''Submitted via /accounting/journals/{id}/submit'' (put_jv ?j (jd_tick db)) = Inr db2" using ex_event by blast
  have "ex_at SUBMITTED (emit_journal_event ex_desk ?j 8 None ''JOURNAL_SUBMIT'' [] db2)"
    by (rule ex_moved [OF assms j(1) e]) (use j in auto)
  then show ?thesis using o e j ex_frame(9) [OF e] by (simp add: submit_journal_def raise_if_def is_posted_status_def Let_def emit_clock)
qed

lemma ex_opened: "ex_at st db \<Longrightarrow> jd_jvs db = [j] \<Longrightarrow> open_journal ex_session 7 17 db = Inr j \<and> get_journal_aggregate 7 17 db = Inr j"
  by (simp add: open_journal_def require_mutation_context_def ex_session_def get_journal_aggregate_def ex_open_period ex_at_def)

lemma ex_reviewed:
  assumes "ex_at SUBMITTED db"
  shows "\<exists>r db'. review_journal ex_desk ex_session 7 17 9 None db = Inr (r, db') \<and> ex_at UNDER_REVIEW db' \<and> utcnow db' = utcnow db + 3"
proof -
  obtain j where j: "jd_jvs db = [j]" "jv_id j = 17" "jv_status j = SUBMITTED" using assms by (auto simp: ex_at_def)
  let ?j = "j\<lparr>jv_status := UNDER_REVIEW, jv_first_reviewed_at := or_now (jv_first_reviewed_at j) (utcnow db), jv_updated_at := utcnow db\<rparr>"
  have o: "open_journal ex_session 7 17 db = Inr j" using ex_opened [OF assms j(1)] by simp
  obtain db2 where e: "append_journal_event ex_desk ex_session ?j SUBMITTED UNDER_REVIEW 9 (or_text None ''ACCOUNTING_REVIEWER'')
      ''Reviewed via /accounting/journals/{id}/review'' (put_jv ?j (jd_tick db)) = Inr db2" using ex_event by blast
  have f: "\<exists>b. or_now (jv_first_reviewed_at j) (utcnow db) = Some b" by (simp add: or_now_def split: option.split)
  have "\<exists>a b d e. ?j = j\<lparr>jv_status := UNDER_REVIEW, jv_submitted_at := a, jv_first_reviewed_at := Some b, jv_decided_at := d, jv_updated_at := e\<rparr>"
    using f by (intro exI [of _ "jv_submitted_at j"] exI [of _ "the (or_now (jv_first_reviewed_at j) (utcnow db))"]
      exI [of _ "jv_decided_at j"] exI [of _ "utcnow db"]) auto
  then have "ex_at UNDER_REVIEW (emit_journal_event ex_desk ?j 9 None ''JOURNAL_REVIEW'' [] db2)"
    by (intro ex_moved [OF assms j(1) e]) auto
  then show ?thesis using o e j ex_frame(9) [OF e] by (simp add: review_journal_def raise_if_def is_posted_status_def Let_def emit_clock)
qed

lemma ex_approved:
  assumes "ex_at UNDER_REVIEW db"
  shows "\<exists>r db'. approve_journal ex_desk ex_session 7 17 9 None db = Inr (r, db') \<and> ex_at APPROVED db' \<and> utcnow db' = utcnow db + 3"
proof -
  obtain j where j: "jd_jvs db = [j]" "jv_id j = 17" "jv_status j = UNDER_REVIEW" "jv_created_by j = 8" using assms by (auto simp: ex_at_def)
  let ?j = "approved j (utcnow db)"
  have o: "open_journal ex_session 7 17 db = Inr j" using ex_opened [OF assms j(1)] by simp
  have c: "check_approval 7 j 9 db = Inr ()"
    using assms j by (simp add: check_approval_def ex_at_def ex_open_period enforce_maker_checker_for_approval_def enforce_reviewer_policy_def
        raise_if_def REVIEW_SOURCE_STATUSES_def)
  obtain db2 where e: "append_journal_event ex_desk ex_session ?j UNDER_REVIEW APPROVED 9 ''ACCOUNTING_APPROVER''
      ''Approved via /accounting/journals/{id}/approve'' (put_jv ?j (jd_tick db)) = Inr db2" using ex_event by blast
  have f: "\<exists>b. or_now (jv_first_reviewed_at j) (utcnow db) = Some b" by (simp add: or_now_def split: option.split)
  have "\<exists>a b d e. ?j = j\<lparr>jv_status := APPROVED, jv_submitted_at := a, jv_first_reviewed_at := Some b, jv_decided_at := d, jv_updated_at := e\<rparr>"
    unfolding Journal_Posting.approved_def using f
    by (intro exI [of _ "or_now (jv_submitted_at j) (utcnow db)"] exI [of _ "the (or_now (jv_first_reviewed_at j) (utcnow db))"]
      exI [of _ "Some (utcnow db)"] exI [of _ "utcnow db"]) auto
  then have "ex_at APPROVED (emit_journal_event ex_desk ?j 9 None ''JOURNAL_APPROVE'' ps db2)" for ps
    by (intro ex_moved [OF assms j(1) e]) auto
  then show ?thesis using o c e j ex_frame(9) [OF e]
    by (simp add: approve_journal_def raise_if_def is_posted_status_def REVIEW_SOURCE_STATUSES_def Let_def emit_clock)
qed

lemma ex_active:
  assumes "ex_at st db" and "jd_jvs db = [j]"
  shows "active_journal_lines j db = [ex_stored 18 1 ''CASH'' DEBIT, ex_stored 19 2 ''SALES'' CREDIT]"
  using assms by (simp add: ex_at_def active_journal_lines_def lines_of_def Let_def ex_stored_def)

lemma ex_posted:
  assumes "ex_at APPROVED db"
  shows "\<exists>r db'. post_journal_entry ex_desk ex_session 7 17 10 None db = Inr (r, db') \<and> ex_at PUSHED db'
    \<and> map ge_created_at (jd_gl db') = [utcnow db + 1, utcnow db + 2]"
proof -
  obtain j where j: "jd_jvs db = [j]" "jv_id j = 17" "jv_status j = APPROVED" "jv_entity_id j = 4" "jv_number j = ''JV-2024-03-0001''"
    "jv_fiscal_year j = 2024" "jv_fiscal_period j = 3" "jv_tenant_id j = 7" using assms by (auto simp: ex_at_def)
  have gl: "jd_gl db = []" and ents: "jd_entities db = [ex_entity]" and gov: "gd_periods (jd_gov db) = []" "gd_policies (jd_gov db) = []"
    using assms by (simp_all add: ex_at_def)
  have o: "get_journal_aggregate 7 17 db = Inr j" using ex_opened [OF assms j(1)] by simp
  have act: "active_journal_lines j (jd_tick db) = active_journal_lines j db" by (rule active_lines_same) simp_all
  have c: "check_postable 7 j db = Inr ()"
    by (simp add: check_postable_def assert_balanced_active_lines_def ex_active [OF assms j(1)] raise_if_def side_total_def
        dsum_def ex_250 ex_stored_def ledger_amount_def gl_entries_for_journal_def gl Let_def)
  have en: "get_entity_for_tenant 7 4 db = Inr ex_entity" by (simp add: get_entity_for_tenant_def ents ex_entity_def)
  obtain rows where g: "append_gl_entries ex_desk ex_session j ex_entity 10 (jv_period_date j) (jd_tick db)
      = Inr ((jd_tick ^^ 2) ((jd_tick db)\<lparr>jd_gl := rows\<rparr>))" and rows: "map ex_columns rows = [(''CASH'', 250, 0), (''SALES'', 0, 250)]" "list_all ex_entry rows"
      "map ge_created_at rows = [utcnow db + 1, utcnow db + 2]"
    by (simp add: append_gl_entries_def require_mutation_context_def ex_session_def act ex_active [OF assms j(1)] raise_if_def side_total_def
        dsum_def ex_250 ex_stored_def ledger_amount_def gl gl_entry_of_def Let_def numeral_2_eq_2 ex_columns_def ex_entry_def or_text_def
        absent_def ex_entity_def j)
  let ?j = "posted j (utcnow db)" and ?db = "(jd_tick ^^ 2) ((jd_tick db)\<lparr>jd_gl := rows\<rparr>)"
  obtain db2 where e: "append_journal_event ex_desk ex_session ?j APPROVED PUSHED 10 ''ACCOUNTING_POSTER''
      ''Posted via /accounting/journals/{id}/post'' (put_jv ?j ?db) = Inr db2" using ex_event by blast
  have "ex_at PUSHED (emit_journal_event ex_desk ?j 10 None ''JOURNAL_POST'' ps db2)" for ps
    using assms j ex_frame [OF e] rows unfolding ex_at_def
    by (auto simp: put_jv_def Journal_Posting.posted_def emit_journal_event_def emit_governance_event_facts jd_tick_def numeral_2_eq_2)
  moreover have "jd_gl db2 = rows" using ex_frame(4) [OF e] by simp
  ultimately show ?thesis
    using o c en g e j gov rows(3)
    by (simp add: post_journal_entry_def raise_if_def is_posted_status_def Let_def ex_open_period enforce_distinct_poster_policy_def
        enter_ledger_def require_mutation_context_def ex_session_def)
qed

text \<open>
  The whole way: the journal is drafted, submitted, reviewed, approved and posted, and time passes before the posting.  As it
  happens, the first entry is created in the last microsecond of April 20 in UTC and the second one on April 21.
\<close>

definition at_clock :: "nat \<Rightarrow> journal_db \<Rightarrow> journal_db" where
  "at_clock now db = db\<lparr>jd_entities := jd_entities db, jd_accounts := jd_accounts db, jd_coa := jd_coa db, jd_rates := jd_rates db,
     jd_gov := (jd_gov db)\<lparr>gd_env := (jd_env db)\<lparr>env_now := now\<rparr>\<rparr>\<rparr>"

lemma at_clock_step: "utcnow db \<le> now \<Longrightarrow> desk_step en db (at_clock now db)"
  unfolding at_clock_def by (rule desk_elsewhere) (simp_all add: utcnow_def)

lemma ex_at_clock: "ex_at st db \<Longrightarrow> ex_at st (at_clock now db)" "utcnow (at_clock now db) = now"
  by (simp_all add: at_clock_def ex_at_def utcnow_def)

definition ex_created :: "nat list" where
  "ex_created = [1713657599999999, 1713657600000000]"

lemma ex_desk_history:
  "\<exists>db. desk_history ex_desk ex_books db \<and> ex_at UNDER_REVIEW db"
  "\<exists>db. desk_history ex_desk ex_books db \<and> ex_at APPROVED db"
  "\<exists>db. desk_history ex_desk ex_books db \<and> ex_at PUSHED db \<and> map ge_created_at (jd_gl db) = ex_created"
proof -
  obtain j db1 where 1: "create_journal_draft ex_desk ex_session 7 8 ex_sale ''MANUAL'' None ex_books = Inr (j, db1)" "ex_at DRAFT db1"
    "utcnow db1 = 104" using ex_journal_created by blast
  obtain r2 db2 where 2: "submit_journal ex_desk ex_session 7 17 8 None db1 = Inr (r2, db2)" "ex_at SUBMITTED db2" "utcnow db2 = utcnow db1 + 3"
    using ex_submitted [OF 1(2)] by blast
  obtain r3 db3 where 3: "review_journal ex_desk ex_session 7 17 9 None db2 = Inr (r3, db3)" "ex_at UNDER_REVIEW db3" "utcnow db3 = utcnow db2 + 3"
    using ex_reviewed [OF 2(2)] by blast
  obtain r4 db4 where 4: "approve_journal ex_desk ex_session 7 17 9 None db3 = Inr (r4, db4)" "ex_at APPROVED db4" "utcnow db4 = utcnow db3 + 3"
    using ex_approved [OF 3(2)] by blast
  define db5 where "db5 = at_clock 1713657599999998 db4"
  have 5: "ex_at APPROVED db5" "utcnow db5 = 1713657599999998" using ex_at_clock 4(2) by (simp_all add: db5_def)
  obtain r6 db6 where 6: "post_journal_entry ex_desk ex_session 7 17 10 None db5 = Inr (r6, db6)" "ex_at PUSHED db6"
    "map ge_created_at (jd_gl db6) = [utcnow db5 + 1, utcnow db5 + 2]"
    using ex_posted [OF 5(1)] by (elim exE conjE)
  have "desk_history ex_desk ex_books db1" using desk_drafted [OF 1(1)] by blast
  then have "desk_history ex_desk ex_books db2" using desk_submitted [OF 2(1)] by (rule rtranclp.rtrancl_into_rtrancl)
  then have h3: "desk_history ex_desk ex_books db3" using desk_reviewed [OF 3(1)] by (rule rtranclp.rtrancl_into_rtrancl)
  then show "\<exists>db. desk_history ex_desk ex_books db \<and> ex_at UNDER_REVIEW db" using 3(2) by blast
  from h3 have h4: "desk_history ex_desk ex_books db4" using desk_approved [OF 4(1)] by (rule rtranclp.rtrancl_into_rtrancl)
  then show "\<exists>db. desk_history ex_desk ex_books db \<and> ex_at APPROVED db" using 4(2) by blast
  have "utcnow db4 \<le> 1713657599999998" using 1(3) 2(3) 3(3) 4(3) by simp
  from h4 at_clock_step [OF this] have "desk_history ex_desk ex_books db5" unfolding db5_def by (rule rtranclp.rtrancl_into_rtrancl)
  then have "desk_history ex_desk ex_books db6" using desk_posted [OF 6(1)] by (rule rtranclp.rtrancl_into_rtrancl)
  then show "\<exists>db. desk_history ex_desk ex_books db \<and> ex_at PUSHED db \<and> map ge_created_at (jd_gl db) = ex_created"
    using 6(2,3) 5(2) by (auto simp: ex_created_def)
qed

lemma ex_journal_history:
  "\<exists>db. journal_history ex_desk ex_books db \<and> ex_at APPROVED db"
  "\<exists>db. journal_history ex_desk ex_books db \<and> ex_at PUSHED db \<and> map ge_created_at (jd_gl db) = ex_created"
  using ex_desk_history desk_history_journal by blast+

lemma ex_few: "ex_at st db \<Longrightarrow> few_lines db"
proof -
  assume "ex_at st db"
  then have l: "length (jd_lines db) = 2" by (simp add: ex_at_def)
  show "few_lines db"
    unfolding few_lines_def
  proof
    fix i
    have "length (lines_of i db) \<le> length (jd_lines db)" by (simp add: lines_of_def)
    then show "length (lines_of i db) < 10 ^ 6" using l by simp
  qed
qed

lemma ex_books_empty: "no_journals ex_books"
  by (simp add: no_journals_def ex_books_def)

end
