(* ===== verification/Trial_Balance.thy ===== *)
theory Trial_Balance
  imports Journal_Example
begin

text \<open>
  \<open>application/trial_balance_service.py\<close> of the accounting layer: the entries of an entity up to
  a day are grouped by account, and the report is refused when its two totals differ.  That happens exactly when a bound
  of the report separates the entries of one posting.
\<close>

section \<open>The trial balance\<close>

record trial_balance_row =
  tb_account_code :: string
  tb_account_name :: string
  tb_debit_sum :: rat
  tb_credit_sum :: rat
  tb_balance :: rat

record trial_balance =
  tb_total_debit :: rat
  tb_total_credit :: rat
  tb_rows :: "trial_balance_row list"

text \<open>\<open>datetime.combine\<close> with the first and the last microsecond of a day in UTC.  Instants count microseconds from 1970 on.\<close>

definition start_of_day :: "date \<Rightarrow> nat" where
  "start_of_day d = nat ((to_ordinal d - to_ordinal (Date 1970 1 1)) * 86400000000)"

definition end_of_day :: "date \<Rightarrow> nat" where
  "end_of_day d = nat ((to_ordinal d - to_ordinal (Date 1970 1 1)) * 86400000000 + 86399999999)"

text \<open>The entries the query selects: creation times between two bounds.  The sums of a group are the database's,
  which are exact; the grand totals are Python's.\<close>

definition effective_upper_bound :: "date \<Rightarrow> date option \<Rightarrow> nat" where
  "effective_upper_bound as_of_date to_date =
     (case to_date of None \<Rightarrow> end_of_day as_of_date | Some d \<Rightarrow> min (end_of_day d) (end_of_day as_of_date))"

definition trial_balance_entries :: "uuid \<Rightarrow> uuid \<Rightarrow> nat \<Rightarrow> nat option \<Rightarrow> journal_db \<Rightarrow> gl_entry list" where
  "trial_balance_entries tenant_id org_entity_id upper_bound lower_bound db =
     filter (\<lambda>g. ge_tenant_id g = tenant_id \<and> ge_entity_id g = Some org_entity_id \<and> ge_created_at g \<le> upper_bound
       \<and> (case lower_bound of None \<Rightarrow> True | Some b \<Rightarrow> b \<le> ge_created_at g)) (jd_gl db)"

definition account_of :: "gl_entry \<Rightarrow> string \<times> string" where
  "account_of g = (ge_account_code g, ge_account_name g)"

definition trial_balance_row_of :: "gl_entry list \<Rightarrow> string \<times> string \<Rightarrow> trial_balance_row" where
  "trial_balance_row_of entries account =
     (let mine = filter (\<lambda>g. account_of g = account) entries;
          debit = sum_list (map ge_debit_amount mine); credit = sum_list (map ge_credit_amount mine) in
      \<lparr>tb_account_code = fst account, tb_account_name = snd account, tb_debit_sum = debit, tb_credit_sum = credit,
       tb_balance = dsub debit credit\<rparr>)"

definition get_trial_balance :: "uuid \<Rightarrow> uuid \<Rightarrow> date \<Rightarrow> date option \<Rightarrow> date option \<Rightarrow> journal_db \<Rightarrow> trial_balance result" where
  "get_trial_balance tenant_id org_entity_id as_of_date from_date to_date db =
     bindE (get_entity_for_tenant tenant_id org_entity_id db) (\<lambda>_.
     let entries = trial_balance_entries tenant_id org_entity_id (effective_upper_bound as_of_date to_date)
           (map_option start_of_day from_date) db;
         rows = map (trial_balance_row_of entries) (sort_key fst (remdups (map account_of entries)));
         total_debit = dsum (map tb_debit_sum rows); total_credit = dsum (map tb_credit_sum rows)
     in bindE (raise_if (total_debit \<noteq> total_credit) (ValidationError ''Trial balance integrity failed'')) (\<lambda>_.
        Inr \<lparr>tb_total_debit = total_debit, tb_total_credit = total_credit, tb_rows = rows\<rparr>))"

section \<open>Grouping keeps the sums\<close>

lemma sum_list_delta:
  "distinct ks \<Longrightarrow> sum_list (map (\<lambda>a. if a = k then (c :: rat) else 0) ks) = (if k \<in> set ks then c else 0)"
  by (induction ks) auto

lemma sum_by_groups:
  "distinct ks \<Longrightarrow> k ` set xs \<subseteq> set ks
   \<Longrightarrow> sum_list (map (\<lambda>a. sum_list (map f (filter (\<lambda>x. k x = a) xs))) ks) = (sum_list (map f xs) :: rat)"
proof (induction xs)
  case (Cons x xs)
  have "(\<lambda>a. sum_list (map f (filter (\<lambda>y. k y = a) (x # xs))))
    = (\<lambda>a. (if a = k x then f x else 0) + sum_list (map f (filter (\<lambda>y. k y = a) xs)))"
    by auto
  then show ?case using Cons by (simp add: sum_list_addf sum_list_delta)
qed simp

lemma sum_list_sort: "sum_list (map f (sort_key g xs)) = (sum_list (map f xs) :: rat)"
proof -
  have "sum_mset (mset (map f (sort_key g xs))) = sum_mset (mset (map f xs))" by simp
  then show ?thesis by (simp only: sum_mset_sum_list)
qed

lemma trial_balance_rows_sums:
  assumes "rows = map (trial_balance_row_of es) (sort_key fst (remdups (map account_of es)))"
  shows "sum_list (map tb_debit_sum rows) = sum_list (map ge_debit_amount es)"
    and "sum_list (map tb_credit_sum rows) = sum_list (map ge_credit_amount es)"
proof -
  have "sum_list (map tb_debit_sum rows)
    = sum_list (map (\<lambda>a. sum_list (map ge_debit_amount (filter (\<lambda>g. account_of g = a) es))) (remdups (map account_of es)))"
    by (simp add: assms trial_balance_row_of_def Let_def comp_def sum_list_sort)
  also have "\<dots> = sum_list (map ge_debit_amount es)" by (rule sum_by_groups) simp_all
  finally show "sum_list (map tb_debit_sum rows) = sum_list (map ge_debit_amount es)" .
  have "sum_list (map tb_credit_sum rows)
    = sum_list (map (\<lambda>a. sum_list (map ge_credit_amount (filter (\<lambda>g. account_of g = a) es))) (remdups (map account_of es)))"
    by (simp add: assms trial_balance_row_of_def Let_def comp_def sum_list_sort)
  also have "\<dots> = sum_list (map ge_credit_amount es)" by (rule sum_by_groups) simp_all
  finally show "sum_list (map tb_credit_sum rows) = sum_list (map ge_credit_amount es)" .
qed

text \<open>Python's grand totals of the rows are exact when the ledger's are below the precision.\<close>

lemma grand_total_exact:
  assumes "\<forall>r \<in> set rows. micro (f r) \<and> 0 \<le> f r" and "sum_list (map f rows) < 10 ^ 22"
  shows "dsum (map f rows) = sum_list (map f rows)"
proof -
  have "map abs (map f rows) = map f rows" using assms(1) by (simp add: map_idI)
  then have "sum_list (map abs (map f rows)) < 10 ^ 22" using assms(2) by (simp only:)
  then show ?thesis using assms(1) by (intro dsum_exact) auto
qed

section \<open>When the report is refused\<close>

text \<open>Two bounds that separate no two entries of one posting.  Each row of a posting reads the clock for itself, so a bound may
  fall between them: the end of a day does when a posting goes on at midnight in UTC.\<close>

definition in_bounds :: "nat option \<Rightarrow> nat \<Rightarrow> gl_entry \<Rightarrow> bool" where
  "in_bounds lo hi g \<longleftrightarrow> ge_created_at g \<le> hi \<and> (case lo of None \<Rightarrow> True | Some b \<Rightarrow> b \<le> ge_created_at g)"

definition whole_postings :: "nat option \<Rightarrow> nat \<Rightarrow> journal_db \<Rightarrow> bool" where
  "whole_postings lo hi db \<longleftrightarrow> (\<forall>g \<in> set (jd_gl db). \<forall>g' \<in> set (jd_gl db).
     from_journal g \<and> from_journal g' \<and> block_key g = block_key g' \<longrightarrow> in_bounds lo hi g = in_bounds lo hi g')"

definition journal_debits :: "journal_db \<Rightarrow> rat" where
  "journal_debits db = sum_list (map ge_debit_amount (filter from_journal (jd_gl db)))"

lemma trial_balance_entries_journal:
  "trial_balance_entries t i hi lo db = filter (\<lambda>g. ge_tenant_id g = t \<and> ge_entity_id g = Some i \<and> in_bounds lo hi g) (filter from_journal (jd_gl db))"
  unfolding trial_balance_entries_def filter_filter in_bounds_def by (rule filter_cong) (auto simp: from_journal_def)

lemma selected_balance:
  assumes "ledger_ok db" and w: "whole_postings lo hi db"
  shows "sum_list (map ge_debit_amount (trial_balance_entries t i hi lo db)) = sum_list (map ge_credit_amount (trial_balance_entries t i hi lo db))"
proof -
  obtain bs where bs: "filter from_journal (jd_gl db) = concat bs" "\<forall>b \<in> set bs. balanced_block b" using assms(1) by (auto simp: ledger_ok_def)
  have in_gl: "g \<in> set (jd_gl db) \<and> from_journal g" if "g \<in> set (concat bs)" for g using that by (simp only: bs(1) [symmetric] set_filter) simp
  show ?thesis
    unfolding trial_balance_entries_journal bs(1)
  proof (rule sum_selected [OF bs(2)])
    fix g g' assume "g \<in> set (concat bs)" "g' \<in> set (concat bs)" and k: "block_key g = block_key g'"
    then have "in_bounds lo hi g = in_bounds lo hi g'" using w in_gl unfolding whole_postings_def by blast
    then show "(ge_tenant_id g = t \<and> ge_entity_id g = Some i \<and> in_bounds lo hi g) = (ge_tenant_id g' = t \<and> ge_entity_id g' = Some i \<and> in_bounds lo hi g')"
      using k by (simp add: block_key_def)
  qed
qed

text \<open>The selected entries are proper and their sums small.\<close>

lemma journal_entries_proper:
  assumes "ledger_ok db"
  shows "\<forall>g \<in> set (filter from_journal (jd_gl db)). proper_entry g"
    and "sum_list (map ge_credit_amount (filter from_journal (jd_gl db))) = journal_debits db"
proof -
  obtain bs where bs: "filter from_journal (jd_gl db) = concat bs" "\<forall>b \<in> set bs. balanced_block b" using assms by (auto simp: ledger_ok_def)
  show "\<forall>g \<in> set (filter from_journal (jd_gl db)). proper_entry g" unfolding bs(1) using bs(2) by (auto simp: balanced_block_def)
  show "sum_list (map ge_credit_amount (filter from_journal (jd_gl db))) = journal_debits db"
    using sum_selected [OF bs(2), of "\<lambda>_. True"] by (simp add: journal_debits_def bs(1))
qed

lemma selected_small:
  assumes ok: "ledger_ok db" and es: "es = trial_balance_entries t i hi lo db"
  shows "\<forall>g \<in> set es. proper_entry g" and "sum_list (map ge_debit_amount es) \<le> journal_debits db" and "sum_list (map ge_credit_amount es) \<le> journal_debits db"
proof -
  note p = journal_entries_proper [OF ok]
  show "\<forall>g \<in> set es. proper_entry g" using p(1) by (simp add: es trial_balance_entries_journal)
  have le: "sum_list (map f (filter P gs)) \<le> sum_list (map f gs)" if "\<forall>g \<in> set gs. 0 \<le> f g" for P and f :: "gl_entry \<Rightarrow> rat" and gs
    using that by (induction gs) auto
  have nn: "\<forall>g \<in> set (filter from_journal (jd_gl db)). 0 \<le> ge_debit_amount g" "\<forall>g \<in> set (filter from_journal (jd_gl db)). 0 \<le> ge_credit_amount g"
    using p(1) by (simp_all add: proper_entry_def)
  show "sum_list (map ge_debit_amount es) \<le> journal_debits db"
    unfolding es trial_balance_entries_journal journal_debits_def by (rule le [OF nn(1)])
  show "sum_list (map ge_credit_amount es) \<le> journal_debits db"
    unfolding es trial_balance_entries_journal p(2) [symmetric] by (rule le [OF nn(2)])
qed

lemma trial_balance_report:
  assumes ok: "ledger_ok db" and e: "get_entity_for_tenant t i db = Inr x" and bound: "journal_debits db < 10 ^ 22"
    and es: "es = trial_balance_entries t i (effective_upper_bound hi to_end) (map_option start_of_day lo) db"
  shows "get_trial_balance t i hi lo to_end db
    = (if sum_list (map ge_debit_amount es) = sum_list (map ge_credit_amount es)
       then Inr \<lparr>tb_total_debit = sum_list (map ge_debit_amount es), tb_total_credit = sum_list (map ge_credit_amount es),
         tb_rows = map (trial_balance_row_of es) (sort_key fst (remdups (map account_of es)))\<rparr>
       else Inl (ValidationError ''Trial balance integrity failed''))"
proof -
  let ?rows = "map (trial_balance_row_of es) (sort_key fst (remdups (map account_of es)))"
  note s = selected_small [OF ok es]
  have mine: "micro (sum_list (map f (filter P es))) \<and> 0 \<le> sum_list (map f (filter P es))"
    if "f = ge_debit_amount \<or> f = ge_credit_amount" for f P
  proof -
    have "\<forall>g \<in> set es. micro (f g) \<and> 0 \<le> f g" using that s(1) by (auto simp: proper_entry_def)
    then show ?thesis by (auto intro!: micro_sum_list sum_list_nonneg)
  qed
  have r: "\<forall>r \<in> set ?rows. micro (tb_debit_sum r) \<and> 0 \<le> tb_debit_sum r" "\<forall>r \<in> set ?rows. micro (tb_credit_sum r) \<and> 0 \<le> tb_credit_sum r"
    using mine by (simp_all add: trial_balance_row_of_def Let_def)
  have small: "sum_list (map tb_debit_sum ?rows) < 10 ^ 22" "sum_list (map tb_credit_sum ?rows) < 10 ^ 22"
    unfolding trial_balance_rows_sums [OF refl] using s(2,3) bound by linarith+
  have "dsum (map tb_debit_sum ?rows) = sum_list (map ge_debit_amount es)"
    using grand_total_exact [OF r(1) small(1)] by (simp only: trial_balance_rows_sums(1) [OF refl])
  moreover have "dsum (map tb_credit_sum ?rows) = sum_list (map ge_credit_amount es)"
    using grand_total_exact [OF r(2) small(2)] by (simp only: trial_balance_rows_sums(2) [OF refl])
  ultimately show ?thesis unfolding get_trial_balance_def e es [symmetric] Let_def by (simp add: raise_if_def)
qed

lemma history_ledger_ok:
  assumes "no_journals db0" and "journal_history en db0 db" and "few_lines db"
  shows "vouchers_ok db" and "ledger_ok db"
  using journal_history_sound [OF assms(2)] no_journals_ok [OF assms(1)] assms(3) by (auto simp: sound_def)

text \<open>(C4) When a trial balance balances.  Start from empty voucher tables and let sessions of any users run the handlers one after
  the other in any order, successfully or not: creation and editing of vouchers, transitions and approval decisions, drafts,
  submissions, reviews, approvals, postings and reversals, and single entries imported by \<open>create_gl_entry\<close>.  Take any
  entity and any range of days.  If no posting has entries on both sides of a bound of the range, the selected debits equal the
  selected credits.  In every case \<open>get_trial_balance\<close> answers as the exact sums demand: when they are equal, it reports them
  as its grand totals, with one row of exact sums for each account; when they differ, which takes a posting that a bound
  splits, it raises "Trial balance integrity failed".  The bounds: no voucher has a million lines, and the debits that
  journals entered stay below 10^22, where Python's 28 digits are exact.\<close>

theorem trial_balance_balances:
  assumes "no_journals db0" and "journal_history en db0 db" and "few_lines db"
    and "get_entity_for_tenant t i db = Inr entity" and "journal_debits db < 10 ^ 22"
  shows "let hi = effective_upper_bound as_of_date to_date; lo = map_option start_of_day from_date; es = trial_balance_entries t i hi lo db in
    (whole_postings lo hi db \<longrightarrow> sum_list (map ge_debit_amount es) = sum_list (map ge_credit_amount es))
    \<and> (if sum_list (map ge_debit_amount es) = sum_list (map ge_credit_amount es)
       then \<exists>tb. get_trial_balance t i as_of_date from_date to_date db = Inr tb
         \<and> tb_total_debit tb = sum_list (map ge_debit_amount es) \<and> tb_total_credit tb = sum_list (map ge_credit_amount es)
         \<and> (\<forall>g \<in> set es. \<exists>r \<in> set (tb_rows tb). (tb_account_code r, tb_account_name r) = account_of g
              \<and> tb_debit_sum r = sum_list (map ge_debit_amount (filter (\<lambda>h. account_of h = account_of g) es))
              \<and> tb_credit_sum r = sum_list (map ge_credit_amount (filter (\<lambda>h. account_of h = account_of g) es)))
       else get_trial_balance t i as_of_date from_date to_date db = Inl (ValidationError ''Trial balance integrity failed''))"
proof -
  have ok: "ledger_ok db" by (rule history_ledger_ok [OF assms(1-3)])
  define es where "es = trial_balance_entries t i (effective_upper_bound as_of_date to_date) (map_option start_of_day from_date) db"
  have whole: "sum_list (map ge_debit_amount es) = sum_list (map ge_credit_amount es)"
    if "whole_postings (map_option start_of_day from_date) (effective_upper_bound as_of_date to_date) db"
    unfolding es_def by (rule selected_balance [OF ok that])
  show ?thesis
    unfolding Let_def es_def [symmetric] trial_balance_report [OF ok assms(4,5) es_def]
    using whole by (simp add: trial_balance_row_of_def Let_def)
qed

lemma ex_days:
  "start_of_day (Date 2024 4 1) = 1711929600000000" "end_of_day (Date 2024 4 20) = 1713657599999999" "end_of_day (Date 2024 4 30) = 1714521599999999"
  by (simp_all add: start_of_day_def end_of_day_def to_ordinal_def days_before_year_def days_before_month_def days_in_month_def is_leap_def upto.simps)

lemma ex_ledger:
  assumes "ex_at PUSHED db" and "map ge_created_at (jd_gl db) = ex_created"
  obtains a b where "jd_gl db = [a, b]" and "ex_columns a = (''CASH'', 250, 0)" and "ex_columns b = (''SALES'', 0, 250)"
    and "ex_entry a" and "ex_entry b" and "ge_created_at a = 1713657599999999" and "ge_created_at b = 1713657600000000"
  using assms by (auto simp: ex_at_def ex_created_def map_eq_Cons_conv)

lemma ex_journal_debits: "ex_at PUSHED db \<Longrightarrow> map ge_created_at (jd_gl db) = ex_created \<Longrightarrow> journal_debits db = 250"
  by (elim ex_ledger) (auto simp: journal_debits_def ex_columns_def ex_entry_def from_journal_def)

text \<open>The sale of April 20 and 21 is whole at the end of the month, and split at the end of April 20.\<close>

lemma trial_balance_balances_witness:
  "\<exists>db tb. journal_history ex_desk ex_books db \<and> get_trial_balance 7 4 (Date 2024 4 30) None None db = Inr tb
     \<and> tb_total_debit tb = 250 \<and> tb_total_credit tb = 250
     \<and> get_trial_balance 7 4 (Date 2024 4 20) None None db = Inl (ValidationError ''Trial balance integrity failed'')"
proof -
  obtain db where h: "journal_history ex_desk ex_books db" and at: "ex_at PUSHED db" "map ge_created_at (jd_gl db) = ex_created"
    using ex_journal_history(2) by (elim exE conjE)
  obtain a b where gl: "jd_gl db = [a, b]" and ab: "ex_columns a = (''CASH'', 250, 0)" "ex_columns b = (''SALES'', 0, 250)" "ex_entry a" "ex_entry b"
    "ge_created_at a = 1713657599999999" "ge_created_at b = 1713657600000000" using ex_ledger [OF at] by metis
  have e: "get_entity_for_tenant 7 4 db = Inr ex_entity" using at(1) by (simp add: ex_at_def get_entity_for_tenant_def ex_entity_def)
  have "journal_debits db < 10 ^ 22" by (simp add: ex_journal_debits [OF at])
  note t = trial_balance_balances [OF ex_books_empty h ex_few [OF at(1)] e this, unfolded Let_def]
  have all: "trial_balance_entries 7 4 (effective_upper_bound (Date 2024 4 30) None) (map_option start_of_day None) db = [a, b]"
    and first: "trial_balance_entries 7 4 (effective_upper_bound (Date 2024 4 20) None) (map_option start_of_day None) db = [a]"
    using ab by (simp_all add: trial_balance_entries_def gl ex_entry_def effective_upper_bound_def ex_days)
  have "\<exists>tb. get_trial_balance 7 4 (Date 2024 4 30) None None db = Inr tb \<and> tb_total_debit tb = 250 \<and> tb_total_credit tb = 250"
    using t [where as_of_date = "Date 2024 4 30" and to_date = None and from_date = None] ab unfolding all by (auto simp: ex_columns_def)
  moreover have "get_trial_balance 7 4 (Date 2024 4 20) None None db = Inl (ValidationError ''Trial balance integrity failed'')"
    using t [where as_of_date = "Date 2024 4 20" and to_date = None and from_date = None] ab unfolding first by (simp add: ex_columns_def)
  ultimately show ?thesis using h by blast
qed

text \<open>(C6) Every row fits its columns.  In every state that the journal handlers, run one after the other, and \<open>create_gl_entry\<close> reach
  from empty tables, voucher ids are unique and so are voucher numbers within a tenant; each line has a base amount that its
  NUMERIC(20, 4) column holds unchanged and that is not negative; each ledger entry has at most six places.  The entries that
  journals posted, which have an entity, are one-sided, not negative, belong to a voucher of the tenant that is
  PUSHED or VOIDED, and balance as a whole.  The entries of \<open>create_gl_entry\<close> have no entity, may have any amounts, and
  balance only if they are entered so.\<close>

theorem reachable_rows_well_formed:
  assumes "no_journals db0" and "journal_history en db0 db" and "few_lines db"
  shows "distinct (map jv_id (jd_jvs db)) \<and> distinct (map (\<lambda>j. (jv_tenant_id j, jv_number j)) (jd_jvs db))
    \<and> (\<forall>l \<in> set (jd_lines db). \<exists>b. jl_base_amount l = Some b \<and> numeric_20_4 b = Inr b \<and> 0 \<le> b \<and> 0 \<le> jl_amount l)
    \<and> (\<forall>g \<in> set (jd_gl db). micro (ge_debit_amount g) \<and> micro (ge_credit_amount g))
    \<and> (\<forall>g \<in> set (filter from_journal (jd_gl db)). 0 \<le> ge_debit_amount g \<and> 0 \<le> ge_credit_amount g
         \<and> (ge_debit_amount g = 0 \<or> ge_credit_amount g = 0) \<and> (\<exists>j \<in> set (jd_jvs db). is_entry_of j g \<and> jv_status j \<in> {PUSHED, VOIDED}))
    \<and> sum_list (map ge_debit_amount (filter from_journal (jd_gl db))) = sum_list (map ge_credit_amount (filter from_journal (jd_gl db)))"
proof -
  have ok: "vouchers_ok db" "ledger_ok db" by (rule history_ledger_ok [OF assms])+
  have books: "books_ok False db" using history_books [OF assms(1,2)] by simp
  have ids: "distinct (map jv_id (jd_jvs db))" using ok(1) by (simp add: vouchers_ok_def)
  have numbers: "distinct (map (\<lambda>j. (jv_tenant_id j, jv_number j)) (jd_jvs db))"
    using ids books by (auto simp: distinct_map inj_on_def books_ok_def keyed_def)
  have l: "\<forall>l \<in> set (jd_lines db). \<exists>b. jl_base_amount l = Some b \<and> numeric_20_4 b = Inr b \<and> 0 \<le> b \<and> 0 \<le> jl_amount l"
    using ok(1) by (fastforce simp: vouchers_ok_def stored_line_def ledger_amount_def)
  have own: "\<exists>j \<in> set (jd_jvs db). is_entry_of j g \<and> jv_status j \<in> {PUSHED, VOIDED}" if "g \<in> set (filter from_journal (jd_gl db))" for g
  proof -
    have g: "g \<in> set (jd_gl db)" "from_journal g" using that by simp_all
    obtain j where j: "j \<in> set (jd_jvs db)" "is_entry_of j g" using books g unfolding books_ok_def by blast
    have "journal_entries j db \<noteq> []" using g(1) j(2) by (auto simp: journal_entries_def filter_empty_conv)
    then have "jv_status j \<in> {PUSHED, VOIDED}" using books j(1) by (auto simp: books_ok_def voucher_ok_def)
    then show ?thesis using j by blast
  qed
  have m: "\<forall>g \<in> set (jd_gl db). micro (ge_debit_amount g) \<and> micro (ge_credit_amount g)" using ok(2) by (simp add: ledger_ok_def)
  show ?thesis
    using ids numbers l m own journal_entries_proper [OF ok(2)] unfolding proper_entry_def journal_debits_def by auto
qed

lemma reachable_rows_well_formed_witness:
  "\<exists>db. journal_history ex_desk ex_books db \<and> length (jd_lines db) = 2 \<and> list_all (\<lambda>l. \<exists>b. jl_base_amount l = Some b \<and> 0 \<le> b) (jd_lines db)"
proof -
  obtain db where h: "journal_history ex_desk ex_books db" "ex_at PUSHED db" using ex_journal_history by blast
  have "length (jd_lines db) = 2" using h(2) by (simp add: ex_at_def)
  then show ?thesis using reachable_rows_well_formed [OF ex_books_empty h(1) ex_few [OF h(2)]] h(1) unfolding list_all_iff by blast
qed

end
