(* ===== verification/Journal_Workflow.thy ===== *)
theory Journal_Workflow
  imports Trial_Balance
begin

text \<open>
  What the journal workflow promises its users: the event log accounts for the status and is bounded, at the journal desk
  approvals come from somebody else than the maker, posting enters exactly the active lines into the ledger once, and a
  reversal takes them out again.  Two refusals are recorded as well: a draft in a foreign
  functional currency, and a fourth resubmission.  Histories are serial: handlers run one after the other.
\<close>

section \<open>Status and log\<close>

text \<open>(C8) The event log accounts for the status.  In every state that journal handlers, run one after the other, can reach from
  empty tables, the state events of a voucher, in the order of their strictly increasing times, lead from DRAFT to its present status: each
  event starts in the status the one before reached and carries that event's hash as its previous hash, the first one
  starts in DRAFT with no previous hash, and the latest event reached the status the row has.\<close>

theorem status_follows_events:
  assumes "no_journals db0" and "journal_history en db0 db" and "j \<in> set (jd_jvs db)"
  shows "replays DRAFT [] (events_of (jv_id j) db) (jv_status j) (log_head (events_of (jv_id j) db))
    \<and> sorted_wrt (<) (map je_occurred_at (events_of (jv_id j) db))
    \<and> (case last_event (jv_id j) db of None \<Rightarrow> jv_status j = DRAFT | Some e \<Rightarrow> je_to_status e = jv_status j)"
proof -
  have ok: "vouchers_ok db" using journal_history_sound [OF assms(2)] no_journals_ok [OF assms(1)] by (simp add: sound_def)
  have r: "replays DRAFT [] (events_of (jv_id j) db) (jv_status j) (log_head (events_of (jv_id j) db))"
    using ok assms(3) by (simp add: vouchers_ok_def)
  have "sorted_wrt (<) (map je_occurred_at (events_of (jv_id j) db))"
    using ok by (simp add: vouchers_ok_def events_of_def sorted_wrt_map sorted_wrt_filter)
  moreover have "case last_event (jv_id j) db of None \<Rightarrow> jv_status j = DRAFT | Some e \<Rightarrow> je_to_status e = jv_status j"
  proof (cases "events_of (jv_id j) db" rule: rev_cases)
    case Nil
    then show ?thesis using r by (simp add: last_event_last [OF ok])
  next
    case (snoc es e)
    then show ?thesis using r by (simp add: last_event_last [OF ok] replays_snoc)
  qed
  ultimately show ?thesis using r by blast
qed

lemma status_follows_events_witness:
  "\<exists>db j e. journal_history ex_desk ex_books db \<and> jd_jvs db = [j] \<and> last_event 17 db = Some e \<and> je_to_status e = PUSHED"
proof -
  obtain db where h: "journal_history ex_desk ex_books db" "ex_at PUSHED db" using ex_journal_history by blast
  obtain j where j: "jd_jvs db = [j]" "jv_id j = 17" "jv_status j = PUSHED" using h(2) by (auto simp: ex_at_def)
  have "case last_event (jv_id j) db of None \<Rightarrow> jv_status j = DRAFT | Some e \<Rightarrow> je_to_status e = jv_status j"
    using status_follows_events [OF ex_books_empty h(1), of j] j(1) by simp
  then show ?thesis using h(1) j by (auto split: option.splits)
qed

text \<open>(C11) The life of a voucher is bounded.  Take any state that journal handlers, run one after the other, can reach from empty
  tables, those that write the status directly included.  A voucher has at most 19 state events, plus two for each time a
  failed push was tried again, which alone is not limited; so it has changed its status no more often.  It was resubmitted or
  escalated at most four times.\<close>

theorem voucher_life_is_bounded:
  assumes "no_journals db0" and "journal_history en db0 db" and "j \<in> set (jd_jvs db)"
  shows "length (events_of (jv_id j) db) \<le> 19 + 2 * retries (events_of (jv_id j) db)
    \<and> jv_resubmission_count j \<le> MAX_RESUBMISSIONS + 1"
  using history_books [OF assms(1,2)] assms(3) by (auto simp: books_ok_def voucher_ok_def)

lemma voucher_life_is_bounded_witness:
  "\<exists>db j. journal_history ex_desk ex_books db \<and> jd_jvs db = [j] \<and> jv_status j = PUSHED
     \<and> length (events_of 17 db) \<le> 19 + 2 * retries (events_of 17 db)"
proof -
  obtain db where h: "journal_history ex_desk ex_books db" "ex_at PUSHED db" using ex_journal_history(2) by (elim exE conjE)
  obtain j where j: "jd_jvs db = [j]" "jv_id j = 17" "jv_status j = PUSHED" using h(2) by (auto simp: ex_at_def)
  have "length (events_of (jv_id j) db) \<le> 19 + 2 * retries (events_of (jv_id j) db)"
    by (rule voucher_life_is_bounded [OF ex_books_empty h(1), THEN conjunct1]) (simp add: j)
  then show ?thesis using h(1) j by auto
qed

section \<open>Approval\<close>

text \<open>(C10) At the journal desk nobody approves an own journal, except that a reversal is approved automatically.  Let users
  of the desk run its handlers one after the other from empty tables: drafts, submissions, reviews, approvals, postings,
  reversals and imported entries; the routes for direct changes of vouchers are disabled.  Then every approval in the event log of
  a voucher was triggered by another user than its creator, or it is the approval that \<open>reverse_journal\<close> gives a reversal,
  straight from DRAFT, for the user who asked for it.  A voucher that is APPROVED, PUSHED or VOIDED, and so every voucher
  with entries in the ledger, has such an approval in its log.\<close>

theorem approval_needs_a_checker:
  assumes "no_journals db0" and "desk_history en db0 db" and "j \<in> set (jd_jvs db)"
  shows "(\<forall>e \<in> set (events_of (jv_id j) db). je_to_status e = APPROVED \<longrightarrow>
        je_triggered_by e \<noteq> jv_created_by j \<or> je_from_status e = DRAFT \<and> is_reversal j)
    \<and> (jv_status j \<in> {APPROVED, PUSHED, VOIDED} \<or> journal_entries j db \<noteq> [] \<longrightarrow>
        (\<exists>e \<in> set (events_of (jv_id j) db). je_to_status e = APPROVED
          \<and> (je_triggered_by e \<noteq> jv_created_by j \<or> je_from_status e = DRAFT \<and> is_reversal j)))"
proof -
  have v: "voucher_ok True j (events_of (jv_id j) db) (journal_entries j db) (active_journal_lines j db)"
    using desk_books [OF assms(1,2)] assms(3) by (simp add: books_ok_def)
  then have "desk_ok j (events_of (jv_id j) db)" by (simp add: voucher_ok_def)
  moreover have "jv_status j \<in> {PUSHED, VOIDED}" if "journal_entries j db \<noteq> []" using v that by (auto simp: voucher_ok_def)
  ultimately show ?thesis unfolding desk_ok_def approval_event_def by blast
qed

lemma approval_needs_a_checker_witness:
  "\<exists>db j e. desk_history ex_desk ex_books db \<and> jd_jvs db = [j] \<and> jv_status j = APPROVED \<and> jv_created_by j = 8
     \<and> e \<in> set (events_of 17 db) \<and> je_to_status e = APPROVED \<and> je_triggered_by e \<noteq> 8"
proof -
  obtain db where h: "desk_history ex_desk ex_books db" "ex_at APPROVED db" using ex_desk_history(2) by (elim exE conjE)
  obtain j where j: "jd_jvs db = [j]" "jv_id j = 17" "jv_status j = APPROVED" "jv_created_by j = 8" "jv_reference j = None"
    using h(2) by (auto simp: ex_at_def)
  have "\<not> is_reversal j" by (simp add: is_reversal_def j)
  then obtain e where "e \<in> set (events_of (jv_id j) db)" "je_to_status e = APPROVED" "je_triggered_by e \<noteq> jv_created_by j"
    using approval_needs_a_checker [OF ex_books_empty h(1), of j] j by auto
  then show ?thesis using h(1) j by auto
qed

section \<open>Posting\<close>

lemma get_journal_found:
  assumes "vouchers_ok db" and "j \<in> set (jd_jvs db)" and "jv_id j = i" and "jv_tenant_id j = t"
  shows "get_journal_aggregate t i db = Inr j"
proof -
  have "find (\<lambda>r. jv_id r = i \<and> jv_tenant_id r = t) js = Some j" if "distinct (map jv_id js)" "j \<in> set js" for js
    using that assms(3,4) by (induction js) auto
  then show ?thesis using assms(1,2) by (simp add: get_journal_aggregate_def vouchers_ok_def)
qed

text \<open>(C7) Posting enters the active lines once.  In any state that handlers, run one after the other, reach from empty tables, \<open>post_journal_entry\<close> of a journal that
  is not posted succeeds only if the journal is APPROVED and its period open for the role; it then appends exactly one
  ledger entry per active line, in line order, with the line's account, and its amount in the functional currency on the
  line's side; the entries balance, the journal's row becomes PUSHED and no other voucher's row changes.  Calling it again
  in the state it left reports PUSHED and changes nothing.\<close>

theorem posting_enters_ledger:
  assumes "no_journals db0" and "journal_history en db0 db" and "few_lines db"
    and p: "post_journal_entry en se t i u role' db = Inr (r, db')"
  shows "\<exists>j \<in> set (jd_jvs db). jv_id j = i \<and> jv_tenant_id j = t \<and> ar_status r = PUSHED
    \<and> (if is_posted_status (jv_status j) then db' = db
       else jv_status j = APPROVED
         \<and> assert_period_allows_posting t (Some (jv_entity_id j)) (jv_fiscal_year j) (jv_fiscal_period j) role' (jd_gov db) = Inr ()
         \<and> (\<exists>entity rows. get_entity_for_tenant t (jv_entity_id j) db = Inr entity \<and> jd_gl db' = jd_gl db @ rows
              \<and> list_all2 (entry_from j entity) (active_journal_lines j db) rows
              \<and> sum_list (map ge_debit_amount rows) = sum_list (map ge_credit_amount rows))
         \<and> set (jd_jvs db') = insert (posted j (utcnow db)) (set (jd_jvs db) - {j})
         \<and> (\<forall>u2 role2. \<exists>r2. post_journal_entry en se t i u2 role2 db' = Inr (r2, db') \<and> ar_status r2 = PUSHED))"
  using p
proof (rule post_elim)
  fix j assume g: "get_journal_aggregate t i db = Inr j" and r: "is_posted_status (jv_status j)" "db' = db"
    "r = \<lparr>ar_id = jv_id j, ar_status = PUSHED, ar_posted_at = resolve_posted_at j db\<rparr>"
  then show ?thesis using get_journal_in [OF g] by (intro bexI [of _ j]) simp_all
next
  fix j entity j' pt db1 ps
  assume g: "get_journal_aggregate t i db = Inr j" and s: "jv_status j = APPROVED"
    and open_period: "assert_period_allows_posting t (Some (jv_entity_id j)) (jv_fiscal_year j) (jv_fiscal_period j) role' (jd_gov db) = Inr ()"
    and c: "check_postable t j db = Inr ()" and ent: "get_entity_for_tenant t (jv_entity_id j) db = Inr entity"
    and e: "enter_ledger en se j entity u ''Posted via /accounting/journals/{id}/post'' db = Inr ((j', pt), db1)"
    and db': "db' = emit_journal_event en j' u role' ''JOURNAL_POST'' ps db1"
  have ok: "vouchers_ok db" by (rule history_ledger_ok [OF assms(1-3)])
  have j: "j \<in> set (jd_jvs db)" "jv_id j = i" "jv_tenant_id j = t" using get_journal_in [OF g] by simp_all
  note f = enter_ledger_facts [OF ok j(1) e]
  obtain rows where rows: "jd_gl db1 = jd_gl db @ rows" "list_all2 (entry_from j entity) (active_journal_lines j db) rows"
    using f(5) by blast
  have st: "\<forall>l \<in> set (active_journal_lines j db). stored_line l"
    using ok active_lines_in(1) [of j db] by (auto simp: vouchers_ok_def)
  have few: "length (active_journal_lines j db) < 10 ^ 6"
    using assms(3) active_lines_in(2) [of j db] by (metis few_lines_def order_le_less_trans)
  have "side_total ledger_amount DEBIT (active_journal_lines j db) = side_total ledger_amount CREDIT (active_journal_lines j db)"
    using c by (simp add: check_postable_def assert_balanced_active_lines_def Let_def result_simps)
  then have bal: "sum_list (map ge_debit_amount rows) = sum_list (map ge_credit_amount rows)"
    using side_total_exact [OF st few] entries_sums [OF rows(2)] by metis
  have ar: "ar_status r = PUSHED" using p by (auto simp: post_journal_entry_def result_simps Let_def split: if_splits)
  have again: "\<exists>r2. post_journal_entry en se t i u2 role2 db' = Inr (r2, db') \<and> ar_status r2 = PUSHED" for u2 role2
  proof -
    have ok1: "vouchers_ok db1" using f(1) by (simp add: sound_def)
    have k: "jv_id j' = i" "jv_tenant_id j' = t" "jv_status j' = PUSHED" using f(6) j by simp_all
    have "get_journal_aggregate t i db1 = Inr j'" by (rule get_journal_found [OF ok1 f(2) k(1,2)])
    then have a: "get_journal_aggregate t i db' = Inr j'" unfolding db' by (simp add: get_journal_aggregate_def)
    obtain ctx where "require_mutation_context se = Inr ctx" using p by (auto simp: post_journal_entry_def result_simps)
    then show ?thesis using a k(3) by (simp add: post_journal_entry_def is_posted_status_def)
  qed
  show ?thesis
    by (rule bexI [OF _ j(1)])
      (use j s open_period ent rows bal ar again f(3,6) in \<open>auto simp: is_posted_status_def db'\<close>)
qed

lemma posting_enters_ledger_witness:
  "\<exists>db r db' rows. journal_history ex_desk ex_books db \<and> post_journal_entry ex_desk ex_session 7 17 10 None db = Inr (r, db')
     \<and> jd_gl db' = jd_gl db @ rows \<and> length rows = 2"
proof -
  obtain db where h: "journal_history ex_desk ex_books db" "ex_at APPROVED db" using ex_journal_history by blast
  obtain r db' where p: "post_journal_entry ex_desk ex_session 7 17 10 None db = Inr (r, db')" using ex_posted [OF h(2)] by blast
  obtain j where j: "jd_jvs db = [j]" "jv_status j = APPROVED" using h(2) by (auto simp: ex_at_def)
  obtain entity rows where "jd_gl db' = jd_gl db @ rows" "list_all2 (entry_from j entity) (active_journal_lines j db) rows"
    using posting_enters_ledger [OF ex_books_empty h(1) ex_few [OF h(2)] p] j by (auto simp: is_posted_status_def)
  moreover from this(2) have "length rows = 2" using ex_active [OF h(2) j(1)] by (auto dest: list_all2_lengthD)
  ultimately show ?thesis using h(1) p by blast
qed

section \<open>Reversal\<close>

definition on_account :: "string \<Rightarrow> gl_entry list \<Rightarrow> rat" where
  "on_account c gs = sum_list (map (\<lambda>g. ge_debit_amount g - ge_credit_amount g) (filter (\<lambda>g. ge_account_code g = c) gs))"

definition lines_on_account :: "string \<Rightarrow> jv_line list \<Rightarrow> rat" where
  "lines_on_account c ls = sum_list (map (\<lambda>l. if jl_entry_type l = DEBIT then ledger_amount l else - ledger_amount l)
     (filter (\<lambda>l. jl_account_code l = c) ls))"

lemma entries_on_account:
  "list_all2 (entry_from jv entity) ls rows \<Longrightarrow> on_account c rows = lines_on_account c ls"
  by (induction rule: list_all2_induct) (auto simp: on_account_def lines_on_account_def entry_from_def intro: entry_type.exhaust)

lemma mirrored_named: "entry_named (py_upper (entry_text (mirrored e))) = Some (mirrored e)"
proof -
  have "py_upper ''DEBIT'' = ''DEBIT''" "py_upper ''CREDIT'' = ''CREDIT''" by code_simp+
  then show ?thesis by (cases e) (simp_all add: mirrored_def entry_named_def)
qed

lemma reversed_on_account:
  "list_all2 (line_from r) (map (reversal_line j entity) ls) ls' \<Longrightarrow> \<forall>l \<in> set ls. stored_line l \<and> ledger_amount l \<noteq> 0
   \<Longrightarrow> lines_on_account c ls' = - lines_on_account c ls"
proof (induction ls arbitrary: ls')
  case (Cons l ls)
  then obtain l' rest where l': "ls' = l' # rest" "line_from r (reversal_line j entity l) l'"
    "list_all2 (line_from r) (map (reversal_line j entity) ls) rest" by (auto simp: list_all2_Cons1)
  have st: "stored_line l" "ledger_amount l \<noteq> 0" using Cons.prems(2) by simp_all
  then obtain b where b: "jl_base_amount l = Some b" "b = ledger_amount l" by (auto simp: stored_line_def ledger_amount_def)
  have "ld_base_amount (reversal_line j entity l) = Some (Some (ledger_amount l))" using b st by (simp add: reversal_line_def Let_def)
  then have a: "ledger_amount l' = ledger_amount l" using l'(2) st(1) by (simp add: line_from_def stored_line_def)
  have "jl_entry_type l' = mirrored (jl_entry_type l)" "jl_account_code l' = jl_account_code l"
    using l'(2) by (simp_all add: line_from_def reversal_line_def Let_def py_get_def py_str_def mirrored_named)
  then show ?case
    using Cons.IH [OF l'(3)] Cons.prems(2) a
    by (cases "jl_entry_type l") (simp_all add: l'(1) lines_on_account_def mirrored_def)
qed (simp add: lines_on_account_def)

lemma of_mirror: "list_all2 (entry_from r entity) ls rows \<Longrightarrow> gl_entries_for_journal (jv_tenant_id r) (jv_number r) db = []
   \<Longrightarrow> jd_gl db' = jd_gl db @ rows \<Longrightarrow> journal_entries r db' = rows"
  using entries_of_voucher [of r entity ls rows]
  by (auto simp: journal_entries_def gl_entries_for_journal_def filter_empty_conv is_entry_of_def)

text \<open>Another voucher that has entries has another number, so it keeps its own.\<close>

lemma of_original:
  assumes "list_all2 (entry_from r entity) ls rows" and "gl_entries_for_journal (jv_tenant_id r) (jv_number r) db = []"
    and "jd_gl db' = jd_gl db @ rows" and "journal_entries j db \<noteq> []"
  shows "journal_entries j db' = journal_entries j db"
proof -
  have "(jv_tenant_id j, jv_number j) \<noteq> (jv_tenant_id r, jv_number r)"
    using assms(2,4) by (auto simp: journal_entries_def gl_entries_for_journal_def filter_empty_conv is_entry_of_def)
  then have "filter (is_entry_of j) rows = []"
    using entries_of_voucher [OF assms(1)] by (auto simp: filter_empty_conv is_entry_of_def)
  then show ?thesis by (simp add: journal_entries_def assms(3))
qed

text \<open>(C9) A reversal takes the journal out of the ledger again.  Take any state the handlers of the journal desk, run one after the
  other, reach from empty tables.  When \<open>reverse_journal\<close> succeeds, the original was PUSHED and becomes VOIDED, a new journal of the
  acting user is PUSHED, and the ledger grows by exactly the entries of that journal; the original's entries stay, and they are
  those of its active lines.  If no active line of the original is zero in the functional currency, the entries of the two
  journals that stand in the ledger net to zero on every account.  (A line that is zero there is mirrored with its transaction
  amount, \<open>base_amount or amount\<close>, and then they need not.)\<close>

theorem reversal_nets_out:
  assumes "no_journals db0" and "desk_history en db0 db"
    and "reverse_journal en se t i u role' db = Inr (r, db')"
  shows "\<exists>j entity now. j \<in> set (jd_jvs db) \<and> jv_id j = i \<and> jv_tenant_id j = t \<and> jv_status j = PUSHED
    \<and> voided se j u r now \<in> set (jd_jvs db') \<and> r \<in> set (jd_jvs db') \<and> jv_status r = PUSHED \<and> jv_created_by r = u \<and> jv_id r \<noteq> i
    \<and> jd_gl db' = jd_gl db @ journal_entries r db'
    \<and> journal_entries j db' = journal_entries j db \<and> journal_entries j db \<noteq> []
    \<and> list_all2 (entry_from j entity) (active_journal_lines j db) (journal_entries j db)
    \<and> ((\<forall>l \<in> set (active_journal_lines j db). ledger_amount l \<noteq> 0) \<longrightarrow>
         (\<forall>c. on_account c (journal_entries j db') + on_account c (journal_entries r db') = 0))"
proof -
  have ok: "vouchers_ok db" and books: "books_ok True db" using desk_books [OF assms(1,2)] by simp_all
  from reverse_facts [OF ok assms(3)]
  obtain j entity ls rows now where j: "j \<in> set (jd_jvs db)" "jv_id j = i" "jv_tenant_id j = t" "is_posted_status (jv_status j)"
    "voided se j u r now \<in> set (jd_jvs db')" "r \<in> set (jd_jvs db')" "jv_status r = PUSHED" "jv_created_by r = u" "jv_id r \<noteq> i"
    and gl: "jd_gl db' = jd_gl db @ rows"
    and ls: "list_all2 (line_from r) (map (reversal_line j entity) (active_journal_lines j db)) ls"
    and rows: "list_all2 (entry_from r entity) ls rows" and new: "gl_entries_for_journal (jv_tenant_id r) (jv_number r) db = []"
    and two: "2 \<le> length (active_journal_lines j db)" by (elim exE conjE)
  have v: "voucher_ok True j (events_of (jv_id j) db) (journal_entries j db) (active_journal_lines j db)"
    using books j(1) by (simp add: books_ok_def)
  have pushed: "jv_status j = PUSHED" using v j(4) by (simp add: voucher_ok_def desk_ok_def is_posted_status_def)
  obtain entity' where mine: "list_all2 (entry_from j entity') (active_journal_lines j db) (journal_entries j db)"
    using v pushed by (auto simp: voucher_ok_def)
  have some: "journal_entries j db \<noteq> []" using list_all2_lengthD [OF mine] two by auto
  note r' = of_mirror [OF rows new gl] and j' = of_original [OF rows new gl some]
  have st: "\<forall>l \<in> set (active_journal_lines j db). stored_line l"
    using ok active_lines_in(1) [of j db] by (auto simp: vouchers_ok_def)
  have net: "on_account c (journal_entries j db') + on_account c (journal_entries r db') = 0"
    if "\<forall>l \<in> set (active_journal_lines j db). ledger_amount l \<noteq> 0" for c
    using entries_on_account [OF rows] entries_on_account [OF mine] reversed_on_account [OF ls] st that by (simp add: r' j')
  have gl': "jd_gl db' = jd_gl db @ journal_entries r db'" unfolding r' by (rule gl)
  show ?thesis
    by (rule exI [of _ j], rule exI [of _ entity'], rule exI [of _ now], intro conjI impI allI) (rule j pushed gl' j' some mine net | assumption)+
qed

lemma ex_reversal_created:
  assumes "ex_at PUSHED db" and "jd_jvs db = [j]"
  shows "\<exists>r0 db1. create_jv ex_desk ex_session 7 (reversal_input ex_session j ex_entity 10 (active_journal_lines j db)) db = Inr (r0, db1)"
proof -
  have j: "jv_tenant_id j = 7" "jv_number j = ''JV-2024-03-0001''" "jv_fiscal_period j = 3" using assms by (auto simp: ex_at_def)
  show ?thesis
    unfolding ex_active [OF assms]
    by (simp add: create_jv_def ex_session_def require_mutation_context_def Let_def raise_if_def jv_conflict_def reversal_input_def reversal_line_def
        append_lines_def build_line_def py_get_def py_str_def ex_texts entry_named_def to_decimal_def new_jv_def store_line_def or_text_def absent_def
        optionE_def side_total_def dsum_def ex_250 assms(2) j generate_jv_number_def ex_stored_def mirrored_def ex_entity_def del: One_nat_def)
qed

lemma ex_reversed:
  assumes at: "ex_at PUSHED db" and ok: "vouchers_ok db"
  shows "\<exists>r db'. reverse_journal ex_desk ex_session 7 17 10 None db = Inr (r, db')"
proof -
  obtain j where j: "jd_jvs db = [j]" "jv_id j = 17" "jv_tenant_id j = 7" "jv_status j = PUSHED" "jv_entity_id j = 4"
    "jv_number j = ''JV-2024-03-0001''" using at by (auto simp: ex_at_def)
  have old: "\<forall>l \<in> set (jd_lines db). jl_jv_id l = 17" "\<forall>g \<in> set (jd_gl db). ge_source_ref g = Some ''JV-2024-03-0001''"
    and ents: "jd_entities db = [ex_entity]" and gov: "gd_periods (jd_gov db) = []" using at by (auto simp: ex_at_def ex_stored_def list_all_iff ex_entry_def)
  obtain r0 db1 where c: "create_jv ex_desk ex_session 7 (reversal_input ex_session j ex_entity 10 (active_journal_lines j db)) db = Inr (r0, db1)"
    using ex_reversal_created [OF at j(1)] by blast
  note c' = create_jv_ok [OF ok c]
  obtain ls where l: "jd_lines db1 = jd_lines db @ ls" "list_all2 (line_from r0) (map (reversal_line j ex_entity) (active_journal_lines j db)) ls"
    "map jl_line_number ls = [1..<3]" using c'(12) by (auto simp: reversal_input_def ex_active [OF at j(1)] numeral_3_eq_3 simp del: upt_Suc)
  obtain a b where two_lines: "ls = [a, b]" "line_from r0 (reversal_line j ex_entity (ex_stored 18 1 ''CASH'' DEBIT)) a"
    "line_from r0 (reversal_line j ex_entity (ex_stored 19 2 ''SALES'' CREDIT)) b"
    using l(2) unfolding ex_active [OF at j(1)] by (auto simp: list_all2_Cons1)
  note ab = two_lines(2,3) and ls = l(1,3) [unfolded two_lines(1)]
  have amounts: "jl_entry_type a = CREDIT" "jl_entry_type b = DEBIT" "ledger_amount a = 250" "ledger_amount b = 250"
    using ab by (auto simp: line_from_def reversal_line_def Let_def py_get_def py_str_def ex_stored_def mirrored_def ex_texts entry_named_def ex_250)
  have num: "jv_number r0 = ''JV-2024-04-0001''"
    using c'(11) at j(1) by (simp add: reversal_input_def generate_jv_number_def ex_session_def ex_at_def ex_texts del: One_nat_def)
  define r1 where "r1 = approved r0 (utcnow db1)"
  have r1: "jv_id r1 = next_uuid db" "jv_version r1 = 1" "jv_number r1 = ''JV-2024-04-0001''" "jv_tenant_id r1 = 7" using c' num by (simp_all add: r1_def)
  obtain db2 where e: "append_journal_event ex_desk ex_session r1 (jv_status r0) APPROVED 10 ''ACCOUNTING_APPROVER''
      (''Auto-approved reversal for '' @ jv_number j) (put_jv r1 (jd_tick db1)) = Inr db2" using ex_event by blast
  have l2: "jd_lines db2 = jd_lines db @ [a, b]" and g2: "jd_gl db2 = jd_gl db" using ex_frame [OF e] ls(1) c'(3) by simp_all
  have fresh: "17 < next_uuid db" using ok j by (simp add: vouchers_ok_def)
  have act: "active_journal_lines r1 x = [a, b]" if "jd_lines x = jd_lines db @ [a, b]" for x
    by (rule active_of_new [OF that _ _ ls(2)]) (use old fresh ab r1 c' in \<open>auto simp: line_from_def\<close>)
  have post: "check_postable (jv_tenant_id r1) r1 db2 = Inr ()"
    using old(2) by (auto simp: check_postable_def assert_balanced_active_lines_def act [OF l2] raise_if_def side_total_def dsum_def ex_250
        amounts gl_entries_for_journal_def g2 r1 Let_def filter_empty_conv)
  obtain db3 where gl: "append_gl_entries ex_desk ex_session r1 ex_entity 10 (jv_period_date r1) (jd_tick db2) = Inr db3"
    using act [of "jd_tick db2"] l2
    by (simp add: append_gl_entries_def require_mutation_context_def ex_session_def raise_if_def side_total_def dsum_def ex_250 amounts
        gl_entry_of_def Let_def)
  let ?r = "posted r1 (utcnow db2)"
  obtain db4 where e4: "append_journal_event ex_desk ex_session ?r (jv_status r1) PUSHED 10 ''ACCOUNTING_POSTER''
      (''Auto-posted reversal for '' @ jv_number j) (put_jv ?r db3) = Inr db4" using ex_event by blast
  let ?v = "voided ex_session j 10 ?r (utcnow db4)"
  obtain db5 where e5: "append_journal_event ex_desk ex_session ?v (jv_status j) VOIDED 10 (or_text None ''ACCOUNTING_POSTER'')
      (''Reversed via '' @ jv_number ?r) (put_jv ?v (jd_tick db4)) = Inr db5" using ex_event by blast
  have ctx: "require_mutation_context ex_session = Inr \<lparr>mc_intent_id = 1, mc_job_id = 2\<rparr>"
    by (simp add: require_mutation_context_def ex_session_def)
  have ent: "get_entity_for_tenant 7 4 db = Inr ex_entity" by (simp add: get_entity_for_tenant_def ents ex_entity_def)
  have two: "\<not> length (active_journal_lines j db) < 2" by (simp add: ex_active [OF at j(1)])
  have app: "set_approved ex_desk ex_session r0 10 (''Auto-approved reversal for '' @ jv_number j) db1 = Inr (r1, db2)"
    using e by (simp add: set_approved_def Let_def r1_def)
  have en: "post_approved_journal ex_desk ex_session r1 ex_entity 10 (''Auto-posted reversal for '' @ jv_number j) db2 = Inr ((?r, utcnow db2), db4)"
    by (simp only: post_approved_journal_def post enter_ledger_def gl e4 Let_def bindE_simps prod.case)
  show ?thesis
    using ctx ex_opened [OF at j(1)] ent c app en e5
    by (simp add: reverse_journal_def j(4,5) two raise_if_def is_posted_status_def ex_open_period gov Let_def)
qed

lemma reversal_nets_out_witness:
  "\<exists>db r db' j. desk_history ex_desk ex_books db \<and> reverse_journal ex_desk ex_session 7 17 10 None db = Inr (r, db')
     \<and> jd_jvs db = [j] \<and> on_account ''CASH'' (journal_entries j db') = 250 \<and> on_account ''CASH'' (journal_entries r db') = - 250"
proof -
  obtain db where h: "desk_history ex_desk ex_books db" "ex_at PUSHED db" using ex_desk_history(3) by (elim exE conjE)
  have ok: "vouchers_ok db" using desk_books [OF ex_books_empty h(1)] by simp
  obtain j where j: "jd_jvs db = [j]" using h(2) by (auto simp: ex_at_def)
  obtain r db' where r: "reverse_journal ex_desk ex_session 7 17 10 None db = Inr (r, db')" using ex_reversed [OF h(2) ok] by blast
  note act = ex_active [OF h(2) j]
  have nz: "\<forall>l \<in> set (active_journal_lines j db). ledger_amount l \<noteq> 0" unfolding act by (simp add: ex_stored_def ledger_amount_def)
  obtain entity where mine: "list_all2 (entry_from j entity) (active_journal_lines j db) (journal_entries j db)"
    and same: "journal_entries j db' = journal_entries j db" and net: "on_account ''CASH'' (journal_entries j db') + on_account ''CASH'' (journal_entries r db') = 0"
    using reversal_nets_out [OF ex_books_empty h(1) r] j nz by auto
  have "on_account ''CASH'' (journal_entries j db') = 250"
    unfolding same entries_on_account [OF mine] act by (simp add: lines_on_account_def ex_stored_def ledger_amount_def)
  moreover from this have "on_account ''CASH'' (journal_entries r db') = - 250" using net by simp
  ultimately show ?thesis using h(1) r j by blast
qed

section \<open>Refusals\<close>

lemma py_upper_idem: "py_upper (py_upper s) = py_upper s"
proof -
  have "upper_char (upper_char c) = upper_char c" for c
    by (cases "97 \<le> (of_char c :: nat) \<and> (of_char c :: nat) \<le> 122") (auto simp: upper_char_def Let_def)
  then show ?thesis by (simp add: py_upper_def)
qed

lemma prepare_own_currency:
  assumes "prepare_line en t d entity db line = Inr l"
    and "py_upper (or_text (jc_functional_currency line) (ce_base_currency entity)) = c"
    and "py_upper (or_text (jc_transaction_currency line) c) = c"
  shows "pr_transaction_currency l = c \<and> pr_fx_rate l = None"
  using assms(1) unfolding prepare_line_def assms(2,3) Let_def by (auto simp: result_simps assms(2,3) split: option.splits)

lemma foreign_line_refused:
  assumes "pr_transaction_currency l = py_upper c" and "py_upper c \<noteq> ''INR''" and "pr_fx_rate l = None"
  shows "build_line en ctx jv idx i h (draft_line e l) \<noteq> Inr x"
  using assms by (auto simp: build_line_def draft_line_def py_get_def py_str_def py_upper_idem Let_def result_simps to_decimal_def)

lemma build_lines_some:
  "build_lines en ctx jv idx i h ds = Inr ls \<Longrightarrow> d \<in> set ds \<Longrightarrow> \<exists>idx i h x. build_line en ctx jv idx i h d = Inr x"
  by (induction ds arbitrary: idx i h ls) (auto simp: result_simps)

lemma mapE_Inr_in: "mapE f xs = Inr ys \<Longrightarrow> x \<in> set xs \<Longrightarrow> \<exists>y \<in> set ys. f x = Inr y"
  by (induction xs arbitrary: ys) (auto simp: result_simps)

text \<open>(C38) A draft cannot be kept in a functional currency other than INR.  If some line of the request is in its own functional
  currency, and that is not INR, \<open>create_journal_draft\<close> fails whatever else the request and the tables hold: the
  prepared line carries the key \<open>fx_rate\<close> with the value \<open>None\<close>, so that the default rate 1 of \<open>_append_lines\<close>
  does not apply, and \<open>None\<close> is no decimal.\<close>

theorem foreign_draft_refused:
  assumes "get_entity_for_tenant t (jq_org_entity_id rq) db = Inr entity" and "line \<in> set (jq_lines rq)"
    and "py_upper (or_text (jc_functional_currency line) (ce_base_currency entity)) = c" and "c \<noteq> ''INR''"
    and "py_upper (or_text (jc_transaction_currency line) c) = c"
  shows "\<exists>e. create_journal_draft en se t u rq src ext db = Inl e"
proof (cases "create_journal_draft en se t u rq src ext db")
  case (Inr r)
  then obtain j db' prepared inp where prep: "mapE (prepare_line en t (jq_journal_date rq) entity db) (jq_lines rq) = Inr prepared"
    and c: "create_jv en se t inp db = Inr (j, db')" and inp: "ji_lines inp = map (draft_line (ce_id entity)) prepared"
    using assms(1) by (fastforce simp: create_journal_draft_def result_simps)
  obtain l where l: "l \<in> set prepared" "prepare_line en t (jq_journal_date rq) entity db line = Inr l"
    using mapE_Inr_in [OF prep assms(2)] by blast
  have p: "pr_transaction_currency l = c" "pr_fx_rate l = None" using prepare_own_currency [OF l(2) assms(3,5)] by simp_all
  have "ji_lines inp \<noteq> []" using inp l(1) by auto
  then have "\<exists>ctx jv idx i h ls. build_lines en ctx jv idx i h (ji_lines inp) = Inr ls"
    using c by (auto simp: create_jv_def append_lines_def Let_def result_simps) blast
  then obtain ctx jv idx i h ls where "build_lines en ctx jv idx i h (ji_lines inp) = Inr ls" by blast
  then obtain idx i h x where "build_line en ctx jv idx i h (draft_line (ce_id entity) l) = Inr x"
    using build_lines_some inp l(1) by (metis image_eqI list.set_map)
  moreover have "py_upper c = c" using assms(3) py_upper_idem by metis
  ultimately have False using foreign_line_refused [of l c] p assms(4) by metis
  then show ?thesis ..
qed simp

definition ex_usd_entity :: cp_entity where
  "ex_usd_entity = \<lparr>ce_id = 5, ce_tenant_id = 7, ce_entity_name = ''Acme Inc'', ce_base_currency = ''USD''\<rparr>"

lemma foreign_draft_refused_witness:
  "\<exists>e. create_journal_draft ex_desk ex_session 7 8 \<lparr>jq_org_entity_id = 5, jq_journal_date = Date 2024 3 15, jq_reference = None,
     jq_narration = None, jq_lines = [ex_own_line ''CASH'' 250 0, ex_own_line ''SALES'' 0 250]\<rparr> ''MANUAL'' None
     (ex_books\<lparr>jd_entities := [ex_usd_entity], jd_accounts := [ex_account 1 ''CASH'', ex_account 2 ''SALES'']\<rparr>) = Inl e"
proof -
  have u: "py_upper ''USD'' = ''USD''" by code_simp
  show ?thesis
    by (rule foreign_draft_refused [where c = "''USD''" and entity = ex_usd_entity and line = "ex_own_line ''CASH'' 250 0"])
      (simp_all add: get_entity_for_tenant_def or_text_def absent_def u ex_usd_entity_def ex_own_line_def)
qed

text \<open>(C39) A fourth resubmission is refused, not escalated.  Asked to resubmit a rejected voucher that was resubmitted
  three times or more, \<open>transition_jv\<close> replaces the target by ESCALATED, as \<open>next_status_after_resubmit\<close> says; the
  table of allowed transitions has no such step from REJECTED, so the call always raises and the voucher
  can only be voided.\<close>

theorem fourth_resubmission_refused:
  assumes "se_context se = Some ctx" and "get_jv i t db = Inr j" and "jv_status j = REJECTED" and "MAX_RESUBMISSIONS \<le> jv_resubmission_count j"
    and "py_upper to_status = ''RESUBMITTED''" and "jv_version j = v"
  shows "transition_target to_status (jv_resubmission_count j) = Some ESCALATED
    \<and> transition_jv en se i t to_status u role v comment is_admin db = Inl (ValidationError ''Transition is not allowed.'')"
proof
  have n: "status_named ''RESUBMITTED'' = Some RESUBMITTED" by code_simp
  show tt: "transition_target to_status (jv_resubmission_count j) = Some ESCALATED"
    using assms(4,5) by (simp add: transition_target_def n next_status_after_resubmit_def Let_def)
  have "(REJECTED, ESCALATED) \<notin> set ALLOWED_TRANSITIONS" "REJECTED \<notin> set TERMINAL_STATES"
    by (simp_all add: ALLOWED_TRANSITIONS_def TERMINAL_STATES_def)
  then show "transition_jv en se i t to_status u role v comment is_admin db = Inl (ValidationError ''Transition is not allowed.'')"
    using assms by (simp add: transition_jv_def require_mutation_context_def check_optimistic_lock_def raise_if_def tt validate_transition_def)
qed

definition ex_rejected :: jv where
  "ex_rejected = (new_jv ex_desk ex_session \<lparr>mc_intent_id = 1, mc_job_id = 2\<rparr> 7 ex_voucher ex_books)
     \<lparr>jv_id := 17, jv_status := REJECTED, jv_resubmission_count := 3\<rparr>"

lemma fourth_resubmission_refused_witness:
  "transition_jv ex_desk ex_session 17 7 ''resubmitted'' 8 ''ACCOUNTING_PREPARER'' 1 None False (ex_books\<lparr>jd_jvs := [ex_rejected]\<rparr>)
     = Inl (ValidationError ''Transition is not allowed.'')"
proof -
  have u: "py_upper ''resubmitted'' = ''RESUBMITTED''" by code_simp
  show ?thesis
    by (rule fourth_resubmission_refused [where j = ex_rejected and ctx = "\<lparr>mc_intent_id = 1, mc_job_id = 2\<rparr>", THEN conjunct2])
      (simp_all add: ex_session_def get_jv_def ex_rejected_def new_jv_def MAX_RESUBMISSIONS_def u)
qed

end
