(* ===== verification/Financial_Statements.thy ===== *)
theory Financial_Statements
  imports Trial_Balance
begin

text \<open>
  \<open>application/financial_statements_service.py\<close> of the accounting layer: profit and loss,
  balance sheet and cash flow statement over the ledger, classified by the flags of the chart of
  accounts.
\<close>

section \<open>Account aggregates\<close>

record account_aggregate =
  ag_account_code :: string
  ag_account_name :: string
  ag_debit_sum :: rat
  ag_credit_sum :: rat
  ag_bs_pl_flag :: "string option"
  ag_asset_liability_class :: "string option"
  ag_cash_flow_tag :: "string option"
  ag_normal_balance :: "string option"

text \<open>\<open>token in text\<close>.\<close>

fun contains :: "string \<Rightarrow> string \<Rightarrow> bool" where
  "contains t [] \<longleftrightarrow> t = []"
| "contains t (c # s) \<longleftrightarrow> take (length t) (c # s) = t \<or> contains t s"

definition normalize :: "string option \<Rightarrow> string" where
  "normalize v = py_upper (py_strip (if absent v then [] else the v))"

definition row_text :: "account_aggregate \<Rightarrow> string" where
  "row_text row = normalize (Some (ag_account_code row)) @ '' '' @ normalize (Some (ag_account_name row))"

datatype pnl_bucket = REVENUE | COST_OF_SALES | OPERATING_EXPENSE | OTHER_INCOME | OTHER_EXPENSE

definition classify_pnl_bucket :: "account_aggregate \<Rightarrow> pnl_bucket" where
  "classify_pnl_bucket row =
     (let flag = normalize (ag_bs_pl_flag row); t = row_text row in
      if flag \<in> {''REVENUE'', ''INCOME''} then (if contains ''OTHER'' t then OTHER_INCOME else REVENUE)
      else if flag \<in> {''EXPENSE'', ''COST'', ''COGS''} then
        (if list_ex (\<lambda>k. contains k t) [''COGS'', ''COST OF SALES'', ''COST_OF_SALES'', ''DIRECT COST'', ''MATERIAL''] then COST_OF_SALES
         else if list_ex (\<lambda>k. contains k t) [''INTEREST'', ''FINANCE'', ''BANK CHARGE'', ''OTHER EXPENSE''] then OTHER_EXPENSE
         else OPERATING_EXPENSE)
      else if ag_debit_sum row \<le> ag_credit_sum row then OTHER_INCOME else OPERATING_EXPENSE)"

definition signed_amount_for_bucket :: "account_aggregate \<Rightarrow> pnl_bucket \<Rightarrow> rat" where
  "signed_amount_for_bucket row bucket =
     (if bucket \<in> {REVENUE, OTHER_INCOME} then dsub (ag_credit_sum row) (ag_debit_sum row)
      else dsub (ag_debit_sum row) (ag_credit_sum row))"

definition pnl_amount :: "account_aggregate \<Rightarrow> rat" where
  "pnl_amount row = signed_amount_for_bucket row (classify_pnl_bucket row)"

text \<open>An accumulator of the loops: the rows of one bucket, in order.\<close>

definition bucket_total :: "pnl_bucket \<Rightarrow> account_aggregate list \<Rightarrow> rat" where
  "bucket_total bucket rows = dsum (map pnl_amount (filter (\<lambda>r. classify_pnl_bucket r = bucket) rows))"

definition net_of_buckets :: "account_aggregate list \<Rightarrow> rat" where
  "net_of_buckets rows =
     dsub (dadd (dsub (dsub (bucket_total REVENUE rows) (bucket_total COST_OF_SALES rows)) (bucket_total OPERATING_EXPENSE rows))
       (bucket_total OTHER_INCOME rows)) (bucket_total OTHER_EXPENSE rows)"

definition net_profit_from_rows :: "account_aggregate list \<Rightarrow> rat" where
  "net_profit_from_rows rows = net_of_buckets rows"

datatype bs_bucket = ASSET | LIABILITY | EQUITY

definition classify_balance_sheet_bucket :: "account_aggregate \<Rightarrow> bs_bucket \<times> string option" where
  "classify_balance_sheet_bucket row =
     (let flag = normalize (ag_bs_pl_flag row); cls = normalize (ag_asset_liability_class row);
          subtype = (if cls = [] then None else Some cls) in
      if flag = ''ASSET'' then (ASSET, subtype)
      else if flag = ''LIABILITY'' then (LIABILITY, subtype)
      else if flag \<in> {''EQUITY'', ''OCI''} then (EQUITY, subtype)
      else if normalize (ag_normal_balance row) = ''CREDIT'' then (LIABILITY, subtype) else (ASSET, subtype))"

definition balance_amount :: "account_aggregate \<Rightarrow> bs_bucket \<Rightarrow> rat" where
  "balance_amount row bucket =
     (if bucket = ASSET then dsub (ag_debit_sum row) (ag_credit_sum row) else dsub (ag_credit_sum row) (ag_debit_sum row))"

text \<open>
  The query: ledger entries of the entity, joined from the left with the tenant's active account of the code and that
  account's row in the chart, grouped by code, name and the four columns of the chart.
\<close>

definition chart_rows :: "uuid \<Rightarrow> journal_db \<Rightarrow> gl_entry \<Rightarrow> coa_ledger_account option list" where
  "chart_rows tenant_id db g =
     (case active_accounts tenant_id (\<lambda>a. ca_account_code a = ge_account_code g) db of
        [] \<Rightarrow> [None]
      | as \<Rightarrow> map (\<lambda>a. case ca_ledger_account_id a of None \<Rightarrow> None | Some i \<Rightarrow> find (\<lambda>c. cl_id c = i) (jd_coa db)) as)"

type_synonym group_key = "string \<times> string \<times> string option \<times> string option \<times> string option \<times> string option"

definition group_key_of :: "gl_entry \<times> coa_ledger_account option \<Rightarrow> group_key" where
  "group_key_of r = (let column = (\<lambda>f. Option.bind (snd r) f) in
     (ge_account_code (fst r), ge_account_name (fst r), column cl_bs_pl_flag, column cl_asset_liability_class,
      column cl_cash_flow_tag, column cl_normal_balance))"

definition aggregate_of :: "(gl_entry \<times> coa_ledger_account option) list \<Rightarrow> group_key \<Rightarrow> account_aggregate" where
  "aggregate_of joined key =
     (let mine = map fst (filter (\<lambda>r. group_key_of r = key) joined); (code, name, flag, cls, tag, normal) = key in
      \<lparr>ag_account_code = code, ag_account_name = name, ag_debit_sum = sum_list (map ge_debit_amount mine),
       ag_credit_sum = sum_list (map ge_credit_amount mine), ag_bs_pl_flag = flag, ag_asset_liability_class = cls,
       ag_cash_flow_tag = tag, ag_normal_balance = normal\<rparr>)"

definition joined_entries :: "uuid \<Rightarrow> uuid \<Rightarrow> nat option \<Rightarrow> nat \<Rightarrow> journal_db \<Rightarrow> (gl_entry \<times> coa_ledger_account option) list" where
  "joined_entries tenant_id org_entity_id from_dt to_dt db =
     concat (map (\<lambda>g. map (\<lambda>c. (g, c)) (chart_rows tenant_id db g)) (trial_balance_entries tenant_id org_entity_id to_dt from_dt db))"

definition fetch_account_aggregates :: "uuid \<Rightarrow> uuid \<Rightarrow> nat option \<Rightarrow> nat \<Rightarrow> journal_db \<Rightarrow> account_aggregate list" where
  "fetch_account_aggregates tenant_id org_entity_id from_dt to_dt db =
     (let joined = joined_entries tenant_id org_entity_id from_dt to_dt db in
      map (aggregate_of joined) (sort_key fst (remdups (map group_key_of joined))))"

section \<open>The statements\<close>

record pnl_response =
  pn_revenue :: rat
  pn_cost_of_sales :: rat
  pn_gross_profit :: rat
  pn_operating_expense :: rat
  pn_operating_profit :: rat
  pn_other_income :: rat
  pn_other_expense :: rat
  pn_net_profit :: rat
  pn_breakdown :: "(pnl_bucket \<times> account_aggregate \<times> rat) list"

definition control_net :: "account_aggregate list \<Rightarrow> rat" where
  "control_net rows = foldl (\<lambda>net r. if classify_pnl_bucket r \<in> {REVENUE, OTHER_INCOME} then dadd net (pnl_amount r)
     else dsub net (pnl_amount r)) 0 rows"

definition tolerance :: rat where "tolerance = 1 / 100"

definition get_profit_and_loss :: "uuid \<Rightarrow> uuid \<Rightarrow> date \<Rightarrow> date \<Rightarrow> journal_db \<Rightarrow> pnl_response result" where
  "get_profit_and_loss tenant_id org_entity_id from_date to_date db =
     bindE (raise_if (to_date < from_date) (ValidationError ''from_date cannot be after to_date.'')) (\<lambda>_.
     bindE (get_entity_for_tenant tenant_id org_entity_id db) (\<lambda>_.
     let rows = fetch_account_aggregates tenant_id org_entity_id (Some (start_of_day from_date)) (end_of_day to_date) db;
         moved = filter (\<lambda>r. pnl_amount r \<noteq> 0) rows;
         revenue = bucket_total REVENUE moved; cost_of_sales = bucket_total COST_OF_SALES moved;
         operating_expense = bucket_total OPERATING_EXPENSE moved; other_income = bucket_total OTHER_INCOME moved;
         other_expense = bucket_total OTHER_EXPENSE moved;
         gross_profit = dsub revenue cost_of_sales; operating_profit = dsub gross_profit operating_expense;
         net_profit = dsub (dadd operating_profit other_income) other_expense
     in bindE (raise_if (tolerance < \<bar>dsub net_profit (control_net rows)\<bar>)
                (ValidationError ''P&L integrity failed: calculated net profit mismatch.'')) (\<lambda>_.
        Inr \<lparr>pn_revenue = revenue, pn_cost_of_sales = cost_of_sales, pn_gross_profit = gross_profit,
             pn_operating_expense = operating_expense, pn_operating_profit = operating_profit, pn_other_income = other_income,
             pn_other_expense = other_expense, pn_net_profit = net_profit,
             pn_breakdown = map (\<lambda>r. (classify_pnl_bucket r, r, pnl_amount r)) moved\<rparr>)))"

record balance_sheet =
  bs_assets :: "(account_aggregate \<times> string option \<times> rat) list"
  bs_liabilities :: "(account_aggregate \<times> string option \<times> rat) list"
  bs_equity :: "(account_aggregate \<times> string option \<times> rat) list"
  bs_retained_earnings :: rat
  bs_total_assets :: rat
  bs_total_liabilities :: rat
  bs_total_equity :: rat
  bs_liabilities_and_equity :: rat

definition bs_amount :: "account_aggregate \<Rightarrow> rat" where
  "bs_amount row = balance_amount row (fst (classify_balance_sheet_bucket row))"

definition bs_items :: "bs_bucket \<Rightarrow> account_aggregate list \<Rightarrow> (account_aggregate \<times> string option \<times> rat) list" where
  "bs_items bucket rows = map (\<lambda>r. (r, snd (classify_balance_sheet_bucket r), bs_amount r))
     (filter (\<lambda>r. bs_amount r \<noteq> 0 \<and> fst (classify_balance_sheet_bucket r) = bucket) rows)"

definition items_total :: "(account_aggregate \<times> string option \<times> rat) list \<Rightarrow> rat" where
  "items_total items = dsum (map (\<lambda>(_, _, amount). amount) items)"

text \<open>The line of derived retained earnings is the field \<open>bs_retained_earnings\<close>; it enters the total when it is not zero.\<close>

definition get_balance_sheet :: "uuid \<Rightarrow> uuid \<Rightarrow> date \<Rightarrow> journal_db \<Rightarrow> balance_sheet result" where
  "get_balance_sheet tenant_id org_entity_id as_of_date db =
     bindE (get_entity_for_tenant tenant_id org_entity_id db) (\<lambda>_.
     let rows = fetch_account_aggregates tenant_id org_entity_id None (end_of_day as_of_date) db;
         retained_earnings = net_profit_from_rows rows;
         assets = bs_items ASSET rows; liabilities = bs_items LIABILITY rows; equity = bs_items EQUITY rows;
         total_assets = items_total assets; total_liabilities = items_total liabilities;
         total_equity = (if retained_earnings \<noteq> 0 then dadd (items_total equity) retained_earnings else items_total equity);
         liabilities_and_equity = dadd total_liabilities total_equity
     in bindE (raise_if (tolerance < \<bar>dsub total_assets liabilities_and_equity\<bar>)
                (ValidationError ''Balance sheet integrity failed: assets must equal liabilities + equity.'')) (\<lambda>_.
        Inr \<lparr>bs_assets = assets, bs_liabilities = liabilities, bs_equity = equity, bs_retained_earnings = retained_earnings,
             bs_total_assets = total_assets, bs_total_liabilities = total_liabilities, bs_total_equity = total_equity,
             bs_liabilities_and_equity = liabilities_and_equity\<rparr>))"

record cash_flow =
  cf_net_profit :: rat
  cf_non_cash_adjustments :: rat
  cf_working_capital_changes :: rat
  cf_operating_cash_flow :: rat
  cf_investing_cash_flow :: rat
  cf_financing_cash_flow :: rat
  cf_net_cash_flow :: rat

definition is_non_cash :: "account_aggregate \<Rightarrow> bool" where
  "is_non_cash row \<longleftrightarrow> (contains ''DEPRECIATION'' (row_text row) \<or> contains ''AMORT'' (row_text row)
       \<or> normalize (ag_cash_flow_tag row) = ''EXCLUDED'')
     \<and> classify_pnl_bucket row \<in> {OPERATING_EXPENSE, OTHER_EXPENSE, COST_OF_SALES}"

text \<open>\<open>opening_map\<close> and \<open>closing_map\<close>: a later row of a code replaces an earlier one, at the place of the first.\<close>

definition row_by_code :: "account_aggregate list \<Rightarrow> string \<Rightarrow> account_aggregate option" where
  "row_by_code rows code = find (\<lambda>r. ag_account_code r = code) (rev rows)"

definition codes_in_order :: "account_aggregate list \<Rightarrow> string list" where
  "codes_in_order rows = rev (remdups (rev (map ag_account_code rows)))"

definition working_capital_step :: "account_aggregate list \<Rightarrow> account_aggregate list \<Rightarrow> rat \<Rightarrow> string \<Rightarrow> rat" where
  "working_capital_step opening_rows closing_rows changes code =
     (case row_by_code closing_rows code of None \<Rightarrow> changes
      | Some close_row \<Rightarrow>
          (let (bucket, subtype) = classify_balance_sheet_bucket close_row;
               open_amount = (case row_by_code opening_rows code of None \<Rightarrow> 0 | Some r \<Rightarrow> balance_amount r bucket);
               delta = dsub (balance_amount close_row bucket) open_amount in
           if bucket \<notin> {ASSET, LIABILITY} \<or> subtype \<noteq> Some ''CURRENT'' then changes
           else if bucket = ASSET then dsub changes delta else dadd changes delta))"

definition working_capital_changes :: "account_aggregate list \<Rightarrow> account_aggregate list \<Rightarrow> rat" where
  "working_capital_changes opening_rows closing_rows =
     foldl (working_capital_step opening_rows closing_rows) 0 (codes_in_order closing_rows)"

definition tagged_movement :: "string \<Rightarrow> account_aggregate list \<Rightarrow> rat" where
  "tagged_movement tag rows =
     dsum (map (\<lambda>r. dsub (ag_credit_sum r) (ag_debit_sum r)) (filter (\<lambda>r. normalize (ag_cash_flow_tag r) = tag) rows))"

definition is_cash :: "account_aggregate \<Rightarrow> bool" where
  "is_cash row \<longleftrightarrow> contains ''CASH'' (row_text row) \<or> contains ''BANK'' (row_text row)"

definition cash_delta :: "account_aggregate list \<Rightarrow> rat" where
  "cash_delta rows = dsum (map (\<lambda>r. dsub (ag_debit_sum r) (ag_credit_sum r)) (filter is_cash rows))"

definition get_cash_flow_statement :: "uuid \<Rightarrow> uuid \<Rightarrow> date \<Rightarrow> date \<Rightarrow> journal_db \<Rightarrow> cash_flow result" where
  "get_cash_flow_statement tenant_id org_entity_id from_date to_date db =
     bindE (raise_if (to_date < from_date) (ValidationError ''from_date cannot be after to_date.'')) (\<lambda>_.
     bindE (get_entity_for_tenant tenant_id org_entity_id db) (\<lambda>_.
     let period_rows = fetch_account_aggregates tenant_id org_entity_id (Some (start_of_day from_date)) (end_of_day to_date) db in
     bindE (get_profit_and_loss tenant_id org_entity_id from_date to_date db) (\<lambda>pnl.
     let non_cash_adjustments = dsum (map pnl_amount (filter is_non_cash period_rows)) in
     bindE (prev_day from_date) (\<lambda>day_before.
     let opening_rows = fetch_account_aggregates tenant_id org_entity_id None (end_of_day day_before) db;
         closing_rows = fetch_account_aggregates tenant_id org_entity_id None (end_of_day to_date) db;
         wc_changes = working_capital_changes opening_rows closing_rows;
         operating = dadd (dadd (pn_net_profit pnl) non_cash_adjustments) wc_changes;
         investing = tagged_movement ''INVESTING'' period_rows; financing = tagged_movement ''FINANCING'' period_rows;
         net_cash_flow = dadd (dadd operating investing) financing; moved = cash_delta period_rows
     in bindE (raise_if (tolerance < \<bar>dsub moved net_cash_flow\<bar> \<and> moved \<noteq> 0)
                (ValidationError ''Cash flow integrity failed: calculated net cash flow does not match cash account movement.'')) (\<lambda>_.
        Inr \<lparr>cf_net_profit = pn_net_profit pnl, cf_non_cash_adjustments = non_cash_adjustments,
             cf_working_capital_changes = wc_changes, cf_operating_cash_flow = operating, cf_investing_cash_flow = investing,
             cf_financing_cash_flow = financing, cf_net_cash_flow = net_cash_flow\<rparr>)))))"

section \<open>The aggregates carry the whole ledger\<close>

lemma filter_fst_sum:
  "sum_list (map (\<lambda>k. sum_list (map f (map fst (filter (\<lambda>r. key r = k) js)))) (sort_key g (remdups (map key js)))) = (sum_list (map f (map fst js)) :: rat)"
proof -
  have "sum_list (map (\<lambda>k. sum_list (map (\<lambda>r. f (fst r)) (filter (\<lambda>r. key r = k) js))) (remdups (map key js))) = sum_list (map (\<lambda>r. f (fst r)) js)"
    by (rule sum_by_groups) simp_all
  then show ?thesis by (simp add: sum_list_sort comp_def)
qed

definition unique_accounts :: "journal_db \<Rightarrow> bool" where
  "unique_accounts db \<longleftrightarrow> distinct (map (\<lambda>a. (ca_tenant_id a, ca_account_code a)) (jd_accounts db))"

lemma chart_rows_single: "unique_accounts db \<Longrightarrow> \<exists>c. chart_rows t db g = [c]"
proof -
  assume u: "unique_accounts db"
  let ?P = "\<lambda>a. ca_tenant_id a = t \<and> ca_is_active a \<and> ca_account_code a = ge_account_code g"
  have "filter ?P as = [] \<or> (\<exists>a. filter ?P as = [a])" if "distinct (map (\<lambda>a. (ca_tenant_id a, ca_account_code a)) as)" for as
    using that
  proof (induction as)
    case (Cons a as)
    show ?case
    proof (cases "?P a")
      case True
      have "\<not> ?P x" if "x \<in> set as" for x
      proof
        assume "?P x"
        then have "(ca_tenant_id a, ca_account_code a) = (ca_tenant_id x, ca_account_code x)" using True by simp
        then show False using Cons.prems that by auto
      qed
      then have "filter ?P as = []" by (simp add: filter_empty_conv)
      then show ?thesis using True by simp
    qed (use Cons in auto)
  qed simp
  then show ?thesis using u unfolding chart_rows_def active_accounts_def unique_accounts_def by fastforce
qed

lemma joined_entries_fst:
  assumes "unique_accounts db"
  shows "map fst (joined_entries t i lo hi db) = trial_balance_entries t i hi lo db"
proof -
  have "map fst (concat (map (\<lambda>g. map (\<lambda>c. (g, c)) (chart_rows t db g)) gs)) = gs" for gs
  proof (induction gs)
    case (Cons g gs)
    obtain c where "chart_rows t db g = [c]" using chart_rows_single [OF assms] by blast
    then show ?case using Cons by simp
  qed simp
  then show ?thesis by (simp add: joined_entries_def)
qed

lemma aggregate_sums:
  "ag_debit_sum (aggregate_of js k) = sum_list (map ge_debit_amount (map fst (filter (\<lambda>r. group_key_of r = k) js)))"
  "ag_credit_sum (aggregate_of js k) = sum_list (map ge_credit_amount (map fst (filter (\<lambda>r. group_key_of r = k) js)))"
  by (simp_all add: aggregate_of_def Let_def split: prod.split)

lemma aggregates_total:
  assumes "unique_accounts db"
  shows "sum_list (map ag_debit_sum (fetch_account_aggregates t i lo hi db)) = sum_list (map ge_debit_amount (trial_balance_entries t i hi lo db))"
    and "sum_list (map ag_credit_sum (fetch_account_aggregates t i lo hi db)) = sum_list (map ge_credit_amount (trial_balance_entries t i hi lo db))"
proof -
  let ?js = "joined_entries t i lo hi db"
  show "sum_list (map ag_debit_sum (fetch_account_aggregates t i lo hi db)) = sum_list (map ge_debit_amount (trial_balance_entries t i hi lo db))"
    using filter_fst_sum [of ge_debit_amount group_key_of ?js fst] joined_entries_fst [OF assms, of t i lo hi]
    by (simp only: fetch_account_aggregates_def Let_def map_map comp_def aggregate_sums)
  show "sum_list (map ag_credit_sum (fetch_account_aggregates t i lo hi db)) = sum_list (map ge_credit_amount (trial_balance_entries t i hi lo db))"
    using filter_fst_sum [of ge_credit_amount group_key_of ?js fst] joined_entries_fst [OF assms, of t i lo hi]
    by (simp only: fetch_account_aggregates_def Let_def map_map comp_def aggregate_sums)
qed

section \<open>Python's sums of the aggregates\<close>

definition weight :: "account_aggregate \<Rightarrow> rat" where
  "weight r = ag_debit_sum r + ag_credit_sum r"

definition net_credit :: "account_aggregate \<Rightarrow> rat" where
  "net_credit r = ag_credit_sum r - ag_debit_sum r"

text \<open>Rows whose arithmetic is exact.\<close>

definition fine_rows :: "account_aggregate list \<Rightarrow> bool" where
  "fine_rows rows \<longleftrightarrow> (\<forall>r \<in> set rows. micro (ag_debit_sum r) \<and> micro (ag_credit_sum r) \<and> 0 \<le> ag_debit_sum r \<and> 0 \<le> ag_credit_sum r)
     \<and> sum_list (map weight rows) < 10 ^ 22"

lemma filter_weight_le:
  "\<forall>r \<in> set rows. 0 \<le> weight r \<Longrightarrow> sum_list (map weight (filter P rows)) \<le> sum_list (map weight rows)"
  by (induction rows) auto

lemma weight_le_sum: "\<forall>r \<in> set rows. 0 \<le> weight r \<Longrightarrow> r \<in> set rows \<Longrightarrow> weight r \<le> sum_list (map weight rows)"
proof (induction rows)
  case (Cons x xs)
  have "0 \<le> sum_list (map weight xs)" using Cons.prems(1) by (intro sum_list_nonneg) auto
  then show ?case using Cons by (cases "r = x") (auto intro: add_increasing)
qed simp

lemma fine_weight: "fine_rows rows \<Longrightarrow> \<forall>r \<in> set rows. 0 \<le> weight r"
  by (simp add: fine_rows_def weight_def)

lemma fine_filter: "fine_rows rows \<Longrightarrow> fine_rows (filter P rows)"
  using filter_weight_le [of rows P] fine_weight [of rows] by (auto simp: fine_rows_def)

lemma fine_difference:
  assumes "fine_rows rows" and "r \<in> set rows"
  shows "dsub (ag_debit_sum r) (ag_credit_sum r) = - net_credit r" and "dsub (ag_credit_sum r) (ag_debit_sum r) = net_credit r"
    and "micro (net_credit r)" and "\<bar>net_credit r\<bar> \<le> weight r"
proof -
  have m: "micro (ag_debit_sum r)" "micro (ag_credit_sum r)" "0 \<le> ag_debit_sum r" "0 \<le> ag_credit_sum r"
    using assms by (simp_all add: fine_rows_def)
  then show w: "\<bar>net_credit r\<bar> \<le> weight r" by (simp add: net_credit_def weight_def abs_le_iff)
  have "\<bar>net_credit r\<bar> < 10 ^ 22"
    using w weight_le_sum [OF fine_weight [OF assms(1)] assms(2)] assms(1) by (simp add: fine_rows_def)
  then show "dsub (ag_debit_sum r) (ag_credit_sum r) = - net_credit r" "dsub (ag_credit_sum r) (ag_debit_sum r) = net_credit r"
    using m by (auto simp: dsub_exact net_credit_def abs_minus_commute)
  show "micro (net_credit r)" using m by (auto simp: net_credit_def)
qed

lemma part_exact:
  assumes fine: "fine_rows rows" and amt: "\<forall>r \<in> set rows. amt r = net_credit r \<or> amt r = - net_credit r"
  shows "dsum (map amt rows) = sum_list (map amt rows)" and "\<bar>sum_list (map amt rows)\<bar> \<le> sum_list (map weight rows)"
    and "micro (sum_list (map amt rows))"
proof -
  have a: "\<forall>r \<in> set rows. micro (amt r) \<and> \<bar>amt r\<bar> \<le> weight r"
    using amt fine_difference(3,4) [OF fine] by (metis abs_minus_cancel micro_minus)
  have le: "sum_list (map abs (map amt rows)) \<le> sum_list (map weight rows)"
    using a by (induction rows) (auto intro: add_mono)
  have small: "sum_list (map abs (map amt rows)) < 10 ^ 22" using le fine by (simp add: fine_rows_def)
  show "dsum (map amt rows) = sum_list (map amt rows)" by (rule dsum_exact [OF _ small]) (use a in auto)
  show "\<bar>sum_list (map amt rows)\<bar> \<le> sum_list (map weight rows)"
    using le sum_list_abs [of "map amt rows"] by linarith
  show "micro (sum_list (map amt rows))" by (rule micro_sum_list) (use a in auto)
qed

section \<open>Profit and loss\<close>

abbreviation in_bucket :: "pnl_bucket \<Rightarrow> account_aggregate list \<Rightarrow> account_aggregate list" where
  "in_bucket b rows \<equiv> filter (\<lambda>r. classify_pnl_bucket r = b) rows"

lemma split_buckets:
  "sum_list (map f rows) = sum_list (map f (in_bucket REVENUE rows)) + sum_list (map f (in_bucket COST_OF_SALES rows))
     + sum_list (map f (in_bucket OPERATING_EXPENSE rows)) + sum_list (map f (in_bucket OTHER_INCOME rows))
     + (sum_list (map f (in_bucket OTHER_EXPENSE rows)) :: rat)"
proof (induction rows)
  case (Cons r rows)
  then show ?case by (cases "classify_pnl_bucket r") simp_all
qed simp

lemma pnl_amount_exact:
  assumes "fine_rows rows" and "r \<in> set rows"
  shows "pnl_amount r = (if classify_pnl_bucket r \<in> {REVENUE, OTHER_INCOME} then net_credit r else - net_credit r)"
  using fine_difference(1,2) [OF assms] by (simp add: pnl_amount_def signed_amount_for_bucket_def)

lemma bucket_total_exact:
  assumes "fine_rows rows"
  shows "bucket_total b rows = (if b \<in> {REVENUE, OTHER_INCOME} then 1 else - 1) * sum_list (map net_credit (in_bucket b rows))"
    and "\<bar>bucket_total b rows\<bar> \<le> sum_list (map weight (in_bucket b rows))" and "micro (bucket_total b rows)"
proof -
  have fine: "fine_rows (in_bucket b rows)" by (rule fine_filter [OF assms])
  have amt: "\<forall>r \<in> set (in_bucket b rows). pnl_amount r = net_credit r \<or> pnl_amount r = - net_credit r"
    using pnl_amount_exact [OF assms] by auto
  note p = part_exact [OF fine amt]
  have "map pnl_amount (in_bucket b rows) = map (\<lambda>r. (if b \<in> {REVENUE, OTHER_INCOME} then 1 else - 1) * net_credit r) (in_bucket b rows)"
    using pnl_amount_exact [OF assms] by auto
  then have "sum_list (map pnl_amount (in_bucket b rows)) = (if b \<in> {REVENUE, OTHER_INCOME} then 1 else - 1) * sum_list (map net_credit (in_bucket b rows))"
    by (simp only: sum_list_const_mult)
  then show "bucket_total b rows = (if b \<in> {REVENUE, OTHER_INCOME} then 1 else - 1) * sum_list (map net_credit (in_bucket b rows))"
    using p(1) by (simp add: bucket_total_def)
  show "\<bar>bucket_total b rows\<bar> \<le> sum_list (map weight (in_bucket b rows))" "micro (bucket_total b rows)"
    using p by (simp_all add: bucket_total_def)
qed

text \<open>Whatever the buckets are, the net profit is the net credit of all rows.\<close>

lemma net_of_buckets_exact:
  assumes fine: "fine_rows rows"
  shows "net_of_buckets rows = sum_list (map net_credit rows)"
proof -
  note e = bucket_total_exact [OF fine]
  let ?W = "\<lambda>b. sum_list (map weight (in_bucket b rows))"
  have W: "?W REVENUE + ?W COST_OF_SALES + ?W OPERATING_EXPENSE + ?W OTHER_INCOME + ?W OTHER_EXPENSE < 10 ^ 22"
    using fine split_buckets [of weight rows] by (simp add: fine_rows_def)
  have pos: "0 \<le> ?W b" for b using fine_weight [OF fine] by (auto intro!: sum_list_nonneg)
  let ?r = "bucket_total REVENUE rows" and ?c = "bucket_total COST_OF_SALES rows" and ?o = "bucket_total OPERATING_EXPENSE rows"
    and ?i = "bucket_total OTHER_INCOME rows" and ?x = "bucket_total OTHER_EXPENSE rows"
  have b: "\<bar>?r\<bar> \<le> ?W REVENUE" "\<bar>?c\<bar> \<le> ?W COST_OF_SALES" "\<bar>?o\<bar> \<le> ?W OPERATING_EXPENSE" "\<bar>?i\<bar> \<le> ?W OTHER_INCOME"
    "\<bar>?x\<bar> \<le> ?W OTHER_EXPENSE" by (rule e(2))+
  note pos5 = pos [of REVENUE] pos [of COST_OF_SALES] pos [of OPERATING_EXPENSE] pos [of OTHER_INCOME] pos [of OTHER_EXPENSE]
  have m: "micro ?r" "micro ?c" "micro ?o" "micro ?i" "micro ?x" by (rule e(3))+
  have 1: "dsub ?r ?c = ?r - ?c" using b W pos5 m by (intro dsub_exact) linarith+
  have 2: "dsub (?r - ?c) ?o = ?r - ?c - ?o" using b W pos5 m by (intro dsub_exact micro_diff) linarith+
  have 3: "dadd (?r - ?c - ?o) ?i = ?r - ?c - ?o + ?i" using b W pos5 m by (intro dadd_exact micro_diff) linarith+
  have 4: "dsub (?r - ?c - ?o + ?i) ?x = ?r - ?c - ?o + ?i - ?x" using b W pos5 m by (intro dsub_exact micro_add micro_diff) linarith+
  show ?thesis
    unfolding net_of_buckets_def 1 2 3 4 using e(1) split_buckets [of net_credit rows] by simp
qed

lemma control_net_exact:
  assumes "fine_rows rows"
  shows "control_net rows = sum_list (map net_credit rows)"
proof -
  let ?step = "\<lambda>net r. if classify_pnl_bucket r \<in> {REVENUE, OTHER_INCOME} then dadd net (pnl_amount r) else dsub net (pnl_amount r)"
  have "foldl ?step x rs = x + sum_list (map net_credit rs)"
    if "micro x" "\<bar>x\<bar> + sum_list (map weight rs) < 10 ^ 22" "set rs \<subseteq> set rows" for x rs
    using that
  proof (induction rs arbitrary: x)
    case (Cons r rs)
    have r: "r \<in> set rows" using Cons.prems(3) by simp
    note d = fine_difference(3,4) [OF assms r]
    have pos: "0 \<le> sum_list (map weight rs)" by (rule sum_list_nonneg) (use Cons.prems(3) fine_weight [OF assms] in auto)
    have w: "\<bar>x\<bar> + (weight r + sum_list (map weight rs)) < 10 ^ 22" using Cons.prems(2) by simp
    have "?step x r = x + net_credit r"
    proof -
      have small: "\<bar>x + net_credit r\<bar> < 10 ^ 22" using d(2) w pos by linarith
      then have "dsub x (- net_credit r) = x + net_credit r"
        using dsub_exact [of x "- net_credit r"] Cons.prems(1) d(1) by auto
      then show ?thesis using small pnl_amount_exact [OF assms r] Cons.prems(1) d(1) by (auto simp: dadd_exact)
    qed
    moreover have "\<bar>x + net_credit r\<bar> + sum_list (map weight rs) < 10 ^ 22" using d(2) w by linarith
    then have "foldl ?step (x + net_credit r) rs = x + net_credit r + sum_list (map net_credit rs)"
      using Cons.IH [of "x + net_credit r"] Cons.prems(1,3) d(1) by auto
    ultimately show ?case by simp
  qed simp
  from this [of 0 rows] show ?thesis using assms by (simp add: control_net_def fine_rows_def)
qed

section \<open>The statements of a reachable ledger\<close>

lemma fetch_fine:
  assumes ok: "ledger_ok db" and u: "unique_accounts db" and bound: "2 * journal_debits db < 10 ^ 22"
  shows "fine_rows (fetch_account_aggregates t i lo hi db)"
    and "sum_list (map net_credit (fetch_account_aggregates t i lo hi db))
      = sum_list (map ge_credit_amount (trial_balance_entries t i hi lo db)) - sum_list (map ge_debit_amount (trial_balance_entries t i hi lo db))"
proof -
  let ?es = "trial_balance_entries t i hi lo db" and ?rows = "fetch_account_aggregates t i lo hi db"
  note s = selected_small [OF ok refl, of t i hi lo]
  have "\<forall>g \<in> set (map fst (joined_entries t i lo hi db)). proper_entry g" using s(1) by (simp only: joined_entries_fst [OF u])
  then have mine: "\<forall>r \<in> set (joined_entries t i lo hi db). proper_entry (fst r)" by simp
  have sums: "micro (sum_list (map f (map fst (filter P (joined_entries t i lo hi db)))))
      \<and> 0 \<le> sum_list (map f (map fst (filter P (joined_entries t i lo hi db))))"
    if "f = ge_debit_amount \<or> f = ge_credit_amount" for f P
  proof -
    have "\<forall>x \<in> set (map f (map fst (filter P (joined_entries t i lo hi db)))). micro x \<and> 0 \<le> x"
      using that mine by (auto simp: proper_entry_def)
    then show ?thesis by (simp only: micro_sum_list sum_list_nonneg simp_thms)
  qed
  have rows: "\<forall>r \<in> set ?rows. micro (ag_debit_sum r) \<and> micro (ag_credit_sum r) \<and> 0 \<le> ag_debit_sum r \<and> 0 \<le> ag_credit_sum r"
    using sums by (auto simp: fetch_account_aggregates_def Let_def aggregate_sums)
  have "sum_list (map weight ?rows) = sum_list (map ge_debit_amount ?es) + sum_list (map ge_credit_amount ?es)"
    unfolding weight_def sum_list_addf aggregates_total [OF u] by (rule refl)
  then have "sum_list (map weight ?rows) < 10 ^ 22" using s(2,3) bound by linarith
  then show "fine_rows ?rows" using rows by (simp add: fine_rows_def)
  show "sum_list (map net_credit ?rows) = sum_list (map ge_credit_amount ?es) - sum_list (map ge_debit_amount ?es)"
    unfolding net_credit_def sum_list_subtractf aggregates_total [OF u] by (rule refl)
qed

lemma fine_small: "fine_rows rows \<Longrightarrow> \<bar>sum_list (map net_credit rows)\<bar> < 10 ^ 22 \<and> micro (sum_list (map net_credit rows))"
  using part_exact(2,3) [of rows net_credit] by (auto simp: fine_rows_def)

lemma nonzero_rows:
  assumes "fine_rows rows"
  shows "sum_list (map net_credit (filter (\<lambda>r. pnl_amount r \<noteq> 0) rows)) = sum_list (map net_credit rows)"
proof -
  have "net_credit r = 0" if "r \<in> set rows" "pnl_amount r = 0" for r
    using pnl_amount_exact [OF assms that(1)] that(2) by (auto split: if_splits)
  then show ?thesis by (induction rows) auto
qed

lemma pnl_of_fine:
  assumes fine: "fine_rows rows" and d: "from_date \<le> to_date" and e: "get_entity_for_tenant t i db = Inr x"
    and rows: "rows = fetch_account_aggregates t i (Some (start_of_day from_date)) (end_of_day to_date) db"
  shows "\<exists>p. get_profit_and_loss t i from_date to_date db = Inr p \<and> pn_net_profit p = sum_list (map net_credit rows)"
proof -
  let ?moved = "filter (\<lambda>r. pnl_amount r \<noteq> 0) rows"
  define z where "z = sum_list (map net_credit rows)"
  have "net_of_buckets ?moved = z" using net_of_buckets_exact [OF fine_filter [OF fine]] nonzero_rows [OF fine] by (simp add: z_def)
  then have n: "dsub (dadd (dsub (dsub (bucket_total REVENUE ?moved) (bucket_total COST_OF_SALES ?moved)) (bucket_total OPERATING_EXPENSE ?moved))
       (bucket_total OTHER_INCOME ?moved)) (bucket_total OTHER_EXPENSE ?moved) = z" by (simp add: net_of_buckets_def)
  have c: "control_net rows = z" using control_net_exact [OF fine] by (simp add: z_def)
  have "dsub z z = 0" by (subst dsub_exact) (use fine_small [OF fine] in \<open>auto simp: z_def\<close>)
  moreover have "\<not> to_date < from_date" using d by simp
  ultimately show ?thesis
    unfolding get_profit_and_loss_def e rows [symmetric] Let_def n c z_def [symmetric] by (simp add: raise_if_def tolerance_def)
qed

lemma bs_items_total:
  assumes "fine_rows rows"
  shows "items_total (bs_items b rows) = (if b = ASSET then - 1 else 1) * sum_list (map net_credit (filter (\<lambda>r. fst (classify_balance_sheet_bucket r) = b) rows))"
    and "\<bar>items_total (bs_items b rows)\<bar> \<le> sum_list (map weight (filter (\<lambda>r. fst (classify_balance_sheet_bucket r) = b) rows))"
    and "micro (items_total (bs_items b rows))"
proof -
  let ?all = "filter (\<lambda>r. fst (classify_balance_sheet_bucket r) = b) rows"
  let ?mine = "filter (\<lambda>r. bs_amount r \<noteq> 0) ?all"
  have amt: "bs_amount r = (if fst (classify_balance_sheet_bucket r) = ASSET then - 1 else 1) * net_credit r" if "r \<in> set rows" for r
    using fine_difference(1,2) [OF assms that] by (simp add: bs_amount_def balance_amount_def)
  have items: "items_total (bs_items b rows) = dsum (map bs_amount ?mine)"
    by (simp add: items_total_def bs_items_def comp_def conj_commute)
  have "fine_rows ?mine" by (intro fine_filter assms)
  from part_exact [OF this, of bs_amount] have p: "dsum (map bs_amount ?mine) = sum_list (map bs_amount ?mine)"
    "\<bar>sum_list (map bs_amount ?mine)\<bar> \<le> sum_list (map weight ?mine)" "micro (sum_list (map bs_amount ?mine))"
    using amt by auto
  have nz: "sum_list (map bs_amount (filter (\<lambda>r. bs_amount r \<noteq> 0) rs)) = sum_list (map bs_amount rs)" for rs
    by (induction rs) auto
  have "map bs_amount ?all = map (\<lambda>r. (if b = ASSET then - 1 else 1) * net_credit r) ?all" using amt by auto
  then have all: "sum_list (map bs_amount ?all) = (if b = ASSET then - 1 else 1) * sum_list (map net_credit ?all)"
    by (simp only: sum_list_const_mult)
  show "items_total (bs_items b rows) = (if b = ASSET then - 1 else 1) * sum_list (map net_credit ?all)"
    unfolding items p(1) nz all by (rule refl)
  have "sum_list (map weight ?mine) \<le> sum_list (map weight ?all)"
    by (rule filter_weight_le) (use fine_weight [OF assms] in auto)
  then show "\<bar>items_total (bs_items b rows)\<bar> \<le> sum_list (map weight ?all)" using items p by simp
  show "micro (items_total (bs_items b rows))" using items p by simp
qed

lemma split_sides:
  "sum_list (map f rows) = sum_list (map f (filter (\<lambda>r. fst (classify_balance_sheet_bucket r) = ASSET) rows))
     + sum_list (map f (filter (\<lambda>r. fst (classify_balance_sheet_bucket r) = LIABILITY) rows))
     + (sum_list (map f (filter (\<lambda>r. fst (classify_balance_sheet_bucket r) = EQUITY) rows)) :: rat)"
proof (induction rows)
  case (Cons r rows)
  then show ?case by (cases "fst (classify_balance_sheet_bucket r)") simp_all
qed simp

text \<open>(C5) The statements of a reachable ledger.  Start from empty voucher tables, let the journal handlers and \<open>create_gl_entry\<close> run
  one after the other in any order, and let the tenant's account codes be unique, as their table demands.  Then the net
  profit of every profit and loss statement is the difference of the period's credits and debits over all accounts, because
  \<open>_classify_pnl_bucket\<close> counts assets, liabilities and equity as other income or operating expense: it is zero whenever the
  period separates no two entries of one posting.  When the end of the period separates none either, the balance sheet of that day is
  not refused and balances exactly, its total assets equal to its liabilities and equity, with retained earnings of zero.
  The bound keeps the sums of Python's decimals exact.\<close>

theorem statements_balance_without_profit:
  assumes "no_journals db0" and "journal_history en db0 db" and "few_lines db" and "unique_accounts db"
    and e: "get_entity_for_tenant t i db = Inr entity" and bound: "2 * journal_debits db < 10 ^ 22"
    and d: "from_date \<le> to_date"
  shows "(let es = trial_balance_entries t i (end_of_day to_date) (Some (start_of_day from_date)) db in
      \<exists>p. get_profit_and_loss t i from_date to_date db = Inr p
        \<and> pn_net_profit p = sum_list (map ge_credit_amount es) - sum_list (map ge_debit_amount es)
        \<and> (whole_postings (Some (start_of_day from_date)) (end_of_day to_date) db \<longrightarrow> pn_net_profit p = 0))
    \<and> (whole_postings None (end_of_day to_date) db \<longrightarrow>
        (\<exists>b. get_balance_sheet t i to_date db = Inr b \<and> bs_retained_earnings b = 0
         \<and> bs_total_assets b = bs_liabilities_and_equity b \<and> bs_liabilities_and_equity b = bs_total_liabilities b + bs_total_equity b))"
proof (intro conjI impI)
  have ok: "ledger_ok db" by (rule history_ledger_ok [OF assms(1-3)])
  note fine = fetch_fine [OF ok assms(4) bound]
  show "let es = trial_balance_entries t i (end_of_day to_date) (Some (start_of_day from_date)) db in
      \<exists>p. get_profit_and_loss t i from_date to_date db = Inr p
        \<and> pn_net_profit p = sum_list (map ge_credit_amount es) - sum_list (map ge_debit_amount es)
        \<and> (whole_postings (Some (start_of_day from_date)) (end_of_day to_date) db \<longrightarrow> pn_net_profit p = 0)"
    using pnl_of_fine [OF fine(1) d e refl] selected_balance [OF ok] unfolding fine(2) Let_def by fastforce
  assume whole: "whole_postings None (end_of_day to_date) db"
  define rows where "rows = fetch_account_aggregates t i None (end_of_day to_date) db"
  have f: "fine_rows rows" and z: "sum_list (map net_credit rows) = 0"
    unfolding rows_def using fine(1) by (simp_all add: fine(2) selected_balance [OF ok whole])
  have re: "net_profit_from_rows rows = 0" using net_of_buckets_exact [OF f] z by (simp add: net_profit_from_rows_def)
  note items = bs_items_total [OF f]
  let ?A = "items_total (bs_items ASSET rows)" and ?L = "items_total (bs_items LIABILITY rows)" and ?E = "items_total (bs_items EQUITY rows)"
  have eq: "?A = ?L + ?E" using split_sides [of net_credit rows] z items(1) [of ASSET] items(1) [of LIABILITY] items(1) [of EQUITY] by simp
  have pos: "0 \<le> sum_list (map weight (filter P rows))" for P by (rule sum_list_nonneg) (use fine_weight [OF f] in auto)
  have W: "sum_list (map weight rows) < 10 ^ 22" using f by (simp add: fine_rows_def)
  have LE: "dadd ?L ?E = ?L + ?E"
  proof (rule dadd_exact [OF items(3) items(3)])
    show "\<bar>?L + ?E\<bar> < 10 ^ 22"
      using items(2) [of LIABILITY] items(2) [of EQUITY] split_sides [of weight rows] W
        pos [of "\<lambda>r. fst (classify_balance_sheet_bucket r) = ASSET"] by linarith
  qed
  have diff: "dsub (?L + ?E) (?L + ?E) = 0" by (subst dsub_exact) (use items(3) in auto)
  show "\<exists>b. get_balance_sheet t i to_date db = Inr b \<and> bs_retained_earnings b = 0
         \<and> bs_total_assets b = bs_liabilities_and_equity b \<and> bs_liabilities_and_equity b = bs_total_liabilities b + bs_total_equity b"
    unfolding get_balance_sheet_def e rows_def [symmetric] Let_def re by (simp add: raise_if_def LE eq diff tolerance_def)
qed

lemma ex_accounts: "ex_at st db \<Longrightarrow> unique_accounts db"
  by (simp add: unique_accounts_def ex_at_def ex_account_def)

lemma ex_whole:
  assumes "ex_at PUSHED db" and "map ge_created_at (jd_gl db) = ex_created"
  shows "whole_postings (Some (start_of_day (Date 2024 4 1))) (end_of_day (Date 2024 4 30)) db" and "whole_postings None (end_of_day (Date 2024 4 30)) db"
  by (rule ex_ledger [OF assms], simp add: whole_postings_def in_bounds_def ex_days)+

lemma statements_balance_without_profit_witness:
  "\<exists>db p b. journal_history ex_desk ex_books db \<and> get_profit_and_loss 7 4 (Date 2024 4 1) (Date 2024 4 30) db = Inr p
     \<and> pn_net_profit p = 0 \<and> get_balance_sheet 7 4 (Date 2024 4 30) db = Inr b \<and> bs_total_assets b = bs_liabilities_and_equity b"
proof -
  obtain db where h: "journal_history ex_desk ex_books db" and at: "ex_at PUSHED db" "map ge_created_at (jd_gl db) = ex_created"
    using ex_journal_history(2) by (elim exE conjE)
  have e: "get_entity_for_tenant 7 4 db = Inr ex_entity" using at(1) by (simp add: ex_at_def get_entity_for_tenant_def ex_entity_def)
  have d: "Date 2024 4 1 \<le> Date 2024 4 30" by (simp add: date_le_iff)
  have small: "2 * journal_debits db < 10 ^ 22" by (simp add: ex_journal_debits [OF at])
  from statements_balance_without_profit [OF ex_books_empty h ex_few [OF at(1)] ex_accounts [OF at(1)] e small d, unfolded Let_def]
    ex_whole [OF at] h
  show ?thesis by blast
qed

text \<open>(C40) A plain cash movement has no cash flow statement.  Take a ledger that the journal handlers and \<open>create_gl_entry\<close>, run one
  after the other, can reach, with unique account codes, and a period that separates no two entries of one posting, in which
  no account is tagged for investing or financing or counts as non-cash, while no account is classified as current.  If the
  cash and bank accounts moved by more than a hundredth, \<open>get_cash_flow_statement\<close> raises: the net profit it starts from is
  zero (see the statements above), nothing else contributes, so its net cash flow is zero and the control against the cash
  accounts fails.  So a single cash sale is enough.  (A posting that the period splits may give it a profit.)\<close>

theorem cash_movement_refused:
  assumes "no_journals db0" and "journal_history en db0 db" and "few_lines db" and "unique_accounts db"
    and e: "get_entity_for_tenant t i db = Inr entity" and bound: "2 * journal_debits db < 10 ^ 22"
    and d: "from_date \<le> to_date" "prev_day from_date = Inr day_before"
    and whole: "whole_postings (Some (start_of_day from_date)) (end_of_day to_date) db"
    and rows: "rows = fetch_account_aggregates t i (Some (start_of_day from_date)) (end_of_day to_date) db"
    and plain: "\<forall>r \<in> set rows. \<not> is_non_cash r \<and> normalize (ag_cash_flow_tag r) \<notin> {''INVESTING'', ''FINANCING''}"
      "\<forall>r \<in> set (fetch_account_aggregates t i None (end_of_day to_date) db). snd (classify_balance_sheet_bucket r) \<noteq> Some ''CURRENT''"
    and cash: "1 / 100 < \<bar>sum_list (map (\<lambda>r. ag_debit_sum r - ag_credit_sum r) (filter is_cash rows))\<bar>"
  shows "get_cash_flow_statement t i from_date to_date db
    = Inl (ValidationError ''Cash flow integrity failed: calculated net cash flow does not match cash account movement.'')"
proof -
  have ok: "ledger_ok db" by (rule history_ledger_ok [OF assms(1-3)])
  note fine = fetch_fine [OF ok assms(4) bound]
  have f: "fine_rows rows" and z: "sum_list (map net_credit rows) = 0"
    unfolding rows using fine(1) by (simp_all add: fine(2) selected_balance [OF ok whole])
  obtain p where p: "get_profit_and_loss t i from_date to_date db = Inr p" "pn_net_profit p = 0"
    using pnl_of_fine [OF f d(1) e rows] z by auto
  have none: "filter is_non_cash rows = []" "filter (\<lambda>r. normalize (ag_cash_flow_tag r) = ''INVESTING'') rows = []"
    "filter (\<lambda>r. normalize (ag_cash_flow_tag r) = ''FINANCING'') rows = []" using plain(1) by (auto simp: filter_empty_conv)
  let ?closing = "fetch_account_aggregates t i None (end_of_day to_date) db"
  have step: "working_capital_step os ?closing x c = x" for os x c
  proof (cases "row_by_code ?closing c")
    case (Some r)
    then have "r \<in> set ?closing" unfolding row_by_code_def by (metis find_Some_iff nth_mem set_rev)
    then show ?thesis using plain(2) by (auto simp: working_capital_step_def Some split: prod.split)
  qed (simp add: working_capital_step_def)
  then have wc: "working_capital_changes os ?closing = 0" for os
  proof -
    have "foldl (working_capital_step os ?closing) x cs = x" for x cs by (induction cs arbitrary: x) (simp_all add: step)
    then show ?thesis by (simp add: working_capital_changes_def)
  qed
  have "\<forall>r \<in> set (filter is_cash rows). dsub (ag_debit_sum r) (ag_credit_sum r) = - net_credit r" using fine_difference(1) [OF f] by simp
  from part_exact [OF fine_filter [OF f, of is_cash], of "\<lambda>r. dsub (ag_debit_sum r) (ag_credit_sum r)"] this
  have c: "cash_delta rows = sum_list (map (\<lambda>r. dsub (ag_debit_sum r) (ag_credit_sum r)) (filter is_cash rows))"
    "\<bar>cash_delta rows\<bar> \<le> sum_list (map weight (filter is_cash rows))" "micro (cash_delta rows)" by (auto simp: cash_delta_def)
  have same: "map (\<lambda>r. dsub (ag_debit_sum r) (ag_credit_sum r)) (filter is_cash rows) = map (\<lambda>r. ag_debit_sum r - ag_credit_sum r) (filter is_cash rows)"
    using fine_difference(1) [OF f] by (auto simp: net_credit_def)
  have moved: "1 / 100 < \<bar>cash_delta rows\<bar>" unfolding c(1) same by (rule cash)
  have "\<bar>cash_delta rows\<bar> < 10 ^ 22"
    using c(2) filter_weight_le [OF fine_weight [OF f], of is_cash] f by (auto simp: fine_rows_def)
  then have diff: "dsub (cash_delta rows) 0 = cash_delta rows" using c(3) by (simp add: dsub_exact)
  have zero: "dadd 0 0 = 0" by (simp add: dadd_exact)
  have "\<not> to_date < from_date" "cash_delta rows \<noteq> 0" using d(1) moved by auto
  then show ?thesis
    using moved unfolding get_cash_flow_statement_def e p(1) d(2) rows [symmetric]
    by (simp add: p(2) none wc tagged_movement_def dsum_def zero diff raise_if_def tolerance_def Let_def)
qed

lemma ex_aggregates:
  assumes at: "ex_at PUSHED db" "map ge_created_at (jd_gl db) = ex_created"
    and "1713657600000000 \<le> hi" and "case lo of None \<Rightarrow> True | Some b \<Rightarrow> b \<le> 1713657599999999"
  shows "fetch_account_aggregates 7 4 lo hi db =
    [\<lparr>ag_account_code = ''CASH'', ag_account_name = ''CASH'', ag_debit_sum = 250, ag_credit_sum = 0, ag_bs_pl_flag = None,
       ag_asset_liability_class = None, ag_cash_flow_tag = None, ag_normal_balance = None\<rparr>,
     \<lparr>ag_account_code = ''SALES'', ag_account_name = ''SALES'', ag_debit_sum = 0, ag_credit_sum = 250, ag_bs_pl_flag = None,
       ag_asset_liability_class = None, ag_cash_flow_tag = None, ag_normal_balance = None\<rparr>]"
proof -
  obtain a b where gl: "jd_gl db = [a, b]" and ab: "ex_columns a = (''CASH'', 250, 0)" "ex_columns b = (''SALES'', 0, 250)" "ex_entry a" "ex_entry b"
    "ge_created_at a = 1713657599999999" "ge_created_at b = 1713657600000000" using ex_ledger [OF at] by metis
  have acc: "jd_accounts db = [ex_account 1 ''CASH'', ex_account 2 ''SALES'']" using at(1) by (simp add: ex_at_def)
  have "trial_balance_entries 7 4 hi lo db = [a, b]"
    using ab assms(3,4) by (cases lo) (simp_all add: trial_balance_entries_def gl ex_entry_def)
  then have "joined_entries 7 4 lo hi db = [(a, None), (b, None)]"
    using ab by (simp add: joined_entries_def chart_rows_def active_accounts_def acc ex_account_def ex_columns_def)
  moreover have "''CASH'' < (''SALES'' :: string)" by (simp add: list_less_def)
  ultimately show ?thesis
    using ab by (simp add: fetch_account_aggregates_def Let_def group_key_of_def aggregate_of_def ex_columns_def ex_entry_def)
qed

lemma ex_norms:
  "normalize None = []" "normalize (Some ''CASH'') = ''CASH''" "normalize (Some ''SALES'') = ''SALES''"
  by code_simp+

lemma cash_movement_refused_witness:
  "\<exists>db. journal_history ex_desk ex_books db \<and> get_cash_flow_statement 7 4 (Date 2024 4 1) (Date 2024 4 30) db
     = Inl (ValidationError ''Cash flow integrity failed: calculated net cash flow does not match cash account movement.'')"
proof -
  obtain db where h: "journal_history ex_desk ex_books db" and at: "ex_at PUSHED db" "map ge_created_at (jd_gl db) = ex_created"
    using ex_journal_history(2) by (elim exE conjE)
  have e: "get_entity_for_tenant 7 4 db = Inr ex_entity" using at(1) by (simp add: ex_at_def get_entity_for_tenant_def ex_entity_def)
  have d: "Date 2024 4 1 \<le> Date 2024 4 30" "prev_day (Date 2024 4 1) = Inr (Date 2024 3 31)"
    by (simp_all add: date_le_iff prev_day_def min_date_def days_in_month_def)
  have small: "2 * journal_debits db < 10 ^ 22" by (simp add: ex_journal_debits [OF at])
  have rows: "fetch_account_aggregates 7 4 (Some (start_of_day (Date 2024 4 1))) (end_of_day (Date 2024 4 30)) db
      = fetch_account_aggregates 7 4 None (end_of_day (Date 2024 4 30)) db"
    by (simp add: ex_aggregates [OF at] ex_days)
  show ?thesis
    by (intro exI conjI, rule h, rule cash_movement_refused
        [OF ex_books_empty h ex_few [OF at(1)] ex_accounts [OF at(1)] e small d ex_whole(1) [OF at] refl])
      (simp_all add: rows ex_aggregates [OF at] ex_days is_non_cash_def row_text_def is_cash_def classify_balance_sheet_bucket_def ex_norms)
qed

end
