(* ===== verification/Spec2Isabelle.thy ===== *)
theory Spec2Isabelle
  imports Run_Lifecycle Credits Lease_Journals Journal_Workflow Financial_Statements
begin

text \<open>
  A verification library for the accounting core of FinanceOps, the Python backend under
  \<open>src/backend/financeops\<close>.

  The program.  FinanceOps is a multi-tenant accounting service.  Its engines (revenue, lease,
  prepaid, fixed assets) turn a request into an accounting run: a header, an append-only
  event log, and derived rows (allocations, schedules, journals) that are inserted once,
  hash-chained per tenant and never updated.  Amounts are \<open>Decimal\<close> values with six places,
  currencies are translated at rates that the FX service selects, and corrections supersede
  earlier rows instead of changing them.

  How the theories correspond to the code.

    \<^item> Prelude: exceptions as a datatype, results as \<open>py_error + 'a\<close>, loops over results,
      stable sorting, dictionaries, \<open>ORDER BY ... LIMIT 1\<close>.
    \<^item> Decimals: \<open>decimal\<close>'s 28-digit context as rounding of rationals and the quantization
      policy (\<open>accounting_common/quantization_policy.py\<close>).
    \<^item> Dates: \<open>datetime.date\<close> and the month arithmetic of the engines.
    \<^item> Canonical\_Json: \<open>utils/determinism.py\<close>, the text every hash is taken of.
    \<^item> Audit\_Chain: \<open>utils/chain_hash.py\<close>, \<open>audit_writer.py\<close>, \<open>audit_service.py\<close>: chained inserts
      and their verification.  SHA-256 is the parameter \<open>sha\<close>.
    \<^item> Supersession: \<open>accounting_common/supersession_validator.py\<close>.
    \<^item> Run\_Lifecycle: \<open>accounting_common/run_signature.py\<close>, \<open>run_validation.py\<close>, \<open>run_lifecycle.py\<close>
      and the finalization handlers of the facades, with interleaved sessions.
    \<^item> Credits: \<open>services/credit_service.py\<close>.
    \<^item> FX\_Rates and FX\_Service: \<open>services/fx\<close>.  Provider answers and the Babel currency list are
      parameters.
    \<^item> Rate\_Source: the locale of what an engine may rely on when it asks for a rate; it is
      interpreted in Revenue\_Schedule on the resolver the revenue engine calls.
    \<^item> Revenue\_Allocation and Revenue\_Schedule: \<open>services/revenue/allocation_engine.py\<close> and
      \<open>schedule_generator.py\<close>.
    \<^item> Keyed\_Store: the locales of a table that is searched by a natural key and extended when
      the search finds nothing; Revenue\_Registry interprets them on the tables of
      \<open>contract_registry.py\<close> and \<open>obligation_tracker.py\<close>.
    \<^item> Revenue\_Remeasurement and Revenue\_Versions: \<open>services/revenue/remeasurement.py\<close>, the
      adjustments and the versions they chain.
    \<^item> Revenue\_Runs, Schedule\_Store, Revenue\_Journals: \<open>services/revenue/service_facade.py\<close>,
      \<open>journal_preview.py\<close> and \<open>lineage_validation.py\<close>: the activities of a run, the schedule
      table under its unique constraints, and the journals posted from it.

    \<^item> Lease\_Schedule, Lease\_Registry, Lease\_Remeasurement: \<open>services/lease\<close>: present value, liability
      and right-of-use schedules; the registration of leases and payments; modifications.
    \<^item> Lease\_Runs and Lease\_Journals: \<open>services/lease/service_facade.py\<close> and \<open>journal_preview.py\<close>:
      storing and regenerating the schedules, journals, lineage.
    \<^item> Governance: \<open>modules/accounting_layer/application/governance_service.py\<close>: period locks and
      approval policies; the mutation context of \<open>core/intent/context.py\<close>.
    \<^item> Journal\_States and Journal\_Vouchers: \<open>domain/state_machine.py\<close>, \<open>jv_service.py\<close> and
      \<open>approval_service.py\<close> of \<open>modules/accounting_layer\<close>: vouchers, lines, state events, decisions, timers.
    \<^item> Journal\_Posting: \<open>journal_service.py\<close>: draft, submission, review, approval, posting, reversal; and the other
      writer of the ledger table, \<open>create_gl_entry\<close> of \<open>services/reconciliation_service.py\<close>.
    \<^item> Journal\_Ledger: histories of all these handlers and the invariant they keep; the locale
      \<open>event_writer\<close> of the two functions that write the event log.
    \<^item> Journal\_Moves: every handler is a sequence of elementary moves of the tables; the handlers that users reach
      (\<open>desk_step\<close>).  Journal\_Books: the invariant of the moves.  Journal\_Example: a concrete history.
    \<^item> Trial\_Balance: \<open>trial_balance_service.py\<close>.  Journal\_Workflow: what the workflow promises.
    \<^item> Financial\_Statements: \<open>financial_statements_service.py\<close>: profit and loss, balance sheet and cash flow.

  What the lemmas show.  Decimals: where rounding is exact, monotone and total.  Audit\_Chain:
  every trail the writers produce verifies, and a verified chain binds its data up to
  SHA-256 collisions.  Canonical\_Json and Run\_Lifecycle: texts and signatures decide equality
  up to order; event logs stay gapless under interleaving; creation and appending are
  idempotent.  Supersession: validation decides linearity, appending preserves it.  FX: rate
  precedence, month-end locks, tenant isolation.  Revenue: nothing of a contract's price is
  lost between contract, allocation and schedule; registration, modification and posting are
  idempotent; the schedule table refuses what its constraints exclude.  Credits: no overdraft, a ledger that
  replays, reservations that settle once.  Leases: the liability rolls forward and closes near
  zero, the asset is amortised fully, the journals reconcile with the schedules, and what
  modifications do and fail to do.  Journals: the event log explains the status, changes of status are
  bounded, at the journal desk nobody approves an own journal but for the automatic approval of reversals, posting enters
  exactly the active lines, a reversal nets them out, and a trial balance balances unless its bounds split a posting.
  Statements: the balance sheet balances, and no period that splits no posting ever shows a profit.  Governance: the period
  rows refine a map from periods to statuses, of which the strictest lock decides.

  Conventions.  Exceptions are values; a handler that raises is rolled back by its caller, so
  an error result carries no state unless the code stores something before it raises.  An
  insert reads a clock that advances with every insert and draws the next id; the rows of one posting have
  different times, and how far these are apart is not used.  Histories of journals, rates and credits are serial: each
  handler is one step.  The code serialises credits and hash chains by locks, but not journals or monthly rates, whose
  overlapping requests are outside of what is claimed; runs are modelled with interleaved sessions.  Loops are
  structural or bounded by the rows they consume, so no fuel is chosen by hand except in
  \<open>order_chain\<close>, where the number of rows is enough because each round consumes one.

  Bounds.  A voucher has fewer than a million lines and the debits that journals entered stay below 10^22,
  so that Python's sums with 28 digits are exact; the lease and revenue properties state
  theirs.

  Not modelled: routes, ORM declarations, provider clients, workers and the modules listed as
  such in the manifest; lengths of text columns; of the accounting layer, the JSON of responses,
  close readiness and checklists, and the timer metrics.  The remaining engines (prepaid, fixed
  assets, consolidation) and the intent pipeline would follow.
\<close>

end
